(* ===== verification/Go_Float.thy ===== *)
theory Go_Float
  imports Complex_Main "HOL-Library.Log_Nat"
begin

text \<open>
  Go's \<open>float64\<close>, as far as the operators use it: the finite values are rationals, with the
  two infinities and NaN beside them, and every arithmetic operation computes the exact result
  and rounds it to the nearest binary64 value, ties to even, as IEEE 754 and the Go language
  require. The two zeros are one value: no code that is modelled observes the sign of a zero.

  The theory proves what the components rest on: rounding is monotone (\<open>round64_mono\<close>)
  and leaves a representable value alone (\<open>round64_idem\<close>), so that adding a non-negative
  margin never moves a threshold down and subtracting one never moves it up.
\<close>

section \<open>Powers of two and the binary exponent\<close>

definition pow2 :: "int \<Rightarrow> rat" where
  "pow2 e = (if 0 \<le> e then 2 ^ nat e else 1 / 2 ^ nat (- e))"

lemma pow2_pos [simp]: "0 < pow2 e"
  by (simp add: pow2_def)

lemma pow2_nonneg [simp]: "0 \<le> pow2 e"
  by (simp add: less_imp_le)

lemma pow2_neq_0 [simp]: "pow2 e \<noteq> 0"
  using pow2_pos [of e] by (simp del: pow2_pos)

lemma pow2_eq_powi: "pow2 e = 2 powi e"
  by (simp add: pow2_def power_int_def power_one_over)

lemma pow2_add: "pow2 (a + b) = pow2 a * pow2 b"
  by (simp add: pow2_eq_powi power_int_add)

lemma pow2_diff: "pow2 (a - b) = pow2 a / pow2 b"
  by (simp add: pow2_eq_powi power_int_diff)

lemma pow2_nat [simp]: "pow2 (int n) = 2 ^ n"
  by (simp add: pow2_def)

lemma pow2_le: "a \<le> b \<Longrightarrow> pow2 a \<le> pow2 b"
  by (simp add: pow2_eq_powi power_int_increasing)

lemma pow2_less: "a < b \<Longrightarrow> pow2 a < pow2 b"
  by (simp add: pow2_eq_powi power_int_strict_increasing)

lemma pow2_less_iff [simp]: "pow2 a < pow2 b \<longleftrightarrow> a < b"
  by (metis linorder_not_less pow2_le pow2_less)

lemma pow2_int: "0 \<le> e \<Longrightarrow> pow2 e = of_int (2 ^ nat e)"
  by (simp add: pow2_def)

lemma of_int_le_pow2: "0 \<le> e \<Longrightarrow> of_int k \<le> pow2 e \<longleftrightarrow> k \<le> 2 ^ nat e"
  by (simp only: pow2_int of_int_le_iff)

lemma pow2_le_of_int: "0 \<le> e \<Longrightarrow> pow2 e \<le> of_int k \<longleftrightarrow> 2 ^ nat e \<le> k"
  by (simp only: pow2_int of_int_le_iff)

text \<open>The exponent of a positive rational: the largest \<open>e\<close> with \<open>2\<^sup>e \<le> x\<close>, computed from
  the bit lengths of numerator and denominator.\<close>

definition expo :: "rat \<Rightarrow> int" where
  "expo x = (let (p, q) = quotient_of x; e = bitlen p - bitlen q
     in if pow2 e \<le> x then e else e - 1)"

lemma bitlen_pow2:
  assumes "0 < p"
  shows "pow2 (bitlen p - 1) \<le> of_int p" and "of_int p < pow2 (bitlen p)"
proof -
  have b: "0 < bitlen p"
    using assms bitlen_nonneg [of p] bitlen_eq_zero_iff [of p] by linarith
  have "2 ^ nat (bitlen p - 1) \<le> p" "p < 2 ^ nat (bitlen p)"
    using bitlen_bounds [OF assms] by auto
  then have "of_int (2 ^ nat (bitlen p - 1)) \<le> (of_int p :: rat)"
    and "(of_int p :: rat) < of_int (2 ^ nat (bitlen p))"
    by (simp_all only: of_int_le_iff of_int_less_iff)
  then show "pow2 (bitlen p - 1) \<le> of_int p" "of_int p < pow2 (bitlen p)"
    using b by (simp_all add: pow2_def)
qed

lemma expo_bounds:
  assumes "0 < x"
  shows "pow2 (expo x) \<le> x" and "x < pow2 (expo x + 1)"
proof -
  obtain p q where pq: "quotient_of x = (p, q)" by (cases "quotient_of x")
  have q: "0 < q" using pq by (rule quotient_of_denom_pos)
  have x: "x = of_int p / of_int q" using pq by (rule quotient_of_div)
  with assms q have p: "0 < p" by (simp add: zero_less_divide_iff)
  let ?a = "bitlen p" and ?b = "bitlen q"
  have "x < pow2 ?a / pow2 (?b - 1)"
    unfolding x using bitlen_pow2 [OF p] bitlen_pow2 [OF q] p q
    by (intro frac_less) (auto simp: less_imp_le)
  then have up: "x < pow2 (?a - ?b + 1)"
    by (simp add: pow2_diff [symmetric] algebra_simps)
  have "pow2 (?a - 1) / pow2 ?b \<le> x"
    unfolding x using bitlen_pow2 [OF p] bitlen_pow2 [OF q] p q
    by (intro frac_le) (auto simp: less_imp_le)
  then have lo: "pow2 (?a - ?b - 1) \<le> x"
    by (simp add: pow2_diff [symmetric] algebra_simps)
  show "pow2 (expo x) \<le> x" "x < pow2 (expo x + 1)"
    using up lo by (auto simp: expo_def pq Let_def)
qed

lemma expo_mono: "0 < x \<Longrightarrow> x \<le> y \<Longrightarrow> expo x \<le> expo y"
proof -
  assume "0 < x" "x \<le> y"
  then have "pow2 (expo x) < pow2 (expo y + 1)"
    using expo_bounds [of x] expo_bounds [of y] by linarith
  then show ?thesis by (simp only: pow2_less_iff)
qed

section \<open>Rounding to nearest, ties to even\<close>

definition rne :: "rat \<Rightarrow> int" where
  "rne x = (let f = \<lfloor>x\<rfloor>; r = x - of_int f
     in if r < 1/2 then f else if 1/2 < r then f + 1 else if even f then f else f + 1)"

lemma rne_of_int [simp]: "rne (of_int k) = k"
  by (simp add: rne_def Let_def)

lemma rne_bounds: "\<lfloor>x\<rfloor> \<le> rne x \<and> rne x \<le> \<lfloor>x\<rfloor> + 1"
  by (simp add: rne_def Let_def)

lemma rne_mono: "x \<le> y \<Longrightarrow> rne x \<le> rne y"
proof (cases "\<lfloor>x\<rfloor> = \<lfloor>y\<rfloor>")
  case True
  assume "x \<le> y"
  with True show ?thesis by (auto simp: rne_def Let_def)
next
  case False
  assume "x \<le> y"
  then have "\<lfloor>x\<rfloor> \<le> \<lfloor>y\<rfloor>" by (rule floor_mono)
  with False have "\<lfloor>x\<rfloor> + 1 \<le> \<lfloor>y\<rfloor>" by simp
  then show ?thesis using rne_bounds [of x] rne_bounds [of y] by linarith
qed

lemma rne_minus: "rne (- x) = - rne x"
proof (cases "of_int \<lfloor>x\<rfloor> = x")
  case True
  then obtain k where "x = of_int k" by metis
  then show ?thesis by (metis of_int_minus rne_of_int)
next
  case False
  then have c: "\<lfloor>- x\<rfloor> = - \<lfloor>x\<rfloor> - 1"
    by (smt (verit) ceiling_altdef ceiling_def)
  show ?thesis
    by (auto simp: rne_def c Let_def)
qed

lemma rne_le_int: "x \<le> of_int k \<Longrightarrow> rne x \<le> k"
  using rne_mono [of x "of_int k"] by simp

lemma int_le_rne: "of_int k \<le> x \<Longrightarrow> k \<le> rne x"
  using rne_mono [of "of_int k" x] by simp

text \<open>The exponent of the last place of the binary64 value nearest to \<open>x\<close>: 53 significant bits,
  with gradual underflow at \<open>2\<^sup>-\<^sup>1\<^sup>0\<^sup>7\<^sup>4\<close>.\<close>

definition lsb :: "rat \<Rightarrow> int" where
  "lsb x = max (expo \<bar>x\<bar> - 52) (- 1074)"

definition round_rat :: "rat \<Rightarrow> rat" where
  "round_rat x = (if x = 0 then 0 else of_int (rne (x / pow2 (lsb x))) * pow2 (lsb x))"

lemma round_rat_minus [simp]: "round_rat (- x) = - round_rat x"
  by (simp add: round_rat_def lsb_def rne_minus)

lemma round_rat_0 [simp]: "round_rat 0 = 0"
  by (simp add: round_rat_def)

lemma round_rat_nonneg: "0 \<le> x \<Longrightarrow> 0 \<le> round_rat x"
  using int_le_rne [of 0 "x / pow2 (lsb x)"] by (simp add: round_rat_def)

lemma round_rat_mono_pos:
  assumes "0 < x" "x \<le> y"
  shows "round_rat x \<le> round_rat y"
proof (cases "lsb x = lsb y")
  case True
  have "x / pow2 (lsb x) \<le> y / pow2 (lsb x)"
    using assms by (simp add: divide_right_mono)
  then show ?thesis using True assms rne_mono by (simp add: round_rat_def)
next
  case False
  let ?e = "expo y"
  have le: "expo x \<le> ?e" using assms by (rule expo_mono)
  with False assms have qy: "lsb y = ?e - 52" and lt: "lsb x < lsb y" "expo x < ?e"
    and ge: "lsb x \<le> ?e"
    by (auto simp: lsb_def max_def split: if_splits)
  have "x < pow2 ?e"
    using expo_bounds(2) [OF assms(1)] pow2_le [of "expo x + 1" ?e] lt by simp
  then have "x / pow2 (lsb x) \<le> pow2 (?e - lsb x)"
    by (simp add: pow2_diff divide_right_mono)
  then have "rne (x / pow2 (lsb x)) \<le> 2 ^ nat (?e - lsb x)"
    using ge by (intro rne_le_int) (simp add: pow2_def)
  then have "of_int (rne (x / pow2 (lsb x))) \<le> pow2 (?e - lsb x)"
    using ge by (simp add: of_int_le_pow2)
  then have rx: "round_rat x \<le> pow2 ?e"
    using assms by (simp add: round_rat_def pow2_diff field_simps)
  have "pow2 ?e \<le> y" using assms by (intro expo_bounds) simp
  then have "pow2 (?e - lsb y) \<le> y / pow2 (lsb y)"
    by (simp add: pow2_diff divide_right_mono)
  then have "2 ^ 52 \<le> rne (y / pow2 (lsb y))"
    using qy by (intro int_le_rne) (simp add: pow2_def)
  then have "pow2 (?e - lsb y) \<le> of_int (rne (y / pow2 (lsb y)))"
    using qy by (simp add: pow2_le_of_int)
  then have "pow2 ?e \<le> round_rat y"
    using assms by (simp add: round_rat_def pow2_diff field_simps)
  with rx show ?thesis by simp
qed

lemma round_rat_mono: "x \<le> y \<Longrightarrow> round_rat x \<le> round_rat y"
proof -
  assume le: "x \<le> y"
  consider "0 < x" | "x \<le> 0" "0 \<le> y" | "y < 0" by linarith
  then show ?thesis
  proof cases
    case 1
    then show ?thesis using le by (rule round_rat_mono_pos)
  next
    case 2
    then show ?thesis
      using round_rat_nonneg [of "- x"] round_rat_nonneg [of y] by simp
  next
    case 3
    then show ?thesis using round_rat_mono_pos [of "- y" "- x"] le by simp
  qed
qed

text \<open>A multiple of a power of two with at most 53 bits is a fixed point.\<close>

lemma round_rat_fixed_pos:
  assumes k: "0 < k" "k \<le> 2 ^ 53" and a: "- 1074 \<le> a"
  shows "round_rat (of_int k * pow2 a) = of_int k * pow2 a"
proof -
  let ?y = "of_int k * pow2 a"
  have y: "0 < ?y" using k by simp
  have "of_int k \<le> pow2 53" using k by (subst of_int_le_pow2) simp_all
  then have "?y \<le> pow2 53 * pow2 a" by simp
  then have "pow2 (expo ?y) \<le> pow2 (53 + a)"
    using expo_bounds(1) [OF y] unfolding pow2_add by (rule order.trans [rotated])
  then have e: "expo ?y \<le> a + 53"
    by (metis add.commute linorder_not_less pow2_less_iff)
  have "\<exists>n. ?y / pow2 (lsb ?y) = of_int n"
  proof (cases "lsb ?y \<le> a")
    case True
    then have "?y / pow2 (lsb ?y) = of_int (k * 2 ^ nat (a - lsb ?y))"
      by (simp add: pow2_def [of "a - lsb _"] pow2_diff [symmetric] flip: times_divide_eq_right)
    then show ?thesis by blast
  next
    case False
    with e a y have l: "lsb ?y = a + 1" and ey: "expo ?y = a + 53"
      by (auto simp: lsb_def max_def split: if_splits)
    have "pow2 (53 + a) \<le> ?y" using expo_bounds(1) [OF y] ey by (simp add: add.commute)
    then have "pow2 53 \<le> (of_int k :: rat)" by (simp add: pow2_add)
    then have "2 ^ nat 53 \<le> k" by (subst (asm) pow2_le_of_int) simp_all
    with k have "k = 2 ^ 53" by simp
    then have "?y / (pow2 a * pow2 1) = of_int (2 ^ 52)"
      by (simp add: pow2_def [of 1])
    then have "?y / pow2 (lsb ?y) = of_int (2 ^ 52)"
      unfolding l by (simp only: pow2_add)
    then show ?thesis by blast
  qed
  then obtain n where n: "?y / pow2 (lsb ?y) = of_int n" by blast
  then have "of_int n * pow2 (lsb ?y) = ?y" by (simp add: divide_eq_eq)
  with n y show ?thesis by (simp add: round_rat_def)
qed

lemma round_rat_fixed:
  assumes "\<bar>k\<bar> \<le> 2 ^ 53" "- 1074 \<le> a"
  shows "round_rat (of_int k * pow2 a) = of_int k * pow2 a"
proof -
  consider "k = 0" | "0 < k" | "0 < - k" by linarith
  then show ?thesis
  proof cases
    case 3
    then have "round_rat (of_int (- k) * pow2 a) = of_int (- k) * pow2 a"
      using assms by (intro round_rat_fixed_pos) auto
    then show ?thesis by simp
  qed (use assms round_rat_fixed_pos in auto)
qed

lemma round_rat_idem [simp]: "round_rat (round_rat x) = round_rat x"
proof (cases "x = 0")
  case False
  let ?k = "rne (x / pow2 (lsb x))"
  have x: "0 < \<bar>x\<bar>" using False by simp
  have "\<bar>x\<bar> < pow2 (expo \<bar>x\<bar> + 1)" using x by (rule expo_bounds)
  also have "\<dots> \<le> pow2 (lsb x + 53)" by (intro pow2_le) (simp add: lsb_def)
  finally have b: "\<bar>x / pow2 (lsb x)\<bar> \<le> of_int (2 ^ 53)"
    by (simp add: pow2_add abs_divide divide_le_eq) (simp add: pow2_def mult.commute)
  have "?k \<le> 2 ^ 53" using b by (intro rne_le_int) (simp only: abs_le_iff)
  moreover have "- (2 ^ 53) \<le> ?k"
    using b by (intro int_le_rne) (simp only: abs_le_iff of_int_minus minus_le_iff)
  ultimately have "\<bar>?k\<bar> \<le> 2 ^ 53" by (simp add: abs_le_iff)
  then have "round_rat (of_int ?k * pow2 (lsb x)) = of_int ?k * pow2 (lsb x)"
    by (rule round_rat_fixed) (simp add: lsb_def)
  with False show ?thesis by (simp add: round_rat_def [of x])
qed simp

section \<open>The float64 values and their operations\<close>

datatype f64 = Fin rat | PosInf | NegInf | NaN

definition overflow_limit :: rat where
  "overflow_limit = 2 ^ 1024"

definition round64 :: "rat \<Rightarrow> f64" where
  "round64 x = (let y = round_rat x
     in if overflow_limit \<le> y then PosInf else if y \<le> - overflow_limit then NegInf else Fin y)"

definition IsNaN :: "f64 \<Rightarrow> bool" where
  "IsNaN x \<longleftrightarrow> x = NaN"

definition IsInf :: "f64 \<Rightarrow> bool" where
  "IsInf x \<longleftrightarrow> x = PosInf \<or> x = NegInf"

fun is_finite :: "f64 \<Rightarrow> bool" where
  "is_finite (Fin _) = True"
| "is_finite _ = False"

text \<open>A value is a binary64 value when rounding leaves it alone.\<close>

fun f64_ok :: "f64 \<Rightarrow> bool" where
  "f64_ok (Fin r) = (round64 r = Fin r)"
| "f64_ok _ = True"

text \<open>Comparison: every comparison with NaN is false.\<close>

fun f64_less :: "f64 \<Rightarrow> f64 \<Rightarrow> bool" where
  "f64_less (Fin a) (Fin b) = (a < b)"
| "f64_less (Fin _) PosInf = True"
| "f64_less NegInf (Fin _) = True"
| "f64_less NegInf PosInf = True"
| "f64_less _ _ = False"

fun f64_le :: "f64 \<Rightarrow> f64 \<Rightarrow> bool" where
  "f64_le NaN _ = False"
| "f64_le _ NaN = False"
| "f64_le NegInf _ = True"
| "f64_le _ PosInf = True"
| "f64_le (Fin a) (Fin b) = (a \<le> b)"
| "f64_le _ _ = False"

fun f64_neg :: "f64 \<Rightarrow> f64" where
  "f64_neg (Fin a) = Fin (- a)"
| "f64_neg PosInf = NegInf"
| "f64_neg NegInf = PosInf"
| "f64_neg NaN = NaN"

fun f64_add :: "f64 \<Rightarrow> f64 \<Rightarrow> f64" where
  "f64_add NaN _ = NaN"
| "f64_add _ NaN = NaN"
| "f64_add (Fin a) (Fin b) = round64 (a + b)"
| "f64_add PosInf NegInf = NaN"
| "f64_add NegInf PosInf = NaN"
| "f64_add PosInf _ = PosInf"
| "f64_add _ PosInf = PosInf"
| "f64_add NegInf _ = NegInf"
| "f64_add _ NegInf = NegInf"

definition f64_sub :: "f64 \<Rightarrow> f64 \<Rightarrow> f64" where
  "f64_sub a b = f64_add a (f64_neg b)"

text \<open>Division by a finite non-zero value, which is all the code needs of \<open>/\<close>.\<close>

fun f64_div :: "f64 \<Rightarrow> rat \<Rightarrow> f64" where
  "f64_div (Fin a) b = round64 (a / b)"
| "f64_div PosInf b = (if b < 0 then NegInf else PosInf)"
| "f64_div NegInf b = (if b < 0 then PosInf else NegInf)"
| "f64_div NaN b = NaN"

lemma overflow_limit_pos [simp]: "0 < overflow_limit"
  by (simp add: overflow_limit_def)

lemma round64_Fin: "round64 x = Fin y \<longleftrightarrow>
    round_rat x = y \<and> - overflow_limit < y \<and> y < overflow_limit"
  by (auto simp: round64_def Let_def)

lemma round64_not_NaN [simp]: "round64 x \<noteq> NaN"
  by (simp add: round64_def Let_def)

lemma round64_idem: "round64 x = Fin y \<Longrightarrow> round64 y = Fin y"
  by (auto simp: round64_Fin)

lemma f64_ok_round64 [simp]: "f64_ok (round64 x)"
  by (cases "round64 x") (auto dest: round64_idem)

lemma round64_mono: "x \<le> y \<Longrightarrow> f64_le (round64 x) (round64 y)"
  using round_rat_mono [of x y] overflow_limit_pos
  by (auto simp: round64_def Let_def simp del: overflow_limit_pos)

lemma round64_small:
  assumes "\<bar>x\<bar> \<le> pow2 e" "e < 1024" "0 \<le> e"
  shows "is_finite (round64 x)"
proof -
  have r: "round_rat (pow2 e) = pow2 e"
    using round_rat_fixed [of 1 e] assms by simp
  have "round_rat x \<le> pow2 e" "- pow2 e \<le> round_rat x"
    using assms round_rat_mono [of x "pow2 e"] round_rat_mono [of "- pow2 e" x] r
    by (auto simp: abs_le_iff)
  moreover have "pow2 e < overflow_limit"
    using pow2_less [of e 1024] assms by (simp add: overflow_limit_def pow2_def [of 1024])
  ultimately show ?thesis by (simp add: round64_def Let_def)
qed

text \<open>Integers of at most 53 bits are exact, which is what evaluates the witnesses.\<close>

lemma round64_of_int:
  assumes "\<bar>k\<bar> \<le> 2 ^ 53"
  shows "round64 (of_int k) = Fin (of_int k)"
proof -
  have r: "round_rat (of_int k) = of_int k" using round_rat_fixed [of k 0] assms by (simp add: pow2_def)
  have "\<bar>of_int k :: rat\<bar> \<le> pow2 53"
    using assms of_int_le_pow2 [of 53 "\<bar>k\<bar>"] by simp
  then have "is_finite (round64 (of_int k))" by (rule round64_small) simp_all
  with r show ?thesis by (auto simp: round64_def Let_def split: if_splits)
qed

lemma round64_ints [simp]:
  "round64 0 = Fin 0" "round64 1 = Fin 1"
  "numeral n \<le> (2 ^ 53 :: int) \<Longrightarrow> round64 (numeral n) = Fin (numeral n)"
  "numeral n \<le> (2 ^ 53 :: int) \<Longrightarrow> round64 (- numeral n) = Fin (- numeral n)"
  using round64_of_int [of 0] round64_of_int [of 1] round64_of_int [of "numeral n"]
    round64_of_int [of "- numeral n"] by simp_all

lemma f64_le_refl: "x \<noteq> NaN \<Longrightarrow> f64_le x x"
  by (cases x) auto

lemma f64_le_trans: "f64_le x y \<Longrightarrow> f64_le y z \<Longrightarrow> f64_le x z"
  by (cases x; cases y; cases z) auto

lemma f64_not_less: "is_finite x \<Longrightarrow> y \<noteq> NaN \<Longrightarrow> \<not> f64_less x y \<longleftrightarrow> f64_le y x"
  by (cases x; cases y) auto

lemma f64_not_le: "is_finite x \<Longrightarrow> y \<noteq> NaN \<Longrightarrow> \<not> f64_le x y \<longleftrightarrow> f64_less y x"
  by (cases x; cases y) auto

lemma f64_le_not_less: "f64_le y x \<Longrightarrow> \<not> f64_less x y"
  by (cases x; cases y) auto

lemma f64_less_imp_le: "f64_less x y \<Longrightarrow> f64_le x y"
  by (cases x; cases y) auto

lemma is_finite_iff: "is_finite x \<longleftrightarrow> \<not> IsNaN x \<and> \<not> IsInf x"
  by (cases x) (auto simp: IsNaN_def IsInf_def)

lemma f64_finite_E:
  assumes "is_finite x" obtains r where "x = Fin r"
  using assms by (cases x) auto

text \<open>Adding a margin never lowers a value, subtracting one never raises it, whatever the
  rounding does.\<close>

lemma f64_add_ge:
  assumes "is_finite v" "f64_ok v" "is_finite m" "f64_le (Fin 0) m"
  shows "f64_le v (f64_add v m)"
proof -
  from assms obtain a b where ab: "v = Fin a" "m = Fin b" by (metis f64_finite_E)
  with assms have "a \<le> a + b" "round64 a = Fin a" by auto
  with ab show ?thesis using round64_mono [of a "a + b"] by simp
qed

lemma f64_sub_le:
  assumes "is_finite v" "f64_ok v" "is_finite m" "f64_le (Fin 0) m"
  shows "f64_le (f64_sub v m) v"
proof -
  from assms obtain a b where ab: "v = Fin a" "m = Fin b" by (metis f64_finite_E)
  with assms have "a + - b \<le> a" "round64 a = Fin a" by auto
  with ab show ?thesis using round64_mono [of "a + - b" a] by (simp add: f64_sub_def)
qed

lemma f64_add_0: "is_finite v \<Longrightarrow> f64_ok v \<Longrightarrow> f64_add v (Fin 0) = v"
  by (cases v) auto

lemma f64_sub_0: "is_finite v \<Longrightarrow> f64_ok v \<Longrightarrow> f64_sub v (Fin 0) = v"
  by (cases v) (auto simp: f64_sub_def)

lemma f64_sub_not_NaN: "is_finite v \<Longrightarrow> is_finite m \<Longrightarrow> f64_sub v m \<noteq> NaN"
  by (cases v; cases m) (auto simp: f64_sub_def)

lemma f64_add_not_NaN: "is_finite v \<Longrightarrow> is_finite m \<Longrightarrow> f64_add v m \<noteq> NaN"
  by (cases v; cases m) auto

end
