(* ===== verification/Go_Prelude.thy ===== *)
theory Go_Prelude
  imports Go_Float "HOL-Library.Sublist" "HOL-Library.Word"
begin

text \<open>
  What every component of the operators shares: Go's \<open>time.Time\<close> and \<open>time.Duration\<close>, the
  64-bit integers, errors as values with the sentinels they wrap, the messages the code formats,
  and the generic list and option lemmas of the library.

  A \<open>time.Time\<close> is the number of nanoseconds since the zero time (1 January of year 1, UTC), so
  that \<open>IsZero\<close> is equality with 0; a \<open>time.Duration\<close> is a number of nanoseconds. A formatted
  message is kept as the list of its pieces (\<open>msg\<close>): the literal parts of the format string
  and the values the verbs print, so that what a message says is visible without modelling the
  rendering of durations, floats and timestamps.
\<close>

named_theorems go_time "unfolding of the time and duration operations"
named_theorems path_simps "distinctness of the path names"
named_theorems k8s_simps "laws of the Kubernetes condition helpers"

section \<open>Time\<close>

type_synonym time = int
type_synonym duration = int

definition max_int64 :: int where
  "max_int64 = 2 ^ 63 - 1"

definition min_int64 :: int where
  "min_int64 = - (2 ^ 63)"

definition wrap64 :: "int \<Rightarrow> int" where
  "wrap64 x = (x + 2 ^ 63) mod 2 ^ 64 - 2 ^ 63"

abbreviation second :: duration where "second \<equiv> 1000000000"
abbreviation minute :: duration where "minute \<equiv> 60000000000"
abbreviation hour :: duration where "hour \<equiv> 3600000000000"

definition IsZero :: "time \<Rightarrow> bool" where
  "IsZero t \<longleftrightarrow> t = 0"

text \<open>\<open>Time.Sub\<close> saturates at the ends of the 64-bit range.\<close>

definition time_Sub :: "time \<Rightarrow> time \<Rightarrow> duration" where
  "time_Sub t u = max min_int64 (min max_int64 (t - u))"

definition time_Add :: "time \<Rightarrow> duration \<Rightarrow> time" where
  "time_Add t d = t + d"

text \<open>Duration arithmetic is \<open>int64\<close> arithmetic.\<close>

definition dur_sub :: "duration \<Rightarrow> duration \<Rightarrow> duration" where
  "dur_sub a b = wrap64 (a - b)"

text \<open>\<open>Time.Truncate\<close>: down to a multiple of \<open>d\<close> since the zero time.\<close>

definition time_Truncate :: "time \<Rightarrow> duration \<Rightarrow> time" where
  "time_Truncate t d = (if d \<le> 0 then t else t - t mod d)"

text \<open>\<open>Duration.Round\<close>: to the nearest multiple, halves away from zero.\<close>

definition dur_Round :: "duration \<Rightarrow> duration \<Rightarrow> duration" where
  "dur_Round d m = (if m \<le> 0 then d
     else if 0 \<le> d then (d + m div 2) div m * m else - ((- d + m div 2) div m * m))"

text \<open>\<open>time.UnixMilli\<close>: milliseconds since 1970, as nanoseconds since the zero time.\<close>

definition unix_epoch :: time where
  "unix_epoch = 62135596800 * second"

definition UnixMilli :: "int \<Rightarrow> time" where
  "UnixMilli ms = unix_epoch + ms * 1000000"

lemmas [go_time] = IsZero_def time_Sub_def time_Add_def

definition is_int64 :: "int \<Rightarrow> bool" where
  "is_int64 x \<longleftrightarrow> min_int64 \<le> x \<and> x \<le> max_int64"

text \<open>A comparison with a 64-bit duration sees through the saturation.\<close>

lemma time_Sub_less_iff:
  "is_int64 d \<Longrightarrow> time_Sub t u < d \<longleftrightarrow> t - u < d \<and> d \<noteq> min_int64"
  by (auto simp: time_Sub_def is_int64_def max_def min_def min_int64_def max_int64_def)

lemma time_Sub_less_pos:
  "is_int64 d \<Longrightarrow> 0 \<le> d \<Longrightarrow> time_Sub t u < d \<longleftrightarrow> t - u < d"
  by (auto simp: time_Sub_less_iff min_int64_def)

lemma time_Sub_gt_iff:
  "is_int64 d \<Longrightarrow> d < time_Sub t u \<longleftrightarrow> d < t - u \<and> d \<noteq> max_int64"
  by (auto simp: time_Sub_def is_int64_def max_def min_def min_int64_def max_int64_def)

lemma time_Sub_self [simp]: "time_Sub t t = 0"
  by (simp add: time_Sub_def min_int64_def max_int64_def)

lemma time_Truncate_le: "time_Truncate t d \<le> t"
  by (simp add: time_Truncate_def)

lemma time_Truncate_gt: "0 < d \<Longrightarrow> t < time_Truncate t d + d"
  by (simp add: time_Truncate_def)

lemma time_Truncate_idem [simp]: "time_Truncate (time_Truncate t d) d = time_Truncate t d"
  by (simp add: time_Truncate_def minus_mod_eq_mult_div)

lemma time_Truncate_mono: "t \<le> u \<Longrightarrow> time_Truncate t d \<le> time_Truncate u d"
  by (simp add: time_Truncate_def minus_mod_eq_mult_div zdiv_mono1)

section \<open>Messages and errors\<close>

text \<open>The pieces of a formatted message: a literal, and what the verbs \<open>%d\<close>, \<open>%s\<close> of a duration,
  \<open>%g\<close> of a float, \<open>time.RFC3339\<close>, \<open>%s\<close> of a time and \<open>%q\<close> print.\<close>

datatype piece =
    Lit string
  | Num int
  | Dur duration
  | FloatG f64
  | Stamp time
  | TimeS time
  | Quoted string

type_synonym msg = "piece list"

text \<open>The sentinel errors the code compares with \<open>errors.Is\<close> and \<open>errors.As\<close>. The typed errors
  that carry data, \<open>RateLimitError\<close>, \<open>predictionError\<close> and \<open>ephemerisPushError\<close>, keep what a caller
  reads of them.\<close>

datatype sentinel =
    ErrNoMetrics
  | ErrEndpointNotAllowed
  | ErrPrivateIP
  | ContextDone
  | AmbiguousNode
  | ErrBadResponse
  | ErrInvalidSourceURL
  | ErrAuthFailed
  | SessionExpired
  | RateLimit duration
  | PredictionReason string
  | RuntimeUnsupported
  | RuntimePushRejected
  | RuntimePushRetryLater
  | ConfigMapNotOwned
  | PushReason string

record gerror =
  err_msg :: msg
  err_is :: "sentinel list"

type_synonym 'a result = "gerror + 'a"

definition errors_Is :: "gerror \<Rightarrow> sentinel \<Rightarrow> bool" where
  "errors_Is e s \<longleftrightarrow> s \<in> set (err_is e)"

text \<open>\<open>errors.New\<close> and \<open>fmt.Errorf\<close> without a wrapped error.\<close>

definition Errorf :: "msg \<Rightarrow> gerror" where
  "Errorf m = \<lparr>err_msg = m, err_is = []\<rparr>"

text \<open>\<open>fmt.Errorf\<close> with \<open>%w\<close>: the message, and the chains of the errors it wraps.\<close>

definition Wrapf :: "msg \<Rightarrow> gerror list \<Rightarrow> gerror" where
  "Wrapf m es = \<lparr>err_msg = m, err_is = concat (map err_is es)\<rparr>"

definition sentinel_error :: "msg \<Rightarrow> sentinel \<Rightarrow> gerror" where
  "sentinel_error m s = \<lparr>err_msg = m, err_is = [s]\<rparr>"

lemma errors_Is_simps [simp]:
  "\<not> errors_Is (Errorf m) s"
  "errors_Is (Wrapf m es) s \<longleftrightarrow> (\<exists>e\<in>set es. errors_Is e s)"
  "errors_Is (sentinel_error m s') s \<longleftrightarrow> s = s'"
  by (auto simp: errors_Is_def Errorf_def Wrapf_def sentinel_error_def)

section \<open>Generic lemmas\<close>

lemma list_ex_snoc [simp]: "list_ex P (xs @ [x]) \<longleftrightarrow> list_ex P xs \<or> P x"
  by simp

lemma filter_eq_Nil_iff: "filter P xs = [] \<longleftrightarrow> (\<forall>x\<in>set xs. \<not> P x)"
  by (simp add: filter_empty_conv)

end
