(* ===== verification/Go_Strings.thy ===== *)
theory Go_Strings
  imports Go_Prelude
begin

text \<open>
  The functions of Go's \<open>strings\<close> and \<open>strconv\<close> that the operators call. A Go string is a byte
  sequence, here a list of \<open>char\<close>. \<open>ParseFloat\<close> follows \<open>strconv.ParseFloat(s, 64)\<close>: decimal and
  hexadecimal literals, underscores between digits, the special values, a syntax error unless the
  whole string is consumed, and a range error when the value rounds to an infinity.
\<close>

section \<open>strings\<close>

text \<open>The UTF-8 encodings of the code points \<open>unicode.IsSpace\<close> accepts.\<close>

definition space_runes :: "string list" where
  "space_runes =
     [[CHR 0x09], [CHR 0x0A], [CHR 0x0B], [CHR 0x0C], [CHR 0x0D], [CHR 0x20],
      [CHR 0xC2, CHR 0x85], [CHR 0xC2, CHR 0xA0], [CHR 0xE1, CHR 0x9A, CHR 0x80],
      [CHR 0xE2, CHR 0x80, CHR 0x80], [CHR 0xE2, CHR 0x80, CHR 0x81], [CHR 0xE2, CHR 0x80, CHR 0x82],
      [CHR 0xE2, CHR 0x80, CHR 0x83], [CHR 0xE2, CHR 0x80, CHR 0x84], [CHR 0xE2, CHR 0x80, CHR 0x85],
      [CHR 0xE2, CHR 0x80, CHR 0x86], [CHR 0xE2, CHR 0x80, CHR 0x87], [CHR 0xE2, CHR 0x80, CHR 0x88],
      [CHR 0xE2, CHR 0x80, CHR 0x89], [CHR 0xE2, CHR 0x80, CHR 0x8A], [CHR 0xE2, CHR 0x80, CHR 0xA8],
      [CHR 0xE2, CHR 0x80, CHR 0xA9], [CHR 0xE2, CHR 0x80, CHR 0xAF], [CHR 0xE2, CHR 0x81, CHR 0x9F],
      [CHR 0xE3, CHR 0x80, CHR 0x80]]"

function strip_runes :: "string list \<Rightarrow> string \<Rightarrow> string" where
  "strip_runes rs s = (case find (\<lambda>r. r \<noteq> [] \<and> prefix r s) rs of
     None \<Rightarrow> s | Some r \<Rightarrow> strip_runes rs (drop (length r) s))"
  by pat_completeness auto
termination
proof (relation "measure (\<lambda>(rs, s). length s)")
  fix rs s r
  assume "find (\<lambda>r. r \<noteq> [] \<and> prefix r s) rs = Some r"
  then have "r \<noteq> []" "prefix r s" by (auto simp: find_Some_iff)
  then have "length (drop (length r) s) < length s"
    using prefix_length_le [of r s] by (cases r) auto
  then show "((rs, drop (length r) s), rs, s) \<in> measure (\<lambda>(rs, s). length s)" by simp
qed simp

declare strip_runes.simps [simp del]

definition TrimSpace :: "string \<Rightarrow> string" where
  "TrimSpace s = rev (strip_runes (map rev space_runes) (rev (strip_runes space_runes s)))"

text \<open>\<open>strings.SplitN(s, sep, 2)\<close> for a non-empty separator: the parts around its first occurrence,
  \<open>None\<close> standing for the single part of a string without it.\<close>

fun split2 :: "string \<Rightarrow> string \<Rightarrow> (string \<times> string) option" where
  "split2 sep [] = None"
| "split2 sep (c # s) =
     (if prefix sep (c # s) then Some ([], drop (length sep) (c # s))
      else map_option (\<lambda>(a, b). (c # a, b)) (split2 sep s))"

text \<open>\<open>strings.Split\<close> at a single byte.\<close>

fun Split :: "char \<Rightarrow> string \<Rightarrow> string list" where
  "Split c [] = [[]]"
| "Split c (x # s) = (if x = c then [] # Split c s
     else case Split c s of [] \<Rightarrow> [[x]] | p # ps \<Rightarrow> (x # p) # ps)"

text \<open>\<open>strings.ToLower\<close> on ASCII.\<close>

definition to_lower :: "char \<Rightarrow> char" where
  "to_lower c = (let n = (of_char c :: nat) in if 65 \<le> n \<and> n \<le> 90 then char_of (n + 32) else c)"

definition ToLower :: "string \<Rightarrow> string" where
  "ToLower s = map to_lower s"

text \<open>\<open>strings.TrimRight(s, cutset)\<close>.\<close>

definition TrimRight :: "string \<Rightarrow> char list \<Rightarrow> string" where
  "TrimRight s cs = rev (dropWhile (\<lambda>c. c \<in> set cs) (rev s))"

lemma TrimRight_length: "length (TrimRight s cs) \<le> length s"
  using length_dropWhile_le [of _ "rev s"] by (simp add: TrimRight_def)

fun Join :: "string list \<Rightarrow> string \<Rightarrow> string" where
  "Join [] sep = ''''"
| "Join [s] sep = s"
| "Join (s # t # ss) sep = s @ sep @ Join (t # ss) sep"

section \<open>strconv.ParseFloat\<close>

datatype num_error = ErrSyntax | ErrRange

definition is_digit :: "char \<Rightarrow> bool" where
  "is_digit c \<longleftrightarrow> (let n = (of_char c :: nat) in 48 \<le> n \<and> n \<le> 57)"

text \<open>The value of a digit in the given base (10 or 16), \<open>None\<close> for any other byte.\<close>

definition digit_val :: "nat \<Rightarrow> char \<Rightarrow> nat option" where
  "digit_val base c = (let n = (of_char c :: nat); l = (of_char (to_lower c) :: nat) in
     if 48 \<le> n \<and> n \<le> 57 then Some (n - 48)
     else if base = 16 \<and> 97 \<le> l \<and> l \<le> 102 then Some (l - 87) else None)"

text \<open>The mantissa loop of \<open>readFloat\<close>: whether a dot and a digit were seen, the digits as one
  number, how many of them follow the dot, and the unread rest. Underscores are skipped here and
  checked afterwards.\<close>

record mant =
  sawdot :: bool
  sawdigits :: bool
  mant_val :: nat
  mant_frac :: nat

fun scan_mant :: "nat \<Rightarrow> mant \<Rightarrow> string \<Rightarrow> mant \<times> string" where
  "scan_mant base m [] = (m, [])"
| "scan_mant base m (c # s) =
     (if c = CHR ''_'' then scan_mant base m s
      else if c = CHR ''.'' then
        (if sawdot m then (m, c # s) else scan_mant base (m\<lparr>sawdot := True\<rparr>) s)
      else case digit_val base c of
        None \<Rightarrow> (m, c # s)
      | Some d \<Rightarrow> scan_mant base
          (m\<lparr>sawdigits := True, mant_val := mant_val m * base + d,
             mant_frac := mant_frac m + (if sawdot m then 1 else 0)\<rparr>) s)"

text \<open>The exponent digits: the value stops growing at 10000, as in the source of \<open>strconv\<close>.\<close>

fun scan_exp :: "nat \<Rightarrow> string \<Rightarrow> nat \<times> string" where
  "scan_exp e [] = (e, [])"
| "scan_exp e (c # s) =
     (if c = CHR ''_'' then scan_exp e s
      else if is_digit c then
        scan_exp (if e < 10000 then e * 10 + (of_char c - 48) else e) s
      else (e, c # s))"

text \<open>An optional sign.\<close>

fun scan_sign :: "string \<Rightarrow> bool \<times> string" where
  "scan_sign (c # s) = (if c = CHR ''+'' then (False, s)
     else if c = CHR ''-'' then (True, s) else (False, c # s))"
| "scan_sign [] = (False, [])"

text \<open>\<open>underscoreOK\<close>: an underscore only between digits, the base prefix counting as a digit. The
  first argument is the last class of byte seen.\<close>

datatype seen = Seen_start | Seen_digit | Seen_underscore | Seen_other

fun underscores_ok :: "bool \<Rightarrow> seen \<Rightarrow> string \<Rightarrow> bool" where
  "underscores_ok hex w [] = (w \<noteq> Seen_underscore)"
| "underscores_ok hex w (c # s) =
     (if digit_val (if hex then 16 else 10) c \<noteq> None then underscores_ok hex Seen_digit s
      else if c = CHR ''_'' then w = Seen_digit \<and> underscores_ok hex Seen_underscore s
      else w \<noteq> Seen_underscore \<and> underscores_ok hex Seen_other s)"

definition has_hex_prefix :: "string \<Rightarrow> bool" where
  "has_hex_prefix s \<longleftrightarrow> 2 < length s \<and> s ! 0 = CHR ''0'' \<and> to_lower (s ! 1) = CHR ''x''"

text \<open>\<open>readFloat\<close> on the string after its sign: the exact value.\<close>

definition read_float :: "string \<Rightarrow> rat option" where
  "read_float s =
     (let hex = has_hex_prefix s;
          base = (if hex then 16 else 10);
          (m, r) = scan_mant base \<lparr>sawdot = False, sawdigits = False, mant_val = 0, mant_frac = 0\<rparr>
                     (if hex then drop 2 s else s);
          us = (CHR ''_'' \<in> set s \<and> \<not> (if hex then underscores_ok True Seen_digit (drop 2 s)
                  else underscores_ok False Seen_start s))
      in if \<not> sawdigits m \<or> us then None
         else case r of
           [] \<Rightarrow> if hex then None
                 else Some (of_nat (mant_val m) / 10 ^ mant_frac m)
         | c # r' \<Rightarrow>
             if to_lower c \<noteq> (if hex then CHR ''p'' else CHR ''e'') then None
             else (let (neg, ds) = scan_sign r'
               in if ds = [] \<or> \<not> is_digit (hd ds) then None
                  else case scan_exp 0 ds of
                    (e, []) \<Rightarrow> Some (of_nat (mant_val m)
                        * (if hex then pow2 ((if neg then - int e else int e) - 4 * int (mant_frac m))
                           else if neg then 1 / 10 ^ (e + mant_frac m) else 10 ^ e / 10 ^ mant_frac m))
                  | (e, _ # _) \<Rightarrow> None))"

definition ParseFloat :: "string \<Rightarrow> num_error + f64" where
  "ParseFloat s =
     (let (neg, r) = scan_sign s in
      if ToLower s = ''nan'' then Inr NaN
      else if ToLower r = ''inf'' \<or> ToLower r = ''infinity'' then Inr (if neg then NegInf else PosInf)
      else case read_float r of
        None \<Rightarrow> Inl ErrSyntax
      | Some x \<Rightarrow> (case round64 (if neg then - x else x) of
            Fin y \<Rightarrow> Inr (Fin y)
          | _ \<Rightarrow> Inl ErrRange))"

lemma ParseFloat_ok: "ParseFloat s = Inr v \<Longrightarrow> f64_ok v"
  by (auto simp: ParseFloat_def Let_def split: prod.splits if_splits option.splits f64.splits
      dest: round64_idem)

section \<open>Trimming ASCII text\<close>

definition graphic :: "char \<Rightarrow> bool" where
  "graphic c \<longleftrightarrow> (let n = (of_char c :: nat) in 33 \<le> n \<and> n < 128)"

lemma strip_runes_stop:
  assumes "\<forall>r\<in>set rs. r \<noteq> [] \<longrightarrow> hd r \<noteq> c"
  shows "strip_runes rs (c # s) = c # s"
proof -
  have "find (\<lambda>r. r \<noteq> [] \<and> prefix r (c # s)) rs = None"
    using assms by (auto simp: find_None_iff prefix_Cons)
  then show ?thesis by (subst strip_runes.simps) simp
qed

lemma strip_runes_space:
  assumes "'' '' \<in> set rs" "\<forall>r\<in>set rs. r \<noteq> [] \<and> hd r = CHR '' '' \<longrightarrow> r = '' ''"
  shows "strip_runes rs (CHR '' '' # s) = strip_runes rs s"
proof -
  have "find (\<lambda>r. r \<noteq> [] \<and> prefix r (CHR '' '' # s)) rs \<noteq> None"
    using assms(1) by (auto simp: find_None_iff)
  then obtain r where r: "find (\<lambda>r. r \<noteq> [] \<and> prefix r (CHR '' '' # s)) rs = Some r" by blast
  then have "r \<in> set rs" "r \<noteq> []" "hd r = CHR '' ''"
    by (auto simp: find_Some_iff prefix_Cons dest: nth_mem)
  with assms(2) have "r = '' ''" by blast
  with r show ?thesis by (subst strip_runes.simps) simp
qed

lemma strip_runes_Nil [simp]: "strip_runes rs [] = []"
  by (subst strip_runes.simps) (auto split: option.splits simp: find_Some_iff prefix_def)

lemma space_runes_heads:
  "\<forall>r\<in>set space_runes. r \<noteq> [] \<longrightarrow> hd r = CHR '' '' \<and> r = '' '' \<or> \<not> graphic (hd r) \<and> hd r \<noteq> CHR '' ''"
  "\<forall>r\<in>set (map rev space_runes). r \<noteq> [] \<longrightarrow>
     hd r = CHR '' '' \<and> r = '' '' \<or> \<not> graphic (hd r) \<and> hd r \<noteq> CHR '' ''"
  by (simp_all add: space_runes_def graphic_def)

lemma space_runes_mem: "'' '' \<in> set space_runes" "'' '' \<in> set (map rev space_runes)"
  by (simp_all add: space_runes_def)

lemma strip_graphic:
  assumes "graphic c"
  shows "strip_runes space_runes (c # s) = c # s"
    and "strip_runes (map rev space_runes) (c # s) = c # s"
proof -
  have "c \<noteq> CHR '' ''" using assms by (auto simp: graphic_def)
  with assms space_runes_heads show "strip_runes space_runes (c # s) = c # s"
    "strip_runes (map rev space_runes) (c # s) = c # s"
    by (intro strip_runes_stop; force)+
qed

lemma strip_spaces:
  "strip_runes space_runes (replicate n (CHR '' '') @ s) = strip_runes space_runes s"
  "strip_runes (map rev space_runes) (replicate n (CHR '' '') @ s) = strip_runes (map rev space_runes) s"
proof -
  have 1: "strip_runes space_runes (CHR '' '' # s) = strip_runes space_runes s" for s
    by (rule strip_runes_space) (use space_runes_mem space_runes_heads in auto)
  have 2: "strip_runes (map rev space_runes) (CHR '' '' # s) = strip_runes (map rev space_runes) s" for s
    by (rule strip_runes_space) (use space_runes_mem space_runes_heads in auto)
  show "strip_runes space_runes (replicate n (CHR '' '') @ s) = strip_runes space_runes s"
    by (induction n) (simp_all add: 1)
  show "strip_runes (map rev space_runes) (replicate n (CHR '' '') @ s)
      = strip_runes (map rev space_runes) s"
    by (induction n) (simp_all add: 2)
qed

text \<open>Spaces around a text that starts and ends with graphic ASCII characters are what is cut.\<close>

lemma TrimSpace_graphic:
  assumes "s \<noteq> []" "graphic (hd s)" "graphic (last s)"
  shows "TrimSpace (replicate i (CHR '' '') @ s @ replicate j (CHR '' '')) = s"
proof -
  from assms obtain c t where s: "s = c # t" by (cases s) auto
  obtain u d where u: "s = u @ [d]" using assms(1) by (cases s rule: rev_cases) auto
  have "strip_runes space_runes (replicate i (CHR '' '') @ s @ replicate j (CHR '' ''))
      = s @ replicate j (CHR '' '')"
    using assms(2) by (simp add: strip_spaces s strip_graphic)
  moreover have "strip_runes (map rev space_runes) (rev (s @ replicate j (CHR '' ''))) = rev s"
    using assms(3) by (simp add: strip_spaces u strip_graphic)
  ultimately show ?thesis by (simp add: TrimSpace_def)
qed

lemmas TrimSpace_left = TrimSpace_graphic [where j = 0, simplified]
lemmas TrimSpace_right = TrimSpace_graphic [where i = 0, simplified]
lemmas TrimSpace_none = TrimSpace_graphic [where i = 0 and j = 0, simplified]

end
