(* ===== verification/Failover.thy ===== *)
theory Failover
  imports Go_Strings
begin

text \<open>
  The failover engine, \<open>pkg/slice/failover.go\<close>: the trigger language, the evaluation of a trigger
  set against the path metrics, the three nested evaluators (plain, with hysteresis, with
  anti-flap) and the fail-static evaluator. A \<open>PathType\<close> stays the string it is in the source,
  since the reconciler feeds the engine whatever the status holds; a \<open>Decision\<close>, which only ever
  takes its three constants, is a datatype. Logging is left out.
\<close>

section \<open>Paths, decisions, metrics\<close>

type_synonym PathType = string

definition PathTerrestrial :: PathType where "PathTerrestrial = ''terrestrial''"
definition PathSatellite :: PathType where "PathSatellite = ''satellite''"
definition PathUnavailable :: PathType where "PathUnavailable = ''unavailable''"

lemma path_distinct [simp]:
  "PathTerrestrial \<noteq> PathSatellite" "PathTerrestrial \<noteq> PathUnavailable"
  "PathSatellite \<noteq> PathUnavailable" "PathSatellite \<noteq> PathTerrestrial"
  "PathUnavailable \<noteq> PathTerrestrial" "PathUnavailable \<noteq> PathSatellite"
  by (simp_all add: PathTerrestrial_def PathSatellite_def PathUnavailable_def)

lemmas [path_simps] = PathTerrestrial_def PathSatellite_def PathUnavailable_def

definition metricRSRP :: string where "metricRSRP = ''rsrp''"
definition metricTerrestrialRSRP :: string where "metricTerrestrialRSRP = ''terrestrialRSRP''"
definition metricLatency :: string where "metricLatency = ''latency''"
definition metricTerrestrialLatency :: string where "metricTerrestrialLatency = ''terrestrialLatency''"
definition metricPacketLoss :: string where "metricPacketLoss = ''packetLoss''"
definition metricTerrestrialPacketLoss :: string where
  "metricTerrestrialPacketLoss = ''terrestrialPacketLoss''"

lemmas metric_names = metricRSRP_def metricTerrestrialRSRP_def metricLatency_def
  metricTerrestrialLatency_def metricPacketLoss_def metricTerrestrialPacketLoss_def

datatype Decision = DecisionStay | DecisionFailover | DecisionSwitchback

record FailoverResult =
  Decision :: Decision
  Reason :: msg
  TargetPath :: PathType

record Metrics =
  RSRP :: f64
  LatencyMs :: f64
  PacketLossPercent :: f64
  RSRPMissing :: bool
  LatencyMissing :: bool
  PacketLossMissing :: bool

record Trigger =
  Metric :: string
  Operator :: string
  Value :: f64

section \<open>Triggers\<close>

definition metricMissing :: "Trigger \<Rightarrow> Metrics \<Rightarrow> bool" where
  "metricMissing t m =
     (if Metric t = metricRSRP \<or> Metric t = metricTerrestrialRSRP then RSRPMissing m
      else if Metric t = metricLatency \<or> Metric t = metricTerrestrialLatency then LatencyMissing m
      else if Metric t = metricPacketLoss \<or> Metric t = metricTerrestrialPacketLoss
        then PacketLossMissing m
      else False)"

definition validMetrics :: "string list" where
  "validMetrics = [metricRSRP, metricTerrestrialRSRP, metricLatency, metricTerrestrialLatency,
     metricPacketLoss, metricTerrestrialPacketLoss]"

text \<open>The body of \<open>ParseTrigger\<close>'s loop once an operator was found.\<close>

definition parse_parts :: "string \<Rightarrow> string \<Rightarrow> string \<Rightarrow> string \<Rightarrow> Trigger result" where
  "parse_parts s op p0 p1 =
     (let metric = TrimSpace p0; valueStr = TrimSpace p1 in
      case ParseFloat valueStr of
        Inl _ \<Rightarrow> Inl (Errorf [Lit ''invalid trigger value '', Quoted valueStr])
      | Inr value \<Rightarrow>
          if IsNaN value \<or> IsInf value
          then Inl (Errorf [Lit ''non-finite trigger value '', Quoted valueStr, Lit '' in '', Quoted s])
          else if metric = [] then Inl (Errorf [Lit ''empty metric in trigger '', Quoted s])
          else if metric \<notin> set validMetrics
          then Inl (Errorf [Lit ''unknown metric '', Quoted metric, Lit '' in trigger '', Quoted s])
          else Inr \<lparr>Metric = metric, Operator = op, Value = value\<rparr>)"

fun parse_ops :: "string \<Rightarrow> string list \<Rightarrow> Trigger result" where
  "parse_ops s [] = Inl (Errorf [Lit ''invalid trigger format '', Quoted s])"
| "parse_ops s (op # ops) =
     (case split2 op s of
        Some (p0, p1) \<Rightarrow> parse_parts s op p0 p1
      | None \<Rightarrow> parse_ops s ops)"

definition ParseTrigger :: "string \<Rightarrow> Trigger result" where
  "ParseTrigger s0 = (let s = TrimSpace s0 in parse_ops s [''<='', ''>='', ''<'', ''>''])"

text \<open>The metric a trigger reads, \<open>None\<close> for an unknown name.\<close>

definition actual_of :: "Trigger \<Rightarrow> Metrics \<Rightarrow> f64 option" where
  "actual_of t m =
     (if Metric t = metricRSRP \<or> Metric t = metricTerrestrialRSRP then Some (RSRP m)
      else if Metric t = metricLatency \<or> Metric t = metricTerrestrialLatency then Some (LatencyMs m)
      else if Metric t = metricPacketLoss \<or> Metric t = metricTerrestrialPacketLoss
        then Some (PacketLossPercent m)
      else None)"

definition EvaluateRecovery :: "Trigger \<Rightarrow> Metrics \<Rightarrow> f64 \<Rightarrow> bool" where
  "EvaluateRecovery t m margin =
     (case actual_of t m of
        None \<Rightarrow> False
      | Some actual \<Rightarrow>
          if Operator t = ''<'' \<or> Operator t = ''<='' then f64_le (f64_add (Value t) margin) actual
          else if Operator t = ''>'' \<or> Operator t = ''>='' then
            (let recoveryThreshold = f64_sub (Value t) margin;
                 recoveryThreshold = (if f64_less recoveryThreshold (Fin 0) then Fin 0
                                      else recoveryThreshold)
             in f64_le actual recoveryThreshold)
          else False)"

definition Evaluate :: "Trigger \<Rightarrow> Metrics \<Rightarrow> bool" where
  "Evaluate t m =
     (case actual_of t m of
        None \<Rightarrow> False
      | Some actual \<Rightarrow>
          if Operator t = ''<'' then f64_less actual (Value t)
          else if Operator t = ''>'' then f64_less (Value t) actual
          else if Operator t = ''<='' then f64_le actual (Value t)
          else if Operator t = ''>='' then f64_le (Value t) actual
          else False)"

fun InertTriggers :: "string list \<Rightarrow> Metrics \<Rightarrow> string list" where
  "InertTriggers [] m = []"
| "InertTriggers (s # ss) m =
     (case ParseTrigger s of
        Inl _ \<Rightarrow> InertTriggers ss m
      | Inr t \<Rightarrow> if metricMissing t m then s # InertTriggers ss m else InertTriggers ss m)"

section \<open>Trigger sets\<close>

record triggerSetResult =
  parsed :: "Trigger list"
  anyTriggered :: bool
  parseSuffix :: msg
  allInvalid :: bool
  hasUnknownTrigger :: bool

text \<open>One iteration of the loop of \<open>parseTriggerSet\<close>, on the result so far and the count of parse
  errors.\<close>

definition parse_step ::
  "Metrics \<Rightarrow> string \<Rightarrow> triggerSetResult \<times> nat \<Rightarrow> triggerSetResult \<times> nat" where
  "parse_step m s st =
     (let (r, errs) = st in
      case ParseTrigger s of
        Inl _ \<Rightarrow> (r, if anyTriggered r then errs else errs + 1)
      | Inr t \<Rightarrow>
          if metricMissing t m then (r\<lparr>hasUnknownTrigger := True\<rparr>, errs)
          else (r\<lparr>parsed := parsed r @ [t],
                  anyTriggered := anyTriggered r \<or> Evaluate t m\<rparr>, errs))"

definition parseTriggerSet :: "string list \<Rightarrow> Metrics \<Rightarrow> triggerSetResult" where
  "parseTriggerSet triggers m =
     (let (r, errs) = fold (parse_step m) triggers
            (\<lparr>parsed = [], anyTriggered = False, parseSuffix = [], allInvalid = False,
              hasUnknownTrigger = False\<rparr>, 0)
      in if parsed r = [] \<and> 0 < errs then r\<lparr>allInvalid := True\<rparr>
         else if 0 < errs
         then r\<lparr>parseSuffix := [Lit '' ('', Num (int errs), Lit '' of '', Num (int (length triggers)),
                 Lit '' triggers had parse errors)'']\<rparr>
         else r)"

definition passEndedReason :: "triggerSetResult \<Rightarrow> msg" where
  "passEndedReason ts =
     (if anyTriggered ts then [Lit ''Satellite pass ended, falling back to degraded terrestrial'']
      else if hasUnknownTrigger ts \<or> allInvalid ts
      then [Lit ''Satellite pass ended; returning to terrestrial (recovery unconfirmed)'']
      else [Lit ''Satellite pass ended, terrestrial recovered''])"

section \<open>The evaluators\<close>

definition normalizePath :: "PathType \<Rightarrow> PathType" where
  "normalizePath p = (if p \<noteq> PathTerrestrial \<and> p \<noteq> PathSatellite \<and> p \<noteq> PathUnavailable
     then PathTerrestrial else p)"

abbreviation mkResult :: "Decision \<Rightarrow> PathType \<Rightarrow> msg \<Rightarrow> FailoverResult" where
  "mkResult d p r \<equiv> \<lparr>Decision = d, Reason = r, TargetPath = p\<rparr>"

definition EvaluateFailoverWithContext ::
  "PathType \<Rightarrow> string list \<Rightarrow> Metrics \<Rightarrow> bool \<Rightarrow> duration \<Rightarrow> time \<Rightarrow> time \<Rightarrow> FailoverResult" where
  "EvaluateFailoverWithContext currentPath0 triggers metrics satelliteAvailable switchbackDelay
       lastFailover now =
     (let ts = parseTriggerSet triggers metrics;
          currentPath = normalizePath currentPath0 in
      if currentPath = PathSatellite \<and> \<not> satelliteAvailable
      then mkResult DecisionSwitchback PathTerrestrial (passEndedReason ts @ parseSuffix ts)
      else if allInvalid ts
      then mkResult DecisionStay currentPath
             [Lit ''All '', Num (int (length triggers)), Lit '' trigger expressions are invalid'']
      else if currentPath = PathTerrestrial then
        (if \<not> anyTriggered ts
         then mkResult DecisionStay PathTerrestrial (Lit ''Terrestrial path healthy'' # parseSuffix ts)
         else if \<not> satelliteAvailable
         then mkResult DecisionStay PathTerrestrial
                (Lit ''Terrestrial degraded but no satellite pass available'' # parseSuffix ts)
         else mkResult DecisionFailover PathSatellite
                (Lit ''Terrestrial path degraded, satellite pass available'' # parseSuffix ts))
      else if currentPath = PathSatellite then
        (if anyTriggered ts
         then mkResult DecisionStay PathSatellite
                (Lit ''Terrestrial still degraded, staying on satellite'' # parseSuffix ts)
         else if hasUnknownTrigger ts
         then mkResult DecisionStay PathSatellite
                (Lit ''Recovery unconfirmed (a trigger metric is unsourced), holding on satellite''
                 # parseSuffix ts)
         else if \<not> IsZero lastFailover \<and> time_Sub now lastFailover < switchbackDelay
         then mkResult DecisionStay PathSatellite
                ([Lit ''Terrestrial recovered but switchback delay not elapsed ('',
                  Dur (dur_sub switchbackDelay (time_Sub now lastFailover)), Lit '' remaining)'']
                 @ parseSuffix ts)
         else mkResult DecisionSwitchback PathTerrestrial
                (Lit ''Terrestrial recovered, switchback delay elapsed'' # parseSuffix ts))
      else
        (if \<not> anyTriggered ts then
           (if hasUnknownTrigger ts then
              (if satelliteAvailable
               then mkResult DecisionFailover PathSatellite
                      (Lit ''Terrestrial quality unknown; using the confirmed satellite pass''
                       # parseSuffix ts)
               else mkResult DecisionSwitchback PathTerrestrial
                      (Lit ''Initializing on terrestrial (quality unconfirmed; no satellite pass)''
                       # parseSuffix ts))
            else mkResult DecisionSwitchback PathTerrestrial
                   (Lit ''Initializing on terrestrial path'' # parseSuffix ts))
         else if satelliteAvailable
         then mkResult DecisionFailover PathSatellite
                (Lit ''Terrestrial unavailable, using satellite'' # parseSuffix ts)
         else mkResult DecisionStay PathUnavailable
                (Lit ''Both paths degraded'' # parseSuffix ts)))"

definition EvaluateFailover ::
  "PathType \<Rightarrow> string list \<Rightarrow> Metrics \<Rightarrow> bool \<Rightarrow> duration \<Rightarrow> time \<Rightarrow> time \<Rightarrow> FailoverResult" where
  "EvaluateFailover currentPath triggers metrics satelliteAvailable switchbackDelay lastFailover now =
     EvaluateFailoverWithContext currentPath triggers metrics satelliteAvailable switchbackDelay
       lastFailover now"

definition EvaluateFailoverWithHysteresis ::
  "PathType \<Rightarrow> string list \<Rightarrow> Metrics \<Rightarrow> bool \<Rightarrow> duration \<Rightarrow> time \<Rightarrow> time \<Rightarrow> f64 \<Rightarrow> FailoverResult"
  where
  "EvaluateFailoverWithHysteresis currentPath triggers metrics satelliteAvailable switchbackDelay
       lastFailover now hysteresisMargin =
     (if currentPath \<noteq> PathSatellite \<or> f64_le hysteresisMargin (Fin 0)
      then EvaluateFailoverWithContext currentPath triggers metrics satelliteAvailable
             switchbackDelay lastFailover now
      else
        (let ts = parseTriggerSet triggers metrics in
         if \<not> satelliteAvailable
         then mkResult DecisionSwitchback PathTerrestrial (passEndedReason ts @ parseSuffix ts)
         else if allInvalid ts
         then mkResult DecisionStay currentPath
                [Lit ''All '', Num (int (length triggers)), Lit '' trigger expressions are invalid'']
         else if anyTriggered ts
         then mkResult DecisionStay PathSatellite
                (Lit ''Terrestrial still degraded, staying on satellite'' # parseSuffix ts)
         else if hasUnknownTrigger ts
         then mkResult DecisionStay PathSatellite
                (Lit ''Recovery unconfirmed (a trigger metric is unsourced), holding on satellite''
                 # parseSuffix ts)
         else if \<not> list_all (\<lambda>t. EvaluateRecovery t metrics hysteresisMargin) (parsed ts)
         then mkResult DecisionStay PathSatellite
                ([Lit ''Terrestrial in hysteresis dead-band (margin='', FloatG hysteresisMargin,
                  Lit ''), staying on satellite''] @ parseSuffix ts)
         else if \<not> IsZero lastFailover \<and> time_Sub now lastFailover < switchbackDelay
         then mkResult DecisionStay PathSatellite
                ([Lit ''Terrestrial recovered past dead-band but switchback delay not elapsed ('',
                  Dur (dur_sub switchbackDelay (time_Sub now lastFailover)), Lit '' remaining)'']
                 @ parseSuffix ts)
         else mkResult DecisionSwitchback PathTerrestrial
                (Lit ''Terrestrial recovered past hysteresis dead-band, switchback delay elapsed''
                 # parseSuffix ts)))"

section \<open>Anti-flap\<close>

record AntiFlapConfig =
  ConfirmationSamples :: int
  MinTerrestrialDwell :: duration

record AntiFlapState =
  ConsecutiveDegraded :: int
  RecoveryObservedAt :: time
  LastSwitchback :: time
  LastCountedObservedAt :: time

definition zeroFlap :: AntiFlapState where
  "zeroFlap = \<lparr>ConsecutiveDegraded = 0, RecoveryObservedAt = 0, LastSwitchback = 0,
     LastCountedObservedAt = 0\<rparr>"

fun terrestrialDegraded :: "string list \<Rightarrow> Metrics \<Rightarrow> bool" where
  "terrestrialDegraded [] m = False"
| "terrestrialDegraded (s # ss) m =
     (case ParseTrigger s of
        Inl _ \<Rightarrow> terrestrialDegraded ss m
      | Inr t \<Rightarrow>
          if metricMissing t m then terrestrialDegraded ss m
          else if Evaluate t m then True
          else terrestrialDegraded ss m)"

text \<open>The loop of \<open>terrestrialConfirmedRecovered\<close>: \<open>None\<close> is the early \<open>return false\<close>, \<open>Some\<close> the
  final \<open>sawValid\<close>.\<close>

fun recovered_loop :: "string list \<Rightarrow> Metrics \<Rightarrow> f64 \<Rightarrow> bool \<Rightarrow> bool option" where
  "recovered_loop [] m margin sawValid = Some sawValid"
| "recovered_loop (s # ss) m margin sawValid =
     (case ParseTrigger s of
        Inl _ \<Rightarrow> recovered_loop ss m margin sawValid
      | Inr t \<Rightarrow>
          if metricMissing t m then None
          else if \<not> EvaluateRecovery t m margin then None
          else recovered_loop ss m margin True)"

definition terrestrialConfirmedRecovered :: "string list \<Rightarrow> Metrics \<Rightarrow> f64 \<Rightarrow> bool" where
  "terrestrialConfirmedRecovered triggers m margin =
     (case recovered_loop triggers m margin False of
        None \<Rightarrow> False
      | Some sawValid \<Rightarrow> if 0 < length triggers \<and> \<not> sawValid then False else True)"

text \<open>Step 1 of \<open>EvaluateFailoverWithAntiFlap\<close>: whether the sample is a new observation, and the
  update of the confirmation and recovery clocks.\<close>

definition newObservation :: "time \<Rightarrow> AntiFlapState \<Rightarrow> bool" where
  "newObservation observedAt st \<longleftrightarrow> IsZero observedAt \<or> observedAt > LastCountedObservedAt st"

definition update_clocks ::
  "string list \<Rightarrow> Metrics \<Rightarrow> time \<Rightarrow> time \<Rightarrow> f64 \<Rightarrow> AntiFlapState \<Rightarrow> AntiFlapState" where
  "update_clocks triggers metrics observedAt now hysteresisMargin st =
     (if newObservation observedAt st then
        (if terrestrialDegraded triggers metrics
         then st\<lparr>ConsecutiveDegraded := ConsecutiveDegraded st + 1, RecoveryObservedAt := 0\<rparr>
         else if terrestrialConfirmedRecovered triggers metrics hysteresisMargin
         then st\<lparr>ConsecutiveDegraded := 0,
                 RecoveryObservedAt := (if IsZero (RecoveryObservedAt st) then now
                                        else RecoveryObservedAt st)\<rparr>
         else st\<lparr>ConsecutiveDegraded := 0, RecoveryObservedAt := 0\<rparr>)
          \<lparr>LastCountedObservedAt := observedAt\<rparr>
      else st)"

text \<open>Step 3: the confirmation and dwell gates on a raw failover from terrestrial.\<close>

definition gate_failover ::
  "PathType \<Rightarrow> AntiFlapConfig \<Rightarrow> time \<Rightarrow> AntiFlapState \<Rightarrow> FailoverResult \<Rightarrow> FailoverResult" where
  "gate_failover currentPath cfg now st res =
     (if Decision res = DecisionFailover \<and> currentPath = PathTerrestrial then
        (if ConfirmationSamples cfg > 1 \<and> ConsecutiveDegraded st < ConfirmationSamples cfg
         then mkResult DecisionStay currentPath
                [Lit ''Terrestrial degraded, failover unconfirmed ('', Num (ConsecutiveDegraded st),
                 Lit ''/'', Num (ConfirmationSamples cfg), Lit '' consecutive samples)'']
         else if MinTerrestrialDwell cfg > 0 \<and> \<not> IsZero (LastSwitchback st)
           \<and> time_Sub now (LastSwitchback st) < MinTerrestrialDwell cfg
         then mkResult DecisionStay currentPath
                [Lit ''Terrestrial degraded but within min dwell after switchback ('',
                 Dur (dur_sub (MinTerrestrialDwell cfg) (time_Sub now (LastSwitchback st))),
                 Lit '' remaining)'']
         else res)
      else res)"

definition EvaluateFailoverWithAntiFlap ::
  "PathType \<Rightarrow> string list \<Rightarrow> Metrics \<Rightarrow> time \<Rightarrow> bool \<Rightarrow> duration \<Rightarrow> time \<Rightarrow> f64 \<Rightarrow> AntiFlapConfig
     \<Rightarrow> AntiFlapState \<Rightarrow> FailoverResult \<times> AntiFlapState" where
  "EvaluateFailoverWithAntiFlap currentPath triggers metrics observedAt satelliteAvailable
       switchbackDelay now hysteresisMargin cfg st0 =
     (let st = update_clocks triggers metrics observedAt now hysteresisMargin st0;
          res = EvaluateFailoverWithHysteresis currentPath triggers metrics satelliteAvailable
                  switchbackDelay (RecoveryObservedAt st) now hysteresisMargin;
          res = gate_failover currentPath cfg now st res
      in (res, if Decision res = DecisionSwitchback \<and> satelliteAvailable
                  \<and> currentPath = PathSatellite
               then st\<lparr>LastSwitchback := now\<rparr> else st))"

definition EvaluateSafeHold :: "PathType \<Rightarrow> bool \<Rightarrow> FailoverResult" where
  "EvaluateSafeHold currentPath0 satelliteAvailable =
     (let currentPath = normalizePath currentPath0 in
      if currentPath = PathSatellite \<and> \<not> satelliteAvailable
      then mkResult DecisionSwitchback PathTerrestrial
             [Lit ''metrics unreliable; switching back to terrestrial because the satellite pass window has ended'']
      else mkResult DecisionStay currentPath
             [Lit ''metrics unreliable; holding current path (fail static; orbital signal honored)''])"

section \<open>What a trigger set evaluates to\<close>

text \<open>The triggers of the policy that parse, in order.\<close>

definition valid_triggers :: "string list \<Rightarrow> Trigger list" where
  "valid_triggers ss = List.map_filter (\<lambda>s. case ParseTrigger s of Inl _ \<Rightarrow> None | Inr t \<Rightarrow> Some t) ss"

definition some_invalid :: "string list \<Rightarrow> bool" where
  "some_invalid ss \<longleftrightarrow> (\<exists>s\<in>set ss. \<exists>e. ParseTrigger s = Inl e)"

lemma valid_triggers_simps [simp]:
  "valid_triggers [] = []"
  "ParseTrigger s = Inl e \<Longrightarrow> valid_triggers (s # ss) = valid_triggers ss"
  "ParseTrigger s = Inr t \<Longrightarrow> valid_triggers (s # ss) = t # valid_triggers ss"
  by (simp_all add: valid_triggers_def List.map_filter_def)

lemma some_invalid_simps [simp]:
  "\<not> some_invalid []"
  "ParseTrigger s = Inl e \<Longrightarrow> some_invalid (s # ss)"
  "ParseTrigger s = Inr t \<Longrightarrow> some_invalid (s # ss) \<longleftrightarrow> some_invalid ss"
  by (auto simp: some_invalid_def)

lemma valid_triggers_Nil: "valid_triggers ss = [] \<Longrightarrow> some_invalid ss \<longleftrightarrow> ss \<noteq> []"
  by (induction ss) (auto simp: some_invalid_def valid_triggers_def List.map_filter_def split: sum.splits)

lemma terrestrialDegraded_iff:
  "terrestrialDegraded ss m \<longleftrightarrow> (\<exists>t\<in>set (valid_triggers ss). \<not> metricMissing t m \<and> Evaluate t m)"
  by (induction ss) (auto split: sum.splits)

lemma InertTriggers_Nil_iff:
  "InertTriggers ss m = [] \<longleftrightarrow> (\<forall>t\<in>set (valid_triggers ss). \<not> metricMissing t m)"
  by (induction ss) (auto split: sum.splits)

lemma recovered_loop_iff:
  "recovered_loop ss m margin v =
     (if \<forall>t\<in>set (valid_triggers ss). \<not> metricMissing t m \<and> EvaluateRecovery t m margin
      then Some (v \<or> valid_triggers ss \<noteq> []) else None)"
  by (induction ss arbitrary: v) (auto split: sum.splits)

lemma confirmed_recovered_iff:
  "terrestrialConfirmedRecovered ss m margin \<longleftrightarrow>
     (\<forall>t\<in>set (valid_triggers ss). \<not> metricMissing t m \<and> EvaluateRecovery t m margin)
     \<and> (ss = [] \<or> valid_triggers ss \<noteq> [])"
  by (auto simp: terrestrialConfirmedRecovered_def recovered_loop_iff)

lemma parse_step_simps:
  "ParseTrigger s = Inl e \<Longrightarrow>
     parse_step m s (r, n) = (r, if anyTriggered r then n else n + 1)"
  "ParseTrigger s = Inr t \<Longrightarrow> metricMissing t m \<Longrightarrow>
     parse_step m s (r, n) = (r\<lparr>hasUnknownTrigger := True\<rparr>, n)"
  "ParseTrigger s = Inr t \<Longrightarrow> \<not> metricMissing t m \<Longrightarrow> parse_step m s (r, n) =
     (r\<lparr>parsed := parsed r @ [t], anyTriggered := anyTriggered r \<or> Evaluate t m\<rparr>, n)"
  by (simp_all add: parse_step_def)

text \<open>The loop of \<open>parseTriggerSet\<close> from an arbitrary state.\<close>

lemma parse_fold:
  "fold (parse_step m) ss (r, n) = (r', n') \<Longrightarrow>
     parsed r' = parsed r @ filter (\<lambda>t. \<not> metricMissing t m) (valid_triggers ss)
     \<and> anyTriggered r' = (anyTriggered r \<or> terrestrialDegraded ss m)
     \<and> hasUnknownTrigger r' = (hasUnknownTrigger r \<or> InertTriggers ss m \<noteq> [])
     \<and> allInvalid r' = allInvalid r \<and> parseSuffix r' = parseSuffix r
     \<and> n \<le> n' \<and> (\<not> some_invalid ss \<longrightarrow> n' = n)
     \<and> (some_invalid ss \<and> \<not> anyTriggered r' \<longrightarrow> n < n')"
proof (induction ss arbitrary: r n)
  case Nil
  then show ?case by simp
next
  case (Cons s ss)
  show ?case
  proof (cases "ParseTrigger s")
    case (Inl e)
    with Cons.prems have "fold (parse_step m) ss (r, if anyTriggered r then n else n + 1) = (r', n')"
      by (simp only: fold_simps parse_step_simps)
    from Cons.IH [OF this] Inl show ?thesis by (auto split: if_splits)
  next
    case (Inr t)
    show ?thesis
    proof (cases "metricMissing t m")
      case True
      with Cons.prems Inr have "fold (parse_step m) ss (r\<lparr>hasUnknownTrigger := True\<rparr>, n) = (r', n')"
        by (simp only: fold_simps parse_step_simps simp_thms)
      from Cons.IH [OF this] Inr True show ?thesis by auto
    next
      case False
      with Cons.prems Inr have "fold (parse_step m) ss
          (r\<lparr>parsed := parsed r @ [t], anyTriggered := anyTriggered r \<or> Evaluate t m\<rparr>, n) = (r', n')"
        by (simp only: fold_simps parse_step_simps simp_thms)
      from Cons.IH [OF this] Inr False show ?thesis by auto
    qed
  qed
qed

lemma parseTriggerSet_parsed:
  "parsed (parseTriggerSet ss m) = filter (\<lambda>t. \<not> metricMissing t m) (valid_triggers ss)"
  by (auto simp: parseTriggerSet_def dest!: parse_fold split: prod.splits)

lemma parseTriggerSet_any:
  "anyTriggered (parseTriggerSet ss m) = terrestrialDegraded ss m"
  by (auto simp: parseTriggerSet_def dest!: parse_fold split: prod.splits)

lemma parseTriggerSet_unknown:
  "hasUnknownTrigger (parseTriggerSet ss m) \<longleftrightarrow> InertTriggers ss m \<noteq> []"
  by (auto simp: parseTriggerSet_def dest!: parse_fold split: prod.splits)

lemma parseTriggerSet_allInvalid:
  "allInvalid (parseTriggerSet ss m) \<longleftrightarrow> parsed (parseTriggerSet ss m) = [] \<and> some_invalid ss"
proof -
  obtain r n where f: "fold (parse_step m) ss
      (\<lparr>parsed = [], anyTriggered = False, parseSuffix = [], allInvalid = False,
        hasUnknownTrigger = False\<rparr>, 0) = (r, n)" by fastforce
  note p = parse_fold [OF f]
  have "parsed r = [] \<Longrightarrow> \<not> anyTriggered r"
    using p by (auto simp: terrestrialDegraded_iff filter_empty_conv)
  with f p show ?thesis by (auto simp: parseTriggerSet_def)
qed

lemmas trigger_set_simps = parseTriggerSet_parsed parseTriggerSet_any parseTriggerSet_unknown
  parseTriggerSet_allInvalid

section \<open>The contract of an evaluator\<close>

text \<open>
  What the reconciler relies on, whichever evaluator it calls: a satellite whose pass has ended is
  always left, the satellite is only ever a target while it is available, and the decision agrees
  with the target path.
\<close>

locale failover_engine =
  fixes eval :: "PathType \<Rightarrow> bool \<Rightarrow> FailoverResult"
  assumes orbital: "eval PathSatellite False = r \<Longrightarrow>
      Decision r = DecisionSwitchback \<and> TargetPath r = PathTerrestrial"
    and no_black_hole: "TargetPath (eval p a) = PathSatellite \<Longrightarrow> a"
    and stay: "Decision (eval p a) = DecisionStay \<Longrightarrow> TargetPath (eval p a) = normalizePath p"
    and failover: "Decision (eval p a) = DecisionFailover \<Longrightarrow>
      TargetPath (eval p a) = PathSatellite \<and> normalizePath p \<noteq> PathSatellite"
    and switchback: "Decision (eval p a) = DecisionSwitchback \<Longrightarrow>
      TargetPath (eval p a) = PathTerrestrial \<and> normalizePath p \<noteq> PathTerrestrial"
begin

lemma target_cases:
  "TargetPath (eval p a) = PathTerrestrial \<or> TargetPath (eval p a) = PathSatellite
   \<or> TargetPath (eval p a) = PathUnavailable"
  using stay [of p a] failover [of p a] switchback [of p a]
  by (cases "Decision (eval p a)") (auto simp: normalizePath_def)

lemma stay_iff: "Decision (eval p a) = DecisionStay \<longleftrightarrow> TargetPath (eval p a) = normalizePath p"
  using stay [of p a] failover [of p a] switchback [of p a]
  by (cases "Decision (eval p a)") auto

lemma unavailable_only_held:
  "TargetPath (eval p a) = PathUnavailable \<Longrightarrow> p = PathUnavailable"
  using stay [of p a] failover [of p a] switchback [of p a]
  by (cases "Decision (eval p a)") (auto simp: normalizePath_def split: if_splits)

end

lemma normalizePath_simps [simp]:
  "normalizePath PathTerrestrial = PathTerrestrial"
  "normalizePath PathSatellite = PathSatellite"
  "normalizePath PathUnavailable = PathUnavailable"
  "normalizePath (normalizePath p) = normalizePath p"
  by (auto simp: normalizePath_def)

lemma normalizePath_sat [simp]: "normalizePath p = PathSatellite \<longleftrightarrow> p = PathSatellite"
  by (auto simp: normalizePath_def)

lemma normalizePath_cases:
  "normalizePath p = PathTerrestrial \<or> normalizePath p = PathSatellite
   \<or> normalizePath p = PathUnavailable"
  by (auto simp: normalizePath_def)

lemma normalizePath_other:
  "normalizePath p \<noteq> PathTerrestrial \<Longrightarrow> p \<noteq> PathSatellite \<Longrightarrow> normalizePath p = PathUnavailable"
  by (auto simp: normalizePath_def split: if_splits)

interpretation ctx: failover_engine "\<lambda>p a. EvaluateFailoverWithContext p ts m a d l n" for ts m d l n
  by unfold_locales
    (auto simp: EvaluateFailoverWithContext_def Let_def normalizePath_other split: if_splits)

interpretation hyst: failover_engine
  "\<lambda>p a. EvaluateFailoverWithHysteresis p ts m a d l n h" for ts m d l n h
proof unfold_locales
  fix p a r
  show "EvaluateFailoverWithHysteresis PathSatellite ts m False d l n h = r \<Longrightarrow>
      Decision r = DecisionSwitchback \<and> TargetPath r = PathTerrestrial"
    using ctx.orbital [of ts m d l n]
    by (auto simp: EvaluateFailoverWithHysteresis_def Let_def split: if_splits)
  show "TargetPath (EvaluateFailoverWithHysteresis p ts m a d l n h) = PathSatellite \<Longrightarrow> a"
    using ctx.no_black_hole [of p ts m a d l n]
    by (auto simp: EvaluateFailoverWithHysteresis_def Let_def split: if_splits)
  show "Decision (EvaluateFailoverWithHysteresis p ts m a d l n h) = DecisionStay \<Longrightarrow>
      TargetPath (EvaluateFailoverWithHysteresis p ts m a d l n h) = normalizePath p"
    using ctx.stay [of p ts m a d l n]
    by (auto simp: EvaluateFailoverWithHysteresis_def Let_def split: if_splits)
  show "Decision (EvaluateFailoverWithHysteresis p ts m a d l n h) = DecisionFailover \<Longrightarrow>
      TargetPath (EvaluateFailoverWithHysteresis p ts m a d l n h) = PathSatellite
      \<and> normalizePath p \<noteq> PathSatellite"
    using ctx.failover [of p ts m a d l n]
    by (auto simp: EvaluateFailoverWithHysteresis_def Let_def split: if_splits)
  show "Decision (EvaluateFailoverWithHysteresis p ts m a d l n h) = DecisionSwitchback \<Longrightarrow>
      TargetPath (EvaluateFailoverWithHysteresis p ts m a d l n h) = PathTerrestrial
      \<and> normalizePath p \<noteq> PathTerrestrial"
    using ctx.switchback [of p ts m a d l n]
    by (auto simp: EvaluateFailoverWithHysteresis_def Let_def split: if_splits)
qed

text \<open>The gates only ever turn a failover from terrestrial into staying there, so they keep the
  contract of the engine they wrap.\<close>

lemma gate_failover_cases:
  "gate_failover p cfg n st r = r \<or>
   (p = PathTerrestrial \<and> Decision r = DecisionFailover
    \<and> Decision (gate_failover p cfg n st r) = DecisionStay
    \<and> TargetPath (gate_failover p cfg n st r) = PathTerrestrial)"
  by (auto simp: gate_failover_def)

lemma gate_engine:
  assumes "failover_engine e"
  shows "failover_engine (\<lambda>p a. gate_failover p cfg n st (e p a))"
proof -
  note e = failover_engine.orbital [OF assms] failover_engine.no_black_hole [OF assms]
    failover_engine.stay [OF assms] failover_engine.failover [OF assms]
    failover_engine.switchback [OF assms]
  show ?thesis
  proof
    fix p a r
    note g = gate_failover_cases [of p cfg n st "e p a"]
    show "gate_failover PathSatellite cfg n st (e PathSatellite False) = r \<Longrightarrow>
        Decision r = DecisionSwitchback \<and> TargetPath r = PathTerrestrial"
      using gate_failover_cases [of PathSatellite cfg n st "e PathSatellite False"] e(1) by auto
    show "TargetPath (gate_failover p cfg n st (e p a)) = PathSatellite \<Longrightarrow> a"
      using g e(2) by fastforce
    show "Decision (gate_failover p cfg n st (e p a)) = DecisionStay \<Longrightarrow>
        TargetPath (gate_failover p cfg n st (e p a)) = normalizePath p"
      using g e(3) by fastforce
    show "Decision (gate_failover p cfg n st (e p a)) = DecisionFailover \<Longrightarrow>
        TargetPath (gate_failover p cfg n st (e p a)) = PathSatellite
        \<and> normalizePath p \<noteq> PathSatellite"
      using g e(4) by fastforce
    show "Decision (gate_failover p cfg n st (e p a)) = DecisionSwitchback \<Longrightarrow>
        TargetPath (gate_failover p cfg n st (e p a)) = PathTerrestrial
        \<and> normalizePath p \<noteq> PathTerrestrial"
      using g e(5) by fastforce
  qed
qed

interpretation antiflap: failover_engine
  "\<lambda>p a. fst (EvaluateFailoverWithAntiFlap p ts m obs a d n h cfg st)" for ts m obs d n h cfg st
  using gate_engine [OF hyst.failover_engine_axioms]
  by (simp add: EvaluateFailoverWithAntiFlap_def Let_def)

interpretation safehold: failover_engine EvaluateSafeHold
  by unfold_locales (auto simp: EvaluateSafeHold_def Let_def split: if_splits)

section \<open>The clocks\<close>

lemma update_clocks_LastSwitchback [simp]:
  "LastSwitchback (update_clocks ts m obs n h st) = LastSwitchback st"
  by (simp add: update_clocks_def)

lemma update_clocks_replay:
  "\<not> newObservation obs st \<Longrightarrow> update_clocks ts m obs n h st = st"
  by (simp add: update_clocks_def)

lemma update_clocks_degraded:
  "newObservation obs st \<Longrightarrow> terrestrialDegraded ts m \<Longrightarrow>
     ConsecutiveDegraded (update_clocks ts m obs n h st) = ConsecutiveDegraded st + 1"
  by (simp add: update_clocks_def)

lemma update_clocks_healthy:
  "newObservation obs st \<Longrightarrow> \<not> terrestrialDegraded ts m \<Longrightarrow>
     ConsecutiveDegraded (update_clocks ts m obs n h st) = 0"
  by (simp add: update_clocks_def)

lemma update_clocks_cursor:
  "LastCountedObservedAt (update_clocks ts m obs n h st) =
     (if newObservation obs st then obs else LastCountedObservedAt st)"
  by (simp add: update_clocks_def)

lemma degraded_parsed: "terrestrialDegraded ts m \<Longrightarrow> \<not> allInvalid (parseTriggerSet ts m)"
  by (auto simp: trigger_set_simps terrestrialDegraded_iff filter_empty_conv)

text \<open>The two evaluators below the gates, on a path other than the satellite and on an available
  satellite.\<close>

lemma hysteresis_terrestrial_failover:
  "Decision (EvaluateFailoverWithHysteresis PathTerrestrial ts m a d l n h) = DecisionFailover
   \<longleftrightarrow> terrestrialDegraded ts m \<and> a"
  using degraded_parsed [of ts m]
  by (auto simp: EvaluateFailoverWithHysteresis_def EvaluateFailoverWithContext_def Let_def
      trigger_set_simps)

definition recovery_passed :: "string list \<Rightarrow> Metrics \<Rightarrow> f64 \<Rightarrow> bool" where
  "recovery_passed ts m h \<longleftrightarrow> \<not> allInvalid (parseTriggerSet ts m) \<and> \<not> terrestrialDegraded ts m
     \<and> InertTriggers ts m = []
     \<and> (f64_le h (Fin 0) \<or> list_all (\<lambda>t. EvaluateRecovery t m h) (parsed (parseTriggerSet ts m)))"

lemma hysteresis_satellite_switchback:
  "Decision (EvaluateFailoverWithHysteresis PathSatellite ts m True d l n h) = DecisionSwitchback
   \<longleftrightarrow> recovery_passed ts m h \<and> (IsZero l \<or> \<not> time_Sub n l < d)"
  by (auto simp: EvaluateFailoverWithHysteresis_def EvaluateFailoverWithContext_def Let_def
      recovery_passed_def parseTriggerSet_any parseTriggerSet_unknown)

lemma gate_switchback:
  "Decision (gate_failover p cfg n st r) = DecisionSwitchback \<longleftrightarrow> Decision r = DecisionSwitchback"
  by (auto simp: gate_failover_def)

lemma antiflap_switchback_iff:
  "Decision (fst (EvaluateFailoverWithAntiFlap PathSatellite ts m obs True d n h cfg st)) = DecisionSwitchback
   \<longleftrightarrow> recovery_passed ts m h
      \<and> (let l = RecoveryObservedAt (update_clocks ts m obs n h st) in IsZero l \<or> \<not> time_Sub n l < d)"
  by (simp add: EvaluateFailoverWithAntiFlap_def Let_def gate_switchback hysteresis_satellite_switchback)

lemma antiflap_failover_iff:
  "Decision (fst (EvaluateFailoverWithAntiFlap PathTerrestrial ts m obs a d n h cfg st)) = DecisionFailover
   \<longleftrightarrow> terrestrialDegraded ts m \<and> a
      \<and> (let st' = update_clocks ts m obs n h st in
           \<not> (ConfirmationSamples cfg > 1 \<and> ConsecutiveDegraded st' < ConfirmationSamples cfg)
           \<and> \<not> (MinTerrestrialDwell cfg > 0 \<and> \<not> IsZero (LastSwitchback st)
                \<and> time_Sub n (LastSwitchback st) < MinTerrestrialDwell cfg))"
  by (simp add: EvaluateFailoverWithAntiFlap_def Let_def gate_failover_def
      hysteresis_terrestrial_failover)

section \<open>Recovery and the dead-band\<close>

definition metrics_ok :: "Metrics \<Rightarrow> bool" where
  "metrics_ok m \<longleftrightarrow> is_finite (RSRP m) \<and> is_finite (LatencyMs m) \<and> is_finite (PacketLossPercent m)"

definition margin_ok :: "f64 \<Rightarrow> bool" where
  "margin_ok h \<longleftrightarrow> is_finite h \<and> f64_le (Fin 0) h"

text \<open>What the parser guarantees of a trigger.\<close>

definition trigger_ok :: "Trigger \<Rightarrow> bool" where
  "trigger_ok t \<longleftrightarrow> Metric t \<in> set validMetrics
     \<and> Operator t \<in> {''<='', ''>='', ''<'', ''>''} \<and> is_finite (Value t) \<and> f64_ok (Value t)"

lemma parse_parts_ok: "parse_parts s op p q = Inr t \<Longrightarrow>
    Operator t = op \<and> Metric t \<in> set validMetrics \<and> is_finite (Value t) \<and> f64_ok (Value t)"
  by (auto simp: parse_parts_def Let_def is_finite_iff dest: ParseFloat_ok
      split: sum.splits if_splits)

lemma ParseTrigger_ok: "ParseTrigger s = Inr t \<Longrightarrow> trigger_ok t"
  unfolding ParseTrigger_def Let_def trigger_ok_def
  by (auto split: option.splits dest!: parse_parts_ok)

lemma valid_triggers_ok: "t \<in> set (valid_triggers ss) \<Longrightarrow> trigger_ok t"
  by (induction ss) (auto simp: valid_triggers_def List.map_filter_def dest: ParseTrigger_ok
      split: sum.splits)

lemma actual_finite: "metrics_ok m \<Longrightarrow> actual_of t m = Some a \<Longrightarrow> is_finite a"
  by (auto simp: actual_of_def metrics_ok_def split: if_splits)

lemma actual_defined: "trigger_ok t \<Longrightarrow> \<exists>a. actual_of t m = Some a"
  by (auto simp: trigger_ok_def actual_of_def validMetrics_def)

text \<open>Without a margin, a trigger that does not fire has recovered.\<close>

lemma not_fired_recovered:
  assumes "trigger_ok t" "metrics_ok m" "\<not> Evaluate t m"
  shows "EvaluateRecovery t m (Fin 0)"
proof -
  obtain a where a: "actual_of t m = Some a" using assms(1) actual_defined by blast
  then have fa: "is_finite a" using assms(2) by (rule actual_finite [rotated])
  from assms(1) have fv: "is_finite (Value t)" and "f64_ok (Value t)"
    and op: "Operator t \<in> {''<='', ''>='', ''<'', ''>''}" by (auto simp: trigger_ok_def)
  then have v0: "f64_add (Value t) (Fin 0) = Value t" "f64_sub (Value t) (Fin 0) = Value t"
    by (auto simp: f64_add_0 f64_sub_0)
  from fa fv obtain x y where "a = Fin x" "Value t = Fin y" by (metis f64_finite_E)
  with assms(3) a op v0 show ?thesis
    by (auto simp: Evaluate_def EvaluateRecovery_def Let_def)
qed

lemma recovery_passed_confirmed:
  assumes "recovery_passed ts m h" "metrics_ok m" "margin_ok h"
  shows "\<not> terrestrialDegraded ts m \<and> terrestrialConfirmedRecovered ts m h"
proof -
  from assms(1) have nd: "\<not> terrestrialDegraded ts m"
    and known: "\<forall>t\<in>set (valid_triggers ts). \<not> metricMissing t m"
    and rec: "f64_le h (Fin 0) \<or> (\<forall>t\<in>set (valid_triggers ts). EvaluateRecovery t m h)"
    and ne: "valid_triggers ts = [] \<longrightarrow> \<not> some_invalid ts"
    by (auto simp: recovery_passed_def trigger_set_simps InertTriggers_Nil_iff list_all_iff
        filter_empty_conv)
  have "\<forall>t\<in>set (valid_triggers ts). EvaluateRecovery t m h"
  proof (cases "f64_le h (Fin 0)")
    case True
    with assms(3) have "h = Fin 0" by (cases h) (auto simp: margin_ok_def)
    then show ?thesis
      using nd known assms(2) by (auto simp: terrestrialDegraded_iff
          intro!: not_fired_recovered valid_triggers_ok)
  qed (use rec in blast)
  with nd known ne show ?thesis
    by (auto simp: confirmed_recovered_iff dest: valid_triggers_Nil)
qed

end
