(* ===== verification/Trigger_Admission.thy ===== *)
theory Trigger_Admission
  imports Failover
begin

text \<open>
  The admission rule on \<open>FailoverPolicy.triggers\<close> in \<open>api/v1alpha1/ntnslice_types.go\<close>, a regular
  expression the API server matches every trigger against, and its relation to the parser the
  engine runs: whatever admission lets in, \<open>ParseTrigger\<close> accepts, so no admitted trigger is
  silently skipped at runtime. Regular expressions are a datatype matched by derivatives; the
  matcher is proved to decide the language of the expression.
\<close>

section \<open>Regular expressions\<close>

datatype re = Zero | One | Cls "char list" | Alt re re | Seq re re | Star re

fun nullable :: "re \<Rightarrow> bool" where
  "nullable Zero = False"
| "nullable One = True"
| "nullable (Cls _) = False"
| "nullable (Alt r s) = (nullable r \<or> nullable s)"
| "nullable (Seq r s) = (nullable r \<and> nullable s)"
| "nullable (Star _) = True"

fun deriv :: "char \<Rightarrow> re \<Rightarrow> re" where
  "deriv c Zero = Zero"
| "deriv c One = Zero"
| "deriv c (Cls cs) = (if c \<in> set cs then One else Zero)"
| "deriv c (Alt r s) = Alt (deriv c r) (deriv c s)"
| "deriv c (Seq r s) = (if nullable r then Alt (Seq (deriv c r) s) (deriv c s) else Seq (deriv c r) s)"
| "deriv c (Star r) = Seq (deriv c r) (Star r)"

fun re_match :: "re \<Rightarrow> string \<Rightarrow> bool" where
  "re_match r [] = nullable r"
| "re_match r (c # s) = re_match (deriv c r) s"

fun lang :: "re \<Rightarrow> string set" where
  "lang Zero = {}"
| "lang One = {[]}"
| "lang (Cls cs) = {[c] |c. c \<in> set cs}"
| "lang (Alt r s) = lang r \<union> lang s"
| "lang (Seq r s) = {a @ b |a b. a \<in> lang r \<and> b \<in> lang s}"
| "lang (Star r) = {concat ss |ss. set ss \<subseteq> lang r}"

lemma nullable_iff: "nullable r \<longleftrightarrow> [] \<in> lang r"
  by (induction r) (auto intro: exI [of _ "[]"])

lemma star_Cons:
  "c # s \<in> lang (Star r) \<longleftrightarrow> (\<exists>a b. s = a @ b \<and> c # a \<in> lang r \<and> b \<in> lang (Star r))"
proof
  assume "c # s \<in> lang (Star r)"
  then obtain ss where "c # s = concat ss" "set ss \<subseteq> lang r" by auto
  then show "\<exists>a b. s = a @ b \<and> c # a \<in> lang r \<and> b \<in> lang (Star r)"
  proof (induction ss)
    case (Cons t ts)
    then show ?case by (cases t) auto
  qed simp
next
  assume "\<exists>a b. s = a @ b \<and> c # a \<in> lang r \<and> b \<in> lang (Star r)"
  then obtain a ss where "c # s = concat ((c # a) # ss)" "set ((c # a) # ss) \<subseteq> lang r" by auto
  then show "c # s \<in> lang (Star r)" unfolding lang.simps by blast
qed

lemma deriv_iff: "s \<in> lang (deriv c r) \<longleftrightarrow> c # s \<in> lang r"
proof (induction r arbitrary: s)
  case (Seq r1 r2)
  have "c # s \<in> lang (Seq r1 r2) \<longleftrightarrow>
      ([] \<in> lang r1 \<and> c # s \<in> lang r2) \<or> (\<exists>a b. s = a @ b \<and> c # a \<in> lang r1 \<and> b \<in> lang r2)"
    by (auto simp: Cons_eq_append_conv)
  with Seq show ?case by (auto simp: nullable_iff)
next
  case (Star r)
  have "s \<in> lang (deriv c (Star r)) \<longleftrightarrow> (\<exists>a b. s = a @ b \<and> c # a \<in> lang r \<and> b \<in> lang (Star r))"
    by (simp add: Star.IH del: lang.simps(6))
  then show ?case by (simp only: star_Cons)
qed auto

lemma re_match_iff: "re_match r s \<longleftrightarrow> s \<in> lang r"
  by (induction s arbitrary: r) (simp_all add: nullable_iff deriv_iff)

section \<open>The admission rule\<close>

definition re_opt :: "re \<Rightarrow> re" where
  "re_opt r = Alt One r"

fun re_lit :: "string \<Rightarrow> re" where
  "re_lit [] = One"
| "re_lit (c # s) = Seq (Cls [c]) (re_lit s)"

fun re_alts :: "re list \<Rightarrow> re" where
  "re_alts [] = Zero"
| "re_alts (r # rs) = Alt r (re_alts rs)"

fun re_upto :: "re \<Rightarrow> nat \<Rightarrow> re" where
  "re_upto r 0 = One"
| "re_upto r (Suc n) = Alt One (Seq r (re_upto r n))"

text \<open>\<open>r{1,n}\<close>.\<close>

definition re_rep :: "re \<Rightarrow> nat \<Rightarrow> re" where
  "re_rep r n = Seq r (re_upto r (n - 1))"

definition re_digit :: re where
  "re_digit = Cls ''0123456789''"

definition re_sign :: re where
  "re_sign = re_opt (Cls ''-+'')"

definition re_metric :: re where
  "re_metric = re_alts (map re_lit [''rsrp'', ''latency'', ''packetLoss'', ''terrestrialRSRP'',
     ''terrestrialLatency'', ''terrestrialPacketLoss''])"

definition re_op :: re where
  "re_op = re_alts (map re_lit [''<='', ''>='', ''<'', ''>''])"

definition re_mantissa :: re where
  "re_mantissa = Alt (Seq (re_rep re_digit 10) (re_opt (Seq (Cls ''.'') (re_rep re_digit 10))))
     (Seq (Cls ''.'') (re_rep re_digit 10))"

definition re_exponent :: re where
  "re_exponent = re_opt (Seq (Cls ''eE'') (Seq re_sign (re_rep re_digit 2)))"

definition trigger_re :: re where
  "trigger_re = Seq (Star (Cls '' '')) (Seq re_metric (Seq (Star (Cls '' '')) (Seq re_op
     (Seq (Star (Cls '' '')) (Seq re_sign (Seq re_mantissa (Seq re_exponent (Star (Cls '' '')))))))))"

text \<open>The rule \<open>self.triggers.all(t, t.matches(\<dots>))\<close> with the bounds of the schema: one to ten
  triggers of at most 64 characters.\<close>

definition triggers_admitted :: "string list \<Rightarrow> bool" where
  "triggers_admitted ts \<longleftrightarrow> list_all (re_match trigger_re) ts \<and> 1 \<le> length ts \<and> length ts \<le> 10
     \<and> list_all (\<lambda>t. length t \<le> 64) ts \<and> distinct ts"

section \<open>Shapes\<close>

definition digits :: "string \<Rightarrow> bool" where
  "digits s \<longleftrightarrow> list_all is_digit s"

lemma is_digit_cases: "c \<in> set ''0123456789'' \<Longrightarrow> is_digit c"
  by (auto simp: is_digit_def)

lemma lang_lit [simp]: "lang (re_lit s) = {s}"
  by (induction s) auto

lemma lang_alts: "lang (re_alts rs) = (\<Union>r\<in>set rs. lang r)"
  by (induction rs) auto

lemma lang_SeqE:
  assumes "s \<in> lang (Seq r q)"
  obtains a b where "s = a @ b" "a \<in> lang r" "b \<in> lang q"
  using assms by auto

lemma lang_spaces: "s \<in> lang (Star (Cls '' '')) \<Longrightarrow> \<exists>n. s = replicate n (CHR '' '')"
proof -
  assume "s \<in> lang (Star (Cls '' ''))"
  then obtain ss where "s = concat ss" "set ss \<subseteq> {'' ''}" by auto
  then show ?thesis
  proof (induction ss arbitrary: s)
    case (Cons t ts)
    then obtain n where "concat ts = replicate n (CHR '' '')" by auto
    with Cons show ?case by (intro exI [of _ "Suc n"]) auto
  qed simp
qed

lemma lang_upto_digit: "s \<in> lang (re_upto re_digit n) \<Longrightarrow> digits s \<and> length s \<le> n"
proof (induction n arbitrary: s)
  case (Suc n)
  then consider "s = []" | c t where "s = c # t" "c \<in> set ''0123456789''" "t \<in> lang (re_upto re_digit n)"
    by (auto simp: re_digit_def)
  then show ?case
    by cases (use Suc.IH is_digit_cases in \<open>auto simp: digits_def\<close>)
qed (simp add: digits_def)

lemma lang_rep_digit:
  assumes "s \<in> lang (re_rep re_digit n)" "0 < n"
  shows "digits s \<and> length s \<le> n \<and> s \<noteq> []"
proof -
  from assms obtain c t where "s = c # t" "c \<in> set ''0123456789''" "t \<in> lang (re_upto re_digit (n - 1))"
    by (auto simp: re_rep_def re_digit_def)
  moreover from this have "is_digit c" "digits t" "length t \<le> n - 1"
    using lang_upto_digit [of t "n - 1"] is_digit_cases [of c] by blast+
  ultimately show ?thesis using assms(2) by (simp add: digits_def)
qed

section \<open>Reading an admitted number\<close>

text \<open>What a scan over digits adds to the mantissa.\<close>

fun push_digits :: "mant \<Rightarrow> string \<Rightarrow> mant" where
  "push_digits m [] = m"
| "push_digits m (c # s) = push_digits
     (m\<lparr>sawdigits := True, mant_val := mant_val m * 10 + (of_char c - 48),
        mant_frac := mant_frac m + (if sawdot m then 1 else 0)\<rparr>) s"

lemma is_digit_not: "is_digit c \<Longrightarrow> c \<noteq> CHR ''_'' \<and> c \<noteq> CHR ''.'' \<and> graphic c \<and> to_lower c = c"
  by (auto simp: is_digit_def graphic_def to_lower_def Let_def)

lemma is_digit_val: "is_digit c \<Longrightarrow> digit_val 10 c = Some (of_char c - 48)"
  by (simp add: is_digit_def digit_val_def Let_def)

lemma is_digit_less: "is_digit c \<Longrightarrow> of_char c - 48 < (10 :: nat)"
  by (auto simp: is_digit_def Let_def)

lemma scan_mant_digits: "digits ds \<Longrightarrow> scan_mant 10 m (ds @ r) = scan_mant 10 (push_digits m ds) r"
  by (induction ds arbitrary: m) (auto simp: digits_def is_digit_val dest: is_digit_not)

lemma push_digits_sawdot [simp]: "sawdot (push_digits m ds) = sawdot m"
  by (induction ds arbitrary: m) auto

lemma push_digits_sawdigits: "sawdigits (push_digits m ds) \<longleftrightarrow> sawdigits m \<or> ds \<noteq> []"
  by (induction ds arbitrary: m) auto

lemma push_digits_val: "digits ds \<Longrightarrow> mant_val m < 10 ^ k \<Longrightarrow>
    mant_val (push_digits m ds) < 10 ^ (k + length ds)"
proof (induction ds arbitrary: m k)
  case (Cons c ds)
  have "mant_val m * 10 + (of_char c - 48) < 10 ^ Suc k"
    using Cons.prems is_digit_less [of c] by (simp add: digits_def)
  then have "mant_val (push_digits (m\<lparr>sawdigits := True, mant_val := mant_val m * 10 + (of_char c - 48),
        mant_frac := mant_frac m + (if sawdot m then 1 else 0)\<rparr>) ds) < 10 ^ (Suc k + length ds)"
    using Cons.prems by (intro Cons.IH) (auto simp: digits_def)
  then show ?case by simp
qed simp

lemma scan_exp_digits:
  assumes "digits ds" "length ds \<le> 2"
  shows "\<exists>e. scan_exp 0 ds = (e, []) \<and> e < 100"
proof -
  consider "ds = []" | c where "ds = [c]" | c d where "ds = [c, d]"
    using assms(2) by (cases ds; cases "tl ds"; cases "tl (tl ds)") auto
  then show ?thesis
  proof cases
    case 2
    with assms show ?thesis using is_digit_not [of c] is_digit_less [of c] by (auto simp: digits_def)
  next
    case (3 c d)
    with assms have "is_digit c" "is_digit d" by (auto simp: digits_def)
    then show ?thesis using 3 is_digit_not [of c] is_digit_not [of d] is_digit_less [of c]
        is_digit_less [of d] by auto
  qed simp
qed

text \<open>The mantissas and exponents of the rule, with what the scanner makes of them.\<close>

definition mant0 :: mant where
  "mant0 = \<lparr>sawdot = False, sawdigits = False, mant_val = 0, mant_frac = 0\<rparr>"

definition num_char :: "char \<Rightarrow> bool" where
  "num_char c \<longleftrightarrow> is_digit c \<or> c \<in> set ''.eE+-''"

definition stops_mant :: "string \<Rightarrow> bool" where
  "stops_mant r \<longleftrightarrow> r = [] \<or> hd r \<in> set ''eE''"

lemma scan_mant_stop: "stops_mant r \<Longrightarrow> scan_mant 10 m r = (m, r)"
  by (cases r) (auto simp: stops_mant_def digit_val_def to_lower_def Let_def)

lemma lang_mantissa:
  assumes "s \<in> lang re_mantissa"
  shows "s \<noteq> [] \<and> list_all num_char s \<and> is_digit (last s) \<and> (is_digit (hd s) \<or> hd s = CHR ''.'')
    \<and> (\<forall>r. stops_mant r \<longrightarrow> (\<exists>m. scan_mant 10 mant0 (s @ r) = (m, r) \<and> sawdigits m
         \<and> mant_val m < 10 ^ 20))"
proof -
  have num: "digits ds \<Longrightarrow> list_all num_char ds" for ds
    by (auto simp: digits_def num_char_def list_all_iff)
  have lst: "digits ds \<Longrightarrow> ds \<noteq> [] \<Longrightarrow> is_digit (last ds) \<and> is_digit (hd ds)" for ds
    by (auto simp: digits_def list_all_iff)
  have mono: "(10 :: nat) ^ n \<le> 10 ^ 20" if "n \<le> 20" for n
    using that by (intro power_increasing) auto
  from assms consider
      (int) a where "s = a" "a \<in> lang (re_rep re_digit 10)"
    | (both) a b where "s = a @ CHR ''.'' # b" "a \<in> lang (re_rep re_digit 10)"
        "b \<in> lang (re_rep re_digit 10)"
    | (frac) b where "s = CHR ''.'' # b" "b \<in> lang (re_rep re_digit 10)"
    by (auto simp: re_mantissa_def re_opt_def)
  then show ?thesis
  proof cases
    case int
    then have a: "digits a" "length a \<le> 10" "a \<noteq> []" using lang_rep_digit [of a 10] by auto
    have "mant_val (push_digits mant0 a) < 10 ^ 20"
      using push_digits_val [OF a(1), of mant0 0] mono [of "length a"] a by (simp add: mant0_def)
    then show ?thesis using int a num lst
      by (auto simp: scan_mant_digits scan_mant_stop push_digits_sawdigits)
  next
    case (both a b)
    then have a: "digits a" "length a \<le> 10" "a \<noteq> []" and b: "digits b" "length b \<le> 10" "b \<noteq> []"
      using lang_rep_digit [of a 10] lang_rep_digit [of b 10] by auto
    let ?m = "push_digits ((push_digits mant0 a)\<lparr>sawdot := True\<rparr>) b"
    have "mant_val (push_digits mant0 a) < 10 ^ length a"
      using push_digits_val [OF a(1), of mant0 0] by (simp add: mant0_def)
    then have "mant_val ?m < 10 ^ 20"
      using push_digits_val [OF b(1), of "(push_digits mant0 a)\<lparr>sawdot := True\<rparr>" "length a"]
        mono [of "length a + length b"] a b by simp
    moreover have "scan_mant 10 mant0 (s @ r) = (?m, r)" if "stops_mant r" for r
      using both a b that by (simp add: scan_mant_digits scan_mant_stop mant0_def)
    ultimately show ?thesis using both a b num lst
      by (auto simp: push_digits_sawdigits num_char_def)
  next
    case (frac b)
    then have b: "digits b" "length b \<le> 10" "b \<noteq> []" using lang_rep_digit [of b 10] by auto
    let ?m = "push_digits (mant0\<lparr>sawdot := True\<rparr>) b"
    have "mant_val ?m < 10 ^ 20"
      using push_digits_val [OF b(1), of "mant0\<lparr>sawdot := True\<rparr>" 0] mono [of "length b"] b
      by (simp add: mant0_def)
    moreover have "scan_mant 10 mant0 (s @ r) = (?m, r)" if "stops_mant r" for r
      using frac b that by (simp add: scan_mant_digits scan_mant_stop mant0_def)
    ultimately show ?thesis using frac b num lst
      by (auto simp: push_digits_sawdigits num_char_def)
  qed
qed

lemma to_lower_marks:
  "to_lower (CHR ''.'') = CHR ''.''" "to_lower (CHR ''e'') = CHR ''e''"
  "to_lower (CHR ''E'') = CHR ''e''" "to_lower (CHR ''+'') = CHR ''+''"
  "to_lower (CHR ''-'') = CHR ''-''"
  by code_simp+

lemma lang_exponent:
  assumes "s \<in> lang re_exponent"
  shows "stops_mant s \<and> list_all num_char s \<and> (s \<noteq> [] \<longrightarrow> is_digit (last s)) \<and>
    (s = [] \<or> (\<exists>c neg ds e. s = c # (tl s) \<and> to_lower c = CHR ''e'' \<and> scan_sign (tl s) = (neg, ds)
        \<and> ds \<noteq> [] \<and> is_digit (hd ds) \<and> scan_exp 0 ds = (e, []) \<and> e < 100))"
proof (cases "s = []")
  case False
  with assms have "s \<in> lang (Seq (Cls ''eE'') (Seq re_sign (re_rep re_digit 2)))"
    by (simp add: re_exponent_def re_opt_def)
  then obtain c t where "s = c @ t" and c: "c \<in> lang (Cls ''eE'')"
    and t: "t \<in> lang (Seq re_sign (re_rep re_digit 2))" by (rule lang_SeqE)
  from t obtain sg ds where "t = sg @ ds" and "sg \<in> lang re_sign" "ds \<in> lang (re_rep re_digit 2)"
    by (rule lang_SeqE)
  moreover from c obtain c' where "c = [c']" "c' \<in> set ''eE''" by auto
  ultimately obtain c where s: "s = c # sg @ ds" "c \<in> set ''eE''"
      "sg \<in> lang re_sign" "ds \<in> lang (re_rep re_digit 2)"
    using \<open>s = c @ t\<close> by auto
  then have ds: "digits ds" "length ds \<le> 2" "ds \<noteq> []" using lang_rep_digit [of ds 2] by auto
  then have dg: "is_digit (hd ds)" "is_digit (last ds)" "list_all num_char ds"
    by (auto simp: digits_def list_all_iff num_char_def)
  have sg: "sg = [] \<or> sg = ''-'' \<or> sg = ''+''" using s(3) by (auto simp: re_sign_def re_opt_def)
  have "\<exists>neg. scan_sign (sg @ ds) = (neg, ds)"
    using sg ds dg is_digit_not [of "hd ds"] by (cases ds) (auto simp: is_digit_def)
  moreover have "to_lower c = CHR ''e''" using s(2) by (auto simp: to_lower_marks)
  ultimately show ?thesis
    using s sg ds dg scan_exp_digits [of ds] by (auto simp: stops_mant_def num_char_def)
qed (simp add: stops_mant_def)

lemma num_char_not:
  assumes "num_char c"
  shows "c \<noteq> CHR ''_''" "to_lower c \<noteq> CHR ''x''" "c \<notin> set ''<>=''" "graphic c"
proof -
  consider "is_digit c" | "c \<in> set ''.eE+-''" using assms by (auto simp: num_char_def)
  then have "c \<noteq> CHR ''_'' \<and> to_lower c \<noteq> CHR ''x'' \<and> c \<notin> set ''<>='' \<and> graphic c"
  proof cases
    case 1
    then show ?thesis using is_digit_not [of c] by (auto simp: is_digit_def)
  next
    case 2
    then show ?thesis by (auto simp: to_lower_marks graphic_def)
  qed
  then show "c \<noteq> CHR ''_''" "to_lower c \<noteq> CHR ''x''" "c \<notin> set ''<>=''" "graphic c" by blast+
qed

lemma pow10_bound: "(10 :: rat) ^ 20 * 10 ^ 100 \<le> pow2 1000"
  by (simp add: pow2_def)

text \<open>The exact value of an admitted number, and that it is far from overflow.\<close>

lemma read_float_admitted:
  assumes "a \<in> lang re_mantissa" "b \<in> lang re_exponent"
  shows "\<exists>x. read_float (a @ b) = Some x \<and> 0 \<le> x \<and> x \<le> pow2 1000"
proof -
  note A = lang_mantissa [OF assms(1)] and B = lang_exponent [OF assms(2)]
  obtain m where m: "scan_mant 10 mant0 (a @ b) = (m, b)" "sawdigits m" "mant_val m < 10 ^ 20"
    using A B by blast
  have nc: "\<forall>c\<in>set (a @ b). num_char c" using A B by (auto simp: list_all_iff)
  have us: "CHR ''_'' \<notin> set (a @ b)" using nc num_char_not(1) [of "CHR ''_''"] by blast
  have hx: "\<not> has_hex_prefix (a @ b)"
  proof
    assume "has_hex_prefix (a @ b)"
    then have "to_lower ((a @ b) ! 1) = CHR ''x''" "1 < length (a @ b)" by (auto simp: has_hex_prefix_def)
    moreover from this have "num_char ((a @ b) ! 1)" using nc nth_mem by blast
    ultimately show False using num_char_not(2) [of "(a @ b) ! 1"] by simp
  qed
  have mv: "(of_nat (mant_val m) :: rat) \<le> 10 ^ 20"
    using m(3) by (metis less_imp_le of_nat_le_iff of_nat_numeral of_nat_power)
  have ubound: "of_nat (mant_val m) * y \<le> pow2 1000" if "0 \<le> y" "y \<le> 10 ^ 100" for y :: rat
    using mult_mono [OF mv that(2)] that(1) pow10_bound by (simp add: order.trans)
  show ?thesis
  proof (cases "b = []")
    case True
    have "(1 :: rat) / 10 ^ mant_frac m \<le> 10 ^ 100"
      by (rule order.trans [of _ 1]) (simp_all add: divide_le_eq)
    then have "of_nat (mant_val m) / 10 ^ mant_frac m \<le> pow2 1000"
      using ubound [of "1 / 10 ^ mant_frac m"] by simp
    then show ?thesis using m hx us True by (simp add: read_float_def mant0_def)
  next
    case False
    with B obtain c t neg ds e where t: "b = c # t" "to_lower c = CHR ''e''"
      "scan_sign t = (neg, ds)" "ds \<noteq> []" "is_digit (hd ds)" "scan_exp 0 ds = (e, [])" "e < 100"
      by (metis list.sel(3))
    let ?y = "if neg then 1 / 10 ^ (e + mant_frac m) else 10 ^ e / 10 ^ mant_frac m :: rat"
    have "?y \<le> 10 ^ 100"
    proof -
      have "(10 :: rat) ^ e \<le> 10 ^ 100" using t(7) by (intro power_increasing) auto
      then have "(10 :: rat) ^ e / 10 ^ mant_frac m \<le> 10 ^ 100 / 1" by (intro frac_le) auto
      moreover have "(1 :: rat) / 10 ^ (e + mant_frac m) \<le> 10 ^ 100 / 1" by (intro frac_le) auto
      ultimately show ?thesis by simp
    qed
    then have "of_nat (mant_val m) * ?y \<le> pow2 1000" by (intro ubound) auto
    moreover have "read_float (a @ b) = Some (of_nat (mant_val m) * ?y)"
      using m hx us t by (simp add: read_float_def mant0_def)
    ultimately show ?thesis by (intro exI conjI) auto
  qed
qed

lemma ParseFloat_admitted:
  assumes "sg \<in> lang re_sign" "a \<in> lang re_mantissa" "b \<in> lang re_exponent"
  shows "\<exists>y. ParseFloat (sg @ a @ b) = Inr (Fin y)"
proof -
  note A = lang_mantissa [OF assms(2)]
  obtain x where x: "read_float (a @ b) = Some x" "0 \<le> x" "x \<le> pow2 1000"
    using read_float_admitted assms by blast
  have sg: "sg = [] \<or> sg = ''-'' \<or> sg = ''+''" using assms(1) by (auto simp: re_sign_def re_opt_def)
  obtain c t where c: "a = c # t" "is_digit c \<or> c = CHR ''.''" using A by (cases a) auto
  have "\<exists>neg. scan_sign (sg @ a @ b) = (neg, a @ b)"
    using sg c by (auto simp: is_digit_def)
  then obtain neg where neg: "scan_sign (sg @ a @ b) = (neg, a @ b)" by blast
  have l: "to_lower c \<noteq> CHR ''n''" "to_lower c \<noteq> CHR ''i''"
    using c(2) is_digit_not [of c] by (auto simp: to_lower_def is_digit_def)
  have nan: "ToLower (sg @ a @ b) \<noteq> ''nan''" "ToLower (a @ b) \<noteq> ''inf''" "ToLower (a @ b) \<noteq> ''infinity''"
    using sg c(1) l by (auto simp: ToLower_def to_lower_def)
  have "is_finite (round64 (if neg then - x else x))"
    using x by (intro round64_small [where e = 1000]) auto
  then obtain y where "round64 (if neg then - x else x) = Fin y" by (rule f64_finite_E)
  with neg nan x show ?thesis by (auto simp: ParseFloat_def)
qed

section \<open>Reading an admitted trigger\<close>

lemma split2_None: "c \<in> set sep \<Longrightarrow> c \<notin> set s \<Longrightarrow> split2 sep s = None"
  by (induction s) (auto, use set_mono_prefix in force)

lemma split2_at: "sep = c # t \<Longrightarrow> c \<notin> set a \<Longrightarrow> split2 sep (a @ sep @ b) = Some (a, b)"
  by (induction a) auto

lemma lang_metric: "s \<in> lang re_metric \<Longrightarrow>
    s \<in> set validMetrics \<and> s \<noteq> [] \<and> graphic (hd s) \<and> graphic (last s) \<and> set s \<inter> set ''<>='' = {}"
  by (auto simp: re_metric_def lang_alts validMetrics_def metric_names graphic_def)

lemma lang_op: "s \<in> lang re_op \<Longrightarrow> s \<in> {''<='', ''>='', ''<'', ''>''}"
  by (auto simp: re_op_def lang_alts)

lemma trigger_shape:
  assumes "re_match trigger_re s"
  obtains i metric j op k num l where
    "s = replicate i (CHR '' '') @ (metric @ replicate j (CHR '' '') @ op @ replicate k (CHR '' '') @ num)
       @ replicate l (CHR '' '')"
    and "metric \<in> lang re_metric" "op \<in> lang re_op"
    and "\<exists>sg a b. num = sg @ a @ b \<and> sg \<in> lang re_sign \<and> a \<in> lang re_mantissa \<and> b \<in> lang re_exponent"
proof -
  from assms have "s \<in> lang trigger_re" by (simp add: re_match_iff)
  then obtain s1 metric s2 op s3 sg a b s4 where
    "s = s1 @ metric @ s2 @ op @ s3 @ sg @ a @ b @ s4"
    "s1 \<in> lang (Star (Cls '' ''))" "s2 \<in> lang (Star (Cls '' ''))" "s3 \<in> lang (Star (Cls '' ''))"
    "s4 \<in> lang (Star (Cls '' ''))" "metric \<in> lang re_metric" "op \<in> lang re_op"
    "sg \<in> lang re_sign" "a \<in> lang re_mantissa" "b \<in> lang re_exponent"
    unfolding trigger_re_def by (elim lang_SeqE) blast
  moreover from this obtain i j k l where "s1 = replicate i (CHR '' '')" "s2 = replicate j (CHR '' '')"
    "s3 = replicate k (CHR '' '')" "s4 = replicate l (CHR '' '')"
    using lang_spaces by meson
  ultimately show ?thesis
    by (intro that [of i metric j op k "sg @ a @ b" l]) auto
qed

lemma parse_admitted:
  assumes "re_match trigger_re s"
  shows "\<exists>t. ParseTrigger s = Inr t"
proof -
  obtain i metric j op k num l where s: "s = replicate i (CHR '' '')
        @ (metric @ replicate j (CHR '' '') @ op @ replicate k (CHR '' '') @ num) @ replicate l (CHR '' '')"
    and m: "metric \<in> lang re_metric" and o: "op \<in> lang re_op"
    and n: "\<exists>sg a b. num = sg @ a @ b \<and> sg \<in> lang re_sign \<and> a \<in> lang re_mantissa \<and> b \<in> lang re_exponent"
    using assms by (rule trigger_shape)
  note M = lang_metric [OF m]
  from n obtain sg a b where num: "num = sg @ a @ b" and sg: "sg \<in> lang re_sign"
    and A: "a \<in> lang re_mantissa" and B: "b \<in> lang re_exponent" by blast
  note LA = lang_mantissa [OF A] and LB = lang_exponent [OF B]
  have sgn: "list_all num_char sg" using sg by (auto simp: re_sign_def re_opt_def num_char_def)
  have nc: "\<forall>c\<in>set num. num_char c" using LA LB sgn num by (auto simp: list_all_iff)
  then have nop: "set num \<inter> set ''<>='' = {}" using num_char_not(3) by (meson disjoint_iff)
  have ne: "num \<noteq> []" using LA num by simp
  have gn: "graphic (hd num)" "graphic (last num)"
    using nc num_char_not(4) hd_in_set [OF ne] last_in_set [OF ne] by blast+
  let ?pre = "metric @ replicate j (CHR '' '')" and ?post = "replicate k (CHR '' '') @ num"
  let ?s = "?pre @ op @ ?post"
  have "TrimSpace s = ?s"
    using TrimSpace_graphic [of ?s i l] M gn ne s by simp
  moreover have "parse_ops ?s [''<='', ''>='', ''<'', ''>''] = parse_parts ?s op ?pre ?post"
  proof -
    have sp: "set (replicate n (CHR '' '')) \<subseteq> {CHR '' ''}" for n by auto
    have out: "c \<notin> set ?pre" "c \<notin> set ?post" if "c \<in> set ''<>=''" for c
      using that M nop sp [of j] sp [of k] by auto
    consider "op = ''<=''" | "op = ''>=''" | "op = ''<''" | "op = ''>''" using lang_op [OF o] by auto
    then show ?thesis
    proof cases
      case 1
      then show ?thesis using split2_at [of op "CHR ''<''" "''=''" ?pre ?post] out by simp
    next
      case 2
      have "split2 ''<='' ?s = None" using out 2 by (intro split2_None [of "CHR ''<''"]) auto
      then show ?thesis using split2_at [of op "CHR ''>''" "''=''" ?pre ?post] out 2 by simp
    next
      case 3
      have "split2 ''<='' ?s = None" "split2 ''>='' ?s = None"
        by (rule split2_None [of "CHR ''=''"]; use out [of "CHR ''=''"] 3 in simp)+
      then show ?thesis using split2_at [of op "CHR ''<''" "[]" ?pre ?post] out 3 by simp
    next
      case 4
      have "split2 ''<='' ?s = None" "split2 ''>='' ?s = None"
        by (rule split2_None [of "CHR ''=''"]; use out [of "CHR ''=''"] 4 in simp)+
      moreover have "split2 ''<'' ?s = None" using out 4 by (intro split2_None [of "CHR ''<''"]) auto
      ultimately show ?thesis using split2_at [of op "CHR ''>''" "[]" ?pre ?post] out 4 by simp
    qed
  qed
  moreover obtain y where "ParseFloat num = Inr (Fin y)" using ParseFloat_admitted [OF sg A B] num by auto
  then have "parse_parts ?s op ?pre ?post = Inr \<lparr>Metric = metric, Operator = op, Value = Fin y\<rparr>"
    using TrimSpace_right [of metric j] TrimSpace_left [of num k] M gn ne
    by (simp add: parse_parts_def IsNaN_def IsInf_def)
  ultimately show ?thesis by (auto simp: ParseTrigger_def Let_def)
qed

lemma valid_triggers_all: "list_all (re_match trigger_re) ts \<Longrightarrow>
    \<not> some_invalid ts \<and> length (valid_triggers ts) = length ts"
proof (induction ts)
  case (Cons s ts)
  then obtain t where "ParseTrigger s = Inr t" using parse_admitted [of s] by auto
  with Cons show ?case by simp
qed simp

text \<open>C31: admission is sound for the runtime parser. Of a trigger list the API server admits (every
  entry matches the regular expression of the CEL rule on \<open>FailoverPolicy\<close>), the engine's
  \<open>ParseTrigger\<close> accepts every entry: no entry is silently skipped, the number of
  comparisons evaluated is the number of triggers declared, each has a finite threshold, and the
  \<open>all triggers invalid\<close> branch of \<open>parseTriggerSet\<close> is dead for every metric sample.\<close>

theorem admitted_triggers_parse:
  assumes "triggers_admitted ts"
  shows "length (valid_triggers ts) = length ts \<and> list_all trigger_ok (valid_triggers ts)
    \<and> \<not> some_invalid ts \<and> \<not> allInvalid (parseTriggerSet ts m)"
  using valid_triggers_all [of ts] valid_triggers_ok assms parseTriggerSet_allInvalid [of ts m]
  by (simp add: triggers_admitted_def list_all_iff)

theorem admitted_triggers_parse_witness:
  "triggers_admitted [''rsrp < -120'', '' packetLoss>=2.5e1 ''] \<and>
   length (valid_triggers [''rsrp < -120'', '' packetLoss>=2.5e1 '']) = 2"
proof -
  have "triggers_admitted [''rsrp < -120'', '' packetLoss>=2.5e1 '']" by code_simp
  with admitted_triggers_parse [OF this] show ?thesis by simp
qed

end
