(* ===== verification/Netutil.thy ===== *)
theory Netutil
  imports Go_Strings
begin

unbundle bit_operations_syntax

text \<open>
  The package \<open>pkg/netutil\<close>: the endpoint allowlist (\<open>allowlist.go\<close>) and the SSRF-safe HTTP client
  (\<open>safeclient.go\<close>): private address ranges, the IPv4 addresses embedded in IPv6 transition
  addresses, the dialer that validates every resolved address before it connects, and the redirect
  check.

  An address is the byte list of Go's \<open>net.IP\<close> (4 or 16 bytes). What lies outside the program is an
  argument: \<open>url_parse\<close> (the parser of \<open>net/url\<close>), \<open>lookup\<close> (the answer of the DNS resolver) and
  \<open>dial\<close> (the outcome of a TCP connect). The dialer returns, next to its result, the addresses it
  tried to connect to, in order.
\<close>

section \<open>The endpoint allowlist\<close>

record EndpointAllowlist =
  hosts :: "string list"

definition ParseEndpointAllowlist :: "string \<Rightarrow> EndpointAllowlist" where
  "ParseEndpointAllowlist csv =
     (if csv = '''' then \<lparr>hosts = []\<rparr>
      else \<lparr>hosts = map ToLower (filter (\<lambda>p. p \<noteq> '''') (map TrimSpace (Split (CHR '','') csv)))\<rparr>)"

definition ContainsHost :: "EndpointAllowlist \<Rightarrow> string \<Rightarrow> bool" where
  "ContainsHost a host =
     (if hosts a = [] then False else ToLower host \<in> set (hosts a))"

text \<open>What the package reads of a parsed URL.\<close>

record URL =
  Scheme :: string
  User :: bool
  Hostname :: string

definition errNotAllowed :: "msg \<Rightarrow> gerror" where
  "errNotAllowed m = sentinel_error (Lit ''netutil: endpoint not allowed: '' # m) ErrEndpointNotAllowed"

definition Check :: "(string \<Rightarrow> URL result) \<Rightarrow> EndpointAllowlist \<Rightarrow> string \<Rightarrow> unit result" where
  "Check url_parse a raw =
     (case url_parse raw of
        Inl e \<Rightarrow> Inl (errNotAllowed (Lit ''parse: '' # err_msg e))
      | Inr u \<Rightarrow>
          (let sch = ToLower (Scheme u) in
           if sch \<noteq> ''http'' \<and> sch \<noteq> ''https''
           then Inl (errNotAllowed [Lit ''scheme '', Quoted (Scheme u), Lit '' not in {http,https}''])
           else if User u then Inl (errNotAllowed [Lit ''URL must not carry userinfo''])
           else
             (let host = ToLower (Hostname u) in
              if host = '''' then Inl (errNotAllowed [Lit ''URL has empty host''])
              else if hosts a = [] then Inr ()
              else if host \<in> set (hosts a) then Inr ()
              else Inl (errNotAllowed [Lit ''host '', Quoted host, Lit '' is not in allow-list'']))))"

section \<open>Addresses and ranges\<close>

type_synonym byte = "8 word"
type_synonym IP = "byte list"

definition v4InV6Prefix :: IP where
  "v4InV6Prefix = [0, 0, 0, 0, 0, 0, 0, 0, 0, 0, 0xff, 0xff]"

definition To4 :: "IP \<Rightarrow> IP option" where
  "To4 ip = (if length ip = 4 then Some ip
     else if length ip = 16 \<and> take 12 ip = v4InV6Prefix then Some (drop 12 ip) else None)"

definition To16 :: "IP \<Rightarrow> IP option" where
  "To16 ip = (if length ip = 4 then Some (v4InV6Prefix @ ip)
     else if length ip = 16 then Some ip else None)"

text \<open>A range as \<open>net.ParseCIDR\<close> returns it: the network number and the number of leading ones of
  its mask (\<open>net.CIDRMask\<close>).\<close>

record IPNet =
  net_ip :: IP
  net_ones :: nat

definition mask_byte :: "nat \<Rightarrow> nat \<Rightarrow> byte" where
  "mask_byte ones i = NOT (drop_bit (min 8 (ones - 8 * i)) 0xff)"

definition masked :: "nat \<Rightarrow> IP \<Rightarrow> IP" where
  "masked ones ip = map (\<lambda>(i, b). b AND mask_byte ones i) (List.enumerate 0 ip)"

text \<open>\<open>IPNet.Contains\<close>: an IPv4-mapped address is compared as an IPv4 address.\<close>

definition net_Contains :: "IPNet \<Rightarrow> IP \<Rightarrow> bool" where
  "net_Contains n ip =
     (let ip' = (case To4 ip of Some x \<Rightarrow> x | None \<Rightarrow> ip) in
      length ip' = length (net_ip n) \<and> masked (net_ones n) (net_ip n) = masked (net_ones n) ip')"

definition v6 :: "byte list \<Rightarrow> IP" where
  "v6 bs = bs @ replicate (16 - length bs) 0"

definition privateRanges :: "IPNet list" where
  "privateRanges =
     [\<lparr>net_ip = [10, 0, 0, 0], net_ones = 8\<rparr>,
      \<lparr>net_ip = [172, 16, 0, 0], net_ones = 12\<rparr>,
      \<lparr>net_ip = [192, 168, 0, 0], net_ones = 16\<rparr>,
      \<lparr>net_ip = [127, 0, 0, 0], net_ones = 8\<rparr>,
      \<lparr>net_ip = [169, 254, 0, 0], net_ones = 16\<rparr>,
      \<lparr>net_ip = [0, 0, 0, 0], net_ones = 8\<rparr>,
      \<lparr>net_ip = [100, 64, 0, 0], net_ones = 10\<rparr>,
      \<lparr>net_ip = [192, 0, 0, 0], net_ones = 24\<rparr>,
      \<lparr>net_ip = [198, 18, 0, 0], net_ones = 15\<rparr>,
      \<lparr>net_ip = [224, 0, 0, 0], net_ones = 4\<rparr>,
      \<lparr>net_ip = [240, 0, 0, 0], net_ones = 4\<rparr>,
      \<lparr>net_ip = v6 [0xfc], net_ones = 7\<rparr>,
      \<lparr>net_ip = v6 [0xfe, 0x80], net_ones = 10\<rparr>,
      \<lparr>net_ip = replicate 15 0 @ [1], net_ones = 128\<rparr>,
      \<lparr>net_ip = v6 [], net_ones = 128\<rparr>,
      \<lparr>net_ip = v6 [0xff], net_ones = 8\<rparr>,
      \<lparr>net_ip = v6 [0x00, 0x64, 0xff, 0x9b, 0x00, 0x01], net_ones = 48\<rparr>]"

definition embeddedIPv4 :: "IP \<Rightarrow> IP option" where
  "embeddedIPv4 ip =
     (case To16 ip of
        None \<Rightarrow> None
      | Some ip16 \<Rightarrow>
          if To4 ip \<noteq> None then None
          else if ip16 ! 0 = 0x20 \<and> ip16 ! 1 = 0x02
          then Some [ip16 ! 2, ip16 ! 3, ip16 ! 4, ip16 ! 5]
          else if ip16 ! 0 = 0x00 \<and> ip16 ! 1 = 0x64 \<and> ip16 ! 2 = 0xff \<and> ip16 ! 3 = 0x9b \<and>
                  ip16 ! 4 = 0 \<and> ip16 ! 5 = 0 \<and> ip16 ! 6 = 0 \<and> ip16 ! 7 = 0 \<and>
                  ip16 ! 8 = 0 \<and> ip16 ! 9 = 0 \<and> ip16 ! 10 = 0 \<and> ip16 ! 11 = 0
          then Some [ip16 ! 12, ip16 ! 13, ip16 ! 14, ip16 ! 15]
          else None)"

lemma embeddedIPv4_Some: "embeddedIPv4 ip = Some v4 \<Longrightarrow> To4 ip = None \<and> length v4 = 4"
  by (auto simp: embeddedIPv4_def split: option.splits if_splits)

lemma To4_length4 [simp]: "length ip = 4 \<Longrightarrow> To4 ip = Some ip"
  by (simp add: To4_def)

text \<open>The recursion of \<open>IsPrivateIP\<close> goes one level deep: an embedded address is an IPv4 address.\<close>

function IsPrivateIP :: "IP \<Rightarrow> bool" where
  "IsPrivateIP ip =
     (if list_ex (\<lambda>r. net_Contains r ip) privateRanges then True
      else case embeddedIPv4 ip of Some v4 \<Rightarrow> IsPrivateIP v4 | None \<Rightarrow> False)"
  by pat_completeness auto
termination
  by (relation "measure (\<lambda>ip. if To4 ip = None then 1 else 0)")
     (auto dest: embeddedIPv4_Some)

declare IsPrivateIP.simps [simp del]

section \<open>The dialer\<close>

text \<open>\<open>net.SplitHostPort\<close>.\<close>

fun last_index :: "char \<Rightarrow> string \<Rightarrow> nat option" where
  "last_index c [] = None"
| "last_index c (x # s) =
     (case last_index c s of Some i \<Rightarrow> Some (Suc i) | None \<Rightarrow> if x = c then Some 0 else None)"

fun first_index :: "char \<Rightarrow> string \<Rightarrow> nat option" where
  "first_index c [] = None"
| "first_index c (x # s) = (if x = c then Some 0 else map_option Suc (first_index c s))"

definition addrErr :: "string \<Rightarrow> string \<Rightarrow> gerror" where
  "addrErr addr why = Errorf [Lit ''address '', Lit addr, Lit '': '', Lit why]"

definition unexpected :: "char \<Rightarrow> string" where
  "unexpected c = ''unexpected '' @ [CHR 0x27, c, CHR 0x27] @ '' in address''"

definition split_tail :: "string \<Rightarrow> nat \<Rightarrow> string \<Rightarrow> nat \<Rightarrow> nat \<Rightarrow> (string \<times> string) result" where
  "split_tail hostport i host j k =
     (if CHR ''['' \<in> set (drop j hostport) then Inl (addrErr hostport (unexpected (CHR ''['')))
      else if CHR '']'' \<in> set (drop k hostport) then Inl (addrErr hostport (unexpected (CHR '']'')))
      else Inr (host, drop (i + 1) hostport))"

definition SplitHostPort :: "string \<Rightarrow> (string \<times> string) result" where
  "SplitHostPort hostport =
     (case last_index (CHR '':'') hostport of
        None \<Rightarrow> Inl (addrErr hostport ''missing port in address'')
      | Some i \<Rightarrow>
          if hostport ! 0 = CHR ''['' then
            (case first_index (CHR '']'') hostport of
               None \<Rightarrow> Inl (addrErr hostport (''missing '' @ [CHR 0x27, CHR '']'', CHR 0x27] @ '' in address''))
             | Some end \<Rightarrow>
                 if end + 1 = length hostport then Inl (addrErr hostport ''missing port in address'')
                 else if end + 1 \<noteq> i then
                   (if hostport ! (end + 1) = CHR '':'' then Inl (addrErr hostport ''too many colons in address'')
                    else Inl (addrErr hostport ''missing port in address''))
                 else split_tail hostport i (drop 1 (take end hostport)) 1 (end + 1))
          else
            (let host = take i hostport in
             if CHR '':'' \<in> set host then Inl (addrErr hostport ''too many colons in address'')
             else split_tail hostport i host 0 0))"

text \<open>The error about the first private address of a list, which it prints as its bytes.\<close>

definition errPrivateIP :: "string \<Rightarrow> string \<Rightarrow> IP list \<Rightarrow> gerror" where
  "errPrivateIP what host ips =
     sentinel_error ([Lit ''connection to private/reserved IP address is blocked: '', Lit what, Lit host,
         Lit '' resolves to ''] @ (case find IsPrivateIP ips of
           Some ip \<Rightarrow> map (\<lambda>b. Num (uint b)) ip | None \<Rightarrow> [])) ErrPrivateIP"

text \<open>The loop that tries the resolved addresses in order: the addresses tried, and the connection
  or the last error.\<close>

fun try_dial :: "(IP \<Rightarrow> string \<Rightarrow> 'c result) \<Rightarrow> string \<Rightarrow> IP list \<Rightarrow> gerror option
    \<Rightarrow> IP list \<times> (gerror option + 'c)" where
  "try_dial dial port [] lastErr = ([], Inl lastErr)"
| "try_dial dial port (ip # ips) lastErr =
     (case dial ip port of
        Inr conn \<Rightarrow> ([ip], Inr conn)
      | Inl e \<Rightarrow> (case try_dial dial port ips (Some e) of (tried, r) \<Rightarrow> (ip # tried, r)))"

definition safeDialContext :: "(string \<Rightarrow> IP list result) \<Rightarrow> (IP \<Rightarrow> string \<Rightarrow> 'c result)
    \<Rightarrow> EndpointAllowlist \<Rightarrow> string \<Rightarrow> IP list \<times> 'c result" where
  "safeDialContext lookup dial privateAllowed addr =
     (case SplitHostPort addr of
        Inl e \<Rightarrow> ([], Inl (Wrapf [Lit ''invalid address '', Quoted addr] [e]))
      | Inr (host, port) \<Rightarrow>
          (let hostAllowed = ContainsHost privateAllowed host in
           case lookup host of
             Inl e \<Rightarrow> ([], Inl (Wrapf [Lit ''DNS resolution failed for '', Quoted host] [e]))
           | Inr ips \<Rightarrow>
               if ips = [] then
                 ([], Inl (Errorf [Lit ''DNS resolution for '', Quoted host, Lit '' returned no addresses'']))
               else if \<not> hostAllowed \<and> list_ex IsPrivateIP ips then
                 ([], Inl (errPrivateIP '''' host ips))
               else
                 (case try_dial dial port ips None of
                    (tried, Inr conn) \<Rightarrow> (tried, Inr conn)
                  | (tried, Inl lastErr) \<Rightarrow>
                      (tried, Inl (Wrapf [Lit ''all resolved IPs for '', Quoted host,
                         Lit '' failed to connect''] (case lastErr of Some e \<Rightarrow> [e] | None \<Rightarrow> []))))))"

text \<open>The redirect check: \<open>via\<close> is the list of the URLs requested so far, the original first.\<close>

definition CheckRedirect :: "(string \<Rightarrow> IP list result) \<Rightarrow> EndpointAllowlist \<Rightarrow> URL \<Rightarrow> URL list
    \<Rightarrow> unit result" where
  "CheckRedirect lookup privateHostAllowlist req via =
     (if length via \<ge> 3 then Inl (Errorf [Lit ''too many redirects''])
      else if via \<noteq> [] \<and> Scheme (hd via) = ''https'' \<and> Scheme req = ''http''
      then Inl (Errorf [Lit ''refusing https->http downgrade redirect to '', Lit (Hostname req)])
      else
        (let host = Hostname req in
         if ContainsHost privateHostAllowlist host then Inr ()
         else case lookup host of
             Inl e \<Rightarrow> Inl (Wrapf [Lit ''cannot resolve redirect target '', Quoted host] [e])
           | Inr ips \<Rightarrow>
               if list_ex IsPrivateIP ips
               then Inl (errPrivateIP ''redirect to '' host ips)
               else Inr ()))"

section \<open>What the ranges cover\<close>

lemma high_bits_eq:
  fixes a b :: byte
  shows "a AND NOT (mask m) = b AND NOT (mask m) \<longleftrightarrow> drop_bit m a = drop_bit m b" (is "?l \<longleftrightarrow> ?r")
proof
  assume l: ?l
  show ?r
  proof (rule bit_eqI)
    fix n
    have "bit (a AND NOT (mask m)) (m + n) = bit (b AND NOT (mask m)) (m + n)" using l by simp
    then show "bit (drop_bit m a) n = bit (drop_bit m b) n"
      by (auto simp: bit_simps dest: bit_imp_le_length)
  qed
next
  assume r: ?r
  show ?l
  proof (rule bit_eqI)
    fix n
    have "bit (drop_bit m a) (n - m) = bit (drop_bit m b) (n - m)" using r by simp
    then show "bit (a AND NOT (mask m)) n = bit (b AND NOT (mask m)) n"
      by (cases "m \<le> n") (auto simp: bit_simps)
  qed
qed

lemma byte_ones: "(255 :: byte) = mask 8"
  by (simp add: mask_eq_exp_minus_1)

text \<open>Two bytes agree under a mask when they agree above its zeros.\<close>

lemma mask_byte_eq:
  "a AND mask_byte ones i = b AND mask_byte ones i \<longleftrightarrow>
     unat a div 2 ^ (8 - min 8 (ones - 8 * i)) = unat b div 2 ^ (8 - min 8 (ones - 8 * i))"
proof -
  let ?k = "min 8 (ones - 8 * i)"
  have "drop_bit ?k (0xff :: byte) = mask (8 - ?k)"
    by (rule bit_eqI) (auto simp: bit_simps byte_ones)
  then have "a AND mask_byte ones i = b AND mask_byte ones i
      \<longleftrightarrow> drop_bit (8 - ?k) a = drop_bit (8 - ?k) b"
    by (simp only: mask_byte_def high_bits_eq)
  also have "\<dots> \<longleftrightarrow> unat (drop_bit (8 - ?k) a) = unat (drop_bit (8 - ?k) b)" by (simp add: word_unat_eq_iff)
  finally show ?thesis unfolding unat_drop_bit_eq by (simp add: drop_bit_eq_div)
qed

lemma masked_Nil [simp]: "masked ones [] = []"
  by (simp add: masked_def)

text \<open>The comparison of two masked byte lists, byte by byte.\<close>

fun match_from :: "nat \<Rightarrow> nat \<Rightarrow> IP \<Rightarrow> IP \<Rightarrow> bool" where
  "match_from ones i (x # xs) (y # ys) \<longleftrightarrow>
     unat x div 2 ^ (8 - min 8 (ones - 8 * i)) = unat y div 2 ^ (8 - min 8 (ones - 8 * i))
     \<and> match_from ones (Suc i) xs ys"
| "match_from ones i [] [] \<longleftrightarrow> True"
| "match_from ones i _ _ \<longleftrightarrow> False"

lemma match_from_iff:
  "map (\<lambda>(i, b). b AND mask_byte ones i) (List.enumerate i xs)
     = map (\<lambda>(i, b). b AND mask_byte ones i) (List.enumerate i ys) \<longleftrightarrow> match_from ones i xs ys"
  by (induction ones i xs ys rule: match_from.induct) (simp_all add: mask_byte_eq)

lemma net_Contains_iff:
  "net_Contains n ip \<longleftrightarrow> match_from (net_ones n) 0 (net_ip n) (case To4 ip of Some x \<Rightarrow> x | None \<Rightarrow> ip)"
proof -
  have len: "match_from ones i xs ys \<Longrightarrow> length xs = length ys" for ones i xs ys
    by (induction ones i xs ys rule: match_from.induct) auto
  show ?thesis by (auto simp: net_Contains_def masked_def match_from_iff Let_def dest: len)
qed

lemma unat_byte_div256 [simp]: "unat (b :: byte) div 256 = 0"
  using unsigned_less [of b, where 'a = nat] by simp

text \<open>The reserved IPv4 space as intervals of the dotted quad.\<close>

definition reserved4 :: "byte \<Rightarrow> byte \<Rightarrow> byte \<Rightarrow> bool" where
  "reserved4 a b c \<longleftrightarrow> a \<in> {0, 10, 127} \<or> a = 100 \<and> 64 \<le> b \<and> b \<le> 127 \<or> a = 169 \<and> b = 254
     \<or> a = 172 \<and> 16 \<le> b \<and> b \<le> 31 \<or> a = 192 \<and> b = 168 \<or> a = 192 \<and> b = 0 \<and> c = 0
     \<or> a = 198 \<and> 18 \<le> b \<and> b \<le> 19 \<or> 224 \<le> a"

lemma match_len: "match_from ones i xs ys \<Longrightarrow> length xs = length ys"
  by (induction ones i xs ys rule: match_from.induct) auto

lemma match_rest: "ones \<le> 8 * i \<Longrightarrow> match_from ones i xs ys \<longleftrightarrow> length xs = length ys"
proof (induction ones i xs ys rule: match_from.induct)
  case (1 ones i x xs y ys)
  then show ?case by simp
qed auto

lemma Contains_len: "length ip = 4 \<Longrightarrow> length (net_ip n) = 16 \<Longrightarrow> \<not> net_Contains n ip"
  by (auto simp: net_Contains_iff dest: match_len)

lemma range4:
  "net_Contains \<lparr>net_ip = [10, 0, 0, 0], net_ones = 8\<rparr> [a, b, c, d] \<longleftrightarrow> unat a = 10"
  "net_Contains \<lparr>net_ip = [172, 16, 0, 0], net_ones = 12\<rparr> [a, b, c, d] \<longleftrightarrow> unat a = 172 \<and> unat b div 16 = 1"
  "net_Contains \<lparr>net_ip = [192, 168, 0, 0], net_ones = 16\<rparr> [a, b, c, d] \<longleftrightarrow> unat a = 192 \<and> unat b = 168"
  "net_Contains \<lparr>net_ip = [127, 0, 0, 0], net_ones = 8\<rparr> [a, b, c, d] \<longleftrightarrow> unat a = 127"
  "net_Contains \<lparr>net_ip = [169, 254, 0, 0], net_ones = 16\<rparr> [a, b, c, d] \<longleftrightarrow> unat a = 169 \<and> unat b = 254"
  "net_Contains \<lparr>net_ip = [0, 0, 0, 0], net_ones = 8\<rparr> [a, b, c, d] \<longleftrightarrow> unat a = 0"
  "net_Contains \<lparr>net_ip = [100, 64, 0, 0], net_ones = 10\<rparr> [a, b, c, d] \<longleftrightarrow> unat a = 100 \<and> unat b div 64 = 1"
  "net_Contains \<lparr>net_ip = [192, 0, 0, 0], net_ones = 24\<rparr> [a, b, c, d] \<longleftrightarrow> unat a = 192 \<and> unat b = 0 \<and> unat c = 0"
  "net_Contains \<lparr>net_ip = [198, 18, 0, 0], net_ones = 15\<rparr> [a, b, c, d] \<longleftrightarrow> unat a = 198 \<and> unat b div 2 = 9"
  "net_Contains \<lparr>net_ip = [224, 0, 0, 0], net_ones = 4\<rparr> [a, b, c, d] \<longleftrightarrow> unat a div 16 = 14"
  "net_Contains \<lparr>net_ip = [240, 0, 0, 0], net_ones = 4\<rparr> [a, b, c, d] \<longleftrightarrow> unat a div 16 = 15"
  by (simp_all add: net_Contains_iff match_rest eq_commute [of _ "unat _"] eq_commute [of _ "_ div _"])

lemma in_ranges4: "list_ex (\<lambda>r. net_Contains r [a, b, c, d]) privateRanges \<longleftrightarrow> reserved4 a b c"
proof -
  have "list_ex (\<lambda>r. net_Contains r [a, b, c, d]) privateRanges \<longleftrightarrow>
      unat a = 10 \<or> (unat a = 172 \<and> unat b div 16 = 1) \<or> (unat a = 192 \<and> unat b = 168) \<or> unat a = 127
      \<or> (unat a = 169 \<and> unat b = 254) \<or> unat a = 0 \<or> (unat a = 100 \<and> unat b div 64 = 1)
      \<or> (unat a = 192 \<and> unat b = 0 \<and> unat c = 0) \<or> (unat a = 198 \<and> unat b div 2 = 9)
      \<or> unat a div 16 = 14 \<or> unat a div 16 = 15"
    by (simp add: privateRanges_def range4 Contains_len v6_def)
  also have "\<dots> \<longleftrightarrow> reserved4 a b c"
  proof -
    have "n div 16 = 1 \<longleftrightarrow> 16 \<le> n \<and> n \<le> 31" "n div 64 = 1 \<longleftrightarrow> 64 \<le> n \<and> n \<le> 127"
      "n div 2 = 9 \<longleftrightarrow> 18 \<le> n \<and> n \<le> 19" for n :: nat by linarith+
    moreover have "unat a div 16 = 14 \<or> unat a div 16 = 15 \<longleftrightarrow> 224 \<le> unat a"
      using unsigned_less [of a, where 'a = nat] by (simp, linarith)
    ultimately show ?thesis
      unfolding reserved4_def word_le_nat_alt word_unat_eq_iff insert_iff empty_iff by simp blast
  qed
  finally show ?thesis .
qed

lemma embeddedIPv4_v4 [simp]: "embeddedIPv4 [a, b, c, d] = None"
  by (simp add: embeddedIPv4_def split: option.splits)

lemma IsPrivateIP_v4: "IsPrivateIP [a, b, c, d] \<longleftrightarrow> reserved4 a b c"
  by (subst IsPrivateIP.simps) (simp add: in_ranges4)

text \<open>The block list of the SSRF guard is exactly the reserved IPv4 space. For every dotted quad,
  \<open>IsPrivateIP\<close> (prefix comparison against the CIDR table) holds iff the address lies in 0/8,
  10/8, 100.64/10, 127/8, 169.254/16 (cloud metadata), 172.16/12, 192.0.0/24, 192.168/16,
  198.18/15 or 224.0.0.0 and above (multicast, class E, broadcast).\<close>

theorem private_v4_exact: "IsPrivateIP [a, b, c, d] \<longleftrightarrow> reserved4 a b c"
  by (rule IsPrivateIP_v4)

lemma range6:
  assumes "length ip = 16" "To4 ip = None"
  shows "length (net_ip n) = 4 \<Longrightarrow> \<not> net_Contains n ip"
  using assms by (auto simp: net_Contains_iff dest: match_len)

lemma To4_mapped: "length v4 = 4 \<Longrightarrow> To4 (v4InV6Prefix @ v4) = Some v4"
  by (simp add: To4_def v4InV6Prefix_def)

lemma net_Contains_mapped: "length v4 = 4 \<Longrightarrow> net_Contains r (v4InV6Prefix @ v4) = net_Contains r v4"
  by (simp add: net_Contains_iff To4_mapped)

lemma IsPrivateIP_mapped: "length v4 = 4 \<Longrightarrow> IsPrivateIP (v4InV6Prefix @ v4) = IsPrivateIP v4"
  by (simp add: IsPrivateIP.simps [of "v4InV6Prefix @ v4"] IsPrivateIP.simps [of v4]
      net_Contains_mapped embeddedIPv4_def To4_mapped split: option.splits)

lemma len4_cases:
  assumes "length v = 4"
  obtains a b c d where "v = [a, b, c, d]"
  using assms by (auto simp: numeral_eq_Suc length_Suc_conv)

lemma len10_cases:
  assumes "length v = 10"
  obtains a b c d e f g h i j where "v = [a, b, c, d, e, f, g, h, i, j]"
  using assms by (auto simp: numeral_eq_Suc length_Suc_conv)

lemma replicate_pos: "0 < n \<Longrightarrow> replicate n x = x # replicate (n - 1) x"
  by (cases n) auto

text \<open>The transition addresses of an IPv4 address: 6to4, with the ten bytes that follow it, and the
  well-known NAT64 prefix.\<close>

definition sixToFour :: "IP \<Rightarrow> IP \<Rightarrow> IP" where
  "sixToFour v4 rest = [0x20, 0x02] @ v4 @ rest"

definition nat64 :: "IP \<Rightarrow> IP" where
  "nat64 v4 = [0x00, 0x64, 0xff, 0x9b, 0, 0, 0, 0, 0, 0, 0, 0] @ v4"

lemma IsPrivateIP_6to4:
  assumes "length v4 = 4" "length rest = 10"
  shows "IsPrivateIP (sixToFour v4 rest) = IsPrivateIP v4"
proof -
  obtain a b c d where v: "v4 = [a, b, c, d]" using assms(1) by (rule len4_cases)
  let ?ip = "sixToFour v4 rest"
  have t: "To4 ?ip = None" "length ?ip = 16" using assms by (auto simp: sixToFour_def To4_def v4InV6Prefix_def v)
  have e: "embeddedIPv4 ?ip = Some v4" using t by (simp add: embeddedIPv4_def To16_def sixToFour_def v)
  have "\<not> list_ex (\<lambda>r. net_Contains r ?ip) privateRanges"
    using t range6 [OF t(2,1)]
    by (simp add: privateRanges_def) (simp add: net_Contains_iff sixToFour_def v6_def replicate_pos)
  then show ?thesis by (subst IsPrivateIP.simps) (simp add: e)
qed

lemma IsPrivateIP_nat64:
  assumes "length v4 = 4"
  shows "IsPrivateIP (nat64 v4) = IsPrivateIP v4"
proof -
  obtain a b c d where v: "v4 = [a, b, c, d]" using assms(1) by (rule len4_cases)
  have t: "To4 (nat64 v4) = None" "length (nat64 v4) = 16" by (auto simp: nat64_def v To4_def v4InV6Prefix_def)
  have e: "embeddedIPv4 (nat64 v4) = Some v4" using t by (simp add: embeddedIPv4_def To16_def nat64_def v)
  have "\<not> list_ex (\<lambda>r. net_Contains r (nat64 v4)) privateRanges"
    using t range6 [OF t(2,1)]
    by (simp add: privateRanges_def) (simp add: net_Contains_iff nat64_def v v6_def replicate_pos)
  then show ?thesis by (subst IsPrivateIP.simps) (simp add: e)
qed

text \<open>An IPv6 spelling of an IPv4 destination is judged like the destination. For every IPv4
  address, its IPv4-mapped form (::ffff:a.b.c.d), every 6to4 address that embeds it (2002::/16) and
  its well-known NAT64 form (64:ff9b::/96) are blocked iff the IPv4 address itself is: a transition
  prefix can neither smuggle a private target past the guard nor get a public one blocked.\<close>

theorem private_transition_forms:
  assumes "length v4 = 4" "length rest = 10"
  shows "IsPrivateIP (v4InV6Prefix @ v4) = IsPrivateIP v4 \<and>
    IsPrivateIP (sixToFour v4 rest) = IsPrivateIP v4 \<and> IsPrivateIP (nat64 v4) = IsPrivateIP v4"
  using assms by (simp add: IsPrivateIP_mapped IsPrivateIP_6to4 IsPrivateIP_nat64)

theorem private_transition_forms_witness:
  "IsPrivateIP (v4InV6Prefix @ [169, 254, 169, 254]) \<and>
   IsPrivateIP (sixToFour [10, 0, 0, 1] (replicate 10 0)) \<and> \<not> IsPrivateIP (nat64 [8, 8, 8, 8])"
  using private_transition_forms [of "[169, 254, 169, 254]" "replicate 10 0"]
    private_transition_forms [of "[10, 0, 0, 1]" "replicate 10 0"]
    private_transition_forms [of "[8, 8, 8, 8]" "replicate 10 0"]
  by (simp add: IsPrivateIP_v4 reserved4_def)

section \<open>The dialer\<close>

lemma try_dial_set: "set (fst (try_dial dial port ips e)) \<subseteq> set ips"
  by (induction ips arbitrary: e) (auto split: sum.splits simp: case_prod_beta dest: subsetD)

text \<open>Some address connects, or all of them were tried.\<close>

lemma try_dial_result: "(\<exists>ip\<in>set ips. \<exists>conn. dial ip port = Inr conn \<and> snd (try_dial dial port ips e) = Inr conn)
    \<or> fst (try_dial dial port ips e) = ips \<and> (\<exists>e'. snd (try_dial dial port ips e) = Inl e')"
  by (induction ips arbitrary: e) (auto split: sum.splits simp: case_prod_beta)

text \<open>The addresses a dial tries are those its loop tries, on a resolved and validated list.\<close>

lemma safe_dial_tried:
  assumes "fst (safeDialContext lookup dial allow addr) \<noteq> []"
  obtains host port ips where "SplitHostPort addr = Inr (host, port)" "lookup host = Inr ips"
    "ContainsHost allow host \<or> (\<forall>x\<in>set ips. \<not> IsPrivateIP x)"
    "fst (safeDialContext lookup dial allow addr) = fst (try_dial dial port ips None)"
proof -
  from assms obtain host port where hp: "SplitHostPort addr = Inr (host, port)"
    by (cases "SplitHostPort addr") (auto simp: safeDialContext_def)
  with assms obtain ips where ips: "lookup host = Inr ips"
    by (cases "lookup host") (auto simp: safeDialContext_def)
  have ok: "ips \<noteq> []" "ContainsHost allow host \<or> \<not> list_ex IsPrivateIP ips"
    using assms hp ips by (auto simp: safeDialContext_def split: if_splits)
  have "fst (safeDialContext lookup dial allow addr) = fst (try_dial dial port ips None)"
    using hp ips ok by (auto simp: safeDialContext_def case_prod_beta split: sum.splits)
  with hp ips ok show ?thesis by (intro that) (auto simp: list_ex_iff)
qed

text \<open>C32: no server-side request forgery through the dialer. Whatever the resolver answers and
  however the connects end, every address the safe dialer tries to connect to is one the resolver
  returned for the requested host, and unless that host is in the private-host allowlist none of
  the returned addresses is private: one private address among public ones (DNS rebinding) is not
  dialled around, the whole dial fails before any connect.\<close>

theorem safe_dial_never_private:
  assumes "ip \<in> set (fst (safeDialContext lookup dial allow addr))"
  shows "\<exists>host port ips. SplitHostPort addr = Inr (host, port) \<and> lookup host = Inr ips \<and> ip \<in> set ips
    \<and> (ContainsHost allow host \<or> (\<forall>x\<in>set ips. \<not> IsPrivateIP x))"
proof -
  obtain host port ips where r: "SplitHostPort addr = Inr (host, port)" "lookup host = Inr ips"
    "ContainsHost allow host \<or> (\<forall>x\<in>set ips. \<not> IsPrivateIP x)"
    "fst (safeDialContext lookup dial allow addr) = fst (try_dial dial port ips None)"
    using assms by (metis empty_iff list.set(1) safe_dial_tried)
  then show ?thesis using assms try_dial_set [of dial port ips None] by auto
qed

definition ex_lookup :: "string \<Rightarrow> IP list result" where
  "ex_lookup host = (if host = ''celestrak.org'' then Inr [[104, 168, 149, 178]]
     else if host = ''mirror'' then Inr [[10, 1, 2, 3]] else Inl (Errorf [Lit ''no such host'']))"

definition ex_dial :: "IP \<Rightarrow> string \<Rightarrow> string result" where
  "ex_dial ip port = Inr port"

theorem safe_dial_never_private_witness:
  "[104, 168, 149, 178] \<in> set (fst (safeDialContext ex_lookup ex_dial \<lparr>hosts = []\<rparr> ''celestrak.org:443''))
   \<and> \<not> IsPrivateIP [104, 168, 149, 178]"
proof -
  have "[104, 168, 149, 178] \<in> set (fst (safeDialContext ex_lookup ex_dial \<lparr>hosts = []\<rparr> ''celestrak.org:443''))"
    by (simp add: safeDialContext_def SplitHostPort_def split_tail_def ex_lookup_def ex_dial_def
        IsPrivateIP_v4 reserved4_def)
  with safe_dial_never_private [OF this] show ?thesis by (auto simp: ContainsHost_def)
qed

text \<open>The redirect policy. A redirect the safe client follows is at most the third hop, never
  leaves https for http when the original request was https, and its target host either is in the
  private-host allowlist or resolves to public addresses only.\<close>

theorem redirect_policy:
  assumes "CheckRedirect lookup allow req via = Inr ()"
  shows "length via < 3 \<and> (via \<noteq> [] \<and> Scheme (hd via) = ''https'' \<longrightarrow> Scheme req \<noteq> ''http'')
    \<and> (ContainsHost allow (Hostname req) \<or>
       (\<exists>ips. lookup (Hostname req) = Inr ips \<and> (\<forall>x\<in>set ips. \<not> IsPrivateIP x)))"
  using assms by (auto simp: CheckRedirect_def Let_def list_ex_iff split: if_splits sum.splits)

theorem redirect_policy_witness:
  "CheckRedirect ex_lookup \<lparr>hosts = []\<rparr> \<lparr>Scheme = ''https'', User = False, Hostname = ''celestrak.org''\<rparr>
     [\<lparr>Scheme = ''https'', User = False, Hostname = ''www.celestrak.org''\<rparr>] = Inr () \<and>
   (\<exists>ips. ex_lookup ''celestrak.org'' = Inr ips \<and> (\<nexists>x. x \<in> set ips \<and> IsPrivateIP x))"
proof -
  have "CheckRedirect ex_lookup \<lparr>hosts = []\<rparr> \<lparr>Scheme = ''https'', User = False, Hostname = ''celestrak.org''\<rparr>
     [\<lparr>Scheme = ''https'', User = False, Hostname = ''www.celestrak.org''\<rparr>] = Inr ()"
    by (simp add: CheckRedirect_def ContainsHost_def ex_lookup_def IsPrivateIP_v4 reserved4_def)
  with redirect_policy [OF this] show ?thesis by (auto simp: ContainsHost_def)
qed

text \<open>The allowlist: an accepted URL is http(s), carries no userinfo and has a listed host.\<close>

lemma Check_ok: "Check url_parse a raw = Inr () \<longleftrightarrow>
    (\<exists>u. url_parse raw = Inr u \<and> ToLower (Scheme u) \<in> {''http'', ''https''} \<and> \<not> User u
      \<and> Hostname u \<noteq> '''' \<and> (hosts a = [] \<or> ContainsHost a (Hostname u)))"
  by (auto simp: Check_def ContainsHost_def Let_def ToLower_def split: sum.splits)

lemma Check_error: "Check url_parse a raw = Inl e \<Longrightarrow> errors_Is e ErrEndpointNotAllowed"
  by (auto simp: Check_def errNotAllowed_def Let_def split: sum.splits if_splits)

end
