(* ===== verification/Failover_Laws.thy ===== *)
theory Failover_Laws
  imports Failover
begin

text \<open>
  What the failover engine guarantees, over single evaluations and over runs of samples. A run
  threads the active path and the anti-flap state through \<open>EvaluateFailoverWithAntiFlap\<close> the way
  the reconciler does while metrics stay reliable and the policy is not edited.
\<close>

section \<open>Runs of samples\<close>

record policy =
  p_triggers :: "string list"
  p_delay :: duration
  p_margin :: f64
  p_cfg :: AntiFlapConfig

record sample =
  s_metrics :: Metrics
  s_observed :: time
  s_avail :: bool
  s_now :: time

definition engine_step ::
  "policy \<Rightarrow> PathType \<times> AntiFlapState \<Rightarrow> sample \<Rightarrow> FailoverResult \<times> AntiFlapState" where
  "engine_step pol ps x = EvaluateFailoverWithAntiFlap (fst ps) (p_triggers pol) (s_metrics x)
     (s_observed x) (s_avail x) (p_delay pol) (s_now x) (p_margin pol) (p_cfg pol) (snd ps)"

fun engine_run :: "policy \<Rightarrow> PathType \<times> AntiFlapState \<Rightarrow> sample list \<Rightarrow> PathType \<times> AntiFlapState" where
  "engine_run pol ps [] = ps"
| "engine_run pol ps (x # xs) =
     (let (r, st) = engine_step pol ps x in engine_run pol (TargetPath r, st) xs)"

fun engine_decisions :: "policy \<Rightarrow> PathType \<times> AntiFlapState \<Rightarrow> sample list \<Rightarrow> FailoverResult list" where
  "engine_decisions pol ps [] = []"
| "engine_decisions pol ps (x # xs) =
     (let (r, st) = engine_step pol ps x in r # engine_decisions pol (TargetPath r, st) xs)"

abbreviation degraded :: "policy \<Rightarrow> sample \<Rightarrow> bool" where
  "degraded pol x \<equiv> terrestrialDegraded (p_triggers pol) (s_metrics x)"

text \<open>The samples of a run that carry a new observation, given the cursor it starts from.\<close>

fun counted :: "time \<Rightarrow> sample list \<Rightarrow> sample list" where
  "counted cur [] = []"
| "counted cur (x # xs) =
     (if IsZero (s_observed x) \<or> s_observed x > cur then x # counted (s_observed x) xs
      else counted cur xs)"

text \<open>The length of the run of degraded samples a list of samples ends with.\<close>

definition streak :: "policy \<Rightarrow> sample list \<Rightarrow> nat" where
  "streak pol xs = length (takeWhile (degraded pol) (rev xs))"

lemma engine_run_append:
  "engine_run pol ps (xs @ ys) = engine_run pol (engine_run pol ps xs) ys"
  by (induction xs arbitrary: ps) (auto split: prod.splits)

lemma engine_step_state:
  "snd (engine_step pol ps x) = (let st = update_clocks (p_triggers pol) (s_metrics x) (s_observed x)
       (s_now x) (p_margin pol) (snd ps) in
     if Decision (fst (engine_step pol ps x)) = DecisionSwitchback \<and> s_avail x \<and> fst ps = PathSatellite
     then st\<lparr>LastSwitchback := s_now x\<rparr> else st)"
  by (simp add: engine_step_def EvaluateFailoverWithAntiFlap_def Let_def)

lemma engine_step_counter:
  "ConsecutiveDegraded (snd (engine_step pol ps x)) =
     (if newObservation (s_observed x) (snd ps)
      then if degraded pol x then ConsecutiveDegraded (snd ps) + 1 else 0
      else ConsecutiveDegraded (snd ps))"
  by (auto simp: engine_step_state Let_def update_clocks_degraded update_clocks_healthy
      update_clocks_replay)

lemma engine_step_cursor:
  "LastCountedObservedAt (snd (engine_step pol ps x)) =
     (if newObservation (s_observed x) (snd ps) then s_observed x
      else LastCountedObservedAt (snd ps))"
  by (auto simp: engine_step_state Let_def update_clocks_cursor)

lemma streak_simps [simp]:
  "streak pol [] = 0"
  "degraded pol x \<Longrightarrow> streak pol (xs @ [x]) = streak pol xs + 1"
  "\<not> degraded pol x \<Longrightarrow> streak pol (xs @ [x]) = 0"
  by (auto simp: streak_def)

lemma streak_counter_ext:
  "ConsecutiveDegraded (snd (engine_run pol ps xs)) = int (streak pol (ys @ counted cur xs))"
  if "ConsecutiveDegraded (snd ps) = int (streak pol ys)" "LastCountedObservedAt (snd ps) = cur"
  using that
proof (induction xs arbitrary: ps ys cur)
  case Nil
  then show ?case by simp
next
  case (Cons x xs)
  obtain r st where e: "engine_step pol ps x = (r, st)" by fastforce
  note c = engine_step_counter [of pol ps x] engine_step_cursor [of pol ps x]
  show ?case
  proof (cases "newObservation (s_observed x) (snd ps)")
    case True
    then have "ConsecutiveDegraded st = int (streak pol (ys @ [x]))"
      using c Cons.prems e by (cases "degraded pol x") auto
    then have "ConsecutiveDegraded (snd (engine_run pol (TargetPath r, st) xs))
        = int (streak pol ((ys @ [x]) @ counted (s_observed x) xs))"
      using c True e by (intro Cons.IH) auto
    with True e Cons.prems show ?thesis by (auto simp: newObservation_def)
  next
    case False
    then have "ConsecutiveDegraded (snd (engine_run pol (TargetPath r, st) xs))
        = int (streak pol (ys @ counted cur xs))"
      using c e Cons.prems by (intro Cons.IH) auto
    with False e Cons.prems show ?thesis by (auto simp: newObservation_def)
  qed
qed

text \<open>From a fresh state the counter is the length of the degraded streak of distinct
  observations.\<close>

lemma streak_counter:
  "ConsecutiveDegraded (snd (engine_run pol (p, zeroFlap) xs)) = int (streak pol (counted 0 xs))"
  using streak_counter_ext [of "(p, zeroFlap)" pol "[]" 0 xs] by (simp add: zeroFlap_def)

lemma counted_increasing:
  "\<forall>x\<in>set xs. \<not> IsZero (s_observed x) \<Longrightarrow>
     sorted_wrt (<) (map s_observed (counted cur xs))
     \<and> (\<forall>y\<in>set (counted cur xs). cur < s_observed y)"
proof (induction xs arbitrary: cur)
  case (Cons x xs)
  then have "\<forall>x\<in>set xs. \<not> IsZero (s_observed x)" by simp
  from Cons.IH [OF this, of "s_observed x"] Cons.IH [OF this, of cur] Cons.prems
  show ?case by auto
qed simp

text \<open>A sample that is past the hysteresis margin, none of its triggers firing.\<close>

abbreviation has_recovered :: "policy \<Rightarrow> sample \<Rightarrow> bool" where
  "has_recovered pol x \<equiv> \<not> degraded pol x \<and> terrestrialConfirmedRecovered (p_triggers pol) (s_metrics x) (p_margin pol)"

text \<open>The recovery a list of samples ends with, and the instant it began (0, the zero time, when there is none).\<close>

definition recovery_run :: "policy \<Rightarrow> sample list \<Rightarrow> sample list" where
  "recovery_run pol xs = rev (takeWhile (has_recovered pol) (rev xs))"

definition recovery_start :: "policy \<Rightarrow> sample list \<Rightarrow> time" where
  "recovery_start pol xs = (case recovery_run pol xs of [] \<Rightarrow> 0 | y # ys \<Rightarrow> s_now y)"

lemma recovery_simps [simp]:
  "recovery_run pol [] = []"
  "has_recovered pol x \<Longrightarrow> recovery_run pol (xs @ [x]) = recovery_run pol xs @ [x]"
  "\<not> has_recovered pol x \<Longrightarrow> recovery_run pol (xs @ [x]) = []"
  by (auto simp: recovery_run_def)

lemma recovery_suffix: "\<exists>ys. xs = ys @ recovery_run pol xs"
  unfolding recovery_run_def by (metis rev_append rev_rev_ident takeWhile_dropWhile_id)

lemma recovery_recovered: "z \<in> set (recovery_run pol xs) \<Longrightarrow> has_recovered pol z"
  unfolding recovery_run_def by (auto dest: set_takeWhileD)

lemma engine_step_recovery:
  "RecoveryObservedAt (snd (engine_step pol ps x)) =
     (if newObservation (s_observed x) (snd ps)
      then if has_recovered pol x
           then if IsZero (RecoveryObservedAt (snd ps)) then s_now x else RecoveryObservedAt (snd ps)
           else 0
      else RecoveryObservedAt (snd ps))"
  by (simp add: engine_step_state Let_def update_clocks_def)

lemma recovery_start_snoc:
  assumes "has_recovered pol x" "\<forall>y\<in>set ys. \<not> IsZero (s_now y)"
  shows "recovery_start pol (ys @ [x]) = (if IsZero (recovery_start pol ys) then s_now x else recovery_start pol ys)"
proof (cases "recovery_run pol ys")
  case (Cons y zs)
  then have "y \<in> set ys" using recovery_suffix [of ys pol] by (metis in_set_conv_decomp)
  then show ?thesis using assms Cons by (simp add: recovery_start_def)
qed (use assms in \<open>simp add: recovery_start_def IsZero_def\<close>)

lemma recovery_clock_ext:
  assumes "RecoveryObservedAt (snd ps) = recovery_start pol ys" "LastCountedObservedAt (snd ps) = cur"
    "\<forall>y\<in>set ys \<union> set xs. \<not> IsZero (s_now y)"
  shows "RecoveryObservedAt (snd (engine_run pol ps xs)) = recovery_start pol (ys @ counted cur xs)"
  using assms
proof (induction xs arbitrary: ps ys cur)
  case (Cons x xs)
  obtain r st where e: "engine_step pol ps x = (r, st)" by fastforce
  note c = engine_step_recovery [of pol ps x] engine_step_cursor [of pol ps x]
  show ?case
  proof (cases "newObservation (s_observed x) (snd ps)")
    case True
    have "RecoveryObservedAt st = recovery_start pol (ys @ [x])"
      using c True Cons.prems e recovery_start_snoc [of pol x ys]
      by (cases "has_recovered pol x") (auto simp: recovery_start_def)
    then have "RecoveryObservedAt (snd (engine_run pol (TargetPath r, st) xs))
        = recovery_start pol ((ys @ [x]) @ counted (s_observed x) xs)"
      using c True e Cons.prems by (intro Cons.IH) auto
    with True e Cons.prems show ?thesis by (auto simp: newObservation_def)
  next
    case False
    then have "RecoveryObservedAt (snd (engine_run pol (TargetPath r, st) xs))
        = recovery_start pol (ys @ counted cur xs)"
      using c e Cons.prems by (intro Cons.IH) auto
    with False e Cons.prems show ?thesis by (auto simp: newObservation_def)
  qed
qed simp

text \<open>From a fresh state the recovery clock is the instant at which the recovery began that the distinct observations
  end with.\<close>

lemma recovery_clock:
  assumes "\<forall>y\<in>set xs. \<not> IsZero (s_now y)"
  shows "RecoveryObservedAt (snd (engine_run pol (p, zeroFlap) xs)) = recovery_start pol (counted 0 xs)"
  using recovery_clock_ext [of "(p, zeroFlap)" pol "[]" 0 xs] assms by (simp add: zeroFlap_def recovery_start_def)

lemma counted_subset: "set (counted cur xs) \<subseteq> set xs"
  by (induction xs arbitrary: cur) auto

section \<open>A concrete policy and samples\<close>

text \<open>The policy of the API documentation's example, with two confirmation samples, a one-minute
  switchback delay and dwell, and four observations under it. The witnesses evaluate on these.\<close>

definition ex_metrics :: "rat \<Rightarrow> Metrics" where
  "ex_metrics r = \<lparr>RSRP = Fin r, LatencyMs = Fin 20, PacketLossPercent = Fin 0, RSRPMissing = False,
     LatencyMissing = True, PacketLossMissing = True\<rparr>"

definition ex_policy :: policy where
  "ex_policy = \<lparr>p_triggers = [''rsrp < -120''], p_delay = 60 * second, p_margin = Fin 10,
     p_cfg = \<lparr>ConfirmationSamples = 2, MinTerrestrialDwell = 60 * second\<rparr>\<rparr>"

definition ex_sample :: "rat \<Rightarrow> time \<Rightarrow> sample" where
  "ex_sample r t = \<lparr>s_metrics = ex_metrics r, s_observed = t, s_avail = True, s_now = t\<rparr>"

lemma ex_trim:
  "TrimSpace ''rsrp < -120'' = ''rsrp < -120''" "TrimSpace ''rsrp '' = ''rsrp''"
  "TrimSpace '' -120'' = ''-120''"
  using TrimSpace_none [of "''rsrp < -120''"] TrimSpace_right [of "''rsrp''" 1]
    TrimSpace_left [of "''-120''" 1]
  by (simp_all add: graphic_def)

lemma ex_float: "ParseFloat ''-120'' = Inr (Fin (- 120))"
  by (simp add: ParseFloat_def read_float_def has_hex_prefix_def digit_val_def to_lower_def
      ToLower_def)

lemma ex_parse: "ParseTrigger ''rsrp < -120'' =
    Inr \<lparr>Metric = ''rsrp'', Operator = ''<'', Value = Fin (- 120)\<rparr>"
  by (simp add: ParseTrigger_def parse_parts_def ex_trim ex_float IsNaN_def IsInf_def
      validMetrics_def metric_names)

declare terrestrialDegraded.simps(2) [simp del] InertTriggers.simps(2) [simp del]

lemma ex_metrics_simps [simp]:
  "RSRP (ex_metrics r) = Fin r" "RSRPMissing (ex_metrics r) = False"
  "LatencyMs (ex_metrics r) = Fin 20" "PacketLossPercent (ex_metrics r) = Fin 0"
  by (simp_all add: ex_metrics_def)

lemma ex_degraded: "terrestrialDegraded [''rsrp < -120''] (ex_metrics r) \<longleftrightarrow> r < - 120"
  by (simp add: terrestrialDegraded.simps ex_parse metricMissing_def Evaluate_def actual_of_def
      metric_names)

lemma ex_inert [simp]: "InertTriggers [''rsrp < -120''] (ex_metrics r) = []"
  by (simp add: InertTriggers.simps ex_parse metricMissing_def metric_names)

lemma ex_parsed: "valid_triggers [''rsrp < -120''] =
    [\<lparr>Metric = ''rsrp'', Operator = ''<'', Value = Fin (- 120)\<rparr>]"
  by (simp add: ex_parse)

lemma ex_recovered: "recovery_passed [''rsrp < -120''] (ex_metrics r) (Fin 10) \<longleftrightarrow> - 110 \<le> r"
  by (auto simp: recovery_passed_def trigger_set_simps ex_degraded ex_parsed metricMissing_def
      some_invalid_def ex_parse EvaluateRecovery_def Evaluate_def actual_of_def metric_names)

lemma ex_confirmed: "terrestrialConfirmedRecovered [''rsrp < -120''] (ex_metrics r) (Fin 10) \<longleftrightarrow> - 110 \<le> r"
  by (auto simp: confirmed_recovered_iff ex_parsed metricMissing_def EvaluateRecovery_def
      actual_of_def metric_names)

lemmas ex_simps = ex_policy_def ex_sample_def ex_degraded ex_recovered ex_confirmed

section \<open>Safety of the targets\<close>

text \<open>C1: A satellite whose pass has ended is always left for terrestrial, whatever the triggers,
  the metrics, the delays and the anti-flap state say.\<close>

theorem pass_end_forces_terrestrial:
  "let r = fst (EvaluateFailoverWithAntiFlap PathSatellite ts m obs False d n h cfg st)
   in Decision r = DecisionSwitchback \<and> TargetPath r = PathTerrestrial"
  using antiflap.orbital [OF refl] by (simp add: Let_def)

text \<open>C2: No evaluation selects the satellite path while no satellite is available.\<close>

theorem satellite_only_when_available:
  assumes "TargetPath (fst (EvaluateFailoverWithAntiFlap p ts m obs a d n h cfg st)) = PathSatellite"
  shows "a"
  using assms by (rule antiflap.no_black_hole)

theorem satellite_only_when_available_witness:
  "TargetPath (fst (EvaluateFailoverWithAntiFlap PathTerrestrial [''rsrp < -120''] (ex_metrics (- 130))
     1 True 0 5 (Fin 0) \<lparr>ConfirmationSamples = 0, MinTerrestrialDwell = 0\<rparr> zeroFlap)) = PathSatellite
   \<and> True"
proof -
  let ?r = "fst (EvaluateFailoverWithAntiFlap PathTerrestrial [''rsrp < -120''] (ex_metrics (- 130))
     1 True 0 5 (Fin 0) \<lparr>ConfirmationSamples = 0, MinTerrestrialDwell = 0\<rparr> zeroFlap)"
  have "Decision ?r = DecisionFailover" by (simp add: antiflap_failover_iff Let_def ex_degraded)
  then have t: "TargetPath ?r = PathSatellite" by (rule antiflap.failover [THEN conjunct1])
  show ?thesis using t satellite_only_when_available [OF t] by simp
qed

text \<open>A trigger whose metric has no live source blocks every quality-driven switchback: while
  the satellite is available the slice stays on it.\<close>

theorem unknown_metric_blocks_switchback:
  assumes "InertTriggers ts m \<noteq> []"
  shows "Decision (fst (EvaluateFailoverWithAntiFlap PathSatellite ts m obs True d n h cfg st)) = DecisionStay"
proof -
  let ?r = "fst (EvaluateFailoverWithAntiFlap PathSatellite ts m obs True d n h cfg st)"
  have "Decision ?r \<noteq> DecisionSwitchback"
    using assms by (simp add: antiflap_switchback_iff recovery_passed_def)
  moreover have "Decision ?r \<noteq> DecisionFailover"
    using antiflap.failover [of PathSatellite ts m obs True d n h cfg st] by auto
  ultimately show ?thesis by (cases "Decision ?r") auto
qed

theorem unknown_metric_blocks_switchback_witness:
  "Decision (fst (EvaluateFailoverWithAntiFlap PathSatellite [''rsrp < -120'']
     ((ex_metrics (- 80))\<lparr>RSRPMissing := True\<rparr>) 1 True 0 5 (Fin 0)
     \<lparr>ConfirmationSamples = 0, MinTerrestrialDwell = 0\<rparr> zeroFlap)) = DecisionStay"
  by (rule unknown_metric_blocks_switchback) (simp add: InertTriggers.simps ex_parse metricMissing_def metric_names)

text \<open>The gates never fabricate a switch: the anti-flap decision is the one of the hysteresis
  engine measured from the recovery clock, or a failover from terrestrial turned into staying on
  terrestrial.\<close>

theorem antiflap_only_downgrades:
  "let r = fst (EvaluateFailoverWithAntiFlap p ts m obs a d n h cfg st);
       raw = EvaluateFailoverWithHysteresis p ts m a d
               (RecoveryObservedAt (update_clocks ts m obs n h st)) n h
   in r = raw \<or> (p = PathTerrestrial \<and> Decision raw = DecisionFailover
        \<and> Decision r = DecisionStay \<and> TargetPath r = PathTerrestrial)"
  using gate_failover_cases [of p cfg n "update_clocks ts m obs n h st"]
  by (simp add: EvaluateFailoverWithAntiFlap_def Let_def)

text \<open>With anti-flap left at its zero value the wrapper is the hysteresis engine.\<close>

theorem antiflap_zero_config:
  assumes "ConfirmationSamples cfg \<le> 1" "MinTerrestrialDwell cfg \<le> 0"
  shows "fst (EvaluateFailoverWithAntiFlap p ts m obs a d n h cfg st) =
    EvaluateFailoverWithHysteresis p ts m a d (RecoveryObservedAt (update_clocks ts m obs n h st)) n h"
  using assms by (simp add: EvaluateFailoverWithAntiFlap_def Let_def gate_failover_def)

theorem antiflap_zero_config_witness:
  "fst (EvaluateFailoverWithAntiFlap PathTerrestrial [''rsrp < -120''] (ex_metrics (- 130)) 1 True 0 5
     (Fin 0) \<lparr>ConfirmationSamples = 1, MinTerrestrialDwell = 0\<rparr> zeroFlap) =
   EvaluateFailoverWithHysteresis PathTerrestrial [''rsrp < -120''] (ex_metrics (- 130)) True 0
     (RecoveryObservedAt (update_clocks [''rsrp < -120''] (ex_metrics (- 130)) 1 5 (Fin 0) zeroFlap)) 5 (Fin 0)"
  by (rule antiflap_zero_config) simp_all

section \<open>Confirmation\<close>

text \<open>C4: A failover from terrestrial is confirmed by N distinct observations: whenever a run from a
  fresh state ends in one, the last N observations with a new source timestamp were all degraded.\<close>

theorem failover_needs_confirmation:
  assumes run: "engine_run pol (p, zeroFlap) xs = (PathTerrestrial, st)"
    and fo: "Decision (fst (engine_step pol (PathTerrestrial, st) x)) = DecisionFailover"
    and N: "ConfirmationSamples (p_cfg pol) > 1"
  shows "ConfirmationSamples (p_cfg pol) \<le> int (streak pol (counted 0 (xs @ [x])))"
proof -
  have "ConfirmationSamples (p_cfg pol) \<le> ConsecutiveDegraded (snd (engine_step pol (PathTerrestrial, st) x))"
  proof -
    have "snd (engine_step pol (PathTerrestrial, st) x) = update_clocks (p_triggers pol) (s_metrics x)
        (s_observed x) (s_now x) (p_margin pol) st"
      by (simp add: engine_step_state Let_def)
    then show ?thesis using fo N by (simp add: engine_step_def antiflap_failover_iff Let_def)
  qed
  also have "snd (engine_step pol (PathTerrestrial, st) x) = snd (engine_run pol (p, zeroFlap) (xs @ [x]))"
    using run by (auto simp: engine_run_append split: prod.splits)
  finally show ?thesis by (simp add: streak_counter)
qed

theorem failover_needs_confirmation_witness:
  "ConfirmationSamples (p_cfg ex_policy)
     \<le> int (streak ex_policy (counted 0 ([ex_sample (- 130) 5] @ [ex_sample (- 125) 6])))"
proof (rule failover_needs_confirmation)
  show "engine_run ex_policy (PathTerrestrial, zeroFlap) [ex_sample (- 130) 5] = (PathTerrestrial,
      \<lparr>ConsecutiveDegraded = 1, RecoveryObservedAt = 0, LastSwitchback = 0, LastCountedObservedAt = 5\<rparr>)"
    using hysteresis_terrestrial_failover [of "[''rsrp < -120'']" "ex_metrics (- 130)" True]
    by (simp add: engine_step_def EvaluateFailoverWithAntiFlap_def Let_def update_clocks_def
        newObservation_def zeroFlap_def gate_failover_def ex_simps IsZero_def)
  show "Decision (fst (engine_step ex_policy (PathTerrestrial, \<lparr>ConsecutiveDegraded = 1,
      RecoveryObservedAt = 0, LastSwitchback = 0, LastCountedObservedAt = 5\<rparr>) (ex_sample (- 125) 6)))
      = DecisionFailover"
    by (simp add: engine_step_def antiflap_failover_iff Let_def update_clocks_def newObservation_def
        ex_simps IsZero_def)
qed (simp add: ex_simps)

text \<open>A replayed or stalled observation carries no information: it leaves every clock of the
  anti-flap state as it is, except that a quality-driven switchback stamps the dwell clock.\<close>

theorem replay_holds_clocks:
  assumes "\<not> IsZero obs" "obs \<le> LastCountedObservedAt st"
  shows "let st' = snd (EvaluateFailoverWithAntiFlap p ts m obs a d n h cfg st)
         in st' = st \<or> (st' = st\<lparr>LastSwitchback := n\<rparr> \<and> p = PathSatellite \<and> a)"
  using assms
  by (auto simp: EvaluateFailoverWithAntiFlap_def Let_def update_clocks_replay newObservation_def)

theorem replay_holds_clocks_witness:
  "let st' = snd (EvaluateFailoverWithAntiFlap PathTerrestrial [''rsrp < -120''] (ex_metrics (- 130)) 5
        True 0 9 (Fin 0) (p_cfg ex_policy) (zeroFlap\<lparr>LastCountedObservedAt := 5\<rparr>))
   in st' = zeroFlap\<lparr>LastCountedObservedAt := 5\<rparr>
      \<or> (st' = zeroFlap\<lparr>LastCountedObservedAt := 5, LastSwitchback := 9\<rparr>
         \<and> PathTerrestrial = PathSatellite \<and> True)"
  using replay_holds_clocks [of 5 "zeroFlap\<lparr>LastCountedObservedAt := 5\<rparr>" PathTerrestrial
      "[''rsrp < -120'']" "ex_metrics (- 130)" True 0 9 "Fin 0" "p_cfg ex_policy"]
  by (simp add: IsZero_def)

text \<open>A run of samples that all carry a new observation, given the cursor it starts from.\<close>

fun all_new :: "time \<Rightarrow> sample list \<Rightarrow> bool" where
  "all_new cur [] = True"
| "all_new cur (x # xs) = ((IsZero (s_observed x) \<or> s_observed x > cur) \<and> all_new (s_observed x) xs)"

definition dwell_elapsed :: "policy \<Rightarrow> AntiFlapState \<Rightarrow> sample \<Rightarrow> bool" where
  "dwell_elapsed pol st x \<longleftrightarrow> MinTerrestrialDwell (p_cfg pol) \<le> 0 \<or> IsZero (LastSwitchback st)
     \<or> MinTerrestrialDwell (p_cfg pol) \<le> time_Sub (s_now x) (LastSwitchback st)"

lemma step_terrestrial_degraded:
  assumes "degraded pol x" "s_avail x" "dwell_elapsed pol st x"
    and "newObservation (s_observed x) st"
  shows "let (r, st') = engine_step pol (PathTerrestrial, st) x in
     (Decision r = DecisionFailover \<or>
      (TargetPath r = PathTerrestrial \<and> ConsecutiveDegraded st + 1 < ConfirmationSamples (p_cfg pol)))
     \<and> ConsecutiveDegraded st' = ConsecutiveDegraded st + 1
     \<and> LastCountedObservedAt st' = s_observed x \<and> LastSwitchback st' = LastSwitchback st"
proof -
  obtain r st' where e: "engine_step pol (PathTerrestrial, st) x = (r, st')" by fastforce
  have st': "st' = update_clocks (p_triggers pol) (s_metrics x) (s_observed x) (s_now x)
      (p_margin pol) st"
    using engine_step_state [of pol "(PathTerrestrial, st)" x] e by (simp add: Let_def)
  have c: "ConsecutiveDegraded st' = ConsecutiveDegraded st + 1"
    "LastCountedObservedAt st' = s_observed x" "LastSwitchback st' = LastSwitchback st"
    using assms by (simp_all add: st' update_clocks_degraded update_clocks_cursor)
  have "Decision r = DecisionFailover \<longleftrightarrow>
      \<not> (ConfirmationSamples (p_cfg pol) > 1 \<and> ConsecutiveDegraded st + 1 < ConfirmationSamples (p_cfg pol))"
    using e assms(1-3) c(1) antiflap_failover_iff [of "p_triggers pol" "s_metrics x" "s_observed x" "s_avail x"
        "p_delay pol" "s_now x" "p_margin pol" "p_cfg pol" st]
    by (auto simp: engine_step_def Let_def st' dwell_elapsed_def)
  moreover have "Decision r \<noteq> DecisionSwitchback"
    using e antiflap.switchback [of PathTerrestrial "p_triggers pol" "s_metrics x" "s_observed x"
        "s_avail x" "p_delay pol" "s_now x" "p_margin pol" "p_cfg pol" st]
    by (auto simp: engine_step_def)
  moreover have "Decision r = DecisionStay \<Longrightarrow> TargetPath r = PathTerrestrial"
    using e antiflap.stay [of PathTerrestrial "p_triggers pol" "s_metrics x" "s_observed x"
        "s_avail x" "p_delay pol" "s_now x" "p_margin pol" "p_cfg pol" st]
    by (auto simp: engine_step_def)
  ultimately show ?thesis using e c by (cases "Decision r") auto
qed

text \<open>C13: The gates only delay: once the dwell has elapsed, a degradation that lasts for N fresh
  observations while the satellite is available does fail over within them.\<close>

theorem sustained_degradation_fails_over:
  assumes "all_new (LastCountedObservedAt st) xs"
    and "\<forall>x\<in>set xs. degraded pol x \<and> s_avail x \<and> dwell_elapsed pol st x"
    and "xs \<noteq> []" "0 \<le> ConsecutiveDegraded st"
    and "ConfirmationSamples (p_cfg pol) \<le> ConsecutiveDegraded st + int (length xs)"
  shows "\<exists>r\<in>set (engine_decisions pol (PathTerrestrial, st) xs). Decision r = DecisionFailover"
  using assms
proof (induction xs arbitrary: st)
  case (Cons x xs)
  obtain r st' where e: "engine_step pol (PathTerrestrial, st) x = (r, st')" by fastforce
  from Cons.prems have "newObservation (s_observed x) st" by (simp add: newObservation_def)
  with step_terrestrial_degraded [of pol x st] Cons.prems(2) e
  consider "Decision r = DecisionFailover"
    | "TargetPath r = PathTerrestrial" "ConsecutiveDegraded st + 1 < ConfirmationSamples (p_cfg pol)"
      "ConsecutiveDegraded st' = ConsecutiveDegraded st + 1"
      "LastCountedObservedAt st' = s_observed x" "LastSwitchback st' = LastSwitchback st"
    by auto
  then show ?case
  proof cases
    case 1
    with e show ?thesis by simp
  next
    case 2
    have "\<exists>r\<in>set (engine_decisions pol (PathTerrestrial, st') xs). Decision r = DecisionFailover"
    proof (rule Cons.IH)
      show "xs \<noteq> []" using 2 Cons.prems(5) by auto
      show "\<forall>x\<in>set xs. degraded pol x \<and> s_avail x \<and> dwell_elapsed pol st' x"
        using Cons.prems(2) 2 by (auto simp: dwell_elapsed_def)
    qed (use 2 Cons.prems in auto)
    with 2 e show ?thesis by simp
  qed
qed simp

theorem sustained_degradation_fails_over_witness:
  "\<exists>r\<in>set (engine_decisions ex_policy (PathTerrestrial, zeroFlap)
      [ex_sample (- 130) 5, ex_sample (- 125) 6]). Decision r = DecisionFailover"
  by (rule sustained_degradation_fails_over)
    (simp_all add: ex_simps zeroFlap_def dwell_elapsed_def IsZero_def)

section \<open>Switchback and dwell\<close>

text \<open>C12: A quality-driven switchback comes after a full switchback delay of uninterrupted confirmed recovery. In any
  run from a fresh state (reliable metrics, one policy, real clock readings), when the satellite is left although it is
  available, and the sample carries a new observation or replays the metrics of the last counted one, then the distinct
  observations of the run end with a stretch in which every one was past the hysteresis margin with no trigger firing,
  and the first of them was counted at least the delay before the switchback: one degraded, dead-band or unknown
  observation starts the delay anew.\<close>

theorem switchback_after_delay:
  assumes run: "engine_run pol (p, zeroFlap) xs = (PathSatellite, st)"
    and sb: "Decision (fst (engine_step pol (PathSatellite, st) x)) = DecisionSwitchback" "s_avail x"
    and data: "counted 0 (xs @ [x]) \<noteq> []" "s_metrics (last (counted 0 (xs @ [x]))) = s_metrics x"
    and d: "0 < p_delay pol" "is_int64 (p_delay pol)" and now: "\<forall>y\<in>set (xs @ [x]). \<not> IsZero (s_now y)"
    and ok: "metrics_ok (s_metrics x)" "margin_ok (p_margin pol)"
  shows "\<exists>ys y zs. counted 0 (xs @ [x]) = ys @ y # zs \<and> (\<forall>z\<in>set (y # zs). has_recovered pol z)
     \<and> p_delay pol \<le> s_now x - s_now y"
proof -
  let ?c = "counted 0 (xs @ [x])"
  let ?l = "RecoveryObservedAt (update_clocks (p_triggers pol) (s_metrics x) (s_observed x) (s_now x) (p_margin pol) st)"
  from sb have rp: "recovery_passed (p_triggers pol) (s_metrics x) (p_margin pol)" and el: "IsZero ?l \<or> \<not> time_Sub (s_now x) ?l < p_delay pol"
    by (simp_all add: engine_step_def antiflap_switchback_iff Let_def)
  from recovery_passed_confirmed [OF rp ok] data(2) have "has_recovered pol (last ?c)" by simp
  then have "recovery_run pol ?c \<noteq> []" using recovery_simps(2) [of pol "last ?c" "butlast ?c"] data(1) by simp
  then obtain y zs where y: "recovery_run pol ?c = y # zs" by (cases "recovery_run pol ?c") auto
  then obtain ys where c: "?c = ys @ y # zs" using recovery_suffix [of ?c pol] by metis
  have "?l = RecoveryObservedAt (snd (engine_step pol (PathSatellite, st) x))" by (simp add: engine_step_state Let_def)
  also have "snd (engine_step pol (PathSatellite, st) x) = snd (engine_run pol (p, zeroFlap) (xs @ [x]))"
    using run by (auto simp: engine_run_append split: prod.splits)
  finally have l: "?l = s_now y" using recovery_clock [OF now, of pol p] y by (simp add: recovery_start_def)
  have "y \<in> set (xs @ [x])" using c counted_subset [of 0 "xs @ [x]"] by auto
  then have "\<not> time_Sub (s_now x) (s_now y) < p_delay pol" using el now by (simp add: l)
  then have "p_delay pol \<le> s_now x - s_now y" using d by (simp add: time_Sub_less_pos)
  moreover have "\<forall>z\<in>set (y # zs). has_recovered pol z" using recovery_recovered [of _ pol ?c] unfolding y by blast
  ultimately show ?thesis using c by blast
qed

theorem switchback_after_delay_witness:
  "\<exists>ys y zs. counted 0 ([ex_sample (- 80) (10 * second)] @ [ex_sample (- 90) (70 * second)]) = ys @ y # zs
     \<and> (\<forall>z\<in>set (y # zs). has_recovered ex_policy z) \<and> p_delay ex_policy \<le> s_now (ex_sample (- 90) (70 * second)) - s_now y"
proof -
  let ?x = "ex_sample (- 80) (10 * second)" and ?y = "ex_sample (- 90) (70 * second)"
  obtain r st where e: "engine_step ex_policy (PathSatellite, zeroFlap) ?x = (r, st)" by fastforce
  have "Decision (fst (engine_step ex_policy (PathSatellite, zeroFlap) ?x)) \<noteq> DecisionSwitchback"
    by (simp add: engine_step_def antiflap_switchback_iff Let_def update_clocks_def newObservation_def
        ex_simps zeroFlap_def IsZero_def time_Sub_less_pos is_int64_def min_int64_def max_int64_def)
  then have "Decision r = DecisionStay"
    using e antiflap.failover [of PathSatellite "p_triggers ex_policy" "s_metrics ?x" "s_observed ?x" "s_avail ?x"
        "p_delay ex_policy" "s_now ?x" "p_margin ex_policy" "p_cfg ex_policy" zeroFlap]
    by (cases "Decision r") (auto simp: engine_step_def)
  then have "TargetPath r = PathSatellite"
    using e antiflap.stay [of PathSatellite "p_triggers ex_policy" "s_metrics ?x" "s_observed ?x" "s_avail ?x"
        "p_delay ex_policy" "s_now ?x" "p_margin ex_policy" "p_cfg ex_policy" zeroFlap]
    by (auto simp: engine_step_def)
  then have run: "engine_run ex_policy (PathSatellite, zeroFlap) [?x] = (PathSatellite, st)" using e by simp
  have "RecoveryObservedAt st = 10 * second" "LastCountedObservedAt st = 10 * second"
    using engine_step_recovery [of ex_policy "(PathSatellite, zeroFlap)" ?x] engine_step_cursor [of ex_policy "(PathSatellite, zeroFlap)" ?x] e
    by (simp_all add: newObservation_def zeroFlap_def ex_simps IsZero_def)
  then have "Decision (fst (engine_step ex_policy (PathSatellite, st) ?y)) = DecisionSwitchback"
    by (simp add: engine_step_def antiflap_switchback_iff Let_def update_clocks_def newObservation_def ex_simps IsZero_def
        time_Sub_less_pos is_int64_def min_int64_def max_int64_def)
  from switchback_after_delay [OF run this] show ?thesis
    by (simp add: ex_simps IsZero_def is_int64_def min_int64_def max_int64_def metrics_ok_def margin_ok_def)
qed

text \<open>Without a new observation the delay is not enforced: when a telemetry gap has cleared the
  recovery clock and the next read replays the last counted observation, a healthy replay switches
  back at once, whatever the delay.\<close>

theorem replay_after_gap_skips_delay:
  assumes "recovery_passed ts m h" "\<not> newObservation obs st" "IsZero (RecoveryObservedAt st)"
  shows "Decision (fst (EvaluateFailoverWithAntiFlap PathSatellite ts m obs True d n h cfg st))
    = DecisionSwitchback"
  using assms by (simp add: antiflap_switchback_iff update_clocks_replay)

theorem replay_after_gap_skips_delay_witness:
  "Decision (fst (EvaluateFailoverWithAntiFlap PathSatellite [''rsrp < -120''] (ex_metrics (- 80)) 5 True
     (24 * hour) (6 * second) (Fin 10) (p_cfg ex_policy) (zeroFlap\<lparr>LastCountedObservedAt := 5\<rparr>)))
   = DecisionSwitchback"
  by (rule replay_after_gap_skips_delay)
    (simp_all add: ex_simps newObservation_def IsZero_def zeroFlap_def)

text \<open>After a quality-driven hand-back at time t no failover from terrestrial is taken before
  the minimum dwell has passed.\<close>

theorem min_dwell_blocks_failover:
  assumes "\<not> IsZero (LastSwitchback st)" "is_int64 (MinTerrestrialDwell cfg)"
    and "n - LastSwitchback st < MinTerrestrialDwell cfg" "0 < MinTerrestrialDwell cfg"
  shows "Decision (fst (EvaluateFailoverWithAntiFlap PathTerrestrial ts m obs a d n h cfg st)) = DecisionStay
    \<and> TargetPath (fst (EvaluateFailoverWithAntiFlap PathTerrestrial ts m obs a d n h cfg st)) = PathTerrestrial"
proof -
  let ?r = "fst (EvaluateFailoverWithAntiFlap PathTerrestrial ts m obs a d n h cfg st)"
  have "Decision ?r \<noteq> DecisionFailover"
    using assms by (simp add: antiflap_failover_iff Let_def time_Sub_less_pos)
  moreover have "Decision ?r \<noteq> DecisionSwitchback"
    using antiflap.switchback [of PathTerrestrial ts m obs a d n h cfg st] by auto
  ultimately have "Decision ?r = DecisionStay" by (cases "Decision ?r") auto
  with antiflap.stay [of PathTerrestrial ts m obs a d n h cfg st] show ?thesis by simp
qed

theorem min_dwell_blocks_failover_witness:
  "Decision (fst (EvaluateFailoverWithAntiFlap PathTerrestrial [''rsrp < -120''] (ex_metrics (- 130)) 9
      True 0 (30 * second) (Fin 10) (p_cfg ex_policy) (zeroFlap\<lparr>LastSwitchback := second\<rparr>))) = DecisionStay
   \<and> TargetPath (fst (EvaluateFailoverWithAntiFlap PathTerrestrial [''rsrp < -120''] (ex_metrics (- 130)) 9
      True 0 (30 * second) (Fin 10) (p_cfg ex_policy) (zeroFlap\<lparr>LastSwitchback := second\<rparr>))) = PathTerrestrial"
  by (rule min_dwell_blocks_failover)
    (simp_all add: IsZero_def ex_policy_def is_int64_def min_int64_def max_int64_def)

section \<open>The dead-band\<close>

text \<open>The operators and thresholds for which the recovery threshold really lies on the healthy side
  of the trigger: every strict comparison except one above a negative value, and the non-strict ones
  when the margin moves the threshold.\<close>

definition dead_band_effective :: "Trigger \<Rightarrow> f64 \<Rightarrow> bool" where
  "dead_band_effective t h \<longleftrightarrow> Operator t = ''<''
     \<or> Operator t = ''<='' \<and> f64_less (Value t) (f64_add (Value t) h)
     \<or> Operator t = ''>'' \<and> f64_le (Fin 0) (Value t)
     \<or> Operator t = ''>='' \<and> f64_less (Fin 0) (Value t) \<and> f64_less (f64_sub (Value t) h) (Value t)"

text \<open>A trigger that has recovered past the margin does not fire: degraded and recovered exclude
  each other, whatever float rounding does to the threshold.\<close>

theorem recovered_excludes_fired:
  assumes t: "trigger_ok t" and m: "metrics_ok m" and h: "margin_ok h"
    and eff: "dead_band_effective t h" and rec: "EvaluateRecovery t m h"
  shows "\<not> Evaluate t m"
proof -
  obtain a where a: "actual_of t m = Some a" using actual_defined [OF t] by blast
  obtain x where x: "a = Fin x" using actual_finite [OF m a] by (rule f64_finite_E)
  from t obtain v where v: "Value t = Fin v" by (auto simp: trigger_ok_def elim: f64_finite_E)
  have ge: "f64_le (Value t) (f64_add (Value t) h)" and le: "f64_le (f64_sub (Value t) h) (Value t)"
    using t h by (auto simp: trigger_ok_def margin_ok_def intro: f64_add_ge f64_sub_le)
  show ?thesis
    using eff rec ge le a x v
    by (cases "f64_add (Value t) h"; cases "f64_sub (Value t) h")
      (auto simp: dead_band_effective_def EvaluateRecovery_def Evaluate_def Let_def split: if_splits)
qed

theorem recovered_excludes_fired_witness:
  "\<not> Evaluate \<lparr>Metric = ''rsrp'', Operator = ''<='', Value = Fin (- 120)\<rparr> (ex_metrics (- 100))"
  by (rule recovered_excludes_fired [where h = "Fin 10"])
    (simp_all add: trigger_ok_def validMetrics_def metric_names metrics_ok_def margin_ok_def
      ex_metrics_def dead_band_effective_def EvaluateRecovery_def actual_of_def)

text \<open>The clamp of the recovery threshold at zero is applied to every metric: above a negative
  threshold the margin has no effect, and any reading up to zero counts as recovered.\<close>

theorem negative_threshold_ignores_margin:
  assumes "trigger_ok t" "Operator t = ''>'' \<or> Operator t = ''>=''" "f64_less (Value t) (Fin 0)"
    and "margin_ok h" "actual_of t m = Some a"
  shows "EvaluateRecovery t m h = f64_le a (Fin 0)"
proof -
  from assms have "f64_le (f64_sub (Value t) h) (Value t)"
    by (intro f64_sub_le) (auto simp: trigger_ok_def margin_ok_def)
  with assms(3) have "f64_less (f64_sub (Value t) h) (Fin 0)"
    by (cases "Value t"; cases "f64_sub (Value t) h") auto
  with assms(2,5) show ?thesis by (auto simp: EvaluateRecovery_def)
qed

theorem negative_threshold_ignores_margin_witness:
  "EvaluateRecovery \<lparr>Metric = ''rsrp'', Operator = ''>'', Value = Fin (- 100)\<rparr> (ex_metrics (- 90)) (Fin 10)
   = f64_le (Fin (- 90)) (Fin 0)"
  by (rule negative_threshold_ignores_margin)
    (simp_all add: trigger_ok_def validMetrics_def metric_names margin_ok_def actual_of_def)

section \<open>Fail static\<close>

text \<open>With unreliable metrics the current path is held, an unknown one read as terrestrial; the
  only transition is the return to terrestrial when the satellite pass has ended.\<close>

theorem safe_hold_only_orbital:
  "TargetPath (EvaluateSafeHold p a) =
     (if p = PathSatellite \<and> \<not> a then PathTerrestrial else normalizePath p)
   \<and> Decision (EvaluateSafeHold p a) =
     (if p = PathSatellite \<and> \<not> a then DecisionSwitchback else DecisionStay)"
  by (simp add: EvaluateSafeHold_def Let_def)

section \<open>The two readings of a trigger set\<close>

text \<open>The degradation test that drives the confirmation counter agrees with the trigger set the
  engine decides on, and so do the inert triggers reported to the user.\<close>

theorem trigger_set_agrees:
  "anyTriggered (parseTriggerSet ts m) = terrestrialDegraded ts m
   \<and> hasUnknownTrigger (parseTriggerSet ts m) = (InertTriggers ts m \<noteq> [])
   \<and> parsed (parseTriggerSet ts m) = filter (\<lambda>t. \<not> metricMissing t m) (valid_triggers ts)
   \<and> allInvalid (parseTriggerSet ts m) =
       (parsed (parseTriggerSet ts m) = [] \<and> some_invalid ts)"
  by (simp add: trigger_set_simps)

end
