(* ===== verification/Kube_Meta.thy ===== *)
theory Kube_Meta
  imports Go_Prelude
begin

text \<open>
  What the controllers share of Kubernetes: object metadata, status conditions, the outcome of an
  API read, deferred events (\<open>internal/controller/events.go\<close>) and the watch filter
  (\<open>internal/controller/predicates.go\<close>).

  The condition helpers of \<open>k8s.io/apimachinery\<close> (\<open>meta.SetStatusCondition\<close>,
  \<open>meta.RemoveStatusCondition\<close>, \<open>meta.FindStatusCondition\<close>, \<open>meta.IsStatusConditionTrue\<close>) are not
  part of the program: they are a parameter, the record \<open>meta_api\<close>, and \<open>meta_laws\<close> states their
  documented behaviour. \<open>list_meta\<close> is an instance of it on condition lists, which shows the laws
  can hold.
\<close>

section \<open>Object metadata\<close>

type_synonym UID = string

record NamespacedName =
  nn_Namespace :: string
  nn_Name :: string

record ObjectMeta =
  om_Name :: string
  om_Namespace :: string
  om_UID :: UID
  om_Generation :: int
  om_DeletionTimestamp :: "time option"
  om_Finalizers :: "string list"
  om_Annotations :: "string \<rightharpoonup> string"
  om_Labels :: "string \<rightharpoonup> string"

definition ObjectKeyFromObject :: "ObjectMeta \<Rightarrow> NamespacedName" where
  "ObjectKeyFromObject o' = \<lparr>nn_Namespace = om_Namespace o', nn_Name = om_Name o'\<rparr>"

text \<open>\<open>controllerutil.ContainsFinalizer\<close>, \<open>AddFinalizer\<close> and \<open>RemoveFinalizer\<close> as list operations on
  the finalizers.\<close>

definition AddFinalizer :: "string \<Rightarrow> ObjectMeta \<Rightarrow> ObjectMeta" where
  "AddFinalizer f o' = (if f \<in> set (om_Finalizers o') then o'
     else o'\<lparr>om_Finalizers := om_Finalizers o' @ [f]\<rparr>)"

definition RemoveFinalizer :: "string \<Rightarrow> ObjectMeta \<Rightarrow> ObjectMeta" where
  "RemoveFinalizer f o' = o'\<lparr>om_Finalizers := filter (\<lambda>g. g \<noteq> f) (om_Finalizers o')\<rparr>"

text \<open>The outcome of \<open>client.Get\<close>.\<close>

datatype 'a get = Found 'a | NotFound | GetError gerror

section \<open>Status conditions\<close>

datatype ConditionStatus = ConditionTrue | ConditionFalse | ConditionUnknown

record Condition =
  cond_Type :: string
  cond_Status :: ConditionStatus
  cond_Reason :: string
  cond_Message :: msg
  cond_ObservedGeneration :: int
  cond_LastTransitionTime :: time

text \<open>A condition literal of the source, with a zero transition time.\<close>

definition mkCond :: "string \<Rightarrow> ConditionStatus \<Rightarrow> string \<Rightarrow> msg \<Rightarrow> int \<Rightarrow> Condition" where
  "mkCond t s r m g = \<lparr>cond_Type = t, cond_Status = s, cond_Reason = r, cond_Message = m,
     cond_ObservedGeneration = g, cond_LastTransitionTime = 0\<rparr>"

record meta_api =
  SetStatusCondition :: "Condition list \<Rightarrow> Condition \<Rightarrow> Condition list"
  RemoveStatusCondition :: "Condition list \<Rightarrow> string \<Rightarrow> Condition list"
  FindStatusCondition :: "Condition list \<Rightarrow> string \<Rightarrow> Condition option"
  IsStatusConditionTrue :: "Condition list \<Rightarrow> string \<Rightarrow> bool"

text \<open>Two conditions that say the same: they differ in the transition time at most.\<close>

definition same_cond :: "Condition \<Rightarrow> Condition \<Rightarrow> bool" where
  "same_cond c d \<longleftrightarrow> cond_Type c = cond_Type d \<and> cond_Status c = cond_Status d
     \<and> cond_Reason c = cond_Reason d \<and> cond_Message c = cond_Message d
     \<and> cond_ObservedGeneration c = cond_ObservedGeneration d"

text \<open>The documented behaviour of the helpers: a condition that is set is the one found afterwards
  and no other type is touched; setting what is already there changes nothing; a removed condition
  is gone; \<open>IsStatusConditionTrue\<close> looks the condition up.\<close>

definition meta_laws :: "meta_api \<Rightarrow> bool" where
  "meta_laws M \<longleftrightarrow>
     (\<forall>cs c. \<exists>d. FindStatusCondition M (SetStatusCondition M cs c) (cond_Type c) = Some d \<and> same_cond d c)
     \<and> (\<forall>cs c t. t \<noteq> cond_Type c \<longrightarrow>
          FindStatusCondition M (SetStatusCondition M cs c) t = FindStatusCondition M cs t)
     \<and> (\<forall>cs c d. FindStatusCondition M cs (cond_Type c) = Some d \<and> same_cond d c \<longrightarrow>
          SetStatusCondition M cs c = cs)
     \<and> (\<forall>cs t. FindStatusCondition M (RemoveStatusCondition M cs t) t = None)
     \<and> (\<forall>cs t u. u \<noteq> t \<longrightarrow>
          FindStatusCondition M (RemoveStatusCondition M cs t) u = FindStatusCondition M cs u)
     \<and> (\<forall>cs t. FindStatusCondition M cs t = None \<longrightarrow> RemoveStatusCondition M cs t = cs)
     \<and> (\<forall>cs t. IsStatusConditionTrue M cs t \<longleftrightarrow>
          (\<exists>c. FindStatusCondition M cs t = Some c \<and> cond_Status c = ConditionTrue))"

lemma meta_set_same: "meta_laws M \<Longrightarrow>
    \<exists>d. FindStatusCondition M (SetStatusCondition M cs c) (cond_Type c) = Some d \<and> same_cond d c"
  by (simp add: meta_laws_def)

lemma meta_set_other [k8s_simps]: "meta_laws M \<Longrightarrow> t \<noteq> cond_Type c \<Longrightarrow>
    FindStatusCondition M (SetStatusCondition M cs c) t = FindStatusCondition M cs t"
  by (simp add: meta_laws_def)

lemma meta_set_idem: "meta_laws M \<Longrightarrow> FindStatusCondition M cs (cond_Type c) = Some d \<Longrightarrow> same_cond d c \<Longrightarrow>
    SetStatusCondition M cs c = cs"
  by (auto simp: meta_laws_def)

lemma meta_remove [k8s_simps]:
  "meta_laws M \<Longrightarrow> FindStatusCondition M (RemoveStatusCondition M cs t) t = None"
  "meta_laws M \<Longrightarrow> u \<noteq> t \<Longrightarrow> FindStatusCondition M (RemoveStatusCondition M cs t) u = FindStatusCondition M cs u"
  by (simp_all add: meta_laws_def)

lemma meta_remove_idem: "meta_laws M \<Longrightarrow> FindStatusCondition M cs t = None \<Longrightarrow> RemoveStatusCondition M cs t = cs"
  by (simp add: meta_laws_def)

lemma meta_is_true: "meta_laws M \<Longrightarrow> IsStatusConditionTrue M cs t \<longleftrightarrow>
    (\<exists>c. FindStatusCondition M cs t = Some c \<and> cond_Status c = ConditionTrue)"
  by (simp add: meta_laws_def)

lemma mkCond_simps [simp]:
  "cond_Type (mkCond t s r m g) = t" "cond_Status (mkCond t s r m g) = s"
  "cond_Reason (mkCond t s r m g) = r" "cond_Message (mkCond t s r m g) = m"
  "cond_ObservedGeneration (mkCond t s r m g) = g"
  by (simp_all add: mkCond_def)

text \<open>Whether the list holds a condition that says the same as \<open>c\<close>.\<close>

definition has_cond :: "meta_api \<Rightarrow> Condition list \<Rightarrow> Condition \<Rightarrow> bool" where
  "has_cond M cs c \<longleftrightarrow> (\<exists>d. FindStatusCondition M cs (cond_Type c) = Some d \<and> same_cond d c)"

lemma has_cond_set [k8s_simps]: "meta_laws M \<Longrightarrow> has_cond M (SetStatusCondition M cs c) c"
  by (simp add: has_cond_def meta_set_same)

lemma has_cond_other [k8s_simps]: "meta_laws M \<Longrightarrow> cond_Type d \<noteq> cond_Type c \<Longrightarrow>
    has_cond M (SetStatusCondition M cs c) d \<longleftrightarrow> has_cond M cs d"
  by (simp add: has_cond_def meta_set_other)

lemma has_cond_remove [k8s_simps]: "meta_laws M \<Longrightarrow> cond_Type d \<noteq> t \<Longrightarrow>
    has_cond M (RemoveStatusCondition M cs t) d \<longleftrightarrow> has_cond M cs d"
  by (simp add: has_cond_def meta_remove)

lemma set_has_cond: "meta_laws M \<Longrightarrow> has_cond M cs c \<Longrightarrow> SetStatusCondition M cs c = cs"
  by (auto simp: has_cond_def intro: meta_set_idem)

section \<open>An instance on lists\<close>

fun list_find :: "Condition list \<Rightarrow> string \<Rightarrow> Condition option" where
  "list_find [] t = None"
| "list_find (c # cs) t = (if cond_Type c = t then Some c else list_find cs t)"

fun list_set :: "Condition list \<Rightarrow> Condition \<Rightarrow> Condition list" where
  "list_set [] c = [c]"
| "list_set (d # cs) c = (if cond_Type d = cond_Type c
     then c\<lparr>cond_LastTransitionTime := (if cond_Status d = cond_Status c
              then cond_LastTransitionTime d else cond_LastTransitionTime c)\<rparr> # cs
     else d # list_set cs c)"

definition list_meta :: meta_api where
  "list_meta = \<lparr>SetStatusCondition = list_set,
     RemoveStatusCondition = (\<lambda>cs t. filter (\<lambda>c. cond_Type c \<noteq> t) cs),
     FindStatusCondition = list_find,
     IsStatusConditionTrue = (\<lambda>cs t. case list_find cs t of
        Some c \<Rightarrow> cond_Status c = ConditionTrue | None \<Rightarrow> False)\<rparr>"

lemma list_find_set: "\<exists>d. list_find (list_set cs c) (cond_Type c) = Some d \<and> same_cond d c"
  by (induction cs) (auto simp: same_cond_def)

lemma list_find_set_other: "t \<noteq> cond_Type c \<Longrightarrow> list_find (list_set cs c) t = list_find cs t"
  by (induction cs) auto

lemma list_set_idem: "list_find cs (cond_Type c) = Some d \<Longrightarrow> same_cond d c \<Longrightarrow> list_set cs c = cs"
  by (induction cs) (auto simp: same_cond_def)

lemma list_find_filter: "list_find (filter (\<lambda>c. cond_Type c \<noteq> t) cs) u = (if u = t then None else list_find cs u)"
  by (induction cs) auto

lemma list_filter_idem: "list_find cs t = None \<Longrightarrow> filter (\<lambda>c. cond_Type c \<noteq> t) cs = cs"
  by (induction cs) (auto split: if_splits)

lemma list_meta_laws: "meta_laws list_meta"
  by (auto simp: meta_laws_def list_meta_def list_find_set list_find_set_other list_set_idem
      list_find_filter list_filter_idem split: option.splits)

section \<open>Events and watches\<close>

record deferredEvent =
  ev_type :: string
  ev_reason :: string
  ev_message :: msg

definition conditionEpisodeChanged ::
  "Condition option \<Rightarrow> ConditionStatus \<Rightarrow> string \<Rightarrow> int \<Rightarrow> bool" where
  "conditionEpisodeChanged old newStatus newReason generation =
     (case old of
        None \<Rightarrow> True
      | Some c \<Rightarrow> cond_Status c \<noteq> newStatus \<or> cond_Reason c \<noteq> newReason
          \<or> cond_ObservedGeneration c \<noteq> generation)"

text \<open>An episode begins once: after the condition is set, the same outcome is no new episode,
  whatever its message.\<close>

lemma episode_once:
  "meta_laws M \<Longrightarrow> \<not> conditionEpisodeChanged
     (FindStatusCondition M (SetStatusCondition M cs (mkCond t s r m g)) t) s r g"
  using meta_set_same [of M cs "mkCond t s r m g"]
  by (auto simp: conditionEpisodeChanged_def same_cond_def)

text \<open>The events of a watch, and the filter on them: \<open>GenerationChangedPredicate\<close> or a change of
  whether the deletion timestamp is set; everything but an update passes.\<close>

datatype watch_event =
    CreateEvent ObjectMeta
  | UpdateEvent "ObjectMeta option" "ObjectMeta option"
  | DeleteEvent ObjectMeta
  | GenericEvent ObjectMeta

definition generationChanged :: "watch_event \<Rightarrow> bool" where
  "generationChanged e =
     (case e of UpdateEvent (Some old) (Some new) \<Rightarrow> om_Generation new \<noteq> om_Generation old
      | UpdateEvent _ _ \<Rightarrow> False | _ \<Rightarrow> True)"

definition deletionChanged :: "watch_event \<Rightarrow> bool" where
  "deletionChanged e =
     (case e of
        UpdateEvent old new \<Rightarrow>
          (case (old, new) of
             (Some o', Some n) \<Rightarrow> (om_DeletionTimestamp o' = None) \<noteq> (om_DeletionTimestamp n = None)
           | _ \<Rightarrow> False)
      | _ \<Rightarrow> True)"

definition reconcileTriggerPredicate :: "watch_event \<Rightarrow> bool" where
  "reconcileTriggerPredicate e \<longleftrightarrow> generationChanged e \<or> deletionChanged e"

text \<open>An update passes iff the spec changed or the deletion began or was undone; a write of status,
  annotations or labels alone never re-enqueues its own controller.\<close>

lemma reconcileTrigger_update:
  "reconcileTriggerPredicate (UpdateEvent (Some old) (Some new)) \<longleftrightarrow>
     om_Generation new \<noteq> om_Generation old
     \<or> (om_DeletionTimestamp old = None) \<noteq> (om_DeletionTimestamp new = None)"
  by (simp add: reconcileTriggerPredicate_def generationChanged_def deletionChanged_def)

end
