(* ===== verification/Slice_Api.thy ===== *)
theory Slice_Api
  imports Kube_Meta
begin

text \<open>
  The API types of the NTNSlice resource (\<open>api/v1alpha1/ntnslice_types.go\<close>) and the part of the
  SatelliteEphemeris status a slice reads (\<open>api/v1alpha1/satelliteephemeris_types.go\<close>): pass windows
  and propagated states. A pointer field is an \<open>option\<close>. A formatted string that the controller
  writes into the status is kept as a \<open>msg\<close>.
\<close>

section \<open>The spec\<close>

record PathSpec =
  ps_Provider :: string
  APN :: string
  Priority :: string

record SatellitePathSpec =
  sp_Path :: PathSpec
  EphemerisRef :: string

record FailoverPolicy =
  Triggers :: "string list"
  SwitchbackDelay :: duration
  SessionContinuity :: bool
  HysteresisMargin :: string
  fp_ConfirmationSamples :: "int option"
  fp_MinTerrestrialDwell :: duration

record QoSMapping =
  Terrestrial5QI :: int
  SatelliteQCI :: string
  MaxLatencyBudget :: duration

record SecurityPolicy =
  EncryptionLevel :: string
  AuthOnHandover :: string

record BillingSpec =
  TerrestrialRate :: string
  SatelliteRate :: string

record PrometheusQueries =
  RsrpDbm :: string
  q_LatencyMs :: string
  q_PacketLossPercent :: string

record PrometheusMetricsSource =
  Endpoint :: string
  QueryTimeout :: "duration option"
  pms_Queries :: PrometheusQueries

definition MetricsSourceAnnotations :: string where
  "MetricsSourceAnnotations = ''annotations''"

definition MetricsSourcePrometheus :: string where
  "MetricsSourcePrometheus = ''prometheus''"

record MetricsSource =
  ms_Type :: string
  ms_Prometheus :: "PrometheusMetricsSource option"

record NTNSliceSpec =
  Tenant :: string
  TerrestrialPath :: PathSpec
  SatellitePath :: SatellitePathSpec
  spec_FailoverPolicy :: FailoverPolicy
  spec_QoSMapping :: "QoSMapping option"
  Security :: "SecurityPolicy option"
  Billing :: "BillingSpec option"
  spec_MetricsSource :: "MetricsSource option"

section \<open>The status\<close>

record ContactCandidate =
  cc_NoradID :: int
  cc_Satellite :: string
  cc_GroundStation :: string
  cc_AOS :: "time option"
  cc_LOS :: "time option"
  cc_SourceEpochUnixMs :: int
  cc_PropagatedEpochUnixMs :: int
  ValidUntil :: "time option"
  SelectionReason :: string

record NTNSliceStatus =
  ActivePathType :: string
  LastFailover :: "time option"
  LastSwitchbackTime :: "time option"
  FailoverCount :: int
  SessionCount :: int
  AppliedQoS :: msg
  st_ContactCandidate :: "ContactCandidate option"
  AppliedEncryption :: string
  BillingMode :: string
  st_Conditions :: "Condition list"

record NTNSlice =
  ns_Meta :: ObjectMeta
  ns_Spec :: NTNSliceSpec
  ns_Status :: NTNSliceStatus

definition ConditionPathActive :: string where "ConditionPathActive = ''PathActive''"
definition ConditionFailoverReady :: string where "ConditionFailoverReady = ''FailoverReady''"
definition ConditionQoSApplied :: string where "ConditionQoSApplied = ''QoSApplied''"
definition ConditionSecured :: string where "ConditionSecured = ''Secured''"
definition ConditionBillingActive :: string where "ConditionBillingActive = ''BillingActive''"
definition ConditionMetricsStale :: string where "ConditionMetricsStale = ''MetricsStale''"
definition ConditionTriggersReady :: string where "ConditionTriggersReady = ''TriggersReady''"

lemmas slice_condition_names = ConditionPathActive_def ConditionFailoverReady_def
  ConditionQoSApplied_def ConditionSecured_def ConditionBillingActive_def ConditionMetricsStale_def
  ConditionTriggersReady_def

text \<open>The key of a slice, and an update of its conditions.\<close>

abbreviation ns_Key :: "NTNSlice \<Rightarrow> NamespacedName" where
  "ns_Key ns \<equiv> ObjectKeyFromObject (ns_Meta ns)"

abbreviation ns_Generation :: "NTNSlice \<Rightarrow> int" where
  "ns_Generation ns \<equiv> om_Generation (ns_Meta ns)"

abbreviation ns_UID :: "NTNSlice \<Rightarrow> UID" where
  "ns_UID ns \<equiv> om_UID (ns_Meta ns)"

abbreviation ns_Conditions :: "NTNSlice \<Rightarrow> Condition list" where
  "ns_Conditions ns \<equiv> st_Conditions (ns_Status ns)"

definition map_status :: "(NTNSliceStatus \<Rightarrow> NTNSliceStatus) \<Rightarrow> NTNSlice \<Rightarrow> NTNSlice" where
  "map_status f ns = ns\<lparr>ns_Status := f (ns_Status ns)\<rparr>"

definition set_cond :: "meta_api \<Rightarrow> Condition \<Rightarrow> NTNSlice \<Rightarrow> NTNSlice" where
  "set_cond M c = map_status (\<lambda>s. s\<lparr>st_Conditions := SetStatusCondition M (st_Conditions s) c\<rparr>)"

definition remove_cond :: "meta_api \<Rightarrow> string \<Rightarrow> NTNSlice \<Rightarrow> NTNSlice" where
  "remove_cond M t = map_status (\<lambda>s. s\<lparr>st_Conditions := RemoveStatusCondition M (st_Conditions s) t\<rparr>)"

lemma map_status_simps [simp]:
  "ns_Meta (map_status f ns) = ns_Meta ns" "ns_Spec (map_status f ns) = ns_Spec ns"
  "ns_Status (map_status f ns) = f (ns_Status ns)"
  by (simp_all add: map_status_def)

lemma set_cond_simps [simp]:
  "ns_Meta (set_cond M c ns) = ns_Meta ns" "ns_Spec (set_cond M c ns) = ns_Spec ns"
  "ns_Conditions (set_cond M c ns) = SetStatusCondition M (ns_Conditions ns) c"
  "ActivePathType (ns_Status (set_cond M c ns)) = ActivePathType (ns_Status ns)"
  "LastFailover (ns_Status (set_cond M c ns)) = LastFailover (ns_Status ns)"
  "LastSwitchbackTime (ns_Status (set_cond M c ns)) = LastSwitchbackTime (ns_Status ns)"
  "FailoverCount (ns_Status (set_cond M c ns)) = FailoverCount (ns_Status ns)"
  "SessionCount (ns_Status (set_cond M c ns)) = SessionCount (ns_Status ns)"
  "AppliedQoS (ns_Status (set_cond M c ns)) = AppliedQoS (ns_Status ns)"
  "st_ContactCandidate (ns_Status (set_cond M c ns)) = st_ContactCandidate (ns_Status ns)"
  "AppliedEncryption (ns_Status (set_cond M c ns)) = AppliedEncryption (ns_Status ns)"
  "BillingMode (ns_Status (set_cond M c ns)) = BillingMode (ns_Status ns)"
  by (simp_all add: set_cond_def)

lemma remove_cond_simps [simp]:
  "ns_Meta (remove_cond M t ns) = ns_Meta ns" "ns_Spec (remove_cond M t ns) = ns_Spec ns"
  "ns_Conditions (remove_cond M t ns) = RemoveStatusCondition M (ns_Conditions ns) t"
  "ActivePathType (ns_Status (remove_cond M t ns)) = ActivePathType (ns_Status ns)"
  "LastFailover (ns_Status (remove_cond M t ns)) = LastFailover (ns_Status ns)"
  "LastSwitchbackTime (ns_Status (remove_cond M t ns)) = LastSwitchbackTime (ns_Status ns)"
  "FailoverCount (ns_Status (remove_cond M t ns)) = FailoverCount (ns_Status ns)"
  "SessionCount (ns_Status (remove_cond M t ns)) = SessionCount (ns_Status ns)"
  "AppliedQoS (ns_Status (remove_cond M t ns)) = AppliedQoS (ns_Status ns)"
  "st_ContactCandidate (ns_Status (remove_cond M t ns)) = st_ContactCandidate (ns_Status ns)"
  "AppliedEncryption (ns_Status (remove_cond M t ns)) = AppliedEncryption (ns_Status ns)"
  "BillingMode (ns_Status (remove_cond M t ns)) = BillingMode (ns_Status ns)"
  by (simp_all add: remove_cond_def)

section \<open>What a slice reads of a SatelliteEphemeris\<close>

record PassWindow =
  pw_Satellite :: string
  pw_NoradID :: int
  pw_GroundStation :: string
  AOS :: time
  LOS :: time
  MaxElevation :: string

record EphemerisECEF =
  PosX :: int
  PosY :: int
  PosZ :: int
  VelX :: int
  VelY :: int
  VelZ :: int

record PropagatedState =
  prop_Satellite :: string
  prop_NoradID :: int
  EpochUnixMs :: int
  SourceEpochUnixMs :: int
  ECEF :: EphemerisECEF

record SatelliteEphemerisStatus =
  PropagatedStatesInputHash :: string
  LastUpdated :: "time option"
  LastPassPredictionTime :: "time option"
  LastPassPredictionInputHash :: string
  SatelliteCount :: int
  TruncatedSatelliteCount :: int
  NextPassWindows :: "PassWindow list"
  PropagatedStates :: "PropagatedState list"
  eph_Conditions :: "Condition list"

record SecretReference =
  sr_Name :: string
  sr_Key :: string

record EphemerisSource =
  src_Type :: string
  src_URL :: string
  RefreshInterval :: duration
  Credentials :: "SecretReference option"

record SatelliteSelector =
  Constellation :: string
  NoradIDs :: "int list"

record PassPredictionSpec =
  GroundStations :: "string list"
  MinElevation :: string
  Horizon :: duration

record SatelliteEphemerisSpec =
  Source :: EphemerisSource
  Satellites :: "SatelliteSelector option"
  PassPrediction :: "PassPredictionSpec option"

record SatelliteEphemeris =
  eph_Meta :: ObjectMeta
  eph_Spec :: SatelliteEphemerisSpec
  eph_Status :: SatelliteEphemerisStatus

definition ConditionPassesPredicted :: string where
  "ConditionPassesPredicted = ''PassesPredicted''"

end
