(* ===== verification/Go_Json.thy ===== *)
theory Go_Json
  imports Go_Strings
begin

text \<open>
  What the program uses of \<open>encoding/json\<close>: the encoding of a string (with HTML escaping, the default
  of \<open>json.Marshal\<close>) and of an integer, and the lemmas that make an encoding of a struct injective:
  an encoded string ends at its closing quote, an encoded number at the first byte that is no digit.
\<close>

section \<open>Integers\<close>

definition dec_digit :: "nat \<Rightarrow> char" where
  "dec_digit d = char_of (48 + d)"

fun dec_nat :: "nat \<Rightarrow> string" where
  "dec_nat n = (if n < 10 then [dec_digit n] else dec_nat (n div 10) @ [dec_digit (n mod 10)])"

declare dec_nat.simps [simp del]

definition Itoa :: "int \<Rightarrow> string" where
  "Itoa i = (if i < 0 then CHR ''-'' # dec_nat (nat (- i)) else dec_nat (nat i))"

definition dec_value :: "string \<Rightarrow> nat" where
  "dec_value s = foldl (\<lambda>v c. v * 10 + (of_char c - 48)) 0 s"

lemma of_char_dec: "d < 10 \<Longrightarrow> of_char (dec_digit d) = 48 + d"
  by (simp add: dec_digit_def of_char_of)

lemma dec_value_nat: "dec_value (dec_nat n) = n"
proof (induction n rule: dec_nat.induct)
  case (1 n)
  then show ?case
    by (subst dec_nat.simps) (auto simp: dec_value_def of_char_dec)
qed

lemma dec_nat_digits: "list_all is_digit (dec_nat n) \<and> dec_nat n \<noteq> []"
proof (induction n rule: dec_nat.induct)
  case (1 n)
  have "is_digit (dec_digit d)" if "d < 10" for d
    using that by (simp add: is_digit_def of_char_dec Let_def)
  with 1 show ?case by (subst (1 2) dec_nat.simps) auto
qed

lemma Itoa_inject: "Itoa i = Itoa j \<Longrightarrow> i = j"
proof -
  have neg: "dec_nat n \<noteq> CHR ''-'' # t" for n t
    using dec_nat_digits [of n] by (auto simp: is_digit_def)
  have inj: "dec_nat m = dec_nat n \<Longrightarrow> m = n" for m n by (metis dec_value_nat)
  assume "Itoa i = Itoa j"
  then show "i = j" using inj [of "nat i" "nat j"] inj [of "nat (- i)" "nat (- j)"]
    by (auto simp: Itoa_def neg neg [symmetric] split: if_splits)
qed

text \<open>A number in front of a byte that is no digit can be read off.\<close>

lemma Itoa_chars: "c \<in> set (Itoa i) \<Longrightarrow> is_digit c \<or> c = CHR ''-''"
  using dec_nat_digits by (auto simp: Itoa_def list_all_iff split: if_splits)

lemma Itoa_append:
  assumes "Itoa i @ x # r = Itoa j @ y # s" "\<not> is_digit x" "x \<noteq> CHR ''-''" "\<not> is_digit y" "y \<noteq> CHR ''-''"
  shows "i = j \<and> x # r = y # s"
proof -
  let ?P = "\<lambda>c. is_digit c \<or> c = CHR ''-''"
  have "takeWhile ?P (Itoa i @ x # r) = Itoa i" "takeWhile ?P (Itoa j @ y # s) = Itoa j"
    using assms(2-) Itoa_chars by (auto simp: takeWhile_append2)
  then have "Itoa i = Itoa j" using assms(1) by simp
  with assms(1) show ?thesis by (auto dest: Itoa_inject)
qed

section \<open>Strings\<close>

definition hex_digit :: "nat \<Rightarrow> char" where
  "hex_digit d = ''0123456789abcdef'' ! d"

text \<open>The size of the UTF-8 sequence at the front of a string that starts with a byte from 0x80 on,
  \<open>None\<close> where \<open>utf8.DecodeRuneInString\<close> reports an encoding error.\<close>

definition cont_byte :: "nat \<Rightarrow> nat \<Rightarrow> char \<Rightarrow> bool" where
  "cont_byte lo hi c \<longleftrightarrow> lo \<le> of_char c \<and> of_char c \<le> hi"

definition utf8_second :: "nat \<Rightarrow> nat \<times> nat" where
  "utf8_second n = (if n = 0xE0 then (0xA0, 0xBF) else if n = 0xED then (0x80, 0x9F)
     else if n = 0xF0 then (0x90, 0xBF) else if n = 0xF4 then (0x80, 0x8F) else (0x80, 0xBF))"

definition utf8_len :: "string \<Rightarrow> nat option" where
  "utf8_len s =
     (case s of
        [] \<Rightarrow> None
      | c # t \<Rightarrow>
          (let n = of_char c;
               size = (if 0xC2 \<le> n \<and> n \<le> 0xDF then 2 else if 0xE0 \<le> n \<and> n \<le> 0xEF then 3
                       else if 0xF0 \<le> n \<and> n \<le> 0xF4 then 4 else 0 :: nat);
               (lo, hi) = utf8_second n in
           if size = 0 \<or> length t < size - 1 then None
           else if cont_byte lo hi (t ! 0) \<and> list_all (cont_byte 0x80 0xBF) (take (size - 2) (drop 1 t))
           then Some size else None))"

definition json_escape :: "char \<Rightarrow> string" where
  "json_escape c =
     (let n = of_char c :: nat in
      if c = CHR 0x5C \<or> c = CHR 0x22 then [CHR 0x5C, c]
      else if n = 8 then [CHR 0x5C, CHR ''b'']
      else if n = 12 then [CHR 0x5C, CHR ''f'']
      else if n = 10 then [CHR 0x5C, CHR ''n'']
      else if n = 13 then [CHR 0x5C, CHR ''r'']
      else if n = 9 then [CHR 0x5C, CHR ''t'']
      else if n < 32 \<or> c = CHR ''<'' \<or> c = CHR ''>'' \<or> c = CHR ''&''
      then [CHR 0x5C, CHR ''u'', CHR ''0'', CHR ''0'', hex_digit (n div 16), hex_digit (n mod 16)]
      else [c])"

function json_body :: "string \<Rightarrow> string" where
  "json_body s =
     (case s of
        [] \<Rightarrow> []
      | c # t \<Rightarrow>
          if of_char c < (0x80 :: nat) then json_escape c @ json_body t
          else case utf8_len s of
            None \<Rightarrow> CHR 0x5C # ''ufffd'' @ json_body t
          | Some n \<Rightarrow>
              (if take n s = [CHR 0xE2, CHR 0x80, CHR 0xA8] then CHR 0x5C # ''u2028''
               else if take n s = [CHR 0xE2, CHR 0x80, CHR 0xA9] then CHR 0x5C # ''u2029''
               else take n s) @ json_body (drop (max n 1) s))"
  by pat_completeness auto
termination
  by (relation "measure length") auto

declare json_body.simps [simp del]

definition json_string :: "string \<Rightarrow> string" where
  "json_string s = CHR 0x22 # json_body s @ [CHR 0x22]"

text \<open>\<open>utf8.ValidString\<close>, which holds of every string that came out of \<open>json.Unmarshal\<close>.\<close>

function utf8_valid :: "string \<Rightarrow> bool" where
  "utf8_valid s =
     (case s of
        [] \<Rightarrow> True
      | c # t \<Rightarrow>
          if of_char c < (0x80 :: nat) then utf8_valid t
          else case utf8_len s of None \<Rightarrow> False | Some n \<Rightarrow> utf8_valid (drop (max n 1) s))"
  by pat_completeness auto
termination
  by (relation "measure length") auto

declare utf8_valid.simps [simp del]

lemma utf8_ascii: "list_all (\<lambda>c. of_char c < (0x80 :: nat)) s \<Longrightarrow> utf8_valid s"
proof (induction s)
  case (Cons c s)
  then show ?case by (simp add: utf8_valid.simps [of "c # s"])
qed (simp add: utf8_valid.simps)

text \<open>A valid string as the list of its runes, each with its bytes, and the encoding of one.\<close>

definition rune_bytes :: "string \<Rightarrow> bool" where
  "rune_bytes u \<longleftrightarrow> (\<exists>c. u = [c] \<and> of_char c < (0x80 :: nat)) \<or> utf8_len u = Some (length u)"

definition json_unit :: "string \<Rightarrow> string" where
  "json_unit u =
     (if length u = 1 then json_escape (hd u)
      else if u = [CHR 0xE2, CHR 0x80, CHR 0xA8] then CHR 0x5C # ''u2028''
      else if u = [CHR 0xE2, CHR 0x80, CHR 0xA9] then CHR 0x5C # ''u2029''
      else u)"

text \<open>Reading the first encoded byte back.\<close>

definition hex_value :: "char \<Rightarrow> nat" where
  "hex_value c = (let n = of_char c in if n < 58 then n - 48 else n - 87)"

fun json_unescape :: "string \<Rightarrow> (char \<times> string) option" where
  "json_unescape (c # s) =
     (if c \<noteq> CHR 0x5C then Some (c, s)
      else case s of
        d # t \<Rightarrow>
          if d = CHR ''b'' then Some (CHR 0x08, t) else if d = CHR ''f'' then Some (CHR 0x0C, t)
          else if d = CHR ''n'' then Some (CHR 0x0A, t) else if d = CHR ''r'' then Some (CHR 0x0D, t)
          else if d = CHR ''t'' then Some (CHR 0x09, t)
          else if d = CHR ''u''
          then Some (char_of (16 * hex_value (t ! 2) + hex_value (t ! 3)), drop 4 t)
          else Some (d, t)
      | [] \<Rightarrow> None)"
| "json_unescape [] = None"

lemma hex_value_digit: "d < 16 \<Longrightarrow> hex_value (hex_digit d) = d"
proof -
  assume "d < 16"
  then have "d \<in> set [0..<16]" by simp
  then show ?thesis by (auto simp: upt_rec hex_digit_def hex_value_def Let_def)
qed

lemma char_code_less: "of_char (c :: char) < (256 :: nat)"
  by simp

lemma json_unescape_escape: "json_unescape (json_escape c @ s) = Some (c, s)"
proof -
  let ?n = "of_char c :: nat"
  have c: "char_of ?n = c" by simp
  have codes: "(of_char (CHR 0x08) :: nat) = 8" "(of_char (CHR 0x09) :: nat) = 9"
    "(of_char (CHR 0x0A) :: nat) = 10" "(of_char (CHR 0x0C) :: nat) = 12" "(of_char (CHR 0x0D) :: nat) = 13"
    by simp_all
  have eqs: "?n = 8 \<Longrightarrow> c = CHR 0x08" "?n = 9 \<Longrightarrow> c = CHR 0x09" "?n = 10 \<Longrightarrow> c = CHR 0x0A"
    "?n = 12 \<Longrightarrow> c = CHR 0x0C" "?n = 13 \<Longrightarrow> c = CHR 0x0D"
    by (metis codes of_char_eq_iff)+
  have "?n div 16 < 16" using char_code_less [of c] by linarith
  then have u: "char_of (16 * hex_value (hex_digit (?n div 16)) + hex_value (hex_digit (?n mod 16))) = c"
    by (simp add: hex_value_digit)
  show ?thesis using eqs u by (auto simp: json_escape_def Let_def)
qed

text \<open>The encoding of a rune is a prefix code.\<close>

lemma utf8_len_shape:
  assumes "utf8_len s = Some n"
  shows "2 \<le> n \<and> n \<le> length s \<and> utf8_len (take n s @ x) = Some n \<and> 0x80 \<le> (of_char (hd s) :: nat)"
proof (cases s)
  case (Cons c t)
  let ?n = "of_char c :: nat"
  have "n \<in> {2, 3, 4} \<and> n \<le> length s \<and> 0xC2 \<le> ?n"
    using assms Cons by (auto simp: utf8_len_def Let_def Suc_le_eq split: if_splits prod.splits)
  moreover from this have "utf8_len (take n s @ x) = Some n"
    using assms Cons by (auto simp: utf8_len_def Let_def take_Cons' nth_append drop_take split: if_splits prod.splits)
  ultimately show ?thesis using Cons by auto
qed (use assms in \<open>simp add: utf8_len_def\<close>)

lemma rune_cases:
  assumes "rune_bytes u"
  obtains (esc) c where "u = [c]" "of_char c < (0x80 :: nat)" "json_unit u = json_escape c"
  | (ls) "u = [CHR 0xE2, CHR 0x80, CHR 0xA8]" "json_unit u = CHR 0x5C # ''u2028''"
  | (ps) "u = [CHR 0xE2, CHR 0x80, CHR 0xA9]" "json_unit u = CHR 0x5C # ''u2029''"
  | (raw) "json_unit u = u" "utf8_len u = Some (length u)" "u \<noteq> []" "(0x80 :: nat) \<le> of_char (hd u)"
proof (cases "\<exists>c. u = [c] \<and> of_char c < (0x80 :: nat)")
  case False
  then have "utf8_len u = Some (length u)" using assms by (auto simp: rune_bytes_def)
  note len = this utf8_len_shape [OF this, of "[]"]
  then have "length u \<noteq> 1" "u \<noteq> []" by auto
  then show thesis using ls ps raw len unfolding json_unit_def by presburger
qed (use that in \<open>auto simp: json_unit_def\<close>)

lemma escape_head: "of_char c < (0x80 :: nat) \<Longrightarrow> json_escape c \<noteq> [] \<and> of_char (hd (json_escape c)) < (0x80 :: nat)"
  by (simp add: json_escape_def Let_def)

lemma escape_special: "json_escape c @ x \<noteq> CHR 0x5C # CHR ''u'' # CHR ''2'' # y"
  by (auto simp: json_escape_def Let_def)

lemma head_differs: "a \<noteq> [] \<Longrightarrow> b \<noteq> [] \<Longrightarrow> of_char (hd a) < (0x80 :: nat) \<Longrightarrow> (0x80 :: nat) \<le> of_char (hd b) \<Longrightarrow> a @ x \<noteq> b @ y"
  by (cases a; cases b) auto

lemma json_unit_prefix:
  assumes "rune_bytes u" "rune_bytes v" "json_unit u @ x = json_unit v @ y"
  shows "u = v \<and> x = y"
  using assms(1)
proof (cases rule: rune_cases)
  case (esc c)
  note u = esc
  from assms(2) show ?thesis
  proof (cases rule: rune_cases)
    case (esc d)
    then have "json_escape c @ x = json_escape d @ y" using u assms(3) by simp
    then have "Some (c, x) = Some (d, y)" by (metis json_unescape_escape)
    then show ?thesis using u esc by simp
  next
    case raw
    then show ?thesis using u assms(3) head_differs [of "json_escape c" v x y] escape_head [of c] by simp
  qed (use u assms(3) escape_special [of c x] in simp_all)
next
  case raw
  note u = raw
  have n: "json_unit u @ x \<noteq> a @ z" if "a \<noteq> []" "of_char (hd a) < (0x80 :: nat)" for a z using head_differs [OF that(1) u(3) that(2) u(4), of z x] u(1) by metis
  from assms(2) show ?thesis
  proof (cases rule: rune_cases)
    case (esc d)
    then show ?thesis using n [of "json_escape d" y] escape_head [of d] assms(3) by simp
  next
    case raw
    have "utf8_len (u @ x) = Some (length u)" "utf8_len (v @ y) = Some (length v)"
      using utf8_len_shape [OF u(2)] utf8_len_shape [OF raw(2)] by simp_all
    then show ?thesis using u raw assms(3) by simp
  qed (use n [of "CHR 0x5C # ''u2028''" y] n [of "CHR 0x5C # ''u2029''" y] assms(3) in simp_all)
next
  case ls
  note u = ls
  from assms(2) show ?thesis
  proof (cases rule: rune_cases)
    case (esc d)
    then show ?thesis using u assms(3) escape_special [of d y "''028'' @ x"] by simp
  next
    case raw
    then show ?thesis using u assms(3) head_differs [of "json_unit u" v x y] by simp
  qed (use u assms(3) in simp_all)
next
  case ps
  note u = ps
  from assms(2) show ?thesis
  proof (cases rule: rune_cases)
    case (esc d)
    then show ?thesis using u assms(3) escape_special [of d y "''029'' @ x"] by simp
  next
    case raw
    then show ?thesis using u assms(3) head_differs [of "json_unit u" v x y] by simp
  qed (use u assms(3) in simp_all)
qed

lemma unit_no_quote:
  assumes "rune_bytes u"
  shows "json_unit u @ x \<noteq> CHR 0x22 # y"
  using assms
proof (cases rule: rune_cases)
  case (esc c)
  then show ?thesis by (auto simp: json_escape_def Let_def)
next
  case raw
  then show ?thesis by (cases u) auto
qed simp_all

lemma utf8_units:
  "utf8_valid s \<Longrightarrow> \<exists>us. s = concat us \<and> list_all rune_bytes us \<and> json_body s = concat (map json_unit us)"
proof (induction s rule: utf8_valid.induct)
  case (1 s)
  show ?case
  proof (cases s)
    case Nil
    then show ?thesis by (intro exI [of _ "[]"]) (simp add: json_body.simps)
  next
    case (Cons c t)
    show ?thesis
    proof (cases "of_char c < (0x80 :: nat)")
      case True
      then have "utf8_valid t" using 1(3) Cons by (simp add: utf8_valid.simps [of "c # t"])
      then obtain us where "t = concat us" "list_all rune_bytes us" "json_body t = concat (map json_unit us)"
        using 1(1) [OF Cons True] by blast
      moreover have "json_body s = json_escape c @ json_body t" using True Cons by (simp add: json_body.simps [of "c # t"])
      ultimately show ?thesis using True Cons
        by (intro exI [of _ "[c] # us"]) (simp add: rune_bytes_def [of "[c]"] json_unit_def [of "[c]"])
    next
      case False
      then obtain n where n: "utf8_len s = Some n" "utf8_valid (drop (max n 1) s)"
        using 1(3) Cons by (auto simp: utf8_valid.simps [of "c # t"] split: option.splits)
      note sh = utf8_len_shape [OF n(1), of "[]"]
      obtain us where us: "drop n s = concat us" "list_all rune_bytes us" "json_body (drop n s) = concat (map json_unit us)"
        using 1(2) [OF Cons False n] sh by (auto simp: max_def)
      have "s = take n s @ drop n s" by simp
      moreover have "rune_bytes (take n s)" using sh by (simp add: rune_bytes_def)
      moreover have "json_body s = json_unit (take n s) @ json_body (drop n s)"
        using False Cons n(1) sh by (simp add: json_body.simps [of "c # t"] json_unit_def max_def)
      ultimately show ?thesis using us by (intro exI [of _ "take n s # us"]) simp
    qed
  qed
qed

text \<open>The encoding of a string is a prefix code: two encodings followed by a quote agree only when
  the strings do.\<close>

lemma units_inject:
  assumes "list_all rune_bytes us" "list_all rune_bytes vs"
    "concat (map json_unit us) @ CHR 0x22 # x = concat (map json_unit vs) @ CHR 0x22 # y"
  shows "us = vs \<and> x = y"
  using assms
proof (induction us arbitrary: vs)
  case Nil
  then show ?case
  proof (cases vs)
    case (Cons v vs')
    then show ?thesis using Nil.prems unit_no_quote [of v "concat (map json_unit vs') @ CHR 0x22 # y" x] by auto
  qed simp
next
  case (Cons u us)
  show ?case
  proof (cases vs)
    case Nil
    then show ?thesis using Cons.prems unit_no_quote [of u "concat (map json_unit us) @ CHR 0x22 # x" y] by simp
  next
    case vs: (Cons v vs')
    have "json_unit u @ concat (map json_unit us) @ CHR 0x22 # x = json_unit v @ concat (map json_unit vs') @ CHR 0x22 # y"
      using Cons.prems(3) vs by simp
    from json_unit_prefix [OF _ _ this] Cons.prems(1,2) vs
    have "u = v" "concat (map json_unit us) @ CHR 0x22 # x = concat (map json_unit vs') @ CHR 0x22 # y" by simp_all
    with Cons.IH [OF _ _ this(2)] Cons.prems(1,2) vs show ?thesis by simp
  qed
qed

lemma json_string_inject:
  assumes "utf8_valid s" "utf8_valid t" "json_string s @ x = json_string t @ y"
  shows "s = t \<and> x = y"
proof -
  obtain us where us: "s = concat us" "list_all rune_bytes us" "json_body s = concat (map json_unit us)"
    using utf8_units [OF assms(1)] by blast
  obtain vs where vs: "t = concat vs" "list_all rune_bytes vs" "json_body t = concat (map json_unit vs)"
    using utf8_units [OF assms(2)] by blast
  have "concat (map json_unit us) @ CHR 0x22 # x = concat (map json_unit vs) @ CHR 0x22 # y"
    using assms(3) unfolding json_string_def us(3) vs(3) by simp
  from units_inject [OF us(2) vs(2) this] show ?thesis using us(1) vs(1) by simp
qed

end
