(* ===== verification/Slice_Metrics.thy ===== *)
theory Slice_Metrics
  imports Failover Slice_Api Netutil Go_Json
begin

text \<open>
  The package \<open>pkg/slice/metrics\<close>: the readers that turn a metrics source into the \<open>Metrics\<close> of the
  failover engine (annotations, Prometheus), the cache that replays the last observation while the
  source fails, the pool of Prometheus clients and the provider that maps a slice to its reader.

  The provider hands out pointers: a reader object that a key of its map refers to is a stateful
  \<open>staleCache\<close>. The model keeps the objects in a store (\<open>pr_objects\<close>) and the map holds addresses, so
  that sharing is as in the code. What is outside the program is the record \<open>metrics_env\<close>: the answers
  of the Prometheus API, whether the context of the call is done before and after the queries, the
  clock of the cache, the URL parser and the outcome of \<open>promapi.NewClient\<close>. The Prometheus series the
  code updates are recorded as \<open>metric_op\<close>s, in order.
\<close>

section \<open>Results\<close>

record Result =
  res_Metrics :: Metrics
  Stale :: bool
  LastFreshAt :: time
  ObservedAt :: time

definition ErrNoMetrics_error :: gerror where
  "ErrNoMetrics_error = sentinel_error [Lit ''metrics: no value available''] ErrNoMetrics"

datatype metric_op =
    ReaderQueryDuration string
  | ReaderErrorsTotal string
  | ReaderStaleUsedTotal NamespacedName
  | DropReaderStaleUsed NamespacedName

section \<open>The annotation reader\<close>

definition annotationRSRP :: string where
  "annotationRSRP = ''ntn.operators.dev/simulated-rsrp''"

definition annotationLatency :: string where
  "annotationLatency = ''ntn.operators.dev/simulated-latency''"

definition annotationPacketLoss :: string where
  "annotationPacketLoss = ''ntn.operators.dev/simulated-packet-loss''"

text \<open>\<open>defaultMetrics\<close>; 0.1 is the nearest float64.\<close>

definition defaultMetrics :: Metrics where
  "defaultMetrics = \<lparr>RSRP = Fin (- 80), LatencyMs = Fin 20, PacketLossPercent = round64 (1 / 10),
     RSRPMissing = False, LatencyMissing = False, PacketLossMissing = False\<rparr>"

definition missingMetrics :: Metrics where
  "missingMetrics = defaultMetrics\<lparr>RSRPMissing := True, LatencyMissing := True, PacketLossMissing := True\<rparr>"

definition parseFinite :: "string \<Rightarrow> f64 option" where
  "parseFinite s =
     (if s = '''' then None
      else case ParseFloat s of
          Inl _ \<Rightarrow> None
        | Inr v \<Rightarrow> if IsNaN v \<or> IsInf v then None else Some v)"

text \<open>A lookup in a Go map: the empty string for an absent key.\<close>

definition annotation_of :: "(string \<rightharpoonup> string) \<Rightarrow> string \<Rightarrow> string" where
  "annotation_of m k = (case m k of Some v \<Rightarrow> v | None \<Rightarrow> '''')"

definition annotationReader_Read :: "NTNSlice \<Rightarrow> Result result" where
  "annotationReader_Read ns =
     (let a = annotation_of (om_Annotations (ns_Meta ns));
          m = missingMetrics;
          m = (case parseFinite (a annotationRSRP) of
                 Some v \<Rightarrow> m\<lparr>RSRP := v, RSRPMissing := False\<rparr> | None \<Rightarrow> m);
          m = (case parseFinite (a annotationLatency) of
                 Some v \<Rightarrow> m\<lparr>LatencyMs := v, LatencyMissing := False\<rparr> | None \<Rightarrow> m);
          m = (case parseFinite (a annotationPacketLoss) of
                 Some v \<Rightarrow> m\<lparr>PacketLossPercent := v, PacketLossMissing := False\<rparr> | None \<Rightarrow> m)
      in Inr \<lparr>res_Metrics = m, Stale = False, LastFreshAt = 0, ObservedAt = 0\<rparr>)"

section \<open>The client pool\<close>

text \<open>A Prometheus client: the endpoint and the HTTP client it dials through, \<open>None\<close> for the default
  transport, \<open>Some\<close> for the SSRF-safe client with its private-host allowlist.\<close>

record QueryClient =
  qc_endpoint :: string
  qc_http :: "EndpointAllowlist option"

record ClientPool =
  clients :: "string \<rightharpoonup> QueryClient"
  httpClient :: "EndpointAllowlist option"

definition NewClientPool :: "EndpointAllowlist option \<Rightarrow> ClientPool" where
  "NewClientPool safe = \<lparr>clients = Map.empty, httpClient = safe\<rparr>"

definition buildPromClient ::
  "(string \<Rightarrow> unit result) \<Rightarrow> string \<Rightarrow> EndpointAllowlist option \<Rightarrow> QueryClient result" where
  "buildPromClient new_client endpoint http =
     (case new_client endpoint of
        Inl e \<Rightarrow> Inl e
      | Inr _ \<Rightarrow> Inr \<lparr>qc_endpoint = endpoint, qc_http = http\<rparr>)"

definition pool_Get ::
  "(string \<Rightarrow> unit result) \<Rightarrow> ClientPool \<Rightarrow> string \<Rightarrow> ClientPool \<times> QueryClient result" where
  "pool_Get new_client p endpoint =
     (if endpoint = '''' then (p, Inl (Errorf [Lit ''clientpool: empty endpoint'']))
      else case clients p endpoint of
          Some c \<Rightarrow> (p, Inr c)
        | None \<Rightarrow>
            (case buildPromClient new_client endpoint (httpClient p) of
               Inl e \<Rightarrow> (p, Inl (Wrapf [Lit ''clientpool: build client for '', Quoted endpoint] [e]))
             | Inr built \<Rightarrow> (p\<lparr>clients := (clients p)(endpoint \<mapsto> built)\<rparr>, Inr built)))"

section \<open>The Prometheus reader\<close>

text \<open>\<open>model.Value\<close>: a scalar, a vector of samples, or a value of another type.\<close>

datatype model_value =
    Scalar f64 time
  | Vector "(f64 \<times> time) list"
  | OtherValue string

record metrics_env =
  env_Query :: "QueryClient \<Rightarrow> string \<Rightarrow> duration \<Rightarrow> model_value result"
  env_ctx_before :: "gerror option"
  env_ctx_after :: "gerror option"
  env_now :: time
  env_url_parse :: "string \<Rightarrow> URL result"
  env_NewClient :: "string \<Rightarrow> unit result"

definition defaultPrometheusTimeout :: duration where
  "defaultPrometheusTimeout = 2 * second"

record prometheusReader =
  pm_client :: QueryClient
  pm_queries :: PrometheusQueries
  pm_timeout :: duration

definition NewPrometheusReader :: "QueryClient \<Rightarrow> PrometheusQueries \<Rightarrow> duration \<Rightarrow> prometheusReader" where
  "NewPrometheusReader client queries timeout =
     \<lparr>pm_client = client, pm_queries = queries,
      pm_timeout = (if timeout \<le> 0 then defaultPrometheusTimeout else timeout)\<rparr>"

text \<open>\<open>fetch\<close>: the series it updates, and the value with its source timestamp.\<close>

definition fetch_fail :: "string \<Rightarrow> gerror \<Rightarrow> metric_op list \<times> (f64 \<times> time) result" where
  "fetch_fail reason e = ([ReaderQueryDuration ''error'', ReaderErrorsTotal reason], Inl e)"

definition fetch_value :: "string \<Rightarrow> f64 \<Rightarrow> time \<Rightarrow> metric_op list \<times> (f64 \<times> time) result" where
  "fetch_value q f ts =
     (if IsNaN f \<or> IsInf f
      then fetch_fail ''non_finite'' (Wrapf [Lit ''prometheusReader: query '', Quoted q, Lit '' non-finite'', FloatG f]
             [ErrNoMetrics_error])
      else ([ReaderQueryDuration ''success''], Inr (f, ts)))"

definition fetch :: "metrics_env \<Rightarrow> prometheusReader \<Rightarrow> string \<Rightarrow> metric_op list \<times> (f64 \<times> time) result" where
  "fetch env r q =
     (case env_Query env (pm_client r) q (pm_timeout r) of
        Inl qerr \<Rightarrow> fetch_fail ''query_error'' (Wrapf [Lit ''prometheusReader: query '', Quoted q] [qerr])
      | Inr (Scalar f ts) \<Rightarrow> fetch_value q f ts
      | Inr (Vector vs) \<Rightarrow>
          (case vs of
             [] \<Rightarrow> fetch_fail ''empty_vector'' (Wrapf [Lit ''prometheusReader: query '', Quoted q,
                     Lit '' empty vector''] [ErrNoMetrics_error])
           | [(f, ts)] \<Rightarrow> fetch_value q f ts
           | _ \<Rightarrow> fetch_fail ''ambiguous_vector'' (Wrapf [Lit ''prometheusReader: query '', Quoted q,
                     Lit '' returned '', Num (int (length vs)), Lit '' samples, expected exactly one'']
                     [ErrNoMetrics_error]))
      | Inr (OtherValue ty) \<Rightarrow> fetch_fail ''unsupported_type'' (Wrapf [Lit ''prometheusReader: query '', Quoted q,
              Lit '' unsupported result type '', Lit ty] [ErrNoMetrics_error]))"

text \<open>The fields a read fills, in order: the query, and what a value sets.\<close>

definition read_plan :: "prometheusReader \<Rightarrow> (string \<times> (f64 \<Rightarrow> Metrics \<Rightarrow> Metrics)) list" where
  "read_plan r =
     [(RsrpDbm (pm_queries r), \<lambda>v m. m\<lparr>RSRP := v, RSRPMissing := False\<rparr>),
      (q_LatencyMs (pm_queries r), \<lambda>v m. m\<lparr>LatencyMs := v, LatencyMissing := False\<rparr>),
      (q_PacketLossPercent (pm_queries r), \<lambda>v m. m\<lparr>PacketLossPercent := v, PacketLossMissing := False\<rparr>)]"

fun read_fields :: "metrics_env \<Rightarrow> prometheusReader \<Rightarrow> (string \<times> (f64 \<Rightarrow> Metrics \<Rightarrow> Metrics)) list
    \<Rightarrow> Metrics \<Rightarrow> time \<Rightarrow> metric_op list \<times> (Metrics \<times> time) result" where
  "read_fields env r [] m observedAt = ([], Inr (m, observedAt))"
| "read_fields env r ((q, upd) # fs) m observedAt =
     (if q = '''' then read_fields env r fs m observedAt
      else case fetch env r q of
          (ops, Inl e) \<Rightarrow> (ops, Inl e)
        | (ops, Inr (v, ts)) \<Rightarrow>
            (case read_fields env r fs (upd v m) (if ts > observedAt then ts else observedAt) of
               (ops', res) \<Rightarrow> (ops @ ops', res)))"

definition prometheusReader_Read :: "metrics_env \<Rightarrow> prometheusReader \<Rightarrow> metric_op list \<times> Result result" where
  "prometheusReader_Read env r =
     (case env_ctx_before env of
        Some e \<Rightarrow> ([], Inl (Wrapf (Lit ''prometheusReader: '' # err_msg e) [e]))
      | None \<Rightarrow>
          (case read_fields env r (read_plan r) missingMetrics 0 of
             (ops, Inl e) \<Rightarrow> (ops, Inl e)
           | (ops, Inr (m, observedAt)) \<Rightarrow>
               (ops, Inr \<lparr>res_Metrics = m, Stale = False, LastFreshAt = 0, ObservedAt = observedAt\<rparr>)))"

section \<open>The stale cache\<close>

record staleEntry =
  se_metrics :: Metrics
  se_freshAt :: time
  se_observedAt :: time

record staleCache =
  inner :: prometheusReader
  cache :: "UID \<rightharpoonup> staleEntry"

definition NewStaleCache :: "prometheusReader \<Rightarrow> staleCache" where
  "NewStaleCache r = \<lparr>inner = r, cache = Map.empty\<rparr>"

definition staleCache_Read ::
  "metrics_env \<Rightarrow> staleCache \<Rightarrow> NTNSlice \<Rightarrow> staleCache \<times> metric_op list \<times> Result result" where
  "staleCache_Read env c ns =
     (if ns_UID ns = '''' then (c, [], Inl (Errorf [Lit ''staleCache: NTNSlice missing UID'']))
      else case prometheusReader_Read env (inner c) of
          (ops, Inr res) \<Rightarrow>
            (c\<lparr>cache := (cache c)(ns_UID ns \<mapsto> \<lparr>se_metrics = res_Metrics res, se_freshAt = env_now env,
                 se_observedAt = ObservedAt res\<rparr>)\<rparr>,
             ops, Inr (res\<lparr>LastFreshAt := env_now env\<rparr>))
        | (ops, Inl err) \<Rightarrow>
            (case env_ctx_after env of
               Some cerr \<Rightarrow> (c, ops, Inl (Wrapf (Lit ''staleCache: '' # err_msg cerr) [cerr]))
             | None \<Rightarrow>
                 (case cache c (ns_UID ns) of
                    None \<Rightarrow> (c, ops, Inl (Wrapf (Lit ''staleCache: no fresh or cached value: '' # err_msg err)
                              [ErrNoMetrics_error, err]))
                  | Some cached \<Rightarrow>
                      (c, ops @ [ReaderStaleUsedTotal (ns_Key ns)],
                       Inr \<lparr>res_Metrics = se_metrics cached, Stale = True, LastFreshAt = se_freshAt cached,
                            ObservedAt = se_observedAt cached\<rparr>))))"

section \<open>The provider\<close>

definition effective_timeout :: "PrometheusMetricsSource \<Rightarrow> duration" where
  "effective_timeout p = (case QueryTimeout p of Some t \<Rightarrow> t | None \<Rightarrow> 0)"

definition json_field :: "string \<Rightarrow> string \<Rightarrow> string" where
  "json_field k v = CHR 0x22 # k @ [CHR 0x22, CHR '':''] @ v"

definition prometheusFingerprint :: "PrometheusMetricsSource \<Rightarrow> string" where
  "prometheusFingerprint p =
     ''{'' @ json_field ''e'' (json_string (Endpoint p)) @ '','' @
     json_field ''r'' (json_string (RsrpDbm (pms_Queries p))) @ '','' @
     json_field ''l'' (json_string (q_LatencyMs (pms_Queries p))) @ '','' @
     json_field ''p'' (json_string (q_PacketLossPercent (pms_Queries p))) @ '','' @
     json_field ''t'' (Itoa (effective_timeout p)) @ ''}''"

record readerKey =
  rk_namespace :: string
  rk_name :: string
  rk_uid :: UID
  rk_fingerprint :: string

record Provider =
  pool :: ClientPool
  readers :: "readerKey \<rightharpoonup> nat"
  pr_objects :: "nat \<rightharpoonup> staleCache"
  pr_next :: nat
  allowlist :: EndpointAllowlist

definition NewProvider :: "ClientPool \<Rightarrow> EndpointAllowlist \<Rightarrow> Provider" where
  "NewProvider p a = \<lparr>pool = p, readers = Map.empty, pr_objects = Map.empty, pr_next = 0, allowlist = a\<rparr>"

text \<open>A \<open>Reader\<close>: the annotation singleton, or a pointer to a stale cache.\<close>

datatype reader = AnnotationReader | CachedReader nat

definition buildReader ::
  "metrics_env \<Rightarrow> Provider \<Rightarrow> PrometheusMetricsSource \<Rightarrow> Provider \<times> staleCache result" where
  "buildReader env p src =
     (case Check (env_url_parse env) (allowlist p) (Endpoint src) of
        Inl e \<Rightarrow> (p, Inl e)
      | Inr _ \<Rightarrow>
          if RsrpDbm (pms_Queries src) = '''' \<and> q_LatencyMs (pms_Queries src) = ''''
             \<and> q_PacketLossPercent (pms_Queries src) = ''''
          then (p, Inl (Errorf [Lit ''provider: prometheus mode requires at least one non-empty query'']))
          else case pool_Get (env_NewClient env) (pool p) (Endpoint src) of
              (pl, Inl e) \<Rightarrow> (p\<lparr>pool := pl\<rparr>, Inl e)
            | (pl, Inr qclient) \<Rightarrow>
                (p\<lparr>pool := pl\<rparr>,
                 Inr (NewStaleCache (NewPrometheusReader qclient (pms_Queries src) (effective_timeout src)))))"

definition provider_key :: "NTNSlice \<Rightarrow> PrometheusMetricsSource \<Rightarrow> readerKey" where
  "provider_key ns src = \<lparr>rk_namespace = om_Namespace (ns_Meta ns), rk_name = om_Name (ns_Meta ns),
     rk_uid = ns_UID ns, rk_fingerprint = prometheusFingerprint src\<rparr>"

definition For :: "metrics_env \<Rightarrow> Provider \<Rightarrow> NTNSlice \<Rightarrow> Provider \<times> reader result" where
  "For env p ns =
     (case spec_MetricsSource (ns_Spec ns) of
        None \<Rightarrow> (p, Inr AnnotationReader)
      | Some src \<Rightarrow>
          if ms_Type src = '''' \<or> ms_Type src = MetricsSourceAnnotations then (p, Inr AnnotationReader)
          else if ms_Type src \<noteq> MetricsSourcePrometheus
          then (p, Inl (Errorf [Lit ''provider: unsupported metricsSource.type '', Quoted (ms_Type src)]))
          else case ms_Prometheus src of
              None \<Rightarrow> (p, Inl (Errorf [Lit ''provider: metricsSource.type=prometheus requires prometheus block'']))
            | Some pr \<Rightarrow>
                if ns_UID ns = ''''
                then (p, Inl (Errorf [Lit ''provider: prometheus mode requires a saved NTNSlice (UID)'']))
                else
                  (let key = provider_key ns pr in
                   case readers p key of
                     Some a \<Rightarrow> (p, Inr (CachedReader a))
                   | None \<Rightarrow>
                       (case buildReader env p pr of
                          (p', Inl e) \<Rightarrow> (p', Inl e)
                        | (p', Inr rd) \<Rightarrow>
                            (p'\<lparr>readers := (\<lambda>k. if rk_uid k = ns_UID ns \<and> rk_fingerprint k \<noteq> rk_fingerprint key
                                              then None else readers p' k)(key \<mapsto> pr_next p'),
                               pr_objects := (pr_objects p')(pr_next p' \<mapsto> rd),
                               pr_next := Suc (pr_next p')\<rparr>,
                             Inr (CachedReader (pr_next p'))))))"

definition Read :: "metrics_env \<Rightarrow> Provider \<Rightarrow> reader \<Rightarrow> NTNSlice \<Rightarrow> Provider \<times> metric_op list \<times> Result result" where
  "Read env p rd ns =
     (case rd of
        AnnotationReader \<Rightarrow> (p, [], annotationReader_Read ns)
      | CachedReader a \<Rightarrow>
          (case pr_objects p a of
             None \<Rightarrow> (p, [], Inl (Errorf [Lit ''nil reader'']))
           | Some c \<Rightarrow>
               (case staleCache_Read env c ns of
                  (c', ops, res) \<Rightarrow> (p\<lparr>pr_objects := (pr_objects p)(a \<mapsto> c')\<rparr>, ops, res))))"

definition Evict :: "Provider \<Rightarrow> NamespacedName \<Rightarrow> Provider \<times> metric_op list" where
  "Evict p key =
     (p\<lparr>readers := (\<lambda>k. if rk_namespace k = nn_Namespace key \<and> rk_name k = nn_Name key
                         then None else readers p k)\<rparr>,
      [DropReaderStaleUsed key])"

section \<open>What a read returns\<close>

lemma fetch_value_simps:
  "is_finite f \<Longrightarrow> fetch_value q f ts = ([ReaderQueryDuration ''success''], Inr (f, ts))"
  "\<not> is_finite f \<Longrightarrow> \<exists>e. snd (fetch_value q f ts) = Inl e \<and> errors_Is e ErrNoMetrics"
  by (cases f; simp add: fetch_value_def fetch_fail_def IsNaN_def IsInf_def ErrNoMetrics_error_def)+

text \<open>A fetched value is finite, and is the only sample of the answer.\<close>

lemma fetch_Inr:
  assumes "snd (fetch env r q) = Inr (v, ts)"
  shows "is_finite v \<and> env_Query env (pm_client r) q (pm_timeout r) \<in> {Inr (Scalar v ts), Inr (Vector [(v, ts)])}"
proof -
  have val: "snd (fetch_value q f t) = Inr (v, ts) \<Longrightarrow> is_finite v \<and> f = v \<and> t = ts" for f t
    using fetch_value_simps [of f q t] by (cases "is_finite f") auto
  show ?thesis using assms
    by (auto simp: fetch_def fetch_fail_def split: sum.splits model_value.splits list.splits dest: val)
qed

text \<open>The field of a metric after the queries ran.\<close>

definition read_field :: "metrics_env \<Rightarrow> prometheusReader \<Rightarrow> string \<Rightarrow> f64 \<Rightarrow> bool \<Rightarrow> f64 \<Rightarrow> bool" where
  "read_field env r q v missing dflt \<longleftrightarrow>
     (if q = '''' then missing \<and> v = dflt
      else \<not> missing \<and> is_finite v \<and> (\<exists>ts. snd (fetch env r q) = Inr (v, ts)))"

lemma read_step:
  assumes "snd (read_fields env r ((q, upd) # fs) m t) = Inr res"
  obtains (skip) "q = ''''" "snd (read_fields env r fs m t) = Inr res"
    | (hit) v ts where "q \<noteq> ''''" "snd (fetch env r q) = Inr (v, ts)" "is_finite v"
        "snd (read_fields env r fs (upd v m) (if ts > t then ts else t)) = Inr res"
proof (cases "q = ''''")
  case False
  obtain ops f where f: "fetch env r q = (ops, f)" by (cases "fetch env r q")
  show ?thesis
  proof (cases f)
    case (Inr vt)
    then obtain v ts where "f = Inr (v, ts)" by (cases vt) auto
    moreover from this f have "is_finite v" using fetch_Inr [of env r q v ts] by simp
    ultimately show ?thesis using f False assms
      by (intro hit [of v ts]) (auto simp: case_prod_beta)
  qed (use f False assms in auto)
qed (use assms skip in auto)

lemma read_fields_plan:
  assumes "snd (read_fields env r (read_plan r) missingMetrics 0) = Inr (m, t)"
  shows "read_field env r (RsrpDbm (pm_queries r)) (RSRP m) (RSRPMissing m) (Fin (- 80))
    \<and> read_field env r (q_LatencyMs (pm_queries r)) (LatencyMs m) (LatencyMissing m) (Fin 20)
    \<and> read_field env r (q_PacketLossPercent (pm_queries r)) (PacketLossPercent m) (PacketLossMissing m)
        (round64 (1 / 10))"
  using assms unfolding read_plan_def
  by (elim read_step) (auto simp: read_field_def missingMetrics_def defaultMetrics_def)

lemma read_fields_Inl:
  assumes "(q, upd) \<in> set fs" "q \<noteq> ''''" "snd (fetch env r q) = Inl e"
  shows "\<exists>e. snd (read_fields env r fs m t) = Inl e"
  using assms
proof (induction fs arbitrary: m t)
  case (Cons g fs)
  obtain q' upd' where g: "g = (q', upd')" by (cases g)
  obtain ops f where f: "fetch env r q' = (ops, f)" by (cases "fetch env r q'")
  show ?case
  proof (cases "(q, upd) \<in> set fs")
    case True
    with Cons.IH Cons.prems have ih: "\<exists>e. snd (read_fields env r fs m t) = Inl e" for m t by blast
    show ?thesis
    proof (cases f)
      case (Inr vt)
      then show ?thesis using f g ih by (cases vt) (auto simp: case_prod_beta)
    qed (use f g ih in auto)
  qed (use Cons.prems f g in auto)
qed simp

lemma default_finite [simp]: "is_finite (round64 (1 / 10))"
  by (rule round64_small [where e = 0]) (auto simp: pow2_def)

lemma read_field_finite: "read_field env r q v missing dflt \<Longrightarrow> is_finite dflt \<Longrightarrow> is_finite v"
  by (auto simp: read_field_def split: if_splits)


text \<open>What a successful read guarantees.\<close>

definition read_complete :: "metrics_env \<Rightarrow> prometheusReader \<Rightarrow> Result \<Rightarrow> bool" where
  "read_complete env r res \<longleftrightarrow> \<not> Stale res \<and> metrics_ok (res_Metrics res)
     \<and> read_field env r (RsrpDbm (pm_queries r)) (RSRP (res_Metrics res)) (RSRPMissing (res_Metrics res)) (Fin (- 80))
     \<and> read_field env r (q_LatencyMs (pm_queries r)) (LatencyMs (res_Metrics res))
         (LatencyMissing (res_Metrics res)) (Fin 20)
     \<and> read_field env r (q_PacketLossPercent (pm_queries r)) (PacketLossPercent (res_Metrics res))
         (PacketLossMissing (res_Metrics res)) (round64 (1 / 10))"

lemma prometheus_read_complete:
  assumes "snd (prometheusReader_Read env r) = Inr res"
  shows "read_complete env r res"
proof -
  from assms obtain m t where "snd (read_fields env r (read_plan r) missingMetrics 0) = Inr (m, t)"
    and res: "res = \<lparr>res_Metrics = m, Stale = False, LastFreshAt = 0, ObservedAt = t\<rparr>"
    by (auto simp: prometheusReader_Read_def split: option.splits prod.splits sum.splits)
  then show ?thesis using read_fields_plan [of env r m t]
    by (auto simp: read_complete_def metrics_ok_def dest: read_field_finite)
qed

lemma prometheus_read_fails:
  assumes "(q, upd) \<in> set (read_plan r)" "q \<noteq> ''''" "snd (fetch env r q) = Inl e"
  shows "\<exists>e. snd (prometheusReader_Read env r) = Inl e"
proof -
  obtain e where "snd (read_fields env r (read_plan r) missingMetrics 0) = Inl e"
    using read_fields_Inl [OF assms] by blast
  then show ?thesis by (auto simp: prometheusReader_Read_def split: option.splits prod.splits)
qed

text \<open>A Prometheus read is all or nothing. When a read succeeds, every configured query was
  answered by exactly one finite sample, which is the value of its metric; a metric without a query is
  flagged missing and holds the placeholder; all three values are finite. When the query of one of
  the metrics fails, is empty, ambiguous, non-finite or of another type, the whole read fails: a fresh
  reading of one metric is never mixed with a default of another.\<close>

theorem read_all_or_nothing:
  assumes "snd (prometheusReader_Read env r) = Inr res"
  shows "read_complete env r res
    \<and> (\<forall>(q, upd)\<in>set (read_plan r). q \<noteq> '''' \<longrightarrow>
         (\<exists>v ts. is_finite v \<and> env_Query env (pm_client r) q (pm_timeout r)
            \<in> {Inr (Scalar v ts), Inr (Vector [(v, ts)])}))"
proof (intro conjI ballI, goal_cases)
  case 1
  show ?case using assms by (rule prometheus_read_complete)
next
  case (2 p)
  obtain q upd where p: "p = (q, upd)" by (cases p)
  show ?case
  proof (cases "snd (fetch env r q)")
    case (Inl e)
    with 2 p assms show ?thesis using prometheus_read_fails [of q upd r env e] by auto
  next
    case (Inr vt)
    then show ?thesis using fetch_Inr [of env r q "fst vt" "snd vt"] p by (cases vt) auto
  qed
qed

definition ex_env :: metrics_env where
  "ex_env = \<lparr>env_Query = (\<lambda>c q t. if q = ''rsrp'' then Inr (Vector [(Fin (- 95), 100)])
       else Inl (Errorf [Lit ''timeout''])),
     env_ctx_before = None, env_ctx_after = None, env_now = 200,
     env_url_parse = (\<lambda>u. Inr \<lparr>Scheme = ''http'', User = False, Hostname = ''prom''\<rparr>),
     env_NewClient = (\<lambda>e. Inr ())\<rparr>"

definition ex_queries :: PrometheusQueries where
  "ex_queries = \<lparr>RsrpDbm = ''rsrp'', q_LatencyMs = '''', q_PacketLossPercent = ''''\<rparr>"

definition ex_reader :: prometheusReader where
  "ex_reader = NewPrometheusReader \<lparr>qc_endpoint = ''http://prom'', qc_http = None\<rparr> ex_queries 0"

lemma ex_read: "prometheusReader_Read ex_env ex_reader = ([ReaderQueryDuration ''success''],
    Inr \<lparr>res_Metrics = missingMetrics\<lparr>RSRP := Fin (- 95), RSRPMissing := False\<rparr>, Stale = False,
         LastFreshAt = 0, ObservedAt = 100\<rparr>)"
  by (simp add: prometheusReader_Read_def ex_env_def ex_reader_def NewPrometheusReader_def ex_queries_def
      read_plan_def fetch_def fetch_value_simps)

theorem read_all_or_nothing_witness:
  "read_complete ex_env ex_reader \<lparr>res_Metrics = missingMetrics\<lparr>RSRP := Fin (- 95), RSRPMissing := False\<rparr>,
     Stale = False, LastFreshAt = 0, ObservedAt = 100\<rparr>"
  using read_all_or_nothing [of ex_env ex_reader] ex_read by simp

end
