(* ===== verification/Slice_Provider.thy ===== *)
theory Slice_Provider
  imports Slice_Metrics
begin

text \<open>
  The metrics provider (\<open>pkg/slice/metrics/provider.go\<close>) as a whole: the fingerprint it keys its cached
  readers by is injective, and the provider with its store of reader objects refines a plain map from
  slice identity and configuration to the last observation. The interface the slice controller
  relies on is the locale \<open>reader_provider\<close>, interpreted on the provider.
\<close>

section \<open>The fingerprint\<close>

text \<open>A source whose strings are valid UTF-8, as those of every resource are that was decoded from JSON.\<close>

definition utf8_source :: "PrometheusMetricsSource \<Rightarrow> bool" where
  "utf8_source p \<longleftrightarrow> utf8_valid (Endpoint p) \<and> utf8_valid (RsrpDbm (pms_Queries p)) \<and> utf8_valid (q_LatencyMs (pms_Queries p))
     \<and> utf8_valid (q_PacketLossPercent (pms_Queries p))"

lemma fingerprint_inject:
  assumes "utf8_source p" "utf8_source q" "prometheusFingerprint p = prometheusFingerprint q"
  shows "Endpoint p = Endpoint q \<and> pms_Queries p = pms_Queries q \<and> effective_timeout p = effective_timeout q"
proof -
  note a = assms(1,2) [unfolded utf8_source_def]
  let ?sep = "\<lambda>k. [CHR '','', CHR 0x22] @ k @ [CHR 0x22, CHR '':'']"
  let ?t = "\<lambda>p. Itoa (effective_timeout p) @ [CHR ''}'']"
  let ?p = "\<lambda>p. json_string (q_PacketLossPercent (pms_Queries p)) @ ?sep ''t'' @ ?t p"
  let ?l = "\<lambda>p. json_string (q_LatencyMs (pms_Queries p)) @ ?sep ''p'' @ ?p p"
  let ?r = "\<lambda>p. json_string (RsrpDbm (pms_Queries p)) @ ?sep ''l'' @ ?l p"
  have "json_string (Endpoint p) @ ?sep ''r'' @ ?r p = json_string (Endpoint q) @ ?sep ''r'' @ ?r q"
    using assms(3) by (simp add: prometheusFingerprint_def json_field_def)
  from json_string_inject [OF _ _ this] a
  have e: "Endpoint p = Endpoint q" "?sep ''r'' @ ?r p = ?sep ''r'' @ ?r q" by simp_all
  then have "?r p = ?r q" by simp
  from json_string_inject [OF _ _ this] a
  have r: "RsrpDbm (pms_Queries p) = RsrpDbm (pms_Queries q)" "?sep ''l'' @ ?l p = ?sep ''l'' @ ?l q" by simp_all
  then have "?l p = ?l q" by simp
  from json_string_inject [OF _ _ this] a
  have l: "q_LatencyMs (pms_Queries p) = q_LatencyMs (pms_Queries q)" "?sep ''p'' @ ?p p = ?sep ''p'' @ ?p q"
    by simp_all
  then have "?p p = ?p q" by simp
  from json_string_inject [OF _ _ this] a
  have t: "q_PacketLossPercent (pms_Queries p) = q_PacketLossPercent (pms_Queries q)" "?t p = ?t q" by simp_all
  then have "effective_timeout p = effective_timeout q" by (auto dest: Itoa_inject)
  with e r l t show ?thesis by simp
qed

text \<open>The fingerprint of a Prometheus source identifies the configuration. Two sources with valid
  strings have the same fingerprint iff they have the same endpoint, the same three queries and the
  same timeout (an absent timeout counting as zero): no choice of PromQL text, quotes, braces or
  separators included, makes two configurations share a cached reader.\<close>

theorem fingerprint_exact:
  assumes "utf8_source p" "utf8_source q"
  shows "prometheusFingerprint p = prometheusFingerprint q \<longleftrightarrow>
    Endpoint p = Endpoint q \<and> pms_Queries p = pms_Queries q \<and> effective_timeout p = effective_timeout q"
  using fingerprint_inject [OF assms] by (auto simp: prometheusFingerprint_def)

definition ex_source :: "string \<Rightarrow> string \<Rightarrow> PrometheusMetricsSource" where
  "ex_source r l = \<lparr>Endpoint = ''http://prom'', QueryTimeout = None,
     pms_Queries = \<lparr>RsrpDbm = r, q_LatencyMs = l, q_PacketLossPercent = ''''\<rparr>\<rparr>"

theorem fingerprint_exact_witness:
  "prometheusFingerprint (ex_source ''b|c'' ''d'') \<noteq> prometheusFingerprint (ex_source ''b'' ''c|d'')"
  using fingerprint_exact [of "ex_source ''b|c'' ''d''" "ex_source ''b'' ''c|d''"]
  by (simp add: utf8_source_def utf8_ascii ex_source_def)

section \<open>The provider as a map of last observations\<close>

text \<open>What the provider remembers, abstractly: the last observation per slice identity and
  configuration.\<close>

definition remembered :: "Provider \<Rightarrow> readerKey \<rightharpoonup> staleEntry" where
  "remembered p k = Option.bind (readers p k) (\<lambda>a. Option.bind (pr_objects p a) (\<lambda>c. cache c (rk_uid k)))"

definition drop_other :: "UID \<Rightarrow> string \<Rightarrow> (readerKey \<rightharpoonup> 'a) \<Rightarrow> (readerKey \<rightharpoonup> 'a)" where
  "drop_other uid fp m = (\<lambda>k. if rk_uid k = uid \<and> rk_fingerprint k \<noteq> fp then None else m k)"

text \<open>Well-formedness: an entry of the map points to an object of its own, all objects lie below the
  next address, and a UID has readers of one configuration only.\<close>

definition prov_inv :: "Provider \<Rightarrow> bool" where
  "prov_inv p \<longleftrightarrow>
     (\<forall>k a. readers p k = Some a \<longrightarrow> pr_objects p a \<noteq> None)
     \<and> (\<forall>k k' a. readers p k = Some a \<and> readers p k' = Some a \<longrightarrow> k = k')
     \<and> (\<forall>a. pr_objects p a \<noteq> None \<longrightarrow> a < pr_next p)
     \<and> (\<forall>k k'. readers p k \<noteq> None \<and> readers p k' \<noteq> None \<and> rk_uid k = rk_uid k'
          \<longrightarrow> rk_fingerprint k = rk_fingerprint k')"

text \<open>The slice is in Prometheus mode with source \<open>pr\<close>.\<close>

definition prometheus_mode :: "NTNSlice \<Rightarrow> PrometheusMetricsSource \<Rightarrow> bool" where
  "prometheus_mode ns pr \<longleftrightarrow> (\<exists>src. spec_MetricsSource (ns_Spec ns) = Some src
     \<and> ms_Type src = MetricsSourcePrometheus \<and> ms_Prometheus src = Some pr)"

lemma source_types [simp]: "MetricsSourcePrometheus \<noteq> ''''" "MetricsSourcePrometheus \<noteq> MetricsSourceAnnotations"
  by (simp_all add: MetricsSourcePrometheus_def MetricsSourceAnnotations_def)

lemma buildReader_keeps: "buildReader env p src = (p', r) \<Longrightarrow>
    readers p' = readers p \<and> pr_objects p' = pr_objects p \<and> pr_next p' = pr_next p \<and> allowlist p' = allowlist p"
  by (auto simp: buildReader_def split: sum.splits if_splits prod.splits)

text \<open>The outcomes of \<open>For\<close>.\<close>

lemma For_cases:
  assumes "For env p ns = (p', r)"
  obtains (same) "r = Inr AnnotationReader \<or> (\<exists>e. r = Inl e)" "readers p' = readers p"
      "pr_objects p' = pr_objects p" "pr_next p' = pr_next p"
    | (hit) pr a where "prometheus_mode ns pr" "ns_UID ns \<noteq> ''''" "readers p (provider_key ns pr) = Some a"
        "r = Inr (CachedReader a)" "p' = p"
    | (miss) pr rd where "prometheus_mode ns pr" "ns_UID ns \<noteq> ''''" "readers p (provider_key ns pr) = None"
        "snd (buildReader env p pr) = Inr rd" "r = Inr (CachedReader (pr_next p))"
        "readers p' = (drop_other (ns_UID ns) (prometheusFingerprint pr) (readers p))(provider_key ns pr \<mapsto> pr_next p)"
        "pr_objects p' = (pr_objects p)(pr_next p \<mapsto> rd)" "pr_next p' = Suc (pr_next p)"
proof -
  consider "spec_MetricsSource (ns_Spec ns) = None"
    | src where "spec_MetricsSource (ns_Spec ns) = Some src" "ms_Type src \<noteq> MetricsSourcePrometheus \<or> ms_Prometheus src = None"
    | src pr where "spec_MetricsSource (ns_Spec ns) = Some src" "ms_Type src = MetricsSourcePrometheus"
        "ms_Prometheus src = Some pr"
    by (cases "spec_MetricsSource (ns_Spec ns)") (auto, metis not_Some_eq)
  then show ?thesis
  proof cases
    case 1
    with assms show ?thesis by (intro same) (auto simp: For_def)
  next
    case 2
    with assms show ?thesis by (intro same) (auto simp: For_def split: if_splits option.splits)
  next
    case (3 src pr)
    then have pm: "prometheus_mode ns pr" by (auto simp: prometheus_mode_def)
    obtain p1 b where b: "buildReader env p pr = (p1, b)" by (cases "buildReader env p pr")
    note k = buildReader_keeps [OF b]
    consider "ns_UID ns = ''''" | a where "ns_UID ns \<noteq> ''''" "readers p (provider_key ns pr) = Some a"
      | e where "ns_UID ns \<noteq> ''''" "readers p (provider_key ns pr) = None" "b = Inl e"
      | rd where "ns_UID ns \<noteq> ''''" "readers p (provider_key ns pr) = None" "b = Inr rd"
      by (cases "readers p (provider_key ns pr)"; cases b) auto
    then show ?thesis
    proof cases
      case 1
      with 3 assms show ?thesis by (intro same) (auto simp: For_def)
    next
      case (2 a)
      with 3 assms show ?thesis by (intro hit [OF pm]) (auto simp: For_def)
    next
      case (3 e)
      with \<open>spec_MetricsSource (ns_Spec ns) = Some src\<close> \<open>ms_Type src = _\<close> \<open>ms_Prometheus src = _\<close> assms b k
      show ?thesis by (intro same) (auto simp: For_def)
    next
      case (4 rd)
      with \<open>spec_MetricsSource (ns_Spec ns) = Some src\<close> \<open>ms_Type src = _\<close> \<open>ms_Prometheus src = _\<close> assms b k
      show ?thesis
        by (intro miss [OF pm, of rd]) (auto simp: For_def drop_other_def provider_key_def)
    qed
  qed
qed

lemma For_prometheus:
  assumes "For env p ns = (p', Inr rd)" "prometheus_mode ns pr"
  shows "ns_UID ns \<noteq> '''' \<and> (\<exists>a. rd = CachedReader a)"
  using assms(1)
proof (cases rule: For_cases)
  case same
  obtain p1 b where b: "buildReader env p pr = (p1, b)" by (cases "buildReader env p pr")
  show ?thesis using assms b
    by (auto simp: For_def prometheus_mode_def Let_def split: if_splits option.splits sum.splits)
qed auto

lemma prov_inv_D:
  assumes "prov_inv p"
  shows "readers p k = Some a \<Longrightarrow> pr_objects p a \<noteq> None"
    and "readers p k = Some a \<Longrightarrow> readers p k' = Some a \<Longrightarrow> k = k'"
    and "pr_objects p a \<noteq> None \<Longrightarrow> a < pr_next p"
    and "readers p k = Some a \<Longrightarrow> a < pr_next p"
    and "readers p k = Some a \<Longrightarrow> readers p k' = Some b \<Longrightarrow> rk_uid k = rk_uid k' \<Longrightarrow>
      rk_fingerprint k = rk_fingerprint k'"
  using assms unfolding prov_inv_def by (blast, blast, blast, blast, metis option.discI)

lemma NewProvider_inv: "prov_inv (NewProvider pl al)"
  by (simp add: prov_inv_def NewProvider_def)

lemma For_inv:
  assumes "prov_inv p" "For env p ns = (p', r)"
  shows "prov_inv p'"
  using assms(2)
proof (cases rule: For_cases)
  case same
  then show ?thesis using assms(1) by (simp add: prov_inv_def)
next
  case (hit pr a)
  then show ?thesis using assms(1) by simp
next
  case (miss pr rd)
  have old: "readers p' k = Some b \<Longrightarrow> k \<noteq> provider_key ns pr \<Longrightarrow>
      readers p k = Some b \<and> (rk_uid k = ns_UID ns \<longrightarrow> rk_fingerprint k = prometheusFingerprint pr)" for k b
    using miss(6) by (auto simp: drop_other_def split: if_splits)
  have new: "readers p' (provider_key ns pr) = Some (pr_next p)"
    "rk_uid (provider_key ns pr) = ns_UID ns" "rk_fingerprint (provider_key ns pr) = prometheusFingerprint pr"
    using miss(6) by (auto simp: provider_key_def)
  note below = prov_inv_D(4) [OF assms(1)]
  show ?thesis unfolding prov_inv_def
  proof (intro conjI allI impI)
    fix k a
    assume "readers p' k = Some a"
    then show "pr_objects p' a \<noteq> None"
      using old [of k a] new miss(7) prov_inv_D(1) [OF assms(1), of k a] by (cases "k = provider_key ns pr") auto
  next
    fix k k' a
    assume "readers p' k = Some a \<and> readers p' k' = Some a"
    then show "k = k'"
      using old [of k a] old [of k' a] new below [of k a] below [of k' a] prov_inv_D(2) [OF assms(1), of k a k']
      by (cases "k = provider_key ns pr"; cases "k' = provider_key ns pr") auto
  next
    fix a
    assume "pr_objects p' a \<noteq> None"
    then show "a < pr_next p'" using miss(7,8) prov_inv_D(3) [OF assms(1), of a] by (auto simp: less_Suc_eq split: if_splits)
  next
    fix k k'
    assume "readers p' k \<noteq> None \<and> readers p' k' \<noteq> None \<and> rk_uid k = rk_uid k'"
    then obtain a b where "readers p' k = Some a" "readers p' k' = Some b" "rk_uid k = rk_uid k'" by auto
    then show "rk_fingerprint k = rk_fingerprint k'"
      using old [of k a] old [of k' b] new prov_inv_D(5) [OF assms(1), of k a k' b]
      by (cases "k = provider_key ns pr"; cases "k' = provider_key ns pr") simp_all
  qed
qed

lemma Read_inv:
  assumes "prov_inv p" "Read env p rd ns = (p', ops, r)"
  shows "prov_inv p'"
  using assms by (auto simp: Read_def prov_inv_def split: reader.splits option.splits prod.splits if_splits)

lemma Evict_inv: "prov_inv p \<Longrightarrow> prov_inv (fst (Evict p key))"
  by (auto simp: Evict_def prov_inv_def split: if_splits)

text \<open>After \<open>For\<close> the map knows the slice's key, and the observations of other configurations of the
  same UID are gone.\<close>

lemma For_remembered:
  assumes "prov_inv p" "For env p ns = (p', Inr (CachedReader a))" "prometheus_mode ns pr"
  shows "readers p' (provider_key ns pr) = Some a
    \<and> remembered p' = drop_other (ns_UID ns) (prometheusFingerprint pr) (remembered p)"
  using assms(2)
proof (cases rule: For_cases)
  case (hit pr' b)
  with assms(3) have eq: "pr' = pr" "b = a" by (auto simp: prometheus_mode_def)
  have "readers p k = None" if "rk_uid k = ns_UID ns" "rk_fingerprint k \<noteq> prometheusFingerprint pr" for k
    using prov_inv_D(5) [OF assms(1) hit(3), of k] that eq
    by (cases "readers p k") (auto simp: provider_key_def)
  then have "drop_other (ns_UID ns) (prometheusFingerprint pr) (remembered p) = remembered p"
    by (auto simp: drop_other_def remembered_def fun_eq_iff)
  with hit eq show ?thesis by simp
next
  case (miss pr' rd)
  with assms(3) have eq: "pr' = pr" "a = pr_next p" by (auto simp: prometheus_mode_def)
  have fresh: "cache rd = Map.empty" using miss(4)
    by (auto simp: buildReader_def NewStaleCache_def split: sum.splits if_splits prod.splits)
  have "remembered p' k = drop_other (ns_UID ns) (prometheusFingerprint pr) (remembered p) k" for k
  proof (cases "k = provider_key ns pr")
    case True
    then show ?thesis using miss eq fresh by (simp add: remembered_def drop_other_def)
  next
    case False
    then have "readers p' k = drop_other (ns_UID ns) (prometheusFingerprint pr) (readers p) k"
      using miss eq by simp
    moreover have "pr_objects p' b = pr_objects p b" if "readers p k = Some b" for b
      using miss(7) prov_inv_D(4) [OF assms(1) that] by simp
    ultimately show ?thesis by (cases "readers p k") (auto simp: remembered_def drop_other_def)
  qed
  with miss eq show ?thesis by auto
qed auto

text \<open>The specification of one read: what is remembered afterwards and what is returned, from what the
  queries yield now and what was remembered.\<close>

definition spec_read :: "metrics_env \<Rightarrow> prometheusReader \<Rightarrow> staleEntry option \<Rightarrow> staleEntry option \<times> Result result" where
  "spec_read env r old =
     (case snd (prometheusReader_Read env r) of
        Inr res \<Rightarrow> (Some \<lparr>se_metrics = res_Metrics res, se_freshAt = env_now env, se_observedAt = ObservedAt res\<rparr>,
                     Inr (res\<lparr>LastFreshAt := env_now env\<rparr>))
      | Inl err \<Rightarrow>
          (old,
           case env_ctx_after env of
             Some cerr \<Rightarrow> Inl (Wrapf (Lit ''staleCache: '' # err_msg cerr) [cerr])
           | None \<Rightarrow>
               (case old of
                  None \<Rightarrow> Inl (Wrapf (Lit ''staleCache: no fresh or cached value: '' # err_msg err)
                            [ErrNoMetrics_error, err])
                | Some en \<Rightarrow> Inr \<lparr>res_Metrics = se_metrics en, Stale = True, LastFreshAt = se_freshAt en,
                                 ObservedAt = se_observedAt en\<rparr>)))"

lemma staleCache_Read_spec:
  assumes "ns_UID ns \<noteq> ''''" "staleCache_Read env c ns = (c', ops, res)"
  shows "inner c' = inner c
    \<and> cache c' = (cache c)(ns_UID ns := fst (spec_read env (inner c) (cache c (ns_UID ns))))
    \<and> res = snd (spec_read env (inner c) (cache c (ns_UID ns)))"
proof -
  obtain pops r where p: "prometheusReader_Read env (inner c) = (pops, r)"
    by (cases "prometheusReader_Read env (inner c)")
  show ?thesis
  proof (cases r)
    case (Inr x)
    with p assms show ?thesis by (auto simp: staleCache_Read_def spec_read_def)
  next
    case (Inl e)
    with p assms show ?thesis
      by (auto simp: staleCache_Read_def spec_read_def fun_upd_idem split: option.splits)
  qed
qed

lemma Read_remembered:
  assumes "prov_inv p" "readers p k = Some a" "rk_uid k = ns_UID ns" "ns_UID ns \<noteq> ''''" "pr_objects p a = Some c"
    "Read env p (CachedReader a) ns = (p', ops, res)"
  shows "remembered p' = (remembered p)(k := fst (spec_read env (inner c) (remembered p k)))
    \<and> res = snd (spec_read env (inner c) (remembered p k))"
proof -
  obtain c' ops' res' where s: "staleCache_Read env c ns = (c', ops', res')"
    by (cases "staleCache_Read env c ns")
  have rk: "remembered p k = cache c (ns_UID ns)" using assms(2,3,5) by (simp add: remembered_def)
  have p': "readers p' = readers p" "pr_objects p' = (pr_objects p)(a \<mapsto> c')" "res = res'"
    using assms(5,6) s by (auto simp: Read_def)
  note sp = staleCache_Read_spec [OF assms(4) s]
  have "remembered p' j = ((remembered p)(k := fst (spec_read env (inner c) (remembered p k)))) j" for j
  proof (cases "j = k")
    case True
    then show ?thesis using assms(2,3) p' sp rk by (simp add: remembered_def)
  next
    case False
    then have "readers p j \<noteq> Some a" using prov_inv_D(2) [OF assms(1), of k a j] assms(2) by auto
    then show ?thesis using False p' by (cases "readers p j") (auto simp: remembered_def)
  qed
  with p' sp rk show ?thesis by auto
qed

section \<open>Reachable providers\<close>

definition observe :: "metrics_env \<Rightarrow> Provider \<Rightarrow> NTNSlice \<Rightarrow> Provider \<times> metric_op list \<times> Result result" where
  "observe env p ns =
     (case For env p ns of
        (p1, Inl e) \<Rightarrow> (p1, [], Inl e)
      | (p1, Inr rd) \<Rightarrow> Read env p1 rd ns)"

text \<open>The states a provider goes through: reads of slices, with any environment but a fixed URL
  parser, and evictions. \<open>safe\<close> is the HTTP client of the pool, \<open>al\<close> the endpoint allowlist.\<close>

inductive prov_reach :: "(string \<Rightarrow> URL result) \<Rightarrow> EndpointAllowlist option \<Rightarrow> EndpointAllowlist \<Rightarrow> Provider \<Rightarrow> bool"
  for url safe al where
  init: "prov_reach url safe al (NewProvider (NewClientPool safe) al)"
| observe: "prov_reach url safe al p \<Longrightarrow> (\<And>pr. prometheus_mode ns pr \<Longrightarrow> utf8_source pr) \<Longrightarrow>
    env_url_parse env = url \<Longrightarrow> observe env p ns = (p', ops, res) \<Longrightarrow> prov_reach url safe al p'"
| evict: "prov_reach url safe al p \<Longrightarrow> prov_reach url safe al (fst (Evict p key))"

text \<open>The reader of a configuration.\<close>

definition reader_of :: "EndpointAllowlist option \<Rightarrow> PrometheusMetricsSource \<Rightarrow> prometheusReader" where
  "reader_of safe pr = NewPrometheusReader \<lparr>qc_endpoint = Endpoint pr, qc_http = safe\<rparr> (pms_Queries pr)
     (effective_timeout pr)"

definition prov_conf :: "(string \<Rightarrow> URL result) \<Rightarrow> EndpointAllowlist option \<Rightarrow> EndpointAllowlist \<Rightarrow> Provider \<Rightarrow> bool" where
  "prov_conf url safe al p \<longleftrightarrow> allowlist p = al \<and> httpClient (pool p) = safe
     \<and> (\<forall>e c. clients (pool p) e = Some c \<longrightarrow> c = \<lparr>qc_endpoint = e, qc_http = safe\<rparr>)
     \<and> (\<forall>k a c. readers p k = Some a \<and> pr_objects p a = Some c \<longrightarrow>
          (\<exists>pr. utf8_source pr \<and> prometheusFingerprint pr = rk_fingerprint k \<and> inner c = reader_of safe pr
             \<and> Check url al (Endpoint pr) = Inr ()))"

lemma prov_conf_D: "prov_conf url safe al p \<Longrightarrow> readers p k = Some a \<Longrightarrow> pr_objects p a = Some c \<Longrightarrow>
    \<exists>pr. utf8_source pr \<and> prometheusFingerprint pr = rk_fingerprint k \<and> inner c = reader_of safe pr
      \<and> Check url al (Endpoint pr) = Inr ()"
  unfolding prov_conf_def by blast

lemma pool_Get_conf:
  assumes "pool_Get nc pl e = (pl', r)" "\<forall>e c. clients pl e = Some c \<longrightarrow> c = \<lparr>qc_endpoint = e, qc_http = httpClient pl\<rparr>"
  shows "httpClient pl' = httpClient pl
    \<and> (\<forall>e c. clients pl' e = Some c \<longrightarrow> c = \<lparr>qc_endpoint = e, qc_http = httpClient pl\<rparr>)
    \<and> (\<forall>c. r = Inr c \<longrightarrow> c = \<lparr>qc_endpoint = e, qc_http = httpClient pl\<rparr>)"
  using assms by (auto simp: pool_Get_def buildPromClient_def split: if_splits option.splits sum.splits)

lemma buildReader_conf:
  assumes "prov_conf url safe al p" "buildReader env p pr = (p', r)" "env_url_parse env = url"
  shows "allowlist p' = al \<and> httpClient (pool p') = safe
    \<and> (\<forall>e c. clients (pool p') e = Some c \<longrightarrow> c = \<lparr>qc_endpoint = e, qc_http = safe\<rparr>)
    \<and> (\<forall>rd. r = Inr rd \<longrightarrow> inner rd = reader_of safe pr \<and> Check url al (Endpoint pr) = Inr ())"
proof -
  obtain pl g where g: "pool_Get (env_NewClient env) (pool p) (Endpoint pr) = (pl, g)"
    by (cases "pool_Get (env_NewClient env) (pool p) (Endpoint pr)")
  have c: "allowlist p = al" "httpClient (pool p) = safe"
    "\<forall>e c. clients (pool p) e = Some c \<longrightarrow> c = \<lparr>qc_endpoint = e, qc_http = httpClient (pool p)\<rparr>"
    using assms(1) by (auto simp: prov_conf_def)
  note pg = pool_Get_conf [OF g c(3)]
  show ?thesis
  proof (cases g)
    case (Inl e)
    then show ?thesis using assms(2,3) c g pg
      by (auto simp: buildReader_def split: sum.splits if_splits)
  next
    case (Inr qc)
    then show ?thesis using assms(2,3) c g pg
      by (auto simp: buildReader_def NewStaleCache_def reader_of_def split: sum.splits if_splits)
  qed
qed

lemma For_pool_conf:
  assumes "prov_conf url safe al p" "For env p ns = (p', r)" "env_url_parse env = url"
  shows "allowlist p' = al \<and> httpClient (pool p') = safe
    \<and> (\<forall>e c. clients (pool p') e = Some c \<longrightarrow> c = \<lparr>qc_endpoint = e, qc_http = safe\<rparr>)"
proof (cases "\<exists>pr p1 b. buildReader env p pr = (p1, b) \<and> allowlist p' = allowlist p1 \<and> pool p' = pool p1")
  case True
  then show ?thesis using buildReader_conf [OF assms(1) _ assms(3)] by metis
next
  case False
  have "p' = p"
  proof (rule ccontr)
    assume ne: "p' \<noteq> p"
    obtain src where src: "spec_MetricsSource (ns_Spec ns) = Some src"
      using assms(2) ne by (cases "spec_MetricsSource (ns_Spec ns)") (auto simp: For_def)
    obtain pr where pr: "ms_Prometheus src = Some pr"
      using assms(2) ne src by (cases "ms_Prometheus src") (auto simp: For_def split: if_splits)
    obtain p1 b where b: "buildReader env p pr = (p1, b)" by (cases "buildReader env p pr")
    have "allowlist p' = allowlist p1 \<and> pool p' = pool p1"
      using assms(2) ne src pr b
      by (auto simp: For_def Let_def split: if_splits option.splits sum.splits)
    with False b show False by blast
  qed
  with assms(1) show ?thesis by (simp add: prov_conf_def)
qed

text \<open>The entry of the slice itself, before and after \<open>For\<close>.\<close>

lemma For_conf:
  assumes "prov_conf url safe al p" "prov_inv p" "For env p ns = (p', r)" "env_url_parse env = url"
    "\<And>pr. prometheus_mode ns pr \<Longrightarrow> utf8_source pr"
  shows "prov_conf url safe al p'"
proof -
  let ?good = "\<lambda>k c. \<exists>pr. utf8_source pr \<and> prometheusFingerprint pr = rk_fingerprint k \<and> inner c = reader_of safe pr
             \<and> Check url al (Endpoint pr) = Inr ()"
  have old: "readers p k = Some a \<Longrightarrow> pr_objects p a = Some c \<Longrightarrow> ?good k c" for k a c
    using assms(1) by (auto simp: prov_conf_def)
  have "?good k c" if kc: "readers p' k = Some a" "pr_objects p' a = Some c" for k a c
    using assms(3)
  proof (cases rule: For_cases)
    case same
    with kc old show ?thesis by auto
  next
    case (hit pr b)
    with kc old show ?thesis by auto
  next
    case (miss pr rd)
    show ?thesis
    proof (cases "k = provider_key ns pr")
      case True
      then have "c = rd" using kc miss by simp
      moreover have "inner rd = reader_of safe pr \<and> Check url al (Endpoint pr) = Inr ()"
        using buildReader_conf [OF assms(1) _ assms(4), of pr] miss(4) by (cases "buildReader env p pr") auto
      ultimately show ?thesis using True assms(5) [OF miss(1)] by (auto simp: provider_key_def)
    next
      case False
      with kc miss have "readers p k = Some a" by (auto simp: drop_other_def split: if_splits)
      moreover from this have "a \<noteq> pr_next p" using prov_inv_D(4) [OF assms(2)] by blast
      ultimately show ?thesis using kc miss old [of k a c] by simp
    qed
  qed
  with For_pool_conf [OF assms(1,3,4)] show ?thesis unfolding prov_conf_def by blast
qed

lemma Read_conf:
  assumes "prov_conf url safe al p" "Read env p rd ns = (p', ops, res)"
  shows "prov_conf url safe al p'"
proof (cases rd)
  case (CachedReader b)
  show ?thesis
  proof (cases "pr_objects p b")
    case (Some c)
    obtain c' o' r' where s: "staleCache_Read env c ns = (c', o', r')" by (cases "staleCache_Read env c ns")
    have i: "inner c' = inner c"
      using s staleCache_Read_spec [OF _ s] by (cases "ns_UID ns = ''''") (auto simp: staleCache_Read_def)
    have p': "p' = p\<lparr>pr_objects := (pr_objects p)(b \<mapsto> c')\<rparr>"
      using assms(2) CachedReader Some s by (simp add: Read_def)
    have entry: "readers p k = Some a \<Longrightarrow> pr_objects p' a = Some d \<Longrightarrow>
        \<exists>d'. pr_objects p a = Some d' \<and> inner d' = inner d" for k a d
      using i Some by (auto simp: p' split: if_splits)
    have "\<exists>pr. utf8_source pr \<and> prometheusFingerprint pr = rk_fingerprint k \<and> inner d = reader_of safe pr
             \<and> Check url al (Endpoint pr) = Inr ()" if kd: "readers p k = Some a" "pr_objects p' a = Some d" for k a d
    proof -
      obtain d' where "pr_objects p a = Some d'" "inner d' = inner d" using entry [OF kd] by blast
      then show ?thesis using prov_conf_D [OF assms(1) kd(1)] by metis
    qed
    moreover have "allowlist p' = allowlist p" "pool p' = pool p" "readers p' = readers p" by (simp_all add: p')
    ultimately show ?thesis using assms(1) unfolding prov_conf_def by metis
  qed (use assms CachedReader in \<open>simp add: Read_def\<close>)
qed (use assms in \<open>simp add: Read_def\<close>)

lemma reach_inv: "prov_reach url safe al p \<Longrightarrow> prov_inv p \<and> prov_conf url safe al p"
proof (induction rule: prov_reach.induct)
  case init
  show ?case by (simp add: NewProvider_inv) (simp add: prov_conf_def NewProvider_def NewClientPool_def)
next
  case (observe p ns env p' ops res)
  obtain p1 r where f: "For env p ns = (p1, r)" by (cases "For env p ns")
  have 1: "prov_inv p1" "prov_conf url safe al p1"
    using For_inv [OF _ f] For_conf [OF _ _ f observe(3,2)] observe.IH by auto
  show ?case
  proof (cases r)
    case (Inr rd)
    then have "Read env p1 rd ns = (p', ops, res)" using observe(4) f by (simp add: observe_def)
    then show ?thesis using Read_inv Read_conf 1 by blast
  qed (use observe(4) f 1 in \<open>simp add: observe_def\<close>)
next
  case (evict p key)
  then show ?case by (auto simp: Evict_inv) (auto simp: prov_conf_def Evict_def split: if_splits)
qed

text \<open>C33: the provider refines a map of last observations. In every provider reached from one whose pool was built with
  the SSRF-safe client (as \<open>cmd/main.go\<close> does) by reads of slices with valid UTF-8 strings and by evictions, a read of a
  slice in Prometheus mode through the reader \<open>For\<close> returns behaves as the one-entry specification \<open>spec_read\<close> on what
  is remembered for exactly this namespace, name, UID and configuration: the queries run are the slice's own, at its own
  endpoint and timeout, through that safe client, and only for an endpoint the allowlist accepts; a fresh observation
  replaces the remembered one; while the source fails, the remembered one is replayed with its original timestamps.
  Everything remembered for other configurations of the same UID is dropped, everything else is untouched: no observation
  leaks between slices or across a spec change.\<close>

theorem provider_refines_map:
  assumes "prov_reach url (Some safe) al p" "env_url_parse env = url" "prometheus_mode ns pr" "utf8_source pr"
    "For env p ns = (p1, Inr rd)" "Read env p1 rd ns = (p2, ops, res)"
  shows "Check url al (Endpoint pr) = Inr ()
    \<and> (let k = provider_key ns pr;
           m = drop_other (ns_UID ns) (prometheusFingerprint pr) (remembered p)
       in remembered p2 = m(k := fst (spec_read env (reader_of (Some safe) pr) (m k)))
          \<and> res = snd (spec_read env (reader_of (Some safe) pr) (m k)))"
proof -
  note inv = reach_inv [OF assms(1)]
  have only: "prometheus_mode ns q \<Longrightarrow> q = pr" for q using assms(3) by (auto simp: prometheus_mode_def)
  obtain a where uid: "ns_UID ns \<noteq> ''''" and a: "rd = CachedReader a"
    using For_prometheus [OF assms(5,3)] by blast
  note f = For_remembered [OF conjunct1 [OF inv] assms(5) [unfolded a] assms(3)]
  have i1: "prov_inv p1" "prov_conf url (Some safe) al p1"
    using For_inv [OF _ assms(5)] For_conf [OF _ _ assms(5,2)] inv only assms(4) by auto
  obtain c where c: "pr_objects p1 a = Some c" using prov_inv_D(1) [OF i1(1) conjunct1 [OF f]] by auto
  obtain q where "utf8_source q" "prometheusFingerprint q = prometheusFingerprint pr"
    and q: "inner c = reader_of (Some safe) q" "Check url al (Endpoint q) = Inr ()"
    using prov_conf_D [OF i1(2) conjunct1 [OF f] c] by (auto simp: provider_key_def)
  then have "Endpoint q = Endpoint pr" "reader_of (Some safe) q = reader_of (Some safe) pr"
    using fingerprint_inject [of q pr] assms(4) by (auto simp: reader_of_def)
  moreover note Read_remembered [OF i1(1) conjunct1 [OF f] _ uid c assms(6) [unfolded a]]
  ultimately show ?thesis using f q by (simp add: provider_key_def Let_def)
qed

definition ex_pr :: PrometheusMetricsSource where
  "ex_pr = \<lparr>Endpoint = ''http://prom'', QueryTimeout = None, pms_Queries = ex_queries\<rparr>"

definition ex_path :: PathSpec where
  "ex_path = \<lparr>ps_Provider = ''op'', APN = '''', Priority = ''primary''\<rparr>"

definition ex_slice_spec :: NTNSliceSpec where
  "ex_slice_spec = \<lparr>Tenant = ''t'', TerrestrialPath = ex_path,
     SatellitePath = \<lparr>sp_Path = ex_path\<lparr>Priority := ''failover''\<rparr>, EphemerisRef = ''eph''\<rparr>,
     spec_FailoverPolicy = \<lparr>Triggers = [''rsrp < -120''], SwitchbackDelay = minute, SessionContinuity = True,
       HysteresisMargin = '''', fp_ConfirmationSamples = None, fp_MinTerrestrialDwell = 0\<rparr>,
     spec_QoSMapping = None, Security = None, Billing = None,
     spec_MetricsSource = Some \<lparr>ms_Type = MetricsSourcePrometheus, ms_Prometheus = Some ex_pr\<rparr>\<rparr>"

definition ex_slice :: NTNSlice where
  "ex_slice = \<lparr>ns_Meta = \<lparr>om_Name = ''s'', om_Namespace = ''ns'', om_UID = ''u1'', om_Generation = 1,
       om_DeletionTimestamp = None, om_Finalizers = [], om_Annotations = Map.empty, om_Labels = Map.empty\<rparr>,
     ns_Spec = ex_slice_spec,
     ns_Status = \<lparr>ActivePathType = '''', LastFailover = None, LastSwitchbackTime = None, FailoverCount = 0,
       SessionCount = 0, AppliedQoS = [], st_ContactCandidate = None, AppliedEncryption = '''', BillingMode = '''',
       st_Conditions = []\<rparr>\<rparr>"

definition ex_provider :: Provider where
  "ex_provider = NewProvider (NewClientPool (Some \<lparr>hosts = []\<rparr>)) \<lparr>hosts = [''prom'']\<rparr>"

lemma ex_prom: "prometheus_mode ex_slice ex_pr" "utf8_source ex_pr"
  by (simp_all add: prometheus_mode_def ex_slice_def ex_slice_spec_def utf8_source_def utf8_ascii ex_pr_def ex_queries_def)

lemma ex_For: "\<exists>p1. For ex_env ex_provider ex_slice = (p1, Inr (CachedReader 0))"
proof -
  have c: "Check (env_url_parse ex_env) \<lparr>hosts = [''prom'']\<rparr> (Endpoint ex_pr) = Inr ()"
    by (simp add: Check_ok ContainsHost_def ex_env_def ToLower_def to_lower_def Let_def)
  have b: "\<exists>p1 rd. buildReader ex_env ex_provider ex_pr = (p1, Inr rd) \<and> pr_next p1 = 0"
    using c by (simp add: buildReader_def ex_provider_def NewProvider_def NewClientPool_def pool_Get_def
        buildPromClient_def ex_pr_def ex_queries_def ex_env_def)
  then show ?thesis
    by (auto simp: For_def Let_def ex_slice_def ex_slice_spec_def ex_provider_def NewProvider_def)
qed

theorem provider_refines_map_witness:
  "\<exists>p1 p2 ops res. For ex_env ex_provider ex_slice = (p1, Inr (CachedReader 0))
     \<and> Read ex_env p1 (CachedReader 0) ex_slice = (p2, ops, res)
     \<and> res = snd (spec_read ex_env (reader_of (Some \<lparr>hosts = []\<rparr>) ex_pr) None)
     \<and> remembered p2 (provider_key ex_slice ex_pr)
         = fst (spec_read ex_env (reader_of (Some \<lparr>hosts = []\<rparr>) ex_pr) None)"
proof -
  obtain p1 where f: "For ex_env ex_provider ex_slice = (p1, Inr (CachedReader 0))" using ex_For by blast
  obtain p2 ops res where r: "Read ex_env p1 (CachedReader 0) ex_slice = (p2, ops, res)"
    by (cases "Read ex_env p1 (CachedReader 0) ex_slice")
  have reach: "prov_reach (env_url_parse ex_env) (Some \<lparr>hosts = []\<rparr>) \<lparr>hosts = [''prom'']\<rparr> ex_provider"
    unfolding ex_provider_def by (rule prov_reach.init)
  have none: "remembered ex_provider = Map.empty"
    by (simp add: remembered_def ex_provider_def NewProvider_def fun_eq_iff)
  show ?thesis using provider_refines_map [OF reach refl ex_prom f r] f r
    by (auto simp: none drop_other_def Let_def)
qed

section \<open>The interface of the slice controller\<close>

text \<open>\<open>metricsReaderProvider\<close> with the \<open>Reader\<close> it returns, as the controller sees them: operations on
  a provider state.\<close>

record ('p, 'r) reader_ops =
  op_For :: "'p \<Rightarrow> NTNSlice \<Rightarrow> 'p \<times> 'r result"
  op_Read :: "'p \<Rightarrow> 'r \<Rightarrow> NTNSlice \<Rightarrow> 'p \<times> metric_op list \<times> Result result"
  op_Evict :: "'p \<Rightarrow> NamespacedName \<Rightarrow> 'p \<times> metric_op list"

locale reader_provider =
  fixes R :: "('p, 'r) reader_ops" and ok :: "'p \<Rightarrow> bool"
  assumes keep_For: "ok p \<Longrightarrow> op_For R p ns = (p', r) \<Longrightarrow> ok p'"
    and keep_Read: "ok p \<Longrightarrow> op_Read R p rd ns = (p', ops, res) \<Longrightarrow> ok p'"
    and keep_Evict: "ok p \<Longrightarrow> ok (fst (op_Evict R p key))"
    and finite_Read: "ok p \<Longrightarrow> op_Read R p rd ns = (p', ops, Inr rs) \<Longrightarrow> metrics_ok (res_Metrics rs)"

definition provider_ops :: "metrics_env \<Rightarrow> (Provider, reader) reader_ops" where
  "provider_ops env = \<lparr>op_For = For env, op_Read = Read env, op_Evict = Evict\<rparr>"

text \<open>Every remembered observation is finite.\<close>

definition prov_finite :: "Provider \<Rightarrow> bool" where
  "prov_finite p \<longleftrightarrow> (\<forall>a c u e. pr_objects p a = Some c \<and> cache c u = Some e \<longrightarrow> metrics_ok (se_metrics e))"

lemma spec_read_finite:
  assumes "\<And>e. old = Some e \<Longrightarrow> metrics_ok (se_metrics e)"
  shows "(\<forall>e. fst (spec_read env r old) = Some e \<longrightarrow> metrics_ok (se_metrics e))
    \<and> (\<forall>res. snd (spec_read env r old) = Inr res \<longrightarrow> metrics_ok (res_Metrics res))"
proof (cases "snd (prometheusReader_Read env r)")
  case (Inr res)
  then show ?thesis using prometheus_read_complete [OF Inr] by (auto simp: spec_read_def read_complete_def)
next
  case (Inl e)
  then show ?thesis using assms by (auto simp: spec_read_def split: option.splits)
qed

lemma staleCache_Read_finite:
  assumes "\<And>u e. cache c u = Some e \<Longrightarrow> metrics_ok (se_metrics e)" "staleCache_Read env c ns = (c', ops, res)"
  shows "(\<forall>u e. cache c' u = Some e \<longrightarrow> metrics_ok (se_metrics e)) \<and> (\<forall>r. res = Inr r \<longrightarrow> metrics_ok (res_Metrics r))"
proof (cases "ns_UID ns = ''''")
  case False
  note s = staleCache_Read_spec [OF False assms(2)]
  note f = spec_read_finite [of "cache c (ns_UID ns)" env "inner c", OF assms(1)]
  show ?thesis using s f assms(1) by (auto split: if_splits)
qed (use assms in \<open>auto simp: staleCache_Read_def\<close>)

lemma parseFinite_finite: "parseFinite s = Some v \<Longrightarrow> is_finite v"
  by (auto simp: parseFinite_def is_finite_iff split: if_splits sum.splits)

lemma annotation_finite: "annotationReader_Read ns = Inr r \<Longrightarrow> metrics_ok (res_Metrics r)"
  by (auto simp: annotationReader_Read_def metrics_ok_def missingMetrics_def defaultMetrics_def Let_def
      split: option.splits dest: parseFinite_finite)

lemma Read_finite:
  assumes "prov_finite p" "Read env p rd ns = (p', ops, res)"
  shows "prov_finite p' \<and> (\<forall>r. res = Inr r \<longrightarrow> metrics_ok (res_Metrics r))"
proof (cases rd)
  case AnnotationReader
  then show ?thesis using assms annotation_finite by (auto simp: Read_def)
next
  case (CachedReader a)
  show ?thesis
  proof (cases "pr_objects p a")
    case (Some c)
    obtain c' o' r' where s: "staleCache_Read env c ns = (c', o', r')" by (cases "staleCache_Read env c ns")
    have c: "\<And>u e. cache c u = Some e \<Longrightarrow> metrics_ok (se_metrics e)"
      using assms(1) Some by (auto simp: prov_finite_def)
    have "p' = p\<lparr>pr_objects := (pr_objects p)(a \<mapsto> c')\<rparr>" "res = r'"
      using assms(2) CachedReader Some s by (simp_all add: Read_def)
    then show ?thesis using staleCache_Read_finite [OF c s] assms(1) by (auto simp: prov_finite_def split: if_splits)
  qed (use assms CachedReader in \<open>auto simp: Read_def\<close>)
qed

lemma For_finite:
  assumes "prov_finite p" "For env p ns = (p', r)"
  shows "prov_finite p'"
  using assms(2)
proof (cases rule: For_cases)
  case (miss pr rd)
  have "cache rd = Map.empty" using miss(4)
    by (auto simp: buildReader_def NewStaleCache_def split: sum.splits if_splits prod.splits)
  then show ?thesis using assms(1) miss(7) by (auto simp: prov_finite_def)
qed (use assms(1) in \<open>auto simp: prov_finite_def\<close>)

interpretation prov: reader_provider "provider_ops env" prov_finite for env
proof unfold_locales
  show "prov_finite p \<Longrightarrow> op_For (provider_ops env) p ns = (p', r) \<Longrightarrow> prov_finite p'" for p ns p' r
    using For_finite by (simp add: provider_ops_def)
  show "prov_finite p \<Longrightarrow> op_Read (provider_ops env) p rd ns = (p', ops, res) \<Longrightarrow> prov_finite p'" for p rd ns p' ops res
    using Read_finite by (simp add: provider_ops_def)
  show "prov_finite p \<Longrightarrow> prov_finite (fst (op_Evict (provider_ops env) p key))" for p key
    by (simp add: provider_ops_def Evict_def prov_finite_def)
  show "prov_finite p \<Longrightarrow> op_Read (provider_ops env) p rd ns = (p', ops, Inr res) \<Longrightarrow> metrics_ok (res_Metrics res)"
    for p rd ns p' ops res
    using Read_finite by (simp add: provider_ops_def)
qed

end
