(* ===== verification/Ephemeris_Freshness.thy ===== *)
theory Ephemeris_Freshness
  imports Go_Prelude
begin

text \<open>
  The shared rules on the age of an orbital element set, \<open>internal/controller/ephemeris_freshness.go\<close>:
  plausibility (checked before propagation and again before delivery) and freshness (checked before
  delivery).
\<close>

definition maxEpochAge :: duration where
  "maxEpochAge = 7 * 24 * hour"

definition maxSourceEpochFutureSkew :: duration where
  "maxSourceEpochFutureSkew = 24 * hour"

definition sourceEpochPlausible :: "time \<Rightarrow> time \<Rightarrow> unit result" where
  "sourceEpochPlausible now src =
     (if src > time_Add now maxSourceEpochFutureSkew
      then Inl (Errorf [Lit ''source element epoch '', Stamp src,
             Lit '' is implausibly future-dated (more than '', Dur maxSourceEpochFutureSkew,
             Lit '' ahead of '', Stamp now, Lit '')''])
      else Inr ())"

definition sourceEpochFresh :: "time \<Rightarrow> time \<Rightarrow> unit result" where
  "sourceEpochFresh now src =
     (let age = time_Sub now src in
      if age > maxEpochAge
      then Inl (Errorf [Lit ''source element epoch '', Stamp src, Lit '' is '', Dur (dur_Round age second),
             Lit '' old, beyond the '', Dur maxEpochAge, Lit '' freshness bound (drifting)''])
      else Inr ())"

lemma epoch_constants: "is_int64 maxEpochAge" "maxEpochAge \<noteq> max_int64" "0 < maxEpochAge"
  "0 < maxSourceEpochFutureSkew"
  by (simp_all add: maxEpochAge_def maxSourceEpochFutureSkew_def is_int64_def min_int64_def max_int64_def)

lemma plausible_iff: "sourceEpochPlausible now src = Inr () \<longleftrightarrow> src \<le> now + maxSourceEpochFutureSkew"
  by (auto simp: sourceEpochPlausible_def time_Add_def)

lemma fresh_iff: "sourceEpochFresh now src = Inr () \<longleftrightarrow> now \<le> src + maxEpochAge"
  using time_Sub_gt_iff [OF epoch_constants(1), of now src] epoch_constants(2)
  by (auto simp: sourceEpochFresh_def Let_def)

lemma fresh_not_Inl: "(\<exists>e. sourceEpochFresh now src = Inl e) \<longleftrightarrow> src + maxEpochAge < now"
  using fresh_iff [of now src] by (cases "sourceEpochFresh now src") auto

text \<open>Freshness only decays: an element set stale at one instant is stale ever after.\<close>

lemma stale_persists: "now \<le> later \<Longrightarrow> sourceEpochFresh later src = Inr () \<Longrightarrow> sourceEpochFresh now src = Inr ()"
  by (simp add: fresh_iff)

end
