(* ===== verification/Slice_Controller.thy ===== *)
theory Slice_Controller
  imports Failover_Laws Slice_Provider Ephemeris_Freshness
begin

text \<open>
  The NTNSlice controller, \<open>internal/controller/ntnslice_controller.go\<close>: the in-memory anti-flap state
  with its durable mirror in the status, path quality, satellite contact, the finalizer and the
  reconcile loop that composes them.

  A reconcile takes the reconciler state (the anti-flap map and the state of the metrics provider), the
  condition helpers \<open>M\<close>, the operations \<open>R\<close> of the metrics provider and the record \<open>slice_io\<close> of what the
  API server and the clock answer during it; it returns the new state, the effects in order
  (API writes, events, Prometheus series) and the result. An API write is recorded when it is
  attempted; whether it succeeded is the answer in \<open>slice_io\<close>. Log lines are not modelled.
\<close>

section \<open>State, answers and effects\<close>

definition sliceRequeueInterval :: duration where
  "sliceRequeueInterval = 30 * second"

definition metricsMaxStaleness :: duration where
  "metricsMaxStaleness = 90 * second"

record flapStateEntry =
  fe_uid :: UID
  fe_generation :: int
  fe_state :: AntiFlapState

record 'p NTNSliceReconciler =
  flapState :: "NamespacedName \<rightharpoonup> flapStateEntry"
  ReaderProvider :: 'p

record slice_io =
  io_get :: "NTNSlice get"
  io_eph :: "SatelliteEphemeris get"
  io_list :: "NTNSlice list result"
  io_update :: "gerror option"
  io_status :: "gerror option"
  io_now :: time
  io_recorder :: bool

datatype effect =
    ReaderSeries "metric_op list"
  | SetPassAvailable string string int
  | DeletePassAvailable string string
  | IncFailoverTotal string string string string
  | DeleteFailoverTotal string string
  | UpdateObject NTNSlice
  | UpdateStatus NTNSlice
  | EmitEvent deferredEvent

section \<open>Anti-flap state\<close>

definition loadFlapState :: "'p NTNSliceReconciler \<Rightarrow> NamespacedName \<Rightarrow> UID \<Rightarrow> int
    \<Rightarrow> 'p NTNSliceReconciler \<times> AntiFlapState" where
  "loadFlapState r key uid generation =
     (case flapState r key of
        None \<Rightarrow> (r\<lparr>flapState := (flapState r)(key := None)\<rparr>, zeroFlap)
      | Some entry \<Rightarrow>
          if fe_uid entry \<noteq> uid then (r\<lparr>flapState := (flapState r)(key := None)\<rparr>, zeroFlap)
          else if fe_generation entry \<noteq> generation
          then (let st = (fe_state entry)\<lparr>ConsecutiveDegraded := 0, RecoveryObservedAt := 0,
                           LastCountedObservedAt := 0\<rparr>;
                    entry' = entry\<lparr>fe_state := st, fe_generation := generation\<rparr>
                in (r\<lparr>flapState := (flapState r)(key \<mapsto> entry')\<rparr>, st))
          else (r, fe_state entry))"

definition storeFlapState :: "'p NTNSliceReconciler \<Rightarrow> NamespacedName \<Rightarrow> UID \<Rightarrow> int \<Rightarrow> AntiFlapState
    \<Rightarrow> 'p NTNSliceReconciler" where
  "storeFlapState r key uid generation st =
     r\<lparr>flapState := (flapState r)(key \<mapsto> \<lparr>fe_uid = uid, fe_generation = generation, fe_state = st\<rparr>)\<rparr>"

definition seedLastSwitchbackFromStatus :: "AntiFlapState \<Rightarrow> NTNSlice \<Rightarrow> time \<Rightarrow> AntiFlapState \<times> NTNSlice" where
  "seedLastSwitchbackFromStatus af ns now =
     (case LastSwitchbackTime (ns_Status ns) of
        None \<Rightarrow> (af, ns)
      | Some p \<Rightarrow>
          if p > now then (af, map_status (\<lambda>s. s\<lparr>LastSwitchbackTime := None\<rparr>) ns)
          else if \<not> (p > LastSwitchback af) then (af, ns)
          else (af\<lparr>LastSwitchback := p\<rparr>, ns))"

definition persistLastSwitchbackToStatus :: "NTNSlice \<Rightarrow> time \<Rightarrow> time \<Rightarrow> NTNSlice" where
  "persistLastSwitchbackToStatus ns latest now =
     (if IsZero latest then ns
      else if (case LastSwitchbackTime (ns_Status ns) of
                 None \<Rightarrow> True
               | Some p \<Rightarrow> time_Truncate latest second > p \<or> p > now)
      then map_status (\<lambda>s. s\<lparr>LastSwitchbackTime := Some latest\<rparr>) ns
      else ns)"

definition resetRecoveryStreak :: "'p NTNSliceReconciler \<Rightarrow> NamespacedName \<Rightarrow> 'p NTNSliceReconciler" where
  "resetRecoveryStreak r key =
     (case flapState r key of
        None \<Rightarrow> r
      | Some entry \<Rightarrow>
          if IsZero (RecoveryObservedAt (fe_state entry)) \<and> ConsecutiveDegraded (fe_state entry) = 0 then r
          else r\<lparr>flapState := (flapState r)(key \<mapsto> entry\<lparr>fe_state :=
                 (fe_state entry)\<lparr>RecoveryObservedAt := 0, ConsecutiveDegraded := 0\<rparr>\<rparr>)\<rparr>)"

definition dropFlapState :: "'p NTNSliceReconciler \<Rightarrow> NamespacedName \<Rightarrow> 'p NTNSliceReconciler" where
  "dropFlapState r key = r\<lparr>flapState := (flapState r)(key := None)\<rparr>"

section \<open>Path quality\<close>

definition reasonMetricsReaderError :: string where "reasonMetricsReaderError = ''MetricsReaderError''"
definition reasonMetricsUnavailable :: string where "reasonMetricsUnavailable = ''MetricsUnavailable''"
definition reasonEndpointNotAllowed :: string where "reasonEndpointNotAllowed = ''EndpointNotAllowed''"

definition setMetricsDegraded :: "meta_api \<Rightarrow> NTNSlice \<Rightarrow> string \<Rightarrow> msg \<Rightarrow> NTNSlice" where
  "setMetricsDegraded M ns reason m =
     (let ns = set_cond M (mkCond ConditionFailoverReady ConditionUnknown reason m (ns_Generation ns)) ns
      in set_cond M (mkCond ConditionMetricsStale ConditionUnknown reason
           (Lit ''Metric freshness unknown: '' # m) (ns_Generation ns)) ns)"

text \<open>What \<open>readPathQuality\<close> returns next to its changes of the slice and the pending events: the
  metrics, the source timestamp and whether they may drive a decision.\<close>

record quality =
  ql_metrics :: Metrics
  ql_observedAt :: time
  ql_reliable :: bool

definition zeroMetrics :: Metrics where
  "zeroMetrics = \<lparr>RSRP = Fin 0, LatencyMs = Fin 0, PacketLossPercent = Fin 0, RSRPMissing = False,
     LatencyMissing = False, PacketLossMissing = False\<rparr>"

definition unreliable :: quality where
  "unreliable = \<lparr>ql_metrics = zeroMetrics, ql_observedAt = 0, ql_reliable = False\<rparr>"

definition acceptResult :: "meta_api \<Rightarrow> NTNSlice \<Rightarrow> time \<Rightarrow> Result \<Rightarrow> NTNSlice \<times> deferredEvent list \<times> quality" where
  "acceptResult M ns now rr =
     (let g = ns_Generation ns;
          wasStale = IsStatusConditionTrue M (ns_Conditions ns) ConditionMetricsStale;
          good = \<lparr>ql_metrics = res_Metrics rr, ql_observedAt = ObservedAt rr, ql_reliable = True\<rparr> in
      if \<not> Stale rr
      then (set_cond M (mkCond ConditionMetricsStale ConditionFalse ''FreshValue''
              [Lit ''Metrics source returned a fresh observation''] g) ns, [], good)
      else
        (let age = time_Sub now (LastFreshAt rr);
             ns1 = set_cond M (mkCond ConditionMetricsStale ConditionTrue ''StaleValue''
                     [Lit ''Using stale metrics last observed at '', Stamp (LastFreshAt rr), Lit '' (age '',
                      Dur (dur_Round age second), Lit '')''] g) ns;
             pending = (if wasStale then []
                        else [\<lparr>ev_type = ''Warning'', ev_reason = ''MetricsStale'',
                               ev_message = [Lit ''Using stale metrics last observed at '', Stamp (LastFreshAt rr)]\<rparr>])
         in if age \<le> metricsMaxStaleness then (ns1, pending, good)
            else (set_cond M (mkCond ConditionFailoverReady ConditionUnknown ''MetricsStale''
                    [Lit ''Metrics stale beyond '', Dur metricsMaxStaleness,
                     Lit ''; quality-driven failover suspended (fail static)''] g) ns1, pending, unreliable)))"

definition readPathQuality :: "meta_api \<Rightarrow> ('p, 'r) reader_ops \<Rightarrow> 'p \<Rightarrow> NTNSlice \<Rightarrow> time
    \<Rightarrow> 'p \<times> metric_op list \<times> NTNSlice \<times> deferredEvent list \<times> quality" where
  "readPathQuality M R p ns now =
     (case op_For R p ns of
        (p1, Inl err) \<Rightarrow>
          (p1, [], setMetricsDegraded M ns
             (if errors_Is err ErrEndpointNotAllowed then reasonEndpointNotAllowed else reasonMetricsReaderError)
             (err_msg err), [], unreliable)
      | (p1, Inr rd) \<Rightarrow>
          (case op_Read R p1 rd ns of
             (p2, ops, Inl err) \<Rightarrow>
               (p2, ops, setMetricsDegraded M ns
                  (if errors_Is err ErrNoMetrics then reasonMetricsUnavailable else reasonMetricsReaderError)
                  (err_msg err), [], unreliable)
           | (p2, ops, Inr rr) \<Rightarrow>
               (case acceptResult M ns now rr of (ns', pending, q) \<Rightarrow> (p2, ops, ns', pending, q))))"

definition reportInertTriggers :: "meta_api \<Rightarrow> NTNSlice \<Rightarrow> string list \<Rightarrow> NTNSlice \<times> deferredEvent list" where
  "reportInertTriggers M ns inert =
     (if inert = []
      then (set_cond M (mkCond ConditionTriggersReady ConditionTrue ''AllTriggersSourced''
              [Lit ''All failover triggers reference a sourced metric''] (ns_Generation ns)) ns, [])
      else
        (let episode = conditionEpisodeChanged (FindStatusCondition M (ns_Conditions ns) ConditionTriggersReady)
                         ConditionFalse ''InertTriggers'' (ns_Generation ns);
             m = [Lit ''failover triggers reference metrics with no configured source and will never fire: '',
                  Lit (Join inert ''; '')]
         in (set_cond M (mkCond ConditionTriggersReady ConditionFalse ''InertTriggers'' m (ns_Generation ns)) ns,
             if episode then [\<lparr>ev_type = ''Warning'', ev_reason = ''InertTriggers'', ev_message = m\<rparr>] else [])))"

section \<open>Satellite contact\<close>

definition reasonConstellationMemberAvailable :: string where
  "reasonConstellationMemberAvailable = ''ConstellationMemberAvailable''"
definition reasonNoActiveContact :: string where "reasonNoActiveContact = ''NoActiveContact''"
definition reasonAllCandidatesStale :: string where "reasonAllCandidatesStale = ''AllCandidatesStale''"
definition reasonEphemerisRefNotFound :: string where "reasonEphemerisRefNotFound = ''EphemerisRefNotFound''"
definition reasonPredictionUnavailable :: string where "reasonPredictionUnavailable = ''PredictionUnavailable''"
definition reasonSatelliteReadFailed :: string where "reasonSatelliteReadFailed = ''SatelliteReadFailed''"

record contactEval =
  available :: bool
  known :: bool
  ce_reason :: string
  detail :: msg
  candidate :: "ContactCandidate option"

definition failoverReadyCondition :: "contactEval \<Rightarrow> Condition" where
  "failoverReadyCondition contact =
     (if \<not> known contact
      then mkCond ConditionFailoverReady ConditionUnknown (ce_reason contact)
             (if ce_reason contact = reasonPredictionUnavailable
              then [Lit ''Satellite availability unknown: the referenced SatelliteEphemeris has no current pass prediction (PassesPredicted is not True); holding current path'']
              else [Lit ''Satellite availability unknown: transient SatelliteEphemeris read error; holding current path'']) 0
      else if available contact
      then mkCond ConditionFailoverReady ConditionTrue (ce_reason contact)
             [Lit ''A fresh deliverable constellation member has an active pass window (contact opportunity, not slice service)''] 0
      else mkCond ConditionFailoverReady ConditionFalse (ce_reason contact)
             (if detail contact = [] then [Lit ''No satellite pass window active or SatelliteEphemeris not found'']
              else detail contact) 0)"

text \<open>Go's \<open><\<close> on strings: bytewise, a proper prefix first.\<close>

fun str_less :: "string \<Rightarrow> string \<Rightarrow> bool" where
  "str_less _ [] \<longleftrightarrow> False"
| "str_less [] (_ # _) \<longleftrightarrow> True"
| "str_less (a # s) (b # t) \<longleftrightarrow> (of_char a :: nat) < of_char b \<or> a = b \<and> str_less s t"

definition earlierLOSCandidate :: "PassWindow \<Rightarrow> PassWindow \<Rightarrow> bool" where
  "earlierLOSCandidate a b =
     (if LOS a \<noteq> LOS b then LOS a < LOS b
      else if pw_NoradID a \<noteq> pw_NoradID b then pw_NoradID a < pw_NoradID b
      else str_less (pw_GroundStation a) (pw_GroundStation b))"

definition buildContactCandidate :: "PassWindow \<Rightarrow> PropagatedState option \<Rightarrow> ContactCandidate" where
  "buildContactCandidate pw ps =
     (let c = \<lparr>cc_NoradID = pw_NoradID pw, cc_Satellite = pw_Satellite pw, cc_GroundStation = pw_GroundStation pw,
               cc_AOS = Some (AOS pw), cc_LOS = Some (LOS pw), cc_SourceEpochUnixMs = 0,
               cc_PropagatedEpochUnixMs = 0, ValidUntil = None, SelectionReason = ''EarliestLOS''\<rparr>
      in case ps of
           None \<Rightarrow> c\<lparr>ValidUntil := Some (LOS pw)\<rparr>
         | Some s \<Rightarrow>
             (let expiry = time_Add (UnixMilli (SourceEpochUnixMs s)) maxEpochAge
              in c\<lparr>cc_SourceEpochUnixMs := SourceEpochUnixMs s, cc_PropagatedEpochUnixMs := EpochUnixMs s,
                   ValidUntil := Some (if expiry < LOS pw then expiry else LOS pw)\<rparr>))"

text \<open>The maps built from the propagated states: which NORAD IDs have a stale state, and the last state
  of each.\<close>

definition stale_norads :: "time \<Rightarrow> PropagatedState list \<Rightarrow> int \<Rightarrow> bool" where
  "stale_norads now pss n = list_ex (\<lambda>ps. prop_NoradID ps = n
     \<and> (case sourceEpochFresh now (UnixMilli (SourceEpochUnixMs ps)) of Inl _ \<Rightarrow> True | Inr _ \<Rightarrow> False)) pss"

definition state_of :: "PropagatedState list \<Rightarrow> int \<Rightarrow> PropagatedState option" where
  "state_of pss n = fold (\<lambda>ps acc. if prop_NoradID ps = n then Some ps else acc) pss None"

text \<open>One iteration over the pass windows: the best deliverable window so far, and whether a stale one
  was overhead.\<close>

definition contact_step :: "time \<Rightarrow> (int \<Rightarrow> bool) \<Rightarrow> PassWindow \<Rightarrow> PassWindow option \<times> bool \<Rightarrow> PassWindow option \<times> bool" where
  "contact_step now stale pw acc =
     (let (best, activeStale) = acc in
      if AOS pw > now \<or> \<not> (LOS pw > now) then acc
      else if pw_NoradID pw \<noteq> 0 \<and> stale (pw_NoradID pw) then (best, True)
      else (case best of
              None \<Rightarrow> (Some pw, activeStale)
            | Some b \<Rightarrow> (if earlierLOSCandidate pw b then Some pw else best, activeStale)))"

definition checkSatelliteAvailability :: "meta_api \<Rightarrow> SatelliteEphemeris get \<Rightarrow> time \<Rightarrow> contactEval" where
  "checkSatelliteAvailability M eph_get now =
     (let none = \<lparr>available = False, known = False, ce_reason = [], detail = [], candidate = None\<rparr> in
      case eph_get of
        NotFound \<Rightarrow> none\<lparr>known := True, ce_reason := reasonEphemerisRefNotFound,
                     detail := [Lit ''referenced SatelliteEphemeris not found'']\<rparr>
      | GetError _ \<Rightarrow> none\<lparr>ce_reason := reasonSatelliteReadFailed\<rparr>
      | Found eph \<Rightarrow>
          if \<not> IsStatusConditionTrue M (eph_Conditions (eph_Status eph)) ConditionPassesPredicted
          then none\<lparr>ce_reason := reasonPredictionUnavailable\<rparr>
          else
            (let states = PropagatedStates (eph_Status eph);
                 (best, activeStale) = fold (contact_step now (stale_norads now states))
                   (NextPassWindows (eph_Status eph)) (None, False)
             in case best of
                  Some b \<Rightarrow> none\<lparr>available := True, known := True, ce_reason := reasonConstellationMemberAvailable,
                              candidate := Some (buildContactCandidate b (state_of states (pw_NoradID b)))\<rparr>
                | None \<Rightarrow>
                    if activeStale
                    then none\<lparr>known := True, ce_reason := reasonAllCandidatesStale,
                           detail := [Lit ''satellite overhead but its element set is stale beyond the '', Dur maxEpochAge,
                             Lit ('' freshness bound '' @ [CHR 0xE2, CHR 0x80, CHR 0x94] @ '' not deliverable to the gNB'')]\<rparr>
                    else none\<lparr>known := True, ce_reason := reasonNoActiveContact,
                           detail := [Lit ''no active satellite pass window'']\<rparr>))"

section \<open>Derived status\<close>

definition applyQoSStatus :: "meta_api \<Rightarrow> NTNSlice \<Rightarrow> string \<Rightarrow> NTNSlice" where
  "applyQoSStatus M ns activePath =
     (case spec_QoSMapping (ns_Spec ns) of
        None \<Rightarrow> remove_cond M ConditionQoSApplied (map_status (\<lambda>s. s\<lparr>AppliedQoS := []\<rparr>) ns)
      | Some qos \<Rightarrow>
          (let q = (if activePath = PathSatellite
                    then [Lit ''QCI='', Lit (SatelliteQCI qos), Lit '', maxLatency='', Dur (MaxLatencyBudget qos)]
                    else [Lit ''5QI='', Num (Terrestrial5QI qos), Lit '', maxLatency='', Dur (MaxLatencyBudget qos)])
           in set_cond M (mkCond ConditionQoSApplied ConditionTrue ''QoSConfigured'' q (ns_Generation ns))
                (map_status (\<lambda>s. s\<lparr>AppliedQoS := q\<rparr>) ns)))"

definition applySecurityStatus :: "meta_api \<Rightarrow> NTNSlice \<Rightarrow> NTNSlice" where
  "applySecurityStatus M ns =
     (case Security (ns_Spec ns) of
        None \<Rightarrow> remove_cond M ConditionSecured (map_status (\<lambda>s. s\<lparr>AppliedEncryption := ''''\<rparr>) ns)
      | Some sec \<Rightarrow>
          set_cond M (mkCond ConditionSecured ConditionTrue ''SecurityConfigured''
              [Lit ''Encryption: '', Lit (EncryptionLevel sec), Lit '', handover auth: '', Lit (AuthOnHandover sec)]
              (ns_Generation ns))
            (map_status (\<lambda>s. s\<lparr>AppliedEncryption := EncryptionLevel sec\<rparr>) ns))"

definition applyBillingStatus :: "meta_api \<Rightarrow> NTNSlice \<Rightarrow> string \<Rightarrow> NTNSlice" where
  "applyBillingStatus M ns activePath =
     (case Billing (ns_Spec ns) of
        None \<Rightarrow> remove_cond M ConditionBillingActive (map_status (\<lambda>s. s\<lparr>BillingMode := ''''\<rparr>) ns)
      | Some b \<Rightarrow>
          (let mode = (if activePath = PathSatellite then SatelliteRate b else TerrestrialRate b)
           in set_cond M (mkCond ConditionBillingActive ConditionTrue ''BillingConfigured''
                  [Lit ''Billing mode: '', Lit mode, Lit '' ('', Lit activePath, Lit '' path)''] (ns_Generation ns))
                (map_status (\<lambda>s. s\<lparr>BillingMode := mode\<rparr>) ns)))"

section \<open>Finalizer and watches\<close>

definition sliceMetricsFinalizer :: string where
  "sliceMetricsFinalizer = ''ntn.operators.dev/metrics-cleanup''"

definition ephemerisMetricReferenced :: "NTNSlice list result \<Rightarrow> string \<Rightarrow> UID \<Rightarrow> bool result" where
  "ephemerisMetricReferenced listing ephemerisRef deleting =
     (case listing of
        Inl e \<Rightarrow> Inl e
      | Inr items \<Rightarrow> Inr (list_ex (\<lambda>s. \<not> (ns_UID s = deleting \<or> om_DeletionTimestamp (ns_Meta s) \<noteq> None)
            \<and> EphemerisRef (SatellitePath (ns_Spec s)) = ephemerisRef) items))"

text \<open>The state, the slice, the effects, and the early return (\<open>done\<close> with its error) if any.\<close>

definition handleSliceFinalizer :: "'p NTNSliceReconciler \<Rightarrow> slice_io \<Rightarrow> NTNSlice
    \<Rightarrow> 'p NTNSliceReconciler \<times> NTNSlice \<times> effect list \<times> gerror option option" where
  "handleSliceFinalizer r io ns =
     (if om_DeletionTimestamp (ns_Meta ns) \<noteq> None then
        (let r1 = dropFlapState r (ns_Key ns) in
         if sliceMetricsFinalizer \<in> set (om_Finalizers (ns_Meta ns)) then
           (let nspc = om_Namespace (ns_Meta ns); ref = EphemerisRef (SatellitePath (ns_Spec ns));
                e1 = [DeleteFailoverTotal nspc (om_Name (ns_Meta ns))] in
            case ephemerisMetricReferenced (io_list io) ref (ns_UID ns) of
              Inl err \<Rightarrow> (r1, ns, e1, Some (Some err))
            | Inr shared \<Rightarrow>
                (let e2 = e1 @ (if shared then [] else [DeletePassAvailable nspc ref]);
                     ns1 = ns\<lparr>ns_Meta := RemoveFinalizer sliceMetricsFinalizer (ns_Meta ns)\<rparr>
                 in (r1, ns1, e2 @ [UpdateObject ns1], Some (io_update io))))
         else (r1, ns, [], Some None))
      else if sliceMetricsFinalizer \<notin> set (om_Finalizers (ns_Meta ns)) then
        (let ns1 = ns\<lparr>ns_Meta := AddFinalizer sliceMetricsFinalizer (ns_Meta ns)\<rparr>
         in (r, ns1, [UpdateObject ns1], map_option Some (io_update io)))
      else (r, ns, [], None))"

definition ephemerisToSlice :: "SatelliteEphemeris \<Rightarrow> NTNSlice list result \<Rightarrow> NamespacedName list" where
  "ephemerisToSlice eph listing =
     (case listing of
        Inl _ \<Rightarrow> []
      | Inr items \<Rightarrow> map ns_Key (filter (\<lambda>s. EphemerisRef (SatellitePath (ns_Spec s)) = om_Name (eph_Meta eph)) items))"

section \<open>The reconcile loop\<close>

text \<open>The hysteresis margin of the spec: 0 when absent, unparsable, not finite or negative.\<close>

definition parseMargin :: "string \<Rightarrow> f64" where
  "parseMargin s =
     (if s = '''' then Fin 0
      else case ParseFloat s of
          Inl _ \<Rightarrow> Fin 0
        | Inr v \<Rightarrow> if IsNaN v \<or> IsInf v \<or> f64_less v (Fin 0) then Fin 0 else v)"

definition antiFlapConfig :: "FailoverPolicy \<Rightarrow> AntiFlapConfig" where
  "antiFlapConfig p = \<lparr>ConfirmationSamples = (case fp_ConfirmationSamples p of Some n \<Rightarrow> n | None \<Rightarrow> 0),
     MinTerrestrialDwell = fp_MinTerrestrialDwell p\<rparr>"

definition currentPathOf :: "NTNSlice \<Rightarrow> PathType" where
  "currentPathOf ns = (if ActivePathType (ns_Status ns) = '''' then PathTerrestrial else ActivePathType (ns_Status ns))"

text \<open>Step 3b: the conditions on contact and triggers.\<close>

definition reportReadiness :: "meta_api \<Rightarrow> NTNSlice \<Rightarrow> quality \<Rightarrow> contactEval \<Rightarrow> NTNSlice \<times> deferredEvent list" where
  "reportReadiness M ns q contact =
     (if ql_reliable q then
        (let c = (failoverReadyCondition contact)\<lparr>cond_ObservedGeneration := ns_Generation ns\<rparr>;
             ns1 = map_status (\<lambda>s. s\<lparr>st_ContactCandidate := candidate contact\<rparr>) (set_cond M c ns)
         in reportInertTriggers M ns1 (InertTriggers (Triggers (spec_FailoverPolicy (ns_Spec ns))) (ql_metrics q)))
      else
        (set_cond M (mkCond ConditionTriggersReady ConditionUnknown ''MetricsUnavailable''
           [Lit ''Trigger sourcing cannot be evaluated while path-quality metrics are unreliable'']
           (ns_Generation ns)) ns, []))"

text \<open>Step 4: the decision. The anti-flap state to commit is returned, not stored.\<close>

definition decide :: "'p NTNSliceReconciler \<Rightarrow> NTNSlice \<Rightarrow> quality \<Rightarrow> contactEval \<Rightarrow> time
    \<Rightarrow> 'p NTNSliceReconciler \<times> NTNSlice \<times> FailoverResult \<times> AntiFlapState option" where
  "decide r ns q contact now =
     (let currentPath = currentPathOf ns; pol = spec_FailoverPolicy (ns_Spec ns) in
      if \<not> known contact then
        (resetRecoveryStreak r (ns_Key ns), ns,
         mkResult DecisionStay currentPath [Lit ''SatelliteAvailabilityUnknown''], None)
      else if ql_reliable q then
        (let (r1, af) = loadFlapState r (ns_Key ns) (ns_UID ns) (ns_Generation ns);
             (af1, ns1) = seedLastSwitchbackFromStatus af ns now;
             (result, newFlap) = EvaluateFailoverWithAntiFlap currentPath (Triggers pol) (ql_metrics q)
               (ql_observedAt q) (available contact) (SwitchbackDelay pol) now (parseMargin (HysteresisMargin pol))
               (antiFlapConfig pol) af1
         in (r1, persistLastSwitchbackToStatus ns1 (LastSwitchback newFlap) now, result, Some newFlap))
      else
        (resetRecoveryStreak r (ns_Key ns), ns, EvaluateSafeHold currentPath (available contact), None))"

definition decisionReason :: "Decision \<Rightarrow> string" where
  "decisionReason d = (case d of DecisionStay \<Rightarrow> ''Stay'' | DecisionFailover \<Rightarrow> ''Failover''
     | DecisionSwitchback \<Rightarrow> ''Switchback'')"

text \<open>Steps 5 and 6: the decision applied to the status, and the PathActive condition.\<close>

definition applyDecision :: "meta_api \<Rightarrow> NTNSlice \<Rightarrow> FailoverResult \<Rightarrow> time \<Rightarrow> NTNSlice" where
  "applyDecision M ns result now =
     (let ns1 = map_status (\<lambda>s. s\<lparr>ActivePathType := TargetPath result\<rparr>) ns;
          ns2 = (if Decision result = DecisionFailover
                 then map_status (\<lambda>s. s\<lparr>FailoverCount := FailoverCount s + 1, LastFailover := Some now\<rparr>) ns1
                 else ns1);
          gone = TargetPath result = PathUnavailable
      in set_cond M (mkCond ConditionPathActive (if gone then ConditionFalse else ConditionTrue)
             (if gone then ''Unavailable'' else decisionReason (Decision result))
             ([Lit ''Active on '', Lit (ActivePathType (ns_Status ns2)), Lit '' path: ''] @ Reason result)
             (ns_Generation ns2)) ns2)"

text \<open>Step 7.\<close>

definition applyDerived :: "meta_api \<Rightarrow> NTNSlice \<Rightarrow> NTNSlice" where
  "applyDerived M ns =
     (let activePath = ActivePathType (ns_Status ns)
      in applyBillingStatus M (applySecurityStatus M (applyQoSStatus M ns activePath)) activePath)"

text \<open>Step 8: whether a status write is attempted, and its error.\<close>

definition persistStatusIfChanged :: "slice_io \<Rightarrow> NTNSlice \<Rightarrow> NTNSliceStatus \<Rightarrow> deferredEvent list
    \<Rightarrow> effect list \<times> gerror option" where
  "persistStatusIfChanged io ns oldStatus pending =
     (if oldStatus = ns_Status ns \<and> pending = [] then ([], None) else ([UpdateStatus ns], io_status io))"

definition decisionEvents :: "PathType \<Rightarrow> FailoverResult \<Rightarrow> deferredEvent list" where
  "decisionEvents previousPath result =
     (case Decision result of
        DecisionFailover \<Rightarrow> [\<lparr>ev_type = ''Warning'', ev_reason = ''FailoverTriggered'',
          ev_message = [Lit ''Failover from '', Lit previousPath, Lit '' to '', Lit (TargetPath result), Lit '': '']
            @ Reason result\<rparr>]
      | DecisionSwitchback \<Rightarrow> [\<lparr>ev_type = ''Normal'', ev_reason = ''Switchback'',
          ev_message = [Lit ''Switched back from '', Lit previousPath, Lit '' to '', Lit (TargetPath result), Lit '': '']
            @ Reason result\<rparr>]
      | DecisionStay \<Rightarrow> [])"

text \<open>Steps 2 to 7: everything before the status write.\<close>

record 'p evaluation =
  ev_rec :: "'p NTNSliceReconciler"
  ev_slice :: NTNSlice
  ev_pending :: "deferredEvent list"
  ev_series :: "effect list"
  ev_result :: FailoverResult
  ev_flap :: "AntiFlapState option"

definition evaluate :: "meta_api \<Rightarrow> ('p, 'r) reader_ops \<Rightarrow> slice_io \<Rightarrow> 'p NTNSliceReconciler \<Rightarrow> NTNSlice \<Rightarrow> 'p evaluation" where
  "evaluate M R io r ns =
     (let now = io_now io;
          (p1, ops, ns1, pending1, q) = readPathQuality M R (ReaderProvider r) ns now;
          r1 = r\<lparr>ReaderProvider := p1\<rparr>;
          contact = checkSatelliteAvailability M (io_eph io) now;
          (ns2, pending2) = reportReadiness M ns1 q contact;
          (r2, ns3, result, flap) = decide r1 ns2 q contact now;
          ns4 = applyDerived M (applyDecision M ns3 result now);
          gauge = (if known contact
                   then [SetPassAvailable (om_Namespace (ns_Meta ns)) (EphemerisRef (SatellitePath (ns_Spec ns)))
                           (if available contact then 1 else 0)]
                   else [])
      in \<lparr>ev_rec = r2, ev_slice = ns4, ev_pending = pending1 @ pending2,
          ev_series = ReaderSeries ops # gauge, ev_result = result, ev_flap = flap\<rparr>)"

text \<open>Step 8 and after: the status write, and what is committed only once it succeeded.\<close>

definition commit :: "slice_io \<Rightarrow> NTNSlice \<Rightarrow> 'p evaluation \<Rightarrow> 'p NTNSliceReconciler \<times> effect list \<times> duration result" where
  "commit io old ev =
     (let ns = ev_slice ev; result = ev_result ev; previousPath = currentPathOf old;
          (writes, err) = persistStatusIfChanged io ns (ns_Status old) (ev_pending ev)
      in case err of
           Some e \<Rightarrow> (ev_rec ev, ev_series ev @ writes, Inl e)
         | None \<Rightarrow>
             (let r = (case ev_flap ev of
                         Some st \<Rightarrow> storeFlapState (ev_rec ev) (ns_Key ns) (ns_UID ns) (ns_Generation ns) st
                       | None \<Rightarrow> ev_rec ev);
                  counter = (if Decision result = DecisionFailover
                             then [IncFailoverTotal (om_Namespace (ns_Meta ns)) (om_Name (ns_Meta ns)) previousPath
                                     (TargetPath result)] else []);
                  evs = (if io_recorder io then map EmitEvent (decisionEvents previousPath result @ ev_pending ev)
                         else [])
              in (r, ev_series ev @ writes @ counter @ evs, Inr sliceRequeueInterval)))"

text \<open>A result of 0 is \<open>ctrl.Result{}\<close>: no requeue.\<close>

definition Reconcile :: "meta_api \<Rightarrow> ('p, 'r) reader_ops \<Rightarrow> slice_io \<Rightarrow> NamespacedName \<Rightarrow> 'p NTNSliceReconciler
    \<Rightarrow> 'p NTNSliceReconciler \<times> effect list \<times> duration result" where
  "Reconcile M R io req r =
     (case io_get io of
        NotFound \<Rightarrow>
          (let (p, ops) = op_Evict R (ReaderProvider r) req
           in (dropFlapState (r\<lparr>ReaderProvider := p\<rparr>) req, [ReaderSeries ops], Inr 0))
      | GetError e \<Rightarrow> (r, [], Inl e)
      | Found ns \<Rightarrow>
          (let (r1, ns1, effs, done) = handleSliceFinalizer r io ns
           in case done of
                Some (Some e) \<Rightarrow> (r1, effs, Inl e)
              | Some None \<Rightarrow> (r1, effs, Inr 0)
              | None \<Rightarrow>
                  (case commit io ns1 (evaluate M R io r1 ns1) of
                     (r2, effs2, res) \<Rightarrow> (r2, effs @ effs2, res))))"

end
