(* ===== verification/Slice_Laws.thy ===== *)
theory Slice_Laws
  imports Slice_Controller
begin

text \<open>
  What the NTNSlice controller guarantees: the path only changes on evidence, side effects follow the
  status write that makes them durable, the minimum dwell survives a restart, anti-flap state belongs to
  one object and one spec generation, and the reported contact is exactly the earliest deliverable pass.
\<close>

section \<open>Frames\<close>

text \<open>A slice without what the reporting steps write: the conditions and the contact candidate.\<close>

definition frame :: "NTNSlice \<Rightarrow> NTNSlice" where
  "frame = map_status (\<lambda>s. s\<lparr>st_Conditions := [], st_ContactCandidate := None\<rparr>)"

lemma frame_set_cond [simp]: "frame (set_cond M c ns) = frame ns"
  by (simp add: frame_def set_cond_def map_status_def)

lemma frame_candidate [simp]: "frame (map_status (\<lambda>s. s\<lparr>st_ContactCandidate := x\<rparr>) ns) = frame ns"
  by (simp add: frame_def map_status_def)

lemma frame_fields:
  "ns_Meta (frame a) = ns_Meta a" "ns_Spec (frame a) = ns_Spec a"
  "ActivePathType (ns_Status (frame a)) = ActivePathType (ns_Status a)"
  "LastFailover (ns_Status (frame a)) = LastFailover (ns_Status a)"
  "LastSwitchbackTime (ns_Status (frame a)) = LastSwitchbackTime (ns_Status a)"
  "FailoverCount (ns_Status (frame a)) = FailoverCount (ns_Status a)"
  "SessionCount (ns_Status (frame a)) = SessionCount (ns_Status a)"
  by (simp_all add: frame_def)

lemma frame_eqD:
  assumes "frame a = frame b"
  shows "ns_Meta a = ns_Meta b" "ns_Spec a = ns_Spec b"
    "ActivePathType (ns_Status a) = ActivePathType (ns_Status b)"
    "LastFailover (ns_Status a) = LastFailover (ns_Status b)"
    "LastSwitchbackTime (ns_Status a) = LastSwitchbackTime (ns_Status b)"
    "FailoverCount (ns_Status a) = FailoverCount (ns_Status b)"
    "SessionCount (ns_Status a) = SessionCount (ns_Status b)"
  using arg_cong [OF assms, of ns_Meta] arg_cong [OF assms, of ns_Spec]
    arg_cong [OF assms, of "\<lambda>n. ActivePathType (ns_Status n)"]
    arg_cong [OF assms, of "\<lambda>n. LastFailover (ns_Status n)"]
    arg_cong [OF assms, of "\<lambda>n. LastSwitchbackTime (ns_Status n)"]
    arg_cong [OF assms, of "\<lambda>n. FailoverCount (ns_Status n)"]
    arg_cong [OF assms, of "\<lambda>n. SessionCount (ns_Status n)"]
  by (simp_all add: frame_fields)

lemma frame_currentPath: "frame a = frame b \<Longrightarrow> currentPathOf a = currentPathOf b"
  using frame_eqD(3) [of a b] by (simp add: currentPathOf_def)

lemma setMetricsDegraded_frame [simp]: "frame (setMetricsDegraded M ns reason m) = frame ns"
  by (simp add: setMetricsDegraded_def Let_def)

lemma acceptResult_frame [simp]: "frame (fst (acceptResult M ns now rr)) = frame ns"
  by (simp add: acceptResult_def Let_def)

text \<open>The outcomes of \<open>readPathQuality\<close>.\<close>

lemma readPathQuality_cases:
  assumes "readPathQuality M R p ns now = (p', ops, ns', pending, q)"
  obtains (build) err reason where "op_For R p ns = (p', Inl err)" "q = unreliable" "pending = []"
      "ns' = setMetricsDegraded M ns reason (err_msg err)"
    | (read) p1 rd err reason where "op_For R p ns = (p1, Inr rd)" "op_Read R p1 rd ns = (p', ops, Inl err)"
        "q = unreliable" "pending = []" "ns' = setMetricsDegraded M ns reason (err_msg err)"
    | (accept) p1 rd rr where "op_For R p ns = (p1, Inr rd)" "op_Read R p1 rd ns = (p', ops, Inr rr)"
        "acceptResult M ns now rr = (ns', pending, q)"
proof -
  obtain p1 f where f: "op_For R p ns = (p1, f)" by (cases "op_For R p ns")
  show ?thesis
  proof (cases f)
    case (Inl err)
    with f assms show ?thesis by (intro build [of err]) (auto simp: readPathQuality_def)
  next
    case (Inr rd)
    obtain p2 o2 g where g: "op_Read R p1 rd ns = (p2, o2, g)" by (cases "op_Read R p1 rd ns")
    show ?thesis
    proof (cases g)
      case (Inl err)
      with f g Inr assms show ?thesis by (intro read [of p1 rd err]) (auto simp: readPathQuality_def)
    next
      case rr: (Inr rr)
      obtain a b c where "acceptResult M ns now rr = (a, b, c)" by (cases "acceptResult M ns now rr")
      with f g Inr rr assms show ?thesis by (intro accept [of p1 rd rr]) (auto simp: readPathQuality_def)
    qed
  qed
qed

lemma readPathQuality_frame:
  assumes "readPathQuality M R p ns now = (p', ops, ns', pending, q)"
  shows "frame ns' = frame ns"
  using assms
proof (cases rule: readPathQuality_cases)
  case (accept p1 rd rr)
  then show ?thesis using acceptResult_frame [of M ns now rr] by simp
qed simp_all

lemma reportInertTriggers_frame [simp]: "frame (fst (reportInertTriggers M ns inert)) = frame ns"
  by (simp add: reportInertTriggers_def Let_def)

lemma reportReadiness_frame [simp]: "frame (fst (reportReadiness M ns q contact)) = frame ns"
  by (simp add: reportReadiness_def Let_def)

text \<open>What an evaluation is made of: the quality, the contact, the reported slice and the decision.\<close>

lemma evaluate_parts:
  obtains p1 ops ns1 pending1 q ns2 pending2 r2 ns3 where
    "readPathQuality M R (ReaderProvider r) ns (io_now io) = (p1, ops, ns1, pending1, q)"
    "reportReadiness M ns1 q (checkSatelliteAvailability M (io_eph io) (io_now io)) = (ns2, pending2)"
    "decide (r\<lparr>ReaderProvider := p1\<rparr>) ns2 q (checkSatelliteAvailability M (io_eph io) (io_now io)) (io_now io)
       = (r2, ns3, ev_result (evaluate M R io r ns), ev_flap (evaluate M R io r ns))"
    "frame ns2 = frame ns"
    "ev_rec (evaluate M R io r ns) = r2" "ev_pending (evaluate M R io r ns) = pending1 @ pending2"
    "ev_slice (evaluate M R io r ns) = applyDerived M (applyDecision M ns3 (ev_result (evaluate M R io r ns)) (io_now io))"
proof -
  let ?c = "checkSatelliteAvailability M (io_eph io) (io_now io)"
  obtain p1 ops ns1 pending1 q where a: "readPathQuality M R (ReaderProvider r) ns (io_now io) = (p1, ops, ns1, pending1, q)"
    by (cases "readPathQuality M R (ReaderProvider r) ns (io_now io)")
  obtain ns2 pending2 where b: "reportReadiness M ns1 q ?c = (ns2, pending2)" by (cases "reportReadiness M ns1 q ?c")
  obtain r2 ns3 result flap where d: "decide (r\<lparr>ReaderProvider := p1\<rparr>) ns2 q ?c (io_now io) = (r2, ns3, result, flap)"
    by (cases "decide (r\<lparr>ReaderProvider := p1\<rparr>) ns2 q ?c (io_now io)")
  have "frame ns2 = frame ns"
    using readPathQuality_frame [OF a] reportReadiness_frame [of M ns1 q ?c] b by simp
  then show ?thesis by (intro that [OF a b]) (simp_all add: evaluate_def Let_def a b d)
qed

section \<open>The status after an evaluation\<close>

lemma applyDerived_simps [simp]:
  "ns_Meta (applyDerived M ns) = ns_Meta ns" "ns_Spec (applyDerived M ns) = ns_Spec ns"
  "ActivePathType (ns_Status (applyDerived M ns)) = ActivePathType (ns_Status ns)"
  "LastFailover (ns_Status (applyDerived M ns)) = LastFailover (ns_Status ns)"
  "LastSwitchbackTime (ns_Status (applyDerived M ns)) = LastSwitchbackTime (ns_Status ns)"
  "FailoverCount (ns_Status (applyDerived M ns)) = FailoverCount (ns_Status ns)"
  "st_ContactCandidate (ns_Status (applyDerived M ns)) = st_ContactCandidate (ns_Status ns)"
  by (simp_all add: applyDerived_def applyBillingStatus_def applySecurityStatus_def applyQoSStatus_def Let_def
      split: option.splits)

lemma applyDecision_simps [simp]:
  "ns_Meta (applyDecision M ns res now) = ns_Meta ns" "ns_Spec (applyDecision M ns res now) = ns_Spec ns"
  "ActivePathType (ns_Status (applyDecision M ns res now)) = TargetPath res"
  "FailoverCount (ns_Status (applyDecision M ns res now)) =
     FailoverCount (ns_Status ns) + (if Decision res = DecisionFailover then 1 else 0)"
  "LastFailover (ns_Status (applyDecision M ns res now)) =
     (if Decision res = DecisionFailover then Some now else LastFailover (ns_Status ns))"
  "LastSwitchbackTime (ns_Status (applyDecision M ns res now)) = LastSwitchbackTime (ns_Status ns)"
  by (simp_all add: applyDecision_def Let_def)

lemma seed_simps:
  assumes "seedLastSwitchbackFromStatus af ns now = (af', ns')"
  shows "ns_Meta ns' = ns_Meta ns" "ns_Spec ns' = ns_Spec ns"
    "FailoverCount (ns_Status ns') = FailoverCount (ns_Status ns)"
    "LastFailover (ns_Status ns') = LastFailover (ns_Status ns)"
    "ActivePathType (ns_Status ns') = ActivePathType (ns_Status ns)"
  using assms by (auto simp: seedLastSwitchbackFromStatus_def split: option.splits if_splits)

lemma persist_simps [simp]:
  "ns_Meta (persistLastSwitchbackToStatus ns l now) = ns_Meta ns"
  "ns_Spec (persistLastSwitchbackToStatus ns l now) = ns_Spec ns"
  "FailoverCount (ns_Status (persistLastSwitchbackToStatus ns l now)) = FailoverCount (ns_Status ns)"
  "LastFailover (ns_Status (persistLastSwitchbackToStatus ns l now)) = LastFailover (ns_Status ns)"
  by (simp_all add: persistLastSwitchbackToStatus_def)

text \<open>The three ways to decide.\<close>

lemma decide_cases:
  assumes "decide r ns q contact now = (r', ns', result, flap)"
  obtains (unknown) "\<not> known contact" "r' = resetRecoveryStreak r (ns_Key ns)" "ns' = ns" "flap = None"
      "result = mkResult DecisionStay (currentPathOf ns) [Lit ''SatelliteAvailabilityUnknown'']"
    | (engine) af af1 ns1 newFlap where "known contact" "ql_reliable q"
        "loadFlapState r (ns_Key ns) (ns_UID ns) (ns_Generation ns) = (r', af)"
        "seedLastSwitchbackFromStatus af ns now = (af1, ns1)"
        "EvaluateFailoverWithAntiFlap (currentPathOf ns) (Triggers (spec_FailoverPolicy (ns_Spec ns)))
           (ql_metrics q) (ql_observedAt q) (available contact) (SwitchbackDelay (spec_FailoverPolicy (ns_Spec ns)))
           now (parseMargin (HysteresisMargin (spec_FailoverPolicy (ns_Spec ns))))
           (antiFlapConfig (spec_FailoverPolicy (ns_Spec ns))) af1 = (result, newFlap)"
        "ns' = persistLastSwitchbackToStatus ns1 (LastSwitchback newFlap) now" "flap = Some newFlap"
    | (hold) "known contact" "\<not> ql_reliable q" "r' = resetRecoveryStreak r (ns_Key ns)" "ns' = ns" "flap = None"
        "result = EvaluateSafeHold (currentPathOf ns) (available contact)"
proof -
  consider "\<not> known contact" | "known contact" "ql_reliable q" | "known contact" "\<not> ql_reliable q" by blast
  then show ?thesis
  proof cases
    case 1
    with assms show ?thesis by (intro unknown) (auto simp: decide_def Let_def)
  next
    case 2
    obtain r1 af where l: "loadFlapState r (ns_Key ns) (ns_UID ns) (ns_Generation ns) = (r1, af)"
      by (cases "loadFlapState r (ns_Key ns) (ns_UID ns) (ns_Generation ns)")
    obtain af1 ns1 where s: "seedLastSwitchbackFromStatus af ns now = (af1, ns1)"
      by (cases "seedLastSwitchbackFromStatus af ns now")
    let ?e = "EvaluateFailoverWithAntiFlap (currentPathOf ns) (Triggers (spec_FailoverPolicy (ns_Spec ns)))
           (ql_metrics q) (ql_observedAt q) (available contact) (SwitchbackDelay (spec_FailoverPolicy (ns_Spec ns)))
           now (parseMargin (HysteresisMargin (spec_FailoverPolicy (ns_Spec ns))))
           (antiFlapConfig (spec_FailoverPolicy (ns_Spec ns))) af1"
    obtain res nf where e: "?e = (res, nf)" by (cases ?e)
    from 2 l s e assms show ?thesis by (intro engine [of af af1 ns1 nf]) (simp_all add: decide_def Let_def)
  next
    case 3
    with assms show ?thesis by (intro hold) (auto simp: decide_def Let_def)
  qed
qed

lemma decide_keeps:
  assumes "decide r ns q contact now = (r', ns', result, flap)"
  shows "ns_Meta ns' = ns_Meta ns \<and> ns_Spec ns' = ns_Spec ns
    \<and> FailoverCount (ns_Status ns') = FailoverCount (ns_Status ns)
    \<and> LastFailover (ns_Status ns') = LastFailover (ns_Status ns)"
  using assms by (cases rule: decide_cases) (auto dest: seed_simps)

lemma evaluate_status:
  assumes e: "e = evaluate M R io r ns"
  shows "ns_Meta (ev_slice e) = ns_Meta ns \<and> ns_Spec (ev_slice e) = ns_Spec ns
    \<and> ActivePathType (ns_Status (ev_slice e)) = TargetPath (ev_result e)
    \<and> FailoverCount (ns_Status (ev_slice e)) =
        FailoverCount (ns_Status ns) + (if Decision (ev_result e) = DecisionFailover then 1 else 0)
    \<and> LastFailover (ns_Status (ev_slice e)) =
        (if Decision (ev_result e) = DecisionFailover then Some (io_now io) else LastFailover (ns_Status ns))"
proof -
  obtain p1 ops ns1 pending1 q ns2 pending2 r2 ns3 where
    d: "decide (r\<lparr>ReaderProvider := p1\<rparr>) ns2 q (checkSatelliteAvailability M (io_eph io) (io_now io)) (io_now io)
       = (r2, ns3, ev_result e, ev_flap e)"
    and f: "frame ns2 = frame ns"
    and s: "ev_slice e = applyDerived M (applyDecision M ns3 (ev_result e) (io_now io))"
    unfolding e by (rule evaluate_parts [of M R r ns io])
  from decide_keeps [OF d] frame_eqD [OF f] s show ?thesis by simp
qed

section \<open>Decisions\<close>

text \<open>The quality an evaluation reads, and the contact it computes.\<close>

definition quality_of :: "meta_api \<Rightarrow> ('p, 'r) reader_ops \<Rightarrow> slice_io \<Rightarrow> 'p NTNSliceReconciler \<Rightarrow> NTNSlice \<Rightarrow> quality" where
  "quality_of M R io r ns = (case readPathQuality M R (ReaderProvider r) ns (io_now io) of (_, _, _, _, q) \<Rightarrow> q)"

abbreviation contact_of :: "meta_api \<Rightarrow> slice_io \<Rightarrow> contactEval" where
  "contact_of M io \<equiv> checkSatelliteAvailability M (io_eph io) (io_now io)"

text \<open>The contract of \<open>decide\<close>, from the contracts of the two engines it calls.\<close>

lemma decide_contract:
  assumes "decide r ns q contact now = (r', ns', result, flap)"
  shows "(Decision result = DecisionFailover \<longrightarrow> known contact \<and> available contact \<and> ql_reliable q
        \<and> TargetPath result = PathSatellite \<and> currentPathOf ns \<noteq> PathSatellite)
    \<and> (Decision result = DecisionSwitchback \<longrightarrow> known contact \<and> TargetPath result = PathTerrestrial
        \<and> currentPathOf ns \<noteq> PathTerrestrial)
    \<and> (Decision result = DecisionStay \<longrightarrow> TargetPath result \<in> {currentPathOf ns, normalizePath (currentPathOf ns)})
    \<and> (TargetPath result = PathSatellite \<and> known contact \<longrightarrow> available contact)
    \<and> (known contact \<and> \<not> available contact \<and> currentPathOf ns = PathSatellite \<longrightarrow> TargetPath result = PathTerrestrial)"
  using assms
proof (cases rule: decide_cases)
  case (engine af af1 ns1 newFlap)
  let ?E = "\<lambda>p a. fst (EvaluateFailoverWithAntiFlap p (Triggers (spec_FailoverPolicy (ns_Spec ns)))
           (ql_metrics q) (ql_observedAt q) a (SwitchbackDelay (spec_FailoverPolicy (ns_Spec ns)))
           now (parseMargin (HysteresisMargin (spec_FailoverPolicy (ns_Spec ns))))
           (antiFlapConfig (spec_FailoverPolicy (ns_Spec ns))) af1)"
  have r: "result = ?E (currentPathOf ns) (available contact)" using engine by simp
  have "Decision result = DecisionFailover \<Longrightarrow> TargetPath result = PathSatellite \<and> currentPathOf ns \<noteq> PathSatellite"
    unfolding r using antiflap.failover normalizePath_sat by blast
  moreover from this have "Decision result = DecisionFailover \<Longrightarrow> available contact"
    unfolding r using antiflap.no_black_hole by blast
  moreover have "Decision result = DecisionSwitchback \<Longrightarrow> TargetPath result = PathTerrestrial \<and> currentPathOf ns \<noteq> PathTerrestrial"
    unfolding r using antiflap.switchback normalizePath_simps(1) by metis
  moreover have "Decision result = DecisionStay \<Longrightarrow> TargetPath result = normalizePath (currentPathOf ns)"
    unfolding r by (rule antiflap.stay)
  moreover have "TargetPath result = PathSatellite \<Longrightarrow> available contact"
    unfolding r using antiflap.no_black_hole by blast
  moreover have "\<not> available contact \<Longrightarrow> currentPathOf ns = PathSatellite \<Longrightarrow> TargetPath result = PathTerrestrial"
    unfolding r using antiflap.orbital by metis
  ultimately show ?thesis using engine(1,2) by blast
next
  case hold
  let ?r = "EvaluateSafeHold (currentPathOf ns) (available contact)"
  have "Decision ?r \<noteq> DecisionFailover" by (simp add: EvaluateSafeHold_def Let_def)
  moreover have "Decision ?r = DecisionSwitchback \<Longrightarrow> TargetPath ?r = PathTerrestrial \<and> currentPathOf ns \<noteq> PathTerrestrial"
    using safehold.switchback normalizePath_simps(1) by metis
  moreover have "Decision ?r = DecisionStay \<Longrightarrow> TargetPath ?r = normalizePath (currentPathOf ns)"
    by (rule safehold.stay)
  moreover have "TargetPath ?r = PathSatellite \<Longrightarrow> available contact" using safehold.no_black_hole by blast
  moreover have "\<not> available contact \<Longrightarrow> currentPathOf ns = PathSatellite \<Longrightarrow> TargetPath ?r = PathTerrestrial"
    using safehold.orbital by metis
  ultimately show ?thesis using hold(1,6) by blast
qed simp

text \<open>An evaluation decides on the path of the slice, with the quality and contact it read.\<close>

lemma evaluate_decides:
  assumes e: "e = evaluate M R io r ns"
  obtains p1 ns2 r2 ns3 where
    "decide (r\<lparr>ReaderProvider := p1\<rparr>) ns2 (quality_of M R io r ns) (contact_of M io) (io_now io)
       = (r2, ns3, ev_result e, ev_flap e)"
    "frame ns2 = frame ns" "ev_rec e = r2" "currentPathOf ns2 = currentPathOf ns" "ns_Meta ns2 = ns_Meta ns"
    "ns_Spec ns2 = ns_Spec ns" "LastSwitchbackTime (ns_Status ns2) = LastSwitchbackTime (ns_Status ns)"
    "ev_slice e = applyDerived M (applyDecision M ns3 (ev_result e) (io_now io))"
proof -
  obtain p1 ops ns1 pending1 q ns2 pending2 r2 ns3 where
    a: "readPathQuality M R (ReaderProvider r) ns (io_now io) = (p1, ops, ns1, pending1, q)"
    and d: "decide (r\<lparr>ReaderProvider := p1\<rparr>) ns2 q (contact_of M io) (io_now io) = (r2, ns3, ev_result e, ev_flap e)"
    and f: "frame ns2 = frame ns" and r: "ev_rec e = r2"
    and s: "ev_slice e = applyDerived M (applyDecision M ns3 (ev_result e) (io_now io))"
    unfolding e by (rule evaluate_parts [of M R r ns io])
  from a have "quality_of M R io r ns = q" by (simp add: quality_of_def)
  with d have "decide (r\<lparr>ReaderProvider := p1\<rparr>) ns2 (quality_of M R io r ns) (contact_of M io) (io_now io)
      = (r2, ns3, ev_result e, ev_flap e)" by simp
  then show ?thesis by (rule that [OF _ f r frame_currentPath [OF f] frame_eqD(1,2,5) [OF f] s])
qed

section \<open>The shape of a reconcile\<close>

definition with_finalizer :: "NTNSlice \<Rightarrow> NTNSlice" where
  "with_finalizer ns = ns\<lparr>ns_Meta := AddFinalizer sliceMetricsFinalizer (ns_Meta ns)\<rparr>"

lemma with_finalizer_simps [simp]:
  "ns_Spec (with_finalizer ns) = ns_Spec ns" "ns_Status (with_finalizer ns) = ns_Status ns"
  "ns_UID (with_finalizer ns) = ns_UID ns" "ns_Generation (with_finalizer ns) = ns_Generation ns"
  "om_Name (ns_Meta (with_finalizer ns)) = om_Name (ns_Meta ns)"
  "om_Namespace (ns_Meta (with_finalizer ns)) = om_Namespace (ns_Meta ns)"
  "ns_Key (with_finalizer ns) = ns_Key ns" "currentPathOf (with_finalizer ns) = currentPathOf ns"
  by (simp_all add: with_finalizer_def AddFinalizer_def ObjectKeyFromObject_def currentPathOf_def)

text \<open>Whether an effect announces a decision.\<close>

definition announces :: "effect \<Rightarrow> bool" where
  "announces e = (case e of IncFailoverTotal _ _ _ _ \<Rightarrow> True | EmitEvent _ \<Rightarrow> True | _ \<Rightarrow> False)"

definition is_status_write :: "effect \<Rightarrow> bool" where
  "is_status_write e = (case e of UpdateStatus _ \<Rightarrow> True | _ \<Rightarrow> False)"

text \<open>A reconcile either ends before the evaluation, with no status write and no announcement, or
  evaluates the slice and commits.\<close>

lemma Reconcile_cases:
  assumes "Reconcile M R io req r = (r', effs, res)"
  obtains (early) "\<forall>e\<in>set effs. \<not> announces e \<and> \<not> is_status_write e"
      "\<forall>k. flapState r' k = None \<or> flapState r' k = flapState r k"
    | (full) ns pre post where "io_get io = Found ns" "om_DeletionTimestamp (ns_Meta ns) = None"
        "commit io (with_finalizer ns) (evaluate M R io r (with_finalizer ns)) = (r', post, res)"
        "effs = pre @ post" "\<forall>e\<in>set pre. \<not> announces e \<and> \<not> is_status_write e"
proof (cases "io_get io")
  case (Found ns)
  obtain r1 ns1 pre d where h: "handleSliceFinalizer r io ns = (r1, ns1, pre, d)"
    by (cases "handleSliceFinalizer r io ns")
  have pre: "\<forall>e\<in>set pre. \<not> announces e \<and> \<not> is_status_write e"
    "\<forall>k. flapState r1 k = None \<or> flapState r1 k = flapState r k"
    using h by (auto simp: handleSliceFinalizer_def announces_def is_status_write_def dropFlapState_def Let_def
        split: if_splits sum.splits)
  show ?thesis
  proof (cases d)
    case None
    then have "r1 = r" "ns1 = with_finalizer ns" "om_DeletionTimestamp (ns_Meta ns) = None"
      using h by (auto simp: handleSliceFinalizer_def with_finalizer_def AddFinalizer_def Let_def
          split: if_splits sum.splits)
    moreover obtain r2 post res2 where "commit io ns1 (evaluate M R io r1 ns1) = (r2, post, res2)"
      by (cases "commit io ns1 (evaluate M R io r1 ns1)")
    ultimately show ?thesis using assms Found h None pre
      by (intro full [of ns post pre]) (auto simp: Reconcile_def)
  next
    case (Some x)
    then show ?thesis using assms Found h pre by (intro early) (auto simp: Reconcile_def split: option.splits)
  qed
next
  case NotFound
  then show ?thesis using assms
    by (intro early) (auto simp: Reconcile_def dropFlapState_def announces_def is_status_write_def split: prod.splits)
next
  case (GetError e)
  then show ?thesis using assms by (intro early) (auto simp: Reconcile_def)
qed

lemma not_unit_effect [simp]:
  "announces (IncFailoverTotal a b c d)" "announces (EmitEvent ev)" "\<not> announces (UpdateStatus ns)"
  "\<not> announces (SetPassAvailable a b i)" "\<not> announces (ReaderSeries ops)"
  "is_status_write (UpdateStatus ns)" "\<not> is_status_write (IncFailoverTotal a b c d)"
  "\<not> is_status_write (EmitEvent ev)" "\<not> is_status_write (SetPassAvailable a b i)"
  "\<not> is_status_write (ReaderSeries ops)"
  by (simp_all add: announces_def is_status_write_def)

lemma evaluate_series: "\<forall>e\<in>set (ev_series (evaluate M R io r ns)). \<not> announces e \<and> \<not> is_status_write e"
  by (auto simp: evaluate_def Let_def split: prod.splits)

text \<open>The effects of a commit: the series, then the status write if one is needed, then, if it
  succeeded, the announcements.\<close>

lemma commit_cases:
  assumes "commit io old ev = (r', effs, res)"
  obtains (skip) "ns_Status old = ns_Status (ev_slice ev)" "ev_pending ev = []"
      "res = Inr sliceRequeueInterval" "effs = ev_series ev @ (if Decision (ev_result ev) = DecisionFailover
         then [IncFailoverTotal (om_Namespace (ns_Meta (ev_slice ev))) (om_Name (ns_Meta (ev_slice ev)))
                 (currentPathOf old) (TargetPath (ev_result ev))] else [])
         @ (if io_recorder io then map EmitEvent (decisionEvents (currentPathOf old) (ev_result ev)) else [])"
      "r' = (case ev_flap ev of Some st \<Rightarrow> storeFlapState (ev_rec ev) (ns_Key (ev_slice ev)) (ns_UID (ev_slice ev))
                (ns_Generation (ev_slice ev)) st | None \<Rightarrow> ev_rec ev)"
    | (failed) e where "io_status io = Some e" "res = Inl e" "effs = ev_series ev @ [UpdateStatus (ev_slice ev)]"
        "r' = ev_rec ev"
    | (written) "io_status io = None" "res = Inr sliceRequeueInterval"
        "effs = ev_series ev @ UpdateStatus (ev_slice ev) # (if Decision (ev_result ev) = DecisionFailover
           then [IncFailoverTotal (om_Namespace (ns_Meta (ev_slice ev))) (om_Name (ns_Meta (ev_slice ev)))
                   (currentPathOf old) (TargetPath (ev_result ev))] else [])
           @ (if io_recorder io
              then map EmitEvent (decisionEvents (currentPathOf old) (ev_result ev) @ ev_pending ev) else [])"
        "r' = (case ev_flap ev of Some st \<Rightarrow> storeFlapState (ev_rec ev) (ns_Key (ev_slice ev)) (ns_UID (ev_slice ev))
                (ns_Generation (ev_slice ev)) st | None \<Rightarrow> ev_rec ev)"
proof (cases "ns_Status old = ns_Status (ev_slice ev) \<and> ev_pending ev = []")
  case True
  with assms show ?thesis by (intro skip) (auto simp: commit_def persistStatusIfChanged_def Let_def)
next
  case False
  show ?thesis
  proof (cases "io_status io")
    case None
    with False assms show ?thesis by (intro written) (auto simp: commit_def persistStatusIfChanged_def Let_def)
  next
    case (Some e)
    with False assms show ?thesis by (intro failed) (auto simp: commit_def persistStatusIfChanged_def Let_def)
  qed
qed

text \<open>A decision to switch changes the status, so it is never committed without a write.\<close>

lemma switch_changes_status:
  assumes e: "e = evaluate M R io r ns" and "ns_Status ns = ns_Status (ev_slice e)"
  shows "Decision (ev_result e) = DecisionStay"
proof -
  obtain p1 ns2 r2 ns3 where d: "decide (r\<lparr>ReaderProvider := p1\<rparr>) ns2 (quality_of M R io r ns) (contact_of M io) (io_now io)
       = (r2, ns3, ev_result e, ev_flap e)" and c: "currentPathOf ns2 = currentPathOf ns"
    by (rule evaluate_decides [OF e])
  note s = evaluate_status [OF e]
  have "Decision (ev_result e) \<noteq> DecisionFailover" using s assms(2) by (auto split: if_splits)
  moreover have "Decision (ev_result e) \<noteq> DecisionSwitchback"
  proof
    assume "Decision (ev_result e) = DecisionSwitchback"
    then have "TargetPath (ev_result e) = PathTerrestrial" "currentPathOf ns \<noteq> PathTerrestrial"
      using decide_contract [OF d] c by auto
    moreover have "ActivePathType (ns_Status ns) = TargetPath (ev_result e)" using s assms(2) by simp
    ultimately show False by (simp add: currentPathOf_def split: if_splits)
  qed
  ultimately show ?thesis by (cases "Decision (ev_result e)") auto
qed

lemma decisionEvents_stay: "Decision res = DecisionStay \<Longrightarrow> decisionEvents p res = []"
  by (simp add: decisionEvents_def)

text \<open>A status a reconcile writes is the one its evaluation made; it counts a failover only when its
  evaluation decided one.\<close>

lemma Reconcile_effect:
  assumes "Reconcile M R io req r = (r', effs, res)" "x \<in> set effs" "io_get io = Found ns"
  shows "(\<forall>ns'. x = UpdateStatus ns' \<longrightarrow> ns' = ev_slice (evaluate M R io r (with_finalizer ns)))
    \<and> (\<forall>n s from to. x = IncFailoverTotal n s from to \<longrightarrow>
         Decision (ev_result (evaluate M R io r (with_finalizer ns))) = DecisionFailover)"
  using assms(1)
proof (cases rule: Reconcile_cases)
  case early
  with assms(2) show ?thesis by auto
next
  case (full ns0 pre post)
  then have eq: "ns0 = ns" using assms(3) by simp
  let ?e = "evaluate M R io r (with_finalizer ns)"
  have x: "x \<in> set post - set (ev_series ?e)" if "is_status_write x \<or> announces x"
    using that assms(2) full(4,5) evaluate_series [of M R io r "with_finalizer ns"] by auto
  have eff: "y \<in> set post - set (ev_series ?e) \<Longrightarrow> (\<forall>ns'. y = UpdateStatus ns' \<longrightarrow> ns' = ev_slice ?e)
      \<and> (\<forall>n s from to. y = IncFailoverTotal n s from to \<longrightarrow> Decision (ev_result ?e) = DecisionFailover)" for y
    using full(3) [unfolded eq]
  proof (cases rule: commit_cases)
    case skip
    then show "y \<in> set post - set (ev_series ?e) \<Longrightarrow> ?thesis" unfolding skip(4) by (auto split: if_splits)
  next
    case (failed er)
    then show "y \<in> set post - set (ev_series ?e) \<Longrightarrow> ?thesis" unfolding failed(3) by auto
  next
    case written
    then show "y \<in> set post - set (ev_series ?e) \<Longrightarrow> ?thesis" unfolding written(3) by (auto split: if_splits)
  qed
  show ?thesis using eff [OF x] by auto
qed

section \<open>Properties\<close>

text \<open>C3: the active path changes on evidence only. Whatever status a reconcile writes: while the
  satellite availability is unknown (the ephemeris could not be read, or its pass prediction is not
  current) the path is the one before; the satellite path is entered only with a known, available
  contact and reliable metrics, and kept only while a contact is available or unknown; a satellite path
  whose contact is known to be gone is always left for terrestrial; and with unreliable metrics an
  available satellite path is held (fail static).\<close>

theorem path_changes_on_evidence:
  assumes "Reconcile M R io req r = (r', effs, res)" "UpdateStatus ns' \<in> set effs"
  shows "\<exists>ns. io_get io = Found ns \<and>
    (let c = contact_of M io; q = quality_of M R io r (with_finalizer ns); old = currentPathOf ns;
         new = ActivePathType (ns_Status ns') in
     (\<not> known c \<longrightarrow> new = old)
     \<and> (new = PathSatellite \<longrightarrow> old = PathSatellite \<and> (\<not> known c \<or> available c)
                                 \<or> known c \<and> available c \<and> ql_reliable q)
     \<and> (known c \<and> \<not> available c \<and> old = PathSatellite \<longrightarrow> new = PathTerrestrial)
     \<and> (known c \<and> available c \<and> \<not> ql_reliable q \<and> old = PathSatellite \<longrightarrow> new = PathSatellite))"
  using assms(1)
proof (cases rule: Reconcile_cases)
  case early
  with assms(2) show ?thesis by auto
next
  case (full ns pre post)
  let ?n = "with_finalizer ns" let ?e = "evaluate M R io r ?n"
  obtain p1 ns2 r2 ns3 where d: "decide (r\<lparr>ReaderProvider := p1\<rparr>) ns2 (quality_of M R io r ?n) (contact_of M io) (io_now io)
       = (r2, ns3, ev_result ?e, ev_flap ?e)" and c: "currentPathOf ns2 = currentPathOf ?n"
    by (rule evaluate_decides [OF refl])
  have "ns' = ev_slice ?e" using Reconcile_effect [OF assms full(1)] by blast
  then have n: "ActivePathType (ns_Status ns') = TargetPath (ev_result ?e)" using evaluate_status [OF refl, of M R io r ?n] by simp
  have "known (contact_of M io) \<Longrightarrow> available (contact_of M io) \<Longrightarrow> \<not> ql_reliable (quality_of M R io r ?n) \<Longrightarrow>
      currentPathOf ns = PathSatellite \<Longrightarrow> TargetPath (ev_result ?e) = PathSatellite"
    using d by (cases rule: decide_cases) (auto simp: c EvaluateSafeHold_def Let_def)
  moreover have "\<not> known (contact_of M io) \<Longrightarrow> TargetPath (ev_result ?e) = currentPathOf ns"
    using d by (cases rule: decide_cases) (auto simp: c)
  moreover have "TargetPath (ev_result ?e) = PathSatellite \<Longrightarrow> currentPathOf ns \<noteq> PathSatellite \<Longrightarrow>
      Decision (ev_result ?e) = DecisionFailover"
    using decide_contract [OF d] c
    by (cases "Decision (ev_result ?e)") (auto simp: eq_commute [of PathSatellite "normalizePath _"])
  moreover have c': "currentPathOf ns2 = currentPathOf ns" using c by simp
  note dc = decide_contract [OF d, unfolded c']
  ultimately show ?thesis unfolding Let_def n using full(1) dc by (intro exI [of _ ns]) blast
qed


text \<open>Announcements follow the write that makes them durable. Every event and every increment of
  the failover counter of a reconcile comes after a status write of the same reconcile, and only when
  that write succeeded; the counter is incremented only when the written status counts one more
  failover, for the transition that status records. A rolled-back write announces nothing.\<close>

theorem announcements_follow_write:
  assumes "Reconcile M R io req r = (r', effs, res)" "x \<in> set effs" "announces x"
  shows "\<exists>ns ns' pre post. io_get io = Found ns \<and> effs = pre @ UpdateStatus ns' # post \<and> x \<in> set post
    \<and> (\<forall>y\<in>set pre. \<not> announces y) \<and> io_status io = None \<and> res = Inr sliceRequeueInterval
    \<and> (\<forall>n s from to. x = IncFailoverTotal n s from to \<longrightarrow>
         FailoverCount (ns_Status ns') = FailoverCount (ns_Status ns) + 1
         \<and> LastFailover (ns_Status ns') = Some (io_now io)
         \<and> from = currentPathOf ns \<and> to = ActivePathType (ns_Status ns'))"
  using assms(1)
proof (cases rule: Reconcile_cases)
  case early
  with assms(2,3) show ?thesis by auto
next
  case (full ns pre post)
  let ?n = "with_finalizer ns" let ?e = "evaluate M R io r ?n"
  have ser: "\<forall>y\<in>set (ev_series ?e). \<not> announces y" using evaluate_series [of M R io r ?n] by blast
  have x: "x \<in> set post" using assms(2,3) full(4,5) by auto
  note s = evaluate_status [OF refl, of M R io r ?n]
  from full(3) show ?thesis
  proof (cases rule: commit_cases)
    case skip
    then have "Decision (ev_result ?e) = DecisionStay" by (intro switch_changes_status [OF refl]) simp
    then show ?thesis using skip(4) x ser assms(3) by (auto simp: decisionEvents_stay split: if_splits)
  next
    case (failed er)
    then show ?thesis using x ser assms(3) by auto
  next
    case written
    let ?post = "(if Decision (ev_result ?e) = DecisionFailover
           then [IncFailoverTotal (om_Namespace (ns_Meta (ev_slice ?e))) (om_Name (ns_Meta (ev_slice ?e)))
                   (currentPathOf ?n) (TargetPath (ev_result ?e))] else [])
           @ (if io_recorder io
              then map EmitEvent (decisionEvents (currentPathOf ?n) (ev_result ?e) @ ev_pending ?e) else [])"
    have "effs = (pre @ ev_series ?e) @ UpdateStatus (ev_slice ?e) # ?post"
      using full(4) written(3) by simp
    moreover have "x \<in> set ?post" using x written(3) ser assms(3) by auto
    moreover have "\<forall>y\<in>set (pre @ ev_series ?e). \<not> announces y" using full(5) ser by auto
    moreover have "\<forall>n s from to. x = IncFailoverTotal n s from to \<longrightarrow>
         FailoverCount (ns_Status (ev_slice ?e)) = FailoverCount (ns_Status ns) + 1
         \<and> LastFailover (ns_Status (ev_slice ?e)) = Some (io_now io)
         \<and> from = currentPathOf ns \<and> to = ActivePathType (ns_Status (ev_slice ?e))"
      using \<open>x \<in> set ?post\<close> s by (auto split: if_splits)
    ultimately show ?thesis using full(1) written(1,2) by blast
  qed
qed

text \<open>The dwell clock of an entry is only moved by a commit.\<close>

lemma loadFlapState_dwell:
  assumes "loadFlapState r key uid gen = (r', af)" "flapState r' k = Some e'"
  shows "\<exists>e. flapState r k = Some e \<and> fe_uid e' = fe_uid e \<and> LastSwitchback (fe_state e') = LastSwitchback (fe_state e)"
  using assms by (auto simp: loadFlapState_def Let_def split: option.splits if_splits)

lemma resetRecoveryStreak_dwell:
  assumes "flapState (resetRecoveryStreak r key) k = Some e'"
  shows "\<exists>e. flapState r k = Some e \<and> fe_uid e' = fe_uid e \<and> LastSwitchback (fe_state e') = LastSwitchback (fe_state e)"
  using assms by (auto simp: resetRecoveryStreak_def split: option.splits if_splits)

lemma decide_dwell:
  assumes "decide r ns q contact now = (r', ns', result, flap)" "flapState r' k = Some e'"
  shows "\<exists>e. flapState r k = Some e \<and> fe_uid e' = fe_uid e \<and> LastSwitchback (fe_state e') = LastSwitchback (fe_state e)"
  using assms(1)
proof (cases rule: decide_cases)
  case (engine af af1 ns1 newFlap)
  then show ?thesis using loadFlapState_dwell assms(2) by blast
qed (use assms(2) resetRecoveryStreak_dwell in blast)+

text \<open>A failed status write leaves no speculative state. When a reconcile ends in an error, it has
  announced nothing and every anti-flap entry in memory belongs to the object it belonged to before
  and has the dwell clock it had before: a hand-back whose status write failed never starts a dwell.\<close>

theorem failed_write_commits_nothing:
  assumes "Reconcile M R io req r = (r', effs, Inl e)"
  shows "(\<forall>x\<in>set effs. \<not> announces x)
    \<and> (\<forall>k en'. flapState r' k = Some en' \<longrightarrow>
         (\<exists>en. flapState r k = Some en \<and> fe_uid en' = fe_uid en
            \<and> LastSwitchback (fe_state en') = LastSwitchback (fe_state en)))"
  using assms
proof (cases rule: Reconcile_cases)
  case early
  then show ?thesis by (metis option.distinct(1))
next
  case (full ns pre post)
  let ?n = "with_finalizer ns" let ?e = "evaluate M R io r ?n"
  obtain p1 ns2 r2 ns3 where d: "decide (r\<lparr>ReaderProvider := p1\<rparr>) ns2 (quality_of M R io r ?n) (contact_of M io) (io_now io)
       = (r2, ns3, ev_result ?e, ev_flap ?e)" and r2: "ev_rec ?e = r2"
    by (rule evaluate_decides [OF refl])
  from full(3) show ?thesis
  proof (cases rule: commit_cases)
    case (failed er)
    have "\<forall>x\<in>set effs. \<not> announces x"
      using failed(3) full(4,5) evaluate_series [of M R io r ?n] by auto
    moreover have "\<exists>en. flapState r k = Some en \<and> fe_uid en' = fe_uid en
            \<and> LastSwitchback (fe_state en') = LastSwitchback (fe_state en)" if "flapState r' k = Some en'" for k en'
      using decide_dwell [OF d, of k en'] that failed(4) r2 by simp
    ultimately show ?thesis by blast
  qed simp_all
qed


section \<open>The dwell across a restart\<close>

lemma contact_available_known: "available (checkSatelliteAvailability M eph now) \<Longrightarrow> known (checkSatelliteAvailability M eph now)"
  by (auto simp: checkSatelliteAvailability_def Let_def split: get.splits option.splits prod.splits if_splits)

lemma seed_lower:
  assumes "seedLastSwitchbackFromStatus af ns now = (af', ns')" "LastSwitchbackTime (ns_Status ns) = Some p" "p \<le> now"
  shows "p \<le> LastSwitchback af'"
  using assms by (auto simp: seedLastSwitchbackFromStatus_def split: if_splits)

lemma seed_not_future:
  assumes "seedLastSwitchbackFromStatus af ns now = (af', ns')" "LastSwitchbackTime (ns_Status ns') = Some p"
  shows "p \<le> now"
  using assms by (auto simp: seedLastSwitchbackFromStatus_def split: option.splits if_splits)

text \<open>A durable hand-back younger than the dwell blocks the failover, whatever is in memory.\<close>

lemma durable_dwell_blocks:
  assumes e: "e = evaluate M R io r ns" and p: "LastSwitchbackTime (ns_Status ns) = Some p" "0 < p" "p \<le> io_now io"
    and cur: "currentPathOf ns = PathTerrestrial"
    and dw: "is_int64 (fp_MinTerrestrialDwell (spec_FailoverPolicy (ns_Spec ns)))"
      "io_now io - p < fp_MinTerrestrialDwell (spec_FailoverPolicy (ns_Spec ns))"
  shows "Decision (ev_result e) = DecisionStay \<and> TargetPath (ev_result e) = PathTerrestrial"
proof -
  obtain p1 ns2 r2 ns3 where d: "decide (r\<lparr>ReaderProvider := p1\<rparr>) ns2 (quality_of M R io r ns) (contact_of M io) (io_now io)
       = (r2, ns3, ev_result e, ev_flap e)" and c: "currentPathOf ns2 = PathTerrestrial"
    and sp: "ns_Spec ns2 = ns_Spec ns" and l: "LastSwitchbackTime (ns_Status ns2) = Some p"
    by (rule evaluate_decides [OF e]) (simp add: cur p)
  have "Decision (ev_result e) \<noteq> DecisionFailover"
    using d
  proof (cases rule: decide_cases)
    case (engine af af1 ns1 newFlap)
    have "p \<le> LastSwitchback af1" using seed_lower [OF engine(4) l p(3)] .
    then have "time_Sub (io_now io) (LastSwitchback af1) < fp_MinTerrestrialDwell (spec_FailoverPolicy (ns_Spec ns))"
      "LastSwitchback af1 \<noteq> 0" "0 < fp_MinTerrestrialDwell (spec_FailoverPolicy (ns_Spec ns))"
      using p dw time_Sub_less_pos [OF dw(1), of "io_now io" "LastSwitchback af1"] by auto
    then show ?thesis using engine(5) c sp
      antiflap_failover_iff [of "Triggers (spec_FailoverPolicy (ns_Spec ns))" "ql_metrics (quality_of M R io r ns)"
        "ql_observedAt (quality_of M R io r ns)" "available (contact_of M io)"
        "SwitchbackDelay (spec_FailoverPolicy (ns_Spec ns))" "io_now io"
        "parseMargin (HysteresisMargin (spec_FailoverPolicy (ns_Spec ns)))"
        "antiFlapConfig (spec_FailoverPolicy (ns_Spec ns))" af1]
      by (simp add: antiFlapConfig_def IsZero_def Let_def)
  qed (simp_all add: EvaluateSafeHold_def Let_def)
  then show ?thesis using decide_contract [OF d] c by (cases "Decision (ev_result e)") auto
qed

text \<open>A quality-driven hand-back is recorded in the status it writes, at second granularity.\<close>

lemma hand_back_recorded:
  assumes e: "e = evaluate M R io r ns" and cur: "currentPathOf ns = PathSatellite"
    and av: "available (contact_of M io)" and sw: "Decision (ev_result e) = DecisionSwitchback" and now: "io_now io \<noteq> 0"
  shows "\<exists>p. LastSwitchbackTime (ns_Status (ev_slice e)) = Some p
    \<and> time_Truncate (io_now io) second \<le> p \<and> p \<le> io_now io"
proof -
  obtain p1 ns2 r2 ns3 where d: "decide (r\<lparr>ReaderProvider := p1\<rparr>) ns2 (quality_of M R io r ns) (contact_of M io) (io_now io)
       = (r2, ns3, ev_result e, ev_flap e)" and c: "currentPathOf ns2 = PathSatellite"
    and s: "ev_slice e = applyDerived M (applyDecision M ns3 (ev_result e) (io_now io))"
    by (rule evaluate_decides [OF e]) (simp add: cur)
  from d have "\<exists>p. LastSwitchbackTime (ns_Status ns3) = Some p
    \<and> time_Truncate (io_now io) second \<le> p \<and> p \<le> io_now io"
  proof (cases rule: decide_cases)
    case (engine af af1 ns1 newFlap)
    have "LastSwitchback newFlap = io_now io"
      using engine(5) sw av c by (auto simp: EvaluateFailoverWithAntiFlap_def Let_def)
    then show ?thesis using engine(6) now seed_not_future [OF engine(4)] time_Truncate_le [of "io_now io" second]
      by (auto simp: persistLastSwitchbackToStatus_def IsZero_def split: option.splits)
  qed (use sw av contact_available_known in \<open>auto simp: EvaluateSafeHold_def Let_def\<close>)
  with s show ?thesis by simp
qed

text \<open>C21: the minimum dwell survives a restart. Let a reconcile hand back from an available satellite to
  terrestrial and write the status. Any later reconcile of the stored object (timestamps at second
  granularity), by a controller with any state in memory, for instance none after a restart or a
  leader change, keeps the terrestrial path as long as the dwell of the policy has not elapsed since
  the second of the hand-back.\<close>

theorem dwell_survives_restart:
  assumes first: "Reconcile M R io1 req r1 = (r1', effs1, res1)" "io_get io1 = Found ns1"
      "currentPathOf ns1 = PathSatellite" "available (contact_of M io1)"
      "UpdateStatus ns' \<in> set effs1" "ActivePathType (ns_Status ns') = PathTerrestrial"
    and stored: "io_get io2 = Found ns2" "ActivePathType (ns_Status ns2) = PathTerrestrial"
      "LastSwitchbackTime (ns_Status ns2) = map_option (\<lambda>t. time_Truncate t second) (LastSwitchbackTime (ns_Status ns'))"
    and time: "second \<le> io_now io1" "io_now io1 \<le> io_now io2"
      "is_int64 (fp_MinTerrestrialDwell (spec_FailoverPolicy (ns_Spec ns2)))"
      "io_now io2 - time_Truncate (io_now io1) second < fp_MinTerrestrialDwell (spec_FailoverPolicy (ns_Spec ns2))"
    and later: "Reconcile M R' io2 req r2 = (r2', effs2, res2)" "x \<in> set effs2"
  shows "(\<forall>n s from to. x \<noteq> IncFailoverTotal n s from to)
    \<and> (\<forall>ns''. x = UpdateStatus ns'' \<longrightarrow> ActivePathType (ns_Status ns'') = PathTerrestrial)"
proof -
  let ?n1 = "with_finalizer ns1" let ?e1 = "evaluate M R io1 r1 ?n1"
  let ?n2 = "with_finalizer ns2" let ?e2 = "evaluate M R' io2 r2 ?n2"
  have ns': "ns' = ev_slice ?e1" using Reconcile_effect [OF first(1,5,2)] by blast
  then have t: "TargetPath (ev_result ?e1) = PathTerrestrial"
    using first(6) evaluate_status [OF refl, of M R io1 r1 ?n1] by simp
  obtain p1 n r' n' where d: "decide (r1\<lparr>ReaderProvider := p1\<rparr>) n (quality_of M R io1 r1 ?n1) (contact_of M io1) (io_now io1)
       = (r', n', ev_result ?e1, ev_flap ?e1)" and "currentPathOf n = currentPathOf ?n1"
    by (rule evaluate_decides [where M = M and R = R and io = io1 and r = r1 and ns = ?n1, OF refl])
  then have c: "currentPathOf n = PathSatellite" using first(3) by simp
  have sw: "Decision (ev_result ?e1) = DecisionSwitchback"
    using decide_contract [OF d] t c by (cases "Decision (ev_result ?e1)") auto
  obtain p where p: "LastSwitchbackTime (ns_Status ns') = Some p" "time_Truncate (io_now io1) second \<le> p" "p \<le> io_now io1"
    using hand_back_recorded [OF refl, of ?n1 M io1 R r1] first(3,4) sw time(1) ns' by auto
  let ?q = "time_Truncate p second"
  have q: "time_Truncate (io_now io1) second \<le> ?q" "?q \<le> io_now io1"
    using time_Truncate_mono [OF p(2), of second] time_Truncate_le [of p second] p(3) by simp_all
  have pos: "0 < time_Truncate (io_now io1) second"
    using time(1) time_Truncate_mono [OF time(1), of second] by (simp add: time_Truncate_def)
  have "Decision (ev_result ?e2) = DecisionStay \<and> TargetPath (ev_result ?e2) = PathTerrestrial"
    by (rule durable_dwell_blocks [OF refl, where p = ?q])
      (use stored(2,3) p(1) q pos time in \<open>auto simp: currentPathOf_def\<close>)
  then show ?thesis using Reconcile_effect [OF later(1,2) stored(1)] evaluate_status [OF refl, of M R' io2 r2 ?n2] by auto
qed


section \<open>Confirmation after an edit or a recreation\<close>

lemma loadFlapState_fresh:
  assumes "loadFlapState r key uid gen = (r', af)"
    "case flapState r key of None \<Rightarrow> True | Some en \<Rightarrow> fe_uid en \<noteq> uid \<or> fe_generation en \<noteq> gen"
  shows "ConsecutiveDegraded af = 0"
  using assms by (auto simp: loadFlapState_def zeroFlap_def Let_def split: option.splits if_splits)

lemma seed_streak: "seedLastSwitchbackFromStatus af ns now = (af', ns') \<Longrightarrow> ConsecutiveDegraded af' = ConsecutiveDegraded af"
  by (auto simp: seedLastSwitchbackFromStatus_def split: option.splits if_splits)

lemma update_clocks_first: "ConsecutiveDegraded st = 0 \<Longrightarrow> ConsecutiveDegraded (update_clocks ts m obs n h st) \<le> 1"
  by (simp add: update_clocks_def)

text \<open>A confirmation streak belongs to one object and one spec generation. When memory has no
  entry for the slice, or one left by a deleted namesake (another UID) or by an earlier spec
  (another generation), a policy that asks for at least two confirmation samples does not fail over
  from terrestrial in this reconcile: the stale streak is not inherited.\<close>

theorem streak_not_inherited:
  assumes "Reconcile M R io req r = (r', effs, res)" "x \<in> set effs" "io_get io = Found ns"
    "currentPathOf ns = PathTerrestrial"
    "fp_ConfirmationSamples (spec_FailoverPolicy (ns_Spec ns)) = Some n" "2 \<le> n"
    "case flapState r (ns_Key ns) of None \<Rightarrow> True
     | Some en \<Rightarrow> fe_uid en \<noteq> ns_UID ns \<or> fe_generation en \<noteq> ns_Generation ns"
  shows "(\<forall>ns s from to. x \<noteq> IncFailoverTotal ns s from to)
    \<and> (\<forall>ns'. x = UpdateStatus ns' \<longrightarrow> ActivePathType (ns_Status ns') = PathTerrestrial)"
proof -
  let ?n = "with_finalizer ns" let ?e = "evaluate M R io r ?n"
  obtain p1 ns2 r2 ns3 where d: "decide (r\<lparr>ReaderProvider := p1\<rparr>) ns2 (quality_of M R io r ?n) (contact_of M io) (io_now io)
       = (r2, ns3, ev_result ?e, ev_flap ?e)" and eqs: "currentPathOf ns2 = currentPathOf ?n" "ns_Meta ns2 = ns_Meta ?n"
       "ns_Spec ns2 = ns_Spec ?n"
    by (rule evaluate_decides [where M = M and R = R and io = io and r = r and ns = ?n, OF refl])
  have c: "currentPathOf ns2 = PathTerrestrial" using eqs assms(4) by simp
  have "ns_Key ns2 = ns_Key ?n" "ns_UID ns2 = ns_UID ?n" "ns_Generation ns2 = ns_Generation ?n"
    using eqs(2) by simp_all
  then have id: "ns_Key ns2 = ns_Key ns" "ns_UID ns2 = ns_UID ns" "ns_Generation ns2 = ns_Generation ns" by simp_all
  have "Decision (ev_result ?e) \<noteq> DecisionFailover"
    using d
  proof (cases rule: decide_cases)
    case (engine af af1 ns1 newFlap)
    have "ConsecutiveDegraded af1 = 0"
      using loadFlapState_fresh [OF engine(3) [unfolded id]] seed_streak [OF engine(4)] assms(7) by simp
    note u = update_clocks_first [OF this]
    show ?thesis
    proof
      assume f: "Decision (ev_result ?e) = DecisionFailover"
      have "ConsecutiveDegraded (update_clocks (Triggers (spec_FailoverPolicy (ns_Spec ns2)))
          (ql_metrics (quality_of M R io r ?n)) (ql_observedAt (quality_of M R io r ?n)) (io_now io)
          (parseMargin (HysteresisMargin (spec_FailoverPolicy (ns_Spec ns2)))) af1) \<ge> n"
        using f engine(5) c eqs(3) assms(5,6)
          antiflap_failover_iff [of "Triggers (spec_FailoverPolicy (ns_Spec ns2))" "ql_metrics (quality_of M R io r ?n)"
            "ql_observedAt (quality_of M R io r ?n)" "available (contact_of M io)"
            "SwitchbackDelay (spec_FailoverPolicy (ns_Spec ns2))" "io_now io"
            "parseMargin (HysteresisMargin (spec_FailoverPolicy (ns_Spec ns2)))"
            "antiFlapConfig (spec_FailoverPolicy (ns_Spec ns2))" af1]
        by (simp add: antiFlapConfig_def Let_def)
      with u assms(6) show False by (meson not_le order.trans one_less_numeral_iff semiring_norm(76) le_less_trans)
    qed
  qed (simp_all add: EvaluateSafeHold_def Let_def)
  then have "TargetPath (ev_result ?e) = PathTerrestrial"
    using decide_contract [OF d] c by (cases "Decision (ev_result ?e)") auto
  then show ?thesis using Reconcile_effect [OF assms(1,2,3)] evaluate_status [OF refl, of M R io r ?n]
      \<open>Decision (ev_result ?e) \<noteq> DecisionFailover\<close> by auto
qed

section \<open>Contact\<close>

lemma str_less_trans: "str_less a b \<Longrightarrow> str_less b c \<Longrightarrow> str_less a c"
proof (induction a b arbitrary: c rule: str_less.induct)
  case (3 a s b t)
  then show ?case by (cases c) auto
next
  case (2 b t)
  then show ?case by (cases c) auto
qed auto

lemma str_less_irrefl: "\<not> str_less s s"
  by (induction s) auto

lemma earlier_trans: "earlierLOSCandidate a b \<Longrightarrow> earlierLOSCandidate b c \<Longrightarrow> earlierLOSCandidate a c"
  by (auto simp: earlierLOSCandidate_def split: if_splits dest: str_less_trans)

definition overhead :: "time \<Rightarrow> PassWindow \<Rightarrow> bool" where
  "overhead now pw \<longleftrightarrow> AOS pw \<le> now \<and> now < LOS pw"

text \<open>A window whose satellite is overhead and whose element set, if it has a state, can be delivered.\<close>

definition deliverable :: "time \<Rightarrow> PropagatedState list \<Rightarrow> PassWindow \<Rightarrow> bool" where
  "deliverable now states pw \<longleftrightarrow> overhead now pw \<and>
     (pw_NoradID pw = 0 \<or> (\<forall>ps\<in>set states. prop_NoradID ps = pw_NoradID pw \<longrightarrow>
        now \<le> UnixMilli (SourceEpochUnixMs ps) + maxEpochAge))"

lemma stale_norads_iff: "stale_norads now states n \<longleftrightarrow>
    (\<exists>ps\<in>set states. prop_NoradID ps = n \<and> UnixMilli (SourceEpochUnixMs ps) + maxEpochAge < now)"
proof -
  have "(case sourceEpochFresh now src of Inl _ \<Rightarrow> True | Inr _ \<Rightarrow> False) \<longleftrightarrow> src + maxEpochAge < now" for src
    using fresh_not_Inl [of now src] by (cases "sourceEpochFresh now src") auto
  then show ?thesis by (auto simp: stale_norads_def list_ex_iff)
qed

lemma contact_step_simps:
  "\<not> overhead now pw \<Longrightarrow> contact_step now stale pw acc = acc"
  "overhead now pw \<Longrightarrow> pw_NoradID pw \<noteq> 0 \<and> stale (pw_NoradID pw) \<Longrightarrow> contact_step now stale pw (best, a) = (best, True)"
  "overhead now pw \<Longrightarrow> \<not> (pw_NoradID pw \<noteq> 0 \<and> stale (pw_NoradID pw)) \<Longrightarrow> contact_step now stale pw (None, a) = (Some pw, a)"
  "overhead now pw \<Longrightarrow> \<not> (pw_NoradID pw \<noteq> 0 \<and> stale (pw_NoradID pw)) \<Longrightarrow>
     contact_step now stale pw (Some b, a) = (Some (if earlierLOSCandidate pw b then pw else b), a)"
  by (auto simp: contact_step_def overhead_def)

text \<open>The selection loop finds a deliverable window that no other deliverable one precedes.\<close>

lemma contact_fold:
  "(case fst (fold (contact_step now (stale_norads now states)) ws (None, False)) of
      None \<Rightarrow> \<forall>pw\<in>set ws. \<not> deliverable now states pw
    | Some b \<Rightarrow> b \<in> set ws \<and> deliverable now states b
        \<and> (\<forall>pw\<in>set ws. deliverable now states pw \<longrightarrow> \<not> earlierLOSCandidate pw b))
   \<and> (snd (fold (contact_step now (stale_norads now states)) ws (None, False)) \<longleftrightarrow>
        (\<exists>pw\<in>set ws. overhead now pw \<and> \<not> deliverable now states pw))"
proof (induction ws rule: rev_induct)
  case (snoc w ws)
  let ?st = "stale_norads now states"
  obtain best act where f: "fold (contact_step now ?st) ws (None, False) = (best, act)"
    by (cases "fold (contact_step now ?st) ws (None, False)")
  have del: "deliverable now states w \<longleftrightarrow> overhead now w \<and> \<not> (pw_NoradID w \<noteq> 0 \<and> ?st (pw_NoradID w))"
    by (auto simp: deliverable_def stale_norads_iff not_less)
  consider "\<not> overhead now w" | "overhead now w" "pw_NoradID w \<noteq> 0 \<and> ?st (pw_NoradID w)"
    | "overhead now w" "\<not> (pw_NoradID w \<noteq> 0 \<and> ?st (pw_NoradID w))" by blast
  then show ?case
  proof cases
    case 1
    then show ?thesis using snoc f del by (auto simp: contact_step_simps split: option.splits)
  next
    case 2
    then show ?thesis using snoc f del by (auto simp: contact_step_simps split: option.splits)
  next
    case 3
    have irr: "\<not> earlierLOSCandidate w w" by (simp add: earlierLOSCandidate_def str_less_irrefl)
    show ?thesis
    proof (cases best)
      case None
      then show ?thesis using 3 snoc f del irr by (auto simp: contact_step_simps)
    next
      case (Some b)
      then show ?thesis using 3 snoc f del irr earlier_trans [of _ w b] by (auto simp: contact_step_simps)
    qed
  qed
qed simp


lemma state_of_Some: "state_of states n = Some ps \<Longrightarrow> ps \<in> set states \<and> prop_NoradID ps = n"
proof (induction states rule: rev_induct)
  case (snoc x xs)
  then show ?case by (auto simp: state_of_def split: if_splits)
qed (simp add: state_of_def)

text \<open>What the contact evaluation promises of an ephemeris with a current prediction.\<close>

definition contact_spec :: "time \<Rightarrow> SatelliteEphemerisStatus \<Rightarrow> contactEval \<Rightarrow> bool" where
  "contact_spec now st c \<longleftrightarrow>
     (let ws = NextPassWindows st; states = PropagatedStates st in
      known c \<and> (available c \<longleftrightarrow> (\<exists>pw\<in>set ws. deliverable now states pw))
      \<and> (case candidate c of
           Some cc \<Rightarrow> available c \<and> (\<exists>pw\<in>set ws. deliverable now states pw
             \<and> (\<forall>pw'\<in>set ws. deliverable now states pw' \<longrightarrow> \<not> earlierLOSCandidate pw' pw)
             \<and> cc = buildContactCandidate pw (state_of states (pw_NoradID pw))
             \<and> (\<exists>v. ValidUntil cc = Some v \<and> v \<le> LOS pw \<and> (pw_NoradID pw \<noteq> 0 \<longrightarrow> now \<le> v)))
         | None \<Rightarrow> \<not> available c \<and> ce_reason c =
             (if \<exists>pw\<in>set ws. overhead now pw then reasonAllCandidatesStale else reasonNoActiveContact)))"

lemma contact_found:
  assumes pp: "IsStatusConditionTrue M (eph_Conditions (eph_Status eph)) ConditionPassesPredicted"
  shows "contact_spec now (eph_Status eph) (checkSatelliteAvailability M (Found eph) now)"
proof -
  let ?ws = "NextPassWindows (eph_Status eph)" let ?st = "PropagatedStates (eph_Status eph)"
  obtain best act where f: "fold (contact_step now (stale_norads now ?st)) ?ws (None, False) = (best, act)"
    by (cases "fold (contact_step now (stale_norads now ?st)) ?ws (None, False)")
  note cf = contact_fold [where now = now and states = ?st and ws = ?ws, unfolded f]
  show ?thesis
  proof (cases best)
    case None
    have "overhead now pw \<Longrightarrow> pw \<in> set ?ws \<Longrightarrow> \<not> deliverable now ?st pw" for pw using cf None by simp
    then show ?thesis using None cf f pp by (auto simp: contact_spec_def checkSatelliteAvailability_def Let_def)
  next
    case (Some b)
    have v: "\<exists>v. ValidUntil (buildContactCandidate b (state_of ?st (pw_NoradID b))) = Some v \<and> v \<le> LOS b
        \<and> (pw_NoradID b \<noteq> 0 \<longrightarrow> now \<le> v)"
      using cf Some state_of_Some [of ?st "pw_NoradID b"]
      by (auto simp: buildContactCandidate_def deliverable_def overhead_def time_Add_def Let_def split: option.splits)
    show ?thesis using Some cf f pp v by (auto simp: contact_spec_def checkSatelliteAvailability_def Let_def)
  qed
qed

text \<open>The contact a slice reports is exact. With a current pass prediction the availability is known;
  it is available iff some predicted window is active and its element set, when it has one, is within
  the seven-day delivery bound; the candidate is then built from such a window, one that no other
  deliverable window precedes in the order of LOS, NORAD ID and ground station, and for an identified
  satellite its validity ends between now and that window's LOS. Otherwise there is no candidate, and the
  reason tells a stale member overhead from an empty sky. Without a current prediction, or when
  the ephemeris cannot be read, availability is unknown; a dangling reference is known and unavailable.\<close>

theorem contact_exact:
  "(case g of
      Found eph \<Rightarrow> if IsStatusConditionTrue M (eph_Conditions (eph_Status eph)) ConditionPassesPredicted
        then contact_spec now (eph_Status eph) (checkSatelliteAvailability M g now)
        else \<not> known (checkSatelliteAvailability M g now)
    | GetError e \<Rightarrow> \<not> known (checkSatelliteAvailability M g now)
    | NotFound \<Rightarrow> known (checkSatelliteAvailability M g now) \<and> \<not> available (checkSatelliteAvailability M g now))"
proof (cases g)
  case (Found eph)
  then show ?thesis using contact_found [of M eph now]
    by (auto simp: checkSatelliteAvailability_def [of M "Found eph"] Let_def)
qed (simp_all add: checkSatelliteAvailability_def Let_def)

section \<open>Deletion\<close>

text \<open>A deleted slice releases exactly its own series and state. Finalizing drops the anti-flap
  state of the slice and its failover series; the pass-availability series, which slices of a namespace
  share through the ephemeris they reference, is dropped iff no other live slice references that
  ephemeris; only then is the finalizer removed, and when the listing fails nothing is removed and the
  reconcile is retried. No status is written and no event emitted.\<close>

theorem finalizer_releases:
  assumes "io_get io = Found ns" "om_DeletionTimestamp (ns_Meta ns) = Some t"
    "sliceMetricsFinalizer \<in> set (om_Finalizers (ns_Meta ns))" "Reconcile M R io req r = (r', effs, res)"
  shows "flapState r' = (flapState r)(ns_Key ns := None)
    \<and> DeleteFailoverTotal (om_Namespace (ns_Meta ns)) (om_Name (ns_Meta ns)) \<in> set effs
    \<and> (\<forall>x\<in>set effs. \<not> announces x \<and> \<not> is_status_write x)
    \<and> (case io_list io of
         Inl e \<Rightarrow> res = Inl e \<and> (\<forall>n. UpdateObject n \<notin> set effs) \<and> (\<forall>a b. DeletePassAvailable a b \<notin> set effs)
       | Inr items \<Rightarrow>
           (\<forall>a b. DeletePassAvailable a b \<in> set effs \<longleftrightarrow>
              a = om_Namespace (ns_Meta ns) \<and> b = EphemerisRef (SatellitePath (ns_Spec ns))
              \<and> \<not> (\<exists>s\<in>set items. ns_UID s \<noteq> ns_UID ns \<and> om_DeletionTimestamp (ns_Meta s) = None
                     \<and> EphemerisRef (SatellitePath (ns_Spec s)) = EphemerisRef (SatellitePath (ns_Spec ns))))
           \<and> (\<exists>n. last effs = UpdateObject n \<and> sliceMetricsFinalizer \<notin> set (om_Finalizers (ns_Meta n))))"
proof (cases "io_list io")
  case (Inl e)
  then have "Reconcile M R io req r = (dropFlapState r (ns_Key ns),
      [DeleteFailoverTotal (om_Namespace (ns_Meta ns)) (om_Name (ns_Meta ns))], Inl e)"
    using assms(1-3) by (simp add: Reconcile_def handleSliceFinalizer_def ephemerisMetricReferenced_def Let_def)
  then show ?thesis using assms(4) Inl by (simp add: dropFlapState_def announces_def is_status_write_def)
next
  case (Inr items)
  let ?n = "ns\<lparr>ns_Meta := RemoveFinalizer sliceMetricsFinalizer (ns_Meta ns)\<rparr>"
  let ?sh = "\<exists>s\<in>set items. ns_UID s \<noteq> ns_UID ns \<and> om_DeletionTimestamp (ns_Meta s) = None
                     \<and> EphemerisRef (SatellitePath (ns_Spec s)) = EphemerisRef (SatellitePath (ns_Spec ns))"
  have "\<exists>rs. Reconcile M R io req r = (dropFlapState r (ns_Key ns),
      [DeleteFailoverTotal (om_Namespace (ns_Meta ns)) (om_Name (ns_Meta ns))]
      @ (if ?sh then [] else [DeletePassAvailable (om_Namespace (ns_Meta ns)) (EphemerisRef (SatellitePath (ns_Spec ns)))])
      @ [UpdateObject ?n], rs)"
    using assms(1-3) Inr
    by (auto simp: Reconcile_def handleSliceFinalizer_def ephemerisMetricReferenced_def Let_def list_ex_iff
        split: option.splits)
  then show ?thesis using assms(4) Inr
    by (auto simp: dropFlapState_def announces_def is_status_write_def RemoveFinalizer_def)
qed


section \<open>Steady state\<close>

lemma Reconcile_live:
  assumes "io_get io = Found ns" "om_DeletionTimestamp (ns_Meta ns) = None"
    "sliceMetricsFinalizer \<in> set (om_Finalizers (ns_Meta ns))"
  shows "Reconcile M R io req r = commit io ns (evaluate M R io r ns)" "with_finalizer ns = ns"
  using assms by (simp_all add: Reconcile_def handleSliceFinalizer_def with_finalizer_def AddFinalizer_def split: prod.splits)

lemma commit_writes:
  assumes "commit io ns ev = (r', effs, res)" "ns_Status ns \<noteq> ns_Status (ev_slice ev)"
  shows "UpdateStatus (ev_slice ev) \<in> set effs"
  using assms(1) by (cases rule: commit_cases) (use assms(2) in auto)

lemma evaluate_candidate:
  assumes "ql_reliable (quality_of M R io r ns)"
  shows "st_ContactCandidate (ns_Status (ev_slice (evaluate M R io r ns))) = candidate (contact_of M io)"
proof -
  obtain p1 ops ns1 pending1 q ns2 pending2 r2 ns3 where
    a: "readPathQuality M R (ReaderProvider r) ns (io_now io) = (p1, ops, ns1, pending1, q)"
    and b: "reportReadiness M ns1 q (contact_of M io) = (ns2, pending2)"
    and d: "decide (r\<lparr>ReaderProvider := p1\<rparr>) ns2 q (contact_of M io) (io_now io)
       = (r2, ns3, ev_result (evaluate M R io r ns), ev_flap (evaluate M R io r ns))"
    and s: "ev_slice (evaluate M R io r ns) = applyDerived M (applyDecision M ns3 (ev_result (evaluate M R io r ns)) (io_now io))"
    by (rule evaluate_parts [where M = M and R = R and r = r and ns = ns and io = io])
  have "ql_reliable q" using assms a by (simp add: quality_of_def)
  then have "st_ContactCandidate (ns_Status ns2) = candidate (contact_of M io)"
    using b by (auto simp: reportReadiness_def reportInertTriggers_def Let_def split: if_splits)
  moreover from d have "st_ContactCandidate (ns_Status ns3) = st_ContactCandidate (ns_Status ns2)"
    by (cases rule: decide_cases) (auto simp: persistLastSwitchbackToStatus_def seedLastSwitchbackFromStatus_def
        split: option.splits if_splits)
  moreover have "st_ContactCandidate (ns_Status (applyDecision M ns3 res now)) = st_ContactCandidate (ns_Status ns3)" for res now
    by (simp add: applyDecision_def Let_def)
  ultimately show ?thesis using s by simp
qed

text \<open>A sub-second validity defeats the steady-state write suppression. The candidate's validUntil
  is computed with the millisecond precision of the element-set epoch whenever the element set ages out
  before LOS, while the stored status keeps whole seconds. With such a candidate every
  reconcile of the slice finds the status changed and attempts a status write, however often nothing
  else changed, although \<open>persistStatusIfChanged\<close> is there to skip writes of an unchanged status.\<close>

theorem subsecond_validity_churns:
  assumes "io_get io = Found ns" "om_DeletionTimestamp (ns_Meta ns) = None"
    "sliceMetricsFinalizer \<in> set (om_Finalizers (ns_Meta ns))"
    "\<And>cc v. st_ContactCandidate (ns_Status ns) = Some cc \<Longrightarrow> ValidUntil cc = Some v \<Longrightarrow> v mod second = 0"
    "ql_reliable (quality_of M R io r ns)" "candidate (contact_of M io) = Some cc" "ValidUntil cc = Some v"
    "v mod second \<noteq> 0"
  shows "\<exists>ns'. UpdateStatus ns' \<in> set (fst (snd (Reconcile M R io req r)))"
proof -
  have "st_ContactCandidate (ns_Status (ev_slice (evaluate M R io r ns))) = Some cc"
    using evaluate_candidate [OF assms(5)] assms(6) by simp
  then have "ns_Status ns \<noteq> ns_Status (ev_slice (evaluate M R io r ns))" using assms(4,7,8) by metis
  then show ?thesis
    using commit_writes [of io ns "evaluate M R io r ns"] Reconcile_live(1) [OF assms(1-3), of M R req r]
    by (cases "commit io ns (evaluate M R io r ns)") auto
qed

section \<open>A concrete slice\<close>

text \<open>A metrics provider that serves one fixed observation, as the tests inject, and a slice on an API
  server that answers everything. The witnesses evaluate on these.\<close>

declare terrestrialDegraded.simps(2) [simp del] InertTriggers.simps(2) [simp del]

definition fixed_ops :: "Metrics \<Rightarrow> time \<Rightarrow> (unit, unit) reader_ops" where
  "fixed_ops m obs = \<lparr>op_For = (\<lambda>p ns. (p, Inr ())),
     op_Read = (\<lambda>p rd ns. (p, [], Inr \<lparr>res_Metrics = m, Stale = False, LastFreshAt = 0, ObservedAt = obs\<rparr>)),
     op_Evict = (\<lambda>p key. (p, []))\<rparr>"

definition ex_rec :: "unit NTNSliceReconciler" where
  "ex_rec = \<lparr>flapState = Map.empty, ReaderProvider = ()\<rparr>"

definition ex_t :: time where
  "ex_t = UnixMilli 0"

definition ex_window :: PassWindow where
  "ex_window = \<lparr>pw_Satellite = ''SAT'', pw_NoradID = 7, pw_GroundStation = ''gs'', AOS = ex_t - minute,
     LOS = ex_t + 10 * minute, MaxElevation = ''70''\<rparr>"

definition ex_eph :: "PropagatedState list \<Rightarrow> SatelliteEphemeris" where
  "ex_eph states = \<lparr>eph_Meta = ns_Meta ex_slice, eph_Spec = \<lparr>Source = \<lparr>src_Type = ''CelesTrak'', src_URL = '''',
       RefreshInterval = 4 * hour, Credentials = None\<rparr>, Satellites = None, PassPrediction = None\<rparr>,
     eph_Status = \<lparr>PropagatedStatesInputHash = '''', LastUpdated = None, LastPassPredictionTime = None,
       LastPassPredictionInputHash = '''', SatelliteCount = 1, TruncatedSatelliteCount = 0,
       NextPassWindows = [ex_window], PropagatedStates = states,
       eph_Conditions = [mkCond ConditionPassesPredicted ConditionTrue ''Predicted'' [] 1]\<rparr>\<rparr>"

definition ex_live :: "string \<Rightarrow> int option \<Rightarrow> time option \<Rightarrow> NTNSlice" where
  "ex_live path samples lastSwitchback = ex_slice\<lparr>ns_Meta := AddFinalizer sliceMetricsFinalizer (ns_Meta ex_slice),
     ns_Spec := (ns_Spec ex_slice)\<lparr>spec_FailoverPolicy := (spec_FailoverPolicy (ns_Spec ex_slice))
       \<lparr>SwitchbackDelay := 0, fp_ConfirmationSamples := samples, fp_MinTerrestrialDwell := minute\<rparr>\<rparr>,
     ns_Status := (ns_Status ex_slice)\<lparr>ActivePathType := path, LastSwitchbackTime := lastSwitchback\<rparr>\<rparr>"

definition ex_io :: "NTNSlice \<Rightarrow> SatelliteEphemeris get \<Rightarrow> time \<Rightarrow> slice_io" where
  "ex_io ns eph now = \<lparr>io_get = Found ns, io_eph = eph, io_list = Inr [], io_update = None, io_status = None,
     io_now = now, io_recorder = True\<rparr>"

lemma ex_live_simps [simp]:
  "om_DeletionTimestamp (ns_Meta (ex_live p c l)) = None"
  "sliceMetricsFinalizer \<in> set (om_Finalizers (ns_Meta (ex_live p c l)))"
  "ActivePathType (ns_Status (ex_live p c l)) = p" "st_ContactCandidate (ns_Status (ex_live p c l)) = None"
  "LastSwitchbackTime (ns_Status (ex_live p c l)) = l"
  "Triggers (spec_FailoverPolicy (ns_Spec (ex_live p c l))) = [''rsrp < -120'']"
  "SwitchbackDelay (spec_FailoverPolicy (ns_Spec (ex_live p c l))) = 0"
  "HysteresisMargin (spec_FailoverPolicy (ns_Spec (ex_live p c l))) = ''''"
  "fp_ConfirmationSamples (spec_FailoverPolicy (ns_Spec (ex_live p c l))) = c"
  "fp_MinTerrestrialDwell (spec_FailoverPolicy (ns_Spec (ex_live p c l))) = minute"
  by (simp_all add: ex_live_def AddFinalizer_def ex_slice_def ex_slice_spec_def)

lemma ex_io_simps [simp]:
  "io_get (ex_io ns eph now) = Found ns" "io_eph (ex_io ns eph now) = eph" "io_status (ex_io ns eph now) = None"
  "io_now (ex_io ns eph now) = now" "io_recorder (ex_io ns eph now)" "io_list (ex_io ns eph now) = Inr []"
  by (simp_all add: ex_io_def)

lemma ex_quality: "quality_of M (fixed_ops m obs) io r ns = \<lparr>ql_metrics = m, ql_observedAt = obs, ql_reliable = True\<rparr>"
  by (simp add: quality_of_def readPathQuality_def fixed_ops_def acceptResult_def Let_def)

lemma ex_contact: "checkSatelliteAvailability list_meta (Found (ex_eph [])) ex_t =
    \<lparr>available = True, known = True, ce_reason = reasonConstellationMemberAvailable, detail = [],
     candidate = Some (buildContactCandidate ex_window None)\<rparr>"
  by (simp add: checkSatelliteAvailability_def ex_eph_def list_meta_def contact_step_def stale_norads_def state_of_def
      ex_window_def Let_def)

lemma ex_live_reconcile:
  "Reconcile M R (ex_io (ex_live p c l) eph now) req r =
     commit (ex_io (ex_live p c l) eph now) (ex_live p c l) (evaluate M R (ex_io (ex_live p c l) eph now) r (ex_live p c l))"
  "with_finalizer (ex_live p c l) = ex_live p c l"
  using Reconcile_live [of "ex_io (ex_live p c l) eph now" "ex_live p c l"] by simp_all

text \<open>The decision on a fresh reconciler, an available contact and the path of the slice.\<close>

lemma ex_decision:
  assumes e: "e = evaluate list_meta (fixed_ops m obs) (ex_io (ex_live p c l) (Found (ex_eph [])) ex_t) ex_rec (ex_live p c l)"
    and p: "p \<noteq> ''''"
  shows "\<exists>af. ev_result e = fst (EvaluateFailoverWithAntiFlap p [''rsrp < -120''] m obs True 0 ex_t (Fin 0)
      \<lparr>ConfirmationSamples = (case c of Some n \<Rightarrow> n | None \<Rightarrow> 0), MinTerrestrialDwell = minute\<rparr> af)
    \<and> (l = None \<longrightarrow> af = zeroFlap)"
proof -
  let ?io = "ex_io (ex_live p c l) (Found (ex_eph [])) ex_t"
  obtain p1 ns2 r2 ns3 where d: "decide (ex_rec\<lparr>ReaderProvider := p1\<rparr>) ns2 (quality_of list_meta (fixed_ops m obs) ?io ex_rec (ex_live p c l))
      (contact_of list_meta ?io) (io_now ?io) = (r2, ns3, ev_result e, ev_flap e)"
    and eqs: "currentPathOf ns2 = currentPathOf (ex_live p c l)" "ns_Spec ns2 = ns_Spec (ex_live p c l)"
      "LastSwitchbackTime (ns_Status ns2) = LastSwitchbackTime (ns_Status (ex_live p c l))"
    unfolding e by (rule evaluate_decides [where M = list_meta and R = "fixed_ops m obs" and io = ?io and r = ex_rec
        and ns = "ex_live p c l", OF refl])
  from d show ?thesis
  proof (cases rule: decide_cases)
    case (engine af af1 ns1 newFlap)
    have "af = zeroFlap" using engine(3) by (auto simp: ex_rec_def loadFlapState_def)
    then have "l = None \<longrightarrow> af1 = zeroFlap"
      using engine(4) eqs(3) by (auto simp: seedLastSwitchbackFromStatus_def)
    moreover have "currentPathOf ns2 = p" using eqs(1) p by (simp add: currentPathOf_def)
    ultimately show ?thesis using engine(5) eqs(2)
      by (intro exI [of _ af1]) (simp add: ex_quality ex_contact antiFlapConfig_def parseMargin_def)
  qed (simp_all add: ex_quality ex_contact)
qed

abbreviation ex_run :: "string \<Rightarrow> int option \<Rightarrow> time option \<Rightarrow> rat \<Rightarrow> unit NTNSliceReconciler \<times> effect list \<times> duration result" where
  "ex_run p c l rsrp \<equiv> Reconcile list_meta (fixed_ops (ex_metrics rsrp) 5) (ex_io (ex_live p c l) (Found (ex_eph [])) ex_t)
     (ns_Key ex_slice) ex_rec"

abbreviation ex_eval :: "string \<Rightarrow> int option \<Rightarrow> time option \<Rightarrow> rat \<Rightarrow> unit evaluation" where
  "ex_eval p c l rsrp \<equiv> evaluate list_meta (fixed_ops (ex_metrics rsrp) 5) (ex_io (ex_live p c l) (Found (ex_eph [])) ex_t)
     ex_rec (ex_live p c l)"

lemma paths_nonempty [simp]: "PathTerrestrial \<noteq> ''''" "PathSatellite \<noteq> ''''"
  by (simp_all add: PathTerrestrial_def PathSatellite_def)

text \<open>A failover from a degraded terrestrial path, and a hand-back from the satellite.\<close>

lemma ex_failover: "Decision (ev_result (ex_eval PathTerrestrial None None (- 130))) = DecisionFailover"
  using ex_decision [where p = PathTerrestrial and m = "ex_metrics (- 130)" and obs = 5 and c = None and l = None, OF refl]
  by (auto simp: antiflap_failover_iff ex_degraded zeroFlap_def IsZero_def Let_def)

lemma ex_recovered0: "recovery_passed [''rsrp < -120''] (ex_metrics (- 95)) (Fin 0)"
  by (auto simp: recovery_passed_def trigger_set_simps ex_degraded ex_parsed metricMissing_def some_invalid_def
      ex_parse metric_names Evaluate_def actual_of_def)

lemma ex_handback: "Decision (ev_result (ex_eval PathSatellite None None (- 95))) = DecisionSwitchback"
proof -
  have "\<not> time_Sub ex_t t < 0 \<or> IsZero t" if "t \<in> {0, ex_t}" for t
    using that by (auto simp: time_Sub_def ex_t_def UnixMilli_def unix_epoch_def min_int64_def max_int64_def IsZero_def)
  moreover have "RecoveryObservedAt (update_clocks ts m obs ex_t h zeroFlap) \<in> {0, ex_t}" for ts m obs h
    by (auto simp: update_clocks_def zeroFlap_def IsZero_def)
  ultimately have "recovery_passed [''rsrp < -120''] (ex_metrics (- 95)) (Fin 0) \<and>
      (let l = RecoveryObservedAt (update_clocks ts m obs ex_t h zeroFlap) in IsZero l \<or> \<not> time_Sub ex_t l < 0)" for ts m obs h
    using ex_recovered0 by (auto simp: Let_def)
  then show ?thesis
    using ex_decision [where p = PathSatellite and m = "ex_metrics (- 95)" and obs = 5 and c = None and l = None, OF refl]
    by (auto simp: antiflap_switchback_iff)
qed

lemma ex_written:
  assumes "Decision (ev_result (ex_eval p c l rsrp)) \<noteq> DecisionStay"
  shows "UpdateStatus (ev_slice (ex_eval p c l rsrp)) \<in> set (fst (snd (ex_run p c l rsrp)))"
proof -
  have "ns_Status (ex_live p c l) \<noteq> ns_Status (ev_slice (ex_eval p c l rsrp))"
    using assms switch_changes_status [OF refl, of "ex_live p c l" list_meta "fixed_ops (ex_metrics rsrp) 5"
        "ex_io (ex_live p c l) (Found (ex_eph [])) ex_t" ex_rec] by blast
  then show ?thesis
    using commit_writes [of "ex_io (ex_live p c l) (Found (ex_eph [])) ex_t" "ex_live p c l" "ex_eval p c l rsrp"]
    by (cases "ex_run p c l rsrp") (auto simp: ex_live_reconcile)
qed

lemma evaluate_target:
  assumes e: "e = evaluate M R io r ns"
  shows "Decision (ev_result e) = DecisionFailover \<Longrightarrow> ActivePathType (ns_Status (ev_slice e)) = PathSatellite"
    "Decision (ev_result e) = DecisionSwitchback \<Longrightarrow> ActivePathType (ns_Status (ev_slice e)) = PathTerrestrial"
  using evaluate_status [OF e] by (auto intro: evaluate_decides [OF e] dest: decide_contract)

lemmas ex_target = evaluate_target [where e = "ex_eval p c l rsrp" for p c l rsrp, OF refl]

theorem path_changes_on_evidence_witness:
  "\<exists>ns'. UpdateStatus ns' \<in> set (fst (snd (ex_run PathTerrestrial None None (- 130))))
     \<and> ActivePathType (ns_Status ns') = PathSatellite
     \<and> ql_reliable (quality_of list_meta (fixed_ops (ex_metrics (- 130)) 5)
           (ex_io (ex_live PathTerrestrial None None) (Found (ex_eph [])) ex_t) ex_rec (ex_live PathTerrestrial None None))"
proof -
  obtain r' effs res where run: "ex_run PathTerrestrial None None (- 130) = (r', effs, res)"
    by (cases "ex_run PathTerrestrial None None (- 130)")
  let ?n = "ev_slice (ex_eval PathTerrestrial None None (- 130))"
  have w: "UpdateStatus ?n \<in> set effs" using ex_written [where p = PathTerrestrial and c = None and l = None and rsrp = "- 130"]
      ex_failover run by simp
  have s: "ActivePathType (ns_Status ?n) = PathSatellite" by (rule ex_target(1) [OF ex_failover])
  have "PathTerrestrial \<noteq> PathSatellite" by (simp add: PathTerrestrial_def PathSatellite_def)
  with path_changes_on_evidence [OF run w] s
  have "ql_reliable (quality_of list_meta (fixed_ops (ex_metrics (- 130)) 5)
           (ex_io (ex_live PathTerrestrial None None) (Found (ex_eph [])) ex_t) ex_rec (ex_live PathTerrestrial None None))"
    by (simp add: Let_def ex_live_reconcile(2) currentPathOf_def)
  with run w s show ?thesis by auto
qed

theorem announcements_follow_write_witness:
  "\<exists>ns' pre post. fst (snd (ex_run PathTerrestrial None None (- 130))) = pre @ UpdateStatus ns' # post
     \<and> FailoverCount (ns_Status ns') = FailoverCount (ns_Status (ex_live PathTerrestrial None None)) + 1"
proof -
  obtain r' effs res where run: "ex_run PathTerrestrial None None (- 130) = (r', effs, res)"
    by (cases "ex_run PathTerrestrial None None (- 130)")
  let ?e = "ex_eval PathTerrestrial None None (- 130)"
  let ?x = "IncFailoverTotal (om_Namespace (ns_Meta (ev_slice ?e))) (om_Name (ns_Meta (ev_slice ?e)))
      (currentPathOf (ex_live PathTerrestrial None None)) (TargetPath (ev_result ?e))"
  have "?x \<in> set effs" using run ex_failover
    by (auto simp: ex_live_reconcile commit_def persistStatusIfChanged_def Let_def split: if_splits)
  moreover have "announces ?x" by (simp add: announces_def)
  ultimately show ?thesis using announcements_follow_write [OF run] run by fastforce
qed

definition ex_io_broken :: "slice_io" where
  "ex_io_broken = (ex_io (ex_live PathTerrestrial None None) (Found (ex_eph [])) ex_t)\<lparr>io_status := Some (Errorf [])\<rparr>"

theorem failed_write_commits_nothing_witness:
  "let (r', effs, res) = Reconcile list_meta (fixed_ops (ex_metrics (- 130)) 5) ex_io_broken (ns_Key ex_slice) ex_rec
   in res = Inl (Errorf []) \<and> (\<nexists>x. x \<in> set effs \<and> announces x)"
proof -
  let ?R = "fixed_ops (ex_metrics (- 130)) 5" let ?ns = "ex_live PathTerrestrial None None"
  let ?io = "ex_io ?ns (Found (ex_eph [])) ex_t"
  obtain r' effs res where run: "Reconcile list_meta ?R ex_io_broken (ns_Key ex_slice) ex_rec = (r', effs, res)"
    by (cases "Reconcile list_meta ?R ex_io_broken (ns_Key ex_slice) ex_rec")
  have io: "io_get ex_io_broken = Found ?ns" "io_status ex_io_broken = Some (Errorf [])"
    "io_now ex_io_broken = io_now ?io" "io_eph ex_io_broken = io_eph ?io"
    by (simp_all add: ex_io_broken_def)
  have ev: "evaluate list_meta ?R ex_io_broken ex_rec ?ns = evaluate list_meta ?R ?io ex_rec ?ns"
    by (simp add: evaluate_def io)
  have "ns_Status ?ns \<noteq> ns_Status (ev_slice (evaluate list_meta ?R ?io ex_rec ?ns))"
    using switch_changes_status [OF refl, of ?ns list_meta ?R ?io ex_rec] ex_failover by auto
  then have "res = Inl (Errorf [])"
    using run Reconcile_live(1) [OF io(1), of list_meta ?R "ns_Key ex_slice" ex_rec]
    by (simp add: ev commit_def persistStatusIfChanged_def io Let_def)
  with failed_write_commits_nothing [where M = list_meta and R = ?R and io = ex_io_broken and r = ex_rec] run show ?thesis
    by auto
qed


definition ex_stored :: NTNSlice where
  "ex_stored = ex_live PathTerrestrial None
     (map_option (\<lambda>t. time_Truncate t second)
        (LastSwitchbackTime (ns_Status (ev_slice (ex_eval PathSatellite None None (- 95))))))"

theorem dwell_survives_restart_witness:
  "\<nexists>n s from to. IncFailoverTotal n s from to
     \<in> set (fst (snd (Reconcile list_meta (fixed_ops (ex_metrics (- 130)) 9)
        (ex_io ex_stored (Found (ex_eph [])) (ex_t + 30 * second)) (ns_Key ex_slice) ex_rec)))"
proof -
  let ?run = "Reconcile list_meta (fixed_ops (ex_metrics (- 130)) 9)
        (ex_io ex_stored (Found (ex_eph [])) (ex_t + 30 * second)) (ns_Key ex_slice) ex_rec"
  let ?io = "ex_io (ex_live PathSatellite None None) (Found (ex_eph [])) ex_t"
  obtain r' effs res where run: "?run = (r', effs, res)" by (cases ?run)
  obtain r1 effs1 res1 where first: "ex_run PathSatellite None None (- 95) = (r1, effs1, res1)"
    by (cases "ex_run PathSatellite None None (- 95)")
  let ?n = "ev_slice (ex_eval PathSatellite None None (- 95))"
  have w: "UpdateStatus ?n \<in> set effs1"
    using ex_written [where p = PathSatellite and c = None and l = None and rsrp = "- 95"] ex_handback first by simp
  have t: "second \<le> ex_t" "ex_t + 30 * second - time_Truncate ex_t second < minute" "is_int64 minute"
    by (simp_all add: ex_t_def time_Truncate_def UnixMilli_def unix_epoch_def is_int64_def min_int64_def max_int64_def)
  from dwell_survives_restart [OF first _ _ _ w ex_target(2) [OF ex_handback] _ _ _ _ _ _ _ run, of "ex_live PathSatellite None None" ex_stored]
  have "x \<in> set effs \<Longrightarrow> \<forall>n s from to. x \<noteq> IncFailoverTotal n s from to" for x
    using t by (auto simp: ex_contact currentPathOf_def ex_stored_def)
  then show ?thesis unfolding run by fastforce
qed

theorem streak_not_inherited_witness:
  "\<nexists>n s from to. IncFailoverTotal n s from to \<in> set (fst (snd (ex_run PathTerrestrial (Some 2) None (- 130))))"
proof -
  let ?run = "ex_run PathTerrestrial (Some 2) None (- 130)"
  obtain r' effs res where run: "?run = (r', effs, res)" by (cases ?run)
  have "(\<forall>ns s from to. x \<noteq> IncFailoverTotal ns s from to)
     \<and> (\<forall>ns'. x = UpdateStatus ns' \<longrightarrow> ActivePathType (ns_Status ns') = PathTerrestrial)" if "x \<in> set effs" for x
    by (rule streak_not_inherited [OF run that, where ns = "ex_live PathTerrestrial (Some 2) None" and n = 2])
      (auto simp: currentPathOf_def ex_rec_def)
  then show ?thesis unfolding run by fastforce
qed

definition ex_deleted :: NTNSlice where
  "ex_deleted = ex_slice\<lparr>ns_Meta := (AddFinalizer sliceMetricsFinalizer (ns_Meta ex_slice))\<lparr>om_DeletionTimestamp := Some ex_t\<rparr>\<rparr>"

theorem finalizer_releases_witness:
  "DeletePassAvailable (om_Namespace (ns_Meta ex_slice)) (EphemerisRef (SatellitePath (ns_Spec ex_slice)))
     \<in> set (fst (snd (Reconcile list_meta (fixed_ops (ex_metrics 0) 5) (ex_io ex_deleted NotFound ex_t) (ns_Key ex_slice) ex_rec)))"
proof -
  let ?run = "Reconcile list_meta (fixed_ops (ex_metrics 0) 5) (ex_io ex_deleted NotFound ex_t) (ns_Key ex_slice) ex_rec"
  obtain r' effs res where run: "?run = (r', effs, res)" by (cases ?run)
  have d: "io_get (ex_io ex_deleted NotFound ex_t) = Found ex_deleted"
    "om_DeletionTimestamp (ns_Meta ex_deleted) = Some ex_t"
    "sliceMetricsFinalizer \<in> set (om_Finalizers (ns_Meta ex_deleted))"
    by (simp_all add: ex_deleted_def AddFinalizer_def)
  from finalizer_releases [OF d run] run show ?thesis
    by (simp add: ex_deleted_def AddFinalizer_def)
qed

text \<open>An element set seven days old less ten milliseconds at \<open>ex_t\<close>: the satellite is still deliverable
  and its elements age out long before LOS.\<close>

definition ex_aging :: PropagatedState where
  "ex_aging = \<lparr>prop_Satellite = ''SAT'', prop_NoradID = 7, EpochUnixMs = 0, SourceEpochUnixMs = 10 - 7 * 24 * 60 * 60 * 1000,
     ECEF = \<lparr>PosX = 0, PosY = 0, PosZ = 0, VelX = 0, VelY = 0, VelZ = 0\<rparr>\<rparr>"

theorem subsecond_validity_churns_witness:
  "\<exists>ns'. UpdateStatus ns' \<in> set (fst (snd (Reconcile list_meta (fixed_ops (ex_metrics (- 95)) 5)
     (ex_io (ex_live PathTerrestrial None None) (Found (ex_eph [ex_aging])) ex_t) (ns_Key ex_slice) ex_rec)))"
proof -
  have fresh: "sourceEpochFresh ex_t (UnixMilli (SourceEpochUnixMs ex_aging)) = Inr ()"
    by (simp add: fresh_iff ex_t_def ex_aging_def UnixMilli_def maxEpochAge_def)
  have c: "candidate (checkSatelliteAvailability list_meta (Found (ex_eph [ex_aging])) ex_t) =
      Some (buildContactCandidate ex_window (Some ex_aging))"
    using fresh by (simp add: checkSatelliteAvailability_def ex_eph_def list_meta_def contact_step_def stale_norads_def state_of_def
      ex_window_def Let_def) (simp add: ex_aging_def)
  have v: "ValidUntil (buildContactCandidate ex_window (Some ex_aging)) = Some (ex_t + 10000000)"
    by (simp add: buildContactCandidate_def ex_aging_def ex_window_def ex_t_def UnixMilli_def time_Add_def maxEpochAge_def
        unix_epoch_def Let_def)
  have sub: "(ex_t + 10000000) mod second \<noteq> 0" by (simp add: ex_t_def UnixMilli_def unix_epoch_def)
  show ?thesis
    by (rule subsecond_validity_churns [OF _ _ _ _ _ _ v sub, where ns = "ex_live PathTerrestrial None None"])
      (simp_all add: ex_quality c)
qed

end
