(* ===== verification/Go_Sha256.thy ===== *)
theory Go_Sha256
  imports Go_Strings "HOL-Library.Word"
begin

text \<open>
  What the program uses of \<open>crypto/sha256\<close> and \<open>encoding/hex\<close>: \<open>sha256.Sum256\<close> (FIPS 180-4) on the
  bytes of a string, and \<open>hex.EncodeToString\<close>.
\<close>

unbundle bit_operations_syntax

type_synonym w32 = "32 word"

text \<open>The round constants and the initial hash value, in decimal.\<close>

definition sha_K :: "w32 list" where
  "sha_K =
    [1116352408, 1899447441, 3049323471, 3921009573, 961987163, 1508970993, 2453635748, 2870763221,
     3624381080, 310598401, 607225278, 1426881987, 1925078388, 2162078206, 2614888103, 3248222580,
     3835390401, 4022224774, 264347078, 604807628, 770255983, 1249150122, 1555081692, 1996064986,
     2554220882, 2821834349, 2952996808, 3210313671, 3336571891, 3584528711, 113926993, 338241895,
     666307205, 773529912, 1294757372, 1396182291, 1695183700, 1986661051, 2177026350, 2456956037,
     2730485921, 2820302411, 3259730800, 3345764771, 3516065817, 3600352804, 4094571909, 275423344,
     430227734, 506948616, 659060556, 883997877, 958139571, 1322822218, 1537002063, 1747873779,
     1955562222, 2024104815, 2227730452, 2361852424, 2428436474, 2756734187, 3204031479, 3329325298]"

definition sha_H0 :: "w32 list" where
  "sha_H0 = [1779033703, 3144134277, 1013904242, 2773480762, 1359893119, 2600822924, 528734635, 1541459225]"

definition small_sigma0 :: "w32 \<Rightarrow> w32" where
  "small_sigma0 x = (word_rotr 7 x XOR word_rotr 18 x) XOR drop_bit 3 x"

definition small_sigma1 :: "w32 \<Rightarrow> w32" where
  "small_sigma1 x = (word_rotr 17 x XOR word_rotr 19 x) XOR drop_bit 10 x"

definition big_sigma0 :: "w32 \<Rightarrow> w32" where
  "big_sigma0 x = (word_rotr 2 x XOR word_rotr 13 x) XOR word_rotr 22 x"

definition big_sigma1 :: "w32 \<Rightarrow> w32" where
  "big_sigma1 x = (word_rotr 6 x XOR word_rotr 11 x) XOR word_rotr 25 x"

text \<open>The message schedule, extended one word at a time from the sixteen words of a block.\<close>

definition schedule_step :: "w32 list \<Rightarrow> w32 list" where
  "schedule_step ws = (let n = length ws in
     ws @ [small_sigma1 (ws ! (n - 2)) + ws ! (n - 7) + small_sigma0 (ws ! (n - 15)) + ws ! (n - 16)])"

definition schedule :: "w32 list \<Rightarrow> w32 list" where
  "schedule block = (schedule_step ^^ 48) block"

definition sha_round :: "w32 \<times> w32 \<Rightarrow> w32 list \<Rightarrow> w32 list" where
  "sha_round kw v =
     (let a = v ! 0; b = v ! 1; c = v ! 2; d = v ! 3; e = v ! 4; f = v ! 5; g = v ! 6; h = v ! 7;
          t1 = h + big_sigma1 e + ((e AND f) XOR ((NOT e) AND g)) + fst kw + snd kw;
          t2 = big_sigma0 a + (((a AND b) XOR (a AND c)) XOR (b AND c))
      in [t1 + t2, a, b, c, d + t1, e, f, g])"

definition sha_block :: "w32 list \<Rightarrow> w32 list \<Rightarrow> w32 list" where
  "sha_block block H = map2 (+) H (fold sha_round (zip sha_K (schedule block)) H)"

fun be_words :: "w32 list \<Rightarrow> w32 list" where
  "be_words (a # b # c # d # rest) =
     (push_bit 24 a OR push_bit 16 b OR push_bit 8 c OR d) # be_words rest"
| "be_words _ = []"

function blocks :: "w32 list \<Rightarrow> w32 list list" where
  "blocks ws = (if ws = [] then [] else take 16 ws # blocks (drop 16 ws))"
  by pat_completeness auto
termination by (relation "measure length") (auto simp: neq_Nil_conv)

declare blocks.simps [simp del]

text \<open>The padding: a one bit, zeros, and the length in bits as a 64-bit big-endian number.\<close>

definition sha_pad :: "string \<Rightarrow> w32 list" where
  "sha_pad s = (let n = length s; bits = n * 8 in
     map of_char s @ [0x80] @ replicate ((119 - n mod 64) mod 64) 0
     @ map (\<lambda>i. of_nat (bits div 256 ^ (7 - i) mod 256)) [0..<8])"

definition be_bytes :: "w32 \<Rightarrow> nat list" where
  "be_bytes w = map (\<lambda>i. unat w div 256 ^ (3 - i) mod 256) [0..<4]"

definition Sum256 :: "string \<Rightarrow> nat list" where
  "Sum256 s = concat (map be_bytes (fold sha_block (blocks (be_words (sha_pad s))) sha_H0))"

definition hex_digit :: "nat \<Rightarrow> char" where
  "hex_digit n = ''0123456789abcdef'' ! n"

definition EncodeToString :: "nat list \<Rightarrow> string" where
  "EncodeToString bs = concat (map (\<lambda>b. [hex_digit (b div 16), hex_digit (b mod 16)]) bs)"

section \<open>Shape\<close>

lemma sha_fold_length:
  assumes "length H = 8"
  shows "length (fold sha_block bs H) = 8"
  using assms
proof (induction bs arbitrary: H)
  case (Cons b bs)
  have "length (fold sha_round xs v) = 8" if "length v = 8" for xs v
    using that by (induction xs arbitrary: v) (simp_all add: sha_round_def Let_def)
  with Cons show ?case by (simp add: sha_block_def)
qed simp

lemma Sum256_length: "length (Sum256 s) = 32"
proof -
  have four: "(\<lambda>w. length (be_bytes w)) = (\<lambda>_. 4)" by (simp add: be_bytes_def)
  have "length sha_H0 = 8" by (simp add: sha_H0_def)
  then show ?thesis
    using sha_fold_length [of sha_H0] by (simp add: Sum256_def length_concat comp_def four sum_list_triv)
qed

lemma Sum256_bytes: "b \<in> set (Sum256 s) \<Longrightarrow> b < 256"
  by (auto simp: Sum256_def be_bytes_def)

lemma EncodeToString_length [simp]: "length (EncodeToString bs) = 2 * length bs"
  by (induction bs) (simp_all add: EncodeToString_def)

lemma EncodeToString_chars:
  assumes "c \<in> set (EncodeToString bs)" "\<forall>b\<in>set bs. b < 256"
  shows "c \<in> set ''0123456789abcdef''"
proof -
  have "hex_digit n \<in> set ''0123456789abcdef''" if "n < 16" for n
    unfolding hex_digit_def using that by (intro nth_mem) simp
  then have "set [hex_digit (b div 16), hex_digit (b mod 16)] \<subseteq> set ''0123456789abcdef''" if "b < 256" for b
    using that by (simp del: set_simps add: list.set)
  with assms show ?thesis unfolding EncodeToString_def by fastforce
qed

end
