(* ===== verification/Maintenance_Window.thy ===== *)
theory Maintenance_Window
  imports Go_Strings
begin

text \<open>
  The maintenance window of a ground station, \<open>pkg/lifecycle/maintenance_window.go\<close>, and the pattern
  by which the API server admits one (\<open>FirmwareSpec.MaintenanceWindow\<close> of
  \<open>api/v1alpha1/groundstationlifecycle_types.go\<close>). \<open>time.Parse\<close> is modelled for the layout the code
  uses, \<open>15:04\<close>.
\<close>

section \<open>The window\<close>

text \<open>The regular expression \<open>maintenanceWindowRE\<close>: its two capture groups.\<close>

definition re_space :: "char list" where
  "re_space = [CHR 0x09, CHR 0x0A, CHR 0x0C, CHR 0x0D, CHR '' '']"

definition re_hhmm :: "string \<Rightarrow> bool" where
  "re_hhmm s \<longleftrightarrow> (case s of
     [a, b, c, d, e] \<Rightarrow> is_digit a \<and> is_digit b \<and> c = CHR '':'' \<and> is_digit d \<and> is_digit e
   | _ \<Rightarrow> False)"

definition re_zone :: "string \<Rightarrow> bool" where
  "re_zone r \<longleftrightarrow> r \<noteq> [] \<and> hd r \<in> set re_space \<and> dropWhile (\<lambda>c. c \<in> set re_space) r = ''UTC''"

definition FindStringSubmatch :: "string \<Rightarrow> (string \<times> string) option" where
  "FindStringSubmatch w =
     (let s = take 5 w; r = drop 5 w in
      if re_hhmm s \<and> r \<noteq> [] \<and> hd r = CHR ''-'' \<and> re_hhmm (take 5 (tl r)) \<and> re_zone (drop 5 (tl r))
      then Some (s, take 5 (tl r)) else None)"

definition digit :: "char \<Rightarrow> int" where
  "digit c = int (of_char c) - 48"

text \<open>\<open>getnum\<close> of package \<open>time\<close>: one or two digits, or exactly two if \<open>fixed\<close>.\<close>

fun getnum :: "bool \<Rightarrow> string \<Rightarrow> (int \<times> string) option" where
  "getnum fixed [] = None"
| "getnum fixed [a] = (if is_digit a \<and> \<not> fixed then Some (digit a, []) else None)"
| "getnum fixed (a # b # s) =
     (if \<not> is_digit a then None
      else if \<not> is_digit b then (if fixed then None else Some (digit a, b # s))
      else Some (digit a * 10 + digit b, s))"

definition parse_error :: "string \<Rightarrow> string \<Rightarrow> string \<Rightarrow> gerror" where
  "parse_error v elem layoutElem = Errorf [Lit ''parsing time '', Quoted v, Lit '' as '', Quoted ''15:04'',
     Lit '': cannot parse '', Quoted elem, Lit '' as '', Quoted layoutElem]"

definition range_error :: "string \<Rightarrow> msg \<Rightarrow> gerror" where
  "range_error v m = Errorf ([Lit ''parsing time '', Quoted v] @ m)"

text \<open>\<open>time.Parse("15:04", s)\<close>, and the minutes since midnight of the result.\<close>

definition parseHHMM :: "string \<Rightarrow> int result" where
  "parseHHMM s =
     (case getnum False s of
        None \<Rightarrow> Inl (parse_error s s ''15'')
      | Some (hh, r1) \<Rightarrow>
          if hh < 0 \<or> 24 \<le> hh then Inl (range_error s [Lit '': hour out of range''])
          else if r1 = [] \<or> hd r1 \<noteq> CHR '':'' then Inl (parse_error s r1 '':'')
          else (case getnum True (tl r1) of
                  None \<Rightarrow> Inl (parse_error s (tl r1) ''04'')
                | Some (mi, r2) \<Rightarrow>
                    if mi < 0 \<or> 60 \<le> mi then Inl (range_error s [Lit '': minute out of range''])
                    else if r2 \<noteq> [] then Inl (range_error s [Lit '': extra text: '', Quoted r2])
                    else Inr (hh * 60 + mi)))"

text \<open>\<open>Hour\<close> and \<open>Minute\<close> of a time in UTC.\<close>

definition time_Hour :: "time \<Rightarrow> int" where
  "time_Hour t = t div hour mod 24"

definition time_Minute :: "time \<Rightarrow> int" where
  "time_Minute t = t div minute mod 60"

definition IsWithinMaintenanceWindowWithContext :: "string \<Rightarrow> time \<Rightarrow> bool result" where
  "IsWithinMaintenanceWindowWithContext window now =
     (if window = '''' then Inr False
      else case FindStringSubmatch window of
          None \<Rightarrow> Inl (Errorf [Lit ''invalid maintenance window format '', Quoted window, Lit '': expected HH:MM-HH:MM UTC''])
        | Some (m1, m2) \<Rightarrow>
            (case parseHHMM m1 of
               Inl err \<Rightarrow> Inl (Wrapf (Lit ''invalid start time in window: '' # err_msg err) [err])
             | Inr startHM \<Rightarrow>
                 (case parseHHMM m2 of
                    Inl err \<Rightarrow> Inl (Wrapf (Lit ''invalid end time in window: '' # err_msg err) [err])
                  | Inr endHM \<Rightarrow>
                      if startHM = endHM
                      then Inl (Errorf [Lit ''invalid maintenance window: start and end are the same ('', Lit m1, Lit '')''])
                      else
                        (let nowMinutes = time_Hour now * 60 + time_Minute now
                         in if startHM < endHM
                            then Inr (nowMinutes \<ge> startHM \<and> nowMinutes < endHM)
                            else Inr (nowMinutes \<ge> startHM \<or> nowMinutes < endHM)))))"

definition IsWithinMaintenanceWindow :: "string \<Rightarrow> time \<Rightarrow> bool result" where
  "IsWithinMaintenanceWindow window now = IsWithinMaintenanceWindowWithContext window now"

section \<open>Admission\<close>

text \<open>The validation pattern of the field: hours 00 to 23 and minutes 00 to 59.\<close>

definition admitted_hhmm :: "string \<Rightarrow> bool" where
  "admitted_hhmm s \<longleftrightarrow> (case s of
     [a, b, c, d, e] \<Rightarrow> (a \<in> set ''01'' \<and> is_digit b \<or> a = CHR ''2'' \<and> b \<in> set ''0123'') \<and> c = CHR '':''
        \<and> d \<in> set ''012345'' \<and> is_digit e
   | _ \<Rightarrow> False)"

definition window_admitted :: "string \<Rightarrow> bool" where
  "window_admitted w \<longleftrightarrow> admitted_hhmm (take 5 w) \<and> drop 5 w \<noteq> [] \<and> hd (drop 5 w) = CHR ''-''
     \<and> admitted_hhmm (take 5 (drop 6 w)) \<and> re_zone (drop 11 w)"

section \<open>The window is a cyclic interval of the day\<close>

definition hhmm :: "string \<Rightarrow> int" where
  "hhmm s = (let d = (\<lambda>i. digit (s ! i)) in (d 0 * 10 + d 1) * 60 + d 3 * 10 + d 4)"

definition minute_of_day :: "time \<Rightarrow> int" where
  "minute_of_day t = t div minute mod 1440"

lemma minute_of_day_eq: "time_Hour t * 60 + time_Minute t = minute_of_day t"
proof -
  have "t div hour = t div minute div 60" by (simp add: zdiv_zmult2_eq [symmetric])
  then show ?thesis
    using mod_mult2_eq' [of "t div minute" 60 24] by (simp add: time_Hour_def time_Minute_def minute_of_day_def)
qed

lemma admitted_parse:
  assumes "admitted_hhmm s"
  shows "re_hhmm s \<and> parseHHMM s = Inr (hhmm s) \<and> 0 \<le> hhmm s \<and> hhmm s < 1440"
proof -
  obtain a b d e where s: "s = [a, b, CHR '':'', d, e]"
    and ab: "a \<in> set ''01'' \<and> is_digit b \<or> a = CHR ''2'' \<and> b \<in> set ''0123''"
    and de: "d \<in> set ''012345''" "is_digit e"
    using assms by (auto simp: admitted_hhmm_def split: list.splits)
  have dig: "is_digit c \<Longrightarrow> 0 \<le> digit c \<and> digit c \<le> 9" for c by (simp add: is_digit_def digit_def Let_def)
  have low: "is_digit a \<and> is_digit b \<and> 0 \<le> digit a * 10 + digit b \<and> digit a * 10 + digit b < 24"
    using ab
  proof
    assume x: "a \<in> set ''01'' \<and> is_digit b"
    then have "is_digit a \<and> 0 \<le> digit a \<and> digit a \<le> 1" by (auto simp: digit_def is_digit_def)
    with x dig [of b] show ?thesis by auto
  next
    assume x: "a = CHR ''2'' \<and> b \<in> set ''0123''"
    then have "is_digit b \<and> 0 \<le> digit b \<and> digit b \<le> 3" by (auto simp: digit_def is_digit_def)
    moreover have "is_digit (CHR ''2'')" "digit (CHR ''2'') = 2" by (simp_all add: digit_def is_digit_def)
    ultimately show ?thesis using x by auto
  qed
  have high: "is_digit d \<and> 0 \<le> digit d * 10 + digit e \<and> digit d * 10 + digit e < 60"
  proof -
    have "is_digit d \<and> 0 \<le> digit d \<and> digit d \<le> 5" using de(1) by (auto simp: digit_def is_digit_def)
    with dig [OF de(2)] show ?thesis by auto
  qed
  from low high de(2) show ?thesis unfolding s by (simp add: re_hhmm_def parseHHMM_def hhmm_def Let_def)
qed

lemma cyclic_interval:
  fixes s e x :: int
  assumes "0 \<le> s" "s < 1440" "0 \<le> e" "e < 1440" "0 \<le> x" "x < 1440" "s \<noteq> e"
  shows "(if s < e then s \<le> x \<and> x < e else s \<le> x \<or> x < e) \<longleftrightarrow> (x - s) mod 1440 < (e - s) mod 1440"
proof -
  have "(a - s) mod 1440 = (if s \<le> a then a - s else a - s + 1440)" if "0 \<le> a" "a < 1440" for a
  proof (cases "s \<le> a")
    case False
    then have "(a - s) mod 1440 = (a - s + 1440) mod 1440" by simp
    also have "\<dots> = a - s + 1440" using that assms False by (intro mod_pos_pos_trivial) auto
    finally show ?thesis using False by simp
  qed (use that assms in \<open>auto intro: mod_pos_pos_trivial\<close>)
  with assms show ?thesis by auto
qed

text \<open>C36: a maintenance window that the API server admits never fails to parse, and it is the cyclic
  interval of the day from its start (inclusive) to its end (exclusive): the time is within it exactly
  if the minutes elapsed since the start, modulo a day, are fewer than the length of the window. This
  covers windows across midnight. The one admitted window that is refused has equal ends.\<close>

theorem window_exact:
  assumes "window_admitted w"
  shows "let s = hhmm (take 5 w); e = hhmm (take 5 (drop 6 w)) in
    0 \<le> s \<and> s < 1440 \<and> 0 \<le> e \<and> e < 1440 \<and>
    (if s = e then \<exists>err. IsWithinMaintenanceWindow w now = Inl err
     else IsWithinMaintenanceWindow w now = Inr ((minute_of_day now - s) mod 1440 < (e - s) mod 1440))"
proof -
  let ?s = "hhmm (take 5 w)" let ?e = "hhmm (take 5 (drop 6 w))"
  have a: "admitted_hhmm (take 5 w)" "admitted_hhmm (take 5 (drop 6 w))" "drop 5 w \<noteq> []" "hd (drop 5 w) = CHR ''-''"
    "re_zone (drop 11 w)"
    using assms(1) by (simp_all add: window_admitted_def)
  have t: "tl (drop 5 w) = drop 6 w" "drop 5 (drop 6 w) = drop 11 w" by (simp_all add: tl_drop drop_Suc [symmetric] tl_def [symmetric] eval_nat_numeral)
  note p = admitted_parse [OF a(1)] admitted_parse [OF a(2)]
  have m: "FindStringSubmatch w = Some (take 5 w, take 5 (drop 6 w))"
    using a p by (simp add: FindStringSubmatch_def Let_def t)
  have "w \<noteq> ''''" using a(3) by auto
  have x: "0 \<le> minute_of_day now" "minute_of_day now < 1440" by (simp_all add: minute_of_day_def)
  show ?thesis
    using p m \<open>w \<noteq> ''''\<close> cyclic_interval [of ?s ?e "minute_of_day now"] x
    by (auto simp: IsWithinMaintenanceWindow_def IsWithinMaintenanceWindowWithContext_def Let_def minute_of_day_eq)
qed

theorem window_exact_witness:
  "window_admitted ''23:00-02:00 UTC'' \<and> IsWithinMaintenanceWindow ''23:00-02:00 UTC'' (UnixMilli (30 * 60 * 1000)) = Inr True"
proof -
  have a: "window_admitted ''23:00-02:00 UTC''"
    by (simp add: window_admitted_def admitted_hhmm_def re_zone_def re_space_def is_digit_def)
  have n: "minute_of_day (UnixMilli (30 * 60 * 1000)) = 30" by (simp add: minute_of_day_def UnixMilli_def unix_epoch_def)
  from window_exact [OF a, of "UnixMilli (30 * 60 * 1000)"] show ?thesis using a
    by (simp add: hhmm_def digit_def n [simplified])
qed

end
