(* ===== verification/Ground_Station.thy ===== *)
theory Ground_Station
  imports Kube_Meta Netutil Go_Sha256 Maintenance_Window
begin

text \<open>
  The GroundStationLifecycle resource (\<open>api/v1alpha1/groundstationlifecycle_types.go\<close>) and its
  controller (\<open>internal/controller/groundstationlifecycle_controller.go\<close>): the node label of a
  station and the watch that maps a node back to it, health and phase, firmware updates, and the
  reconcile loop. The record \<open>gs_io\<close> holds what the API server, the monitoring endpoint and the clock
  answer during one reconcile; the clock is read at four places and may advance between them.
\<close>

section \<open>API types\<close>

record HardwareSpec =
  Vendor :: string
  Model :: string
  AntennaType :: string
  Bands :: "string list"

record GeoLocation =
  Lat :: string
  Lon :: string
  Alt :: string

record DeploymentSpec =
  Location :: GeoLocation
  K8sDistro :: string
  GitopsRepo :: string

record MonitoringSpec =
  HealthCheckInterval :: duration
  mon_Endpoint :: string

record FirmwareSpec =
  AutoUpdate :: bool
  Channel :: string
  MaintenanceWindow :: string

record GroundStationLifecycleSpec =
  Hardware :: HardwareSpec
  Deployment :: DeploymentSpec
  Monitoring :: "MonitoringSpec option"
  Firmware :: "FirmwareSpec option"

definition PhaseProvisioning :: string where "PhaseProvisioning = ''Provisioning''"
definition PhaseRunning :: string where "PhaseRunning = ''Running''"
definition PhaseDegraded :: string where "PhaseDegraded = ''Degraded''"
definition PhaseOffline :: string where "PhaseOffline = ''Offline''"
definition PhaseUpdating :: string where "PhaseUpdating = ''Updating''"

record GroundStationLifecycleStatus =
  Phase :: string
  K8sVersion :: string
  FirmwareVersion :: string
  LastHealthCheck :: "time option"
  FirmwareUpdateStarted :: "time option"
  gst_Conditions :: "Condition list"

definition ConditionAntennaReady :: string where "ConditionAntennaReady = ''AntennaReady''"
definition ConditionRFLinkHealthy :: string where "ConditionRFLinkHealthy = ''RFLinkHealthy''"
definition ConditionK8sNodeReady :: string where "ConditionK8sNodeReady = ''K8sNodeReady''"
definition ConditionFirmwareUpToDate :: string where "ConditionFirmwareUpToDate = ''FirmwareUpToDate''"

record GroundStationLifecycle =
  gs_Meta :: ObjectMeta
  gs_Spec :: GroundStationLifecycleSpec
  gs_Status :: GroundStationLifecycleStatus

text \<open>What the controller reads of a Node.\<close>

record NodeCondition =
  nc_Type :: string
  nc_Status :: ConditionStatus

record Node =
  node_Meta :: ObjectMeta
  KubeletVersion :: string
  node_Conditions :: "NodeCondition list"

definition gs_Key :: "GroundStationLifecycle \<Rightarrow> NamespacedName" where
  "gs_Key gs = ObjectKeyFromObject (gs_Meta gs)"

definition gs_map :: "(GroundStationLifecycleStatus \<Rightarrow> GroundStationLifecycleStatus) \<Rightarrow> GroundStationLifecycle
    \<Rightarrow> GroundStationLifecycle" where
  "gs_map f gs = gs\<lparr>gs_Status := f (gs_Status gs)\<rparr>"

definition gs_set_cond :: "meta_api \<Rightarrow> string \<Rightarrow> ConditionStatus \<Rightarrow> string \<Rightarrow> msg \<Rightarrow> GroundStationLifecycle
    \<Rightarrow> GroundStationLifecycle" where
  "gs_set_cond M t s r m gs = gs_map (\<lambda>st. st\<lparr>gst_Conditions :=
     SetStatusCondition M (gst_Conditions st) (mkCond t s r m (om_Generation (gs_Meta gs)))\<rparr>) gs"

definition gs_remove_cond :: "meta_api \<Rightarrow> string \<Rightarrow> GroundStationLifecycle \<Rightarrow> GroundStationLifecycle" where
  "gs_remove_cond M t = gs_map (\<lambda>st. st\<lparr>gst_Conditions := RemoveStatusCondition M (gst_Conditions st) t\<rparr>)"

definition set_phase :: "string \<Rightarrow> GroundStationLifecycle \<Rightarrow> GroundStationLifecycle" where
  "set_phase p = gs_map (\<lambda>st. st\<lparr>Phase := p\<rparr>)"

section \<open>The node label\<close>

definition groundStationLabel :: string where "groundStationLabel = ''ntn.operators.dev/groundstation''"
definition firmwareVersionAnnotation :: string where
  "firmwareVersionAnnotation = ''ntn.operators.dev/firmware-version''"
definition availableFirmwareAnnotation :: string where
  "availableFirmwareAnnotation = ''ntn.operators.dev/available-firmware-version''"
definition firmwareUpdateTimeout :: duration where "firmwareUpdateTimeout = 30 * minute"
definition reasonNodeNotFound :: string where "reasonNodeNotFound = ''NodeNotFound''"
definition maxLabelValueLen :: int where "maxLabelValueLen = 63"

definition groundStationLabelValue :: "string \<Rightarrow> string \<Rightarrow> string" where
  "groundStationLabelValue namespace gsName =
     (let labelValue = namespace @ ''.'' @ gsName in
      if int (length labelValue) \<le> maxLabelValueLen then labelValue
      else
        (let suffix = EncodeToString (take 4 (Sum256 labelValue));
             pre = namespace @ ''.'';
             remaining = maxLabelValueLen - int (length pre) - 9
         in if remaining < 1
            then (let nsMax = min (maxLabelValueLen - 1 - 8) (int (length namespace));
                      truncNs = TrimRight (take (nat nsMax) namespace) ''-.''
                  in truncNs @ ''.'' @ suffix)
            else (let truncName = TrimRight (take (nat remaining) gsName) ''-.''
                  in if truncName = '''' then pre @ suffix
                     else pre @ truncName @ ''-'' @ suffix)))"

text \<open>The watch on nodes: \<open>get\<close>, \<open>list_ns\<close> and \<open>all\<close> are the answers of \<open>r.Get\<close>, of \<open>r.List\<close> in a namespace
  and of \<open>r.List\<close> over the cluster.\<close>

definition label_matches :: "string \<Rightarrow> GroundStationLifecycle list \<Rightarrow> NamespacedName list" where
  "label_matches labelValue items = map gs_Key
     (filter (\<lambda>gs. groundStationLabelValue (om_Namespace (gs_Meta gs)) (om_Name (gs_Meta gs)) = labelValue) items)"

definition nodeToGroundStation :: "(NamespacedName \<Rightarrow> GroundStationLifecycle get)
    \<Rightarrow> (string \<Rightarrow> GroundStationLifecycle list result) \<Rightarrow> GroundStationLifecycle list result \<Rightarrow> Node
    \<Rightarrow> NamespacedName list" where
  "nodeToGroundStation get list_ns all node =
     (case om_Labels (node_Meta node) groundStationLabel of
        None \<Rightarrow> []
      | Some labelValue \<Rightarrow>
          (case split2 ''.'' labelValue of
             None \<Rightarrow> []
           | Some (gsNamespace, gsName) \<Rightarrow>
               (let key = \<lparr>nn_Namespace = gsNamespace, nn_Name = gsName\<rparr>;
                    slow = (case list_ns gsNamespace of
                              Inl _ \<Rightarrow> [key]
                            | Inr items \<Rightarrow>
                                (let requests = label_matches labelValue items
                                 in if requests = [] \<and> maxLabelValueLen - 2 \<le> int (length labelValue)
                                    then (case all of
                                            Inl _ \<Rightarrow> [key]
                                          | Inr allGS \<Rightarrow> requests @ label_matches labelValue allGS)
                                    else requests))
                in case get key of
                     Found gs \<Rightarrow>
                       if groundStationLabelValue (om_Namespace (gs_Meta gs)) (om_Name (gs_Meta gs)) = labelValue
                       then [key] else slow
                   | GetError _ \<Rightarrow> [key]
                   | NotFound \<Rightarrow> slow)))"

section \<open>Answers and effects\<close>

record http_client =
  new_request :: "string \<Rightarrow> URL result"
  do_request :: "string \<Rightarrow> int result"

record gs_io =
  gio_get :: "GroundStationLifecycle get"
  gio_nodes :: "string \<Rightarrow> Node list result"
  gio_http :: "http_client option"
  gio_status :: "gerror option"
  gio_recorder :: bool
  now_health :: time
  now_timeout :: time
  now_window :: time
  now_start :: time

datatype gs_effect =
    DeleteHealth string string
  | SetHealth string string string int
  | UpdateStation GroundStationLifecycle
  | StationEvent deferredEvent

definition healthCheckInterval :: "GroundStationLifecycle \<Rightarrow> duration" where
  "healthCheckInterval gs =
     (case Monitoring (gs_Spec gs) of
        Some mon \<Rightarrow> if HealthCheckInterval mon > 0 then HealthCheckInterval mon else 30 * second
      | None \<Rightarrow> 30 * second)"

text \<open>\<open>ambiguousNodeError\<close>.\<close>

definition ambiguousNodeError :: "int \<Rightarrow> string \<Rightarrow> gerror" where
  "ambiguousNodeError count gsName = sentinel_error [Lit ''ambiguous node mapping: '', Num count,
     Lit '' nodes have label '', Lit groundStationLabel, Lit ''='', Lit gsName] AmbiguousNode"

definition findMatchingNode :: "gs_io \<Rightarrow> string \<Rightarrow> string \<Rightarrow> Node option result" where
  "findMatchingNode io namespace gsName =
     (case gio_nodes io (groundStationLabelValue namespace gsName) of
        Inl e \<Rightarrow> Inl (Wrapf (Lit ''listing nodes: '' # err_msg e) [e])
      | Inr [] \<Rightarrow> Inr None
      | Inr [n] \<Rightarrow> Inr (Some n)
      | Inr items \<Rightarrow> Inl (ambiguousNodeError (int (length items)) (namespace @ ''.'' @ gsName)))"

fun isNodeConditionTrue :: "NodeCondition list \<Rightarrow> string \<Rightarrow> bool" where
  "isNodeConditionTrue [] t = False"
| "isNodeConditionTrue (c # cs) t =
     (if nc_Type c = t then nc_Status c = ConditionTrue else isNodeConditionTrue cs t)"

definition checkHTTPEndpoint :: "http_client option \<Rightarrow> string \<Rightarrow> bool" where
  "checkHTTPEndpoint client endpoint =
     (case client of
        None \<Rightarrow> True
      | Some h \<Rightarrow>
          (case new_request h endpoint of
             Inl _ \<Rightarrow> False
           | Inr url \<Rightarrow>
               if Scheme url \<noteq> ''http'' \<and> Scheme url \<noteq> ''https'' then False
               else (case do_request h endpoint of
                       Inl _ \<Rightarrow> False
                     | Inr code \<Rightarrow> code \<ge> 200 \<and> code < 300)))"

section \<open>Health\<close>

definition health_error :: "meta_api \<Rightarrow> GroundStationLifecycle \<Rightarrow> gerror \<Rightarrow> GroundStationLifecycle" where
  "health_error M gs nodeErr =
     (let reason = (if errors_Is nodeErr AmbiguousNode then ''AmbiguousNodeMapping'' else ''APIError'');
          gs1 = gs_set_cond M ConditionK8sNodeReady ConditionFalse reason (err_msg nodeErr) gs;
          gs2 = gs_set_cond M ConditionAntennaReady ConditionUnknown ''NodeAPIError''
                  (Lit ''Cannot determine antenna status: '' # err_msg nodeErr) gs1;
          gs3 = gs_set_cond M ConditionRFLinkHealthy ConditionUnknown ''NodeAPIError''
                  (Lit ''Cannot determine RF link status: '' # err_msg nodeErr) gs2
      in set_phase PhaseOffline gs3)"

definition health_no_node :: "meta_api \<Rightarrow> GroundStationLifecycle \<Rightarrow> GroundStationLifecycle" where
  "health_no_node M gs =
     (let label = groundStationLabelValue (om_Namespace (gs_Meta gs)) (om_Name (gs_Meta gs));
          gs1 = gs_set_cond M ConditionK8sNodeReady ConditionFalse reasonNodeNotFound
                  [Lit ''No node with label '', Lit groundStationLabel, Lit ''='', Lit label, Lit '' found''] gs;
          gs2 = gs_set_cond M ConditionAntennaReady ConditionUnknown reasonNodeNotFound
                  [Lit ''Node not found, antenna status unknown''] gs1;
          gs3 = gs_set_cond M ConditionRFLinkHealthy ConditionUnknown reasonNodeNotFound
                  [Lit ''Node not found, RF link status unknown''] gs2
      in if Phase (gs_Status gs3) = '''' \<or> Phase (gs_Status gs3) = PhaseProvisioning
         then set_phase PhaseProvisioning gs3 else set_phase PhaseOffline gs3)"

text \<open>The phase from the node's conditions.\<close>

definition node_phase :: "meta_api \<Rightarrow> GroundStationLifecycleStatus \<Rightarrow> Node \<Rightarrow> string" where
  "node_phase M st node =
     (let nodeReady = isNodeConditionTrue (node_Conditions node) ''Ready'';
          memPressure = isNodeConditionTrue (node_Conditions node) ''MemoryPressure'';
          diskPressure = isNodeConditionTrue (node_Conditions node) ''DiskPressure'';
          pidPressure = isNodeConditionTrue (node_Conditions node) ''PIDPressure'';
          firmwareUncertain = (case FindStatusCondition M (gst_Conditions st) ConditionFirmwareUpToDate of
              None \<Rightarrow> False
            | Some c \<Rightarrow> cond_Reason c = ''UpdateInterrupted'' \<or> cond_Reason c = ''UpdateTimedOut'')
      in if \<not> nodeReady then PhaseOffline
         else if Phase st = PhaseUpdating then Phase st
         else if Phase st = PhaseDegraded \<and> firmwareUncertain then Phase st
         else if memPressure \<or> diskPressure \<or> pidPressure then PhaseDegraded
         else PhaseRunning)"

definition health_endpoint :: "meta_api \<Rightarrow> gs_io \<Rightarrow> GroundStationLifecycle \<Rightarrow> GroundStationLifecycle" where
  "health_endpoint M io gs =
     (case Monitoring (gs_Spec gs) of
        Some mon \<Rightarrow>
          if mon_Endpoint mon \<noteq> '''' then
            (if checkHTTPEndpoint (gio_http io) (mon_Endpoint mon)
             then gs_set_cond M ConditionRFLinkHealthy ConditionTrue ''EndpointHealthy''
                    [Lit ''Monitoring endpoint returned 2xx''] gs
             else gs_set_cond M ConditionRFLinkHealthy ConditionFalse ''EndpointUnhealthy''
                    [Lit ''Monitoring endpoint check failed'']
                    (if Phase (gs_Status gs) = PhaseRunning then set_phase PhaseDegraded gs else gs))
          else gs_remove_cond M ConditionRFLinkHealthy gs
      | None \<Rightarrow> gs_remove_cond M ConditionRFLinkHealthy gs)"

text \<open>The kubelet version and the conditions that follow from the node alone.\<close>

definition node_conditions :: "meta_api \<Rightarrow> GroundStationLifecycle \<Rightarrow> Node \<Rightarrow> GroundStationLifecycle" where
  "node_conditions M gs node =
     (let gs1 = gs_map (\<lambda>st. st\<lparr>K8sVersion := KubeletVersion node\<rparr>) gs;
          gs2 = (if isNodeConditionTrue (node_Conditions node) ''Ready''
                 then gs_set_cond M ConditionK8sNodeReady ConditionTrue ''NodeReady'' [Lit ''K8s node is ready''] gs1
                 else gs_set_cond M ConditionK8sNodeReady ConditionFalse ''NodeNotReady'' [Lit ''K8s node is not ready''] gs1)
      in gs_set_cond M ConditionAntennaReady ConditionUnknown ''NoAntennaProbe''
           [Lit ''antenna readiness cannot be determined: no hardware probe is implemented (tracked in issue #68); the Node being present says nothing about the antenna''] gs2)"

definition health_node :: "meta_api \<Rightarrow> gs_io \<Rightarrow> GroundStationLifecycle \<Rightarrow> Node \<Rightarrow> GroundStationLifecycle" where
  "health_node M io gs node =
     (let gs3 = node_conditions M gs node;
          gs4 = set_phase (node_phase M (gs_Status gs3) node) gs3;
          gs5 = (if Phase (gs_Status gs4) = PhaseRunning \<or> Phase (gs_Status gs4) = PhaseUpdating
                 then gs_map (\<lambda>st. st\<lparr>LastHealthCheck := Some (now_health io)\<rparr>) gs4 else gs4)
      in health_endpoint M io gs5)"

definition reconcileHealth :: "meta_api \<Rightarrow> gs_io \<Rightarrow> GroundStationLifecycle \<Rightarrow> Node option result \<Rightarrow> GroundStationLifecycle" where
  "reconcileHealth M io gs node =
     (case node of
        Inl nodeErr \<Rightarrow> health_error M gs nodeErr
      | Inr None \<Rightarrow> health_no_node M gs
      | Inr (Some n) \<Rightarrow> health_node M io gs n)"

section \<open>Firmware\<close>

text \<open>The value of an annotation, empty if absent (a map read of Go).\<close>

definition annotation :: "Node \<Rightarrow> string \<Rightarrow> string" where
  "annotation node key = (case om_Annotations (node_Meta node) key of Some v \<Rightarrow> v | None \<Rightarrow> '''')"

definition arrow :: string where
  "arrow = [CHR '' '', CHR 0xE2, CHR 0x86, CHR 0x92, CHR '' '']"

abbreviation fw_cond :: "meta_api \<Rightarrow> ConditionStatus \<Rightarrow> string \<Rightarrow> msg \<Rightarrow> GroundStationLifecycle \<Rightarrow> GroundStationLifecycle" where
  "fw_cond M s r m gs \<equiv> gs_set_cond M ConditionFirmwareUpToDate s r m gs"

definition firmware_sync :: "meta_api \<Rightarrow> GroundStationLifecycle \<Rightarrow> Node \<Rightarrow> GroundStationLifecycle" where
  "firmware_sync M gs node =
     (let gs1 = (case om_Annotations (node_Meta node) firmwareVersionAnnotation of
                   Some v \<Rightarrow> gs_map (\<lambda>st. st\<lparr>FirmwareVersion := v\<rparr>) gs
                 | None \<Rightarrow> gs);
          availableVersion = annotation node availableFirmwareAnnotation;
          currentVersion = FirmwareVersion (gs_Status gs1);
          upToDate = availableVersion = '''' \<or> currentVersion = availableVersion
      in if currentVersion = ''''
         then fw_cond M ConditionUnknown ''VersionUnknown'' [Lit ''Current firmware version not reported by node''] gs1
         else if \<not> upToDate
         then fw_cond M ConditionFalse ''UpdateAvailable''
                [Lit ''Update available: '', Lit currentVersion, Lit arrow, Lit availableVersion] gs1
         else fw_cond M ConditionTrue ''UpToDate'' [Lit ''Firmware '', Lit currentVersion, Lit '' is current''] gs1)"

text \<open>An update in progress: timed out, interrupted, completed or still running.\<close>

definition firmware_timed_out :: "gs_io \<Rightarrow> GroundStationLifecycleStatus \<Rightarrow> bool" where
  "firmware_timed_out io st \<longleftrightarrow> (case FirmwareUpdateStarted st of
     None \<Rightarrow> False | Some startedAt \<Rightarrow> time_Sub (now_timeout io) startedAt > firmwareUpdateTimeout)"

definition firmware_progress :: "meta_api \<Rightarrow> gs_io \<Rightarrow> GroundStationLifecycle \<Rightarrow> Node
    \<Rightarrow> GroundStationLifecycle \<times> deferredEvent list" where
  "firmware_progress M io gs node =
     (let availableVersion = annotation node availableFirmwareAnnotation;
          finish = (\<lambda>p. gs_map (\<lambda>st. st\<lparr>Phase := p, FirmwareUpdateStarted := None\<rparr>)) in
      if firmware_timed_out io (gs_Status gs)
      then (finish PhaseDegraded (fw_cond M ConditionFalse ''UpdateTimedOut''
              [Lit ''Firmware update exceeded 30-minute timeout''] gs),
            [\<lparr>ev_type = ''Warning'', ev_reason = ''FirmwareUpdateTimedOut'',
              ev_message = [Lit ''Firmware update started at '', TimeS (the (FirmwareUpdateStarted (gs_Status gs))),
                Lit '' timed out after 30m'']\<rparr>])
      else if availableVersion = ''''
      then (finish PhaseDegraded (fw_cond M ConditionUnknown ''UpdateInterrupted''
              [Lit ''Available firmware version annotation removed during update''] gs), [])
      else if annotation node firmwareVersionAnnotation = availableVersion
      then (finish PhaseRunning (fw_cond M ConditionTrue ''UpdateCompleted''
              [Lit ''Firmware updated to '', Lit availableVersion]
              (gs_map (\<lambda>st. st\<lparr>FirmwareVersion := availableVersion\<rparr>) gs)),
            [\<lparr>ev_type = ''Normal'', ev_reason = ''FirmwareUpdated'',
              ev_message = [Lit ''Firmware updated to '', Lit availableVersion]\<rparr>])
      else (gs, []))"

definition firmware_start :: "meta_api \<Rightarrow> gs_io \<Rightarrow> FirmwareSpec \<Rightarrow> GroundStationLifecycle \<Rightarrow> Node
    \<Rightarrow> GroundStationLifecycle \<times> deferredEvent list" where
  "firmware_start M io fw gs node =
     (let availableVersion = annotation node availableFirmwareAnnotation;
          currentVersion = FirmwareVersion (gs_Status gs);
          upToDate = availableVersion = '''' \<or> currentVersion = availableVersion;
          go = (gs_map (\<lambda>st. st\<lparr>Phase := PhaseUpdating, FirmwareUpdateStarted := Some (now_start io)\<rparr>) gs,
                [\<lparr>ev_type = ''Normal'', ev_reason = ''FirmwareUpdateStarted'',
                  ev_message = [Lit ''Starting firmware update from '', Lit currentVersion, Lit '' to '', Lit availableVersion]\<rparr>])
      in if \<not> upToDate \<and> AutoUpdate fw \<and> (Phase (gs_Status gs) = PhaseRunning \<or> Phase (gs_Status gs) = PhaseDegraded)
         then (if MaintenanceWindow fw \<noteq> '''' then
                 (case IsWithinMaintenanceWindowWithContext (MaintenanceWindow fw) (now_window io) of
                    Inl err \<Rightarrow> (fw_cond M ConditionFalse ''InvalidMaintenanceWindow''
                       ([Lit ''Cannot parse maintenance window '', Quoted (MaintenanceWindow fw), Lit '': ''] @ err_msg err) gs, [])
                  | Inr inWindow \<Rightarrow> if \<not> inWindow then (gs, []) else go)
               else go)
         else (gs, []))"

definition reconcileFirmware :: "meta_api \<Rightarrow> gs_io \<Rightarrow> GroundStationLifecycle \<Rightarrow> Node option
    \<Rightarrow> GroundStationLifecycle \<times> deferredEvent list" where
  "reconcileFirmware M io gs node =
     (case (Firmware (gs_Spec gs), node) of
        (None, _) \<Rightarrow> (gs_remove_cond M ConditionFirmwareUpToDate gs, [])
      | (Some fw, None) \<Rightarrow>
          (gs_map (\<lambda>st. st\<lparr>FirmwareVersion := ''''\<rparr>) (gs_remove_cond M ConditionFirmwareUpToDate gs), [])
      | (Some fw, Some n) \<Rightarrow>
          (let gs1 = firmware_sync M gs n
           in if Phase (gs_Status gs1) = PhaseUpdating then firmware_progress M io gs1 n
              else firmware_start M io fw gs1 n))"

section \<open>The reconcile loop\<close>

definition phase_event :: "string \<Rightarrow> string \<Rightarrow> deferredEvent list" where
  "phase_event previousPhase phase =
     (if previousPhase \<noteq> phase
      then [\<lparr>ev_type = (if phase = PhaseOffline \<or> phase = PhaseDegraded then ''Warning'' else ''Normal''),
             ev_reason = ''PhaseChanged'',
             ev_message = [Lit ''Phase transitioned from '', Lit previousPhase, Lit '' to '', Lit phase]\<rparr>]
      else [])"

definition health_value :: "meta_api \<Rightarrow> Condition list \<Rightarrow> string \<Rightarrow> int" where
  "health_value M cs t =
     (case FindStatusCondition M cs t of
        None \<Rightarrow> -1
      | Some c \<Rightarrow> (case cond_Status c of ConditionTrue \<Rightarrow> 1 | ConditionFalse \<Rightarrow> 0 | ConditionUnknown \<Rightarrow> -1))"

definition health_gauges :: "meta_api \<Rightarrow> GroundStationLifecycle \<Rightarrow> gs_effect list" where
  "health_gauges M gs = map (\<lambda>t. SetHealth (om_Namespace (gs_Meta gs)) (om_Name (gs_Meta gs)) t
       (health_value M (gst_Conditions (gs_Status gs)) t))
     [ConditionK8sNodeReady, ConditionAntennaReady, ConditionRFLinkHealthy]"

text \<open>Steps 2 to 5: the station with its new status, and the queued events.\<close>

definition gs_evaluate :: "meta_api \<Rightarrow> gs_io \<Rightarrow> GroundStationLifecycle \<Rightarrow> GroundStationLifecycle \<times> deferredEvent list" where
  "gs_evaluate M io gs =
     (let node = findMatchingNode io (om_Namespace (gs_Meta gs)) (om_Name (gs_Meta gs));
          gs1 = reconcileHealth M io gs node;
          (gs2, pending) = (case node of Inl _ \<Rightarrow> (gs1, []) | Inr n \<Rightarrow> reconcileFirmware M io gs1 n)
      in (gs2, pending @ phase_event (Phase (gs_Status gs)) (Phase (gs_Status gs2))))"

definition gs_Reconcile :: "meta_api \<Rightarrow> gs_io \<Rightarrow> NamespacedName \<Rightarrow> gs_effect list \<times> duration result" where
  "gs_Reconcile M io req =
     (case gio_get io of
        NotFound \<Rightarrow> ([DeleteHealth (nn_Namespace req) (nn_Name req)], Inr 0)
      | GetError e \<Rightarrow> ([], Inl e)
      | Found gs \<Rightarrow>
          (let (gs', pending) = gs_evaluate M io gs;
               gauges = health_gauges M gs';
               write = gs_Status gs \<noteq> gs_Status gs' \<or> pending \<noteq> []
           in case (write, gio_status io) of
                (True, Some e) \<Rightarrow> (gauges @ [UpdateStation gs'], Inl e)
              | _ \<Rightarrow> (gauges @ (if write then [UpdateStation gs'] else [])
                     @ (if gio_recorder io then map StationEvent pending else []),
                   Inr (healthCheckInterval gs))))"

end
