(* ===== verification/Ground_Label.thy ===== *)
theory Ground_Label
  imports Ground_Station
begin

text \<open>
  The node label of a ground station: it is always a valid Kubernetes label value, and the watch on
  nodes finds the station a label was made for, except for a truncated namespace.
\<close>

section \<open>Names and label values\<close>

text \<open>RFC 1123 names, as the API server validates namespaces and object names, and label values.\<close>

definition alnum :: "char \<Rightarrow> bool" where
  "alnum c \<longleftrightarrow> (let n = (of_char c :: nat) in 48 \<le> n \<and> n \<le> 57 \<or> 97 \<le> n \<and> n \<le> 122)"

definition dns_label :: "string \<Rightarrow> bool" where
  "dns_label s \<longleftrightarrow> s \<noteq> [] \<and> alnum (hd s) \<and> alnum (last s) \<and> list_all (\<lambda>c. alnum c \<or> c = CHR ''-'') s"

definition dns_subdomain :: "string \<Rightarrow> bool" where
  "dns_subdomain s \<longleftrightarrow> s \<noteq> [] \<and> alnum (hd s) \<and> alnum (last s)
     \<and> list_all (\<lambda>c. alnum c \<or> c = CHR ''-'' \<or> c = CHR ''.'') s"

definition label_value :: "string \<Rightarrow> bool" where
  "label_value s \<longleftrightarrow> length s \<le> 63 \<and> s \<noteq> [] \<and> alnum (hd s) \<and> alnum (last s)
     \<and> list_all (\<lambda>c. alnum c \<or> c \<in> set ''-_.'') s"

section \<open>The hash suffix\<close>

abbreviation label_suffix :: "string \<Rightarrow> string" where
  "label_suffix s \<equiv> EncodeToString (take 4 (Sum256 s))"

lemma suffix_length [simp]: "length (label_suffix s) = 8"
  by (simp add: Sum256_length)

lemma suffix_chars: "c \<in> set (label_suffix s) \<Longrightarrow> alnum c"
proof -
  assume "c \<in> set (label_suffix s)"
  then have "c \<in> set ''0123456789abcdef''"
    by (rule EncodeToString_chars) (auto dest!: in_set_takeD intro: Sum256_bytes)
  then show "alnum c" by (auto simp: alnum_def)
qed

lemma suffix_ne [simp]: "label_suffix s \<noteq> []"
  using suffix_length [of s] by (metis list.size(3) zero_neq_numeral)

lemma suffix_last: "alnum (last (label_suffix s))"
  by (rule suffix_chars [of _ s], rule last_in_set) (rule suffix_ne)

section \<open>Trimming\<close>

lemma TrimRight_set: "set (TrimRight s cs) \<subseteq> set s"
  by (auto simp: TrimRight_def dest: set_dropWhileD)

lemma TrimRight_hd: "s \<noteq> [] \<Longrightarrow> hd s \<notin> set cs \<Longrightarrow> TrimRight s cs \<noteq> [] \<and> hd (TrimRight s cs) = hd s"
proof -
  assume s: "s \<noteq> []" "hd s \<notin> set cs"
  let ?P = "\<lambda>c. c \<in> set cs"
  have eq: "rev (takeWhile ?P (rev s)) = drop (length (TrimRight s cs)) s" "s = TrimRight s cs @ rev (takeWhile ?P (rev s))"
    by (simp_all add: TrimRight_def flip: rev_append) (metis append_eq_conv_conj length_rev rev_append rev_rev_ident takeWhile_dropWhile_id)
  have "TrimRight s cs \<noteq> []"
  proof
    assume "TrimRight s cs = []"
    then have "dropWhile ?P (rev s) = []" by (simp add: TrimRight_def)
    then show False using s by (auto simp: dropWhile_eq_Nil_conv hd_in_set)
  qed
  then show ?thesis using eq(2) by (metis hd_append2)
qed

section \<open>The shape of the label\<close>

lemma label_short: "length ns + length n \<le> 62 \<Longrightarrow> groundStationLabelValue ns n = ns @ ''.'' @ n"
  by (simp add: groundStationLabelValue_def maxLabelValueLen_def)

lemma label_cases:
  obtains (short) "length ns + length n \<le> 62" "groundStationLabelValue ns n = ns @ ''.'' @ n"
    | (hashed) t where "62 < length ns + length n" "length ns \<le> 52" "set t \<subseteq> set n \<union> {CHR ''-''}" "length t \<le> 54 - length ns"
        "groundStationLabelValue ns n = ns @ ''.'' @ t @ label_suffix (ns @ ''.'' @ n)"
    | (truncated) t where "62 < length ns + length n" "52 < length ns" "t = TrimRight (take 54 ns) ''-.''"
        "groundStationLabelValue ns n = t @ ''.'' @ label_suffix (ns @ ''.'' @ n)"
proof (cases "length ns + length n \<le> 62")
  case True
  then show ?thesis using short label_short by blast
next
  case long: False
  show ?thesis
  proof (cases "52 < length ns")
    case True
    have "take (nat (min 54 (int (length ns)))) ns = take 54 ns" by (simp add: min_def)
    with True long truncated show ?thesis
      by (simp add: groundStationLabelValue_def maxLabelValueLen_def Let_def)
  next
    case False
    let ?t = "TrimRight (take (nat (53 - int (length ns))) n) ''-.''"
    have "length ?t \<le> 53 - length ns" using TrimRight_length [of "take (nat (53 - int (length ns))) n" "''-.''"] by simp linarith
    moreover have "set ?t \<subseteq> set n" using TrimRight_set in_set_takeD by fast
    ultimately have t: "set (if ?t = [] then [] else ?t @ ''-'') \<subseteq> set n \<union> {CHR ''-''}"
      "length (if ?t = [] then [] else ?t @ ''-'') \<le> 54 - length ns" using False by auto
    show ?thesis
      by (rule hashed [OF _ _ t]) (use False long in \<open>auto simp: groundStationLabelValue_def maxLabelValueLen_def Let_def\<close>)
  qed
qed

text \<open>The label value of a station is a valid Kubernetes label value for every namespace and
  name the API server accepts: at most 63 characters, only allowed ones, an alphanumeric first
  and last. In particular a hashed or truncated name never ends in a separator.\<close>

theorem label_always_valid:
  assumes "dns_label ns" "dns_subdomain n"
  shows "label_value (groundStationLabelValue ns n)"
proof (cases rule: label_cases [of ns n])
  case short
  then show ?thesis using assms
    by (auto simp: label_value_def dns_label_def dns_subdomain_def list_all_iff)
next
  case (hashed t)
  then show ?thesis using assms suffix_last [of "ns @ ''.'' @ n"] suffix_chars [of _ "ns @ ''.'' @ n"]
    by (auto simp: label_value_def dns_label_def dns_subdomain_def list_all_iff simp del: EncodeToString_length)
next
  case (truncated t)
  have "take 54 ns \<noteq> []" "hd (take 54 ns) \<notin> set ''-.''"
    using assms(1) by (auto simp: dns_label_def hd_take alnum_def)
  then have "t \<noteq> []" "hd t = hd ns" using TrimRight_hd [of "take 54 ns" "''-.''"] truncated(3) by (simp_all add: hd_take)
  moreover have "set t \<subseteq> set ns" "length t \<le> 54"
    using TrimRight_set [of "take 54 ns" "''-.''"] TrimRight_length [of "take 54 ns" "''-.''"] truncated(3)
    by (auto dest: in_set_takeD)
  ultimately show ?thesis using truncated(4) assms suffix_last [of "ns @ ''.'' @ n"] suffix_chars [of _ "ns @ ''.'' @ n"]
    by (auto simp: label_value_def dns_label_def list_all_iff simp del: EncodeToString_length)
qed


theorem label_always_valid_witness:
  "label_value (groundStationLabelValue (replicate 63 (CHR ''a'')) ''gs'')"
  by (rule label_always_valid) (simp_all add: dns_label_def dns_subdomain_def alnum_def list_all_iff)

section \<open>From a node back to its station\<close>

text \<open>The reads against a cluster that holds the given stations.\<close>

definition store_get :: "GroundStationLifecycle list \<Rightarrow> NamespacedName \<Rightarrow> GroundStationLifecycle get" where
  "store_get objs key = (case find (\<lambda>g. gs_Key g = key) objs of Some g \<Rightarrow> Found g | None \<Rightarrow> NotFound)"

definition store_list :: "GroundStationLifecycle list \<Rightarrow> string \<Rightarrow> GroundStationLifecycle list result" where
  "store_list objs ns = Inr (filter (\<lambda>g. om_Namespace (gs_Meta g) = ns) objs)"

definition map_node :: "GroundStationLifecycle list \<Rightarrow> Node \<Rightarrow> NamespacedName list" where
  "map_node objs = nodeToGroundStation (store_get objs) (store_list objs) (Inr objs)"

abbreviation gs_label :: "GroundStationLifecycle \<Rightarrow> string" where
  "gs_label g \<equiv> groundStationLabelValue (om_Namespace (gs_Meta g)) (om_Name (gs_Meta g))"

lemma split2_dot: "CHR ''.'' \<notin> set a \<Longrightarrow> split2 ''.'' (a @ ''.'' @ b) = Some (a, b)"
  by (induction a) auto

lemma label_matches_filter: "label_matches lv (filter P objs) = map gs_Key (filter (\<lambda>g. P g \<and> gs_label g = lv) objs)"
  by (simp add: label_matches_def conj_commute)

lemma filter_unique: "distinct xs \<Longrightarrow> x \<in> set xs \<Longrightarrow> (\<And>y. y \<in> set xs \<Longrightarrow> P y \<longleftrightarrow> y = x) \<Longrightarrow> filter P xs = [x]"
  by (induction xs) (auto simp: filter_empty_conv)

lemma gs_Key_eq: "gs_Key a = gs_Key b \<longleftrightarrow> om_Namespace (gs_Meta a) = om_Namespace (gs_Meta b) \<and> om_Name (gs_Meta a) = om_Name (gs_Meta b)"
  by (simp add: gs_Key_def ObjectKeyFromObject_def)

text \<open>The watch on nodes finds the station. Let a node carry the label of a station of the
  cluster and let no other station have the same label (a hash collision). Then a change of the node
  enqueues exactly that station, whether its label is the plain name, a hashed name or a
  truncated namespace, as long as in the last case the label has at least 61 characters.\<close>

theorem node_maps_to_station:
  assumes "g \<in> set objs" "distinct objs" "CHR ''.'' \<notin> set (om_Namespace (gs_Meta g))"
    "\<forall>h\<in>set objs. gs_label h = gs_label g \<longrightarrow> h = g"
    "om_Labels (node_Meta node) groundStationLabel = Some (gs_label g)"
    "length (om_Namespace (gs_Meta g)) \<le> 52 \<or> 61 \<le> length (gs_label g)"
  shows "map_node objs node = [gs_Key g]"
proof -
  let ?ns = "om_Namespace (gs_Meta g)" let ?n = "om_Name (gs_Meta g)" let ?lv = "gs_label g"
  have all: "label_matches ?lv objs = [gs_Key g]"
    unfolding label_matches_def by (subst filter_unique [OF assms(2,1)]) (use assms(4) in auto)
  have ns: "label_matches ?lv (filter (\<lambda>h. om_Namespace (gs_Meta h) = m) objs) = (if m = ?ns then [gs_Key g] else [])" for m
  proof (cases "m = ?ns")
    case True
    then show ?thesis unfolding label_matches_filter by (subst filter_unique [OF assms(2,1)]) (use assms(4) in auto)
  qed (use assms(4) in \<open>auto simp: label_matches_filter filter_empty_conv\<close>)
  have found: "\<exists>h\<in>set objs. store_get objs k = Found h \<and> gs_Key h = k" if "store_get objs k \<noteq> NotFound" for k
    using that by (auto simp: store_get_def find_Some_iff split: option.splits)
  have no_err: "store_get objs k \<noteq> GetError e" for k e by (auto simp: store_get_def split: option.splits)
  obtain m r where sp: "split2 ''.'' ?lv = Some (m, r)" and m: "m = ?ns \<or> 61 \<le> length ?lv"
  proof (cases rule: label_cases [of ?ns ?n])
    case (truncated t)
    then have "CHR ''.'' \<notin> set t" using assms(3) TrimRight_set [of "take 54 ?ns" "''-.''"] by (auto dest: in_set_takeD)
    then show ?thesis using that truncated split2_dot assms(6) by auto
  qed (use that split2_dot [OF assms(3)] in auto)
  have key: "\<lparr>nn_Namespace = m, nn_Name = r\<rparr> = gs_Key g" if "store_get objs \<lparr>nn_Namespace = m, nn_Name = r\<rparr> = Found h" "gs_label h = ?lv" for h
    using that found [of "\<lparr>nn_Namespace = m, nn_Name = r\<rparr>"] assms(4) by auto
  show ?thesis
    using sp m key no_err assms(5)
    by (auto simp: map_node_def nodeToGroundStation_def store_list_def Let_def ns all maxLabelValueLen_def split: get.splits)
qed


section \<open>Examples\<close>

definition ex_meta :: "string \<Rightarrow> string \<Rightarrow> ObjectMeta" where
  "ex_meta ns n = \<lparr>om_Name = n, om_Namespace = ns, om_UID = ''u'', om_Generation = 1, om_DeletionTimestamp = None,
     om_Finalizers = [], om_Annotations = Map.empty, om_Labels = Map.empty\<rparr>"

definition zero_station_status :: GroundStationLifecycleStatus where
  "zero_station_status = \<lparr>Phase = '''', K8sVersion = '''', FirmwareVersion = '''', LastHealthCheck = None,
     FirmwareUpdateStarted = None, gst_Conditions = []\<rparr>"

definition ex_station :: "string \<Rightarrow> string \<Rightarrow> FirmwareSpec option \<Rightarrow> GroundStationLifecycleStatus \<Rightarrow> GroundStationLifecycle" where
  "ex_station ns n fw st = \<lparr>gs_Meta = ex_meta ns n,
     gs_Spec = \<lparr>Hardware = \<lparr>Vendor = ''ennoconn'', Model = ''m'', AntennaType = '''', Bands = []\<rparr>,
       Deployment = \<lparr>Location = \<lparr>Lat = ''25.0'', Lon = ''121.5'', Alt = ''''\<rparr>, K8sDistro = ''k3s'', GitopsRepo = ''''\<rparr>,
       Monitoring = None, Firmware = fw\<rparr>,
     gs_Status = st\<rparr>"

definition ex_node :: "string \<Rightarrow> (string \<rightharpoonup> string) \<Rightarrow> NodeCondition list \<Rightarrow> Node" where
  "ex_node label annotations conds = \<lparr>node_Meta = (ex_meta '''' ''edge'')\<lparr>om_Labels := [groundStationLabel \<mapsto> label],
     om_Annotations := annotations\<rparr>, KubeletVersion = ''v1.34'', node_Conditions = conds\<rparr>"

lemma ex_station_simps [simp]:
  "om_Namespace (gs_Meta (ex_station ns n fw st)) = ns" "om_Name (gs_Meta (ex_station ns n fw st)) = n"
  "gs_Status (ex_station ns n fw st) = st" "Firmware (gs_Spec (ex_station ns n fw st)) = fw"
  "Monitoring (gs_Spec (ex_station ns n fw st)) = None"
  "om_Labels (node_Meta (ex_node l an cs)) = [groundStationLabel \<mapsto> l]"
  "om_Annotations (node_Meta (ex_node l an cs)) = an" "node_Conditions (ex_node l an cs) = cs"
  by (simp_all add: ex_station_def ex_meta_def ex_node_def)

text \<open>A name of 60 characters: the label is hashed.\<close>

theorem node_maps_to_station_witness:
  "let g = ex_station ''edge'' (replicate 60 (CHR ''a'')) None zero_station_status
   in map_node [g] (ex_node (gs_label g) Map.empty []) = [gs_Key g]"
  unfolding Let_def by (rule node_maps_to_station) simp_all

text \<open>A truncated namespace can lose its station. When the name is too long the namespace is cut
  to 54 characters and trailing separators are trimmed, which can make the label shorter than 61
  characters; the watch then skips the search over all namespaces. The station below has a valid
  namespace and name, and a change of the node that carries its label enqueues nothing.\<close>

theorem truncated_namespace_is_lost:
  "let ns = replicate 50 (CHR ''a'') @ ''----'' @ replicate 9 (CHR ''b'');
       g = ex_station ns ''gs'' None zero_station_status
   in dns_label ns \<and> dns_subdomain ''gs'' \<and> length (gs_label g) = 59
      \<and> map_node [g] (ex_node (gs_label g) Map.empty []) = []"
proof -
  let ?a = "replicate 50 (CHR ''a'')" let ?ns = "?a @ ''----'' @ replicate 9 (CHR ''b'')"
  let ?g = "ex_station ?ns ''gs'' None zero_station_status"
  have t: "TrimRight (take 54 ?ns) ''-.'' = ?a" by (simp add: TrimRight_def)
  have lv: "gs_label ?g = ?a @ ''.'' @ label_suffix (?ns @ ''.'' @ ''gs'')"
    by (cases rule: label_cases [of ?ns "''gs''"]) (auto simp: t [simplified])
  have sp: "split2 ''.'' (gs_label ?g) = Some (?a, label_suffix (?ns @ ''.'' @ ''gs''))"
    unfolding lv by (rule split2_dot) simp
  have ne: "?ns \<noteq> ?a" by simp
  have len: "length (gs_label ?g) = 59" unfolding lv by (simp del: EncodeToString_length)
  have "map_node [?g] (ex_node (gs_label ?g) Map.empty []) = []"
    using sp len ne by (simp add: map_node_def nodeToGroundStation_def store_get_def store_list_def label_matches_def
        gs_Key_def ObjectKeyFromObject_def maxLabelValueLen_def Let_def)
  moreover have "dns_label ?ns" "dns_subdomain ''gs''" by (simp_all add: dns_label_def dns_subdomain_def alnum_def list_all_iff)
  ultimately show ?thesis using len by (simp only: Let_def simp_thms)
qed

end
