(* ===== verification/Ground_Laws.thy ===== *)
theory Ground_Laws
  imports Ground_Label
begin

text \<open>
  The phase machine of a ground station over any history of reconciles: the phases it can be in, what a
  firmware update needs to start, and how an update ends.
\<close>

section \<open>What each step keeps\<close>

lemma gs_map_simps [simp]:
  "gs_Meta (gs_map f gs) = gs_Meta gs" "gs_Spec (gs_map f gs) = gs_Spec gs" "gs_Status (gs_map f gs) = f (gs_Status gs)"
  by (simp_all add: gs_map_def)

lemma gs_cond_simps [simp]:
  "gs_Meta (gs_set_cond M t s r m gs) = gs_Meta gs" "gs_Spec (gs_set_cond M t s r m gs) = gs_Spec gs"
  "Phase (gs_Status (gs_set_cond M t s r m gs)) = Phase (gs_Status gs)"
  "FirmwareVersion (gs_Status (gs_set_cond M t s r m gs)) = FirmwareVersion (gs_Status gs)"
  "FirmwareUpdateStarted (gs_Status (gs_set_cond M t s r m gs)) = FirmwareUpdateStarted (gs_Status gs)"
  "LastHealthCheck (gs_Status (gs_set_cond M t s r m gs)) = LastHealthCheck (gs_Status gs)"
  "gs_Meta (gs_remove_cond M t gs) = gs_Meta gs" "gs_Spec (gs_remove_cond M t gs) = gs_Spec gs"
  "Phase (gs_Status (gs_remove_cond M t gs)) = Phase (gs_Status gs)"
  "FirmwareVersion (gs_Status (gs_remove_cond M t gs)) = FirmwareVersion (gs_Status gs)"
  "FirmwareUpdateStarted (gs_Status (gs_remove_cond M t gs)) = FirmwareUpdateStarted (gs_Status gs)"
  "LastHealthCheck (gs_Status (gs_remove_cond M t gs)) = LastHealthCheck (gs_Status gs)"
  by (simp_all add: gs_set_cond_def gs_remove_cond_def)

lemma set_phase_simps [simp]:
  "gs_Meta (set_phase p gs) = gs_Meta gs" "gs_Spec (set_phase p gs) = gs_Spec gs" "Phase (gs_Status (set_phase p gs)) = p"
  "FirmwareVersion (gs_Status (set_phase p gs)) = FirmwareVersion (gs_Status gs)"
  "FirmwareUpdateStarted (gs_Status (set_phase p gs)) = FirmwareUpdateStarted (gs_Status gs)"
  "LastHealthCheck (gs_Status (set_phase p gs)) = LastHealthCheck (gs_Status gs)"
  by (simp_all add: set_phase_def)

lemma phases_distinct [simp]:
  "PhaseRunning \<noteq> PhaseUpdating" "PhaseDegraded \<noteq> PhaseUpdating" "PhaseOffline \<noteq> PhaseUpdating" "PhaseProvisioning \<noteq> PhaseUpdating"
  "PhaseUpdating \<noteq> PhaseRunning" "PhaseUpdating \<noteq> PhaseDegraded" "PhaseUpdating \<noteq> PhaseOffline" "PhaseUpdating \<noteq> PhaseProvisioning"
  "PhaseDegraded \<noteq> PhaseRunning" "PhaseRunning \<noteq> PhaseDegraded" "PhaseOffline \<noteq> PhaseRunning" "PhaseOffline \<noteq> PhaseDegraded"
  "PhaseProvisioning \<noteq> PhaseRunning" "PhaseProvisioning \<noteq> PhaseDegraded" "PhaseUpdating \<noteq> ''''"
  by (simp_all add: PhaseRunning_def PhaseUpdating_def PhaseDegraded_def PhaseOffline_def PhaseProvisioning_def)

definition phases :: "string set" where
  "phases = {PhaseProvisioning, PhaseRunning, PhaseDegraded, PhaseOffline, PhaseUpdating}"

abbreviation node_ready :: "Node \<Rightarrow> bool" where
  "node_ready n \<equiv> isNodeConditionTrue (node_Conditions n) ''Ready''"

lemma health_endpoint_keeps [simp]:
  "gs_Meta (health_endpoint M io gs) = gs_Meta gs" "gs_Spec (health_endpoint M io gs) = gs_Spec gs"
  "FirmwareUpdateStarted (gs_Status (health_endpoint M io gs)) = FirmwareUpdateStarted (gs_Status gs)"
  "FirmwareVersion (gs_Status (health_endpoint M io gs)) = FirmwareVersion (gs_Status gs)"
  "LastHealthCheck (gs_Status (health_endpoint M io gs)) = LastHealthCheck (gs_Status gs)"
  by (simp_all add: health_endpoint_def split: option.splits)

lemma health_endpoint_phase:
  "Phase (gs_Status (health_endpoint M io gs)) = Phase (gs_Status gs)
   \<or> Phase (gs_Status gs) = PhaseRunning \<and> Phase (gs_Status (health_endpoint M io gs)) = PhaseDegraded"
  by (simp add: health_endpoint_def split: option.splits)

lemma node_conditions_keeps [simp]:
  "gs_Meta (node_conditions M gs n) = gs_Meta gs" "gs_Spec (node_conditions M gs n) = gs_Spec gs"
  "FirmwareUpdateStarted (gs_Status (node_conditions M gs n)) = FirmwareUpdateStarted (gs_Status gs)"
  "FirmwareVersion (gs_Status (node_conditions M gs n)) = FirmwareVersion (gs_Status gs)"
  "Phase (gs_Status (node_conditions M gs n)) = Phase (gs_Status gs)"
  by (simp_all add: node_conditions_def Let_def)

lemma health_node_keeps [simp]:
  "gs_Meta (health_node M io gs n) = gs_Meta gs" "gs_Spec (health_node M io gs n) = gs_Spec gs"
  "FirmwareUpdateStarted (gs_Status (health_node M io gs n)) = FirmwareUpdateStarted (gs_Status gs)"
  "FirmwareVersion (gs_Status (health_node M io gs n)) = FirmwareVersion (gs_Status gs)"
  by (simp_all add: health_node_def Let_def)

lemma health_node_phase:
  "Phase (gs_Status (health_node M io gs n)) = node_phase M (gs_Status (node_conditions M gs n)) n
   \<or> node_phase M (gs_Status (node_conditions M gs n)) n = PhaseRunning \<and> Phase (gs_Status (health_node M io gs n)) = PhaseDegraded"
  using health_endpoint_phase [of M io "let gs4 = set_phase (node_phase M (gs_Status (node_conditions M gs n)) n) (node_conditions M gs n)
      in if Phase (gs_Status gs4) = PhaseRunning \<or> Phase (gs_Status gs4) = PhaseUpdating
         then gs_map (\<lambda>st. st\<lparr>LastHealthCheck := Some (now_health io)\<rparr>) gs4 else gs4"]
  unfolding health_node_def Let_def by (auto split: if_splits)

lemma health_keeps [simp]:
  "gs_Meta (reconcileHealth M io gs node) = gs_Meta gs" "gs_Spec (reconcileHealth M io gs node) = gs_Spec gs"
  "FirmwareUpdateStarted (gs_Status (reconcileHealth M io gs node)) = FirmwareUpdateStarted (gs_Status gs)"
  "FirmwareVersion (gs_Status (reconcileHealth M io gs node)) = FirmwareVersion (gs_Status gs)"
  by (simp_all add: reconcileHealth_def health_error_def health_no_node_def Let_def split: sum.splits option.splits)

text \<open>The phase after the health step is one of the five, Updating only for a station that was updating
  and has a ready node, and Running or Degraded only with a ready node.\<close>

lemma health_phase:
  "Phase (gs_Status (reconcileHealth M io gs node)) \<in> phases"
  "Phase (gs_Status (reconcileHealth M io gs node)) = PhaseUpdating \<longleftrightarrow>
     Phase (gs_Status gs) = PhaseUpdating \<and> (\<exists>n. node = Inr (Some n) \<and> node_ready n)"
  "Phase (gs_Status (reconcileHealth M io gs node)) \<in> {PhaseRunning, PhaseDegraded}
     \<Longrightarrow> \<exists>n. node = Inr (Some n) \<and> node_ready n"
proof -
  have np: "node_phase M st n \<in> phases" "node_phase M st n = PhaseUpdating \<longleftrightarrow> Phase st = PhaseUpdating \<and> node_ready n"
    "node_phase M st n \<in> {PhaseRunning, PhaseDegraded} \<Longrightarrow> node_ready n" for st n
    by (auto simp: node_phase_def phases_def Let_def split: if_splits)
  have d: "PhaseDegraded \<in> phases" "PhaseOffline \<in> phases" "PhaseProvisioning \<in> phases" by (simp_all add: phases_def)
  consider e where "node = Inl e" | "node = Inr None" | n where "node = Inr (Some n)" by (metis not_Some_eq sum.exhaust)
  then have "Phase (gs_Status (reconcileHealth M io gs node)) \<in> phases
    \<and> (Phase (gs_Status (reconcileHealth M io gs node)) = PhaseUpdating \<longleftrightarrow>
        Phase (gs_Status gs) = PhaseUpdating \<and> (\<exists>n. node = Inr (Some n) \<and> node_ready n))
    \<and> (Phase (gs_Status (reconcileHealth M io gs node)) \<in> {PhaseRunning, PhaseDegraded}
        \<longrightarrow> (\<exists>n. node = Inr (Some n) \<and> node_ready n))"
  proof cases
    case (3 n)
    then show ?thesis
      using health_node_phase [of M io gs n] np [of "gs_Status (node_conditions M gs n)" n] d
      by (auto simp: reconcileHealth_def)
  qed (use d in \<open>auto simp: reconcileHealth_def health_error_def health_no_node_def Let_def\<close>)
  then show "Phase (gs_Status (reconcileHealth M io gs node)) \<in> phases"
    "Phase (gs_Status (reconcileHealth M io gs node)) = PhaseUpdating \<longleftrightarrow>
      Phase (gs_Status gs) = PhaseUpdating \<and> (\<exists>n. node = Inr (Some n) \<and> node_ready n)"
    "Phase (gs_Status (reconcileHealth M io gs node)) \<in> {PhaseRunning, PhaseDegraded}
      \<Longrightarrow> \<exists>n. node = Inr (Some n) \<and> node_ready n" by blast+
qed

lemma firmware_sync_keeps [simp]:
  "gs_Meta (firmware_sync M gs n) = gs_Meta gs" "gs_Spec (firmware_sync M gs n) = gs_Spec gs"
  "Phase (gs_Status (firmware_sync M gs n)) = Phase (gs_Status gs)"
  "FirmwareUpdateStarted (gs_Status (firmware_sync M gs n)) = FirmwareUpdateStarted (gs_Status gs)"
  by (simp_all add: firmware_sync_def Let_def split: option.splits)

text \<open>Whether an update may start on a node, and how one in progress ends.\<close>

definition may_start :: "gs_io \<Rightarrow> FirmwareSpec \<Rightarrow> string \<Rightarrow> Node \<Rightarrow> bool" where
  "may_start io fw current n \<longleftrightarrow> AutoUpdate fw \<and> annotation n availableFirmwareAnnotation \<notin> {'''', current}
     \<and> (MaintenanceWindow fw = '''' \<or> IsWithinMaintenanceWindowWithContext (MaintenanceWindow fw) (now_window io) = Inr True)"

lemma firmware_start_cases:
  assumes "firmware_start M io fw gs n = (gs', pending)"
  obtains (started) "may_start io fw (FirmwareVersion (gs_Status gs')) n" "Phase (gs_Status gs) \<in> {PhaseRunning, PhaseDegraded}"
      "Phase (gs_Status gs') = PhaseUpdating" "FirmwareUpdateStarted (gs_Status gs') = Some (now_start io)"
    | (kept) "Phase (gs_Status gs') = Phase (gs_Status gs)"
        "FirmwareUpdateStarted (gs_Status gs') = FirmwareUpdateStarted (gs_Status gs)"
  using assms by (auto simp: firmware_start_def may_start_def Let_def split: if_splits sum.splits)

lemma firmware_progress_cases:
  assumes "firmware_progress M io gs n = (gs', pending)"
  obtains (ended) "Phase (gs_Status gs') \<in> {PhaseRunning, PhaseDegraded}" "FirmwareUpdateStarted (gs_Status gs') = None"
    | (running) "gs' = gs" "\<not> firmware_timed_out io (gs_Status gs)"
  using assms by (auto simp: firmware_progress_def Let_def split: if_splits)

text \<open>The reconcile as a case analysis on the health step.\<close>

definition station_node :: "gs_io \<Rightarrow> GroundStationLifecycle \<Rightarrow> Node option result" where
  "station_node io gs = findMatchingNode io (om_Namespace (gs_Meta gs)) (om_Name (gs_Meta gs))"

lemma evaluate_cases:
  assumes "gs_evaluate M io gs = (gs', pending)"
  obtains (health) "Phase (gs_Status gs') = Phase (gs_Status (reconcileHealth M io gs (station_node io gs)))"
      "FirmwareUpdateStarted (gs_Status gs') = FirmwareUpdateStarted (gs_Status gs)"
      "Firmware (gs_Spec gs) = None \<or> \<not> (\<exists>n. station_node io gs = Inr (Some n))"
    | (start) fw n where "Firmware (gs_Spec gs) = Some fw" "station_node io gs = Inr (Some n)"
        "Phase (gs_Status (reconcileHealth M io gs (station_node io gs))) \<in> {PhaseRunning, PhaseDegraded}"
        "may_start io fw (FirmwareVersion (gs_Status gs')) n"
        "Phase (gs_Status gs') = PhaseUpdating" "FirmwareUpdateStarted (gs_Status gs') = Some (now_start io)"
    | (same) "Phase (gs_Status gs') = Phase (gs_Status (reconcileHealth M io gs (station_node io gs)))"
        "FirmwareUpdateStarted (gs_Status gs') = FirmwareUpdateStarted (gs_Status gs)"
        "Phase (gs_Status gs') = PhaseUpdating \<longrightarrow> \<not> firmware_timed_out io (gs_Status gs)"
    | (ended) "Phase (gs_Status gs') \<in> {PhaseRunning, PhaseDegraded}" "FirmwareUpdateStarted (gs_Status gs') = None"
proof -
  let ?h = "reconcileHealth M io gs (station_node io gs)"
  show ?thesis
  proof (cases "\<exists>fw n. Firmware (gs_Spec gs) = Some fw \<and> station_node io gs = Inr (Some n)")
    case False
    then show ?thesis using assms health
      by (auto simp: gs_evaluate_def reconcileFirmware_def station_node_def Let_def split: sum.splits option.splits)
  next
    case True
    then obtain fw n where fn: "Firmware (gs_Spec gs) = Some fw" "station_node io gs = Inr (Some n)" by blast
    let ?s = "firmware_sync M ?h n"
    have st: "firmware_timed_out io (gs_Status ?s) = firmware_timed_out io (gs_Status gs)"
      by (simp add: firmware_timed_out_def)
    consider q where "firmware_progress M io ?s n = (gs', q)" "Phase (gs_Status ?h) = PhaseUpdating"
      | q where "firmware_start M io fw ?s n = (gs', q)" "Phase (gs_Status ?h) \<noteq> PhaseUpdating"
      using assms fn by (auto simp: gs_evaluate_def reconcileFirmware_def station_node_def Let_def split: if_splits prod.splits)
    then show ?thesis
    proof cases
      case 1
      from 1(1) show ?thesis by (cases rule: firmware_progress_cases) (use 1(2) st same ended in auto)
    next
      case 2
      from 2(1) show ?thesis
        by (cases rule: firmware_start_cases) (use 2(2) fn same start in auto)
    qed
  qed
qed


section \<open>Histories\<close>

text \<open>What the API server stores of a status: \<open>metav1.Time\<close> keeps whole seconds.\<close>

definition stored_status :: "GroundStationLifecycleStatus \<Rightarrow> GroundStationLifecycleStatus" where
  "stored_status st = st\<lparr>LastHealthCheck := map_option (\<lambda>t. time_Truncate t second) (LastHealthCheck st),
     FirmwareUpdateStarted := map_option (\<lambda>t. time_Truncate t second) (FirmwareUpdateStarted st)\<rparr>"

lemma stored_status_simps [simp]:
  "Phase (stored_status st) = Phase st" "FirmwareUpdateStarted (stored_status st) = None \<longleftrightarrow> FirmwareUpdateStarted st = None"
  by (simp_all add: stored_status_def)

text \<open>The statuses a station can have: the empty one of a new object, and what a reconcile writes, of
  any station with a reachable status (its spec may have been edited in between), on any answers.\<close>

inductive station_reach :: "meta_api \<Rightarrow> GroundStationLifecycleStatus \<Rightarrow> bool" for M where
  new: "station_reach M zero_station_status"
| reconcile: "station_reach M (gs_Status gs) \<Longrightarrow> gio_get io = Found gs
    \<Longrightarrow> UpdateStation gs' \<in> set (fst (gs_Reconcile M io req)) \<Longrightarrow> station_reach M (stored_status (gs_Status gs'))"

inductive_simps station_reach_simps: "station_reach M st"

definition station_inv :: "GroundStationLifecycleStatus \<Rightarrow> bool" where
  "station_inv st \<longleftrightarrow> Phase st \<in> insert '''' phases \<and> (Phase st = PhaseUpdating \<longrightarrow> FirmwareUpdateStarted st \<noteq> None)"

lemma gauges_no_write: "UpdateStation gs \<notin> set (health_gauges M g)" "StationEvent e \<notin> set (health_gauges M g)"
  by (auto simp: health_gauges_def)

lemma reconcile_writes:
  assumes "gio_get io = Found gs" "UpdateStation gs' \<in> set (fst (gs_Reconcile M io req))"
  obtains pending where "gs_evaluate M io gs = (gs', pending)"
  using assms gauges_no_write by (cases "gs_evaluate M io gs") (auto simp: gs_Reconcile_def Let_def split: option.splits if_splits bool.splits)

lemma evaluate_inv:
  assumes "gs_evaluate M io gs = (gs', pending)" "station_inv (gs_Status gs)"
  shows "Phase (gs_Status gs') \<in> phases \<and> (Phase (gs_Status gs') = PhaseUpdating \<longrightarrow> FirmwareUpdateStarted (gs_Status gs') \<noteq> None)"
  using assms(1)
proof (cases rule: evaluate_cases)
  case health
  then show ?thesis using assms(2) health_phase(1,2) [of M io gs "station_node io gs"] by (auto simp: station_inv_def)
next
  case same
  then show ?thesis using assms(2) health_phase(1,2) [of M io gs "station_node io gs"] by (auto simp: station_inv_def)
qed (auto simp: phases_def)

lemma station_reach_inv: "station_reach M st \<Longrightarrow> station_inv st"
proof (induction rule: station_reach.induct)
  case (reconcile gs io gs' req)
  from reconcile(2,3) obtain pending where "gs_evaluate M io gs = (gs', pending)" by (rule reconcile_writes)
  then show ?case using evaluate_inv [OF _ reconcile.IH] by (auto simp: station_inv_def)
qed (simp add: station_inv_def zero_station_status_def PhaseUpdating_def)

text \<open>C34: over any history of reconciles, node states and spec edits, the phase of a station is one of
  the five of the API (or empty on a new object), and a station that is Updating has the start time its
  timeout is measured from.\<close>

theorem station_phase_invariant:
  assumes "station_reach M st"
  shows "Phase st \<in> {'''', PhaseProvisioning, PhaseRunning, PhaseDegraded, PhaseOffline, PhaseUpdating}
    \<and> (Phase st = PhaseUpdating \<longrightarrow> FirmwareUpdateStarted st \<noteq> None)"
  using station_reach_inv [OF assms] by (simp add: station_inv_def phases_def)


lemma phase_change_written:
  assumes "gio_get io = Found gs" "gs_evaluate M io gs = (gs', pending)" "Phase (gs_Status gs') \<noteq> Phase (gs_Status gs)"
  shows "UpdateStation gs' \<in> set (fst (gs_Reconcile M io req))"
  using assms by (auto simp: gs_Reconcile_def Let_def split: option.splits)

lemma health_from_updating:
  assumes "Phase (gs_Status gs) = PhaseUpdating"
  shows "Phase (gs_Status (reconcileHealth M io gs node)) =
    (if \<exists>n. node = Inr (Some n) \<and> node_ready n then PhaseUpdating else PhaseOffline)"
proof -
  consider e where "node = Inl e" | "node = Inr None" | n where "node = Inr (Some n)" by (metis not_Some_eq sum.exhaust)
  then show ?thesis
  proof cases
    case (3 n)
    have "node_phase M (gs_Status (node_conditions M gs n)) n = (if node_ready n then PhaseUpdating else PhaseOffline)"
      using assms by (simp add: node_phase_def)
    then show ?thesis using 3 health_node_phase [of M io gs n] by (auto simp: reconcileHealth_def split: if_splits)
  qed (use assms in \<open>simp_all add: reconcileHealth_def health_error_def health_no_node_def Let_def\<close>)
qed

text \<open>An update does not hang. Once 30 minutes have passed since the recorded start, the next
  reconcile of a reachable station that is Updating and has a firmware section writes a status whose
  phase is no longer Updating, whatever the node reports and whether or not it can be found.\<close>

theorem update_times_out:
  assumes "station_reach M (gs_Status gs)" "gio_get io = Found gs" "Phase (gs_Status gs) = PhaseUpdating"
    "Firmware (gs_Spec gs) = Some fw"
    "\<And>s. FirmwareUpdateStarted (gs_Status gs) = Some s \<Longrightarrow> firmwareUpdateTimeout < now_timeout io - s"
  shows "\<exists>gs'. UpdateStation gs' \<in> set (fst (gs_Reconcile M io req)) \<and> Phase (gs_Status gs') \<in> {PhaseRunning, PhaseDegraded, PhaseOffline}"
proof -
  obtain s where s: "FirmwareUpdateStarted (gs_Status gs) = Some s"
    using station_reach_inv [OF assms(1)] assms(3) by (auto simp: station_inv_def)
  have "is_int64 firmwareUpdateTimeout" "firmwareUpdateTimeout \<noteq> max_int64"
    by (simp_all add: firmwareUpdateTimeout_def is_int64_def min_int64_def max_int64_def)
  then have out: "firmware_timed_out io (gs_Status gs)"
    using assms(5) [OF s] s by (simp add: firmware_timed_out_def time_Sub_gt_iff)
  obtain gs' pending where ev: "gs_evaluate M io gs = (gs', pending)" by (cases "gs_evaluate M io gs")
  note hp = health_from_updating [OF assms(3), of M io "station_node io gs"]
  from ev have left: "Phase (gs_Status gs') \<in> {PhaseRunning, PhaseDegraded, PhaseOffline}"
  proof (cases rule: evaluate_cases)
    case health
    then show ?thesis using hp assms(4) by auto
  next
    case same
    then show ?thesis using hp out by (auto split: if_splits)
  qed (use hp in \<open>auto split: if_splits\<close>)
  then have "Phase (gs_Status gs') \<noteq> Phase (gs_Status gs)" using assms(3) by auto
  then show ?thesis using phase_change_written [OF assms(2) ev, of req] left by blast
qed

text \<open>C35: an update starts only when it may. A reconcile that brings a station into Updating found
  exactly one node for it, that node is ready and offers a version that differs from the current one,
  automatic updates are on, and the maintenance window, if one is set, contains the present time; the
  start time is recorded with the phase.\<close>

theorem update_starts_only_when_allowed:
  assumes "gio_get io = Found gs" "UpdateStation gs' \<in> set (fst (gs_Reconcile M io req))"
    "Phase (gs_Status gs') = PhaseUpdating" "Phase (gs_Status gs) \<noteq> PhaseUpdating"
  shows "\<exists>fw n. Firmware (gs_Spec gs) = Some fw \<and> AutoUpdate fw
    \<and> gio_nodes io (gs_label gs) = Inr [n] \<and> isNodeConditionTrue (node_Conditions n) ''Ready''
    \<and> annotation n availableFirmwareAnnotation \<notin> {'''', FirmwareVersion (gs_Status gs')}
    \<and> (MaintenanceWindow fw = '''' \<or> IsWithinMaintenanceWindow (MaintenanceWindow fw) (now_window io) = Inr True)
    \<and> FirmwareUpdateStarted (gs_Status gs') = Some (now_start io)"
proof -
  from assms(1,2) obtain pending where ev: "gs_evaluate M io gs = (gs', pending)" by (rule reconcile_writes)
  note hp = health_phase [of M io gs "station_node io gs"]
  from ev show ?thesis
  proof (cases rule: evaluate_cases)
    case (start fw n)
    then have "node_ready n" using hp(3) by auto
    moreover have "gio_nodes io (gs_label gs) = Inr [n]"
      using start(2) by (auto simp: station_node_def findMatchingNode_def split: sum.splits list.splits)
    ultimately show ?thesis using start by (auto simp: may_start_def IsWithinMaintenanceWindow_def)
  qed (use hp assms(3,4) in auto)
qed

text \<open>A sequence of reconciles of one station, each on the status the one before it wrote.\<close>

fun station_run :: "meta_api \<Rightarrow> gs_io list \<Rightarrow> GroundStationLifecycle \<Rightarrow> GroundStationLifecycle" where
  "station_run M [] gs = gs"
| "station_run M (io # ios) gs = station_run M ios (gs_map stored_status (fst (gs_evaluate M io gs)))"

text \<open>Removing the firmware section during an update leaves the station in Updating for good: the
  timeout is only checked for a station with a firmware section, and the health step preserves Updating
  on a ready node. However many reconciles follow and however much time passes, the phase
  stays Updating while the node is ready.\<close>

theorem removed_firmware_stays_updating:
  assumes "Phase (gs_Status gs) = PhaseUpdating" "Firmware (gs_Spec gs) = None"
    "\<forall>io\<in>set ios. \<exists>n. gio_nodes io (gs_label gs) = Inr [n] \<and> isNodeConditionTrue (node_Conditions n) ''Ready''"
  shows "Phase (gs_Status (station_run M ios gs)) = PhaseUpdating"
  using assms
proof (induction ios arbitrary: gs)
  case (Cons io ios)
  obtain n where n: "station_node io gs = Inr (Some n)" "node_ready n"
    using Cons.prems(3) by (auto simp: station_node_def findMatchingNode_def)
  let ?g = "fst (gs_evaluate M io gs)"
  have g: "?g = gs_remove_cond M ConditionFirmwareUpToDate (reconcileHealth M io gs (Inr (Some n)))"
    using n Cons.prems(2) by (simp add: gs_evaluate_def reconcileFirmware_def station_node_def Let_def)
  have "Phase (gs_Status ?g) = PhaseUpdating"
    using health_phase(2) [of M io gs "Inr (Some n)"] n Cons.prems(1) by (auto simp: g)
  moreover have "gs_Meta ?g = gs_Meta gs" "gs_Spec ?g = gs_Spec gs" by (simp_all add: g)
  ultimately show ?case using Cons.IH [of "gs_map stored_status ?g"] Cons.prems(2,3) by simp
qed simp


lemma evaluate_health_check:
  assumes "station_node io gs = Inr (Some n)" "node_phase M (gs_Status (node_conditions M gs n)) n \<in> {PhaseRunning, PhaseUpdating}"
  shows "LastHealthCheck (gs_Status (fst (gs_evaluate M io gs))) = Some (now_health io)"
proof -
  have h: "LastHealthCheck (gs_Status (reconcileHealth M io gs (Inr (Some n)))) = Some (now_health io)"
    using assms(2) by (auto simp: reconcileHealth_def health_node_def Let_def)
  have "LastHealthCheck (gs_Status (fst (reconcileFirmware M io g (Some n)))) = LastHealthCheck (gs_Status g)" for g
    by (auto simp: reconcileFirmware_def firmware_progress_def firmware_start_def firmware_sync_def Let_def
        split: option.splits sum.splits)
  then show ?thesis using assms(1) h by (simp add: gs_evaluate_def station_node_def Let_def case_prod_beta)
qed

text \<open>A healthy station is written on every reconcile. For a ready node without resource pressure
  and a station that is not Degraded the health step records the present time as the last health check,
  so unless the stored one is of this very instant the status differs and is written, although nothing
  else changed and \<open>Reconcile\<close> means to skip the write of a steady state.\<close>

theorem healthy_station_always_written:
  assumes "gio_get io = Found gs" "gio_nodes io (gs_label gs) = Inr [n]" "isNodeConditionTrue (node_Conditions n) ''Ready''"
    "\<forall>p\<in>{''MemoryPressure'', ''DiskPressure'', ''PIDPressure''}. \<not> isNodeConditionTrue (node_Conditions n) p"
    "Phase (gs_Status gs) \<noteq> PhaseDegraded" "LastHealthCheck (gs_Status gs) \<noteq> Some (now_health io)"
  shows "\<exists>gs'. UpdateStation gs' \<in> set (fst (gs_Reconcile M io req))"
proof -
  have sn: "station_node io gs = Inr (Some n)" using assms(2) by (simp add: station_node_def findMatchingNode_def)
  have "node_phase M (gs_Status (node_conditions M gs n)) n \<in> {PhaseRunning, PhaseUpdating}"
    using assms(3-5) by (simp add: node_phase_def)
  from evaluate_health_check [OF sn this] assms(6)
  have "gs_Status gs \<noteq> gs_Status (fst (gs_evaluate M io gs))" by auto
  then show ?thesis using assms(1)
    by (cases "gs_evaluate M io gs") (auto simp: gs_Reconcile_def Let_def split: option.splits)
qed

section \<open>Examples\<close>

definition ex_gio :: "GroundStationLifecycle \<Rightarrow> Node \<Rightarrow> time \<Rightarrow> gs_io" where
  "ex_gio g n t = \<lparr>gio_get = Found g, gio_nodes = (\<lambda>_. Inr [n]), gio_http = None, gio_status = None, gio_recorder = True,
     now_health = t, now_timeout = t, now_window = t, now_start = t\<rparr>"

definition ex_edge :: Node where
  "ex_edge = ex_node ''edge.gs'' [firmwareVersionAnnotation \<mapsto> ''v1'', availableFirmwareAnnotation \<mapsto> ''v2'']
     [\<lparr>nc_Type = ''Ready'', nc_Status = ConditionTrue\<rparr>]"

definition ex_fw :: FirmwareSpec where
  "ex_fw = \<lparr>AutoUpdate = True, Channel = ''stable'', MaintenanceWindow = ''00:00-06:00 UTC''\<rparr>"

abbreviation ex_new :: GroundStationLifecycle where
  "ex_new \<equiv> ex_station ''edge'' ''gs'' (Some ex_fw) zero_station_status"

abbreviation ex_now :: time where
  "ex_now \<equiv> UnixMilli 0"

lemma ex_gio_simps [simp]:
  "gio_get (ex_gio g n t) = Found g" "gio_nodes (ex_gio g n t) l = Inr [n]" "now_health (ex_gio g n t) = t"
  "now_timeout (ex_gio g n t) = t" "now_window (ex_gio g n t) = t" "now_start (ex_gio g n t) = t"
  by (simp_all add: ex_gio_def)

lemma ex_edge_simps [simp]:
  "node_Conditions ex_edge = [\<lparr>nc_Type = ''Ready'', nc_Status = ConditionTrue\<rparr>]"
  "annotation ex_edge availableFirmwareAnnotation = ''v2''"
  "om_Annotations (node_Meta ex_edge) firmwareVersionAnnotation = Some ''v1''"
  by (simp_all add: ex_edge_def annotation_def availableFirmwareAnnotation_def firmwareVersionAnnotation_def)

lemma ex_fw_simps [simp]: "AutoUpdate ex_fw" "MaintenanceWindow ex_fw = ''00:00-06:00 UTC''"
  by (simp_all add: ex_fw_def)

text \<open>A new station with a ready node and a newer firmware starts its update.\<close>

lemma ex_started:
  "Phase (gs_Status (fst (gs_evaluate list_meta (ex_gio ex_new ex_edge ex_now) ex_new))) = PhaseUpdating"
  "FirmwareUpdateStarted (gs_Status (fst (gs_evaluate list_meta (ex_gio ex_new ex_edge ex_now) ex_new))) = Some ex_now"
proof -
  let ?io = "ex_gio ex_new ex_edge ex_now"
  have h: "Phase (gs_Status (reconcileHealth list_meta ?io ex_new (Inr (Some ex_edge)))) = PhaseRunning"
    by (simp add: reconcileHealth_def health_node_def health_endpoint_def node_phase_def Let_def zero_station_status_def
        PhaseUpdating_def PhaseDegraded_def)
  have w: "IsWithinMaintenanceWindowWithContext ''00:00-06:00 UTC'' ex_now = Inr True"
    by (simp add: IsWithinMaintenanceWindowWithContext_def FindStringSubmatch_def re_hhmm_def re_zone_def re_space_def
        parseHHMM_def is_digit_def digit_def minute_of_day_eq minute_of_day_def UnixMilli_def unix_epoch_def Let_def)
  have "FirmwareVersion (gs_Status (firmware_sync M g ex_edge)) = ''v1''" for M g
    by (simp add: firmware_sync_def Let_def)
  then show "Phase (gs_Status (fst (gs_evaluate list_meta ?io ex_new))) = PhaseUpdating"
    "FirmwareUpdateStarted (gs_Status (fst (gs_evaluate list_meta ?io ex_new))) = Some ex_now"
    by (simp_all add: gs_evaluate_def findMatchingNode_def reconcileFirmware_def firmware_start_def h w Let_def)
qed

lemma ex_station_written: "gio_get io = Found gs \<Longrightarrow> Phase (gs_Status (fst (gs_evaluate M io gs))) \<noteq> Phase (gs_Status gs)
    \<Longrightarrow> UpdateStation (fst (gs_evaluate M io gs)) \<in> set (fst (gs_Reconcile M io req))"
  using phase_change_written [of io gs M "fst (gs_evaluate M io gs)" "snd (gs_evaluate M io gs)" req] by simp

lemma ex_start_written: "UpdateStation (fst (gs_evaluate list_meta (ex_gio ex_new ex_edge ex_now) ex_new))
    \<in> set (fst (gs_Reconcile list_meta (ex_gio ex_new ex_edge ex_now) req))"
proof (rule ex_station_written)
  have "Phase zero_station_status = ''''" by (simp add: zero_station_status_def)
  then show "Phase (gs_Status (fst (gs_evaluate list_meta (ex_gio ex_new ex_edge ex_now) ex_new))) \<noteq> Phase (gs_Status ex_new)"
    by (simp add: ex_started)
qed simp

definition ex_updating :: GroundStationLifecycleStatus where
  "ex_updating = stored_status (gs_Status (fst (gs_evaluate list_meta (ex_gio ex_new ex_edge ex_now) ex_new)))"

lemma ex_updating_simps [simp]:
  "Phase ex_updating = PhaseUpdating" "FirmwareUpdateStarted ex_updating = Some ex_now"
proof -
  have "time_Truncate ex_now second = ex_now" by (simp add: time_Truncate_def UnixMilli_def unix_epoch_def)
  then show "Phase ex_updating = PhaseUpdating" "FirmwareUpdateStarted ex_updating = Some ex_now"
    by (simp_all add: ex_updating_def ex_started stored_status_def)
qed

lemma ex_reached: "station_reach list_meta ex_updating"
  unfolding ex_updating_def
  by (rule station_reach.reconcile [OF _ _ ex_start_written]) (simp_all add: station_reach.new)

theorem station_phase_invariant_witness:
  "station_reach list_meta ex_updating \<and> Phase ex_updating = PhaseUpdating \<and> FirmwareUpdateStarted ex_updating \<noteq> None"
  using station_phase_invariant [OF ex_reached] ex_reached by simp

theorem update_times_out_witness:
  "let g = ex_station ''edge'' ''gs'' (Some ex_fw) ex_updating
   in \<exists>gs'. UpdateStation gs' \<in> set (fst (gs_Reconcile list_meta (ex_gio g ex_edge (ex_now + 31 * minute)) (gs_Key g)))
        \<and> Phase (gs_Status gs') \<in> {PhaseRunning, PhaseDegraded, PhaseOffline}"
  unfolding Let_def
  by (rule update_times_out [where gs = "ex_station ''edge'' ''gs'' (Some ex_fw) ex_updating" and fw = ex_fw])
    (simp_all add: ex_reached firmwareUpdateTimeout_def)

theorem update_starts_only_when_allowed_witness:
  "Phase (gs_Status (fst (gs_evaluate list_meta (ex_gio ex_new ex_edge ex_now) ex_new))) = PhaseUpdating
   \<and> (\<exists>fw. Firmware (gs_Spec ex_new) = Some fw \<and> AutoUpdate fw
        \<and> IsWithinMaintenanceWindow (MaintenanceWindow fw) ex_now = Inr True)"
proof -
  have "Phase (gs_Status ex_new) \<noteq> PhaseUpdating" by (simp add: zero_station_status_def PhaseUpdating_def)
  from update_starts_only_when_allowed [OF _ ex_start_written ex_started(1) this]
  show ?thesis using ex_started(1) by auto
qed

theorem removed_firmware_stays_updating_witness:
  "let g = ex_station ''edge'' ''gs'' None ex_updating
   in Phase (gs_Status (station_run list_meta [ex_gio g ex_edge (ex_now + hour), ex_gio g ex_edge (ex_now + 1000 * hour)] g))
      = PhaseUpdating"
  unfolding Let_def by (rule removed_firmware_stays_updating) simp_all

theorem healthy_station_always_written_witness:
  "\<exists>gs'. UpdateStation gs' \<in> set (fst (gs_Reconcile list_meta (ex_gio ex_new ex_edge ex_now) (gs_Key ex_new)))"
  by (rule healthy_station_always_written [where gs = ex_new and n = ex_edge])
    (simp_all add: zero_station_status_def PhaseDegraded_def)

end
