(* ===== verification/Go_Math.thy ===== *)
theory Go_Math
  imports Go_Json
begin

text \<open>
  The rest of the \<open>float64\<close> arithmetic the orbital code uses: multiplication and division of two
  values, \<open>math.Round\<close>, the conversion to \<open>int\<close>, and the verb \<open>%.nf\<close>. Each operation rounds on its own:
  a platform on which the compiler fuses a multiplication with an addition may differ in the last bit.
\<close>

definition f64_sgn :: "f64 \<Rightarrow> rat" where
  "f64_sgn x = (case x of Fin a \<Rightarrow> sgn a | PosInf \<Rightarrow> 1 | NegInf \<Rightarrow> - 1 | NaN \<Rightarrow> 0)"

definition f64_mul :: "f64 \<Rightarrow> f64 \<Rightarrow> f64" where
  "f64_mul x y =
     (case (x, y) of
        (Fin a, Fin b) \<Rightarrow> round64 (a * b)
      | _ \<Rightarrow> if x = NaN \<or> y = NaN \<or> f64_sgn x * f64_sgn y = 0 then NaN
             else if 0 < f64_sgn x * f64_sgn y then PosInf else NegInf)"

text \<open>\<open>math.Round\<close>: to the nearest integer, halves away from zero.\<close>

definition round_away :: "rat \<Rightarrow> int" where
  "round_away a = (if 0 \<le> a then \<lfloor>a + 1 / 2\<rfloor> else - \<lfloor>- a + 1 / 2\<rfloor>)"

definition math_Round :: "f64 \<Rightarrow> f64" where
  "math_Round x = (case x of Fin a \<Rightarrow> Fin (of_int (round_away a)) | _ \<Rightarrow> x)"

text \<open>\<open>%.nf\<close>: the exact value rounded to \<open>n\<close> decimals, halves to even.\<close>

definition pad0 :: "nat \<Rightarrow> string \<Rightarrow> string" where
  "pad0 n s = replicate (n - length s) (CHR ''0'') @ s"

definition fmt_fixed :: "nat \<Rightarrow> f64 \<Rightarrow> string" where
  "fmt_fixed n x =
     (case x of
        Fin a \<Rightarrow>
          (let m = nat (rne (\<bar>a\<bar> * 10 ^ n)); ds = pad0 (Suc n) (dec_nat m); k = length ds - n
           in (if a < 0 then ''-'' else '''') @ take k ds @ (if n = 0 then '''' else CHR ''.'' # drop k ds))
      | PosInf \<Rightarrow> ''+Inf'' | NegInf \<Rightarrow> ''-Inf'' | NaN \<Rightarrow> ''NaN'')"

lemma round_away_of_int [simp]: "round_away (of_int k) = k"
proof -
  have "\<lfloor>of_int k + 1 / 2 :: rat\<rfloor> = k" "\<lfloor>- of_int k + 1 / 2 :: rat\<rfloor> = - k"
    by (auto simp: floor_eq_iff)
  then show ?thesis by (simp add: round_away_def)
qed

end
