(* ===== verification/Go_Utf8.thy ===== *)
theory Go_Utf8
  imports Go_Strings
begin

text \<open>
  What the program uses of \<open>unicode/utf8\<close> and of the conversions between strings and runes. A rune
  is a code point, here a natural number; decoding follows the accept ranges of the language: an
  overlong form, a surrogate, a value above U+10FFFF, a truncated sequence and a stray byte all decode
  to U+FFFD with width 1. Encoding and decoding are inverse on the valid code points
  (\<open>DecodeRune_EncodeRune\<close>), and so are the string conversions (\<open>runes_of_string\<close>).
\<close>

type_synonym rune = nat

definition RuneError :: rune where "RuneError = 65533"

definition valid_rune :: "rune \<Rightarrow> bool" where
  "valid_rune r \<longleftrightarrow> r < 55296 \<or> 57344 \<le> r \<and> r < 1114112"

abbreviation byte :: "char \<Rightarrow> nat" where "byte c \<equiv> of_char c"

definition cont :: "nat \<Rightarrow> bool" where
  "cont b \<longleftrightarrow> 128 \<le> b \<and> b < 192"

text \<open>The range of the second byte that the first byte admits.\<close>

definition second_ok :: "nat \<Rightarrow> nat \<Rightarrow> bool" where
  "second_ok b0 b1 \<longleftrightarrow>
     (if b0 = 224 then 160 \<le> b1 \<and> b1 < 192
      else if b0 = 237 then 128 \<le> b1 \<and> b1 < 160
      else if b0 = 240 then 144 \<le> b1 \<and> b1 < 192
      else if b0 = 244 then 128 \<le> b1 \<and> b1 < 144
      else cont b1)"

text \<open>\<open>utf8.DecodeRune\<close>: the first rune and its width, width 0 on the empty string.\<close>

definition DecodeRune :: "string \<Rightarrow> rune \<times> nat" where
  "DecodeRune s =
     (case map byte (take 4 s) of
        [] \<Rightarrow> (RuneError, 0)
      | b0 # bs \<Rightarrow>
          if b0 < 128 then (b0, 1)
          else if 194 \<le> b0 \<and> b0 < 224 then
            (case bs of b1 # _ \<Rightarrow> if cont b1 then ((b0 - 192) * 64 + (b1 - 128), 2) else (RuneError, 1)
             | _ \<Rightarrow> (RuneError, 1))
          else if 224 \<le> b0 \<and> b0 < 240 then
            (case bs of b1 # b2 # _ \<Rightarrow>
                 if second_ok b0 b1 \<and> cont b2
                 then ((b0 - 224) * 4096 + (b1 - 128) * 64 + (b2 - 128), 3) else (RuneError, 1)
             | _ \<Rightarrow> (RuneError, 1))
          else if 240 \<le> b0 \<and> b0 < 245 then
            (case bs of b1 # b2 # b3 # _ \<Rightarrow>
                 if second_ok b0 b1 \<and> cont b2 \<and> cont b3
                 then ((b0 - 240) * 262144 + (b1 - 128) * 4096 + (b2 - 128) * 64 + (b3 - 128), 4)
                 else (RuneError, 1)
             | _ \<Rightarrow> (RuneError, 1))
          else (RuneError, 1))"

text \<open>\<open>utf8.AppendRune\<close> on the empty slice: an invalid code point is written as U+FFFD.\<close>

definition EncodeRune :: "rune \<Rightarrow> string" where
  "EncodeRune r0 = (let r = (if valid_rune r0 then r0 else RuneError) in
     map char_of
       (if r < 128 then [r]
        else if r < 2048 then [192 + r div 64, 128 + r mod 64]
        else if r < 65536 then [224 + r div 4096, 128 + r div 64 mod 64, 128 + r mod 64]
        else [240 + r div 262144, 128 + r div 4096 mod 64, 128 + r div 64 mod 64, 128 + r mod 64]))"

lemma DecodeRune_width: "s \<noteq> [] \<Longrightarrow> 0 < snd (DecodeRune s)"
  by (cases s) (auto simp: DecodeRune_def split: list.splits)

text \<open>\<open>[]rune(s)\<close>.\<close>

function runes_of :: "string \<Rightarrow> rune list" where
  "runes_of s = (if s = [] then []
     else (let (r, size) = DecodeRune s in r # runes_of (drop size s)))"
  by pat_completeness auto
termination
proof (relation "measure length")
  fix s :: string and x r size
  assume "s \<noteq> []" "x = DecodeRune s" "(r, size) = x"
  then have "0 < size" using DecodeRune_width [of s] by (metis snd_conv)
  with \<open>s \<noteq> []\<close> show "(drop size s, s) \<in> measure length" by simp
qed simp

declare runes_of.simps [simp del]

text \<open>\<open>string(rs)\<close> of a rune slice.\<close>

definition string_of :: "rune list \<Rightarrow> string" where
  "string_of rs = concat (map EncodeRune rs)"

lemma runes_of_Nil [simp]: "runes_of [] = []"
  by (simp add: runes_of.simps)

lemma runes_of_step: "s \<noteq> [] \<Longrightarrow> runes_of s = fst (DecodeRune s) # runes_of (drop (snd (DecodeRune s)) s)"
  by (subst runes_of.simps) (simp add: split_beta)

lemma byte_char_of: "n < 256 \<Longrightarrow> byte (char_of n) = n"
  by simp

lemma valid_RuneError [simp]: "valid_rune RuneError"
  by (simp add: valid_rune_def RuneError_def)

text \<open>A code point is the sum of its groups of six bits.\<close>

lemma bits6: "r div 64 * 64 + r mod 64 = (r :: nat)"
  by simp

lemma bits12: "r div 4096 * 4096 + r div 64 mod 64 * 64 + r mod 64 = (r :: nat)"
proof -
  have "r div 4096 = r div 64 div 64" by (simp flip: div_mult2_eq)
  then show ?thesis using bits6 [of r] bits6 [of "r div 64"] by linarith
qed

lemma bits18: "r div 262144 * 262144 + r div 4096 mod 64 * 4096 + r div 64 mod 64 * 64 + r mod 64 = (r :: nat)"
proof -
  have "r div 262144 = r div 4096 div 64" by (simp flip: div_mult2_eq)
  then show ?thesis using bits12 [of r] bits6 [of "r div 4096"] by linarith
qed

lemma DecodeRune_EncodeRune:
  assumes "valid_rune r"
  shows "DecodeRune (EncodeRune r @ s) = (r, length (EncodeRune r))"
proof -
  consider "r < 128" | "128 \<le> r" "r < 2048" | "2048 \<le> r" "r < 65536" | "65536 \<le> r" by linarith
  then show ?thesis
  proof cases
    case 1
    then show ?thesis using assms by (simp add: EncodeRune_def DecodeRune_def)
  next
    case 2
    obtain q m where qm: "r div 64 = q" "r mod 64 = m" "m < 64" by simp
    with 2 bits6 [of r] have "q < 32" "2 \<le> q" "r = q * 64 + m" by auto
    with 2 assms qm show ?thesis
      by (simp add: EncodeRune_def DecodeRune_def cont_def)
  next
    case 3
    obtain q n m where q: "r div 4096 = q" "r div 64 mod 64 = n" "r mod 64 = m" "n < 64" "m < 64" by simp
    with bits12 [of r] have r: "r = q * 4096 + n * 64 + m" by simp
    have "q < 16" "q = 0 \<Longrightarrow> 32 \<le> n" using 3 q r by linarith+
    moreover have "n < 32" if "q = 13" using assms r q that unfolding valid_rune_def by linarith
    ultimately show ?thesis using 3 assms q r
      by (simp add: EncodeRune_def DecodeRune_def second_ok_def cont_def)
  next
    case 4
    obtain q l n m where q: "r div 262144 = q" "r div 4096 mod 64 = l" "r div 64 mod 64 = n" "r mod 64 = m"
      "l < 64" "n < 64" "m < 64" by simp
    with bits18 [of r] have r: "r = q * 262144 + l * 4096 + n * 64 + m" by simp
    have "r < 1114112" using assms 4 by (auto simp: valid_rune_def)
    then have "q < 5" "q = 0 \<Longrightarrow> 16 \<le> l" "q = 4 \<Longrightarrow> l < 16" using 4 q r by linarith+
    then show ?thesis using 4 assms q r
      by (simp add: EncodeRune_def DecodeRune_def second_ok_def cont_def)
  qed
qed

lemma EncodeRune_length: "0 < length (EncodeRune r)" "length (EncodeRune r) \<le> 4"
  by (simp_all add: EncodeRune_def Let_def)

lemma valid_two: "194 \<le> b0 \<Longrightarrow> b0 < 224 \<Longrightarrow> cont b1 \<Longrightarrow> valid_rune ((b0 - 192) * 64 + (b1 - 128))"
  unfolding valid_rune_def cont_def by linarith

lemma valid_three: "224 \<le> b0 \<Longrightarrow> b0 < 240 \<Longrightarrow> second_ok b0 b1 \<Longrightarrow> cont b2 \<Longrightarrow>
    valid_rune ((b0 - 224) * 4096 + (b1 - 128) * 64 + (b2 - 128))"
  unfolding valid_rune_def cont_def second_ok_def by (auto split: if_splits)

lemma valid_four: "240 \<le> b0 \<Longrightarrow> b0 < 245 \<Longrightarrow> second_ok b0 b1 \<Longrightarrow> cont b2 \<Longrightarrow> cont b3 \<Longrightarrow>
    valid_rune ((b0 - 240) * 262144 + (b1 - 128) * 4096 + (b2 - 128) * 64 + (b3 - 128))"
  unfolding valid_rune_def cont_def second_ok_def by (auto split: if_splits)

lemma DecodeRune_valid: "valid_rune (fst (DecodeRune s))"
proof (cases "map byte (take 4 s)")
  case (Cons b0 bs)
  have "valid_rune b" if "b < 128" for b using that by (simp add: valid_rune_def)
  then show ?thesis
    by (simp add: DecodeRune_def Cons valid_two valid_three valid_four split: list.split)
qed (simp add: DecodeRune_def)

lemma runes_of_valid: "r \<in> set (runes_of s) \<Longrightarrow> valid_rune r"
proof (induction s rule: runes_of.induct)
  case (1 s)
  show ?case
  proof (cases "s = []")
    case False
    then have "r = fst (DecodeRune s) \<or> r \<in> set (runes_of (drop (snd (DecodeRune s)) s))"
      using 1(2) by (simp add: runes_of_step)
    then show ?thesis
      using 1(1) [OF False, of "DecodeRune s" "fst (DecodeRune s)" "snd (DecodeRune s)"] DecodeRune_valid
      by auto
  qed (use 1(2) in simp)
qed

lemma runes_of_string: "\<forall>r\<in>set rs. valid_rune r \<Longrightarrow> runes_of (string_of rs) = rs"
proof (induction rs)
  case (Cons r rs)
  have "string_of (r # rs) = EncodeRune r @ string_of rs" by (simp add: string_of_def)
  moreover have "EncodeRune r \<noteq> []" using EncodeRune_length(1) [of r] by auto
  ultimately show ?case using Cons
    by (simp add: runes_of_step DecodeRune_EncodeRune)
qed (simp add: string_of_def)

lemma runes_of_length: "length (runes_of s) \<le> length s"
proof (induction s rule: runes_of.induct)
  case (1 s)
  show ?case
  proof (cases "s = []")
    case False
    then have "length (runes_of (drop (snd (DecodeRune s)) s)) \<le> length s - snd (DecodeRune s)"
      using 1 [OF False, of "DecodeRune s" "fst (DecodeRune s)" "snd (DecodeRune s)"] by simp
    with False DecodeRune_width [OF False] show ?thesis by (cases s) (auto simp: runes_of_step)
  qed simp
qed

end
