(* ===== verification/Orbit_Elements.thy ===== *)
theory Orbit_Elements
  imports Go_Math Go_Utf8 Slice_Api
begin

text \<open>
  Orbital element sets: validation (\<open>validOMM\<close> and its callers in \<open>pkg/ephemeris/gp_fetcher.go\<close>), the
  orbit regime (\<open>pkg/ephemeris/orbit_regime.go\<close>), the NORAD selector and the bounded label
  (\<open>pkg/ephemeris/pass_predictor.go\<close>), and the propagation to quantized ECEF codepoints
  (\<open>pkg/ephemeris/propagator.go\<close>).

  The SGP4 library is not part of the program: the record \<open>sgp4_api\<close> holds the functions the code
  calls, over an abstract type of parsed element sets. \<open>math.Cos\<close> and \<open>math.Sin\<close>, whose last bits are
  the platform's, and the result of converting a float beyond the integer range, which the language
  leaves to the implementation, are fields of it as well.
\<close>

section \<open>Element sets and the library\<close>

text \<open>The fields of \<open>sgp4.OMM\<close> the program reads; \<open>omm_Other\<close> stands for those it only carries
  along.\<close>

record OMM =
  ObjectName :: string
  NoradCatID :: int
  EpochStr :: string
  MeanMotion :: f64
  Eccentricity :: f64
  Inclination :: f64
  RAOfAscNode :: f64
  ArgOfPericenter :: f64
  MeanAnomaly :: f64
  BStar :: f64
  MeanMotionDot :: f64
  MeanMotionDDot :: f64
  omm_Other :: string

record Vector =
  vX :: f64
  vY :: f64
  vZ :: f64

record Eci =
  Position :: Vector
  Velocity :: Vector
  eci_Rest :: string

record StateVector =
  sv_Position :: Vector
  sv_Velocity :: Vector

record Location =
  loc_Latitude :: f64
  loc_Longitude :: f64
  loc_Altitude :: f64

record PassDetails =
  pd_AOS :: time
  pd_LOS :: time
  pd_MaxElevation :: f64
  pd_MaxElevationTime :: time

record 'tle sgp4_api =
  ToTLE :: "OMM \<Rightarrow> 'tle result"
  FindPositionAtTime :: "'tle \<Rightarrow> time \<Rightarrow> Eci result"
  GreenwichSiderealTime :: "Eci \<Rightarrow> f64"
  GeneratePasses :: "'tle \<Rightarrow> f64 \<Rightarrow> f64 \<Rightarrow> f64 \<Rightarrow> time \<Rightarrow> time \<Rightarrow> int \<Rightarrow> PassDetails list result"
  GetLookAngle :: "StateVector \<Rightarrow> Location \<Rightarrow> time \<Rightarrow> f64 result"
  ParseOMMs :: "string \<Rightarrow> OMM list result"
  math_Cos :: "f64 \<Rightarrow> f64"
  math_Sin :: "f64 \<Rightarrow> f64"
  int_overflow :: int

section \<open>Validation\<close>

definition validOMM :: "OMM \<Rightarrow> gerror option" where
  "validOMM o' =
     (case find (\<lambda>(n, v). IsNaN v \<or> IsInf v)
        [(''MEAN_MOTION'', MeanMotion o'), (''ECCENTRICITY'', Eccentricity o'),
         (''INCLINATION'', Inclination o'), (''RA_OF_ASC_NODE'', RAOfAscNode o'),
         (''ARG_OF_PERICENTER'', ArgOfPericenter o'), (''MEAN_ANOMALY'', MeanAnomaly o'),
         (''BSTAR'', BStar o'), (''MEAN_MOTION_DOT'', MeanMotionDot o'),
         (''MEAN_MOTION_DDOT'', MeanMotionDDot o')] of
        Some (n, v) \<Rightarrow> Some (Errorf [Lit n, Lit '' is not finite ('', FloatG v, Lit '')''])
      | None \<Rightarrow>
          if f64_le (MeanMotion o') (Fin 0)
          then Some (Errorf [Lit ''MEAN_MOTION '', FloatG (MeanMotion o'), Lit '' must be positive''])
          else if f64_less (Eccentricity o') (Fin 0) \<or> f64_le (Fin 1) (Eccentricity o')
          then Some (Errorf [Lit ''ECCENTRICITY '', FloatG (Eccentricity o'), Lit '' outside [0,1)''])
          else if f64_less (Inclination o') (Fin 0) \<or> f64_less (Fin 180) (Inclination o')
          then Some (Errorf [Lit ''INCLINATION '', FloatG (Inclination o'), Lit '' outside [0,180]''])
          else None)"

definition filterValidOMMs :: "OMM list \<Rightarrow> OMM list" where
  "filterValidOMMs omms = filter (\<lambda>o'. validOMM o' = None) omms"

definition ParseValidOMMs :: "'tle sgp4_api \<Rightarrow> string \<Rightarrow> OMM list result" where
  "ParseValidOMMs L body = (case ParseOMMs L body of Inl e \<Rightarrow> Inl e | Inr omms \<Rightarrow> Inr (filterValidOMMs omms))"

section \<open>The selector and the label\<close>

definition FilterOMMs :: "OMM list \<Rightarrow> int list \<Rightarrow> OMM list" where
  "FilterOMMs omms noradFilter =
     (if noradFilter = [] then omms else filter (\<lambda>o'. NoradCatID o' \<in> set noradFilter) omms)"

definition MaxSatelliteNameLen :: nat where "MaxSatelliteNameLen = 64"

definition BoundedSatelliteLabel :: "string \<Rightarrow> string" where
  "BoundedSatelliteLabel name =
     (if length name \<le> MaxSatelliteNameLen then name
      else (let r = runes_of name in
        if length r > MaxSatelliteNameLen then string_of (take MaxSatelliteNameLen r) else name))"

section \<open>The orbit regime\<close>

definition minutesPerDay :: rat where "minutesPerDay = 1440"
definition DeepSpacePeriodMinutes :: f64 where "DeepSpacePeriodMinutes = Fin 225"
definition deepSpaceSummaryMaxExamples :: nat where "deepSpaceSummaryMaxExamples = 3"

text \<open>The guard leaves the division only finite positive values.\<close>

definition OrbitalPeriodMinutes :: "OMM \<Rightarrow> f64" where
  "OrbitalPeriodMinutes omm =
     (if f64_le (MeanMotion omm) (Fin 0) \<or> IsNaN (MeanMotion omm) \<or> IsInf (MeanMotion omm) then Fin 0
      else case MeanMotion omm of Fin m \<Rightarrow> round64 (minutesPerDay / m) | _ \<Rightarrow> NaN)"

definition IsDeepSpace :: "OMM \<Rightarrow> bool" where
  "IsDeepSpace omm \<longleftrightarrow> f64_le DeepSpacePeriodMinutes (OrbitalPeriodMinutes omm)"

fun split_regime :: "OMM list \<Rightarrow> OMM list \<Rightarrow> OMM list \<Rightarrow> OMM list \<times> OMM list" where
  "split_regime [] near deep = (near, deep)"
| "split_regime (o' # omms) near deep =
     (if IsDeepSpace o' then split_regime omms near (deep @ [o']) else split_regime omms (near @ [o']) deep)"

definition SplitByOrbitRegime :: "OMM list \<Rightarrow> OMM list \<times> OMM list" where
  "SplitByOrbitRegime omms = split_regime omms [] []"

definition deepSpaceExample :: "OMM \<Rightarrow> string" where
  "deepSpaceExample o' =
     (let name = BoundedSatelliteLabel (ObjectName o');
          shown = (if name = '''' then ''NORAD '' @ Itoa (NoradCatID o') else name)
      in shown @ '' ('' @ fmt_fixed 0 (OrbitalPeriodMinutes o') @ '' min)'')"

definition DeepSpaceSummary :: "OMM list \<Rightarrow> string" where
  "DeepSpaceSummary deepSpace =
     (if deepSpace = [] then ''''
      else
        (let examples = map deepSpaceExample (take deepSpaceSummaryMaxExamples deepSpace);
             suffix = (if length deepSpace > length examples then '', ...'' else '''')
         in Itoa (int (length deepSpace)) @ '' element set(s) rejected: orbital period >= ''
            @ fmt_fixed 0 DeepSpacePeriodMinutes
            @ '' min requires the deep-space (SDP4) model, which this operator''
            @ [CHR 0x27] @ ''s near-earth SGP4 propagator does not implement. Examples: ''
            @ Join examples '', '' @ suffix))"

section \<open>Propagation to ECEF codepoints\<close>

text \<open>The constants of \<open>api/v1alpha1/ntncellconfig_types.go\<close>; the steps are the nearest float64
  values.\<close>

definition ECEFPositionStep :: rat where "ECEFPositionStep = 13 / 10"
definition ECEFVelocityStep :: rat where "ECEFVelocityStep = 6 / 100"
definition ECEFPosMin :: int where "ECEFPosMin = - 33554432"
definition ECEFPosMax :: int where "ECEFPosMax = 33554430"
definition ECEFVelMin :: int where "ECEFVelMin = - 131072"
definition ECEFVelMax :: int where "ECEFVelMax = 131071"

definition rotateZ :: "'tle sgp4_api \<Rightarrow> f64 \<Rightarrow> f64 \<Rightarrow> f64 \<Rightarrow> f64 \<Rightarrow> f64 \<times> f64 \<times> f64" where
  "rotateZ L x y z gmst =
     (let cosG = math_Cos L gmst; sinG = math_Sin L gmst
      in (f64_add (f64_mul cosG x) (f64_mul sinG y), f64_add (f64_mul (f64_neg sinG) x) (f64_mul cosG y), z))"

definition omegaE :: f64 where "omegaE = round64 (72921150 / 10 ^ 12)"

definition temeVelToECEF :: "'tle sgp4_api \<Rightarrow> f64 \<Rightarrow> f64 \<Rightarrow> f64 \<Rightarrow> f64 \<Rightarrow> f64 \<Rightarrow> f64 \<Rightarrow> f64 \<times> f64 \<times> f64" where
  "temeVelToECEF L ecefX ecefY vx vy vz gmst =
     (let (vxRot, vyRot, vzRot) = rotateZ L vx vy vz gmst
      in (f64_add vxRot (f64_mul omegaE ecefY), f64_sub vyRot (f64_mul omegaE ecefX), vzRot))"

text \<open>\<open>quantize\<close>. The bound \<open>math.MaxInt64\<close> is compared as a float64, that is as \<open>2\<^sup>6\<^sup>3\<close>.\<close>

definition quantize :: "'tle sgp4_api \<Rightarrow> f64 \<Rightarrow> rat \<Rightarrow> int" where
  "quantize L val step =
     (case math_Round (case round64 step of Fin s \<Rightarrow> f64_div val s | _ \<Rightarrow> NaN) of
        Fin r \<Rightarrow> if 2 ^ 63 < r \<or> r < - (2 ^ 63) then max_int64
                 else if r = 2 ^ 63 then int_overflow L
                 else \<lfloor>r\<rfloor>
      | _ \<Rightarrow> max_int64)"

definition kmToPos :: "'tle sgp4_api \<Rightarrow> f64 \<Rightarrow> int" where
  "kmToPos L km = quantize L (f64_mul km (Fin 1000)) ECEFPositionStep"

definition kmsToVel :: "'tle sgp4_api \<Rightarrow> f64 \<Rightarrow> int" where
  "kmsToVel L kms = quantize L (f64_mul kms (Fin 1000)) ECEFVelocityStep"

definition ecef_checks :: "EphemerisECEF \<Rightarrow> (string \<times> int \<times> int \<times> int) list" where
  "ecef_checks r =
     [(''posX'', PosX r, ECEFPosMin, ECEFPosMax), (''posY'', PosY r, ECEFPosMin, ECEFPosMax),
      (''posZ'', PosZ r, ECEFPosMin, ECEFPosMax), (''velX'', VelX r, ECEFVelMin, ECEFVelMax),
      (''velY'', VelY r, ECEFVelMin, ECEFVelMax), (''velZ'', VelZ r, ECEFVelMin, ECEFVelMax)]"

definition PropagateToECEF :: "'tle sgp4_api \<Rightarrow> OMM \<Rightarrow> time \<Rightarrow> EphemerisECEF result" where
  "PropagateToECEF L omm t =
     (case ToTLE L omm of
        Inl e \<Rightarrow> Inl (Wrapf (Lit ''OMM to TLE conversion: '' # err_msg e) [e])
      | Inr tle \<Rightarrow>
          (case FindPositionAtTime L tle t of
             Inl e \<Rightarrow> Inl (Wrapf (Lit ''SGP4 propagation: '' # err_msg e) [e])
           | Inr eci \<Rightarrow>
               (let gmst = GreenwichSiderealTime L eci; p = Position eci; v = Velocity eci;
                    (ecefX, ecefY, ecefZ) = rotateZ L (vX p) (vY p) (vZ p) gmst;
                    (ecefVX, ecefVY, ecefVZ) = temeVelToECEF L ecefX ecefY (vX v) (vY v) (vZ v) gmst;
                    r = \<lparr>PosX = kmToPos L ecefX, PosY = kmToPos L ecefY, PosZ = kmToPos L ecefZ,
                         VelX = kmsToVel L ecefVX, VelY = kmsToVel L ecefVY, VelZ = kmsToVel L ecefVZ\<rparr>
                in case find (\<lambda>(n, val, lo, hi). val < lo \<or> hi < val) (ecef_checks r) of
                     Some (n, val, lo, hi) \<Rightarrow> Inl (Errorf [Lit ''ECEF '', Lit n, Lit '' = '', Num val,
                         Lit '' exceeds 3GPP range ['', Num lo, Lit '', '', Num hi, Lit '']''])
                   | None \<Rightarrow> Inr r)))"

section \<open>Lemmas\<close>

lemma validOMM_None_iff:
  "validOMM o' = None \<longleftrightarrow>
     list_all is_finite [MeanMotion o', Eccentricity o', Inclination o', RAOfAscNode o', ArgOfPericenter o',
       MeanAnomaly o', BStar o', MeanMotionDot o', MeanMotionDDot o']
     \<and> f64_less (Fin 0) (MeanMotion o')
     \<and> f64_le (Fin 0) (Eccentricity o') \<and> f64_less (Eccentricity o') (Fin 1)
     \<and> f64_le (Fin 0) (Inclination o') \<and> f64_le (Inclination o') (Fin 180)"
  by (cases "MeanMotion o'"; cases "Eccentricity o'"; cases "Inclination o'")
     (auto simp: validOMM_def is_finite_iff IsNaN_def IsInf_def split: option.split)

lemma ParseValidOMMs_valid: "ParseValidOMMs L body = Inr omms \<Longrightarrow> list_all (\<lambda>o'. validOMM o' = None) omms"
  by (auto simp: ParseValidOMMs_def filterValidOMMs_def list_all_iff split: sum.splits)

lemma split_regime_filter:
  "split_regime omms near deep = (near @ filter (\<lambda>o'. \<not> IsDeepSpace o') omms, deep @ filter IsDeepSpace omms)"
  by (induction omms arbitrary: near deep) simp_all

lemma SplitByOrbitRegime_filter:
  "SplitByOrbitRegime omms = (filter (\<lambda>o'. \<not> IsDeepSpace o') omms, filter IsDeepSpace omms)"
  by (simp add: SplitByOrbitRegime_def split_regime_filter)

lemma runes_of_bytes: "length s \<le> 4 * length (runes_of s)"
proof (induction s rule: runes_of.induct)
  case (1 s)
  show ?case
  proof (cases "s = []")
    case False
    have "snd (DecodeRune s) \<le> 4" by (auto simp: DecodeRune_def split: list.split)
    with False show ?thesis
      using 1 [OF False, of "DecodeRune s" "fst (DecodeRune s)" "snd (DecodeRune s)"]
      by (simp add: runes_of_step)
  qed simp
qed

lemma BoundedSatelliteLabel_runes:
  "runes_of (BoundedSatelliteLabel name) = take MaxSatelliteNameLen (runes_of name)"
proof -
  have "\<forall>r\<in>set (take n (runes_of name)). valid_rune r" for n
    using runes_of_valid set_take_subset by fastforce
  then show ?thesis using runes_of_length [of name]
    by (simp add: BoundedSatelliteLabel_def Let_def runes_of_string)
qed

text \<open>Near the boundary of the orbit regime the values with 53 bits are multiples of \<open>2\<^sup>-\<^sup>5\<^sup>0\<close>.\<close>

lemma f64_ok_grid:
  assumes "f64_ok (Fin m)" "4 \<le> m" "m < 8"
  obtains k where "m = of_int k * pow2 (- 50)"
proof -
  have "pow2 (expo m) \<le> m" "m < pow2 (expo m + 1)" using expo_bounds [of m] assms by simp_all
  then have "pow2 (expo m) < pow2 3" "pow2 2 < pow2 (expo m + 1)"
    using assms by (simp_all add: pow2_def [of 3] pow2_def [of 2])
  then have "expo m = 2" by simp
  then have "lsb m = - 50" using assms by (simp add: lsb_def)
  then have "m = of_int (rne (m / pow2 (- 50))) * pow2 (- 50)"
    using assms by (simp add: round64_Fin round_rat_def)
  then show ?thesis by (rule that)
qed

text \<open>How a positive value rounds, from its binade and the nearest multiple of the last place.\<close>

lemma rne_near: "\<bar>x - of_int k\<bar> < 1 / 2 \<Longrightarrow> rne x = k"
proof -
  assume near: "\<bar>x - of_int k\<bar> < 1 / 2"
  then have "of_int (k - 1) \<le> x" "x < of_int (k + 1)" unfolding of_int_diff of_int_add by linarith+
  then have "\<lfloor>x\<rfloor> = k \<or> \<lfloor>x\<rfloor> = k - 1" using floor_less_iff [of x "k + 1"] le_floor_iff [of "k - 1" x] by linarith
  then show ?thesis
  proof
    assume f: "\<lfloor>x\<rfloor> = k"
    have "x - of_int k < 1 / 2" using near by linarith
    then show ?thesis unfolding rne_def f Let_def by simp
  next
    assume f: "\<lfloor>x\<rfloor> = k - 1"
    have "1 / 2 < x - of_int (k - 1)" using near unfolding of_int_diff by linarith
    then show ?thesis unfolding rne_def f Let_def by simp
  qed
qed

lemma round64_at:
  assumes "pow2 e \<le> x" "x < pow2 (e + 1)" "- 1022 \<le> e" "e < 1000" "0 < k" "k \<le> 2 ^ 53"
    and "\<bar>x / pow2 (e - 52) - of_int k\<bar> < 1 / 2"
  shows "round64 x = Fin (of_int k * pow2 (e - 52))"
proof -
  have x: "0 < x" using assms(1) pow2_pos [of e] by linarith
  then have "pow2 (expo x) < pow2 (e + 1)" "pow2 e < pow2 (expo x + 1)"
    using expo_bounds [of x] assms by linarith+
  then have "expo x = e" by simp
  then have "lsb x = e - 52" using x assms by (simp add: lsb_def)
  then have r: "round_rat x = of_int k * pow2 (e - 52)"
    using x rne_near [OF assms(7)] by (simp add: round_rat_def)
  have "of_int k \<le> pow2 53" using assms by (subst of_int_le_pow2) simp_all
  then have "of_int k * pow2 (e - 52) \<le> pow2 53 * pow2 (e - 52)" by simp
  also have "\<dots> < pow2 1024" using assms by (simp flip: pow2_add)
  finally have "of_int k * pow2 (e - 52) < overflow_limit"
    by (simp add: overflow_limit_def pow2_def [of 1024])
  moreover have "0 < of_int k * pow2 (e - 52)" using assms by simp
  then have "- overflow_limit < of_int k * pow2 (e - 52)" using overflow_limit_pos by linarith
  ultimately show ?thesis using r by (simp add: round64_Fin)
qed

definition regime_k :: int where "regime_k = 7205759403792794"

lemma regime_bound: "round64 (64 / 10) = Fin (of_int regime_k * pow2 (- 50))"
  using round64_at [of 2 "64 / 10" regime_k] by (simp add: regime_k_def pow2_def)

lemma regime_at: "round64 (1440 / (of_int regime_k * pow2 (- 50))) = Fin 225"
  using round64_at [of 7 "1440 / (of_int regime_k * pow2 (- 50))" "225 * 2 ^ 45"]
  by (simp add: regime_k_def pow2_def)

lemma regime_above: "f64_less (round64 (1440 / (of_int (regime_k + 1) * pow2 (- 50)))) (Fin 225)"
  using round64_at [of 7 "1440 / (of_int (regime_k + 1) * pow2 (- 50))" "225 * 2 ^ 45 - 2"]
  by (simp add: regime_k_def pow2_def)

lemma OrbitalPeriod_pos: "MeanMotion o' = Fin m \<Longrightarrow> 0 < m \<Longrightarrow> OrbitalPeriodMinutes o' = round64 (1440 / m)"
  by (simp add: OrbitalPeriodMinutes_def minutesPerDay_def IsNaN_def IsInf_def)

lemma regime_next:
  assumes "f64_ok (Fin m)" "of_int regime_k * pow2 (- 50) < m"
  shows "of_int (regime_k + 1) * pow2 (- 50) \<le> m"
proof (cases "m < 8")
  case True
  have "4 \<le> m" using assms by (simp add: regime_k_def pow2_def)
  with True assms obtain k where k: "m = of_int k * pow2 (- 50)" using f64_ok_grid by blast
  with assms have "regime_k < k" by simp
  with k show ?thesis by (simp del: of_int_add)
next
  case False
  have "of_int (regime_k + 1) * pow2 (- 50) \<le> 8" by (simp add: regime_k_def pow2_def)
  with False show ?thesis by linarith
qed

section \<open>Properties\<close>

text \<open>The orbit regime of a well-formed element set is decided exactly: an element set with a
  positive finite mean motion needs the deep-space model if and only if its mean motion is at most 6.4
  revolutions per day (as the float64 nearest to 6.4), that is a period of 225 minutes or more; the
  rounding of the division shifts the boundary by no representable value.\<close>

theorem deep_space_exact:
  assumes "MeanMotion o' = Fin m" "f64_ok (Fin m)" "0 < m"
  shows "IsDeepSpace o' \<longleftrightarrow> f64_le (Fin m) (round64 (64 / 10))"
proof -
  let ?r = "of_int regime_k * pow2 (- 50)" and ?s = "of_int (regime_k + 1) * pow2 (- 50)"
  have pos: "0 < ?r" "0 < ?s" by (simp_all add: regime_k_def)
  have deep: "IsDeepSpace o' \<longleftrightarrow> f64_le (Fin 225) (round64 (1440 / m))"
    using assms by (simp add: IsDeepSpace_def DeepSpacePeriodMinutes_def OrbitalPeriod_pos)
  show ?thesis
  proof (cases "m \<le> ?r")
    case True
    then have "1440 / ?r \<le> 1440 / m" using assms by (intro divide_left_mono) auto
    then have "f64_le (round64 (1440 / ?r)) (round64 (1440 / m))" by (rule round64_mono)
    with True show ?thesis unfolding deep regime_bound regime_at by simp
  next
    case False
    with assms have "?s \<le> m" by (intro regime_next) auto
    then have "1440 / m \<le> 1440 / ?s"
      using mult_pos_pos [OF assms(3) pos(2)] by (intro divide_left_mono) simp_all
    then have "f64_le (round64 (1440 / m)) (round64 (1440 / ?s))" by (rule round64_mono)
    then have "\<not> f64_le (Fin 225) (round64 (1440 / m))"
      using regime_above f64_le_trans f64_le_not_less by blast
    with False show ?thesis unfolding deep regime_bound by simp
  qed
qed

theorem deep_space_exact_witness:
  "MeanMotion \<lparr>ObjectName = ''O3B'', NoradCatID = 39191, EpochStr = '''', MeanMotion = Fin 5,
     Eccentricity = Fin 0, Inclination = Fin 0, RAOfAscNode = Fin 0, ArgOfPericenter = Fin 0,
     MeanAnomaly = Fin 0, BStar = Fin 0, MeanMotionDot = Fin 0, MeanMotionDDot = Fin 0, omm_Other = ''''\<rparr> = Fin 5
   \<and> f64_ok (Fin 5)
   \<and> IsDeepSpace \<lparr>ObjectName = ''O3B'', NoradCatID = 39191, EpochStr = '''', MeanMotion = Fin 5,
     Eccentricity = Fin 0, Inclination = Fin 0, RAOfAscNode = Fin 0, ArgOfPericenter = Fin 0,
     MeanAnomaly = Fin 0, BStar = Fin 0, MeanMotionDot = Fin 0, MeanMotionDDot = Fin 0, omm_Other = ''''\<rparr>"
proof -
  have "f64_le (Fin 5) (round64 (64 / 10))"
    unfolding regime_bound by (simp add: regime_k_def pow2_def)
  then show ?thesis using deep_space_exact by simp
qed

text \<open>The label of a satellite is its name cut to the first 64 code points: a name of at most 64 is
  kept as it is, a longer one never splits a multi-byte character, and whatever the source sent the
  label has at most 256 bytes, the bound the status object relies on.\<close>

theorem bounded_label_exact:
  "runes_of (BoundedSatelliteLabel name) = take 64 (runes_of name)
   \<and> length (BoundedSatelliteLabel name) \<le> 256"
proof
  show r: "runes_of (BoundedSatelliteLabel name) = take 64 (runes_of name)"
    using BoundedSatelliteLabel_runes [of name] by (simp add: MaxSatelliteNameLen_def)
  have "length (runes_of (BoundedSatelliteLabel name)) \<le> 64" unfolding r by simp
  with runes_of_bytes [of "BoundedSatelliteLabel name"]
  show "length (BoundedSatelliteLabel name) \<le> 256" by linarith
qed

text \<open>The codepoint of an accepted coordinate is the quotient rounded to the nearest integer: no
  overflow value of \<open>quantize\<close> lies in an accepted range. \<open>is_codepoint v step k\<close> says that the
  coordinate \<open>v\<close>, in km or km/s, is encoded by \<open>k\<close>.\<close>

definition is_codepoint :: "f64 \<Rightarrow> rat \<Rightarrow> int \<Rightarrow> bool" where
  "is_codepoint v step k \<longleftrightarrow>
     (\<exists>s q. round64 step = Fin s \<and> f64_div (f64_mul v (Fin 1000)) s = Fin q \<and> k = round_away q)"

lemma quantize_accepted:
  assumes "quantize L (f64_mul v (Fin 1000)) step = k" "lo \<le> k" "k \<le> hi" "hi < max_int64"
    and "int_overflow L < lo \<or> hi < int_overflow L"
  shows "is_codepoint v step k"
proof (cases "round64 step")
  case (Fin s)
  then show ?thesis
  proof (cases "f64_div (f64_mul v (Fin 1000)) s")
    case f: (Fin q)
    show ?thesis using assms Fin f
      by (auto simp: quantize_def math_Round_def is_codepoint_def split: if_splits)
  qed (use assms Fin in \<open>auto simp: quantize_def math_Round_def\<close>)
qed (use assms in \<open>auto simp: quantize_def math_Round_def\<close>)

lemma codepoint_accepted:
  assumes "int_overflow L < ECEFPosMin \<or> ECEFPosMax < int_overflow L"
  shows "ECEFPosMin \<le> kmToPos L v \<Longrightarrow> kmToPos L v \<le> ECEFPosMax \<Longrightarrow> is_codepoint v ECEFPositionStep (kmToPos L v)"
    and "ECEFVelMin \<le> kmsToVel L v \<Longrightarrow> kmsToVel L v \<le> ECEFVelMax \<Longrightarrow> is_codepoint v ECEFVelocityStep (kmsToVel L v)"
proof -
  have "ECEFPosMax < max_int64" "ECEFVelMax < max_int64" "ECEFPosMin < ECEFVelMin" "ECEFVelMax < ECEFPosMax"
    by (simp_all add: ECEFPosMax_def ECEFPosMin_def ECEFVelMax_def ECEFVelMin_def max_int64_def)
  with assms show "ECEFPosMin \<le> kmToPos L v \<Longrightarrow> kmToPos L v \<le> ECEFPosMax \<Longrightarrow> is_codepoint v ECEFPositionStep (kmToPos L v)"
    "ECEFVelMin \<le> kmsToVel L v \<Longrightarrow> kmsToVel L v \<le> ECEFVelMax \<Longrightarrow> is_codepoint v ECEFVelocityStep (kmsToVel L v)"
    using quantize_accepted [of L v ECEFPositionStep "kmToPos L v" ECEFPosMin ECEFPosMax]
      quantize_accepted [of L v ECEFVelocityStep "kmsToVel L v" ECEFVelMin ECEFVelMax]
    by (auto simp: kmToPos_def kmsToVel_def)
qed

definition in_3gpp_range :: "EphemerisECEF \<Rightarrow> bool" where
  "in_3gpp_range e \<longleftrightarrow>
     list_all (\<lambda>v. ECEFPosMin \<le> v \<and> v \<le> ECEFPosMax) [PosX e, PosY e, PosZ e]
     \<and> list_all (\<lambda>v. ECEFVelMin \<le> v \<and> v \<le> ECEFVelMax) [VelX e, VelY e, VelZ e]"

lemma ecef_checks_None: "find (\<lambda>(n, val, lo, hi). val < lo \<or> hi < val) (ecef_checks e) = None \<longleftrightarrow> in_3gpp_range e"
  by (simp add: ecef_checks_def in_3gpp_range_def linorder_not_less split: if_split)

lemma PropagateToECEF_ok:
  assumes "PropagateToECEF L omm t = Inr e"
  obtains tle eci x y z vx vy vz where
    "ToTLE L omm = Inr tle" "FindPositionAtTime L tle t = Inr eci"
    "rotateZ L (vX (Position eci)) (vY (Position eci)) (vZ (Position eci)) (GreenwichSiderealTime L eci) = (x, y, z)"
    "temeVelToECEF L x y (vX (Velocity eci)) (vY (Velocity eci)) (vZ (Velocity eci)) (GreenwichSiderealTime L eci)
       = (vx, vy, vz)"
    "e = \<lparr>PosX = kmToPos L x, PosY = kmToPos L y, PosZ = kmToPos L z,
          VelX = kmsToVel L vx, VelY = kmsToVel L vy, VelZ = kmsToVel L vz\<rparr>" "in_3gpp_range e"
  using assms by (auto simp: PropagateToECEF_def Let_def ecef_checks_None split: sum.splits prod.splits option.splits)

text \<open>C38: a propagated state is physical. Every state vector \<open>PropagateToECEF\<close> returns has its six
  codepoints within the 3GPP ranges, and each is the computed coordinate in metres (or metres per
  second) divided by the step and rounded to the nearest integer: a coordinate that is not finite or
  beyond the integer range is refused, never wrapped into a plausible codepoint. The hypothesis is on
  the platform: its result for an out-of-range conversion is no valid codepoint.\<close>

theorem propagated_state_physical:
  assumes "PropagateToECEF L omm t = Inr e"
    and "int_overflow L < ECEFPosMin \<or> ECEFPosMax < int_overflow L"
  shows "in_3gpp_range e
     \<and> (\<exists>tle eci x y z vx vy vz. ToTLE L omm = Inr tle \<and> FindPositionAtTime L tle t = Inr eci
          \<and> rotateZ L (vX (Position eci)) (vY (Position eci)) (vZ (Position eci)) (GreenwichSiderealTime L eci)
              = (x, y, z)
          \<and> temeVelToECEF L x y (vX (Velocity eci)) (vY (Velocity eci)) (vZ (Velocity eci))
              (GreenwichSiderealTime L eci) = (vx, vy, vz)
          \<and> is_codepoint x ECEFPositionStep (PosX e) \<and> is_codepoint y ECEFPositionStep (PosY e)
          \<and> is_codepoint z ECEFPositionStep (PosZ e) \<and> is_codepoint vx ECEFVelocityStep (VelX e)
          \<and> is_codepoint vy ECEFVelocityStep (VelY e) \<and> is_codepoint vz ECEFVelocityStep (VelZ e))"
proof -
  from PropagateToECEF_ok [OF assms(1)] obtain tle eci x y z vx vy vz where
    r: "ToTLE L omm = Inr tle" "FindPositionAtTime L tle t = Inr eci"
    "rotateZ L (vX (Position eci)) (vY (Position eci)) (vZ (Position eci)) (GreenwichSiderealTime L eci) = (x, y, z)"
    "temeVelToECEF L x y (vX (Velocity eci)) (vY (Velocity eci)) (vZ (Velocity eci)) (GreenwichSiderealTime L eci)
       = (vx, vy, vz)"
    and e: "e = \<lparr>PosX = kmToPos L x, PosY = kmToPos L y, PosZ = kmToPos L z,
          VelX = kmsToVel L vx, VelY = kmsToVel L vy, VelZ = kmsToVel L vz\<rparr>" "in_3gpp_range e" .
  from e have "is_codepoint x ECEFPositionStep (PosX e)" "is_codepoint y ECEFPositionStep (PosY e)"
    "is_codepoint z ECEFPositionStep (PosZ e)" "is_codepoint vx ECEFVelocityStep (VelX e)"
    "is_codepoint vy ECEFVelocityStep (VelY e)" "is_codepoint vz ECEFVelocityStep (VelZ e)"
    using codepoint_accepted [OF assms(2)] by (simp_all add: in_3gpp_range_def)
  with r e(2) show ?thesis by blast
qed

text \<open>A library for the examples: the identity rotation, and a satellite that stands at one point.\<close>

definition demo_sgp4 :: "f64 \<Rightarrow> (time \<Rightarrow> f64) \<Rightarrow> PassDetails list \<Rightarrow> unit sgp4_api" where
  "demo_sgp4 km elev passes =
     \<lparr>ToTLE = (\<lambda>_. Inr ()),
      FindPositionAtTime = (\<lambda>_ _. Inr \<lparr>Position = \<lparr>vX = Fin 0, vY = Fin 0, vZ = km\<rparr>,
          Velocity = \<lparr>vX = Fin 0, vY = Fin 0, vZ = Fin 0\<rparr>, eci_Rest = ''''\<rparr>),
      GreenwichSiderealTime = (\<lambda>_. Fin 0),
      GeneratePasses = (\<lambda>_ _ _ _ _ _ _. Inr passes),
      GetLookAngle = (\<lambda>_ _ t. Inr (elev t)),
      ParseOMMs = (\<lambda>_. Inr []),
      math_Cos = (\<lambda>_. Fin 1), math_Sin = (\<lambda>_. Fin 0), int_overflow = min_int64\<rparr>"

definition demo_omm :: "int \<Rightarrow> string \<Rightarrow> OMM" where
  "demo_omm n name = \<lparr>ObjectName = name, NoradCatID = n, EpochStr = ''2026-01-01T00:00:00'', MeanMotion = Fin 15,
     Eccentricity = Fin 0, Inclination = Fin 53, RAOfAscNode = Fin 0, ArgOfPericenter = Fin 0,
     MeanAnomaly = Fin 0, BStar = Fin 0, MeanMotionDot = Fin 0, MeanMotionDDot = Fin 0, omm_Other = ''''\<rparr>"

lemma step_values:
  "round64 ECEFPositionStep = Fin (5854679515581645 * pow2 (- 52))"
  "round64 ECEFVelocityStep = Fin (8646911284551352 * pow2 (- 57))"
  "omegaE = Fin (5380631166442341 * pow2 (- 66))"
  using round64_at [of 0 "13 / 10" 5854679515581645] round64_at [of "- 5" "6 / 100" 8646911284551352]
    round64_at [of "- 14" "72921150 / 10 ^ 12" 5380631166442341]
  by (simp_all add: ECEFPositionStep_def ECEFVelocityStep_def omegaE_def pow2_def)

lemma demo_quotient:
  "round64 (200000 / (167276557588047 * pow2 (- 52))) = Fin (5781686744615384 * pow2 (- 30))"
  using round64_at [of 22 "200000 / (167276557588047 * pow2 (- 52))" 5781686744615384]
  by (simp add: pow2_def)

lemma demo_codepoints:
  "kmToPos (demo_sgp4 k el ps) (Fin 7000) = 5384615" "kmToPos (demo_sgp4 k el ps) (Fin 0) = 0"
  "kmsToVel (demo_sgp4 k el ps) (Fin 0) = 0"
proof -
  have "\<lfloor>5781686744615384 * pow2 (- 30) + 1 / 2\<rfloor> = 5384615" by (simp add: pow2_def floor_eq_iff)
  then have "round_away (5781686744615384 * pow2 (- 30)) = 5384615" by (simp add: round_away_def)
  then show "kmToPos (demo_sgp4 k el ps) (Fin 7000) = 5384615"
    by (simp add: kmToPos_def quantize_def step_values(1) f64_mul_def demo_quotient math_Round_def)
next
  have "round_away 0 = 0" using round_away_of_int [of 0] by simp
  then show "kmToPos (demo_sgp4 k el ps) (Fin 0) = 0" "kmsToVel (demo_sgp4 k el ps) (Fin 0) = 0"
    by (simp_all add: kmToPos_def kmsToVel_def quantize_def step_values(1,2) f64_mul_def math_Round_def)
qed

lemma demo_propagation:
  "PropagateToECEF (demo_sgp4 (Fin 7000) el ps) o' t
     = Inr \<lparr>PosX = 0, PosY = 0, PosZ = 5384615, VelX = 0, VelY = 0, VelZ = 0\<rparr>"
proof -
  let ?L = "demo_sgp4 (Fin 7000) el ps"
  have "rotateZ ?L (Fin 0) (Fin 0) z g = (Fin 0, Fin 0, z)" for z g
    by (simp add: rotateZ_def Let_def demo_sgp4_def f64_mul_def)
  moreover have "temeVelToECEF ?L (Fin 0) (Fin 0) (Fin 0) (Fin 0) (Fin 0) g = (Fin 0, Fin 0, Fin 0)" for g
    by (simp add: temeVelToECEF_def calculation step_values(3) f64_mul_def f64_sub_def)
  moreover have "find (\<lambda>(n, val, lo, hi). val < lo \<or> hi < val)
      (ecef_checks \<lparr>PosX = 0, PosY = 0, PosZ = 5384615, VelX = 0, VelY = 0, VelZ = 0\<rparr>) = None"
    unfolding ecef_checks_None
    by (simp add: in_3gpp_range_def ECEFPosMin_def ECEFPosMax_def ECEFVelMin_def ECEFVelMax_def)
  moreover have "ToTLE ?L o' = Inr ()" "GreenwichSiderealTime ?L e = Fin 0"
    "FindPositionAtTime ?L u t = Inr \<lparr>Position = \<lparr>vX = Fin 0, vY = Fin 0, vZ = Fin 7000\<rparr>,
        Velocity = \<lparr>vX = Fin 0, vY = Fin 0, vZ = Fin 0\<rparr>, eci_Rest = ''''\<rparr>" for u e
    by (simp_all add: demo_sgp4_def)
  ultimately show ?thesis
    by (simp add: PropagateToECEF_def demo_codepoints Let_def)
qed

theorem propagated_state_physical_witness:
  "PropagateToECEF (demo_sgp4 (Fin 7000) (\<lambda>_. Fin 0) []) (demo_omm 25544 ''ISS'') 0
     = Inr \<lparr>PosX = 0, PosY = 0, PosZ = 5384615, VelX = 0, VelY = 0, VelZ = 0\<rparr>
   \<and> is_codepoint (Fin 7000) ECEFPositionStep 5384615"
proof -
  have "int_overflow (demo_sgp4 (Fin 7000) (\<lambda>_. Fin 0) []) < ECEFPosMin"
    by (simp add: demo_sgp4_def ECEFPosMin_def min_int64_def)
  then obtain tle eci x y z where
    "FindPositionAtTime (demo_sgp4 (Fin 7000) (\<lambda>_. Fin 0) []) tle 0 = Inr eci"
    "rotateZ (demo_sgp4 (Fin 7000) (\<lambda>_. Fin 0) []) (vX (Position eci)) (vY (Position eci)) (vZ (Position eci))
       (GreenwichSiderealTime (demo_sgp4 (Fin 7000) (\<lambda>_. Fin 0) []) eci) = (x, y, z)"
    "is_codepoint z ECEFPositionStep 5384615"
    using propagated_state_physical [OF demo_propagation] by fastforce
  then have "is_codepoint (Fin 7000) ECEFPositionStep 5384615"
    by (auto simp: rotateZ_def Let_def demo_sgp4_def)
  with demo_propagation show ?thesis by blast
qed

end
