(* ===== verification/Pass_Predictor.thy ===== *)
theory Pass_Predictor
  imports Orbit_Elements "HOL-Library.Multiset" "HOL-Library.List_Lexorder" "HOL-Library.Char_ord"
begin

text \<open>
  Pass prediction, \<open>pkg/ephemeris/pass_predictor.go\<close>: trimming a pass to the elevation mask by
  bisection, the conservative whole-second window, the per-satellite cap, and the worker pool that
  sweeps every satellite over every station.

  The pool is a transition system: \<open>pool_step\<close> executes one atomic action of one worker (receiving an
  item, finishing it under the mutex, leaving) or the cancellation of the context, and a run is a list
  of such events, so every interleaving of the workers is one event list. \<open>sort.Slice\<close> is a parameter:
  it orders by the given comparison and is not stable; \<open>sorts\<close> states what it promises.
\<close>

section \<open>Data\<close>

definition MaxPassWindows :: nat where "MaxPassWindows = 500"
definition DefaultStepSeconds :: int where "DefaultStepSeconds = 60"
definition maskCrossingIterations :: nat where "maskCrossingIterations = 40"
definition maskCrossingTol :: duration where "maskCrossingTol = 200000000"

record GroundStation =
  gstn_Name :: string
  Latitude :: f64
  Longitude :: f64
  Altitude :: f64

record PassResult =
  pr_Satellite :: string
  pr_NoradID :: int
  pr_GroundStation :: string
  pr_AOS :: time
  pr_LOS :: time
  pr_MaxElevation :: f64

section \<open>Parsing\<close>

definition num_error_msg :: "string \<Rightarrow> num_error \<Rightarrow> msg" where
  "num_error_msg s e = [Lit ''strconv.ParseFloat: parsing '', Quoted s,
     Lit (case e of ErrSyntax \<Rightarrow> '': invalid syntax'' | ErrRange \<Rightarrow> '': value out of range'')]"

definition ParseElevation :: "string \<Rightarrow> f64 result" where
  "ParseElevation s =
     (if s = '''' then Inr (Fin 10)
      else case ParseFloat s of
        Inl e \<Rightarrow> Inl (Errorf ([Lit ''invalid elevation '', Quoted s, Lit '': ''] @ num_error_msg s e))
      | Inr v \<Rightarrow>
          if IsNaN v \<or> IsInf v \<or> f64_less v (Fin 0) \<or> f64_less (Fin 90) v
          then Inl (Errorf [Lit ''elevation '', Quoted s, Lit '' must be a finite value in [0,90]''])
          else Inr v)"

definition ParseGeoCoord :: "string \<Rightarrow> f64 result" where
  "ParseGeoCoord s = (case ParseFloat s of Inl e \<Rightarrow> Inl (Errorf (num_error_msg s e)) | Inr v \<Rightarrow> Inr v)"

section \<open>The order of passes and the cap\<close>

definition lessPass :: "PassResult \<Rightarrow> PassResult \<Rightarrow> bool" where
  "lessPass a b =
     (if pr_AOS a \<noteq> pr_AOS b then pr_AOS a < pr_AOS b
      else if pr_Satellite a \<noteq> pr_Satellite b then pr_Satellite a < pr_Satellite b
      else if pr_GroundStation a \<noteq> pr_GroundStation b then pr_GroundStation a < pr_GroundStation b
      else pr_LOS a < pr_LOS b)"

type_synonym sorter = "(PassResult \<Rightarrow> PassResult \<Rightarrow> bool) \<Rightarrow> PassResult list \<Rightarrow> PassResult list"

text \<open>The number of distinct names, counted with the \<open>seen\<close> map.\<close>

fun count_names :: "PassResult list \<Rightarrow> string set \<Rightarrow> nat \<Rightarrow> nat" where
  "count_names [] seen n = n"
| "count_names (p # ps) seen n =
     (if pr_Satellite p \<in> seen then count_names ps seen n
      else count_names ps (insert (pr_Satellite p) seen) (n + 1))"

text \<open>The selection loop: the passes kept and left over, and how many each name has.\<close>

fun select_quota :: "nat \<Rightarrow> nat \<Rightarrow> PassResult list \<Rightarrow> PassResult list \<Rightarrow> PassResult list \<Rightarrow> (string \<Rightarrow> nat)
    \<Rightarrow> PassResult list \<times> PassResult list" where
  "select_quota limit quota [] kept leftover cnt = (kept, leftover)"
| "select_quota limit quota (p # ps) kept leftover cnt =
     (if length kept < limit \<and> cnt (pr_Satellite p) < quota
      then select_quota limit quota ps (kept @ [p]) leftover
             (cnt(pr_Satellite p := cnt (pr_Satellite p) + 1))
      else select_quota limit quota ps kept (leftover @ [p]) cnt)"

fun fill_budget :: "nat \<Rightarrow> PassResult list \<Rightarrow> PassResult list \<Rightarrow> PassResult list" where
  "fill_budget limit kept [] = kept"
| "fill_budget limit kept (p # ps) =
     (if limit \<le> length kept then kept else fill_budget limit (kept @ [p]) ps)"

definition capPerSatellite :: "sorter \<Rightarrow> PassResult list \<Rightarrow> nat \<Rightarrow> PassResult list" where
  "capPerSatellite srt passes limit =
     (if length passes \<le> limit then passes
      else
        (let nSat = count_names passes {} 0;
             quota = max (limit div nSat) 1;
             (kept, leftover) = select_quota limit quota passes [] [] (\<lambda>_. 0)
         in srt lessPass (fill_budget limit kept leftover)))"

section \<open>The mask\<close>

definition elevationAt :: "'tle sgp4_api \<Rightarrow> 'tle \<Rightarrow> Location \<Rightarrow> time \<Rightarrow> f64 result" where
  "elevationAt L tle observer t =
     (case FindPositionAtTime L tle t of
        Inl e \<Rightarrow> Inl e
      | Inr eci \<Rightarrow> GetLookAngle L \<lparr>sv_Position = Position eci, sv_Velocity = Velocity eci\<rparr> observer t)"

text \<open>\<open>Duration\<close> division by 2 truncates toward zero.\<close>

definition half :: "duration \<Rightarrow> duration" where
  "half d = (if 0 \<le> d then d div 2 else - ((- d) div 2))"

text \<open>The bisection, with the number of iterations left.\<close>

fun refineMaskCrossing :: "nat \<Rightarrow> (time \<Rightarrow> f64 result) \<Rightarrow> time \<Rightarrow> time \<Rightarrow> f64 \<Rightarrow> bool \<Rightarrow> time result" where
  "refineMaskCrossing 0 elevFn lo hi msk rising = Inr (if rising then hi else lo)"
| "refineMaskCrossing (Suc n) elevFn lo hi msk rising =
     (if time_Sub hi lo > maskCrossingTol then
        (let mid = time_Add lo (half (time_Sub hi lo)) in
         case elevFn mid of
           Inl e \<Rightarrow> Inl e
         | Inr el \<Rightarrow> if f64_le msk el = rising then refineMaskCrossing n elevFn lo mid msk rising
                      else refineMaskCrossing n elevFn mid hi msk rising)
      else Inr (if rising then hi else lo))"

definition trimPassToMask :: "(time \<Rightarrow> f64 result) \<Rightarrow> PassDetails \<Rightarrow> f64 \<Rightarrow> time \<times> time" where
  "trimPassToMask elevFn p msk =
     (if f64_le msk (Fin 0) then (pd_AOS p, pd_LOS p)
      else
        (let aos = pd_AOS p; los = pd_LOS p; peak = pd_MaxElevationTime p;
             aos' = (if aos < peak then
                       (case elevFn aos of
                          Inr elAOS \<Rightarrow>
                            if f64_less elAOS msk then
                              (case refineMaskCrossing maskCrossingIterations elevFn aos peak msk True of
                                 Inr t \<Rightarrow> t | Inl _ \<Rightarrow> aos)
                            else aos
                        | Inl _ \<Rightarrow> aos)
                     else aos);
             los' = (if peak < los then
                       (case elevFn los of
                          Inr elLOS \<Rightarrow>
                            if f64_less elLOS msk then
                              (case refineMaskCrossing maskCrossingIterations elevFn peak los msk False of
                                 Inr t \<Rightarrow> t | Inl _ \<Rightarrow> los)
                            else los
                        | Inl _ \<Rightarrow> los)
                     else los)
         in (aos', los')))"

definition ceilToSecond :: "time \<Rightarrow> time" where
  "ceilToSecond t = (let trunc = time_Truncate t second in if trunc < t then time_Add trunc second else trunc)"

definition floorToSecond :: "time \<Rightarrow> time" where
  "floorToSecond t = time_Truncate t second"

definition conservativePassWindow :: "time \<Rightarrow> time \<Rightarrow> time \<times> time \<times> bool" where
  "conservativePassWindow aos los =
     (let roundedAOS = ceilToSecond aos; roundedLOS = floorToSecond los
      in (roundedAOS, roundedLOS, roundedAOS < roundedLOS))"

section \<open>One satellite over one station\<close>

definition pass_result :: "OMM \<Rightarrow> GroundStation \<Rightarrow> (time \<Rightarrow> f64 result) \<Rightarrow> f64 \<Rightarrow> PassDetails \<Rightarrow> PassResult option" where
  "pass_result omm gs elevFn minElevation p =
     (if f64_less (pd_MaxElevation p) minElevation then None
      else
        (let (aos, los) = trimPassToMask elevFn p minElevation;
             (aos', los', valid) = conservativePassWindow aos los
         in if \<not> valid then None
            else Some \<lparr>pr_Satellite = BoundedSatelliteLabel (ObjectName omm), pr_NoradID = NoradCatID omm,
                       pr_GroundStation = gstn_Name gs, pr_AOS = aos', pr_LOS = los',
                       pr_MaxElevation = pd_MaxElevation p\<rparr>))"

definition observer_of :: "GroundStation \<Rightarrow> Location" where
  "observer_of gs = \<lparr>loc_Latitude = Latitude gs, loc_Longitude = Longitude gs, loc_Altitude = Altitude gs\<rparr>"

definition predictSingle :: "'tle sgp4_api \<Rightarrow> OMM \<Rightarrow> GroundStation \<Rightarrow> time \<Rightarrow> time \<Rightarrow> f64 \<Rightarrow> PassResult list result" where
  "predictSingle L omm gs start stop minElevation =
     (case ToTLE L omm of
        Inl e \<Rightarrow> Inl (Wrapf ([Lit ''converting OMM to TLE for '', Lit (BoundedSatelliteLabel (ObjectName omm)),
                   Lit '' (NORAD '', Num (NoradCatID omm), Lit ''): ''] @ err_msg e) [e])
      | Inr tle \<Rightarrow>
          (case GeneratePasses L tle (Latitude gs) (Longitude gs) (Altitude gs) start stop DefaultStepSeconds of
             Inl _ \<Rightarrow> Inr []
           | Inr passes \<Rightarrow>
               Inr (List.map_filter (pass_result omm gs (elevationAt L tle (observer_of gs)) minElevation) passes)))"

section \<open>The worker pool\<close>

record workItem =
  wi_omm :: OMM
  wi_station :: GroundStation

datatype worker = Idle | Busy workItem | Returned

record pool =
  workCh :: "workItem list"
  workers :: "worker list"
  allPasses :: "PassResult list"
  firstErr :: "gerror option"
  ctxErr :: "gerror option"

datatype pool_event = Receive nat | Finish nat | Cancel gerror

definition pool_init :: "workItem list \<Rightarrow> pool" where
  "pool_init work = \<lparr>workCh = work, workers = replicate (min 8 (length work)) Idle, allPasses = [],
     firstErr = None, ctxErr = None\<rparr>"

text \<open>One event: a worker takes the next item of the closed channel, or returns because the channel is
  drained or the context is done; a worker appends the passes of its item under the mutex; the context
  is cancelled, once.\<close>

definition pool_step :: "(workItem \<Rightarrow> PassResult list result) \<Rightarrow> pool_event \<Rightarrow> pool \<Rightarrow> pool option" where
  "pool_step predict ev s =
     (case ev of
        Receive w \<Rightarrow>
          if w < length (workers s) \<and> workers s ! w = Idle then
            (case workCh s of
               [] \<Rightarrow> Some (s\<lparr>workers := (workers s)[w := Returned]\<rparr>)
             | item # q \<Rightarrow>
                 if ctxErr s \<noteq> None then Some (s\<lparr>workCh := q, workers := (workers s)[w := Returned]\<rparr>)
                 else Some (s\<lparr>workCh := q, workers := (workers s)[w := Busy item]\<rparr>))
          else None
      | Finish w \<Rightarrow>
          if w < length (workers s) then
            (case workers s ! w of
               Busy item \<Rightarrow>
                 (case predict item of
                    Inl e \<Rightarrow> Some (s\<lparr>workers := (workers s)[w := Idle],
                       firstErr := (if firstErr s = None then Some e else firstErr s)\<rparr>)
                  | Inr passes \<Rightarrow> Some (s\<lparr>workers := (workers s)[w := Idle],
                       allPasses := allPasses s @ passes\<rparr>))
             | _ \<Rightarrow> None)
          else None
      | Cancel e \<Rightarrow> if ctxErr s = None then Some (s\<lparr>ctxErr := Some e\<rparr>) else None)"

fun pool_run :: "(workItem \<Rightarrow> PassResult list result) \<Rightarrow> pool_event list \<Rightarrow> pool \<Rightarrow> pool option" where
  "pool_run predict [] s = Some s"
| "pool_run predict (ev # evs) s =
     (case pool_step predict ev s of None \<Rightarrow> None | Some s' \<Rightarrow> pool_run predict evs s')"

text \<open>\<open>wg.Wait\<close>: every worker has returned.\<close>

definition pool_done :: "pool \<Rightarrow> bool" where
  "pool_done s \<longleftrightarrow> list_all (\<lambda>w. w = Returned) (workers s)"

definition predict_item :: "'tle sgp4_api \<Rightarrow> time \<Rightarrow> time \<Rightarrow> f64 \<Rightarrow> workItem \<Rightarrow> PassResult list result" where
  "predict_item L start stop minElevation i = predictSingle L (wi_omm i) (wi_station i) start stop minElevation"

definition build_work :: "OMM list \<Rightarrow> GroundStation list \<Rightarrow> workItem list" where
  "build_work filtered stations =
     concat (map (\<lambda>omm. map (\<lambda>gs. \<lparr>wi_omm = omm, wi_station = gs\<rparr>) stations) filtered)"

text \<open>What \<open>PredictPasses\<close> returns once the workers are done.\<close>

definition pool_result :: "sorter \<Rightarrow> pool \<Rightarrow> PassResult list result" where
  "pool_result srt s =
     (case ctxErr s of
        Some e \<Rightarrow> Inl e
      | None \<Rightarrow>
          (case firstErr s of
             Some e \<Rightarrow> if allPasses s = [] then Inl e
                       else Inr (capPerSatellite srt (srt lessPass (allPasses s)) MaxPassWindows)
           | None \<Rightarrow> Inr (capPerSatellite srt (srt lessPass (allPasses s)) MaxPassWindows)))"

text \<open>\<open>PredictPasses\<close>, for one schedule of the workers; \<open>None\<close> when the schedule is not a run after
  which every worker has returned.\<close>

definition PredictPasses :: "'tle sgp4_api \<Rightarrow> sorter \<Rightarrow> time \<Rightarrow> pool_event list \<Rightarrow> OMM list \<Rightarrow> GroundStation list
    \<Rightarrow> f64 \<Rightarrow> duration \<Rightarrow> int list \<Rightarrow> time \<Rightarrow> PassResult list result option" where
  "PredictPasses L srt now evs omms stations minElevation horizon noradFilter startTime =
     (if IsNaN minElevation \<or> IsInf minElevation \<or> f64_less minElevation (Fin 0) \<or> f64_less (Fin 90) minElevation
      then Some (Inl (Errorf [Lit ''minElevation must be a finite value in [0,90], got '', FloatG minElevation]))
      else if omms = [] \<or> stations = [] then Some (Inr [])
      else
        (let filtered = FilterOMMs omms noradFilter in
         if filtered = [] then Some (Inr [])
         else
           (let start = (if IsZero startTime then now else startTime);
                stop = time_Add start horizon;
                work = build_work filtered stations
            in case pool_run (predict_item L start stop minElevation) evs (pool_init work) of
                 None \<Rightarrow> None
               | Some s \<Rightarrow> if pool_done s then Some (pool_result srt s) else None)))"

section \<open>Lemmas on the pool\<close>

text \<open>What is left to do: two events for every queued item, one for every busy worker, one for every
  worker that has not returned.\<close>

fun worker_cost :: "worker \<Rightarrow> nat" where
  "worker_cost Idle = 1"
| "worker_cost (Busy _) = 2"
| "worker_cost Returned = 0"

definition pool_measure :: "pool \<Rightarrow> nat" where
  "pool_measure s = 2 * length (workCh s) + sum_list (map worker_cost (workers s))"

definition is_cancel :: "pool_event \<Rightarrow> bool" where
  "is_cancel ev \<longleftrightarrow> (case ev of Cancel _ \<Rightarrow> True | _ \<Rightarrow> False)"

lemma sum_list_map_update:
  "i < length xs \<Longrightarrow> sum_list (map f (xs[i := y])) + f (xs ! i) = sum_list (map f xs) + (f y :: 'a :: comm_monoid_add)"
  by (induction xs arbitrary: i) (auto split: nat.split simp: ac_simps)

lemma pool_step_measure:
  assumes "pool_step predict ev s = Some s'"
  shows "pool_measure s' + (if is_cancel ev then 0 else 1) \<le> pool_measure s"
proof (cases ev)
  case (Receive w)
  with assms show ?thesis
    using sum_list_map_update [of w "workers s" worker_cost Returned]
      sum_list_map_update [of w "workers s" worker_cost "Busy (hd (workCh s))"]
    by (auto simp: pool_step_def pool_measure_def is_cancel_def split: if_splits list.splits)
next
  case (Finish w)
  with assms show ?thesis
    using sum_list_map_update [of w "workers s" worker_cost Idle]
    by (auto simp: pool_step_def pool_measure_def is_cancel_def split: if_splits worker.splits sum.splits)
next
  case (Cancel e)
  with assms show ?thesis by (auto simp: pool_step_def pool_measure_def is_cancel_def split: if_splits)
qed

lemma pool_run_measure:
  "pool_run predict evs s = Some s' \<Longrightarrow>
     pool_measure s' + length (filter (\<lambda>ev. \<not> is_cancel ev) evs) \<le> pool_measure s"
proof (induction evs arbitrary: s)
  case (Cons ev evs)
  then obtain t where t: "pool_step predict ev s = Some t" "pool_run predict evs t = Some s'"
    by (auto split: option.splits)
  from Cons.IH [OF t(2)] pool_step_measure [OF t(1)] show ?case by auto
qed simp

lemma pool_progress:
  assumes "\<not> pool_done s"
  shows "\<exists>ev. \<not> is_cancel ev \<and> pool_step predict ev s \<noteq> None"
proof -
  from assms obtain w where w: "w < length (workers s)" "workers s ! w \<noteq> Returned"
    by (auto simp: pool_done_def list_all_iff in_set_conv_nth)
  show ?thesis
  proof (cases "workers s ! w")
    case Idle
    then have "pool_step predict (Receive w) s \<noteq> None" using w
      by (simp add: pool_step_def split: list.split)
    then show ?thesis by (auto simp: is_cancel_def intro!: exI [of _ "Receive w"])
  next
    case (Busy i)
    then have "pool_step predict (Finish w) s \<noteq> None" using w
      by (simp add: pool_step_def split: sum.split)
    then show ?thesis by (auto simp: is_cancel_def intro!: exI [of _ "Finish w"])
  qed (use w in simp)
qed

text \<open>The items not finished yet, and what their sweep yields.\<close>

fun busy_item :: "worker \<Rightarrow> workItem multiset" where
  "busy_item (Busy i) = {#i#}"
| "busy_item _ = {#}"

definition outstanding :: "pool \<Rightarrow> workItem multiset" where
  "outstanding s = mset (workCh s) + sum_list (map busy_item (workers s))"

definition item_passes :: "(workItem \<Rightarrow> PassResult list result) \<Rightarrow> workItem \<Rightarrow> PassResult multiset" where
  "item_passes predict i = (case predict i of Inr ps \<Rightarrow> mset ps | Inl _ \<Rightarrow> {#})"

definition pool_total :: "(workItem \<Rightarrow> PassResult list result) \<Rightarrow> pool \<Rightarrow> PassResult multiset" where
  "pool_total predict s = mset (allPasses s) + sum_mset (image_mset (item_passes predict) (outstanding s))"

definition pool_fails :: "(workItem \<Rightarrow> PassResult list result) \<Rightarrow> pool \<Rightarrow> bool" where
  "pool_fails predict s \<longleftrightarrow> firstErr s \<noteq> None \<or> (\<exists>i e. i \<in># outstanding s \<and> predict i = Inl e)"

lemma outstanding_receive:
  assumes "pool_step predict (Receive w) s = Some s'" "ctxErr s' = None"
  shows "outstanding s' = outstanding s \<and> allPasses s' = allPasses s \<and> firstErr s' = firstErr s"
  using assms sum_list_map_update [of w "workers s" busy_item Returned]
    sum_list_map_update [of w "workers s" busy_item "Busy (hd (workCh s))"]
  by (auto simp: pool_step_def outstanding_def ac_simps split: if_splits list.splits)

lemma outstanding_finish:
  assumes "pool_step predict (Finish w) s = Some s'"
  shows "\<exists>i. outstanding s = add_mset i (outstanding s')
     \<and> allPasses s' = allPasses s @ (case predict i of Inr ps \<Rightarrow> ps | Inl _ \<Rightarrow> [])
     \<and> firstErr s' = (case predict i of Inl e \<Rightarrow> if firstErr s = None then Some e else firstErr s | Inr _ \<Rightarrow> firstErr s)"
proof -
  from assms obtain i where w: "w < length (workers s)" "workers s ! w = Busy i"
    by (auto simp: pool_step_def split: if_splits worker.splits)
  have "add_mset i (sum_list (map busy_item ((workers s)[w := Idle]))) = sum_list (map busy_item (workers s))"
    using sum_list_map_update [of w "workers s" busy_item Idle] w by simp
  with assms w have "outstanding s = add_mset i (outstanding s')
     \<and> allPasses s' = allPasses s @ (case predict i of Inr ps \<Rightarrow> ps | Inl _ \<Rightarrow> [])
     \<and> firstErr s' = (case predict i of Inl e \<Rightarrow> if firstErr s = None then Some e else firstErr s | Inr _ \<Rightarrow> firstErr s)"
    by (auto simp: pool_step_def outstanding_def split: sum.splits simp flip: union_mset_add_mset_right)
  then show ?thesis ..
qed

lemma pool_step_total:
  assumes "pool_step predict ev s = Some s'" "ctxErr s' = None"
  shows "ctxErr s = None \<and> pool_total predict s' = pool_total predict s \<and> (pool_fails predict s' \<longleftrightarrow> pool_fails predict s)"
proof (cases ev)
  case (Receive w)
  then have "ctxErr s = None" using assms by (auto simp: pool_step_def split: if_splits list.splits)
  with Receive assms outstanding_receive [of predict w s s'] show ?thesis
    by (simp add: pool_total_def pool_fails_def)
next
  case (Finish w)
  with assms outstanding_finish [of predict w s s'] obtain i where i:
    "outstanding s = add_mset i (outstanding s')"
    "allPasses s' = allPasses s @ (case predict i of Inr ps \<Rightarrow> ps | Inl _ \<Rightarrow> [])"
    "firstErr s' = (case predict i of Inl e \<Rightarrow> if firstErr s = None then Some e else firstErr s | Inr _ \<Rightarrow> firstErr s)"
    by auto
  have "ctxErr s = None" using Finish assms
    by (auto simp: pool_step_def split: if_splits worker.splits sum.splits)
  with i show ?thesis
    by (auto simp: pool_total_def pool_fails_def item_passes_def split: sum.splits if_splits)
next
  case (Cancel e)
  with assms show ?thesis by (auto simp: pool_step_def split: if_splits)
qed

lemma pool_run_total:
  "pool_run predict evs s = Some s' \<Longrightarrow> ctxErr s' = None \<Longrightarrow>
     ctxErr s = None \<and> pool_total predict s' = pool_total predict s \<and> (pool_fails predict s' \<longleftrightarrow> pool_fails predict s)"
proof (induction evs arbitrary: s)
  case (Cons ev evs)
  then obtain t where t: "pool_step predict ev s = Some t" "pool_run predict evs t = Some s'"
    by (auto split: option.splits)
  from Cons.IH [OF t(2) Cons.prems(2)] pool_step_total [OF t(1)] show ?case by simp
qed simp

text \<open>While the context is live an item is only taken to be swept, and a worker returns only from a
  drained channel: once all workers have returned, nothing is outstanding.\<close>

definition drained :: "pool \<Rightarrow> bool" where
  "drained s \<longleftrightarrow> (Returned \<in> set (workers s) \<or> workers s = [] \<longrightarrow> workCh s = [])"

lemma returned_update: "x \<noteq> Returned \<Longrightarrow> Returned \<in> set (ws[w := x]) \<Longrightarrow> Returned \<in> set ws"
  using set_update_subset_insert [of ws w x] by auto

lemma pool_step_drained:
  assumes "pool_step predict ev s = Some s'" "ctxErr s' = None" "drained s"
  shows "drained s'"
proof (cases ev)
  case (Receive w)
  with assms show ?thesis
    by (auto simp: pool_step_def drained_def dest: returned_update [rotated] split: if_splits list.splits)
next
  case (Finish w)
  with assms show ?thesis
    by (auto simp: pool_step_def drained_def dest: returned_update [rotated]
        split: if_splits worker.splits sum.splits)
next
  case (Cancel e)
  with assms show ?thesis by (auto simp: pool_step_def split: if_splits)
qed

lemma pool_run_drained:
  "pool_run predict evs s = Some s' \<Longrightarrow> ctxErr s' = None \<Longrightarrow> drained s \<Longrightarrow> drained s'"
proof (induction evs arbitrary: s)
  case (Cons ev evs)
  then obtain t where t: "pool_step predict ev s = Some t" "pool_run predict evs t = Some s'"
    by (auto split: option.splits)
  with Cons.prems pool_run_total [OF t(2)] have "drained t" by (intro pool_step_drained [OF t(1)]) auto
  with Cons.IH [OF t(2)] Cons.prems show ?case by simp
qed simp

lemma drained_done: "drained s \<Longrightarrow> pool_done s \<Longrightarrow> outstanding s = {#}"
proof -
  assume "drained s" "pool_done s"
  then have "workCh s = []"
    by (cases "workers s"; auto simp: drained_def pool_done_def list_all_iff)
  moreover have "list_all (\<lambda>w. w = Returned) ws \<Longrightarrow> sum_list (map busy_item ws) = {#}" for ws
    by (induction ws) auto
  ultimately show ?thesis using \<open>pool_done s\<close> by (simp add: outstanding_def pool_done_def)
qed

lemma pool_init_facts:
  "drained (pool_init work)"
  "pool_total predict (pool_init work) = sum_mset (image_mset (item_passes predict) (mset work))"
  "pool_fails predict (pool_init work) \<longleftrightarrow> (\<exists>i e. i \<in> set work \<and> predict i = Inl e)"
  "pool_measure (pool_init work) = 2 * length work + min 8 (length work)"
proof -
  have "sum_list (map busy_item (replicate n Idle)) = {#}" "sum_list (map worker_cost (replicate n Idle)) = n" for n
    by (induction n) auto
  then show "drained (pool_init work)"
    "pool_total predict (pool_init work) = sum_mset (image_mset (item_passes predict) (mset work))"
    "pool_fails predict (pool_init work) \<longleftrightarrow> (\<exists>i e. i \<in> set work \<and> predict i = Inl e)"
    "pool_measure (pool_init work) = 2 * length work + min 8 (length work)"
    by (auto simp: pool_init_def drained_def pool_total_def pool_fails_def outstanding_def pool_measure_def
        min_def split: if_splits)
qed

text \<open>A complete run whose context stayed live has swept every item exactly once.\<close>

lemma pool_complete:
  assumes "pool_run predict evs (pool_init work) = Some s" "pool_done s" "ctxErr s = None"
  shows "mset (allPasses s) = sum_mset (image_mset (item_passes predict) (mset work))"
    and "firstErr s \<noteq> None \<longleftrightarrow> (\<exists>i e. i \<in> set work \<and> predict i = Inl e)"
proof -
  have "outstanding s = {#}"
    using pool_run_drained [OF assms(1,3) pool_init_facts(1)] assms(2) by (rule drained_done)
  moreover from pool_run_total [OF assms(1,3)] have
    "pool_total predict s = sum_mset (image_mset (item_passes predict) (mset work))"
    "pool_fails predict s \<longleftrightarrow> (\<exists>i e. i \<in> set work \<and> predict i = Inl e)"
    by (simp_all add: pool_init_facts)
  ultimately show "mset (allPasses s) = sum_mset (image_mset (item_passes predict) (mset work))"
    "firstErr s \<noteq> None \<longleftrightarrow> (\<exists>i e. i \<in> set work \<and> predict i = Inl e)"
    by (simp_all add: pool_total_def pool_fails_def)
qed

section \<open>Lemmas on the order and the cap\<close>

text \<open>What \<open>sort.Slice\<close> promises for this comparison: a permutation in which no element comes after
  one that it precedes.\<close>

definition sorts :: "sorter \<Rightarrow> bool" where
  "sorts srt \<longleftrightarrow> (\<forall>ps. mset (srt lessPass ps) = mset ps \<and> sorted_wrt (\<lambda>a b. \<not> lessPass b a) (srt lessPass ps))"

lemma lessPass_irrefl: "\<not> lessPass a a"
  by (simp add: lessPass_def)

lemma lessPass_trans: "lessPass a b \<Longrightarrow> lessPass b c \<Longrightarrow> lessPass a c"
  by (auto simp: lessPass_def split: if_splits)

lemma lessPass_asym: "lessPass a b \<Longrightarrow> \<not> lessPass b a"
  using lessPass_irrefl lessPass_trans by blast

text \<open>Lists sorted without ties are determined by their elements.\<close>

lemma sorted_unique:
  assumes "mset xs = mset ys" "sorted_wrt (\<lambda>a b. \<not> lessPass b a) xs" "sorted_wrt (\<lambda>a b. \<not> lessPass b a) ys"
    and "\<forall>a\<in>#mset xs. \<forall>b\<in>#mset xs. a = b \<or> lessPass a b \<or> lessPass b a"
  shows "xs = ys"
  using assms
proof (induction xs arbitrary: ys)
  case (Cons x xs)
  then obtain y ys' where ys: "ys = y # ys'" by (cases ys) auto
  have "y \<in> set (x # xs)" "x \<in> set ys" using Cons.prems(1) ys mset_eq_setD by fastforce+
  with Cons.prems ys have "x = y" by (auto dest: mset_eq_setD)
  have "xs = ys'"
  proof (rule Cons.IH)
    show "mset xs = mset ys'" using Cons.prems(1) ys \<open>x = y\<close> by simp
    show "\<forall>a\<in>#mset xs. \<forall>b\<in>#mset xs. a = b \<or> lessPass a b \<or> lessPass b a"
      using Cons.prems(4) by simp
  qed (use Cons.prems(2,3) ys in auto)
  with \<open>x = y\<close> ys show ?case by simp
qed simp

lemma count_names_card: "finite seen \<Longrightarrow> count_names ps seen n = n + card (pr_Satellite ` set ps - seen)"
proof (induction ps arbitrary: seen n)
  case (Cons p ps)
  show ?case
  proof (cases "pr_Satellite p \<in> seen")
    case True
    then have "insert (pr_Satellite p) A - seen = A - seen" for A by auto
    with True Cons show ?thesis by simp
  next
    case False
    have "insert (pr_Satellite p) A - seen = insert (pr_Satellite p) (A - insert (pr_Satellite p) seen)" for A
      using False by auto
    with False Cons show ?thesis by simp
  qed
qed simp

lemma select_quota_mset:
  "select_quota limit quota ps kept leftover cnt = (k, l) \<Longrightarrow>
     mset k + mset l = mset kept + mset leftover + mset ps \<and> length k \<le> max limit (length kept)
     \<and> set kept \<subseteq> set k"
proof (induction ps arbitrary: kept leftover cnt)
  case (Cons p ps)
  then show ?case by (fastforce split: if_splits)
qed simp

lemma fill_budget_mset:
  "mset (fill_budget limit kept ps) \<subseteq># mset kept + mset ps \<and> set kept \<subseteq> set (fill_budget limit kept ps)
     \<and> length (fill_budget limit kept ps) \<le> max limit (length kept)"
proof (induction ps arbitrary: kept)
  case (Cons p ps)
  show ?case
  proof (cases "limit \<le> length kept")
    case False
    with Cons [of "kept @ [p]"] show ?thesis by simp
  qed simp
qed simp

text \<open>While a name has nothing kept, the others cannot have used up the limit.\<close>

lemma quota_room:
  assumes "finite N" "n \<in> N" "cnt n = 0" "\<And>m. cnt m \<le> (quota :: nat)" "quota * card N \<le> limit" "0 < quota"
  shows "sum cnt N < limit"
proof -
  have "sum cnt N = sum cnt (N - {n})" using assms by (simp add: sum.remove)
  also have "\<dots> \<le> quota * card (N - {n})"
    using sum_bounded_above [of "N - {n}" cnt quota] assms by (simp add: mult.commute)
  also have "\<dots> < quota * card N" using assms card_Diff1_less [of N n] by simp
  finally show ?thesis using assms by simp
qed

lemma select_quota_first:
  assumes "select_quota limit quota ps kept leftover cnt = (k, l)"
    and "finite N" "pr_Satellite ` set ps \<subseteq> N" "quota * card N \<le> limit" "0 < quota"
    and "length kept = sum cnt N" "\<And>m. cnt m \<le> quota"
    and "find (\<lambda>p. pr_Satellite p = n) ps = Some p" "cnt n = 0"
  shows "p \<in> set k"
  using assms
proof (induction ps arbitrary: kept leftover cnt)
  case (Cons q ps)
  let ?cnt = "cnt(pr_Satellite q := cnt (pr_Satellite q) + 1)"
  have q: "pr_Satellite q \<in> N" using Cons.prems(3) by simp
  show ?case
  proof (cases "length kept < limit \<and> cnt (pr_Satellite q) < quota")
    case True
    then have sel: "select_quota limit quota ps (kept @ [q]) leftover ?cnt = (k, l)" using Cons.prems(1) by simp
    show ?thesis
    proof (cases "pr_Satellite q = n")
      case True
      then have "p = q" using Cons.prems by simp
      with select_quota_mset [OF sel] show ?thesis by auto
    next
      case False
      have "sum ?cnt N = sum cnt N + 1"
        using sum.remove [OF Cons.prems(2) q, of ?cnt] sum.remove [OF Cons.prems(2) q, of cnt] by simp
      then show ?thesis using False True Cons.prems by (intro Cons.IH [OF sel]) auto
    qed
  next
    case full: False
    then have sel: "select_quota limit quota ps kept (leftover @ [q]) cnt = (k, l)" using Cons.prems(1) by auto
    have "pr_Satellite q \<noteq> n"
      using full quota_room [OF Cons.prems(2) q, of cnt quota limit] Cons.prems by auto
    then show ?thesis using Cons.prems by (intro Cons.IH [OF sel]) auto
  qed
qed simp

lemma quota_fits: "0 < n \<Longrightarrow> n \<le> limit \<Longrightarrow> max (limit div n) 1 * n \<le> (limit :: nat)"
  by (simp add: max_def)

lemma capPerSatellite_basic:
  assumes "sorts srt"
  shows "length (capPerSatellite srt passes limit) \<le> limit" "mset (capPerSatellite srt passes limit) \<subseteq># mset passes"
proof -
  obtain kept leftover where s:
    "select_quota limit (max (limit div count_names passes {} 0) 1) passes [] [] (\<lambda>_. 0) = (kept, leftover)"
    by fastforce
  have m: "mset kept + mset leftover = mset passes" "length kept \<le> limit"
    using select_quota_mset [OF s] by simp_all
  have f: "mset (fill_budget limit kept leftover) \<subseteq># mset passes"
    "length (fill_budget limit kept leftover) \<le> limit"
    using fill_budget_mset [of limit kept leftover] m by simp_all
  have "mset (srt lessPass (fill_budget limit kept leftover)) = mset (fill_budget limit kept leftover)"
    using assms by (simp add: sorts_def)
  moreover from this have "length (srt lessPass (fill_budget limit kept leftover)) = length (fill_budget limit kept leftover)"
    by (rule mset_eq_length)
  ultimately show "length (capPerSatellite srt passes limit) \<le> limit" "mset (capPerSatellite srt passes limit) \<subseteq># mset passes"
    using f s by (simp_all add: capPerSatellite_def Let_def)
qed

lemma capPerSatellite_first:
  assumes "sorts srt" "card (pr_Satellite ` set passes) \<le> limit"
    and "find (\<lambda>p. pr_Satellite p = n) passes = Some p"
  shows "p \<in> set (capPerSatellite srt passes limit)"
proof (cases "length passes \<le> limit")
  case True
  then show ?thesis using assms(3) by (auto simp: capPerSatellite_def find_Some_iff)
next
  case False
  let ?N = "pr_Satellite ` set passes" and ?q = "max (limit div count_names passes {} 0) 1"
  obtain kept leftover where s: "select_quota limit ?q passes [] [] (\<lambda>_. 0) = (kept, leftover)" by fastforce
  have "passes \<noteq> []" using assms(3) by auto
  then have "0 < card ?N" by (simp add: card_gt_0_iff)
  then have "?q * card ?N \<le> limit" using quota_fits assms(2) by (simp add: count_names_card)
  then have "p \<in> set kept" using assms(3) by (intro select_quota_first [OF s, of ?N]) auto
  then have "p \<in> set (fill_budget limit kept leftover)" using fill_budget_mset by blast
  moreover have "set (srt lessPass (fill_budget limit kept leftover)) = set (fill_budget limit kept leftover)"
    using assms(1) by (intro mset_eq_setD) (simp add: sorts_def)
  ultimately show ?thesis using False s by (simp add: capPerSatellite_def Let_def)
qed

lemma not_lessPass_AOS: "\<not> lessPass b a \<Longrightarrow> pr_AOS a \<le> pr_AOS b"
  by (auto simp: lessPass_def split: if_splits)

lemma sorted_find_first:
  assumes "sorted_wrt (\<lambda>a b. \<not> lessPass b a) passes" "p \<in> set passes"
  shows "\<exists>q. find (\<lambda>r. pr_Satellite r = pr_Satellite p) passes = Some q \<and> pr_AOS q \<le> pr_AOS p"
  using assms by (induction passes) (auto dest: not_lessPass_AOS)

section \<open>Lemmas on the mask\<close>

definition usable :: "(time \<Rightarrow> f64 result) \<Rightarrow> f64 \<Rightarrow> time \<Rightarrow> bool" where
  "usable elevFn m t \<longleftrightarrow> (case elevFn t of Inr e \<Rightarrow> f64_le m e | Inl _ \<Rightarrow> False)"

lemma half_bounds: "1 < d \<Longrightarrow> 0 < half d \<and> half d < d \<and> 2 * half d \<le> d \<and> d \<le> 2 * half d + 1"
  unfolding half_def by simp presburger

text \<open>The bracket of the bisection: whichever side is searched, it keeps one end on each side of the
  crossing and at least halves, up to one nanosecond, with every iteration.\<close>

lemma refine_bracket:
  assumes "refineMaskCrossing n elevFn lo hi m rising = Inr t" "lo < hi" "hi - lo \<le> max_int64"
    and "usable elevFn m lo \<noteq> rising" "usable elevFn m hi = rising"
  shows "\<exists>lo' hi'. lo \<le> lo' \<and> lo' < hi' \<and> hi' \<le> hi \<and> t = (if rising then hi' else lo')
     \<and> usable elevFn m lo' \<noteq> rising \<and> usable elevFn m hi' = rising
     \<and> (hi' - lo' \<le> maskCrossingTol \<or> (hi' - lo' - 1) * 2 ^ n \<le> hi - lo - 1)"
  using assms
proof (induction n arbitrary: lo hi)
  case 0
  then show ?case by (intro exI [of _ lo] exI [of _ hi]) simp
next
  case (Suc n)
  have sub: "time_Sub hi lo = hi - lo" using Suc.prems by (simp add: time_Sub_def min_int64_def max_int64_def)
  show ?case
  proof (cases "hi - lo > maskCrossingTol")
    case False
    then show ?thesis using Suc.prems sub by (intro exI [of _ lo] exI [of _ hi]) auto
  next
    case True
    define mid where "mid = lo + half (hi - lo)"
    have mid: "lo < mid" "mid < hi" "2 * (mid - lo - 1) \<le> hi - lo - 1" "2 * (hi - mid - 1) \<le> hi - lo - 1"
      using True half_bounds [of "hi - lo"] by (auto simp: mid_def maskCrossingTol_def)
    from Suc.prems(1) True sub obtain el where el: "elevFn mid = Inr el"
      by (auto simp: mid_def time_Add_def Let_def split: sum.splits)
    then have u: "usable elevFn m mid \<longleftrightarrow> f64_le m el" by (simp add: usable_def)
    obtain l h where lh: "lo \<le> l" "h \<le> hi" "l < h" "refineMaskCrossing n elevFn l h m rising = Inr t"
      "usable elevFn m l \<noteq> rising" "usable elevFn m h = rising" "2 * (h - l - 1) \<le> hi - lo - 1"
    proof (cases "f64_le m el = rising")
      case True
      then show ?thesis using that [of lo mid] Suc.prems mid u el sub \<open>hi - lo > maskCrossingTol\<close>
        by (auto simp: mid_def time_Add_def Let_def)
    next
      case False
      then show ?thesis using that [of mid hi] Suc.prems mid u el sub \<open>hi - lo > maskCrossingTol\<close>
        by (auto simp: mid_def time_Add_def Let_def)
    qed
    from Suc.IH [OF lh(4) lh(3) _ lh(5,6)] lh Suc.prems(3) obtain lo' hi' where b:
      "l \<le> lo'" "lo' < hi'" "hi' \<le> h" "t = (if rising then hi' else lo')"
      "usable elevFn m lo' \<noteq> rising" "usable elevFn m hi' = rising"
      "hi' - lo' \<le> maskCrossingTol \<or> (hi' - lo' - 1) * 2 ^ n \<le> h - l - 1" by auto
    from b(7) have "hi' - lo' \<le> maskCrossingTol \<or> (hi' - lo' - 1) * 2 ^ Suc n \<le> hi - lo - 1"
    proof
      assume "(hi' - lo' - 1) * 2 ^ n \<le> h - l - 1"
      then have "2 * ((hi' - lo' - 1) * 2 ^ n) \<le> 2 * (h - l - 1)" by (intro mult_left_mono) simp_all
      then have "2 * ((hi' - lo' - 1) * 2 ^ n) \<le> hi - lo - 1" using lh(7) by (rule order.trans)
      then show ?thesis by (simp add: ac_simps)
    qed simp
    with b lh show ?thesis by (intro exI [of _ lo'] exI [of _ hi']) auto
  qed
qed

text \<open>Forty halvings of any bracket of at most 292 years leave less than the tolerance.\<close>

lemma refine_result:
  assumes "refineMaskCrossing maskCrossingIterations elevFn lo hi m rising = Inr t" "lo < hi" "hi - lo \<le> max_int64"
    and "usable elevFn m lo \<noteq> rising" "usable elevFn m hi = rising"
  shows "lo \<le> t \<and> t \<le> hi \<and> usable elevFn m t
     \<and> (\<exists>u. \<bar>t - u\<bar> \<le> maskCrossingTol \<and> lo \<le> u \<and> u \<le> hi \<and> (if rising then u < t else t < u) \<and> \<not> usable elevFn m u)"
proof -
  from refine_bracket [OF assms] obtain l h where b:
    "lo \<le> l" "l < h" "h \<le> hi" "t = (if rising then h else l)"
    "usable elevFn m l \<noteq> rising" "usable elevFn m h = rising"
    "h - l \<le> maskCrossingTol \<or> (h - l - 1) * 2 ^ maskCrossingIterations \<le> hi - lo - 1" by blast
  have "h - l \<le> maskCrossingTol"
  proof (rule ccontr)
    assume "\<not> h - l \<le> maskCrossingTol"
    then have "200000000 \<le> h - l - 1" "(h - l - 1) * 2 ^ 40 \<le> max_int64 - 1"
      using b(7) assms(3) by (auto simp: maskCrossingTol_def maskCrossingIterations_def)
    then show False by (simp add: max_int64_def)
  qed
  with b show ?thesis by (intro conjI exI [of _ "if rising then l else h"]) auto
qed

text \<open>What \<open>trimPassToMask\<close> relies on in a pass of the library: the elevation can be evaluated everywhere in it, is at
  the mask at the peak, and crosses the mask at most once on each side of the peak.\<close>

definition crosses_once :: "(time \<Rightarrow> f64 result) \<Rightarrow> f64 \<Rightarrow> PassDetails \<Rightarrow> bool" where
  "crosses_once elevFn m p \<longleftrightarrow>
     pd_AOS p \<le> pd_MaxElevationTime p \<and> pd_MaxElevationTime p \<le> pd_LOS p \<and> pd_LOS p - pd_AOS p \<le> max_int64
     \<and> (\<forall>t. pd_AOS p \<le> t \<and> t \<le> pd_LOS p \<longrightarrow> (case elevFn t of Inr e \<Rightarrow> f64_le e e | Inl _ \<Rightarrow> False))
     \<and> usable elevFn m (pd_MaxElevationTime p)
     \<and> (\<forall>s t. pd_AOS p \<le> s \<and> s \<le> t \<and> t \<le> pd_MaxElevationTime p \<and> usable elevFn m s \<longrightarrow> usable elevFn m t)
     \<and> (\<forall>s t. pd_MaxElevationTime p \<le> s \<and> s \<le> t \<and> t \<le> pd_LOS p \<and> usable elevFn m t \<longrightarrow> usable elevFn m s)"

lemma crosses_usable:
  assumes "crosses_once elevFn m p" "usable elevFn m a" "usable elevFn m b" "pd_AOS p \<le> a"
    "a \<le> pd_MaxElevationTime p" "pd_MaxElevationTime p \<le> b" "b \<le> pd_LOS p" "a \<le> t" "t \<le> b"
  shows "usable elevFn m t"
proof (cases "t \<le> pd_MaxElevationTime p")
  case True
  then show ?thesis using assms unfolding crosses_once_def by blast
next
  case False
  then have "pd_MaxElevationTime p \<le> t" by simp
  then show ?thesis using assms unfolding crosses_once_def by blast
qed

text \<open>The bisection succeeds where the elevation can be evaluated.\<close>

lemma refine_total:
  assumes "\<And>t. lo \<le> t \<Longrightarrow> t \<le> hi \<Longrightarrow> \<not> isl (elevFn t)" "lo \<le> hi" "hi - lo \<le> max_int64"
  shows "\<exists>t. refineMaskCrossing n elevFn lo hi m rising = Inr t"
  using assms
proof (induction n arbitrary: lo hi)
  case (Suc n)
  have sub: "time_Sub hi lo = hi - lo" using Suc.prems by (simp add: time_Sub_def min_int64_def max_int64_def)
  show ?case
  proof (cases "hi - lo > maskCrossingTol")
    case True
    define mid where "mid = lo + half (hi - lo)"
    have mid: "lo < mid" "mid < hi" using True half_bounds [of "hi - lo"] by (auto simp: mid_def maskCrossingTol_def)
    then obtain el where "elevFn mid = Inr el" using Suc.prems(1) [of mid] by (cases "elevFn mid") auto
    moreover have "\<exists>t. refineMaskCrossing n elevFn lo mid m rising = Inr t"
      "\<exists>t. refineMaskCrossing n elevFn mid hi m rising = Inr t"
      using mid Suc.prems by (auto intro!: Suc.IH)
    ultimately show ?thesis using True sub by (auto simp: Let_def time_Add_def mid_def [symmetric])
  qed (use sub in auto)
qed simp

text \<open>Both sides of the trimmed window.\<close>

definition tight :: "(time \<Rightarrow> f64 result) \<Rightarrow> f64 \<Rightarrow> time \<Rightarrow> time \<Rightarrow> bool" where
  "tight elevFn m edge t \<longleftrightarrow> t = edge \<or> (\<exists>u. \<bar>t - u\<bar> \<le> maskCrossingTol \<and> \<not> usable elevFn m u
     \<and> (edge \<le> u \<and> u < t \<or> t < u \<and> u \<le> edge))"

lemma trim_window:
  assumes "crosses_once elevFn m p" "is_finite m" "f64_less (Fin 0) m" and "trimPassToMask elevFn p m = (aos, los)"
  shows "pd_AOS p \<le> aos \<and> aos \<le> pd_MaxElevationTime p \<and> pd_MaxElevationTime p \<le> los \<and> los \<le> pd_LOS p
     \<and> usable elevFn m aos \<and> usable elevFn m los
     \<and> tight elevFn m (pd_AOS p) aos \<and> tight elevFn m (pd_LOS p) los"
proof -
  let ?a = "pd_AOS p" and ?l = "pd_LOS p" and ?k = "pd_MaxElevationTime p"
  have ord: "?a \<le> ?k" "?k \<le> ?l" "?l - ?a \<le> max_int64" and peak: "usable elevFn m ?k"
    and num: "\<And>t. ?a \<le> t \<Longrightarrow> t \<le> ?l \<Longrightarrow> case elevFn t of Inr e \<Rightarrow> f64_le e e | Inl _ \<Rightarrow> False"
    using assms(1) unfolding crosses_once_def by blast+
  have tot: "\<And>t. ?a \<le> t \<Longrightarrow> t \<le> ?l \<Longrightarrow> \<not> isl (elevFn t)" using num by (fastforce split: sum.splits)
  have npos: "\<not> f64_le m (Fin 0)" using assms(3) by (cases m) auto
  have dec: "usable elevFn m t \<or> (\<exists>e. elevFn t = Inr e \<and> f64_less e m)" if "?a \<le> t" "t \<le> ?l" for t
    using num [OF that] assms(2) by (cases "elevFn t"; cases m; cases "projr (elevFn t)") (auto simp: usable_def)
  have "?a \<le> aos \<and> aos \<le> ?k \<and> usable elevFn m aos \<and> tight elevFn m ?a aos"
  proof (cases "?a < ?k \<and> \<not> usable elevFn m ?a")
    case True
    then obtain e where e: "elevFn ?a = Inr e" "f64_less e m" using dec [of ?a] ord by auto
    obtain t where t: "refineMaskCrossing maskCrossingIterations elevFn ?a ?k m True = Inr t"
      using refine_total [of ?a ?k elevFn] tot ord by fastforce
    then have "aos = t" using assms(4) True e npos by (simp add: trimPassToMask_def Let_def)
    with refine_result [OF t] True ord peak show ?thesis by (auto simp: tight_def)
  next
    case False
    then have "aos = ?a" using assms(4) npos ord
      by (auto simp: trimPassToMask_def Let_def usable_def f64_le_not_less split: sum.splits)
    moreover have "usable elevFn m ?a" using False peak ord by (cases "?a = ?k") auto
    ultimately show ?thesis using ord by (simp add: tight_def)
  qed
  moreover have "?k \<le> los \<and> los \<le> ?l \<and> usable elevFn m los \<and> tight elevFn m ?l los"
  proof (cases "?k < ?l \<and> \<not> usable elevFn m ?l")
    case True
    then obtain e where e: "elevFn ?l = Inr e" "f64_less e m" using dec [of ?l] ord by auto
    obtain t where t: "refineMaskCrossing maskCrossingIterations elevFn ?k ?l m False = Inr t"
      using refine_total [of ?k ?l elevFn] tot ord by fastforce
    then have "los = t" using assms(4) True e npos by (simp add: trimPassToMask_def Let_def)
    with refine_result [OF t] True ord peak show ?thesis by (auto simp: tight_def)
  next
    case False
    then have "los = ?l" using assms(4) npos ord
      by (auto simp: trimPassToMask_def Let_def usable_def f64_le_not_less split: sum.splits)
    moreover have "usable elevFn m ?l" using False peak ord by (cases "?l = ?k") auto
    ultimately show ?thesis using ord by (simp add: tight_def)
  qed
  ultimately show ?thesis by blast
qed

lemma ceil_floor_second:
  "t \<le> ceilToSecond t" "ceilToSecond t < t + second" "ceilToSecond t mod second = 0"
  "floorToSecond t \<le> t" "t < floorToSecond t + second" "floorToSecond t mod second = 0"
proof -
  have "time_Truncate t second \<le> t" "t < time_Truncate t second + second" "time_Truncate t second mod second = 0"
    using time_Truncate_le time_Truncate_gt [of second t]
    by (simp_all add: time_Truncate_def minus_mod_eq_mult_div)
  then show "t \<le> ceilToSecond t" "ceilToSecond t < t + second" "ceilToSecond t mod second = 0"
    "floorToSecond t \<le> t" "t < floorToSecond t + second" "floorToSecond t mod second = 0"
    by (auto simp: ceilToSecond_def floorToSecond_def time_Add_def Let_def)
qed

section \<open>Properties of the sweep\<close>

text \<open>A schedule without a cancellation leaves the context live.\<close>

lemma pool_run_ctx:
  "pool_run predict evs s = Some s' \<Longrightarrow> \<not> list_ex is_cancel evs \<Longrightarrow> ctxErr s' = ctxErr s"
proof (induction evs arbitrary: s)
  case (Cons ev evs)
  then obtain t where t: "pool_step predict ev s = Some t" "pool_run predict evs t = Some s'"
    by (auto split: option.splits)
  have "ctxErr t = ctxErr s" using t(1) Cons.prems(2)
    by (auto simp: pool_step_def is_cancel_def split: pool_event.splits if_splits list.splits worker.splits sum.splits)
  with Cons.IH [OF t(2)] Cons.prems show ?case by simp
qed simp

text \<open>Two windows of a sweep tie when they differ but neither precedes the other.\<close>

definition no_ties :: "(workItem \<Rightarrow> PassResult list result) \<Rightarrow> workItem list \<Rightarrow> bool" where
  "no_ties predict work \<longleftrightarrow> (let ps = concat (map (\<lambda>i. case predict i of Inr ps \<Rightarrow> ps | Inl _ \<Rightarrow> []) work)
     in list_all (\<lambda>a. list_all (\<lambda>b. a = b \<or> lessPass a b \<or> lessPass b a) ps) ps)"

lemma no_ties_total:
  assumes "no_ties predict work"
  shows "\<forall>a\<in>#sum_mset (image_mset (item_passes predict) (mset work)).
     \<forall>b\<in>#sum_mset (image_mset (item_passes predict) (mset work)). a = b \<or> lessPass a b \<or> lessPass b a"
proof -
  have "sum_mset (image_mset (item_passes predict) (mset work))
      = mset (concat (map (\<lambda>i. case predict i of Inr ps \<Rightarrow> ps | Inl _ \<Rightarrow> []) work))"
    by (induction work) (auto simp: item_passes_def split: sum.split)
  then show ?thesis using assms by (simp add: no_ties_def list_all_iff)
qed

definition sweep_start :: "time \<Rightarrow> time \<Rightarrow> time" where
  "sweep_start now start = (if IsZero start then now else start)"

text \<open>C28: what a published pass window claims. Every window \<open>predictSingle\<close> returns is that of a pass of the library whose
  maximal elevation is not below the mask, with whole-second ends and the loss after the acquisition. For a positive
  mask, when the elevation can be evaluated all through that pass and crosses the mask at most once on each side of the
  peak, the window lies within the pass, the satellite is at or above the mask at every instant between its ends, and it
  is tight: each end is within 1.2 seconds of the end of the pass or of an instant below the mask. An end of the pass at
  which the elevation cannot be evaluated is kept (the fail-open path), and with a mask that is not positive both are:
  such a window is the pass of the library at the geometric horizon, rounded inwards to whole seconds.\<close>

theorem pass_window_usable:
  assumes "predictSingle L omm gs start stop msk = Inr rs" "r \<in> set rs"
  shows "\<exists>tle passes p. ToTLE L omm = Inr tle
     \<and> GeneratePasses L tle (Latitude gs) (Longitude gs) (Altitude gs) start stop DefaultStepSeconds = Inr passes
     \<and> p \<in> set passes \<and> \<not> f64_less (pd_MaxElevation p) msk
     \<and> pr_AOS r mod second = 0 \<and> pr_LOS r mod second = 0 \<and> pr_AOS r < pr_LOS r
     \<and> (let el = elevationAt L tle (observer_of gs) in
         (is_finite msk \<and> f64_less (Fin 0) msk \<and> crosses_once el msk p \<longrightarrow>
            (\<forall>t. pr_AOS r \<le> t \<and> t \<le> pr_LOS r \<longrightarrow> usable el msk t)
            \<and> (\<exists>aos los. pd_AOS p \<le> aos \<and> los \<le> pd_LOS p \<and> tight el msk (pd_AOS p) aos \<and> tight el msk (pd_LOS p) los
                 \<and> aos \<le> pr_AOS r \<and> pr_AOS r < aos + second \<and> pr_LOS r \<le> los \<and> los < pr_LOS r + second))
         \<and> (f64_le msk (Fin 0) \<or> isl (el (pd_AOS p)) \<longrightarrow> pr_AOS r = ceilToSecond (pd_AOS p))
         \<and> (f64_le msk (Fin 0) \<or> isl (el (pd_LOS p)) \<longrightarrow> pr_LOS r = floorToSecond (pd_LOS p)))"
proof -
  from assms obtain tle passes p where lib: "ToTLE L omm = Inr tle"
      "GeneratePasses L tle (Latitude gs) (Longitude gs) (Altitude gs) start stop DefaultStepSeconds = Inr passes"
    and p: "p \<in> set passes" "pass_result omm gs (elevationAt L tle (observer_of gs)) msk p = Some r"
    by (auto simp: predictSingle_def map_filter_def split: sum.splits)
  let ?el = "elevationAt L tle (observer_of gs)"
  obtain aos los where trim: "trimPassToMask ?el p msk = (aos, los)" by fastforce
  with p(2) have r: "\<not> f64_less (pd_MaxElevation p) msk" "pr_AOS r = ceilToSecond aos"
    "pr_LOS r = floorToSecond los" "pr_AOS r < pr_LOS r"
    by (auto simp: pass_result_def conservativePassWindow_def Let_def split: if_splits)
  note cf = ceil_floor_second [of aos] ceil_floor_second [of los]
  have good: "(\<forall>t. pr_AOS r \<le> t \<and> t \<le> pr_LOS r \<longrightarrow> usable ?el msk t)
     \<and> (\<exists>aos los. pd_AOS p \<le> aos \<and> los \<le> pd_LOS p \<and> tight ?el msk (pd_AOS p) aos \<and> tight ?el msk (pd_LOS p) los
          \<and> aos \<le> pr_AOS r \<and> pr_AOS r < aos + second \<and> pr_LOS r \<le> los \<and> los < pr_LOS r + second)"
    if c: "is_finite msk" "f64_less (Fin 0) msk" "crosses_once ?el msk p"
  proof -
    note w = trim_window [OF c(3,1,2) trim]
    have "usable ?el msk t" if "pr_AOS r \<le> t" "t \<le> pr_LOS r" for t
      using crosses_usable [OF c(3), of aos los t] w that cf r by auto
    then show ?thesis using w r cf by (intro conjI exI [of _ aos] exI [of _ los]) auto
  qed
  have "f64_le msk (Fin 0) \<or> isl (?el (pd_AOS p)) \<longrightarrow> aos = pd_AOS p" "f64_le msk (Fin 0) \<or> isl (?el (pd_LOS p)) \<longrightarrow> los = pd_LOS p"
    using trim by (auto simp: trimPassToMask_def Let_def split: if_splits sum.splits)
  then show ?thesis using lib p(1) r good cf
    by (intro exI [of _ tle] exI [of _ passes] exI [of _ p]) (simp add: Let_def)
qed

text \<open>C37: the worker pool terminates under every schedule. A run of the pool on any work list performs
  at most two events per item and one per worker (beside the cancellation of the context), and as long
  as a worker has not returned some worker can take a step: no interleaving of the workers, with or
  without a cancellation, deadlocks or runs forever.\<close>

theorem pool_terminates:
  assumes "pool_run predict evs (pool_init work) = Some s"
  shows "length (filter (\<lambda>ev. \<not> is_cancel ev) evs) \<le> 2 * length work + min 8 (length work)
     \<and> (pool_done s \<or> (\<exists>ev s'. \<not> is_cancel ev \<and> pool_step predict ev s = Some s' \<and> pool_measure s' < pool_measure s))"
proof
  show "length (filter (\<lambda>ev. \<not> is_cancel ev) evs) \<le> 2 * length work + min 8 (length work)"
    using pool_run_measure [OF assms] by (simp add: pool_init_facts)
  show "pool_done s \<or> (\<exists>ev s'. \<not> is_cancel ev \<and> pool_step predict ev s = Some s' \<and> pool_measure s' < pool_measure s)"
    using pool_progress [of s predict] pool_step_measure [of predict _ s] by fastforce
qed

text \<open>C29: the outcome of a sweep does not depend on how the workers interleave. For any two schedules
  of the same call that complete with a live context, either both return the same pass windows in the
  same order or both report an error, provided that no two distinct windows of the sweep tie in
  \<open>lessPass\<close>. The hypothesis on the sorter is the contract of \<open>sort.Slice\<close>.\<close>

theorem sweep_deterministic:
  assumes "sorts srt"
    and "PredictPasses L srt now evs omms stations el horizon norad start = Some r" "\<not> list_ex is_cancel evs"
    and "PredictPasses L srt now evs' omms stations el horizon norad start = Some r'" "\<not> list_ex is_cancel evs'"
    and "no_ties (predict_item L (sweep_start now start) (sweep_start now start + horizon) el)
           (build_work (FilterOMMs omms norad) stations)"
  shows "r = r' \<or> (isl r \<and> isl r')"
proof (cases "\<exists>x. \<forall>evs. PredictPasses L srt now evs omms stations el horizon norad start = Some x")
  case True
  then show ?thesis using assms(2,4) by auto
next
  case False
  let ?w = "build_work (FilterOMMs omms norad) stations"
    and ?p = "predict_item L (sweep_start now start) (sweep_start now start + horizon) el"
  have "PredictPasses L srt now es omms stations el horizon norad start =
      (case pool_run ?p es (pool_init ?w) of None \<Rightarrow> None
       | Some s \<Rightarrow> if pool_done s then Some (pool_result srt s) else None)" for es
    using False by (auto simp: PredictPasses_def Let_def sweep_start_def time_Add_def split: if_splits)
  with assms(2,4) obtain s s' where s:
    "pool_run ?p evs (pool_init ?w) = Some s" "pool_done s" "r = pool_result srt s"
    "pool_run ?p evs' (pool_init ?w) = Some s'" "pool_done s'" "r' = pool_result srt s'"
    by (auto split: option.splits if_splits)
  have c: "ctxErr s = None" "ctxErr s' = None"
    using pool_run_ctx [OF s(1) assms(3)] pool_run_ctx [OF s(4) assms(5)] by (simp_all add: pool_init_def)
  have m: "mset (allPasses s) = sum_mset (image_mset (item_passes ?p) (mset ?w))"
    "mset (allPasses s') = sum_mset (image_mset (item_passes ?p) (mset ?w))"
    and e: "firstErr s \<noteq> None \<longleftrightarrow> firstErr s' \<noteq> None"
    using pool_complete [OF s(1,2) c(1)] pool_complete [OF s(4,5) c(2)] by auto
  have "srt lessPass (allPasses s) = srt lessPass (allPasses s')"
    using assms(1) m no_ties_total [OF assms(6)] by (intro sorted_unique) (simp_all add: sorts_def)
  moreover have "allPasses s = [] \<longleftrightarrow> allPasses s' = []" using m by (metis mset_zero_iff)
  ultimately show ?thesis using e c s(3,6) by (auto simp: pool_result_def split: option.splits)
qed

text \<open>The cap never hides a satellite. When there are no more satellite names than the limit, the
  capped list still holds, for every pass of the sweep, a pass of the same name that starts no later:
  the current or next contact of every name survives; and the list has at most the limit of entries,
  all of them passes of the sweep.\<close>

theorem cap_keeps_next_pass:
  assumes "sorts srt" "sorted_wrt (\<lambda>a b. \<not> lessPass b a) passes"
    and "card (pr_Satellite ` set passes) \<le> limit"
  shows "(\<nexists>p. p \<in> set passes \<and>
       (\<nexists>q. q \<in> set (capPerSatellite srt passes limit) \<and> pr_Satellite q = pr_Satellite p \<and> pr_AOS q \<le> pr_AOS p))
     \<and> length (capPerSatellite srt passes limit) \<le> limit
     \<and> mset (capPerSatellite srt passes limit) \<subseteq># mset passes"
proof -
  have "\<exists>q. q \<in> set (capPerSatellite srt passes limit) \<and> pr_Satellite q = pr_Satellite p \<and> pr_AOS q \<le> pr_AOS p"
    if "p \<in> set passes" for p
  proof -
    obtain q where q: "find (\<lambda>r. pr_Satellite r = pr_Satellite p) passes = Some q" "pr_AOS q \<le> pr_AOS p"
      using sorted_find_first [OF assms(2) \<open>p \<in> set passes\<close>] by blast
    then have "pr_Satellite q = pr_Satellite p" by (auto simp: find_Some_iff)
    with q capPerSatellite_first [OF assms(1,3) q(1)] show ?thesis by blast
  qed
  then show ?thesis using capPerSatellite_basic [OF assms(1)] by blast
qed

section \<open>An instance of the sorter\<close>

fun insert_pass :: "(PassResult \<Rightarrow> PassResult \<Rightarrow> bool) \<Rightarrow> PassResult \<Rightarrow> PassResult list \<Rightarrow> PassResult list" where
  "insert_pass lt x [] = [x]"
| "insert_pass lt x (y # ys) = (if lt y x then y # insert_pass lt x ys else x # y # ys)"

definition insertion_sort :: sorter where
  "insertion_sort lt ps = foldr (insert_pass lt) ps []"

lemma mset_insert_pass [simp]: "mset (insert_pass lt x ys) = add_mset x (mset ys)"
  by (induction ys) auto

lemma not_lessPass_trans: "\<not> lessPass b a \<Longrightarrow> \<not> lessPass c b \<Longrightarrow> \<not> lessPass c a"
  by (auto simp: lessPass_def split: if_splits)

lemma sorted_insert_pass:
  "sorted_wrt (\<lambda>a b. \<not> lessPass b a) ys \<Longrightarrow> sorted_wrt (\<lambda>a b. \<not> lessPass b a) (insert_pass lessPass x ys)"
proof (induction ys)
  case (Cons y ys)
  have "set (insert_pass lessPass x ys) = insert x (set ys)" by (metis mset_insert_pass set_mset_add_mset_insert set_mset_mset)
  with Cons show ?case by (auto dest: lessPass_asym not_lessPass_trans)
qed simp

lemma insertion_sort_sorts: "sorts insertion_sort"
proof -
  have "mset (insertion_sort lessPass ps) = mset ps
      \<and> sorted_wrt (\<lambda>a b. \<not> lessPass b a) (insertion_sort lessPass ps)" for ps
    by (induction ps) (auto simp: insertion_sort_def sorted_insert_pass)
  then show ?thesis by (simp add: sorts_def)
qed

section \<open>Witnesses\<close>

text \<open>A pass of ten minutes whose elevation is 45 degrees between 100 s and 500 s and 5 degrees before
  and after.\<close>

definition demo_elev :: "time \<Rightarrow> f64" where
  "demo_elev t = (if 100 * second \<le> t \<and> t \<le> 500 * second then Fin 45 else Fin 5)"

definition demo_pass :: PassDetails where
  "demo_pass = \<lparr>pd_AOS = 0, pd_LOS = 600 * second, pd_MaxElevation = Fin 45, pd_MaxElevationTime = 300 * second\<rparr>"

definition demo_lib :: "unit sgp4_api" where
  "demo_lib = demo_sgp4 (Fin 7000) demo_elev [demo_pass]"

definition demo_station :: "string \<Rightarrow> GroundStation" where
  "demo_station n = \<lparr>gstn_Name = n, Latitude = Fin 25, Longitude = Fin 121, Altitude = Fin 0\<rparr>"

definition demo_result :: "int \<Rightarrow> string \<Rightarrow> PassResult" where
  "demo_result n gs = \<lparr>pr_Satellite = ''DEB'', pr_NoradID = n, pr_GroundStation = gs,
     pr_AOS = 101 * second, pr_LOS = 499 * second, pr_MaxElevation = Fin 45\<rparr>"

lemma demo_elevation: "elevationAt demo_lib tle obs t = Inr (demo_elev t)"
  by (simp add: elevationAt_def demo_lib_def demo_sgp4_def)

lemma demo_crosses: "crosses_once (elevationAt demo_lib tle obs) (Fin 10) demo_pass"
  by (auto simp: crosses_once_def usable_def demo_elevation demo_elev_def demo_pass_def max_int64_def)

lemma demo_trim: "trimPassToMask (\<lambda>t. Inr (demo_elev t)) demo_pass (Fin 10) = (100048828125, 499951171875)"
  by code_simp

lemma demo_predict:
  assumes "BoundedSatelliteLabel (ObjectName omm) = ''DEB''" "gs = demo_station g"
  shows "predictSingle demo_lib omm gs start stop (Fin 10) = Inr [demo_result (NoradCatID omm) g]"
proof -
  have "conservativePassWindow 100048828125 499951171875 = (101 * second, 499 * second, True)"
    by code_simp
  moreover have "elevationAt demo_lib () (observer_of gs) = (\<lambda>t. Inr (demo_elev t))"
    by (rule ext) (simp add: demo_elevation)
  moreover have "ToTLE demo_lib omm = Inr ()" "GeneratePasses demo_lib () a b c d e f = Inr [demo_pass]" for a b c d e f
    by (simp_all add: demo_lib_def demo_sgp4_def)
  moreover have "pd_MaxElevation demo_pass = Fin 45" by (simp add: demo_pass_def)
  ultimately show ?thesis using assms
    by (simp add: predictSingle_def pass_result_def demo_trim demo_result_def demo_station_def map_filter_def)
qed

lemma demo_label: "BoundedSatelliteLabel (ObjectName (demo_omm n ''DEB'')) = ''DEB''"
  by (simp add: demo_omm_def BoundedSatelliteLabel_def MaxSatelliteNameLen_def)

theorem pass_window_usable_witness:
  "predictSingle demo_lib (demo_omm 1 ''DEB'') (demo_station ''taipei'') 0 (3600 * second) (Fin 10) = Inr [demo_result 1 ''taipei'']
   \<and> usable (elevationAt demo_lib () (observer_of (demo_station ''taipei''))) (Fin 10) (101 * second)"
proof -
  have p: "predictSingle demo_lib (demo_omm 1 ''DEB'') (demo_station ''taipei'') 0 (3600 * second) (Fin 10)
      = Inr [demo_result 1 ''taipei'']"
    using demo_predict [OF demo_label refl, of 1] by (simp add: demo_omm_def)
  have lib: "ToTLE demo_lib (demo_omm 1 ''DEB'') = Inr tle" "GeneratePasses demo_lib tle a b c d e f = Inr [demo_pass]" for tle a b c d e f
    by (simp_all add: demo_lib_def demo_sgp4_def)
  have "demo_result 1 ''taipei'' \<in> set [demo_result 1 ''taipei'']" by simp
  from pass_window_usable [OF p this] show ?thesis using p
    by (auto simp: lib demo_crosses demo_result_def Let_def)
qed

text \<open>Two satellites that share a name, as the fragments of one break-up do, swept by two workers in
  either order.\<close>

definition demo_work :: "workItem list" where
  "demo_work = build_work [demo_omm 1 ''DEB'', demo_omm 2 ''DEB''] [demo_station ''taipei'']"

definition first_first :: "pool_event list" where
  "first_first = [Receive 0, Receive 1, Finish 0, Finish 1, Receive 0, Receive 1]"

definition second_first :: "pool_event list" where
  "second_first = [Receive 0, Receive 1, Finish 1, Finish 0, Receive 0, Receive 1]"

lemma demo_items:
  "demo_work = [\<lparr>wi_omm = demo_omm 1 ''DEB'', wi_station = demo_station ''taipei''\<rparr>,
     \<lparr>wi_omm = demo_omm 2 ''DEB'', wi_station = demo_station ''taipei''\<rparr>]"
  "predict_item demo_lib start stop (Fin 10) \<lparr>wi_omm = demo_omm n ''DEB'', wi_station = demo_station g\<rparr>
     = Inr [demo_result n g]"
  using demo_predict [OF demo_label refl, of n g start stop]
  by (simp_all add: demo_work_def build_work_def predict_item_def) (simp add: demo_omm_def)

definition demo_final :: "PassResult list \<Rightarrow> pool" where
  "demo_final ps = \<lparr>workCh = [], workers = [Returned, Returned], allPasses = ps, firstErr = None, ctxErr = None\<rparr>"

lemma demo_runs:
  assumes "work = [\<lparr>wi_omm = demo_omm m ''DEB'', wi_station = demo_station g\<rparr>,
     \<lparr>wi_omm = demo_omm n ''DEB'', wi_station = demo_station h\<rparr>]"
  shows "pool_run (predict_item demo_lib start stop (Fin 10)) first_first (pool_init work)
     = Some (demo_final [demo_result m g, demo_result n h])"
  "pool_run (predict_item demo_lib start stop (Fin 10)) second_first (pool_init work)
     = Some (demo_final [demo_result n h, demo_result m g])"
  using assms by (simp_all add: first_first_def second_first_def pool_init_def pool_step_def demo_items demo_final_def
      eval_nat_numeral)

theorem pool_terminates_witness:
  "pool_run (predict_item demo_lib 0 (3600 * second) (Fin 10)) first_first (pool_init demo_work)
     = Some (demo_final [demo_result 1 ''taipei'', demo_result 2 ''taipei''])
   \<and> length (filter (\<lambda>ev. \<not> is_cancel ev) first_first) \<le> 2 * length demo_work + min 8 (length demo_work)"
  using pool_terminates [OF demo_runs(1) [OF demo_items(1)]] demo_runs(1) [OF demo_items(1)] by blast

definition two_stations :: "workItem list" where
  "two_stations = build_work [demo_omm 1 ''DEB''] [demo_station ''taipei'', demo_station ''tainan'']"

lemma two_stations_eq: "two_stations = [\<lparr>wi_omm = demo_omm 1 ''DEB'', wi_station = demo_station ''taipei''\<rparr>,
     \<lparr>wi_omm = demo_omm 1 ''DEB'', wi_station = demo_station ''tainan''\<rparr>]"
  by (simp add: two_stations_def build_work_def)

lemma demo_final_simps [simp]: "pool_done (demo_final ps)" "ctxErr (demo_final ps) = None" "allPasses (demo_final ps) = ps"
  by (simp_all add: pool_done_def demo_final_def)

lemma demo_sweep:
  assumes "build_work omms stations = [\<lparr>wi_omm = demo_omm m ''DEB'', wi_station = demo_station g\<rparr>,
     \<lparr>wi_omm = demo_omm n ''DEB'', wi_station = demo_station h\<rparr>]" "omms \<noteq> []" "stations \<noteq> []"
  shows "PredictPasses demo_lib srt 0 first_first omms stations (Fin 10) (24 * hour) [] 1
     = Some (pool_result srt (demo_final [demo_result m g, demo_result n h]))"
  "PredictPasses demo_lib srt 0 second_first omms stations (Fin 10) (24 * hour) [] 1
     = Some (pool_result srt (demo_final [demo_result n h, demo_result m g]))"
  using demo_runs [OF assms(1)] assms
  by (simp_all add: PredictPasses_def FilterOMMs_def Let_def IsZero_def IsNaN_def IsInf_def)

theorem sweep_deterministic_witness:
  "PredictPasses demo_lib insertion_sort 0 first_first [demo_omm 1 ''DEB''] [demo_station ''taipei'', demo_station ''tainan'']
       (Fin 10) (24 * hour) [] 1
     = PredictPasses demo_lib insertion_sort 0 second_first [demo_omm 1 ''DEB''] [demo_station ''taipei'', demo_station ''tainan'']
       (Fin 10) (24 * hour) [] 1"
proof -
  let ?w = "build_work [demo_omm 1 ''DEB''] [demo_station ''taipei'', demo_station ''tainan'']"
  note w = two_stations_eq [unfolded two_stations_def]
  have "lessPass (demo_result 1 ''tainan'') (demo_result 1 ''taipei'')"
    by (simp add: lessPass_def demo_result_def)
  then have t: "no_ties (predict_item demo_lib start stop (Fin 10)) (build_work (FilterOMMs [demo_omm 1 ''DEB''] [])
      [demo_station ''taipei'', demo_station ''tainan''])" for start stop
    using w by (simp add: no_ties_def FilterOMMs_def demo_items)
  have "\<not> list_ex is_cancel first_first" "\<not> list_ex is_cancel second_first"
    by (simp_all add: first_first_def second_first_def is_cancel_def)
  moreover have "\<not> isl (pool_result insertion_sort (demo_final ps))" for ps
    by (simp add: pool_result_def demo_final_def)
  ultimately show ?thesis
    using sweep_deterministic [OF insertion_sort_sorts demo_sweep(1) [OF w] _ demo_sweep(2) [OF w] _ t]
      demo_sweep [OF w] by auto
qed

text \<open>The comparison ignores the catalog number: the windows of two satellites with one name that
  agree in station and times come out in the order in which the workers finished.\<close>

lemma tied_windows_follow_schedule:
  "PredictPasses demo_lib insertion_sort 0 first_first [demo_omm 1 ''DEB'', demo_omm 2 ''DEB''] [demo_station ''taipei'']
       (Fin 10) (24 * hour) [] 1
     = Some (Inr [demo_result 1 ''taipei'', demo_result 2 ''taipei''])
   \<and> PredictPasses demo_lib insertion_sort 0 second_first [demo_omm 1 ''DEB'', demo_omm 2 ''DEB''] [demo_station ''taipei'']
       (Fin 10) (24 * hour) [] 1
     = Some (Inr [demo_result 2 ''taipei'', demo_result 1 ''taipei''])"
proof -
  have "\<not> lessPass (demo_result m g) (demo_result n g)" for m n g by (simp add: lessPass_def demo_result_def)
  then have "pool_result insertion_sort (demo_final [demo_result m g, demo_result n g])
      = Inr [demo_result m g, demo_result n g]" for m n g
    by (simp add: pool_result_def demo_final_def insertion_sort_def capPerSatellite_def MaxPassWindows_def)
  then show ?thesis
    using demo_sweep [OF demo_items(1) [unfolded demo_work_def]] by simp
qed

definition pass_at :: "string \<Rightarrow> int \<Rightarrow> time \<Rightarrow> PassResult" where
  "pass_at n i t = \<lparr>pr_Satellite = n, pr_NoradID = i, pr_GroundStation = ''taipei'', pr_AOS = t * second,
     pr_LOS = (t + 300) * second, pr_MaxElevation = Fin 45\<rparr>"

lemma cap_demo: "capPerSatellite insertion_sort [pass_at ''A'' 1 1, pass_at ''A'' 1 2, pass_at ''B'' 2 3] 2
     = [pass_at ''A'' 1 1, pass_at ''B'' 2 3]"
  by code_simp

theorem cap_keeps_next_pass_witness:
  "capPerSatellite insertion_sort [pass_at ''A'' 1 1, pass_at ''A'' 1 2, pass_at ''B'' 2 3] 2
     = [pass_at ''A'' 1 1, pass_at ''B'' 2 3]
   \<and> length (capPerSatellite insertion_sort [pass_at ''A'' 1 1, pass_at ''A'' 1 2, pass_at ''B'' 2 3] 2) \<le> 2"
proof -
  have "sorted_wrt (\<lambda>a b. \<not> lessPass b a) [pass_at ''A'' 1 1, pass_at ''A'' 1 2, pass_at ''B'' 2 3]"
    by (simp add: lessPass_def pass_at_def)
  moreover have "card (pr_Satellite ` set [pass_at ''A'' 1 1, pass_at ''A'' 1 2, pass_at ''B'' 2 3]) \<le> 2"
    by (simp add: pass_at_def)
  ultimately show ?thesis
    using cap_keeps_next_pass [OF insertion_sort_sorts] cap_demo by blast
qed

text \<open>The quota counts names, not catalog numbers: of two satellites with one name the second can lose
  its only window although there are as many windows to give as satellites.\<close>

lemma cap_counts_names:
  "capPerSatellite insertion_sort [pass_at ''DEB'' 1 1, pass_at ''DEB'' 1 2, pass_at ''DEB'' 2 3] 2
     = [pass_at ''DEB'' 1 1, pass_at ''DEB'' 1 2]"
  by code_simp

end
