(* ===== verification/Go_Time.thy ===== *)
theory Go_Time
  imports Maintenance_Window Go_Math "HOL-Library.Monad_Syntax"
begin

text \<open>
  What the program uses of the calendar of package \<open>time\<close>: \<open>time.Parse\<close> for the layouts of an ISO 8601
  timestamp (with a fixed fraction, without one, and RFC 3339), \<open>Time.Format\<close> with \<open>RFC3339Nano\<close> in UTC,
  and \<open>Time.UnixMilli\<close>. Formatting and parsing are inverse for the years 1 to 9999
  (\<open>parse_format_RFC3339Nano\<close>).
\<close>

section \<open>The calendar\<close>

definition leap :: "int \<Rightarrow> bool" where
  "leap y \<longleftrightarrow> y mod 4 = 0 \<and> (y mod 100 \<noteq> 0 \<or> y mod 400 = 0)"

definition daysIn :: "int \<Rightarrow> int \<Rightarrow> int" where
  "daysIn m y = (if m = 2 then (if leap y then 29 else 28)
     else if m = 4 \<or> m = 6 \<or> m = 9 \<or> m = 11 then 30 else 31)"

text \<open>Days from 1 January of year 1 to 1 January of year \<open>y\<close>.\<close>

definition daysBeforeYear :: "int \<Rightarrow> int" where
  "daysBeforeYear y = 365 * (y - 1) + (y - 1) div 4 - (y - 1) div 100 + (y - 1) div 400"

fun daysBeforeMonth :: "int \<Rightarrow> nat \<Rightarrow> int" where
  "daysBeforeMonth y 0 = 0"
| "daysBeforeMonth y (Suc k) = daysBeforeMonth y k + daysIn (int k + 1) y"

text \<open>\<open>time.Date\<close> in UTC, for values in range.\<close>

definition time_Date :: "int \<Rightarrow> int \<Rightarrow> int \<Rightarrow> int \<Rightarrow> int \<Rightarrow> int \<Rightarrow> int \<Rightarrow> time" where
  "time_Date y m d hh mi sec nsec =
     (daysBeforeYear y + daysBeforeMonth y (nat (m - 1)) + (d - 1)) * (24 * hour)
     + hh * hour + mi * minute + sec * second + nsec"

section \<open>Parsing\<close>

definition comma_or_period :: "char \<Rightarrow> bool" where
  "comma_or_period c \<longleftrightarrow> c = CHR '','' \<or> c = CHR ''.''"

fun digits_val :: "int \<Rightarrow> string \<Rightarrow> int option" where
  "digits_val n [] = Some n"
| "digits_val n (c # s) = (if is_digit c then digits_val (n * 10 + digit c) s else None)"

text \<open>\<open>atoi\<close> of package \<open>time\<close>: an optional sign, then digits (none at all is 0).\<close>

definition atoi :: "string \<Rightarrow> int option" where
  "atoi s = (let (neg, r) = scan_sign s in map_option (\<lambda>v. if neg then - v else v) (digits_val 0 r))"

text \<open>\<open>parseNanoseconds\<close> on the first \<open>n\<close> bytes of the value, the separator included.\<close>

definition parseNanoseconds :: "string \<Rightarrow> nat \<Rightarrow> int option" where
  "parseNanoseconds v n =
     (if v = [] \<or> \<not> comma_or_period (hd v) then None
      else (let k = min n 10 in
        case atoi (take (k - 1) (tl v)) of
          None \<Rightarrow> None
        | Some ns \<Rightarrow> if ns < 0 then None else Some (ns * 10 ^ (10 - k))))"

fun skip_char :: "char \<Rightarrow> string \<Rightarrow> string option" where
  "skip_char c [] = None"
| "skip_char c (x # s) = (if x = c then Some s else None)"

text \<open>The part \<open>2006-01-02T15:04:05\<close> of a layout: the fields and the unread rest.\<close>

record datetime =
  dt_year :: int
  dt_month :: int
  dt_day :: int
  dt_hour :: int
  dt_min :: int
  dt_sec :: int

definition parse_datetime :: "string \<Rightarrow> (datetime \<times> string) option" where
  "parse_datetime s =
     (if length s < 4 \<or> \<not> is_digit (hd s) then None
      else do {
        y \<leftarrow> atoi (take 4 s);
        s1 \<leftarrow> skip_char (CHR ''-'') (drop 4 s);
        (mo, s2) \<leftarrow> getnum True s1;
        s3 \<leftarrow> (if mo \<le> 0 \<or> 12 < mo then None else skip_char (CHR ''-'') s2);
        (d, s4) \<leftarrow> getnum True s3;
        s5 \<leftarrow> skip_char (CHR ''T'') s4;
        (hh, s6) \<leftarrow> getnum False s5;
        s7 \<leftarrow> (if hh < 0 \<or> 24 \<le> hh then None else skip_char (CHR '':'') s6);
        (mi, s8) \<leftarrow> getnum True s7;
        s9 \<leftarrow> (if mi < 0 \<or> 60 \<le> mi then None else skip_char (CHR '':'') s8);
        (sec, s10) \<leftarrow> getnum True s9;
        (if sec < 0 \<or> 60 \<le> sec then None
         else Some (\<lparr>dt_year = y, dt_month = mo, dt_day = d, dt_hour = hh, dt_min = mi, dt_sec = sec\<rparr>, s10))
      })"

text \<open>The fraction: exactly \<open>n\<close> digits for a layout with \<open>.000000\<close>, otherwise any number of them, also
  where the layout has no fraction.\<close>

definition parse_fraction :: "nat option \<Rightarrow> string \<Rightarrow> (int \<times> string) option" where
  "parse_fraction fixed s =
     (case fixed of
        Some n \<Rightarrow> if length s < n + 1 then None
                  else map_option (\<lambda>ns. (ns, drop (n + 1) s)) (parseNanoseconds s (n + 1))
      | None \<Rightarrow>
          if length s < 2 \<or> \<not> comma_or_period (hd s) \<or> \<not> is_digit (s ! 1) then Some (0, s)
          else (let n = 1 + length (takeWhile is_digit (tl s))
                in map_option (\<lambda>ns. (ns, drop n s)) (parseNanoseconds s n)))"

text \<open>The zone \<open>Z07:00\<close>: the offset from UTC in seconds.\<close>

definition parse_zone :: "bool \<Rightarrow> string \<Rightarrow> (int \<times> string) option" where
  "parse_zone zone s =
     (if \<not> zone then Some (0, s)
      else if s \<noteq> [] \<and> hd s = CHR ''Z'' then Some (0, tl s)
      else if length s < 6 \<or> s ! 3 \<noteq> CHR '':'' then None
      else (case (getnum True (take 2 (drop 1 s)), getnum True (take 2 (drop 4 s))) of
              (Some (hr, _), Some (mm, _)) \<Rightarrow>
                if 24 < hr \<or> 60 < mm then None
                else if hd s = CHR ''+'' then Some ((hr * 60 + mm) * 60, drop 6 s)
                else if hd s = CHR ''-'' then Some (- ((hr * 60 + mm) * 60), drop 6 s)
                else None
            | _ \<Rightarrow> None))"

definition parse_timestamp :: "nat option \<Rightarrow> bool \<Rightarrow> string \<Rightarrow> time option" where
  "parse_timestamp fixed zone s =
     (case parse_datetime s of
        None \<Rightarrow> None
      | Some (dt, s1) \<Rightarrow>
          (case parse_fraction fixed s1 of
             None \<Rightarrow> None
           | Some (nsec, s2) \<Rightarrow>
               (case parse_zone zone s2 of
                  None \<Rightarrow> None
                | Some (off, s3) \<Rightarrow>
                    if s3 \<noteq> [] \<or> dt_day dt < 1 \<or> daysIn (dt_month dt) (dt_year dt) < dt_day dt then None
                    else Some (time_Date (dt_year dt) (dt_month dt) (dt_day dt) (dt_hour dt) (dt_min dt)
                           (dt_sec dt) nsec - off * second))))"

text \<open>\<open>time.Parse\<close> with \<open>time.RFC3339Nano\<close> (and \<open>time.RFC3339\<close>, which accepts a fraction as well).\<close>

definition parse_RFC3339Nano :: "string \<Rightarrow> time option" where
  "parse_RFC3339Nano s = parse_timestamp None True s"

text \<open>\<open>Time.UnixMilli\<close>.\<close>

definition time_UnixMilli :: "time \<Rightarrow> int" where
  "time_UnixMilli t = (t - unix_epoch) div 1000000"

section \<open>Formatting\<close>

text \<open>A number in exactly \<open>w\<close> digits.\<close>

fun fixed_digits :: "nat \<Rightarrow> nat \<Rightarrow> string" where
  "fixed_digits 0 n = []"
| "fixed_digits (Suc w) n = fixed_digits w (n div 10) @ [dec_digit (n mod 10)]"

lemma leap_sum:
  "a' = a + (if p then 1 else 0) \<Longrightarrow> b' = b + (if q then 1 else 0) \<Longrightarrow> c' = c + (if r then 1 else 0)
     \<Longrightarrow> (q \<Longrightarrow> p) \<Longrightarrow> (r \<Longrightarrow> q) \<Longrightarrow>
   365 * y + a' - b' + c' = 365 * (y - 1) + a - b + c + (if p \<and> (\<not> q \<or> r) then 366 else 365 :: int)"
  by (cases p; cases q; cases r) simp_all

lemma daysBeforeYear_step: "daysBeforeYear (y + 1) = daysBeforeYear y + (if leap y then 366 else 365)"
proof -
  have step: "y div k = (y - 1) div k + (if y mod k = 0 then 1 else 0)" if "0 < k" for k :: int
  proof (cases "y mod k = 0")
    case True
    then obtain q where q: "y = k * q" by auto
    have "(k * q - 1) div k = q - 1" using that
      by (intro int_div_pos_eq [of _ _ _ "k - 1"]) (auto simp: algebra_simps)
    with q that show ?thesis by simp
  next
    case False
    have "(y - 1) div k = y div k"
      using that False pos_mod_bound [OF that, of y] pos_mod_sign [OF that, of y]
      by (intro int_div_pos_eq [of _ _ _ "y mod k - 1"]) (auto simp: algebra_simps)
    with False show ?thesis by simp
  qed
  obtain A B C where abc: "(y - 1) div 4 = A" "(y - 1) div 100 = B" "(y - 1) div 400 = C" by simp
  have abc': "y div 4 = A + (if y mod 4 = 0 then 1 else 0)" "y div 100 = B + (if y mod 100 = 0 then 1 else 0)"
    "y div 400 = C + (if y mod 400 = 0 then 1 else 0)"
    unfolding abc [symmetric] by (rule step, simp)+
  moreover have "y mod 4 = 0" if "y mod 100 = 0"
    using that dvd_trans [of 4 100 y] by (simp add: dvd_eq_mod_eq_0)
  moreover have "y mod 100 = 0" if "y mod 400 = 0"
    using that dvd_trans [of 100 400 y] by (simp add: dvd_eq_mod_eq_0)
  ultimately show ?thesis unfolding daysBeforeYear_def leap_def add_diff_cancel_right' abc
    by (intro leap_sum [OF abc']) auto
qed

function find_year :: "int \<Rightarrow> int \<Rightarrow> int" where
  "find_year y day = (if daysBeforeYear (y + 1) \<le> day then find_year (y + 1) day else y)"
  by pat_completeness auto
termination
  by (relation "measure (\<lambda>(y, day). nat (day - daysBeforeYear y))") (auto simp: daysBeforeYear_step split: if_splits)

declare find_year.simps [simp del]

definition find_month :: "int \<Rightarrow> int \<Rightarrow> nat" where
  "find_month y yday = (case find (\<lambda>k. yday < daysBeforeMonth y (Suc k)) [0..<11] of Some k \<Rightarrow> k | None \<Rightarrow> 11)"

text \<open>\<open>t.UTC().Format(time.RFC3339Nano)\<close>: the fraction without its trailing zeros.\<close>

definition format_RFC3339Nano :: "time \<Rightarrow> string" where
  "format_RFC3339Nano t =
     (let day = t div (24 * hour); y = find_year (day div 366 + 1) day;
          yday = day - daysBeforeYear y; k = find_month y yday; r = t mod (24 * hour);
          fr = TrimRight (fixed_digits 9 (nat (r mod second))) ''0''
      in fixed_digits 4 (nat y) @ ''-'' @ fixed_digits 2 (k + 1) @ ''-''
         @ fixed_digits 2 (nat (yday - daysBeforeMonth y k + 1)) @ ''T''
         @ fixed_digits 2 (nat (r div hour)) @ '':'' @ fixed_digits 2 (nat (r div minute mod 60)) @ '':''
         @ fixed_digits 2 (nat (r div second mod 60)) @ (if fr = [] then [] else CHR ''.'' # fr) @ ''Z'')"

lemma find_year_bounds:
  "daysBeforeYear y \<le> day \<Longrightarrow> daysBeforeYear (find_year y day) \<le> day \<and> day < daysBeforeYear (find_year y day + 1)
     \<and> y \<le> find_year y day"
proof (induction y day rule: find_year.induct)
  case (1 y day)
  then show ?case by (subst (1 2 3) find_year.simps) auto
qed

lemma find_month_bounds:
  assumes "0 \<le> yday" "yday < (if leap y then 366 else 365)"
  shows "find_month y yday \<le> 11 \<and> daysBeforeMonth y (find_month y yday) \<le> yday
     \<and> yday < daysBeforeMonth y (Suc (find_month y yday))"
proof (cases "find (\<lambda>k. yday < daysBeforeMonth y (Suc k)) [0..<11]")
  case None
  then have "\<forall>x<11. \<not> yday < daysBeforeMonth y (Suc x)" by (auto simp: find_None_iff simp del: daysBeforeMonth.simps)
  from spec [OF this, of 10] have "\<not> yday < daysBeforeMonth y (Suc 10)" by (simp del: daysBeforeMonth.simps)
  then have "daysBeforeMonth y 11 \<le> yday" by (simp add: eval_nat_numeral)
  with None assms show ?thesis by (auto simp: find_month_def eval_nat_numeral daysIn_def split: if_splits)
next
  case (Some k)
  then have k: "k < 11" "yday < daysBeforeMonth y (Suc k)" and
    "\<forall>j<k. daysBeforeMonth y (Suc j) \<le> yday"
    by (auto simp: find_Some_iff)
  then have "daysBeforeMonth y k \<le> yday" using assms(1) by (cases k) auto
  with Some k show ?thesis by (simp add: find_month_def)
qed

lemma daysBeforeYear_first: "0 \<le> day \<Longrightarrow> daysBeforeYear (day div 366 + 1) \<le> day"
proof -
  assume "0 \<le> day"
  define q where "q = day div 366"
  have "0 \<le> q" "366 * q \<le> day" using \<open>0 \<le> day\<close> by (auto simp: q_def)
  moreover have "q div 4 \<le> q" "q div 400 \<le> q div 100" using \<open>0 \<le> q\<close> by (auto intro: zdiv_mono2)
  ultimately show ?thesis by (simp add: daysBeforeYear_def flip: q_def)
qed

lemma digit_dec: "d < 10 \<Longrightarrow> is_digit (dec_digit d) \<and> digit (dec_digit d) = int d"
  by (simp add: is_digit_def digit_def of_char_dec Let_def)

lemma length_fixed [simp]: "length (fixed_digits w n) = w"
  by (induction w arbitrary: n) auto

lemma fixed_is_digit: "c \<in> set (fixed_digits w n) \<Longrightarrow> is_digit c"
  by (induction w arbitrary: n) (auto simp: digit_dec)

lemma digits_val_append: "digits_val a (s @ t) = (case digits_val a s of None \<Rightarrow> None | Some v \<Rightarrow> digits_val v t)"
  by (induction s arbitrary: a) auto

lemma digits_val_fixed: "n < 10 ^ w \<Longrightarrow> digits_val a (fixed_digits w n) = Some (a * 10 ^ w + int n)"
proof (induction w arbitrary: n)
  case (Suc w)
  have "n div 10 < 10 ^ w" using Suc.prems by (simp add: less_mult_imp_div_less mult.commute)
  moreover have "n = n div 10 * 10 + n mod 10" by simp
  then have "int n = int (n div 10) * 10 + int (n mod 10)" by linarith
  ultimately show ?case using Suc.IH [of "n div 10"]
    by (simp add: digits_val_append digit_dec algebra_simps del: of_nat_mod zdiv_int)
qed simp

lemma digits_val_zeros: "digits_val a (replicate j (CHR ''0'')) = Some (a * 10 ^ j)"
  by (induction j arbitrary: a) (simp_all add: is_digit_def digit_def)

lemma atoi_digits: "s \<noteq> [] \<Longrightarrow> is_digit (hd s) \<Longrightarrow> atoi s = digits_val 0 s"
  by (cases s) (auto simp: atoi_def is_digit_def option.map_ident)

lemma getnum_fixed: "n < 100 \<Longrightarrow> getnum b (fixed_digits 2 n @ s) = Some (int n, s)"
proof -
  assume "n < 100"
  then have "n div 10 < 10" by simp
  then have "is_digit (dec_digit (n div 10))" "digit (dec_digit (n div 10)) = int (n div 10)"
    "is_digit (dec_digit (n mod 10))" "digit (dec_digit (n mod 10)) = int (n mod 10)"
    using digit_dec [of "n div 10"] digit_dec [of "n mod 10"] by simp_all
  moreover have "int (n div 10) * 10 + int (n mod 10) = int n"
    by (metis div_mult_mod_eq of_nat_add of_nat_mult of_nat_numeral)
  moreover have "n div 10 mod 10 = n div 10" using \<open>n div 10 < 10\<close> by simp
  ultimately show ?thesis by (simp add: numeral_2_eq_2 del: of_nat_mod zdiv_int)
qed

lemma TrimRight_split: "\<exists>j. s = TrimRight s ''0'' @ replicate j (CHR ''0'')"
proof (induction s rule: rev_induct)
  case (snoc c s)
  then obtain j where j: "s = TrimRight s ''0'' @ replicate j (CHR ''0'')" by blast
  show ?case
  proof (cases "c = CHR ''0''")
    case True
    then have "TrimRight (s @ [c]) ''0'' = TrimRight s ''0''" by (simp add: TrimRight_def)
    with True j have "s @ [c] = TrimRight (s @ [c]) ''0'' @ replicate (Suc j) (CHR ''0'')"
      by (metis append_assoc replicate_append_same replicate_Suc)
    then show ?thesis ..
  next
    case False
    then show ?thesis by (intro exI [of _ 0]) (simp add: TrimRight_def)
  qed
qed (simp add: TrimRight_def)

lemma parse_fraction_format:
  assumes "n < 10 ^ 9" "fr = TrimRight (fixed_digits 9 n) ''0''"
  shows "parse_fraction None ((if fr = [] then [] else CHR ''.'' # fr) @ ''Z'') = Some (int n, ''Z'')"
proof -
  obtain j where j: "fixed_digits 9 n = fr @ replicate j (CHR ''0'')"
    using TrimRight_split [of "fixed_digits 9 n"] assms(2) by blast
  then have len: "length fr + j = 9" by (metis length_append length_fixed length_replicate)
  have dig: "\<forall>c\<in>set fr. is_digit c" using j fixed_is_digit [of _ 9 n] by (metis UnCI set_append)
  have "digits_val 0 (fr @ replicate j (CHR ''0'')) = Some (int n)"
    using digits_val_fixed [OF assms(1), of 0] j by simp
  then obtain v where v: "digits_val 0 fr = Some v" "v * 10 ^ j = int n"
    by (auto simp: digits_val_append digits_val_zeros split: option.splits)
  show ?thesis
  proof (cases "fr = []")
    case True
    then have "n = 0" using v by simp
    with True show ?thesis by (simp add: parse_fraction_def)
  next
    case False
    have "takeWhile is_digit (fr @ ''Z'') = fr" using dig by (simp add: takeWhile_append2 is_digit_def)
    moreover have "0 \<le> v" using v(2) by (metis of_nat_0_le_iff zero_le_mult_iff zero_less_power zero_less_numeral not_le)
    moreover have "atoi fr = Some v" using v(1) False dig by (simp add: atoi_digits)
    moreover have "10 - Suc (length fr) = j" using len by simp
    ultimately show ?thesis using False v(2) dig len
      by (auto simp: parse_fraction_def parseNanoseconds_def comma_or_period_def nth_append hd_conv_nth Let_def)
  qed
qed

definition year_10000 :: time where "year_10000 = daysBeforeYear 10000 * (24 * hour)"

lemma time_of_day:
  assumes "0 \<le> r" "r < 24 * hour"
  shows "r = r div hour * hour + r div minute mod 60 * minute + r div second mod 60 * second + r mod second"
    "r div hour < 24"
proof -
  have d: "r div minute = r div second div 60" "r div hour = r div second div 60 div 60"
    by (simp_all flip: zdiv_zmult2_eq)
  have sum: "r = s * second + n \<Longrightarrow> s = m * 60 + b \<Longrightarrow> m = h * 60 + c \<Longrightarrow>
      r = h * hour + c * minute + b * second + n" for s n m b h c :: int by simp
  show "r = r div hour * hour + r div minute mod 60 * minute + r div second mod 60 * second + r mod second"
    unfolding d by (rule sum) simp_all
  show "r div hour < 24" using assms by simp
qed

lemma skip_char_append: "skip_char c (c # s) = Some s"
  by simp

lemma parse_datetime_format:
  assumes "y < 10000" "1 \<le> mo" "mo \<le> 12" "d < 100" "hh < 24" "mi < 60" "sec < 60"
  shows "parse_datetime (fixed_digits 4 y @ ''-'' @ fixed_digits 2 mo @ ''-'' @ fixed_digits 2 d @ ''T''
      @ fixed_digits 2 hh @ '':'' @ fixed_digits 2 mi @ '':'' @ fixed_digits 2 sec @ s)
     = Some (\<lparr>dt_year = int y, dt_month = int mo, dt_day = int d, dt_hour = int hh, dt_min = int mi,
              dt_sec = int sec\<rparr>, s)"
proof -
  obtain c t where y: "fixed_digits 4 y = c # t" "length t = 3" by (cases "fixed_digits 4 y") (auto dest: arg_cong [of _ _ length])
  have c: "is_digit c" using fixed_is_digit [of c 4 y] y by simp
  have a: "atoi (c # t) = Some (int y)"
    using digits_val_fixed [of y 4 0] assms(1) y c by (simp add: atoi_digits)
  show ?thesis using assms
    by (simp add: parse_datetime_def y c a getnum_fixed del: fixed_digits.simps)
qed

lemma parse_parts:
  "parse_datetime s = Some (dt, s1) \<Longrightarrow> parse_fraction None s1 = Some (ns, ''Z'') \<Longrightarrow> 1 \<le> dt_day dt \<Longrightarrow>
     dt_day dt \<le> daysIn (dt_month dt) (dt_year dt) \<Longrightarrow>
     time_Date (dt_year dt) (dt_month dt) (dt_day dt) (dt_hour dt) (dt_min dt) (dt_sec dt) ns = t \<Longrightarrow>
     parse_RFC3339Nano s = Some t"
  by (simp add: parse_RFC3339Nano_def parse_timestamp_def parse_zone_def)

text \<open>A time of the years 1 to 9999 is what is read back from its format.\<close>

lemma parse_format_RFC3339Nano:
  assumes "0 \<le> t" "t < year_10000"
  shows "parse_RFC3339Nano (format_RFC3339Nano t) = Some t"
proof -
  define day where "day = t div (24 * hour)"
  define y where "y = find_year (day div 366 + 1) day"
  define yday where "yday = day - daysBeforeYear y"
  define k where "k = find_month y yday"
  define r where "r = t mod (24 * hour)"
  have day: "0 \<le> day" "day < daysBeforeYear 10000"
    using assms by (simp_all add: day_def year_10000_def)
  have r: "0 \<le> r" "r < 24 * hour" and t: "t = day * (24 * hour) + r" by (simp_all add: r_def day_def)
  have yb: "daysBeforeYear y \<le> day" "day < daysBeforeYear (y + 1)" "1 \<le> y"
    using find_year_bounds [OF daysBeforeYear_first [OF day(1)]] day(1)
    by (auto simp: y_def intro: order.trans [rotated])
  have y: "y < 10000"
  proof (rule ccontr)
    assume "\<not> y < 10000"
    then have "daysBeforeYear 10000 \<le> daysBeforeYear y"
      by (auto simp: daysBeforeYear_def intro!: add_mono diff_mono zdiv_mono1)
    with yb day show False by simp
  qed
  have m: "k \<le> 11" "daysBeforeMonth y k \<le> yday" "yday < daysBeforeMonth y k + daysIn (int k + 1) y"
    using find_month_bounds [of yday y] yb unfolding daysBeforeYear_step by (auto simp: yday_def k_def)
  define d where "d = yday - daysBeforeMonth y k + 1"
  have d: "1 \<le> d" "d \<le> daysIn (int k + 1) y" "daysIn (int k + 1) y \<le> 31"
    using m by (auto simp: d_def daysIn_def)
  define fr where "fr = TrimRight (fixed_digits 9 (nat (r mod second))) ''0''"
  have fmt: "format_RFC3339Nano t = fixed_digits 4 (nat y) @ ''-'' @ fixed_digits 2 (k + 1) @ ''-'' @ fixed_digits 2 (nat d)
      @ ''T'' @ fixed_digits 2 (nat (r div hour)) @ '':'' @ fixed_digits 2 (nat (r div minute mod 60)) @ '':''
      @ fixed_digits 2 (nat (r div second mod 60)) @ ((if fr = [] then [] else CHR ''.'' # fr) @ ''Z'')"
    unfolding format_RFC3339Nano_def Let_def fr_def d_def k_def yday_def y_def day_def r_def ..
  have dt: "parse_datetime (format_RFC3339Nano t) = Some (\<lparr>dt_year = y, dt_month = int k + 1, dt_day = d,
      dt_hour = r div hour, dt_min = r div minute mod 60, dt_sec = r div second mod 60\<rparr>,
      (if fr = [] then [] else CHR ''.'' # fr) @ ''Z'')"
    unfolding fmt using time_of_day(2) [OF r] r y yb m d
    by (subst parse_datetime_format) (auto simp: nat_less_iff)
  have fr: "parse_fraction None ((if fr = [] then [] else CHR ''.'' # fr) @ ''Z'') = Some (r mod second, ''Z'')"
    using parse_fraction_format [of "nat (r mod second)" fr] by (simp add: fr_def nat_less_iff)
  have "time_Date y (int k + 1) d (r div hour) (r div minute mod 60) (r div second mod 60) (r mod second) = t"
  proof -
    have sum: "r = a * hour + b * minute + c * second + n \<Longrightarrow>
        (daysBeforeYear y + daysBeforeMonth y k + (d - 1)) * (24 * hour) + a * hour + b * minute + c * second + n = t"
      for a b c n unfolding t d_def yday_def by simp
    have k: "nat (int k + 1 - 1) = k" by simp
    show ?thesis unfolding time_Date_def k by (rule sum [OF time_of_day(1) [OF r]])
  qed
  with d show ?thesis by (intro parse_parts [OF dt fr]) (simp_all only: datetime.simps)
qed

end
