(* ===== verification/Gp_Fetcher.thy ===== *)
theory Gp_Fetcher
  imports Orbit_Elements Go_Time Netutil "HOL-Library.Sublist"
begin

text \<open>
  Fetching orbital data: \<open>pkg/ephemeris/gp_fetcher.go\<close> (the CelesTrak fetcher with its conditional-GET
  caches, the rate-limit error, the sanitized body snippet) and \<open>pkg/ephemeris/spacetrack_fetcher.go\<close>
  (the Space-Track session).

  What is outside the program is the record \<open>fetch_env\<close>: the answers to the HTTP requests of one call,
  the clock, and the tables and decoders of the standard library that are not modelled
  (\<open>unicode.IsPrint\<close>, \<open>http.ParseTime\<close>, \<open>json.Unmarshal\<close> of an object, \<open>url.Parse\<close>). The Space-Track
  fetcher serializes login and fetch under a mutex, so one call is one step on its state; the requests
  it makes are recorded in order, and the redirects that the HTTP client follows within one of them are
  those of \<open>spacetrack_hops\<close>.
\<close>

section \<open>HTTP\<close>

record gp_request =
  gr_Method :: string
  gr_URL :: string
  gr_Header :: "string \<rightharpoonup> string"
  gr_Form :: "(string \<times> string) list"

text \<open>A response: its status, the header lookup, the bytes of the body and the error, if any, that
  ends them.\<close>

record http_response =
  StatusCode :: int
  resp_Get :: "string \<Rightarrow> string"
  resp_Bytes :: string
  resp_Err :: "gerror option"

text \<open>What the fetchers read of a parsed URL.\<close>

record OriginURL =
  ou_Scheme :: string
  ou_Host :: string

text \<open>The answers to the requests of one call are numbered: a server may answer the same request
  differently the second time.\<close>

record fetch_env =
  fe_NewRequest :: "string \<Rightarrow> gerror option"
  fe_Do :: "nat \<Rightarrow> gp_request \<Rightarrow> http_response result"
  fe_now :: time
  fe_until :: time
  fe_IsPrint :: "rune \<Rightarrow> bool"
  fe_ParseTime :: "string \<Rightarrow> time option"
  fe_Unmarshal :: "string \<Rightarrow> (string \<times> string option) list option"
  fe_ParseURL :: "string \<Rightarrow> OriginURL result"

text \<open>\<open>io.ReadAll(io.LimitReader(body, n))\<close>.\<close>

definition ReadAll_limit :: "nat \<Rightarrow> http_response \<Rightarrow> string \<times> gerror option" where
  "ReadAll_limit n r =
     (if n \<le> length (resp_Bytes r) then (take n (resp_Bytes r), None) else (resp_Bytes r, resp_Err r))"

definition userAgent :: string where
  "userAgent = ''ntn-operators/0.6 (+https://github.com/thc1006/ntn-operators)''"

definition maxRetryAfter :: duration where "maxRetryAfter = 24 * hour"
definition maxSnippetBytes :: nat where "maxSnippetBytes = 512"
definition maxResponseBody :: nat where "maxResponseBody = 50 * 1024 * 1024"

section \<open>Rate limits\<close>

definition RateLimitError :: "duration \<Rightarrow> int \<Rightarrow> string \<Rightarrow> gerror" where
  "RateLimitError retryAfter status snippet =
     \<lparr>err_msg = (if snippet \<noteq> '''' then [Lit ''rate limited by upstream (HTTP '', Num status, Lit ''): '', Lit snippet]
                 else [Lit ''rate limited by upstream (HTTP '', Num status, Lit '')'']),
      err_is = [RateLimit retryAfter]\<rparr>"

definition is_RateLimited :: "gerror \<Rightarrow> bool" where
  "is_RateLimited e \<longleftrightarrow> list_ex (\<lambda>s. case s of RateLimit _ \<Rightarrow> True | _ \<Rightarrow> False) (err_is e)"

definition isAllASCIIDigits :: "string \<Rightarrow> bool" where
  "isAllASCIIDigits s \<longleftrightarrow> s \<noteq> '''' \<and> list_all is_digit s"

definition clampRetryAfter :: "duration \<Rightarrow> duration" where
  "clampRetryAfter d = (if d < 0 then 0 else if maxRetryAfter < d then maxRetryAfter else d)"

text \<open>\<open>strconv.ParseUint\<close> of a string of digits: \<open>None\<close> is the range error.\<close>

definition ParseUint :: "string \<Rightarrow> nat option" where
  "ParseUint s = (let v = dec_value s in if v < 2 ^ 64 then Some v else None)"

definition parseRetryAfter :: "fetch_env \<Rightarrow> http_response \<Rightarrow> duration" where
  "parseRetryAfter E h =
     (let v = TrimSpace (resp_Get h ''Retry-After'') in
      if v = '''' then 0
      else if isAllASCIIDigits v then
        (case ParseUint v of
           None \<Rightarrow> maxRetryAfter
         | Some secs \<Rightarrow> if maxRetryAfter div second \<le> int secs then maxRetryAfter else int secs * second)
      else (case fe_ParseTime E v of
              Some t \<Rightarrow> clampRetryAfter (time_Sub t (fe_until E))
            | None \<Rightarrow> 0))"

section \<open>Body snippets\<close>

text \<open>The loop of \<open>sanitizeSnippet\<close>: every rune that is not printable becomes a space, and the output
  stops before it exceeds the bound.\<close>

function sanitize_loop :: "(rune \<Rightarrow> bool) \<Rightarrow> string \<Rightarrow> string \<Rightarrow> string" where
  "sanitize_loop IsPrint b out =
     (if b = [] then out
      else (let (r, size) = DecodeRune b;
                ch = (if (r \<noteq> RuneError \<or> size \<noteq> 1) \<and> IsPrint r then r else 32)
            in if maxSnippetBytes < length out + length (EncodeRune ch) then out
               else sanitize_loop IsPrint (drop size b) (out @ EncodeRune ch)))"
  by pat_completeness auto
termination
proof (relation "measure (\<lambda>(_, b, _). length b)")
  fix IsPrint :: "rune \<Rightarrow> bool" and b out :: string and x r size ch
  assume "b \<noteq> []" "x = DecodeRune b" "(r, size) = x"
  then have "0 < size" using DecodeRune_width [of b] by (metis snd_conv)
  with \<open>b \<noteq> []\<close> show "((IsPrint, drop size b, out @ EncodeRune ch), IsPrint, b, out) \<in> measure (\<lambda>(_, b, _). length b)"
    by simp
qed simp

declare sanitize_loop.simps [simp del]

definition IsSpace :: "rune \<Rightarrow> bool" where
  "IsSpace r \<longleftrightarrow> EncodeRune r \<in> set space_runes"

text \<open>\<open>strings.Fields\<close>: the maximal runs of runes that are no space.\<close>

function Fields_from :: "string \<Rightarrow> string \<Rightarrow> string list" where
  "Fields_from cur s =
     (if s = [] then (if cur = [] then [] else [cur])
      else (let (r, size) = DecodeRune s in
        if IsSpace r then (if cur = [] then [] else [cur]) @ Fields_from [] (drop size s)
        else Fields_from (cur @ take size s) (drop size s)))"
  by pat_completeness auto
termination
proof (relation "measure (\<lambda>(_, s). length s)")
  fix cur s :: string and x r size
  assume "s \<noteq> []" "x = DecodeRune s" "(r, size) = x"
  then have "0 < size" using DecodeRune_width [of s] by (metis snd_conv)
  with \<open>s \<noteq> []\<close> show "(([], drop size s), cur, s) \<in> measure (\<lambda>(_, s). length s)"
    "((cur @ take size s, drop size s), cur, s) \<in> measure (\<lambda>(_, s). length s)" by simp_all
qed simp

declare Fields_from.simps [simp del]

definition sanitizeSnippet :: "(rune \<Rightarrow> bool) \<Rightarrow> string \<Rightarrow> string" where
  "sanitizeSnippet IsPrint b = Join (Fields_from [] (sanitize_loop IsPrint b [])) '' ''"

definition readBodySnippet :: "fetch_env \<Rightarrow> http_response \<Rightarrow> string" where
  "readBodySnippet E r = sanitizeSnippet (fe_IsPrint E) (fst (ReadAll_limit maxSnippetBytes r))"

section \<open>The CelesTrak fetcher\<close>

record GPFetchResult =
  OMMs :: "OMM list"
  gf_SatelliteCount :: int
  FetchedAt :: time
  NotModified :: bool
  ETag :: string
  LastModified :: string

record CelesTrakFetcher =
  etagCache :: "string \<rightharpoonup> string"
  lastModCache :: "string \<rightharpoonup> string"
  ommCache :: "string \<rightharpoonup> OMM list"

text \<open>\<open>LoadOrStore\<close> keeps a value that is already there.\<close>

definition LoadOrStore :: "('k \<rightharpoonup> 'v) \<Rightarrow> 'k \<Rightarrow> 'v \<Rightarrow> 'k \<rightharpoonup> 'v" where
  "LoadOrStore m k v = (if m k = None then m(k \<mapsto> v) else m)"

definition SeedConditionalCache :: "CelesTrakFetcher \<Rightarrow> string \<Rightarrow> string \<Rightarrow> string \<Rightarrow> CelesTrakFetcher" where
  "SeedConditionalCache f url etag lastModified =
     (if url = '''' then f
      else (let f1 = (if etag \<noteq> '''' then f\<lparr>etagCache := LoadOrStore (etagCache f) url etag\<rparr> else f)
            in if lastModified \<noteq> '''' then f1\<lparr>lastModCache := LoadOrStore (lastModCache f1) url lastModified\<rparr>
               else f1))"

definition stringOrEmpty :: "string option \<Rightarrow> string" where
  "stringOrEmpty v = (case v of Some s \<Rightarrow> s | None \<Rightarrow> '''')"

definition opt_header :: "string \<Rightarrow> string option \<Rightarrow> (string \<rightharpoonup> string) \<Rightarrow> string \<rightharpoonup> string" where
  "opt_header k v h = (case v of Some s \<Rightarrow> h(k \<mapsto> s) | None \<Rightarrow> h)"

definition celestrak_request :: "CelesTrakFetcher \<Rightarrow> string \<Rightarrow> gp_request" where
  "celestrak_request f url =
     \<lparr>gr_Method = ''GET'', gr_URL = url,
      gr_Header = opt_header ''If-Modified-Since'' (lastModCache f url)
        (opt_header ''If-None-Match'' (etagCache f url) [''User-Agent'' \<mapsto> userAgent]),
      gr_Form = []\<rparr>"

definition CelesTrak_Fetch ::
  "'tle sgp4_api \<Rightarrow> fetch_env \<Rightarrow> CelesTrakFetcher \<Rightarrow> string \<Rightarrow> GPFetchResult result \<times> CelesTrakFetcher" where
  "CelesTrak_Fetch L E f url =
     (case fe_NewRequest E url of
        Some e \<Rightarrow> (Inl (Wrapf (Lit ''creating request: '' # err_msg e) [e]), f)
      | None \<Rightarrow>
          (case fe_Do E 0 (celestrak_request f url) of
             Inl e \<Rightarrow> (Inl (Wrapf (Lit ''executing request: '' # err_msg e) [e]), f)
           | Inr resp \<Rightarrow>
               if StatusCode resp = 304 then
                 (let cached = (case ommCache f url of Some os \<Rightarrow> os | None \<Rightarrow> [])
                  in (Inr \<lparr>OMMs = cached, gf_SatelliteCount = int (length cached), FetchedAt = fe_now E,
                        NotModified = True, ETag = stringOrEmpty (etagCache f url),
                        LastModified = stringOrEmpty (lastModCache f url)\<rparr>, f))
               else if StatusCode resp = 200 then
                 (case ReadAll_limit (maxResponseBody + 1) resp of
                    (body, Some e) \<Rightarrow> (Inl (Wrapf (Lit ''reading response body: '' # err_msg e) [e]), f)
                  | (body, None) \<Rightarrow>
                      if maxResponseBody < length body
                      then (Inl (Errorf [Lit ''response body exceeds '', Num (int maxResponseBody), Lit '' bytes limit'']), f)
                      else (case ParseValidOMMs L body of
                              Inl e \<Rightarrow> (Inl (Wrapf (Lit ''parsing OMM JSON: '' # err_msg e) [e]), f)
                            | Inr omms \<Rightarrow>
                                (let newETag = resp_Get resp ''ETag''; newLastMod = resp_Get resp ''Last-Modified'';
                                     f1 = f\<lparr>ommCache := (ommCache f)(url \<mapsto> omms)\<rparr>;
                                     f2 = (if newETag \<noteq> '''' then f1\<lparr>etagCache := (etagCache f1)(url \<mapsto> newETag)\<rparr> else f1);
                                     f3 = (if newLastMod \<noteq> '''' then f2\<lparr>lastModCache := (lastModCache f2)(url \<mapsto> newLastMod)\<rparr>
                                           else f2)
                                 in (Inr \<lparr>OMMs = omms, gf_SatelliteCount = int (length omms), FetchedAt = fe_now E,
                                       NotModified = False, ETag = newETag, LastModified = newLastMod\<rparr>, f3))))
               else if StatusCode resp = 403 \<or> StatusCode resp = 429 then
                 (Inl (RateLimitError (parseRetryAfter E resp) (StatusCode resp) (readBodySnippet E resp)), f)
               else
                 (Inl \<lparr>err_msg = [Lit ''unexpected HTTP response: HTTP '', Num (StatusCode resp), Lit '' from '', Lit url],
                        err_is = [ErrBadResponse]\<rparr>, f)))"

section \<open>The Space-Track fetcher\<close>

record SpaceTrackFetcher =
  baseURL :: string
  activeUsername :: string
  activePassword :: string
  loggedIn :: bool

definition spaceTrackRateLimitMsg :: string where
  "spaceTrackRateLimitMsg = ''Space-Track query rate limit exceeded''"

text \<open>\<open>strings.EqualFold\<close> with one side in ASCII: beside the case of the ASCII letters, U+017F folds to
  \<open>s\<close> and U+212A to \<open>k\<close>.\<close>

definition fold_rune :: "rune \<Rightarrow> rune" where
  "fold_rune r = (if 65 \<le> r \<and> r \<le> 90 then r + 32 else if r = 383 then 115 else if r = 8490 then 107 else r)"

definition EqualFold :: "string \<Rightarrow> string \<Rightarrow> bool" where
  "EqualFold a b \<longleftrightarrow> map fold_rune (runes_of a) = map fold_rune (runes_of b)"

text \<open>\<open>bytes.ToLower\<close>, as far as an ASCII text is looked for in the result: U+212A and U+0130 have
  ASCII lower cases.\<close>

definition lower_rune :: "rune \<Rightarrow> rune" where
  "lower_rune r = (if 65 \<le> r \<and> r \<le> 90 then r + 32 else if r = 8490 then 107 else if r = 304 then 105 else r)"

definition bytes_ToLower :: "string \<Rightarrow> string" where
  "bytes_ToLower b = string_of (map lower_rune (runes_of b))"

definition bytes_Contains :: "string \<Rightarrow> string \<Rightarrow> bool" where
  "bytes_Contains b sub \<longleftrightarrow> sublist sub b"

text \<open>Whether a URL is on the origin of the base.\<close>

definition same_origin :: "OriginURL \<Rightarrow> OriginURL \<Rightarrow> bool" where
  "same_origin u base \<longleftrightarrow> EqualFold (ou_Scheme u) (ou_Scheme base) \<and> EqualFold (ou_Host u) (ou_Host base)"

text \<open>The redirect policy \<open>NewSpaceTrackFetcher\<close> installs: the parsed base, the number of requests
  already made, and the URL redirected to.\<close>

definition spacetrack_checkRedirect :: "OriginURL \<Rightarrow> nat \<Rightarrow> OriginURL \<Rightarrow> gerror option" where
  "spacetrack_checkRedirect base via u =
     (if 10 \<le> via then Some (Errorf [Lit ''stopped after 10 redirects''])
      else if \<not> same_origin u base
      then Some \<lparr>err_msg = [Lit ''unexpected HTTP response: refusing a Space-Track redirect off the trusted origin '',
                   Lit (ou_Scheme base), Lit ''://'', Lit (ou_Host base)], err_is = [ErrBadResponse]\<rparr>
      else None)"

text \<open>How \<open>net/http\<close> uses it: the hops that are followed when the answers name these targets one after another, \<open>via\<close>
  requests having been made before. A target that the policy refuses ends the request with its error.\<close>

fun spacetrack_hops :: "OriginURL \<Rightarrow> nat \<Rightarrow> OriginURL list \<Rightarrow> OriginURL list" where
  "spacetrack_hops base via [] = []"
| "spacetrack_hops base via (u # us) =
     (case spacetrack_checkRedirect base via u of None \<Rightarrow> u # spacetrack_hops base (Suc via) us | Some _ \<Rightarrow> [])"

definition SetCredentials :: "SpaceTrackFetcher \<Rightarrow> string \<Rightarrow> string \<Rightarrow> SpaceTrackFetcher" where
  "SetCredentials f username password =
     (if activeUsername f = username \<and> activePassword f = password then f
      else f\<lparr>activeUsername := username, activePassword := password, loggedIn := False\<rparr>)"

definition validateGPURL :: "fetch_env \<Rightarrow> SpaceTrackFetcher \<Rightarrow> string \<Rightarrow> gerror option" where
  "validateGPURL E f gpURL =
     (case fe_ParseURL E (baseURL f) of
        Inl e \<Rightarrow> Some (Wrapf ([Lit ''invalid Space-Track base URL '', Quoted (baseURL f), Lit '': ''] @ err_msg e) [e])
      | Inr base \<Rightarrow>
          (case fe_ParseURL E gpURL of
             Inl _ \<Rightarrow> Some \<lparr>err_msg = [Lit ''invalid source URL: invalid Space-Track query URL''],
                            err_is = [ErrInvalidSourceURL]\<rparr>
           | Inr u \<Rightarrow>
               if \<not> same_origin u base
               then Some \<lparr>err_msg = [Lit ''invalid source URL: Space-Track query URL must be on the configured origin '',
                      Lit (ou_Scheme base), Lit ''://'', Lit (ou_Host base), Lit '' (got scheme='', Quoted (ou_Scheme u),
                      Lit '' host='', Quoted (ou_Host u), Lit '')''], err_is = [ErrInvalidSourceURL]\<rparr>
               else None))"

definition loginBodyIndicatesFailure :: "fetch_env \<Rightarrow> string \<Rightarrow> bool" where
  "loginBodyIndicatesFailure E body =
     (let trimmed = TrimSpace body in
      case fe_Unmarshal E trimmed of
        Some m \<Rightarrow> list_ex (\<lambda>(k, v). EqualFold k ''Login'' \<and> (case v of Some s \<Rightarrow> EqualFold s ''Failed'' | None \<Rightarrow> False)) m
      | None \<Rightarrow> (let low = bytes_ToLower trimmed in
                  bytes_Contains low [CHR 0x22, CHR ''l'', CHR ''o'', CHR ''g'', CHR ''i'', CHR ''n'', CHR 0x22]
                  \<and> bytes_Contains low [CHR 0x22, CHR ''f'', CHR ''a'', CHR ''i'', CHR ''l'', CHR ''e'', CHR ''d'', CHR 0x22]))"

definition login_request :: "SpaceTrackFetcher \<Rightarrow> string \<Rightarrow> string \<Rightarrow> gp_request" where
  "login_request f username password =
     \<lparr>gr_Method = ''POST'', gr_URL = baseURL f @ ''/ajaxauth/login'',
      gr_Header = [''Content-Type'' \<mapsto> ''application/x-www-form-urlencoded'', ''User-Agent'' \<mapsto> userAgent],
      gr_Form = [(''identity'', username), (''password'', password)]\<rparr>"

text \<open>The result of a login and the requests it sent; \<open>n\<close> requests precede it in the call.\<close>

definition doLogin :: "fetch_env \<Rightarrow> nat \<Rightarrow> SpaceTrackFetcher \<Rightarrow> string \<Rightarrow> string \<Rightarrow> unit result \<times> gp_request list" where
  "doLogin E n f username password =
     (case fe_NewRequest E (baseURL f @ ''/ajaxauth/login'') of
        Some e \<Rightarrow> (Inl (Wrapf (Lit ''creating login request: '' # err_msg e) [e]), [])
      | None \<Rightarrow>
          (let req = login_request f username password in
           case fe_Do E n req of
             Inl e \<Rightarrow> (Inl (Wrapf (Lit ''login request failed: '' # err_msg e) [e]), [req])
           | Inr resp \<Rightarrow>
               if StatusCode resp = 401 \<or> StatusCode resp = 403
               then (Inl \<lparr>err_msg = [Lit ''authentication failed: SpaceTrack login rejected (HTTP '', Num (StatusCode resp),
                             Lit '')''], err_is = [ErrAuthFailed]\<rparr>, [req])
               else if StatusCode resp \<noteq> 200
               then (Inl (Errorf [Lit ''login returned HTTP '', Num (StatusCode resp)]), [req])
               else if loginBodyIndicatesFailure E (fst (ReadAll_limit (64 * 1024) resp))
               then (Inl \<lparr>err_msg = [Lit ''authentication failed: SpaceTrack rejected the credentials (Login=Failed)''],
                          err_is = [ErrAuthFailed]\<rparr>, [req])
               else (Inr (), [req])))"

definition gp_get :: "string \<Rightarrow> gp_request" where
  "gp_get gpURL = \<lparr>gr_Method = ''GET'', gr_URL = gpURL, gr_Header = [''User-Agent'' \<mapsto> userAgent], gr_Form = []\<rparr>"

definition doFetchGPRaw ::
  "fetch_env \<Rightarrow> nat \<Rightarrow> SpaceTrackFetcher \<Rightarrow> string \<Rightarrow> string result \<times> SpaceTrackFetcher \<times> gp_request list" where
  "doFetchGPRaw E n f gpURL =
     (case fe_NewRequest E gpURL of
        Some e \<Rightarrow> (Inl (Wrapf (Lit ''creating GP request: '' # err_msg e) [e]), f, [])
      | None \<Rightarrow>
          (let req = gp_get gpURL in
           case fe_Do E n req of
             Inl e \<Rightarrow> (Inl (Wrapf (Lit ''GP request failed: '' # err_msg e) [e]), f, [req])
           | Inr resp \<Rightarrow>
               let s = StatusCode resp in
               if s = 200 then
                 (case ReadAll_limit (maxResponseBody + 1) resp of
                    (body, Some e) \<Rightarrow> (Inl (Wrapf (Lit ''reading GP response: '' # err_msg e) [e]), f, [req])
                  | (body, None) \<Rightarrow>
                      if maxResponseBody < length body
                      then (Inl (Errorf [Lit ''GP response exceeds '', Num (int maxResponseBody), Lit '' bytes'']), f, [req])
                      else (Inr body, f, [req]))
               else if s = 403 \<or> s = 429 then
                 (Inl (RateLimitError (parseRetryAfter E resp) s spaceTrackRateLimitMsg), f, [req])
               else if s = 500 then
                 (if bytes_Contains (bytes_ToLower (fst (ReadAll_limit (64 * 1024) resp))) ''violated your query rate limit''
                  then (Inl (RateLimitError (parseRetryAfter E resp) s spaceTrackRateLimitMsg), f, [req])
                  else (Inl \<lparr>err_msg = [Lit ''unexpected HTTP response: HTTP 500 from '', Lit gpURL],
                             err_is = [ErrBadResponse]\<rparr>, f, [req]))
               else if s = 401 then
                 (Inl \<lparr>err_msg = [Lit ''SpaceTrack session expired (HTTP 401)''], err_is = [SessionExpired]\<rparr>,
                  f\<lparr>loggedIn := False\<rparr>, [req])
               else (Inl \<lparr>err_msg = [Lit ''unexpected HTTP response: HTTP '', Num s, Lit '' from '', Lit gpURL],
                          err_is = [ErrBadResponse]\<rparr>, f, [req])))"

definition parseGPResult :: "'tle sgp4_api \<Rightarrow> string \<Rightarrow> time \<Rightarrow> GPFetchResult result" where
  "parseGPResult L body now =
     (case ParseValidOMMs L body of
        Inl e \<Rightarrow> Inl (Wrapf (Lit ''parsing OMM JSON: '' # err_msg e) [e])
      | Inr omms \<Rightarrow> Inr \<lparr>OMMs = omms, gf_SatelliteCount = int (length omms), FetchedAt = now,
                         NotModified = False, ETag = '''', LastModified = ''''\<rparr>)"

definition session_of :: "SpaceTrackFetcher \<Rightarrow> string \<Rightarrow> string \<Rightarrow> SpaceTrackFetcher" where
  "session_of f username password = f\<lparr>activeUsername := username, activePassword := password, loggedIn := True\<rparr>"

text \<open>The fetch after the session is established: on a 401 one login and one more attempt.\<close>

definition fetch_retry :: "fetch_env \<Rightarrow> nat \<Rightarrow> SpaceTrackFetcher \<Rightarrow> string \<Rightarrow> string \<Rightarrow> string
    \<Rightarrow> string result \<times> SpaceTrackFetcher \<times> gp_request list" where
  "fetch_retry E n f gpURL username password =
     (let (r, f1, q1) = doFetchGPRaw E n f gpURL in
      case r of
        Inr body \<Rightarrow> (Inr body, f1, q1)
      | Inl e \<Rightarrow>
          if errors_Is e SessionExpired then
            (let (lr, q2) = doLogin E (n + length q1) f1 username password in
             case lr of
               Inl le \<Rightarrow> (Inl (Wrapf (Lit ''SpaceTrack re-login failed: '' # err_msg le) [le]), f1, q1 @ q2)
             | Inr _ \<Rightarrow>
                 (let (r2, f2, q3) = doFetchGPRaw E (n + length q1 + length q2) (session_of f1 username password) gpURL
                  in (r2, f2, q1 @ q2 @ q3)))
          else (Inl e, f1, q1))"

definition FetchWithCredentials :: "'tle sgp4_api \<Rightarrow> fetch_env \<Rightarrow> SpaceTrackFetcher \<Rightarrow> string \<Rightarrow> string \<Rightarrow> string
    \<Rightarrow> GPFetchResult result \<times> SpaceTrackFetcher \<times> gp_request list" where
  "FetchWithCredentials L E f gpURL username password =
     (case validateGPURL E f gpURL of
        Some e \<Rightarrow> (Inl e, f, [])
      | None \<Rightarrow>
          if username = '''' \<or> password = ''''
          then (Inl (Errorf [Lit ''SpaceTrack username and password must be non-empty'']), f, [])
          else
            (let needLogin = (\<not> loggedIn f \<or> activeUsername f \<noteq> username \<or> activePassword f \<noteq> password);
                 (lr, q0) = (if needLogin then doLogin E 0 f username password else (Inr (), []))
             in case lr of
                  Inl e \<Rightarrow> (Inl (Wrapf (Lit ''SpaceTrack login failed: '' # err_msg e) [e]), f, q0)
                | Inr _ \<Rightarrow>
                    (let f0 = (if needLogin then session_of f username password else f);
                         (r, f1, q1) = fetch_retry E (length q0) f0 gpURL username password
                     in case r of
                          Inl e \<Rightarrow> (Inl e, f1, q0 @ q1)
                        | Inr body \<Rightarrow> (parseGPResult L body (fe_now E), f1, q0 @ q1))))"

definition SpaceTrack_Fetch :: "'tle sgp4_api \<Rightarrow> fetch_env \<Rightarrow> SpaceTrackFetcher \<Rightarrow> string
    \<Rightarrow> GPFetchResult result \<times> SpaceTrackFetcher \<times> gp_request list" where
  "SpaceTrack_Fetch L E f gpURL = FetchWithCredentials L E f gpURL (activeUsername f) (activePassword f)"

section \<open>Lemmas\<close>

lemma is_RateLimited_simps [simp]:
  "is_RateLimited (RateLimitError d s m)" "\<not> is_RateLimited (Errorf x)"
  "is_RateLimited (Wrapf x es) \<longleftrightarrow> (\<exists>e\<in>set es. is_RateLimited e)"
  "is_RateLimited \<lparr>err_msg = x, err_is = [s']\<rparr> \<longleftrightarrow> (\<exists>d. s' = RateLimit d)"
  by (auto simp: is_RateLimited_def RateLimitError_def Errorf_def Wrapf_def list_ex_iff split: sentinel.splits)

lemma sanitize_step:
  assumes "b \<noteq> []" "ch = (if (fst (DecodeRune b) \<noteq> RuneError \<or> snd (DecodeRune b) \<noteq> 1) \<and> IsPrint (fst (DecodeRune b))
      then fst (DecodeRune b) else 32)"
  shows "sanitize_loop IsPrint b out = (if maxSnippetBytes < length out + length (EncodeRune ch) then out
     else sanitize_loop IsPrint (drop (snd (DecodeRune b)) b) (out @ EncodeRune ch))"
  using assms by (subst sanitize_loop.simps) (simp add: split_beta Let_def)

text \<open>An invariant of the output buffer that each appended rune keeps.\<close>

lemma sanitize_induct:
  assumes "P out" "\<And>out r. P out \<Longrightarrow> valid_rune r \<Longrightarrow> IsPrint r \<or> r = 32 \<Longrightarrow>
      length out + length (EncodeRune r) \<le> maxSnippetBytes \<Longrightarrow> P (out @ EncodeRune r)"
  shows "P (sanitize_loop IsPrint b out)"
  using assms(1)
proof (induction b arbitrary: out rule: length_induct)
  case (1 b)
  show ?case
  proof (cases "b = []")
    case True
    then show ?thesis using 1(2) by (simp add: sanitize_loop.simps)
  next
    case False
    obtain r size where d: "DecodeRune b = (r, size)" by fastforce
    define ch where "ch = (if (r \<noteq> RuneError \<or> size \<noteq> 1) \<and> IsPrint r then r else 32)"
    have v: "valid_rune ch" "IsPrint ch \<or> ch = 32"
      using DecodeRune_valid [of b] by (auto simp: ch_def d valid_rune_def)
    have eq: "sanitize_loop IsPrint b out = (if maxSnippetBytes < length out + length (EncodeRune ch) then out
        else sanitize_loop IsPrint (drop size b) (out @ EncodeRune ch))"
      by (subst sanitize_step [OF False, of ch IsPrint]) (simp_all add: d ch_def)
    have "length (drop size b) < length b" using False DecodeRune_width [OF False] d by simp
    then show ?thesis using 1 v assms(2) by (auto simp: eq)
  qed
qed

text \<open>The fields of a text hold no more bytes than the text, with one separator between them.\<close>

lemma Fields_step: "s \<noteq> [] \<Longrightarrow> Fields_from cur s =
    (if IsSpace (fst (DecodeRune s))
     then (if cur = [] then [] else [cur]) @ Fields_from [] (drop (snd (DecodeRune s)) s)
     else Fields_from (cur @ take (snd (DecodeRune s)) s) (drop (snd (DecodeRune s)) s))"
  by (subst Fields_from.simps) (simp add: split_beta)

lemma Fields_Nil: "Fields_from cur [] = (if cur = [] then [] else [cur])"
  by (subst Fields_from.simps) simp


lemma Join_single: "ss \<noteq> [] \<Longrightarrow> length (Join ss '' '') + 1 = sum_list (map (\<lambda>s. length s + 1) ss)"
  by (induction ss "'' ''" rule: Join.induct) auto

lemma Fields_length: "sum_list (map (\<lambda>s. length s + 1) (Fields_from cur s)) \<le> length cur + length s + 1"
proof (induction s arbitrary: cur rule: length_induct)
  case (1 s)
  show ?case
  proof (cases "s = []")
    case False
    obtain r size where d: "DecodeRune s = (r, size)" by fastforce
    have sz: "0 < size" using DecodeRune_width [OF False] d by simp
    then have less: "length (drop size s) < length s" using False by simp
    have IH: "sum_list (map (\<lambda>s. length s + 1) (Fields_from c (drop size s))) \<le> length c + (length s - size) + 1" for c
      using 1 [rule_format, OF less, of c] by simp
    moreover have "length (take size s) + (length s - size) = length s" by simp
    moreover have "length s - size + 1 \<le> length s" using sz False by (cases s) auto
    ultimately show ?thesis
      using False IH [of "[]"] IH [of "cur @ take size s"]
      by (simp add: Fields_step d del: length_take)
  qed (simp add: Fields_Nil)
qed

lemma Fields_chars: "w \<in> set (Fields_from cur s) \<Longrightarrow> set w \<subseteq> set cur \<union> set s"
proof (induction s arbitrary: cur rule: length_induct)
  case (1 s)
  show ?case
  proof (cases "s = []")
    case False
    obtain r size where d: "DecodeRune s = (r, size)" by fastforce
    have "length (drop size s) < length s" using False DecodeRune_width [OF False] d by simp
    then have IH: "w \<in> set (Fields_from c (drop size s)) \<Longrightarrow> set w \<subseteq> set c \<union> set (drop size s)" for c
      using 1(1) by blast
    have "set (drop size s) \<subseteq> set s" "set (take size s) \<subseteq> set s" by (simp_all add: set_drop_subset set_take_subset)
    then show ?thesis using 1(2) False IH [of "[]"] IH [of "cur @ take size s"]
      by (auto simp: Fields_step d split: if_splits)
  qed (use 1(2) in \<open>simp add: Fields_Nil split: if_splits\<close>)
qed

lemma Join_chars: "set (Join ss sep) \<subseteq> (\<Union>s\<in>set ss. set s) \<union> set sep"
  by (induction ss sep rule: Join.induct) auto

text \<open>An encoded rune holds a byte below 128 only as its whole self.\<close>

lemma EncodeRune_ascii: "valid_rune r \<Longrightarrow> c \<in> set (EncodeRune r) \<Longrightarrow> byte c < 128 \<Longrightarrow> byte c = r"
proof -
  assume "valid_rune r" "c \<in> set (EncodeRune r)" "byte c < 128"
  moreover have "r div 64 < 32" if "r < 2048" using that by simp
  moreover have "r div 4096 < 16" if "r < 65536" using that by simp
  moreover have "r div 262144 < 8" using \<open>valid_rune r\<close> by (auto simp: valid_rune_def)
  ultimately show ?thesis by (auto simp: EncodeRune_def split: if_splits)
qed

lemma clampRetryAfter_bounds: "0 \<le> clampRetryAfter d" "clampRetryAfter d \<le> maxRetryAfter"
  by (simp_all add: clampRetryAfter_def maxRetryAfter_def)

text \<open>Reachable states of the CelesTrak fetcher: fetches and seedings from empty caches.\<close>

inductive celestrak_reach :: "'tle sgp4_api \<Rightarrow> CelesTrakFetcher \<Rightarrow> bool" for L where
  celestrak_new: "celestrak_reach L \<lparr>etagCache = Map.empty, lastModCache = Map.empty, ommCache = Map.empty\<rparr>"
| celestrak_fetch: "celestrak_reach L f \<Longrightarrow> celestrak_reach L (snd (CelesTrak_Fetch L E f url))"
| celestrak_seed: "celestrak_reach L f \<Longrightarrow> celestrak_reach L (SeedConditionalCache f url etag lastModified)"

definition all_valid :: "OMM list \<Rightarrow> bool" where
  "all_valid omms \<longleftrightarrow> list_all (\<lambda>o'. validOMM o' = None) omms"

definition cache_valid :: "CelesTrakFetcher \<Rightarrow> bool" where
  "cache_valid f \<longleftrightarrow> (\<forall>url omms. ommCache f url = Some omms \<longrightarrow> all_valid omms)"

lemma all_valid_Nil [simp]: "all_valid []"
  by (simp add: all_valid_def)

lemma CelesTrak_Fetch_valid:
  assumes "cache_valid f"
  shows "cache_valid (snd (CelesTrak_Fetch L E f url))
     \<and> (case fst (CelesTrak_Fetch L E f url) of Inr g \<Rightarrow> all_valid (OMMs g) | Inl _ \<Rightarrow> True)"
proof -
  have "all_valid omms" if "ParseValidOMMs L body = Inr omms" for body omms
    using ParseValidOMMs_valid [OF that] by (simp add: all_valid_def)
  with assms show ?thesis
    by (auto simp: CelesTrak_Fetch_def cache_valid_def Let_def split: option.splits sum.splits prod.splits)
qed

lemma celestrak_reach_valid: "celestrak_reach L f \<Longrightarrow> cache_valid f"
proof (induction rule: celestrak_reach.induct)
  case (celestrak_fetch f E url)
  then show ?case using CelesTrak_Fetch_valid by blast
next
  case (celestrak_seed f url etag lastModified)
  then show ?case by (simp add: SeedConditionalCache_def cache_valid_def Let_def)
qed (simp add: cache_valid_def)

lemma parseGPResult_valid: "parseGPResult L body now = Inr g \<Longrightarrow> all_valid (OMMs g)"
  by (auto simp: parseGPResult_def all_valid_def dest: ParseValidOMMs_valid split: sum.splits)

lemma FetchWithCredentials_valid:
  "fst (FetchWithCredentials L E f gpURL u p) = Inr g \<Longrightarrow> all_valid (OMMs g)"
  by (auto simp: FetchWithCredentials_def Let_def split_beta dest: parseGPResult_valid
      split: option.splits if_splits sum.splits)

lemma doLogin_log: "doLogin E n f u p = (r, qs) \<Longrightarrow> (qs = [] \<or> qs = [login_request f u p]) \<and> (r = Inr () \<longrightarrow> qs \<noteq> [])"
  by (auto simp: doLogin_def Let_def split: option.splits sum.splits if_splits)


lemma doFetch_log: "doFetchGPRaw E n f url = (r, f', qs) \<Longrightarrow> (qs = [] \<or> qs = [gp_get url])
    \<and> (f' = f \<or> f' = f\<lparr>loggedIn := False\<rparr>) \<and> ((\<exists>b. r = Inr b) \<longrightarrow> f' = f)"
  by (auto simp: doFetchGPRaw_def Let_def split: option.splits sum.splits if_splits prod.splits)

section \<open>Properties\<close>

text \<open>No malformed element set leaves a fetcher. In every reachable state of the CelesTrak fetcher,
  whatever the source answered before and answers now (a body, a 304 with the cached body, an error),
  every element set of a fetch result has finite elements, a positive mean motion, an eccentricity in
  [0,1) and an inclination in [0,180]; so does every element set a Space-Track fetch returns.\<close>

theorem fetched_elements_valid:
  assumes "celestrak_reach L f"
    and "fst (CelesTrak_Fetch L E f url) = Inr g \<or> fst (FetchWithCredentials L E s url u p) = Inr g"
  shows "list_all (\<lambda>o'. list_all is_finite [MeanMotion o', Eccentricity o', Inclination o', RAOfAscNode o',
          ArgOfPericenter o', MeanAnomaly o', BStar o', MeanMotionDot o', MeanMotionDDot o']
        \<and> f64_less (Fin 0) (MeanMotion o') \<and> f64_le (Fin 0) (Eccentricity o') \<and> f64_less (Eccentricity o') (Fin 1)
        \<and> f64_le (Fin 0) (Inclination o') \<and> f64_le (Inclination o') (Fin 180)) (OMMs g)"
proof -
  have "all_valid (OMMs g)"
    using assms(2) CelesTrak_Fetch_valid [OF celestrak_reach_valid [OF assms(1)], of L E url]
      FetchWithCredentials_valid by (auto split: sum.splits)
  then show ?thesis by (simp add: all_valid_def validOMM_None_iff)
qed

text \<open>The text of an untrusted response that is put into a condition or an event is one line of at
  most 512 bytes without control characters, whatever the bytes of the body are. The hypothesis states
  of \<open>unicode.IsPrint\<close> that it rejects the ASCII control characters.\<close>

theorem snippet_is_log_safe:
  assumes "\<forall>r. IsPrint r \<longrightarrow> 32 \<le> r \<and> r \<noteq> 127"
  shows "length (sanitizeSnippet IsPrint b) \<le> 512
     \<and> (\<forall>c\<in>set (sanitizeSnippet IsPrint b). 32 \<le> byte c \<and> byte c \<noteq> 127)"
proof -
  define out where "out = sanitize_loop IsPrint b []"
  have len: "length out \<le> maxSnippetBytes"
    unfolding out_def by (rule sanitize_induct) simp_all
  have ch: "\<forall>c\<in>set out. 32 \<le> byte c \<and> byte c \<noteq> 127"
    unfolding out_def
  proof (rule sanitize_induct, goal_cases)
    case (2 out r)
    have "32 \<le> byte c \<and> byte c \<noteq> 127" if "c \<in> set (EncodeRune r)" for c
      using EncodeRune_ascii [OF 2(2) that] 2(3) assms by (cases "byte c < 128") auto
    with 2(1) show ?case by auto
  qed simp
  have "length (sanitizeSnippet IsPrint b) \<le> length out"
    using Fields_length [of "[]" out] Join_single [of "Fields_from [] out"]
    by (cases "Fields_from [] out = []") (auto simp: sanitizeSnippet_def out_def)
  moreover have "set (sanitizeSnippet IsPrint b) \<subseteq> set out \<union> set '' ''"
    using Join_chars [of "Fields_from [] out" "'' ''"] Fields_chars [of _ "[]" out]
    by (fastforce simp: sanitizeSnippet_def out_def)
  ultimately show ?thesis using len ch by (auto simp: maxSnippetBytes_def)
qed

text \<open>A server cannot park the operator. The delay read from a Retry-After header is between 0 and
  24 hours whatever the header holds, and a header of digits, of any length, is honoured exactly up to
  that bound.\<close>

theorem retry_after_bounded:
  "0 \<le> parseRetryAfter E h \<and> parseRetryAfter E h \<le> 24 * hour
   \<and> (isAllASCIIDigits (TrimSpace (resp_Get h ''Retry-After'')) \<longrightarrow>
        parseRetryAfter E h = min (int (dec_value (TrimSpace (resp_Get h ''Retry-After''))) * second) (24 * hour))"
  using clampRetryAfter_bounds
  by (auto simp: parseRetryAfter_def maxRetryAfter_def ParseUint_def isAllASCIIDigits_def Let_def min_def
      split: option.splits if_splits)

text \<open>The requests and the session of a fetch whose session is established.\<close>

lemma hops_same_origin: "list_all (\<lambda>h. same_origin h base) (spacetrack_hops base via us)"
  by (induction us arbitrary: via) (auto simp: spacetrack_checkRedirect_def)

lemma hops_bounded: "via \<le> 10 \<Longrightarrow> via + length (spacetrack_hops base via us) \<le> 10"
proof (induction us arbitrary: via)
  case (Cons u us)
  show ?case
  proof (cases "via = 10")
    case False
    with Cons.prems Cons.IH [of "Suc via"] show ?thesis by (simp add: spacetrack_checkRedirect_def)
  qed (simp add: spacetrack_checkRedirect_def)
qed simp

lemma fetch_retry_log:
  assumes "fetch_retry E n f url u p = (r, f', qs)"
  shows "subseq qs [gp_get url, login_request f u p, gp_get url]
     \<and> (activeUsername f = u \<and> activePassword f = p \<longrightarrow> activeUsername f' = u \<and> activePassword f' = p)
     \<and> baseURL f' = baseURL f \<and> ((\<exists>b. r = Inr b) \<and> loggedIn f \<longrightarrow> loggedIn f')"
proof -
  obtain r1 f1 q1 where 1: "doFetchGPRaw E n f url = (r1, f1, q1)" by (cases "doFetchGPRaw E n f url") auto
  obtain lr q2 where 2: "doLogin E (n + length q1) f1 u p = (lr, q2)" by fastforce
  obtain r3 f3 q3 where 3: "doFetchGPRaw E (n + length q1 + length q2) (session_of f1 u p) url = (r3, f3, q3)"
    by (cases "doFetchGPRaw E (n + length q1 + length q2) (session_of f1 u p) url") auto
  have f1: "f1 = f \<or> f1 = f\<lparr>loggedIn := False\<rparr>" using doFetch_log [OF 1] by blast
  then have same: "login_request f1 u p = login_request f u p" "baseURL f1 = baseURL f"
    "activeUsername f1 = activeUsername f" "activePassword f1 = activePassword f"
    by (auto simp: login_request_def)
  have "q1 = [] \<or> q1 = [gp_get url]" "q2 = [] \<or> q2 = [login_request f u p]" "q3 = [] \<or> q3 = [gp_get url]"
    using doFetch_log [OF 1] doLogin_log [OF 2] doFetch_log [OF 3] unfolding same(1) by blast+
  then have logs: "subseq q1 [gp_get url, login_request f u p, gp_get url]"
    "subseq (q1 @ q2) [gp_get url, login_request f u p, gp_get url]" "subseq (q1 @ q2 @ q3) [gp_get url, login_request f u p, gp_get url]"
    by auto
  consider "(r, f', qs) = (r1, f1, q1)" | e where "(r, f', qs) = (Inl e, f1, q1 @ q2)"
    | "(r, f', qs) = (r3, f3, q1 @ q2 @ q3)"
    using assms by (auto simp: fetch_retry_def 1 2 3 split: sum.splits if_splits)
  then show ?thesis
  proof cases
    case 3
    have "f3 = session_of f1 u p \<or> f3 = (session_of f1 u p)\<lparr>loggedIn := False\<rparr>"
      "(\<exists>b. r3 = Inr b) \<longrightarrow> f3 = session_of f1 u p" using doFetch_log [OF \<open>doFetchGPRaw _ _ (session_of f1 u p) _ = _\<close>] by auto
    then have "activeUsername f3 = u" "activePassword f3 = p" "baseURL f3 = baseURL f" "(\<exists>b. r3 = Inr b) \<longrightarrow> loggedIn f3"
      using same by (auto simp: session_of_def)
    then show ?thesis using 3 logs by auto
  qed (use same f1 logs doFetch_log [OF 1] in auto)
qed

text \<open>C30: the Space-Track session and credentials stay where they belong. The requests a fetch makes are, in this order
  and each at most once, a login, the query, a login and the query again, without the first login when the session held
  by the fetcher is that of the requested credentials; otherwise the first request is that login. There is none at all
  unless both credentials are non-empty and the query URL has the scheme and host of the configured base, and then every
  redirect that is followed from any of them, at most nine, stays on that scheme and host as well. After a successful
  fetch the session is that of the requested credentials.\<close>

theorem spacetrack_session_safe:
  assumes "FetchWithCredentials L E f url u p = (r, f', qs)"
  shows "(let held = loggedIn f \<and> activeUsername f = u \<and> activePassword f = p; l = login_request f u p; g = gp_get url in
       subseq qs (if held then [g, l, g] else [l, g, l, g]) \<and> (qs \<noteq> [] \<and> \<not> held \<longrightarrow> hd qs = l))
     \<and> (qs \<noteq> [] \<longrightarrow> u \<noteq> '''' \<and> p \<noteq> '''' \<and> (\<exists>base v. fe_ParseURL E (baseURL f) = Inr base \<and> fe_ParseURL E url = Inr v
          \<and> same_origin v base \<and> (\<forall>us. list_all (\<lambda>h. same_origin h base) (spacetrack_hops base 1 us)
                \<and> length (spacetrack_hops base 1 us) \<le> 9)))
     \<and> (\<not> isl r \<longrightarrow> loggedIn f' \<and> activeUsername f' = u \<and> activePassword f' = p)"
proof (cases "validateGPURL E f url = None \<and> u \<noteq> '''' \<and> p \<noteq> ''''")
  case False
  then show ?thesis using assms by (auto simp: FetchWithCredentials_def split: option.splits)
next
  case True
  have "list_all (\<lambda>h. same_origin h base) (spacetrack_hops base 1 us) \<and> length (spacetrack_hops base 1 us) \<le> 9" for base us
    using hops_same_origin [of base 1 us] hops_bounded [of 1 base us] by simp
  with True have origin: "\<exists>base v. fe_ParseURL E (baseURL f) = Inr base \<and> fe_ParseURL E url = Inr v \<and> same_origin v base
      \<and> (\<forall>us. list_all (\<lambda>h. same_origin h base) (spacetrack_hops base 1 us) \<and> length (spacetrack_hops base 1 us) \<le> 9)"
    by (auto simp: validateGPURL_def split: sum.splits if_splits)
  let ?need = "\<not> loggedIn f \<or> activeUsername f \<noteq> u \<or> activePassword f \<noteq> p"
  obtain lr q0 where l: "(if ?need then doLogin E 0 f u p else (Inr (), [])) = (lr, q0)" by fastforce
  define f0 where "f0 = (if ?need then session_of f u p else f)"
  obtain r1 f1 q1 where q: "fetch_retry E (length q0) f0 url u p = (r1, f1, q1)"
    by (cases "fetch_retry E (length q0) f0 url u p") auto
  have q0: "q0 = [] \<or> q0 = [login_request f u p]" "?need \<and> lr = Inr () \<longrightarrow> q0 = [login_request f u p]" "\<not> ?need \<longrightarrow> q0 = []"
    using l doLogin_log [of E 0 f u p lr q0] by (auto split: if_splits)
  have f0: "login_request f0 u p = login_request f u p" "activeUsername f0 = u" "activePassword f0 = p" "loggedIn f0"
    by (auto simp: f0_def session_of_def login_request_def)
  have eq: "(r, f', qs) = (case lr of
       Inl e \<Rightarrow> (Inl (Wrapf (Lit ''SpaceTrack login failed: '' # err_msg e) [e]), f, q0)
     | Inr _ \<Rightarrow> (case r1 of Inl e \<Rightarrow> (Inl e, f1, q0 @ q1) | Inr body \<Rightarrow> (parseGPResult L body (fe_now E), f1, q0 @ q1)))"
    using assms True l q unfolding FetchWithCredentials_def Let_def by (simp add: f0_def split: sum.splits)
  show ?thesis
  proof (cases lr)
    case (Inl e)
    then show ?thesis using eq q0 origin True by (auto simp: Let_def)
  next
    case (Inr x)
    note log = fetch_retry_log [OF q, unfolded f0]
    have qs: "qs = q0 @ q1" "f' = f1" "\<not> isl r \<longrightarrow> (\<exists>b. r1 = Inr b)" using eq Inr by (auto split: sum.splits)
    then show ?thesis using log q0 f0 origin True Inr
      by (cases "q0 = []") (auto simp: Let_def split: if_splits)
  qed
qed

section \<open>Witnesses\<close>

definition demo_response :: "int \<Rightarrow> string \<Rightarrow> (string \<Rightarrow> string) \<Rightarrow> http_response" where
  "demo_response status body header =
     \<lparr>StatusCode = status, resp_Get = header, resp_Bytes = body, resp_Err = None\<rparr>"

definition demo_fetch_env :: "(nat \<Rightarrow> gp_request \<Rightarrow> http_response) \<Rightarrow> fetch_env" where
  "demo_fetch_env answer =
     \<lparr>fe_NewRequest = (\<lambda>_. None), fe_Do = (\<lambda>n q. Inr (answer n q)), fe_now = 1000 * second, fe_until = 1000 * second,
      fe_IsPrint = (\<lambda>r. 32 \<le> r \<and> r < 127), fe_ParseTime = (\<lambda>_. None), fe_Unmarshal = (\<lambda>_. Some []),
      fe_ParseURL = (\<lambda>_. Inr \<lparr>ou_Scheme = ''https'', ou_Host = ''www.space-track.org''\<rparr>)\<rparr>"

definition one_omm_lib :: "unit sgp4_api" where
  "one_omm_lib = demo_sgp4 (Fin 7000) (\<lambda>_. Fin 0) [] \<lparr>ParseOMMs := (\<lambda>_. Inr [demo_omm 25544 ''ISS'', (demo_omm 1 ''BAD'')\<lparr>MeanMotion := NaN\<rparr>])\<rparr>"

lemma one_omm_valid: "ParseValidOMMs one_omm_lib body = Inr [demo_omm 25544 ''ISS'']"
  by (simp add: ParseValidOMMs_def one_omm_lib_def filterValidOMMs_def validOMM_None_iff demo_omm_def)

definition fresh_celestrak :: CelesTrakFetcher where
  "fresh_celestrak = \<lparr>etagCache = Map.empty, lastModCache = Map.empty, ommCache = Map.empty\<rparr>"

definition body_answer :: "nat \<Rightarrow> gp_request \<Rightarrow> http_response" where
  "body_answer n q = demo_response 200 ''[]'' (\<lambda>k. if k = ''ETag'' then ''v1'' else '''')"

lemma read_small: "ReadAll_limit (maxResponseBody + 1) (demo_response s ''[]'' h) = (''[]'', None)"
  by (simp add: ReadAll_limit_def demo_response_def maxResponseBody_def)

lemma celestrak_demo:
  "CelesTrak_Fetch one_omm_lib (demo_fetch_env body_answer) fresh_celestrak ''u'' =
     (Inr \<lparr>OMMs = [demo_omm 25544 ''ISS''], gf_SatelliteCount = 1, FetchedAt = 1000 * second, NotModified = False,
           ETag = ''v1'', LastModified = ''''\<rparr>,
      \<lparr>etagCache = [''u'' \<mapsto> ''v1''], lastModCache = Map.empty, ommCache = [''u'' \<mapsto> [demo_omm 25544 ''ISS'']]\<rparr>)"
  using read_small [of 200 "\<lambda>k. if k = ''ETag'' then ''v1'' else ''''"]
  by (simp add: CelesTrak_Fetch_def demo_fetch_env_def body_answer_def one_omm_valid fresh_celestrak_def Let_def)
     (simp add: demo_response_def maxResponseBody_def)

theorem fetched_elements_valid_witness:
  "fst (CelesTrak_Fetch one_omm_lib (demo_fetch_env body_answer) fresh_celestrak ''u'') =
     Inr \<lparr>OMMs = [demo_omm 25544 ''ISS''], gf_SatelliteCount = 1, FetchedAt = 1000 * second, NotModified = False,
           ETag = ''v1'', LastModified = ''''\<rparr>
   \<and> f64_less (Fin 0) (MeanMotion (demo_omm 25544 ''ISS''))"
proof -
  have "celestrak_reach one_omm_lib fresh_celestrak"
    unfolding fresh_celestrak_def by (rule celestrak_new)
  from fetched_elements_valid [OF this disjI1 [OF arg_cong [where f = fst, OF celestrak_demo, simplified fst_conv]]]
  show ?thesis using celestrak_demo by simp
qed

lemma decode_bytes:
  "byte c < 128 \<Longrightarrow> DecodeRune (c # s) = (byte c, 1)" "DecodeRune (CHR 0xFF # s) = (RuneError, 1)"
  "r < 128 \<Longrightarrow> EncodeRune r = [char_of r]"
  by (simp_all add: DecodeRune_def EncodeRune_def valid_rune_def)

lemma ascii_chars: "char_of (71 :: nat) = CHR ''G''" "char_of (80 :: nat) = CHR ''P''" "char_of (32 :: nat) = CHR '' ''"
  by code_simp+

theorem snippet_is_log_safe_witness:
  "sanitizeSnippet (\<lambda>r. 32 \<le> r \<and> r < 127) [CHR ''G'', CHR 0x0A, CHR 0xFF, CHR ''P''] = ''G P''
   \<and> length (sanitizeSnippet (\<lambda>r. 32 \<le> r \<and> r < 127) [CHR ''G'', CHR 0x0A, CHR 0xFF, CHR ''P'']) \<le> 512"
proof
  show "sanitizeSnippet (\<lambda>r. 32 \<le> r \<and> r < 127) [CHR ''G'', CHR 0x0A, CHR 0xFF, CHR ''P''] = ''G P''"
    by (simp add: sanitizeSnippet_def sanitize_step decode_bytes maxSnippetBytes_def RuneError_def Fields_step
        Fields_Nil IsSpace_def space_runes_def sanitize_loop.simps [of _ "[]"] ascii_chars)
  show "length (sanitizeSnippet (\<lambda>r. 32 \<le> r \<and> r < 127) [CHR ''G'', CHR 0x0A, CHR 0xFF, CHR ''P'']) \<le> 512"
    using snippet_is_log_safe [of "\<lambda>r. 32 \<le> r \<and> r < 127"] by simp
qed

theorem retry_after_bounded_witness:
  "parseRetryAfter (demo_fetch_env body_answer) (demo_response 429 '''' (\<lambda>_. ''120'')) = 120 * second"
proof -
  have t: "TrimSpace (resp_Get (demo_response 429 '''' (\<lambda>_. ''120'')) ''Retry-After'') = ''120''"
    using TrimSpace_none [of "''120''"] by (simp add: demo_response_def graphic_def)
  then have "isAllASCIIDigits (TrimSpace (resp_Get (demo_response 429 '''' (\<lambda>_. ''120'')) ''Retry-After''))"
    "dec_value (TrimSpace (resp_Get (demo_response 429 '''' (\<lambda>_. ''120'')) ''Retry-After'')) = 120"
    by (simp_all add: isAllASCIIDigits_def is_digit_def dec_value_def)
  then show ?thesis
    using retry_after_bounded [of "demo_fetch_env body_answer" "demo_response 429 '''' (\<lambda>_. ''120'')"] by simp
qed

definition fresh_spacetrack :: SpaceTrackFetcher where
  "fresh_spacetrack = \<lparr>baseURL = ''https://www.space-track.org'', activeUsername = '''', activePassword = '''', loggedIn = False\<rparr>"

definition expiring_answer :: "nat \<Rightarrow> gp_request \<Rightarrow> http_response" where
  "expiring_answer n q = (if n = 1 then demo_response 401 '''' (\<lambda>_. '''') else demo_response 200 ''[]'' (\<lambda>_. ''''))"

lemma login_ok: "n \<noteq> 1 \<Longrightarrow> doLogin (demo_fetch_env expiring_answer) n f u p = (Inr (), [login_request f u p])"
  by (simp add: doLogin_def demo_fetch_env_def expiring_answer_def demo_response_def loginBodyIndicatesFailure_def)

lemma get_answers:
  "doFetchGPRaw (demo_fetch_env expiring_answer) (Suc 0) f url =
     (Inl \<lparr>err_msg = [Lit ''SpaceTrack session expired (HTTP 401)''], err_is = [SessionExpired]\<rparr>,
      f\<lparr>loggedIn := False\<rparr>, [gp_get url])"
  "n \<noteq> Suc 0 \<Longrightarrow> doFetchGPRaw (demo_fetch_env expiring_answer) n f url = (Inr ''[]'', f, [gp_get url])"
  by (simp_all add: doFetchGPRaw_def demo_fetch_env_def expiring_answer_def demo_response_def ReadAll_limit_def
      maxResponseBody_def)

theorem spacetrack_session_safe_witness:
  "snd (snd (FetchWithCredentials one_omm_lib (demo_fetch_env expiring_answer) fresh_spacetrack ''q'' ''u'' ''p'')) =
     [login_request fresh_spacetrack ''u'' ''p'', gp_get ''q'', login_request fresh_spacetrack ''u'' ''p'', gp_get ''q'']
   \<and> loggedIn (fst (snd (FetchWithCredentials one_omm_lib (demo_fetch_env expiring_answer) fresh_spacetrack ''q'' ''u'' ''p'')))"
proof -
  let ?r = "FetchWithCredentials one_omm_lib (demo_fetch_env expiring_answer) fresh_spacetrack ''q'' ''u'' ''p''"
  have v: "validateGPURL (demo_fetch_env expiring_answer) fresh_spacetrack ''q'' = None"
    by (simp add: validateGPURL_def demo_fetch_env_def same_origin_def EqualFold_def)
  have l: "login_request (g\<lparr>loggedIn := b\<rparr>) ''u'' ''p'' = login_request g ''u'' ''p''"
    "login_request (session_of g ''u'' ''p'') ''u'' ''p'' = login_request g ''u'' ''p''" for g b
    by (simp_all add: login_request_def session_of_def)
  have run: "snd (snd ?r) = [login_request fresh_spacetrack ''u'' ''p'', gp_get ''q'',
      login_request fresh_spacetrack ''u'' ''p'', gp_get ''q''] \<and> \<not> isl (fst ?r)"
    by (simp add: FetchWithCredentials_def v fresh_spacetrack_def [THEN arg_cong, of loggedIn] login_ok fetch_retry_def
        get_answers errors_Is_def l parseGPResult_def one_omm_valid)
  obtain r f' qs where r: "?r = (r, f', qs)" by (cases ?r) auto
  show ?thesis using spacetrack_session_safe [OF r] run unfolding r by (simp add: Let_def)
qed

text \<open>The body cache is replaced by every 200, the validators only when the response carries them: after
  a response without an ETag the fetcher holds the new body under the old ETag, and answers a 304 to
  that ETag with it.\<close>

lemma stale_validator_kept:
  assumes "fe_NewRequest E url = None" "fe_Do E 0 (celestrak_request f url) = Inr resp" "StatusCode resp = 200"
    and "ReadAll_limit (maxResponseBody + 1) resp = (body, None)" "length body \<le> maxResponseBody"
    and "ParseValidOMMs L body = Inr omms" "resp_Get resp ''ETag'' = ''''"
  shows "etagCache (snd (CelesTrak_Fetch L E f url)) url = etagCache f url
     \<and> ommCache (snd (CelesTrak_Fetch L E f url)) url = Some omms"
  using assms by (simp add: CelesTrak_Fetch_def Let_def)

end
