(* ===== verification/Go_Quote.thy ===== *)
theory Go_Quote
  imports Go_Utf8 Go_Json
begin

text \<open>
  \<open>strconv.Quote\<close>, which the verb \<open>%q\<close> prints, and the proof that a quoted string can be read off the
  text that follows it. The table of printable code points, \<open>strconv.IsPrint\<close>, is a parameter: no
  property of it is used.
\<close>

definition hex_byte :: "nat \<Rightarrow> string" where
  "hex_byte n = [hex_digit (n div 16), hex_digit (n mod 16)]"

definition hex4 :: "nat \<Rightarrow> string" where
  "hex4 n = hex_byte (n div 256) @ hex_byte (n mod 256)"

text \<open>\<open>appendEscapedRune\<close> with the double quote, for a rune that \<open>DecodeRune\<close> returned.\<close>

definition escape_rune :: "(rune \<Rightarrow> bool) \<Rightarrow> rune \<Rightarrow> string" where
  "escape_rune IsPrint r =
     (if r = 34 \<or> r = 92 then [CHR 92, char_of r]
      else if IsPrint r then EncodeRune r
      else if r = 7 then [CHR 92, CHR ''a'']
      else if r = 8 then [CHR 92, CHR ''b'']
      else if r = 12 then [CHR 92, CHR ''f'']
      else if r = 10 then [CHR 92, CHR ''n'']
      else if r = 13 then [CHR 92, CHR ''r'']
      else if r = 9 then [CHR 92, CHR ''t'']
      else if r = 11 then [CHR 92, CHR ''v'']
      else if r < 32 \<or> r = 127 then [CHR 92, CHR ''x''] @ hex_byte r
      else if r < 65536 then [CHR 92, CHR ''u''] @ hex4 r
      else [CHR 92, CHR ''U''] @ hex4 (r div 65536) @ hex4 (r mod 65536))"

definition escape_token :: "(rune \<Rightarrow> bool) \<Rightarrow> string \<Rightarrow> string" where
  "escape_token IsPrint s =
     (let (r, width) = DecodeRune s
      in if width = 1 \<and> r = RuneError then [CHR 92, CHR ''x''] @ hex_byte (of_char (hd s))
         else escape_rune IsPrint r)"

function quote_body :: "(rune \<Rightarrow> bool) \<Rightarrow> string \<Rightarrow> string" where
  "quote_body IsPrint s = (if s = [] then []
     else escape_token IsPrint s @ quote_body IsPrint (drop (snd (DecodeRune s)) s))"
  by pat_completeness auto
termination
  by (relation "measure (\<lambda>(_, s). length s)") (simp_all add: DecodeRune_width)

declare quote_body.simps [simp del]

definition Quote :: "(rune \<Rightarrow> bool) \<Rightarrow> string \<Rightarrow> string" where
  "Quote IsPrint s = [CHR 34] @ quote_body IsPrint s @ [CHR 34]"

section \<open>Reading a quoted string back\<close>

definition hex_of :: "string \<Rightarrow> nat" where
  "hex_of s = fold (\<lambda>c v. 16 * v + hex_value c) s 0"

definition unescape :: "string \<Rightarrow> string \<times> string" where
  "unescape s =
     (case s of
        [] \<Rightarrow> ([], [])
      | c # s1 \<Rightarrow>
          if c \<noteq> CHR 92 then (let w = snd (DecodeRune s) in (take w s, drop w s))
          else (case s1 of
             [] \<Rightarrow> ([], [])
           | k # s2 \<Rightarrow>
               if k = CHR ''x'' then ([char_of (hex_of (take 2 s2))], drop 2 s2)
               else if k = CHR ''u'' then (EncodeRune (hex_of (take 4 s2)), drop 4 s2)
               else if k = CHR ''U'' then (EncodeRune (hex_of (take 8 s2)), drop 8 s2)
               else if k = CHR ''a'' then ([CHR 7], s2)
               else if k = CHR ''b'' then ([CHR 8], s2)
               else if k = CHR ''f'' then ([CHR 12], s2)
               else if k = CHR ''n'' then ([CHR 10], s2)
               else if k = CHR ''r'' then ([CHR 13], s2)
               else if k = CHR ''t'' then ([CHR 9], s2)
               else if k = CHR ''v'' then ([CHR 11], s2)
               else ([k], s2)))"

lemma split_base:
  assumes "n < m * k" "0 < (k :: nat)"
  obtains p q where "n div k = p" "n mod k = q" "n = k * p + q" "p < m" "q < k"
  using assms by (auto simp: less_mult_imp_div_less intro!: that)

lemma hex_byte_value:
  assumes "n < 256"
  shows "fold (\<lambda>c v. 16 * v + hex_value c) (hex_byte n) a = 256 * a + n"
proof -
  obtain p q where "n div 16 = p" "n mod 16 = q" "n = 16 * p + q" "p < 16" "q < 16"
    using assms by (rule_tac split_base [of n 16 16]) simp_all
  then show ?thesis by (simp add: hex_byte_def hex_value_digit)
qed

lemma hex4_value:
  assumes "n < 65536"
  shows "fold (\<lambda>c v. 16 * v + hex_value c) (hex4 n) a = 65536 * a + n"
proof -
  obtain p q where "n div 256 = p" "n mod 256 = q" "n = 256 * p + q" "p < 256" "q < 256"
    using assms by (rule_tac split_base [of n 256 256]) simp_all
  then show ?thesis by (simp add: hex4_def hex_byte_value)
qed

lemma hex_lengths [simp]: "length (hex_byte n) = 2" "length (hex4 n) = 4"
  by (simp_all add: hex_byte_def hex4_def)

lemma hex_of_byte: "n < 256 \<Longrightarrow> hex_of (hex_byte n) = n"
  by (simp add: hex_of_def hex_byte_value)

lemma hex_of_4: "n < 65536 \<Longrightarrow> hex_of (hex4 n) = n"
  by (simp add: hex_of_def hex4_value)

lemma hex_of_8:
  assumes "n < 4294967296"
  shows "hex_of (hex4 (n div 65536) @ hex4 (n mod 65536)) = n"
proof -
  obtain p q where "n div 65536 = p" "n mod 65536 = q" "n = 65536 * p + q" "p < 65536" "q < 65536"
    using assms by (rule_tac split_base [of n 65536 65536]) simp_all
  then show ?thesis by (simp add: hex_of_def hex4_value)
qed

text \<open>A rune that was decoded without an error is encoded by the bytes it was read from.\<close>

lemma encode_two:
  assumes "194 \<le> b0" "b0 < 224" "cont b1"
  shows "EncodeRune ((b0 - 192) * 64 + (b1 - 128)) = [char_of b0, char_of b1]"
proof -
  obtain p q where b: "b0 = 192 + p" "b1 = 128 + q" "2 \<le> p" "p < 32" "q < 64"
    using assms le_Suc_ex [of 192 b0] le_Suc_ex [of 128 b1] by (auto simp: cont_def)
  have "valid_rune (p * 64 + q)" using valid_two [OF assms] b by simp
  with b show ?thesis by (simp add: EncodeRune_def)
qed

lemma encode_three:
  assumes "224 \<le> b0" "b0 < 240" "second_ok b0 b1" "cont b2"
  shows "EncodeRune ((b0 - 224) * 4096 + (b1 - 128) * 64 + (b2 - 128)) = [char_of b0, char_of b1, char_of b2]"
proof -
  have "cont b1" using assms(3) by (auto simp: second_ok_def cont_def split: if_splits)
  then obtain p q t where b: "b0 = 224 + p" "b1 = 128 + q" "b2 = 128 + t" "p < 16" "q < 64" "t < 64"
    using assms(1,2,4) le_Suc_ex [of 224 b0] le_Suc_ex [of 128 b1] le_Suc_ex [of 128 b2] by (auto simp: cont_def)
  have "32 \<le> q" if "p = 0" using assms(3) b that by (simp add: second_ok_def)
  then have lo: "2048 \<le> p * 4096 + q * 64 + t" by (cases p) simp_all
  have v: "valid_rune (p * 4096 + q * 64 + t)" using valid_three [OF assms] b by simp
  have "(p * 4096 + q * 64 + t) div 64 = p * 64 + q"
    using b div_mult_self1 [of 64 t "p * 64 + q"] by (simp add: algebra_simps)
  moreover have "(p * 4096 + q * 64 + t) div 4096 = p"
    using b div_mult_self1 [of 4096 "q * 64 + t" p] by (simp add: algebra_simps)
  moreover have "(p * 4096 + q * 64 + t) mod 64 = t"
    using b mod_mult_self1 [of t "p * 64 + q" 64] by (simp add: algebra_simps)
  ultimately show ?thesis using v lo b by (simp add: EncodeRune_def)
qed

lemma encode_four:
  assumes "240 \<le> b0" "b0 < 245" "second_ok b0 b1" "cont b2" "cont b3"
  shows "EncodeRune ((b0 - 240) * 262144 + (b1 - 128) * 4096 + (b2 - 128) * 64 + (b3 - 128))
     = [char_of b0, char_of b1, char_of b2, char_of b3]"
proof -
  have "cont b1" using assms(3) by (auto simp: second_ok_def cont_def split: if_splits)
  then obtain p q t u where b: "b0 = 240 + p" "b1 = 128 + q" "b2 = 128 + t" "b3 = 128 + u" "p < 5" "q < 64" "t < 64" "u < 64"
    using assms(1,2,4,5) le_Suc_ex [of 240 b0] le_Suc_ex [of 128 b1] le_Suc_ex [of 128 b2] le_Suc_ex [of 128 b3]
    by (auto simp: cont_def)
  have "16 \<le> q" if "p = 0" using assms(3) b that by (simp add: second_ok_def)
  then have lo: "65536 \<le> p * 262144 + q * 4096 + t * 64 + u" by (cases p) simp_all
  have v: "valid_rune (p * 262144 + q * 4096 + t * 64 + u)" using valid_four [OF assms] b by simp
  have "(p * 262144 + q * 4096 + t * 64 + u) div 262144 = p"
    using b div_mult_self1 [of 262144 "q * 4096 + t * 64 + u" p] by (simp add: algebra_simps)
  moreover have "(p * 262144 + q * 4096 + t * 64 + u) div 4096 = p * 64 + q"
    using b div_mult_self1 [of 4096 "t * 64 + u" "p * 64 + q"] by (simp add: algebra_simps)
  moreover have "(p * 262144 + q * 4096 + t * 64 + u) div 64 = p * 4096 + q * 64 + t"
    using b div_mult_self1 [of 64 u "p * 4096 + q * 64 + t"] by (simp add: algebra_simps)
  moreover have "(p * 262144 + q * 4096 + t * 64 + u) mod 64 = u"
    using b mod_mult_self1 [of u "p * 4096 + q * 64 + t" 64] by (simp add: algebra_simps)
  moreover have "(p * 4096 + q * 64 + t) mod 64 = t"
    using b mod_mult_self1 [of t "p * 64 + q" 64] by (simp add: algebra_simps)
  ultimately show ?thesis using v lo b by (simp add: EncodeRune_def)
qed

lemma take_Cons_iff:
  "take 3 ys = z # zs \<longleftrightarrow> (\<exists>ys'. ys = z # ys' \<and> zs = take 2 ys')"
  "take 2 ys = z # zs \<longleftrightarrow> (\<exists>ys'. ys = z # ys' \<and> zs = take 1 ys')"
  "take (Suc 0) ys = z # zs \<longleftrightarrow> (\<exists>ys'. ys = z # ys' \<and> zs = [])"
  "z # zs = take 2 ys \<longleftrightarrow> (\<exists>ys'. ys = z # ys' \<and> zs = take 1 ys')"
  "z # zs = take (Suc 0) ys \<longleftrightarrow> (\<exists>ys'. ys = z # ys' \<and> zs = [])"
  by (cases ys; auto)+

lemma EncodeRune_DecodeRune:
  assumes "DecodeRune s = (r, w)" "s \<noteq> []" "\<not> (w = 1 \<and> r = RuneError)"
  shows "EncodeRune r = take w s"
  using assms unfolding DecodeRune_def
  by (auto simp: encode_two encode_three encode_four EncodeRune_def [of "byte _"] valid_rune_def RuneError_def
      neq_Nil_conv take_Cons_iff split: if_splits list.splits)

lemma RuneError_byte:
  assumes "DecodeRune s = (RuneError, 1)" "s \<noteq> []"
  shows "take 1 s = [hd s]" "128 \<le> (of_char (hd s) :: nat)"
  using assms by (auto simp: DecodeRune_def RuneError_def neq_Nil_conv split: if_splits list.splits)

lemma char_of_codes: "char_of (34 :: nat) = CHR 34" "char_of (92 :: nat) = CHR 92" "char_of (7 :: nat) = CHR 7"
  "char_of (8 :: nat) = CHR 8" "char_of (9 :: nat) = CHR 9" "char_of (10 :: nat) = CHR 10"
  "char_of (11 :: nat) = CHR 11" "char_of (12 :: nat) = CHR 12" "char_of (13 :: nat) = CHR 13"
  by code_simp+

lemma EncodeRune_head:
  assumes "valid_rune r" "r \<noteq> k" "k < 128"
  shows "\<exists>c t. EncodeRune r = c # t \<and> c \<noteq> char_of k"
proof (cases "r < 128")
  case True
  have "char_of r \<noteq> (char_of k :: char)"
  proof
    assume "char_of r = (char_of k :: char)"
    then have "byte (char_of r) = byte (char_of k)" by simp
    with True assms show False by simp
  qed
  with assms(1) show ?thesis using True by (simp add: EncodeRune_def)
next
  case False
  have v: "valid_rune r" by (rule assms(1))
  then have "r < 1114112" by (auto simp: valid_rune_def)
  have big: "char_of b \<noteq> (char_of k :: char)" if "128 \<le> b" "b < 256" for b :: nat
  proof
    assume "char_of b = (char_of k :: char)"
    then have "byte (char_of b) = byte (char_of k)" by simp
    with that assms(3) show False by simp
  qed
  have "r < 2048 \<Longrightarrow> r div 64 < 32" "r < 65536 \<Longrightarrow> r div 4096 < 16" "r div 262144 < 16"
    using \<open>r < 1114112\<close> by (simp_all add: less_mult_imp_div_less)
  with big [of "192 + r div 64"] big [of "224 + r div 4096"] big [of "240 + r div 262144"]
  show ?thesis using False v unfolding EncodeRune_def Let_def
    by (cases "r < 2048"; cases "r < 65536") (auto simp del: char_of_eq_iff)
qed

lemma unescape_raw:
  assumes "valid_rune r" "r \<noteq> 92"
  shows "unescape (EncodeRune r @ t) = (EncodeRune r, t)"
proof -
  obtain c u where "EncodeRune r = c # u" "c \<noteq> CHR 92" using EncodeRune_head [of r 92] assms by (auto simp: char_of_codes)
  then show ?thesis using DecodeRune_EncodeRune [OF assms(1), of t] by (simp add: unescape_def Let_def)
qed

lemma unescape_rune:
  assumes "valid_rune r"
  shows "unescape (escape_rune P r @ t) = (EncodeRune r, t)"
proof -
  have ascii: "EncodeRune r = [char_of r]" if "r < 128" for r
    using that by (simp add: EncodeRune_def valid_rune_def)
  have "r < 1114112" using assms by (auto simp: valid_rune_def)
  then have eight: "hex_of (hex4 (r div 65536) @ hex4 (r mod 65536)) = r" by (simp add: hex_of_8)
  consider "r = 34 \<or> r = 92" | "r \<noteq> 34" "r \<noteq> 92" "P r"
    | "\<not> P r" "r \<noteq> 34" "r \<noteq> 92" "r \<in> {7, 8, 9, 10, 11, 12, 13}"
    | "\<not> P r" "r \<noteq> 34" "r \<noteq> 92" "r \<notin> {7, 8, 9, 10, 11, 12, 13}" by blast
  then show ?thesis
  proof cases
    case 1
    then show ?thesis using ascii by (elim disjE) (simp_all add: escape_rune_def unescape_def char_of_codes)
  next
    case 2
    then show ?thesis using assms by (simp add: escape_rune_def unescape_raw)
  next
    case 3
    then show ?thesis using ascii
      by (elim insertE emptyE) (simp_all add: escape_rune_def unescape_def char_of_codes)
  next
    case 4
    then show ?thesis using ascii eight
      by (simp add: escape_rune_def unescape_def hex_of_byte hex_of_4)
  qed
qed

lemma unescape_token:
  assumes "s \<noteq> []"
  shows "unescape (escape_token P s @ t) = (take (snd (DecodeRune s)) s, t)"
proof -
  obtain r w where d: "DecodeRune s = (r, w)" by fastforce
  have v: "valid_rune r" using DecodeRune_valid [of s] d by simp
  show ?thesis
  proof (cases "w = 1 \<and> r = RuneError")
    case True
    then show ?thesis using RuneError_byte [of s] assms d
      by (simp add: escape_token_def unescape_def hex_of_byte char_code_less)
  next
    case False
    then show ?thesis using EncodeRune_DecodeRune [OF d assms False] d v
      by (auto simp: escape_token_def unescape_rune)
  qed
qed

lemma escape_not_quote:
  assumes "s \<noteq> []"
  shows "hd (escape_token P s) \<noteq> CHR 34 \<and> escape_token P s \<noteq> []"
proof -
  obtain r w where d: "DecodeRune s = (r, w)" by fastforce
  have v: "valid_rune r" using DecodeRune_valid [of s] d by simp
  have "hd (EncodeRune r) \<noteq> CHR 34 \<and> EncodeRune r \<noteq> []" if "r \<noteq> 34"
    using EncodeRune_head [OF v that] by (auto simp: char_of_codes)
  then show ?thesis using d by (auto simp: escape_token_def escape_rune_def)
qed

lemma quote_body_inject:
  assumes "quote_body P s @ CHR 34 # t = quote_body P s' @ CHR 34 # t'"
  shows "s = s' \<and> t = t'"
  using assms
proof (induction P s arbitrary: s' rule: quote_body.induct)
  case (1 P s)
  have nil: "quote_body P [] = []" by (simp add: quote_body.simps)
  have step: "quote_body P u = escape_token P u @ quote_body P (drop (snd (DecodeRune u)) u)" if "u \<noteq> []" for u
    using that by (subst quote_body.simps) simp
  have quote: "quote_body P u @ x \<noteq> CHR 34 # y" if "u \<noteq> []" for u x y
    using escape_not_quote [OF that, of P] that step [OF that] by (cases "escape_token P u") auto
  show ?case
  proof (cases "s = [] \<or> s' = []")
    case True
    then show ?thesis using "1.prems" quote [of s] quote [of s'] by (metis append_Nil list.inject nil)
  next
    case False
    let ?w = "snd (DecodeRune s)" and ?w' = "snd (DecodeRune s')"
    have "unescape (escape_token P s @ (quote_body P (drop ?w s) @ CHR 34 # t))
        = unescape (escape_token P s' @ (quote_body P (drop ?w' s') @ CHR 34 # t'))"
      using "1.prems" False step by simp
    then have "take ?w s = take ?w' s'"
      "quote_body P (drop ?w s) @ CHR 34 # t = quote_body P (drop ?w' s') @ CHR 34 # t'"
      using False by (simp_all add: unescape_token)
    then show ?thesis using "1.IH" False by (metis append_take_drop_id)
  qed
qed

lemma Quote_inject:
  assumes "Quote P s @ t = Quote P s' @ t'"
  shows "s = s' \<and> t = t'"
  using assms quote_body_inject [of P s t s' t'] by (simp add: Quote_def)

end
