(* ===== verification/Ephemeris_State.thy ===== *)
theory Ephemeris_State
  imports Go_Quote Go_Sha256 Gp_Fetcher Pass_Predictor Ephemeris_Freshness Ground_Station
begin

text \<open>
  The state of the SatelliteEphemeris controller
  (\<open>internal/controller/satelliteephemeris_controller.go\<close>): the reconciler with its fetchers and its
  cache of fetched element sets, the answers one reconcile receives, the effects it has, the keys and
  digests of the inputs, the clamp of the refresh interval, the status write, and the fetch backoff.

  One reconcile is one step: controller-runtime never runs two reconciles of the same object at once,
  the cache is a \<open>sync.Map\<close> keyed by the object, and the Space-Track fetcher serializes its sessions.
  The record \<open>eph_io\<close> holds what the API server, the resolver, the HTTP servers and the clock answer
  during the reconcile; the clock is read at several places and may advance between them.
\<close>

section \<open>Conditions and constants\<close>

definition ConditionGPDataFetched :: string where "ConditionGPDataFetched = ''GPDataFetched''"
definition ConditionGPDataParsed :: string where "ConditionGPDataParsed = ''GPDataParsed''"
definition ConditionStatesTruncated :: string where "ConditionStatesTruncated = ''StatesTruncated''"
definition ConditionUnsupportedOrbitRegime :: string where
  "ConditionUnsupportedOrbitRegime = ''UnsupportedOrbitRegime''"
definition ConditionEphemerisEpochStale :: string where "ConditionEphemerisEpochStale = ''EphemerisEpochStale''"
definition ConditionSourceEpochRejected :: string where "ConditionSourceEpochRejected = ''SourceEpochRejected''"
definition ConditionPropagationFailed :: string where "ConditionPropagationFailed = ''PropagationFailed''"
definition ConditionRefreshIntervalClamped :: string where
  "ConditionRefreshIntervalClamped = ''RefreshIntervalClamped''"

lemmas eph_condition_names = ConditionGPDataFetched_def ConditionGPDataParsed_def ConditionStatesTruncated_def
  ConditionUnsupportedOrbitRegime_def ConditionEphemerisEpochStale_def ConditionSourceEpochRejected_def
  ConditionPropagationFailed_def ConditionRefreshIntervalClamped_def ConditionPassesPredicted_def

definition minRefreshInterval :: duration where "minRefreshInterval = 2 * hour"
definition maxRefreshInterval :: duration where "maxRefreshInterval = 24 * hour"
definition maxPropagatedStates :: nat where "maxPropagatedStates = 128"
definition propagationEpochLead :: duration where "propagationEpochLead = 5 * minute"
definition propagationRefreshInterval :: duration where "propagationRefreshInterval = 3 * minute"
definition maxAuthRetryBackoff :: duration where "maxAuthRetryBackoff = 15 * minute"

definition reasonCachedOMMs :: string where "reasonCachedOMMs = ''CachedOMMs''"
definition reasonFetchFailedServingCache :: string where
  "reasonFetchFailedServingCache = ''FetchFailedServingCache''"
definition reasonSetupFailedServingCache :: string where
  "reasonSetupFailedServingCache = ''FetcherSetupFailedServingCache''"

section \<open>The reconciler\<close>

record cachedFetch =
  cf_result :: GPFetchResult
  cf_fetchKey :: string
  cf_uid :: UID
  nextFetchAttempt :: time
  lastFetchErr :: "gerror option"
  fetchFailures :: int
  cf_retryKey :: msg

text \<open>The fields of \<open>SatelliteEphemerisReconciler\<close> that change or may be nil.\<close>

record EphemerisReconciler =
  rec_Fetcher :: "CelesTrakFetcher option"
  rec_SpaceTrack :: "SpaceTrackFetcher option"
  rec_ommCache :: "NamespacedName \<rightharpoonup> cachedFetch"

record ConfigMap =
  cm_Meta :: ObjectMeta
  cm_Data :: "string \<rightharpoonup> string"
  cm_Owner :: "UID option"

datatype create_answer = Created | AlreadyExists | CreateFailed gerror

record eph_io =
  eio_get :: "SatelliteEphemeris get"
  eio_now :: time
  eio_now_backoff :: time
  eio_now_prop :: time
  eio_now_sweep :: time
  eio_now_restore :: time
  eio_secret :: "NamespacedName \<Rightarrow> (string \<rightharpoonup> string) result"
  eio_fetch :: fetch_env
  eio_ParseURL :: "string \<Rightarrow> URL result"
  eio_LookupIP :: "string \<Rightarrow> IP list result"
  eio_IPString :: "IP \<Rightarrow> string"
  eio_restore_get :: "NamespacedName \<Rightarrow> ConfigMap get"
  eio_persist_get :: "NamespacedName \<Rightarrow> ConfigMap get"
  eio_SetControllerReference :: "SatelliteEphemeris \<Rightarrow> ConfigMap \<Rightarrow> ConfigMap result"
  eio_Create :: "ConfigMap \<Rightarrow> create_answer"
  eio_Update :: "ConfigMap \<Rightarrow> gerror option"
  eio_Marshal :: "OMM list \<Rightarrow> string result"
  eio_station_sig :: "string \<Rightarrow> GroundStationLifecycle get"
  eio_station :: "string \<Rightarrow> GroundStationLifecycle get"
  eio_schedule :: "pool_event list"
  eio_writeA :: "gerror option"
  eio_writeB :: "gerror option"
  eio_recorder :: bool

text \<open>What a reconcile does: metrics, reads of a credential Secret, calls of a fetcher, writes of the
  cache ConfigMap, status writes with their success, and events.\<close>

datatype eph_effect =
    DeleteSeries NamespacedName
  | Gauge string NamespacedName int
  | Counter string NamespacedName string
  | ObserveFetch string string
  | ReadSecret NamespacedName
  | CallFetch string
  | CreateCM ConfigMap
  | UpdateCM ConfigMap
  | WriteStatus SatelliteEphemeris bool
  | EphEvent string string string msg

section \<open>The resource\<close>

abbreviation eph_Key :: "SatelliteEphemeris \<Rightarrow> NamespacedName" where
  "eph_Key eph \<equiv> ObjectKeyFromObject (eph_Meta eph)"

abbreviation eph_Generation :: "SatelliteEphemeris \<Rightarrow> int" where
  "eph_Generation eph \<equiv> om_Generation (eph_Meta eph)"

abbreviation eph_UID :: "SatelliteEphemeris \<Rightarrow> UID" where
  "eph_UID eph \<equiv> om_UID (eph_Meta eph)"

abbreviation eph_Conds :: "SatelliteEphemeris \<Rightarrow> Condition list" where
  "eph_Conds eph \<equiv> eph_Conditions (eph_Status eph)"

definition eph_map :: "(SatelliteEphemerisStatus \<Rightarrow> SatelliteEphemerisStatus) \<Rightarrow> SatelliteEphemeris
    \<Rightarrow> SatelliteEphemeris" where
  "eph_map f eph = eph\<lparr>eph_Status := f (eph_Status eph)\<rparr>"

definition eph_set_cond :: "meta_api \<Rightarrow> string \<Rightarrow> ConditionStatus \<Rightarrow> string \<Rightarrow> msg \<Rightarrow> SatelliteEphemeris
    \<Rightarrow> SatelliteEphemeris" where
  "eph_set_cond M t s r m eph = eph_map (\<lambda>st. st\<lparr>eph_Conditions :=
     SetStatusCondition M (eph_Conditions st) (mkCond t s r m (eph_Generation eph))\<rparr>) eph"

text \<open>\<open>spec.satellites.noradIDs\<close>, empty when the selector is unset.\<close>

definition trackedNorad :: "SatelliteEphemerisSpec \<Rightarrow> int list" where
  "trackedNorad spec = (case Satellites spec of Some s \<Rightarrow> NoradIDs s | None \<Rightarrow> [])"

section \<open>Keys and digests\<close>

definition fetchInputKey :: "(rune \<Rightarrow> bool) \<Rightarrow> SatelliteEphemerisSpec \<Rightarrow> string" where
  "fetchInputKey IsPrint spec = ''type='' @ Quote IsPrint (src_Type (Source spec))
     @ '' url='' @ Quote IsPrint (src_URL (Source spec))"

definition retryInputKey :: "SatelliteEphemerisSpec \<Rightarrow> duration \<Rightarrow> msg" where
  "retryInputKey spec effectiveInterval =
     (let (credName, credKey) = (case Credentials (Source spec) of
            Some c \<Rightarrow> (sr_Name c, sr_Key c) | None \<Rightarrow> ('''', ''''))
      in [Lit ''cred='', Quoted credName, Lit ''/'', Quoted credKey, Lit '' interval='', Dur effectiveInterval])"

text \<open>\<open>sort.Ints\<close> and \<open>slices.Compact\<close>, and the verb \<open>%v\<close> of a slice of integers.\<close>

definition canonicalNorad :: "int list \<Rightarrow> int list" where
  "canonicalNorad norad = remdups_adj (sort norad)"

definition fmt_ints :: "int list \<Rightarrow> string" where
  "fmt_ints xs = ''['' @ Join (map Itoa xs) '' '' @ '']''"

definition nl :: string where "nl = [CHR 10]"

definition propagation_text :: "(rune \<Rightarrow> bool) \<Rightarrow> SatelliteEphemerisSpec \<Rightarrow> string" where
  "propagation_text IsPrint spec = ''type='' @ Quote IsPrint (src_Type (Source spec)) @ nl
     @ ''url='' @ Quote IsPrint (src_URL (Source spec)) @ nl
     @ ''norad='' @ fmt_ints (canonicalNorad (trackedNorad spec)) @ nl"

definition propagationInputHash :: "(rune \<Rightarrow> bool) \<Rightarrow> SatelliteEphemerisSpec \<Rightarrow> string" where
  "propagationInputHash IsPrint spec = EncodeToString (Sum256 (propagation_text IsPrint spec))"

section \<open>The refresh interval\<close>

record clampWarn =
  cw_reason :: string
  cw_msg :: msg

definition no_warn :: clampWarn where "no_warn = \<lparr>cw_reason = '''', cw_msg = []\<rparr>"

definition clampRefreshInterval :: "meta_api \<Rightarrow> SatelliteEphemeris \<Rightarrow> duration \<times> clampWarn \<times> SatelliteEphemeris" where
  "clampRefreshInterval M eph =
     (let raw = RefreshInterval (Source (eph_Spec eph));
          (effectiveInterval, clampReason, clampMsg) =
            (if raw < minRefreshInterval
             then (minRefreshInterval, ''BelowMinimum'', [Lit ''refreshInterval '', Dur raw, Lit '' is below minimum 2h; using 2h''])
             else if raw > maxRefreshInterval
             then (maxRefreshInterval, ''AboveMaximum'', [Lit ''refreshInterval '', Dur raw,
                     Lit '' exceeds maximum 24h; using 24h to keep the element set fresh''])
             else (raw, '''', []))
      in if clampReason = ''''
         then (effectiveInterval, no_warn, eph_set_cond M ConditionRefreshIntervalClamped ConditionFalse ''WithinBounds''
                 [Lit ''Configured refreshInterval is within the supported range [2h, 24h]''] eph)
         else
           (let clampEpisode = conditionEpisodeChanged
                  (FindStatusCondition M (eph_Conds eph) ConditionRefreshIntervalClamped)
                  ConditionTrue clampReason (eph_Generation eph)
            in (effectiveInterval,
                if clampEpisode then \<lparr>cw_reason = clampReason, cw_msg = clampMsg\<rparr> else no_warn,
                eph_set_cond M ConditionRefreshIntervalClamped ConditionTrue clampReason clampMsg eph)))"

text \<open>\<open>persistEphStatus\<close>: \<open>answer\<close> is what \<open>Status().Update\<close> returns. The result holds the effects, the
  warning that is still pending, and the error.\<close>

definition persistEphStatus :: "gerror option \<Rightarrow> bool \<Rightarrow> SatelliteEphemeris \<Rightarrow> clampWarn
    \<Rightarrow> eph_effect list \<times> clampWarn \<times> gerror option" where
  "persistEphStatus answer recorder eph clamp =
     (case answer of
        Some err \<Rightarrow> ([WriteStatus eph False], clamp, Some err)
      | None \<Rightarrow>
          if cw_reason clamp \<noteq> '''' \<and> recorder
          then ([WriteStatus eph True,
                 EphEvent ''Warning'' ''RefreshIntervalClamped'' (cw_reason clamp) (cw_msg clamp)], no_warn, None)
          else ([WriteStatus eph True], clamp, None))"

section \<open>The fetch backoff\<close>

definition retryAfterFrom :: "gerror \<Rightarrow> duration" where
  "retryAfterFrom err =
     (case List.map_filter (\<lambda>s. case s of RateLimit d \<Rightarrow> Some d | _ \<Rightarrow> None) (err_is err) of
        d # _ \<Rightarrow> d | [] \<Rightarrow> 0)"

text \<open>The exponent is at most 10, so the shift does not leave the 64-bit range.\<close>

definition fetchRetryDelay :: "gerror \<Rightarrow> duration \<Rightarrow> int \<Rightarrow> duration" where
  "fetchRetryDelay fetchErr effectiveInterval failures =
     (if is_RateLimited fetchErr then max effectiveInterval (retryAfterFrom fetchErr)
      else if errors_Is fetchErr ErrAuthFailed then min effectiveInterval maxAuthRetryBackoff
      else (let shift = min (max (failures - 1) 0) 10 in min (minute * 2 ^ nat shift) effectiveInterval))"

datatype fetchErrClass = fetchErrTransient | fetchErrRateLimited | fetchErrAuth

definition classifyFetchErrClass :: "gerror option \<Rightarrow> fetchErrClass" where
  "classifyFetchErrClass err =
     (case err of
        None \<Rightarrow> fetchErrTransient
      | Some e \<Rightarrow> if is_RateLimited e then fetchErrRateLimited
                  else if errors_Is e ErrAuthFailed then fetchErrAuth
                  else fetchErrTransient)"

definition applyFetchBackoff :: "cachedFetch \<Rightarrow> gerror \<Rightarrow> msg \<Rightarrow> duration \<Rightarrow> time \<Rightarrow> cachedFetch" where
  "applyFetchBackoff c fetchErr newRetryKey effectiveInterval now =
     (let base = (if newRetryKey \<noteq> cf_retryKey c
                     \<or> classifyFetchErrClass (Some fetchErr) \<noteq> classifyFetchErrClass (lastFetchErr c)
                  then 0 else fetchFailures c);
          n = base + 1
      in c\<lparr>fetchFailures := n, nextFetchAttempt := time_Add now (fetchRetryDelay fetchErr effectiveInterval n),
           lastFetchErr := Some fetchErr, cf_retryKey := newRetryKey\<rparr>)"

definition classifyFetchError :: "gerror \<Rightarrow> duration \<Rightarrow> string \<times> duration \<times> bool" where
  "classifyFetchError fetchErr effectiveInterval =
     (if is_RateLimited fetchErr then (''RateLimited'', max effectiveInterval (retryAfterFrom fetchErr), False)
      else if errors_Is fetchErr ErrAuthFailed then (''AuthFailed'', effectiveInterval, False)
      else if errors_Is fetchErr ErrInvalidSourceURL then (''InvalidSourceURL'', effectiveInterval, False)
      else (''FetchFailed'', 0, True))"

section \<open>The cache\<close>

datatype cacheServeReason = cacheServeNone | cacheServeWindow cachedFetch | cacheServeBackoff cachedFetch

definition cachedOMMResult :: "EphemerisReconciler \<Rightarrow> NamespacedName \<Rightarrow> cachedFetch option" where
  "cachedOMMResult r key = rec_ommCache r key"

definition matchingCache :: "(rune \<Rightarrow> bool) \<Rightarrow> EphemerisReconciler \<Rightarrow> NamespacedName \<Rightarrow> SatelliteEphemeris
    \<Rightarrow> cachedFetch option" where
  "matchingCache IsPrint r key eph =
     (case cachedOMMResult r key of
        None \<Rightarrow> None
      | Some c \<Rightarrow> if cf_fetchKey c \<noteq> fetchInputKey IsPrint (eph_Spec eph) \<or> cf_uid c \<noteq> eph_UID eph then None else Some c)"

definition cacheServe :: "(rune \<Rightarrow> bool) \<Rightarrow> EphemerisReconciler \<Rightarrow> NamespacedName \<Rightarrow> SatelliteEphemeris \<Rightarrow> time
    \<Rightarrow> duration \<Rightarrow> cacheServeReason" where
  "cacheServe IsPrint r key eph now effectiveInterval =
     (case matchingCache IsPrint r key eph of
        None \<Rightarrow> cacheServeNone
      | Some c \<Rightarrow>
          if time_Sub now (FetchedAt (cf_result c)) < effectiveInterval then cacheServeWindow c
          else if now < nextFetchAttempt c \<and> cf_retryKey c = retryInputKey (eph_Spec eph) effectiveInterval
          then cacheServeBackoff c
          else cacheServeNone)"

section \<open>Lemmas\<close>

lemma eph_map_simps [simp]:
  "eph_Meta (eph_map f eph) = eph_Meta eph" "eph_Spec (eph_map f eph) = eph_Spec eph"
  "eph_Status (eph_map f eph) = f (eph_Status eph)"
  by (simp_all add: eph_map_def)

lemma eph_set_cond_simps [simp]:
  "eph_Meta (eph_set_cond M t s r m eph) = eph_Meta eph" "eph_Spec (eph_set_cond M t s r m eph) = eph_Spec eph"
  "eph_Status (eph_set_cond M t s r m eph) = (eph_Status eph)\<lparr>eph_Conditions :=
     SetStatusCondition M (eph_Conds eph) (mkCond t s r m (eph_Generation eph))\<rparr>"
  by (simp_all add: eph_set_cond_def)

text \<open>The effective refresh interval is the configured one, brought into the range of 2 to 24 hours.\<close>

lemma clamp_interval:
  assumes "clampRefreshInterval M eph = (i, w, eph')"
  shows "i = max (2 * hour) (min (24 * hour) (RefreshInterval (Source (eph_Spec eph))))"
    "eph_Meta eph' = eph_Meta eph" "eph_Spec eph' = eph_Spec eph"
    "eph_Status eph' = (eph_Status eph)\<lparr>eph_Conditions := eph_Conds eph'\<rparr>"
  using assms by (auto simp: clampRefreshInterval_def minRefreshInterval_def maxRefreshInterval_def Let_def split: if_splits)

section \<open>Keys identify their inputs\<close>

lemma fetchInputKey_exact:
  "fetchInputKey P a = fetchInputKey P b \<longleftrightarrow>
     src_Type (Source a) = src_Type (Source b) \<and> src_URL (Source a) = src_URL (Source b)"
proof
  assume "fetchInputKey P a = fetchInputKey P b"
  then have "Quote P (src_Type (Source a)) @ '' url='' @ Quote P (src_URL (Source a))
      = Quote P (src_Type (Source b)) @ '' url='' @ Quote P (src_URL (Source b))"
    by (simp add: fetchInputKey_def)
  from Quote_inject [OF this] have "src_Type (Source a) = src_Type (Source b)"
    "Quote P (src_URL (Source a)) @ [] = Quote P (src_URL (Source b)) @ []" by simp_all
  then show "src_Type (Source a) = src_Type (Source b) \<and> src_URL (Source a) = src_URL (Source b)"
    using Quote_inject by blast
qed (simp add: fetchInputKey_def)

lemma Itoa_not_bracket: "Itoa i @ s \<noteq> CHR '']'' # t"
  using Itoa_chars [of "hd (Itoa i)" i] dec_nat_digits
  by (cases "Itoa i") (auto simp: Itoa_def is_digit_def split: if_splits)

lemma Join_Itoa_inject:
  "Join (map Itoa xs) '' '' @ CHR '']'' # s = Join (map Itoa ys) '' '' @ CHR '']'' # t \<Longrightarrow> xs = ys \<and> s = t"
proof (induction xs arbitrary: ys)
  case Nil
  then show ?case using Itoa_not_bracket
    by (cases ys rule: remdups_adj.cases) (simp_all, (metis append_assoc)+)
next
  case (Cons x xs)
  have step: "Join (map Itoa (z # zs)) '' '' @ CHR '']'' # u = Itoa z @ (if zs = [] then CHR '']'' # u
      else CHR '' '' # Join (map Itoa zs) '' '' @ CHR '']'' # u)" for z zs u
    by (cases zs) simp_all
  have "ys \<noteq> []" using Cons.prems Itoa_not_bracket unfolding step by auto
  then obtain y ys' where ys: "ys = y # ys'" by (cases ys) auto
  have sep: "\<not> is_digit (CHR '']'')" "\<not> is_digit (CHR '' '')" by (simp_all add: is_digit_def)
  have "x = y \<and> (if xs = [] then CHR '']'' # s else CHR '' '' # Join (map Itoa xs) '' '' @ CHR '']'' # s)
      = (if ys' = [] then CHR '']'' # t else CHR '' '' # Join (map Itoa ys') '' '' @ CHR '']'' # t)"
    using Cons.prems unfolding ys step using sep
    by (cases "xs = []"; cases "ys' = []") (auto dest: Itoa_append)
  then show ?case using Cons.IH [of ys'] ys by (auto split: if_splits)
qed

lemma fmt_ints_inject: "fmt_ints xs @ s = fmt_ints ys @ t \<Longrightarrow> xs = ys \<and> s = t"
  using Join_Itoa_inject [of xs s ys t] by (simp add: fmt_ints_def)

lemma canonicalNorad_eq: "canonicalNorad xs = canonicalNorad ys \<longleftrightarrow> set xs = set ys"
proof
  assume "canonicalNorad xs = canonicalNorad ys"
  then have "set (remdups_adj (sort xs)) = set (remdups_adj (sort ys))" by (simp add: canonicalNorad_def)
  then show "set xs = set ys" by simp
next
  have "remdups_adj (sort zs) = sorted_list_of_set (set zs)" for zs :: "int list"
  proof -
    have "sorted ws \<Longrightarrow> distinct (remdups_adj ws)" for ws :: "int list"
      by (induction ws rule: remdups_adj.induct) auto
    then have "distinct (remdups_adj (sort zs))" "sorted (remdups_adj (sort zs))"
      by (simp_all add: sorted_remdups_adj)
    then show ?thesis using sorted_list_of_set.idem_if_sorted_distinct [of "remdups_adj (sort zs)"] by simp
  qed
  then show "set xs = set ys \<Longrightarrow> canonicalNorad xs = canonicalNorad ys" by (simp add: canonicalNorad_def)
qed

lemma hex_encode_inject:
  assumes "EncodeToString xs = EncodeToString ys" "\<forall>b\<in>set xs. b < 256" "\<forall>b\<in>set ys. b < 256"
  shows "xs = ys"
  using assms
proof (induction xs arbitrary: ys)
  case (Cons x xs)
  then obtain y ys' where ys: "ys = y # ys'" by (cases ys) (auto simp: EncodeToString_def)
  have inj: "Go_Sha256.hex_digit p = Go_Sha256.hex_digit q \<Longrightarrow> p < 16 \<Longrightarrow> q < 16 \<Longrightarrow> p = q" for p q
    unfolding Go_Sha256.hex_digit_def by (subst (asm) nth_eq_iff_index_eq) simp_all
  have "x div 16 = y div 16" "x mod 16 = y mod 16" "EncodeToString xs = EncodeToString ys'"
    using Cons.prems ys inj by (auto simp: EncodeToString_def less_mult_imp_div_less)
  then have "x = y" by (metis div_mult_mod_eq)
  with Cons ys \<open>EncodeToString xs = EncodeToString ys'\<close> show ?case by simp
qed (simp add: EncodeToString_def)

lemma propagation_text_exact:
  "propagation_text P a = propagation_text P b \<longleftrightarrow>
     src_Type (Source a) = src_Type (Source b) \<and> src_URL (Source a) = src_URL (Source b)
     \<and> set (trackedNorad a) = set (trackedNorad b)"
proof
  assume "propagation_text P a = propagation_text P b"
  then have "Quote P (src_Type (Source a)) @ nl @ ''url='' @ Quote P (src_URL (Source a)) @ nl
     @ ''norad='' @ fmt_ints (canonicalNorad (trackedNorad a)) @ nl
   = Quote P (src_Type (Source b)) @ nl @ ''url='' @ Quote P (src_URL (Source b)) @ nl
     @ ''norad='' @ fmt_ints (canonicalNorad (trackedNorad b)) @ nl" by (simp add: propagation_text_def)
  from Quote_inject [OF this] have t: "src_Type (Source a) = src_Type (Source b)"
    and "Quote P (src_URL (Source a)) @ nl @ ''norad='' @ fmt_ints (canonicalNorad (trackedNorad a)) @ nl
      = Quote P (src_URL (Source b)) @ nl @ ''norad='' @ fmt_ints (canonicalNorad (trackedNorad b)) @ nl"
    by simp_all
  from Quote_inject [OF this(2)] have "src_URL (Source a) = src_URL (Source b)"
    "fmt_ints (canonicalNorad (trackedNorad a)) @ nl = fmt_ints (canonicalNorad (trackedNorad b)) @ nl" by simp_all
  with t fmt_ints_inject show "src_Type (Source a) = src_Type (Source b) \<and> src_URL (Source a) = src_URL (Source b)
     \<and> set (trackedNorad a) = set (trackedNorad b)" by (auto simp flip: canonicalNorad_eq)
qed (simp add: propagation_text_def canonicalNorad_eq [symmetric])

text \<open>The propagation digest identifies the propagation inputs. Two specs have the same digest exactly
  if they have the same source type, the same URL and select the same set of satellites, in any order
  and with any repetitions; no choice of URL forges the digest of another spec. Specs with equal digests
  therefore select the same element sets from any response. The hypothesis is that SHA-256 does not
  collide on the two texts that are hashed.\<close>

theorem propagation_inputs_exact:
  assumes "Sum256 (propagation_text P a) = Sum256 (propagation_text P b) \<Longrightarrow> propagation_text P a = propagation_text P b"
  shows "(propagationInputHash P a = propagationInputHash P b \<longleftrightarrow>
       src_Type (Source a) = src_Type (Source b) \<and> src_URL (Source a) = src_URL (Source b)
       \<and> set (trackedNorad a) = set (trackedNorad b))
     \<and> (propagationInputHash P a = propagationInputHash P b \<longrightarrow>
          FilterOMMs omms (trackedNorad a) = FilterOMMs omms (trackedNorad b))"
proof -
  have "propagationInputHash P a = propagationInputHash P b \<longleftrightarrow> propagation_text P a = propagation_text P b"
    using assms hex_encode_inject [of "Sum256 (propagation_text P a)" "Sum256 (propagation_text P b)"] Sum256_bytes
    by (auto simp: propagationInputHash_def)
  then show ?thesis by (auto simp: propagation_text_exact FilterOMMs_def)
qed

section \<open>Examples\<close>

definition iss :: OMM where "iss = demo_omm 25544 ''ISS''"

lemma iss_valid: "validOMM iss = None"
  by (simp add: iss_def demo_omm_def validOMM_None_iff)

definition iss_lib :: "unit sgp4_api" where
  "iss_lib = (demo_sgp4 (Fin 7000) (\<lambda>_. Fin 0) [])\<lparr>ParseOMMs := (\<lambda>_. Inr [iss])\<rparr>"

definition demo_eph :: SatelliteEphemeris where
  "demo_eph = \<lparr>eph_Meta = \<lparr>om_Name = ''leo'', om_Namespace = ''ntn'', om_UID = ''u-1'', om_Generation = 1,
       om_DeletionTimestamp = None, om_Finalizers = [], om_Annotations = Map.empty, om_Labels = Map.empty\<rparr>,
     eph_Spec = \<lparr>Source = \<lparr>src_Type = ''CelesTrak'', src_URL = ''u'', RefreshInterval = 2 * hour, Credentials = None\<rparr>,
       Satellites = None, PassPrediction = None\<rparr>,
     eph_Status = \<lparr>PropagatedStatesInputHash = '''', LastUpdated = None, LastPassPredictionTime = None,
       LastPassPredictionInputHash = '''', SatelliteCount = 0, TruncatedSatelliteCount = 0,
       NextPassWindows = [], PropagatedStates = [], eph_Conditions = []\<rparr>\<rparr>"

text \<open>Answers at a given time: a source that returns the body, no ConfigMap, and writes that succeed.\<close>

definition demo_io :: "time \<Rightarrow> SatelliteEphemeris \<Rightarrow> eph_io" where
  "demo_io t eph = \<lparr>eio_get = Found eph, eio_now = t, eio_now_backoff = t, eio_now_prop = t, eio_now_sweep = t,
     eio_now_restore = t, eio_secret = (\<lambda>_. Inr Map.empty), eio_fetch = demo_fetch_env body_answer,
     eio_ParseURL = (\<lambda>_. Inr \<lparr>Scheme = ''https'', User = False, Hostname = ''celestrak.org''\<rparr>),
     eio_LookupIP = (\<lambda>_. Inr []), eio_IPString = (\<lambda>_. ''''), eio_restore_get = (\<lambda>_. NotFound),
     eio_persist_get = (\<lambda>_. NotFound),
     eio_SetControllerReference = (\<lambda>eph cm. Inr (cm\<lparr>cm_Owner := Some (eph_UID eph)\<rparr>)),
     eio_Create = (\<lambda>_. Created), eio_Update = (\<lambda>_. None),
     eio_Marshal = (\<lambda>omms. if omms = [iss] then Inr ''[]'' else Inl (Errorf [])),
     eio_station_sig = (\<lambda>_. NotFound), eio_station = (\<lambda>_. NotFound), eio_schedule = [],
     eio_writeA = None, eio_writeB = None, eio_recorder = True\<rparr>"

definition cold :: EphemerisReconciler where
  "cold = \<lparr>rec_Fetcher = Some fresh_celestrak, rec_SpaceTrack = None, rec_ommCache = Map.empty\<rparr>"

definition iss_result :: GPFetchResult where
  "iss_result = \<lparr>OMMs = [iss], gf_SatelliteCount = 1, FetchedAt = 1000 * second, NotModified = False,
     ETag = ''v1'', LastModified = ''''\<rparr>"

definition jan1 :: time where "jan1 = 63902822400 * second"

lemma iss_propagates: "PropagateToECEF iss_lib o' t
    = Inr \<lparr>PosX = 0, PosY = 0, PosZ = 5384615, VelX = 0, VelY = 0, VelZ = 0\<rparr>"
proof -
  have "PropagateToECEF (L\<lparr>ParseOMMs := p\<rparr>) o' t = PropagateToECEF L o' t" for L :: "unit sgp4_api" and p
  proof -
    have "rotateZ (L\<lparr>ParseOMMs := p\<rparr>) = rotateZ L" by (intro ext) (simp add: rotateZ_def)
    moreover have "temeVelToECEF (L\<lparr>ParseOMMs := p\<rparr>) = temeVelToECEF L"
      using calculation by (intro ext) (simp add: temeVelToECEF_def)
    moreover have "quantize (L\<lparr>ParseOMMs := p\<rparr>) = quantize L" by (intro ext) (simp add: quantize_def cong: f64.case_cong if_cong)
    then have "kmToPos (L\<lparr>ParseOMMs := p\<rparr>) = kmToPos L" "kmsToVel (L\<lparr>ParseOMMs := p\<rparr>) = kmsToVel L"
      by (auto simp: kmToPos_def kmsToVel_def)
    ultimately show ?thesis by (simp add: PropagateToECEF_def Let_def cong: sum.case_cong)
  qed
  then show ?thesis by (simp add: iss_lib_def demo_propagation)
qed

definition selecting :: "int list \<Rightarrow> SatelliteEphemerisSpec" where
  "selecting ids = (eph_Spec demo_eph)\<lparr>Satellites := Some \<lparr>Constellation = ''x'', NoradIDs = ids\<rparr>\<rparr>"

theorem propagation_inputs_exact_witness:
  "propagationInputHash (\<lambda>r. 32 \<le> r) (selecting [2, 1, 2]) = propagationInputHash (\<lambda>r. 32 \<le> r) (selecting [1, 2])"
proof -
  have "propagation_text (\<lambda>r. 32 \<le> r) (selecting [2, 1, 2]) = propagation_text (\<lambda>r. 32 \<le> r) (selecting [1, 2])"
    unfolding propagation_text_exact by (auto simp: selecting_def trackedNorad_def)
  then show ?thesis
    using propagation_inputs_exact [of "\<lambda>r. 32 \<le> r" "selecting [2, 1, 2]" "selecting [1, 2]"]
    by (auto simp: selecting_def trackedNorad_def)
qed

end
