(* ===== verification/Ephemeris_Propagation.thy ===== *)
theory Ephemeris_Propagation
  imports Ephemeris_State "HOL-Library.AList" "HOL-Library.Multiset"
begin

text \<open>
  The propagation step of the SatelliteEphemeris controller: the epoch of an element set, the choice of
  one element set per satellite, the propagation loop with its cap, and the conditions that report on
  it (\<open>internal/controller/satelliteephemeris_controller.go\<close>).
\<close>

section \<open>Element-set epochs\<close>

text \<open>The layouts \<open>2006-01-02T15:04:05.000000\<close>, \<open>2006-01-02T15:04:05\<close>, \<open>RFC3339Nano\<close> and \<open>RFC3339\<close>, in
  this order.\<close>

fun first_Some :: "('a \<Rightarrow> 'b option) \<Rightarrow> 'a list \<Rightarrow> 'b option" where
  "first_Some f [] = None"
| "first_Some f (x # xs) = (case f x of Some y \<Rightarrow> Some y | None \<Rightarrow> first_Some f xs)"

definition parseOMMEpoch :: "string \<Rightarrow> time option" where
  "parseOMMEpoch s = first_Some (\<lambda>(fraction, zone). parse_timestamp fraction zone s)
     [(Some 6, False), (None, False), (None, True), (None, True)]"

section \<open>One element set per satellite\<close>

text \<open>The map \<open>best\<close> is an association list. Go iterates over a map in an arbitrary order; the keys are
  distinct, so the sorted slice does not depend on it.\<close>

definition pick_step :: "OMM \<Rightarrow> (int \<times> OMM \<times> time option) list \<Rightarrow> (int \<times> OMM \<times> time option) list" where
  "pick_step o' best =
     (let t = parseOMMEpoch (EpochStr o') in
      case map_of best (NoradCatID o') of
        None \<Rightarrow> AList.update (NoradCatID o') (o', t) best
      | Some (_, cur) \<Rightarrow>
          if (case t of None \<Rightarrow> False | Some u \<Rightarrow> (case cur of None \<Rightarrow> True | Some v \<Rightarrow> v < u))
          then AList.update (NoradCatID o') (o', t) best
          else best)"

definition canonicalizeOMMs :: "OMM list \<Rightarrow> OMM list" where
  "canonicalizeOMMs omms = sort_key NoradCatID (map (\<lambda>(_, o', _). o') (fold pick_step omms []))"

section \<open>Reports\<close>

definition reportEphemerisEpochStale :: "meta_api \<Rightarrow> SatelliteEphemeris \<Rightarrow> int \<Rightarrow> int
    \<Rightarrow> SatelliteEphemeris \<times> eph_effect list" where
  "reportEphemerisEpochStale M eph stale tot =
     (if stale > 0
      then eph_set_cond M ConditionEphemerisEpochStale ConditionTrue ''EpochStale''
             [Num stale, Lit '' of '', Num tot, Lit '' tracked element set(s) have an epoch older than '', Dur maxEpochAge,
              Lit ''; the pushed ECEF is derived from stale elements and is drifting''] eph
      else eph_set_cond M ConditionEphemerisEpochStale ConditionFalse ''EpochsFresh''
             [Lit ''All propagated element sets are within the freshness bound''] eph,
      [Gauge ''EphemerisEpochStaleCount'' (eph_Key eph) stale])"

definition propagationFailedExamples :: nat where "propagationFailedExamples = 3"

definition reportPropagationFailed :: "meta_api \<Rightarrow> SatelliteEphemeris \<Rightarrow> int \<Rightarrow> int \<Rightarrow> int list
    \<Rightarrow> SatelliteEphemeris \<times> eph_effect list" where
  "reportPropagationFailed M eph failed tot exampleNorads =
     (if failed > 0
      then eph_set_cond M ConditionPropagationFailed ConditionTrue ''PropagationFailed''
             ([Num failed, Lit '' of '', Num tot,
               Lit '' tracked element set(s) failed SGP4 propagation to ECEF (conversion, propagation, or ECEF range) and were dropped from propagatedStates'']
              @ (if exampleNorads \<noteq> []
                 then [Lit ''; e.g. NORAD '', Lit (Join (map Itoa exampleNorads) '', ''),
                       Lit (if failed > int (length exampleNorads) then '', ...'' else '''')]
                 else [])) eph
      else eph_set_cond M ConditionPropagationFailed ConditionFalse ''PropagationOK''
             [Lit ''All tracked element sets propagated to ECEF successfully''] eph,
      [Gauge ''EphemerisPropagationFailedCount'' (eph_Key eph) failed])"

definition reportSourceEpochRejected :: "meta_api \<Rightarrow> SatelliteEphemeris \<Rightarrow> int \<Rightarrow> int \<Rightarrow> int \<Rightarrow> SatelliteEphemeris" where
  "reportSourceEpochRejected M eph unparseable futureDated tot =
     (let note1 = Lit '' They produce no propagated state, so a cell selecting one reports EphemerisPayloadMissing. Check the GP source for corrupt data.'' in
      if unparseable > 0 \<and> futureDated > 0
      then eph_set_cond M ConditionSourceEpochRejected ConditionTrue ''SourceEpochRejected''
             [Num (unparseable + futureDated), Lit '' of '', Num tot,
              Lit '' tracked element set(s) refused before propagation: '', Num unparseable,
              Lit '' with an unparseable OMM EPOCH, '', Num futureDated, Lit '' dated more than '',
              Dur maxSourceEpochFutureSkew, Lit '' in the future.'', note1] eph
      else if unparseable > 0
      then eph_set_cond M ConditionSourceEpochRejected ConditionTrue ''UnparseableSourceEpoch''
             [Num unparseable, Lit '' of '', Num tot,
              Lit '' tracked element set(s) refused before propagation: the OMM EPOCH could not be parsed.'', note1] eph
      else if futureDated > 0
      then eph_set_cond M ConditionSourceEpochRejected ConditionTrue ''FutureDatedSourceEpoch''
             [Num futureDated, Lit '' of '', Num tot,
              Lit '' tracked element set(s) refused before propagation: the OMM EPOCH is more than '',
              Dur maxSourceEpochFutureSkew, Lit '' in the future (SGP4 would be driven backward from a bogus epoch).'', note1] eph
      else eph_set_cond M ConditionSourceEpochRejected ConditionFalse ''SourceEpochsPlausible''
             [Lit ''Every tracked element set has a parseable, plausibly-dated epoch''] eph)"

definition em_dash :: string where "em_dash = [CHR 0xE2, CHR 0x80, CHR 0x94]"

definition reportStatesTruncated :: "meta_api \<Rightarrow> SatelliteEphemeris \<Rightarrow> int \<Rightarrow> int \<Rightarrow> SatelliteEphemeris \<times> msg" where
  "reportStatesTruncated M eph selected truncated =
     (let eph1 = eph_map (\<lambda>st. st\<lparr>TruncatedSatelliteCount := truncated\<rparr>) eph in
      if truncated = 0
      then (eph_set_cond M ConditionStatesTruncated ConditionFalse ''WithinCap''
              [Lit ''All selected satellites fit within the propagated-state cap''] eph1, [])
      else
        (let firstTransition = (\<not> IsStatusConditionTrue M (eph_Conds eph) ConditionStatesTruncated);
             m = [Lit ''selected '', Num selected, Lit '' satellites but the propagated-state cap is '',
                  Num (int maxPropagatedStates), Lit ''; '', Num truncated, Lit '' omitted from runtime-push status '',
                  Lit em_dash, Lit '' narrow spec.satellites.noradIDs or the source URL GROUP='']
         in (eph_set_cond M ConditionStatesTruncated ConditionTrue ''PropagatedStateCapExceeded'' m eph1,
             if firstTransition then m else [])))"

definition reportOrbitRegime :: "meta_api \<Rightarrow> SatelliteEphemeris \<Rightarrow> int \<Rightarrow> string \<Rightarrow> SatelliteEphemeris \<times> msg" where
  "reportOrbitRegime M eph rejectedCount summary =
     (if rejectedCount = 0
      then (eph_set_cond M ConditionUnsupportedOrbitRegime ConditionFalse ''AllNearEarth''
              [Lit ''No deep-space element sets among the tracked satellites''] eph, [])
      else
        (let firstTransition = (\<not> IsStatusConditionTrue M (eph_Conds eph) ConditionUnsupportedOrbitRegime)
         in (eph_set_cond M ConditionUnsupportedOrbitRegime ConditionTrue ''DeepSpaceElementsRejected'' [Lit summary] eph,
             if firstTransition then [Lit summary] else [])))"

section \<open>The loops\<close>

text \<open>The counts of stale, unparseable and future epochs over the whole tracked set.\<close>

fun epoch_health :: "time \<Rightarrow> OMM list \<Rightarrow> int \<times> int \<times> int \<Rightarrow> int \<times> int \<times> int" where
  "epoch_health now [] acc = acc"
| "epoch_health now (o' # omms) (stale, unparseable, future) =
     epoch_health now omms
       (case parseOMMEpoch (EpochStr o') of
          None \<Rightarrow> (stale, unparseable + 1, future)
        | Some t \<Rightarrow>
            (case sourceEpochPlausible now t of
               Inl _ \<Rightarrow> (stale, unparseable, future + 1)
             | Inr _ \<Rightarrow> (if time_Sub now t > maxEpochAge then stale + 1 else stale, unparseable, future)))"

record prop_acc =
  pa_states :: "PropagatedState list"
  pa_skipped :: int
  pa_failures :: int
  pa_failed :: "int list"

definition prop_state :: "OMM \<Rightarrow> time \<Rightarrow> time \<Rightarrow> EphemerisECEF \<Rightarrow> PropagatedState" where
  "prop_state o' epoch src ecef = \<lparr>prop_Satellite = BoundedSatelliteLabel (ObjectName o'), prop_NoradID = NoradCatID o',
     EpochUnixMs = time_UnixMilli epoch, SourceEpochUnixMs = time_UnixMilli src, ECEF = ecef\<rparr>"

fun prop_loop :: "'tle sgp4_api \<Rightarrow> time \<Rightarrow> time \<Rightarrow> OMM list \<Rightarrow> prop_acc \<Rightarrow> prop_acc" where
  "prop_loop L now epoch [] a = a"
| "prop_loop L now epoch (o' # omms) a =
     (if maxPropagatedStates \<le> length (pa_states a) then a\<lparr>pa_skipped := int (length (o' # omms))\<rparr>
      else case parseOMMEpoch (EpochStr o') of
        None \<Rightarrow> prop_loop L now epoch omms a
      | Some t \<Rightarrow>
          (case sourceEpochPlausible now t of
             Inl _ \<Rightarrow> prop_loop L now epoch omms a
           | Inr _ \<Rightarrow>
               (case PropagateToECEF L o' epoch of
                  Inl _ \<Rightarrow> prop_loop L now epoch omms
                    (a\<lparr>pa_failures := pa_failures a + 1,
                       pa_failed := (if length (pa_failed a) < propagationFailedExamples
                                     then pa_failed a @ [NoradCatID o'] else pa_failed a)\<rparr>)
                | Inr ecef \<Rightarrow> prop_loop L now epoch omms (a\<lparr>pa_states := pa_states a @ [prop_state o' epoch t ecef]\<rparr>))))"

definition propagateStates :: "meta_api \<Rightarrow> 'tle sgp4_api \<Rightarrow> SatelliteEphemeris \<Rightarrow> GPFetchResult \<Rightarrow> time
    \<Rightarrow> SatelliteEphemeris \<times> msg \<times> eph_effect list" where
  "propagateStates M L eph result epoch =
     (let omms = canonicalizeOMMs (FilterOMMs (OMMs result) (trackedNorad (eph_Spec eph)));
          now = time_Add epoch (- propagationEpochLead);
          (staleEpochs, unparseableEpochs, futureEpochs) = epoch_health now omms (0, 0, 0);
          a = prop_loop L now epoch omms \<lparr>pa_states = [], pa_skipped = 0, pa_failures = 0, pa_failed = []\<rparr>;
          tot = int (length omms);
          eph1 = eph_map (\<lambda>st. st\<lparr>PropagatedStates := pa_states a\<rparr>) eph;
          (eph2, truncEvent) = reportStatesTruncated M eph1 tot (pa_skipped a);
          (eph3, e3) = reportEphemerisEpochStale M eph2 staleEpochs tot;
          eph4 = reportSourceEpochRejected M eph3 unparseableEpochs futureEpochs tot;
          (eph5, e5) = reportPropagationFailed M eph4 (pa_failures a) tot (pa_failed a)
      in (eph5, truncEvent, e3 @ e5))"

section \<open>The choice of element sets\<close>

text \<open>The contract of the choice: one element set of the input per satellite, in the order of the
  catalogue numbers, and one whose epoch no other parseable epoch of that satellite exceeds.\<close>

definition epoch_of :: "OMM \<Rightarrow> time option" where
  "epoch_of o' = parseOMMEpoch (EpochStr o')"

locale one_per_satellite =
  fixes select :: "OMM list \<Rightarrow> OMM list"
  assumes select_sub: "set (select omms) \<subseteq> set omms"
    and select_cover: "NoradCatID ` set (select omms) = NoradCatID ` set omms"
    and select_sorted: "sorted_wrt (\<lambda>a b. NoradCatID a < NoradCatID b) (select omms)"
    and select_latest: "a \<in> set (select omms) \<Longrightarrow> b \<in> set omms \<Longrightarrow> NoradCatID b = NoradCatID a \<Longrightarrow>
      epoch_of b = Some t \<Longrightarrow> \<exists>u. epoch_of a = Some u \<and> t \<le> u"
begin

lemma chosen_unique:
  "a \<in> set (select omms) \<Longrightarrow> b \<in> set (select omms) \<Longrightarrow> NoradCatID a = NoradCatID b \<Longrightarrow> a = b"
proof -
  have "sorted_wrt (\<lambda>a b. NoradCatID a < NoradCatID b) xs \<Longrightarrow> a \<in> set xs \<Longrightarrow> b \<in> set xs \<Longrightarrow>
      NoradCatID a = NoradCatID b \<Longrightarrow> a = b" for xs a b
    by (induction xs) auto
  then show "a \<in> set (select omms) \<Longrightarrow> b \<in> set (select omms) \<Longrightarrow> NoradCatID a = NoradCatID b \<Longrightarrow> a = b"
    using select_sorted by blast
qed

text \<open>Without ties between parseable epochs, the choice among the element sets that have one depends on
  the set of the input only.\<close>

lemma chosen_usable_eq:
  assumes same: "set omms = set omms'"
    and ties: "\<And>a b. a \<in> set omms \<Longrightarrow> b \<in> set omms \<Longrightarrow> NoradCatID a = NoradCatID b \<Longrightarrow>
      epoch_of a = epoch_of b \<Longrightarrow> epoch_of a \<noteq> None \<Longrightarrow> a = b"
    and a: "a \<in> set (select omms)" "epoch_of a \<noteq> None"
  shows "a \<in> set (select omms')"
proof -
  have ain: "a \<in> set omms" using a(1) select_sub by blast
  then have "NoradCatID a \<in> NoradCatID ` set (select omms')" unfolding select_cover same by simp
  then obtain b where b: "b \<in> set (select omms')" "NoradCatID b = NoradCatID a" by fastforce
  then have bin: "b \<in> set omms" using select_sub same by blast
  obtain t where t: "epoch_of a = Some t" using a(2) by blast
  obtain u where u: "epoch_of b = Some u" "t \<le> u" using select_latest [OF b(1)] ain b(2) same t by metis
  have "u \<le> t" using select_latest [OF a(1) bin b(2) u(1)] t by auto
  then have "a = b" using ties [OF ain bin] b(2) t u by simp
  with b show ?thesis by simp
qed

lemma chosen_usable_filter:
  assumes "set omms = set omms'"
    and "\<And>a b. a \<in> set omms \<Longrightarrow> b \<in> set omms \<Longrightarrow> NoradCatID a = NoradCatID b \<Longrightarrow>
      epoch_of a = epoch_of b \<Longrightarrow> epoch_of a \<noteq> None \<Longrightarrow> a = b"
  shows "filter (\<lambda>o'. epoch_of o' \<noteq> None) (select omms) = filter (\<lambda>o'. epoch_of o' \<noteq> None) (select omms')"
proof -
  let ?f = "filter (\<lambda>o'. epoch_of o' \<noteq> None)"
  have set_eq: "set (?f (select omms)) = set (?f (select omms'))"
    using chosen_usable_eq [of omms omms'] chosen_usable_eq [of omms' omms] assms by auto
  have srt: "sorted_wrt (\<lambda>a b. NoradCatID a < NoradCatID b) (?f (select xs))" for xs
    using select_sorted by (rule sorted_wrt_filter)
  have uniq: "sorted_wrt (\<lambda>a b. NoradCatID a < NoradCatID b) xs \<Longrightarrow> sorted_wrt (\<lambda>a b. NoradCatID a < NoradCatID b) ys \<Longrightarrow>
      set xs = set ys \<Longrightarrow> xs = ys" for xs ys :: "OMM list"
  proof (induction xs arbitrary: ys)
    case (Cons x xs)
    then obtain y ys' where ys: "ys = y # ys'" by (cases ys) auto
    have "x = y" using Cons.prems unfolding ys by (auto dest: less_trans) (metis insert_iff less_asym)+
    moreover have "set xs = set ys'" using Cons.prems \<open>x = y\<close> unfolding ys
      by (auto simp: insert_ident)
    ultimately show ?case using Cons ys by auto
  qed simp
  show ?thesis by (rule uniq [OF srt srt set_eq])
qed

end

text \<open>What \<open>best\<close> holds after the element sets \<open>seen\<close>.\<close>

definition best_inv :: "OMM set \<Rightarrow> (int \<times> OMM \<times> time option) list \<Rightarrow> bool" where
  "best_inv seen best \<longleftrightarrow> distinct (map fst best) \<and> dom (map_of best) = NoradCatID ` seen
     \<and> (\<forall>k o' t. map_of best k = Some (o', t) \<longrightarrow> o' \<in> seen \<and> NoradCatID o' = k \<and> t = epoch_of o'
          \<and> (\<forall>b u. b \<in> seen \<and> NoradCatID b = k \<and> epoch_of b = Some u \<longrightarrow> (\<exists>v. t = Some v \<and> u \<le> v)))"

lemma pick_step_cases:
  "pick_step o' best = best \<and> (\<exists>c cur. map_of best (NoradCatID o') = Some (c, cur)
       \<and> (\<forall>u. epoch_of o' = Some u \<longrightarrow> (\<exists>v. cur = Some v \<and> u \<le> v)))
   \<or> pick_step o' best = AList.update (NoradCatID o') (o', epoch_of o') best
       \<and> (\<forall>c cur. map_of best (NoradCatID o') = Some (c, cur) \<longrightarrow>
            (\<exists>u. epoch_of o' = Some u \<and> (\<forall>v. cur = Some v \<longrightarrow> v < u)))"
  by (auto simp: pick_step_def epoch_of_def Let_def not_less split: option.splits)

lemma best_inv_step:
  assumes "best_inv seen best"
  shows "best_inv (insert o' seen) (pick_step o' best)"
proof -
  have kept: "\<And>k c t b u. map_of best k = Some (c, t) \<Longrightarrow> b \<in> seen \<Longrightarrow> NoradCatID b = k \<Longrightarrow> epoch_of b = Some u \<Longrightarrow>
      \<exists>v. t = Some v \<and> u \<le> v" using assms by (simp add: best_inv_def)
  from pick_step_cases [of o' best] show ?thesis
  proof (elim disjE conjE exE)
    fix c cur
    assume "pick_step o' best = best" "map_of best (NoradCatID o') = Some (c, cur)"
      "\<forall>u. epoch_of o' = Some u \<longrightarrow> (\<exists>v. cur = Some v \<and> u \<le> v)"
    then show ?thesis using assms by (auto simp: best_inv_def insert_absorb domI simp del: map_of_eq_Some_iff)
  next
    assume step: "pick_step o' best = AList.update (NoradCatID o') (o', epoch_of o') best"
      and newer: "\<forall>c cur. map_of best (NoradCatID o') = Some (c, cur) \<longrightarrow>
            (\<exists>u. epoch_of o' = Some u \<and> (\<forall>v. cur = Some v \<longrightarrow> v < u))"
    have "\<exists>v. epoch_of o' = Some v \<and> u \<le> v" if b: "b \<in> seen" "NoradCatID b = NoradCatID o'" "epoch_of b = Some u" for b u
    proof -
      have "dom (map_of best) = NoradCatID ` seen" using assms by (simp add: best_inv_def)
      then have "NoradCatID o' \<in> dom (map_of best)" using b(1,2) by (metis imageI)
      then obtain c cur where c: "map_of best (NoradCatID o') = Some (c, cur)" by fastforce
      with kept [OF c b] newer show ?thesis by force
    qed
    then show ?thesis using assms unfolding step
      by (auto simp: best_inv_def update_conv' distinct_update split: if_splits)
  qed
qed

lemma best_inv_fold: "best_inv seen best \<Longrightarrow> best_inv (seen \<union> set omms) (fold pick_step omms best)"
  by (induction omms arbitrary: seen best) (use best_inv_step in fastforce)+

lemma best_inv_all: "best_inv (set omms) (fold pick_step omms [])"
  using best_inv_fold [of "{}" "[]" omms] by (simp add: best_inv_def)

lemma canonical_set:
  "a \<in> set (canonicalizeOMMs omms) \<longleftrightarrow> map_of (fold pick_step omms []) (NoradCatID a) = Some (a, epoch_of a)"
proof -
  let ?b = "fold pick_step omms []"
  have d: "distinct (map fst ?b)" and v: "\<And>k o' t. map_of ?b k = Some (o', t) \<Longrightarrow> NoradCatID o' = k \<and> t = epoch_of o'"
    using best_inv_all [of omms] by (auto simp: best_inv_def)
  have "a \<in> set (canonicalizeOMMs omms) \<longleftrightarrow> (\<exists>k t. (k, a, t) \<in> set ?b)"
    by (force simp: canonicalizeOMMs_def)
  also have "\<dots> \<longleftrightarrow> (\<exists>k t. map_of ?b k = Some (a, t))" using d by simp
  finally show ?thesis using v by blast
qed

interpretation canon: one_per_satellite canonicalizeOMMs
proof
  fix omms :: "OMM list"
  note inv = best_inv_all [of omms, unfolded best_inv_def]
  show sub: "set (canonicalizeOMMs omms) \<subseteq> set omms" using inv unfolding subset_iff canonical_set by blast
  show "NoradCatID ` set (canonicalizeOMMs omms) = NoradCatID ` set omms"
  proof (intro equalityI subsetI)
    fix k assume "k \<in> NoradCatID ` set omms"
    then obtain o' t where "map_of (fold pick_step omms []) k = Some (o', t)" using inv by (metis domD surj_pair)
    moreover from this have "NoradCatID o' = k" "t = epoch_of o'" using inv by blast+
    ultimately show "k \<in> NoradCatID ` set (canonicalizeOMMs omms)" by (auto simp: canonical_set intro!: rev_image_eqI [of o'])
  next
    fix k assume "k \<in> NoradCatID ` set (canonicalizeOMMs omms)"
    then show "k \<in> NoradCatID ` set omms" using sub by blast
  qed
  show "sorted_wrt (\<lambda>a b. NoradCatID a < NoradCatID b) (canonicalizeOMMs omms)"
  proof -
    let ?l = "map (\<lambda>(_, o', _). o') (fold pick_step omms [])"
    have "map NoradCatID ?l = map fst (fold pick_step omms [])"
      using inv by (auto simp: map_of_eq_Some_iff)
    then have "distinct (map NoradCatID ?l)" by (simp only: conjunct1 [OF inv])
    moreover have "mset (map NoradCatID (sort_key NoradCatID ?l)) = mset (map NoradCatID ?l)"
      by (simp only: mset_map mset_sort)
    ultimately have "distinct (map NoradCatID (sort_key NoradCatID ?l))" using mset_eq_imp_distinct_iff by blast
    moreover have "sorted (map NoradCatID (sort_key NoradCatID ?l))" by simp
    ultimately show ?thesis
      unfolding canonicalizeOMMs_def by (metis sorted_wrt_map strict_sorted_iff)
  qed
next
  fix a b t and omms :: "OMM list"
  assume "a \<in> set (canonicalizeOMMs omms)" "b \<in> set omms" "NoradCatID b = NoradCatID a" "epoch_of b = Some t"
  then show "\<exists>u. epoch_of a = Some u \<and> t \<le> u"
    using best_inv_all [of omms, unfolded best_inv_def] unfolding canonical_set by blast
qed

section \<open>The propagation loop\<close>

text \<open>The state of one element set, or \<open>None\<close> if it is refused or cannot be propagated.\<close>

definition state_for :: "'tle sgp4_api \<Rightarrow> time \<Rightarrow> time \<Rightarrow> OMM \<Rightarrow> PropagatedState option" where
  "state_for L now epoch o' =
     (case epoch_of o' of
        None \<Rightarrow> None
      | Some t \<Rightarrow> if now + maxSourceEpochFutureSkew < t then None
                  else case PropagateToECEF L o' epoch of Inl _ \<Rightarrow> None | Inr ecef \<Rightarrow> Some (prop_state o' epoch t ecef))"

lemma map_filter_Cons: "List.map_filter f (x # xs) = (case f x of Some y \<Rightarrow> [y] | None \<Rightarrow> []) @ List.map_filter f xs"
  by (simp add: map_filter_simps split: option.splits)

lemma implausible_iff: "(\<exists>e. sourceEpochPlausible now t = Inl e) \<longleftrightarrow> now + maxSourceEpochFutureSkew < t"
  by (auto simp: sourceEpochPlausible_def time_Add_def)

lemma plausible_unit: "sourceEpochPlausible now t = Inr u \<longleftrightarrow> t \<le> now + maxSourceEpochFutureSkew"
  by (auto simp: sourceEpochPlausible_def time_Add_def)

lemma prop_loop_states:
  "pa_states (prop_loop L now epoch omms a)
     = pa_states a @ take (maxPropagatedStates - length (pa_states a)) (List.map_filter (state_for L now epoch) omms)"
proof (induction omms arbitrary: a)
  case Nil
  then show ?case by (simp add: List.map_filter_simps)
next
  case (Cons o' omms)
  show ?case
  proof (cases "maxPropagatedStates \<le> length (pa_states a)")
    case False
    then obtain n where n: "maxPropagatedStates - length (pa_states a) = Suc n"
      by (metis Suc_diff_Suc not_le)
    then have n': "maxPropagatedStates - Suc (length (pa_states a)) = n" by simp
    show ?thesis
      using False Cons.IH n n' implausible_iff [of now]
      by (auto simp: state_for_def epoch_of_def map_filter_Cons plausible_unit split: option.splits sum.splits)
  qed simp
qed

text \<open>Every element set is attempted and accounted for, or skipped by the cap, and the cap skips only when
  it is reached.\<close>

definition refused :: "time \<Rightarrow> OMM \<Rightarrow> bool" where
  "refused now o' \<longleftrightarrow> (case epoch_of o' of None \<Rightarrow> True | Some t \<Rightarrow> now + maxSourceEpochFutureSkew < t)"

lemma prop_loop_step:
  assumes "\<not> maxPropagatedStates \<le> length (pa_states a)"
  obtains a1 where "prop_loop L now epoch (o' # omms) a = prop_loop L now epoch omms a1" "pa_skipped a1 = pa_skipped a"
    "int (length (pa_states a1)) + pa_failures a1 + (if refused now o' then 1 else 0)
       = int (length (pa_states a)) + pa_failures a + 1"
proof (cases "refused now o'")
  case True
  then have "prop_loop L now epoch (o' # omms) a = prop_loop L now epoch omms a"
    using assms by (auto simp: refused_def epoch_of_def sourceEpochPlausible_def time_Add_def split: option.splits)
  with True that show ?thesis by simp
next
  case False
  then obtain t where t: "parseOMMEpoch (EpochStr o') = Some t" "sourceEpochPlausible now t = Inr ()"
    by (auto simp: refused_def epoch_of_def plausible_unit split: option.splits)
  show ?thesis
  proof (cases "PropagateToECEF L o' epoch")
    case (Inl e)
    then show ?thesis using that False assms t by simp
  next
    case (Inr ecef)
    then show ?thesis using that [of "a\<lparr>pa_states := pa_states a @ [prop_state o' epoch t ecef]\<rparr>"] False assms t by simp
  qed
qed

lemma prop_loop_account:
  assumes "pa_skipped a = 0"
  shows "let a' = prop_loop L now epoch omms a in
     (pa_skipped a' = 0 \<longrightarrow> int (length (pa_states a')) - int (length (pa_states a)) + (pa_failures a' - pa_failures a)
          + int (length (filter (refused now) omms)) = int (length omms))
     \<and> (pa_skipped a' \<noteq> 0 \<longrightarrow> maxPropagatedStates \<le> length (pa_states a')) \<and> 0 \<le> pa_skipped a'
     \<and> pa_skipped a' \<le> int (length omms)"
  using assms
proof (induction omms arbitrary: a)
  case (Cons o' omms)
  show ?case
  proof (cases "maxPropagatedStates \<le> length (pa_states a)")
    case False
    then obtain a1 where a1: "prop_loop L now epoch (o' # omms) a = prop_loop L now epoch omms a1"
      "pa_skipped a1 = pa_skipped a" "int (length (pa_states a1)) + pa_failures a1 + (if refused now o' then 1 else 0)
       = int (length (pa_states a)) + pa_failures a + 1" by (rule prop_loop_step)
    show ?thesis unfolding a1(1) using Cons.IH [of a1] Cons.prems a1(2,3) by (auto simp: Let_def split: if_splits)
  qed (use Cons.prems in simp)
qed simp

lemma prop_loop_uncapped:
  assumes "pa_skipped (prop_loop L now epoch omms a) = 0"
  shows "pa_states (prop_loop L now epoch omms a) = pa_states a @ List.map_filter (state_for L now epoch) omms"
  using assms
proof (induction omms arbitrary: a)
  case (Cons o' omms)
  then show ?case
    by (auto simp: state_for_def epoch_of_def map_filter_Cons sourceEpochPlausible_def time_Add_def
        split: option.splits sum.splits if_splits)
qed (simp add: List.map_filter_simps)

lemma epoch_health_refused:
  "epoch_health now omms (s, u, f) = (s', u', f') \<Longrightarrow>
     u' + f' = u + f + int (length (filter (refused now) omms)) \<and> s \<le> s' \<and> u \<le> u' \<and> f \<le> f'"
proof (induction omms arbitrary: s u f)
  case (Cons o' omms)
  show ?case
  proof (cases "parseOMMEpoch (EpochStr o')")
    case None
    then show ?thesis using Cons.prems Cons.IH [of s "u + 1" f] by (simp add: refused_def epoch_of_def)
  next
    case (Some t)
    then show ?thesis using Cons.prems Cons.IH [of s u "f + 1"] Cons.IH [of "s + 1" u f] Cons.IH [of s u f]
      by (auto simp: refused_def epoch_of_def sourceEpochPlausible_def time_Add_def split: if_splits)
  qed
qed simp

text \<open>The reports touch the conditions and the count of truncated satellites only.\<close>

lemma report_simps [simp]:
  "eph_Meta (fst (reportStatesTruncated M eph n t)) = eph_Meta eph"
  "eph_Spec (fst (reportStatesTruncated M eph n t)) = eph_Spec eph"
  "PropagatedStates (eph_Status (fst (reportStatesTruncated M eph n t))) = PropagatedStates (eph_Status eph)"
  "TruncatedSatelliteCount (eph_Status (fst (reportStatesTruncated M eph n t))) = t"
  "eph_Meta (fst (reportEphemerisEpochStale M eph s n)) = eph_Meta eph"
  "eph_Spec (fst (reportEphemerisEpochStale M eph s n)) = eph_Spec eph"
  "PropagatedStates (eph_Status (fst (reportEphemerisEpochStale M eph s n))) = PropagatedStates (eph_Status eph)"
  "TruncatedSatelliteCount (eph_Status (fst (reportEphemerisEpochStale M eph s n))) = TruncatedSatelliteCount (eph_Status eph)"
  "eph_Meta (reportSourceEpochRejected M eph u f n) = eph_Meta eph"
  "eph_Spec (reportSourceEpochRejected M eph u f n) = eph_Spec eph"
  "PropagatedStates (eph_Status (reportSourceEpochRejected M eph u f n)) = PropagatedStates (eph_Status eph)"
  "TruncatedSatelliteCount (eph_Status (reportSourceEpochRejected M eph u f n)) = TruncatedSatelliteCount (eph_Status eph)"
  "eph_Meta (fst (reportPropagationFailed M eph s n l)) = eph_Meta eph"
  "eph_Spec (fst (reportPropagationFailed M eph s n l)) = eph_Spec eph"
  "PropagatedStates (eph_Status (fst (reportPropagationFailed M eph s n l))) = PropagatedStates (eph_Status eph)"
  "TruncatedSatelliteCount (eph_Status (fst (reportPropagationFailed M eph s n l))) = TruncatedSatelliteCount (eph_Status eph)"
  by (simp_all add: reportStatesTruncated_def reportEphemerisEpochStale_def reportSourceEpochRejected_def
      reportPropagationFailed_def Let_def)

abbreviation tracked_omms :: "SatelliteEphemeris \<Rightarrow> GPFetchResult \<Rightarrow> OMM list" where
  "tracked_omms eph result \<equiv> FilterOMMs (OMMs result) (trackedNorad (eph_Spec eph))"

lemma propagateStates_status:
  assumes "propagateStates M L eph result epoch = (eph', note, e)"
  shows "PropagatedStates (eph_Status eph') = take maxPropagatedStates
       (List.map_filter (state_for L (epoch - propagationEpochLead) epoch) (canonicalizeOMMs (tracked_omms eph result)))"
    "TruncatedSatelliteCount (eph_Status eph') = pa_skipped (prop_loop L (epoch - propagationEpochLead) epoch
       (canonicalizeOMMs (tracked_omms eph result)) \<lparr>pa_states = [], pa_skipped = 0, pa_failures = 0, pa_failed = []\<rparr>)"
    "eph_Meta eph' = eph_Meta eph" "eph_Spec eph' = eph_Spec eph"
  using assms
  by (auto simp: propagateStates_def Let_def split_beta time_Add_def prop_loop_states)

lemma map_filter_sorted:
  "sorted_wrt (\<lambda>a b. NoradCatID a < NoradCatID b) omms \<Longrightarrow>
   sorted_wrt (\<lambda>a b. prop_NoradID a < prop_NoradID b) (List.map_filter (state_for L now epoch) omms)"
proof (induction omms)
  case (Cons o' omms)
  have norad: "prop_NoradID s = NoradCatID o'" if "state_for L now epoch o' = Some s" for o' s
    using that by (auto simp: state_for_def prop_state_def split: option.splits sum.splits if_splits)
  have "prop_NoradID s \<in> NoradCatID ` set omms" if "s \<in> set (List.map_filter (state_for L now epoch) omms)" for s omms
    using that norad by (fastforce simp: List.map_filter_def)
  with Cons show ?case using norad by (fastforce simp: map_filter_Cons split: option.splits)
qed (simp add: List.map_filter_simps)

section \<open>Properties\<close>

text \<open>C39: the propagated states are what they claim to be. After \<open>propagateStates\<close> the status holds at
  most 128 states in strictly increasing catalogue number, so one per satellite; each is the SGP4 state
  at the requested epoch of an element set of the source that the selector tracks, its source epoch is
  the latest parseable epoch the source has for that satellite and at most 24 hours in the future; and
  unless the cap was reached, every tracked satellite whose chosen element set passes those checks and
  propagates has its state.\<close>

theorem propagated_states_exact:
  assumes "propagateStates M L eph result epoch = (eph', note, e)"
  shows "length (PropagatedStates (eph_Status eph')) \<le> 128
     \<and> sorted_wrt (\<lambda>a b. prop_NoradID a < prop_NoradID b) (PropagatedStates (eph_Status eph'))
     \<and> (\<forall>s\<in>set (PropagatedStates (eph_Status eph')). \<exists>o' t. o' \<in> set (tracked_omms eph result)
          \<and> prop_NoradID s = NoradCatID o' \<and> PropagateToECEF L o' epoch = Inr (ECEF s)
          \<and> EpochUnixMs s = time_UnixMilli epoch
          \<and> parseOMMEpoch (EpochStr o') = Some t \<and> SourceEpochUnixMs s = time_UnixMilli t
          \<and> t \<le> epoch - propagationEpochLead + maxSourceEpochFutureSkew
          \<and> (\<forall>b\<in>set (tracked_omms eph result). NoradCatID b = NoradCatID o' \<longrightarrow>
               (\<forall>u. parseOMMEpoch (EpochStr b) = Some u \<longrightarrow> u \<le> t)))
     \<and> (TruncatedSatelliteCount (eph_Status eph') = 0 \<longrightarrow>
          (\<forall>o'\<in>set (canonicalizeOMMs (tracked_omms eph result)).
             \<forall>s. state_for L (epoch - propagationEpochLead) epoch o' = Some s \<longrightarrow> s \<in> set (PropagatedStates (eph_Status eph'))))"
proof (intro conjI ballI impI allI)
  let ?omms = "tracked_omms eph result" and ?f = "state_for L (epoch - propagationEpochLead) epoch"
  note st = propagateStates_status(1) [OF assms]
  show "length (PropagatedStates (eph_Status eph')) \<le> 128" unfolding st by (simp add: maxPropagatedStates_def)
  show "sorted_wrt (\<lambda>a b. prop_NoradID a < prop_NoradID b) (PropagatedStates (eph_Status eph'))"
    unfolding st by (intro sorted_wrt_take map_filter_sorted canon.select_sorted)
next
  let ?omms = "tracked_omms eph result" and ?f = "state_for L (epoch - propagationEpochLead) epoch"
  fix s assume "s \<in> set (PropagatedStates (eph_Status eph'))"
  then obtain o' where o': "o' \<in> set (canonicalizeOMMs ?omms)" "?f o' = Some s"
    unfolding propagateStates_status(1) [OF assms] by (auto simp: List.map_filter_def dest!: in_set_takeD)
  then obtain t ecef where t: "epoch_of o' = Some t" "t \<le> epoch - propagationEpochLead + maxSourceEpochFutureSkew"
    "PropagateToECEF L o' epoch = Inr ecef" "s = prop_state o' epoch t ecef"
    by (auto simp: state_for_def split: option.splits if_splits sum.splits)
  have "u \<le> t" if "b \<in> set ?omms" "NoradCatID b = NoradCatID o'" "parseOMMEpoch (EpochStr b) = Some u" for b u
    using canon.select_latest [OF o'(1) that(1,2)] that(3) t(1) by (auto simp: epoch_of_def)
  moreover have "o' \<in> set ?omms" using o'(1) canon.select_sub by blast
  ultimately show "\<exists>o' t. o' \<in> set ?omms \<and> prop_NoradID s = NoradCatID o' \<and> PropagateToECEF L o' epoch = Inr (ECEF s)
      \<and> EpochUnixMs s = time_UnixMilli epoch \<and> parseOMMEpoch (EpochStr o') = Some t
      \<and> SourceEpochUnixMs s = time_UnixMilli t \<and> t \<le> epoch - propagationEpochLead + maxSourceEpochFutureSkew
      \<and> (\<forall>b\<in>set ?omms. NoradCatID b = NoradCatID o' \<longrightarrow> (\<forall>u. parseOMMEpoch (EpochStr b) = Some u \<longrightarrow> u \<le> t))"
    using t by (intro exI [of _ o'] exI [of _ t]) (simp add: prop_state_def epoch_of_def)
next
  fix o' s
  let ?omms = "canonicalizeOMMs (tracked_omms eph result)" and ?f = "state_for L (epoch - propagationEpochLead) epoch"
  let ?a = "\<lparr>pa_states = [], pa_skipped = 0, pa_failures = 0, pa_failed = []\<rparr>"
  assume "TruncatedSatelliteCount (eph_Status eph') = 0" and o': "o' \<in> set ?omms" "?f o' = Some s"
  then have z: "pa_skipped (prop_loop L (epoch - propagationEpochLead) epoch ?omms ?a) = 0"
    using propagateStates_status(2) [OF assms] by simp
  have "pa_states (prop_loop L (epoch - propagationEpochLead) epoch ?omms ?a) = List.map_filter ?f ?omms"
    using prop_loop_uncapped [OF z] by simp
  then show "s \<in> set (PropagatedStates (eph_Status eph'))"
    unfolding propagateStates_status(1) [OF assms] using o' by (force simp: prop_loop_states List.map_filter_def)
qed

text \<open>What is pushed does not depend on the order of the response. Two responses with the same element
  sets, in any order and with any repetitions, give the same propagated states, unless a satellite has
  two different element sets with the same parseable epoch.\<close>

theorem propagation_order_free:
  assumes "set (OMMs result) = set (OMMs result')"
    and "\<forall>a\<in>set (OMMs result). \<forall>b\<in>set (OMMs result). NoradCatID a = NoradCatID b
      \<and> parseOMMEpoch (EpochStr a) = parseOMMEpoch (EpochStr b) \<and> parseOMMEpoch (EpochStr a) \<noteq> None \<longrightarrow> a = b"
  shows "PropagatedStates (eph_Status (fst (propagateStates M L eph result epoch)))
       = PropagatedStates (eph_Status (fst (propagateStates M L eph result' epoch)))"
proof -
  let ?f = "state_for L (epoch - propagationEpochLead) epoch" and ?u = "\<lambda>o'. epoch_of o' \<noteq> None"
  have none: "?f o' = None" if "epoch_of o' = None" for o' using that by (simp add: state_for_def)
  have usable: "List.map_filter ?f omms = List.map_filter ?f (filter ?u omms)" for omms
    by (induction omms) (auto simp: map_filter_Cons none List.map_filter_simps(2) split: option.splits)
  have "set (tracked_omms eph result) = set (tracked_omms eph result')"
    using assms(1) by (auto simp: FilterOMMs_def)
  moreover have "set (tracked_omms eph result) \<subseteq> set (OMMs result)" by (auto simp: FilterOMMs_def)
  ultimately have "filter ?u (canonicalizeOMMs (tracked_omms eph result)) = filter ?u (canonicalizeOMMs (tracked_omms eph result'))"
    using assms(2) by (intro canon.chosen_usable_filter) (auto simp: epoch_of_def subset_iff)
  then have "List.map_filter ?f (canonicalizeOMMs (tracked_omms eph result))
      = List.map_filter ?f (canonicalizeOMMs (tracked_omms eph result'))"
    using usable [of "canonicalizeOMMs (tracked_omms eph result)"] usable [of "canonicalizeOMMs (tracked_omms eph result')"]
    by simp
  then show ?thesis
    using propagateStates_status(1) [of M L eph result epoch] propagateStates_status(1) [of M L eph result' epoch]
    by (metis prod.collapse)
qed

text \<open>With a tie the first one of the response wins, whatever its elements are.\<close>

lemma tie_follows_response:
  assumes "NoradCatID a = NoradCatID b" "epoch_of a = epoch_of b"
  shows "canonicalizeOMMs [a, b] = [a] \<and> canonicalizeOMMs [b, a] = [b]"
  using assms by (auto simp: canonicalizeOMMs_def pick_step_def epoch_of_def Let_def split: option.splits)

text \<open>No element set is dropped silently. The numbers reported in the conditions and gauges add up:
  unless the cap was reached, the states, the failed propagations and the refused epochs (unparseable or
  implausibly future) are together exactly the tracked satellites; if it was, the status holds 128
  states and counts the satellites that were not attempted.\<close>

theorem propagation_accounts_for_all:
  assumes "propagateStates M L eph result epoch = (eph', note, e)"
    and "epoch_health (epoch - propagationEpochLead) (canonicalizeOMMs (tracked_omms eph result)) (0, 0, 0)
       = (stale, unparseable, future)"
  shows "\<exists>failed. Gauge ''EphemerisPropagationFailedCount'' (eph_Key eph) failed \<in> set e
     \<and> Gauge ''EphemerisEpochStaleCount'' (eph_Key eph) stale \<in> set e
     \<and> (TruncatedSatelliteCount (eph_Status eph') = 0 \<longrightarrow>
          int (length (PropagatedStates (eph_Status eph'))) + failed + unparseable + future
            = int (card (NoradCatID ` set (tracked_omms eph result))))
     \<and> (TruncatedSatelliteCount (eph_Status eph') \<noteq> 0 \<longrightarrow> length (PropagatedStates (eph_Status eph')) = 128
          \<and> 0 < TruncatedSatelliteCount (eph_Status eph'))"
proof -
  let ?omms = "canonicalizeOMMs (tracked_omms eph result)" and ?now = "epoch - propagationEpochLead"
  let ?init = "\<lparr>pa_states = [], pa_skipped = 0, pa_failures = 0, pa_failed = []\<rparr>"
  let ?a = "prop_loop L ?now epoch ?omms ?init"
  have gauges: "Gauge ''EphemerisPropagationFailedCount'' (eph_Key eph) (pa_failures ?a) \<in> set e
      \<and> Gauge ''EphemerisEpochStaleCount'' (eph_Key eph) stale \<in> set e"
    using assms by (auto simp: propagateStates_def Let_def split_beta time_Add_def reportPropagationFailed_def
        reportEphemerisEpochStale_def)
  have "distinct (map NoradCatID ?omms)"
    using canon.select_sorted by (metis sorted_wrt_map strict_sorted_iff)
  then have card: "length ?omms = card (NoradCatID ` set (tracked_omms eph result))"
    using canon.select_cover by (metis distinct_card length_map set_map)
  have st: "PropagatedStates (eph_Status eph') = pa_states ?a"
    "TruncatedSatelliteCount (eph_Status eph') = pa_skipped ?a"
    using propagateStates_status(1,2) [OF assms(1)] by (simp_all add: prop_loop_states)
  have len: "length (pa_states ?a) \<le> maxPropagatedStates" by (simp add: prop_loop_states)
  have "unparseable + future = int (length (filter (refused ?now) ?omms))"
    using epoch_health_refused [OF assms(2)] by simp
  with prop_loop_account [of ?init L ?now epoch ?omms] gauges card st len show ?thesis
    by (intro exI [of _ "pa_failures ?a"]) (auto simp: Let_def maxPropagatedStates_def)
qed

section \<open>Witnesses\<close>

lemma iss_epoch: "epoch_of iss = Some jan1"
proof -
  have "parseOMMEpoch ''2026-01-01T00:00:00'' = Some 63902822400000000000" by code_simp
  then show ?thesis by (simp add: epoch_of_def iss_def demo_omm_def jan1_def)
qed

lemma iss_canonical: "canonicalizeOMMs [iss] = [iss]"
  by (simp add: canonicalizeOMMs_def pick_step_def)

lemma iss_tracked: "tracked_omms demo_eph iss_result = [iss]"
  by (simp add: FilterOMMs_def demo_eph_def trackedNorad_def iss_result_def)

definition iss_state :: PropagatedState where
  "iss_state = prop_state iss (jan1 + 5 * minute) jan1 \<lparr>PosX = 0, PosY = 0, PosZ = 5384615, VelX = 0, VelY = 0, VelZ = 0\<rparr>"

lemma iss_state_for: "state_for iss_lib jan1 (jan1 + 5 * minute) iss = Some iss_state"
  using epoch_constants(4) by (simp add: state_for_def iss_epoch iss_propagates iss_state_def)

lemma iss_states: "PropagatedStates (eph_Status (fst (propagateStates list_meta iss_lib demo_eph iss_result (jan1 + 5 * minute))))
    = [iss_state]"
proof -
  obtain eph' note' e where p: "propagateStates list_meta iss_lib demo_eph iss_result (jan1 + 5 * minute) = (eph', note', e)"
    by (metis prod_cases3)
  from propagateStates_status(1) [OF this] p show ?thesis
    by (simp add: iss_tracked iss_canonical propagationEpochLead_def map_filter_Cons iss_state_for [simplified] List.map_filter_simps(2)
        maxPropagatedStates_def)
qed

theorem propagated_states_exact_witness:
  "PropagatedStates (eph_Status (fst (propagateStates list_meta iss_lib demo_eph iss_result (jan1 + 5 * minute)))) = [iss_state]
   \<and> (\<exists>(o' :: OMM) t. prop_NoradID iss_state = NoradCatID o' \<and> parseOMMEpoch (EpochStr o') = Some t
        \<and> SourceEpochUnixMs iss_state = time_UnixMilli t)"
proof -
  obtain eph' note' e where p: "propagateStates list_meta iss_lib demo_eph iss_result (jan1 + 5 * minute) = (eph', note', e)"
    by (metis prod_cases3)
  with iss_states have "iss_state \<in> set (PropagatedStates (eph_Status eph'))" by simp
  from propagated_states_exact [OF p, THEN conjunct2, THEN conjunct2, THEN conjunct1, THEN bspec, OF this] iss_states
  show ?thesis by blast
qed

theorem propagation_order_free_witness:
  "PropagatedStates (eph_Status (fst (propagateStates list_meta iss_lib demo_eph
      (iss_result\<lparr>OMMs := [iss, iss]\<rparr>) (jan1 + 5 * minute)))) = [iss_state]"
  using propagation_order_free [of iss_result "iss_result\<lparr>OMMs := [iss, iss]\<rparr>" list_meta iss_lib demo_eph "jan1 + 5 * minute"]
    iss_states by (simp add: iss_result_def)

theorem propagation_accounts_for_all_witness:
  "\<exists>failed. Gauge ''EphemerisPropagationFailedCount'' (eph_Key demo_eph) failed
       \<in> set (snd (snd (propagateStates list_meta iss_lib demo_eph iss_result (jan1 + 5 * minute))))
     \<and> (TruncatedSatelliteCount (eph_Status (fst (propagateStates list_meta iss_lib demo_eph iss_result (jan1 + 5 * minute)))) \<noteq> 0
        \<or> 1 + failed = 1)"
proof -
  obtain eph' note' e where p: "propagateStates list_meta iss_lib demo_eph iss_result (jan1 + 5 * minute) = (eph', note', e)"
    by (metis prod_cases3)
  have h: "epoch_health (jan1 + 5 * minute - propagationEpochLead) (canonicalizeOMMs (tracked_omms demo_eph iss_result)) (0, 0, 0)
      = (0, 0, 0)"
    using iss_epoch by (simp add: iss_tracked iss_canonical propagationEpochLead_def epoch_of_def sourceEpochPlausible_def
        time_Add_def maxSourceEpochFutureSkew_def maxEpochAge_def)
  show ?thesis using propagation_accounts_for_all [OF p h] iss_states p by (fastforce simp: iss_tracked)
qed

end
