(* ===== verification/Omm_Cache.thy ===== *)
theory Omm_Cache
  imports Ephemeris_State
begin

text \<open>
  The durable cache of element sets, \<open>internal/controller/satelliteephemeris_ommcache_persist.go\<close>: the
  ConfigMap a successful fetch is persisted to, and its restoration by a process that starts cold. The
  encoder \<open>json.Marshal\<close> and the decoder of the SGP4 library are parameters; that they round trip is
  the hypothesis of the properties that need it. The gauge of the restored age is recorded as a
  duration.
\<close>

definition ommCacheDataKey :: string where "ommCacheDataKey = ''omms.json''"
definition ommCacheLabelKey :: string where "ommCacheLabelKey = ''ntn.operators.dev/omm-cache''"
definition ommCacheLabelValue :: string where "ommCacheLabelValue = ''true''"
definition ommCacheAnnFetchKey :: string where "ommCacheAnnFetchKey = ''ntn.operators.dev/omm-fetch-key''"
definition ommCacheAnnFetchedAt :: string where "ommCacheAnnFetchedAt = ''ntn.operators.dev/omm-fetched-at''"
definition ommCacheAnnDigest :: string where "ommCacheAnnDigest = ''ntn.operators.dev/omm-digest''"
definition ommCacheAnnUID :: string where "ommCacheAnnUID = ''ntn.operators.dev/omm-owner-uid''"
definition ommCacheAnnCount :: string where "ommCacheAnnCount = ''ntn.operators.dev/omm-count''"
definition ommCacheAnnETag :: string where "ommCacheAnnETag = ''ntn.operators.dev/omm-etag''"
definition ommCacheAnnLastModified :: string where
  "ommCacheAnnLastModified = ''ntn.operators.dev/omm-last-modified''"
definition ommCacheConfigMapSuffix :: string where "ommCacheConfigMapSuffix = ''-omm-cache''"
definition maxOMMCacheBytes :: nat where "maxOMMCacheBytes = 900 * 1024"
definition maxConfigMapNameLen :: int where "maxConfigMapNameLen = 253"
definition ommCacheNameHashBytes :: nat where "ommCacheNameHashBytes = 16"

lemmas annotation_names = ommCacheAnnFetchKey_def ommCacheAnnFetchedAt_def ommCacheAnnDigest_def
  ommCacheAnnUID_def ommCacheAnnCount_def ommCacheAnnETag_def ommCacheAnnLastModified_def

text \<open>Reading a Go map of strings: the empty string for a missing key.\<close>

definition str_get :: "('k \<rightharpoonup> string) \<Rightarrow> 'k \<Rightarrow> string" where
  "str_get m k = (case m k of Some v \<Rightarrow> v | None \<Rightarrow> '''')"

definition cm_ann :: "ConfigMap \<Rightarrow> string \<Rightarrow> string" where
  "cm_ann cm k = str_get (om_Annotations (cm_Meta cm)) k"

section \<open>Names\<close>

definition ommCacheConfigMapName :: "SatelliteEphemeris \<Rightarrow> string" where
  "ommCacheConfigMapName eph =
     (let name = om_Name (eph_Meta eph);
          sum = Sum256 (om_Namespace (eph_Meta eph) @ ''/'' @ name @ ''/'' @ eph_UID eph);
          h = EncodeToString (take ommCacheNameHashBytes sum);
          room = maxConfigMapNameLen - int (length ommCacheConfigMapSuffix) - int (length h) - 1;
          pre = (if int (length name) > room then TrimRight (take (nat room) name) ''-.'' else name)
      in pre @ ''-'' @ h @ ommCacheConfigMapSuffix)"

definition legacyOMMCacheConfigMapName :: "string \<Rightarrow> string" where
  "legacyOMMCacheConfigMapName ephName =
     (if int (length ephName) + int (length ommCacheConfigMapSuffix) > maxConfigMapNameLen
      then take (nat (maxConfigMapNameLen - int (length ommCacheConfigMapSuffix))) ephName
      else ephName) @ ommCacheConfigMapSuffix"

section \<open>Persisting\<close>

definition ommCachePayload :: "GPFetchResult \<Rightarrow> SatelliteEphemeris \<Rightarrow> OMM list" where
  "ommCachePayload result eph =
     (let omms = FilterOMMs (OMMs result) (trackedNorad (eph_Spec eph))
      in if length omms > maxPropagatedStates then take maxPropagatedStates omms else omms)"

definition ommDigest :: "string \<Rightarrow> string" where
  "ommDigest b = EncodeToString (Sum256 b)"

definition setOrClearAnn :: "(string \<rightharpoonup> string) \<Rightarrow> string \<Rightarrow> string \<Rightarrow> (string \<rightharpoonup> string)" where
  "setOrClearAnn ann key val = (if val \<noteq> '''' then ann(key \<mapsto> val) else ann(key := None))"

definition stampOMMCache :: "ConfigMap \<Rightarrow> SatelliteEphemeris \<Rightarrow> string \<Rightarrow> string \<Rightarrow> int \<Rightarrow> string \<Rightarrow> time \<Rightarrow> string
    \<Rightarrow> string \<Rightarrow> ConfigMap" where
  "stampOMMCache cm eph fetchKey digest n data fetchedAt etag lastModified =
     (let labels = (om_Labels (cm_Meta cm))(ommCacheLabelKey \<mapsto> ommCacheLabelValue);
          ann = (om_Annotations (cm_Meta cm))(ommCacheAnnFetchKey \<mapsto> fetchKey,
                   ommCacheAnnFetchedAt \<mapsto> format_RFC3339Nano fetchedAt, ommCacheAnnDigest \<mapsto> digest,
                   ommCacheAnnUID \<mapsto> eph_UID eph, ommCacheAnnCount \<mapsto> Itoa n);
          ann1 = setOrClearAnn ann ommCacheAnnETag etag;
          ann2 = setOrClearAnn ann1 ommCacheAnnLastModified lastModified
      in cm\<lparr>cm_Meta := (cm_Meta cm)\<lparr>om_Labels := labels, om_Annotations := ann2\<rparr>,
            cm_Data := [ommCacheDataKey \<mapsto> data]\<rparr>)"

definition new_ConfigMap :: "string \<Rightarrow> string \<Rightarrow> ConfigMap" where
  "new_ConfigMap ns name = \<lparr>cm_Meta = \<lparr>om_Name = name, om_Namespace = ns, om_UID = '''', om_Generation = 0,
       om_DeletionTimestamp = None, om_Finalizers = [], om_Annotations = Map.empty, om_Labels = Map.empty\<rparr>,
     cm_Data = Map.empty, cm_Owner = None\<rparr>"

definition cache_key :: "SatelliteEphemeris \<Rightarrow> NamespacedName" where
  "cache_key eph = \<lparr>nn_Namespace = om_Namespace (eph_Meta eph), nn_Name = ommCacheConfigMapName eph\<rparr>"

definition persistOMMCache :: "eph_io \<Rightarrow> SatelliteEphemeris \<Rightarrow> GPFetchResult \<Rightarrow> string \<Rightarrow> eph_effect list" where
  "persistOMMCache io eph result fetchKey =
     (let omms = ommCachePayload result eph; key = cache_key eph;
          inc = (\<lambda>r. Counter ''OMMCachePersistTotal'' (eph_Key eph) r) in
      if omms = [] then []
      else case eio_Marshal io omms of
        Inl _ \<Rightarrow> [inc ''skipped_marshal'']
      | Inr data \<Rightarrow>
          if length data > maxOMMCacheBytes then [inc ''skipped_oversize'']
          else
            (let digest = ommDigest data;
                 stamp = (\<lambda>cm. stampOMMCache cm eph fetchKey digest (int (length omms)) data (FetchedAt result)
                            (ETag result) (LastModified result))
             in case eio_persist_get io key of
                  NotFound \<Rightarrow>
                    (case eio_SetControllerReference io eph (stamp (new_ConfigMap (nn_Namespace key) (nn_Name key))) of
                       Inl _ \<Rightarrow> []
                     | Inr cm \<Rightarrow>
                         (case eio_Create io cm of
                            CreateFailed _ \<Rightarrow> [CreateCM cm, inc ''failed'']
                          | _ \<Rightarrow> [CreateCM cm, inc ''success'']))
                | GetError _ \<Rightarrow> [inc ''failed'']
                | Found cm \<Rightarrow>
                    if cm_ann cm ommCacheAnnDigest = digest \<and> str_get (cm_Data cm) ommCacheDataKey \<noteq> '''' then []
                    else
                      (let cm1 = stamp cm;
                           cm2 = (case eio_SetControllerReference io eph cm1 of Inl _ \<Rightarrow> cm1 | Inr cm' \<Rightarrow> cm')
                       in case eio_Update io cm2 of
                            Some _ \<Rightarrow> [UpdateCM cm2, inc ''failed'']
                          | None \<Rightarrow> [UpdateCM cm2, inc ''success''])))"

section \<open>Restoring\<close>

definition ommCacheAnns :: "string list" where
  "ommCacheAnns = [ommCacheAnnFetchKey, ommCacheAnnFetchedAt, ommCacheAnnDigest, ommCacheAnnUID,
     ommCacheAnnCount, ommCacheAnnETag, ommCacheAnnLastModified]"

definition copyCacheForward :: "eph_io \<Rightarrow> SatelliteEphemeris \<Rightarrow> ConfigMap \<Rightarrow> eph_effect list" where
  "copyCacheForward io eph legacy =
     (let ann = fold (\<lambda>k a. case om_Annotations (cm_Meta legacy) k of Some v \<Rightarrow> a(k \<mapsto> v) | None \<Rightarrow> a)
                  ommCacheAnns Map.empty;
          cm0 = new_ConfigMap (om_Namespace (eph_Meta eph)) (ommCacheConfigMapName eph);
          cm = cm0\<lparr>cm_Meta := (cm_Meta cm0)\<lparr>om_Labels := [ommCacheLabelKey \<mapsto> ommCacheLabelValue],
                       om_Annotations := ann\<rparr>,
                    cm_Data := [ommCacheDataKey \<mapsto> str_get (cm_Data legacy) ommCacheDataKey]\<rparr>
      in case eio_SetControllerReference io eph cm of
           Inl _ \<Rightarrow> []
         | Inr cm' \<Rightarrow> [CreateCM cm'])"

definition hydrateFromCacheObject :: "'tle sgp4_api \<Rightarrow> eph_io \<Rightarrow> EphemerisReconciler \<Rightarrow> NamespacedName
    \<Rightarrow> SatelliteEphemeris \<Rightarrow> string \<Rightarrow> string \<Rightarrow> bool \<Rightarrow> bool \<times> EphemerisReconciler \<times> eph_effect list" where
  "hydrateFromCacheObject L io r req eph fetchKey name legacy =
     (let ns = om_Namespace (eph_Meta eph);
          inc = (\<lambda>r. Counter ''OMMCacheRestoreTotal'' (eph_Key eph) r) in
      case eio_restore_get io \<lparr>nn_Namespace = ns, nn_Name = name\<rparr> of
        Found cm \<Rightarrow>
          (let data = str_get (cm_Data cm) ommCacheDataKey in
           if str_get (om_Labels (cm_Meta cm)) ommCacheLabelKey \<noteq> ommCacheLabelValue \<or> data = ''''
           then (False, r, [])
           else if cm_ann cm ommCacheAnnDigest \<noteq> ommDigest data then (False, r, [inc ''refused_digest''])
           else if cm_ann cm ommCacheAnnUID \<noteq> eph_UID eph \<or> cm_ann cm ommCacheAnnFetchKey \<noteq> fetchKey
           then (False, r, [inc ''refused_identity''])
           else
             (let parsed = (case ParseValidOMMs L data of Inl _ \<Rightarrow> [] | Inr omms \<Rightarrow> omms) in
              if parsed = [] then (False, r, [inc ''refused_parse''])
              else
                (let fetchedAt = (case parse_RFC3339Nano (cm_ann cm ommCacheAnnFetchedAt) of Some t \<Rightarrow> t | None \<Rightarrow> 0);
                     entry = \<lparr>cf_result = \<lparr>OMMs = parsed, gf_SatelliteCount = int (length parsed), FetchedAt = fetchedAt,
                                  NotModified = False, ETag = '''', LastModified = ''''\<rparr>,
                              cf_fetchKey = fetchKey, cf_uid = eph_UID eph, nextFetchAttempt = 0, lastFetchErr = None,
                              fetchFailures = 0, cf_retryKey = []\<rparr>;
                     r1 = r\<lparr>rec_ommCache := (rec_ommCache r)(req \<mapsto> entry)\<rparr>;
                     r2 = (if src_Type (Source (eph_Spec eph)) = ''CelesTrak''
                           then r1\<lparr>rec_Fetcher := map_option (\<lambda>f. SeedConditionalCache f (src_URL (Source (eph_Spec eph)))
                                    (cm_ann cm ommCacheAnnETag) (cm_ann cm ommCacheAnnLastModified)) (rec_Fetcher r1)\<rparr>
                           else r1);
                     age = (if \<not> IsZero fetchedAt
                            then [Gauge ''OMMCacheRestoredAgeSeconds'' (eph_Key eph) (time_Sub (eio_now_restore io) fetchedAt)]
                            else []);
                     copy = (if legacy then copyCacheForward io eph cm else [])
                 in (True, r2, age @ copy @ [inc (if legacy then ''migrated'' else ''hydrated'')]))))
      | _ \<Rightarrow> (False, r, []))"

definition restoreOMMCache :: "'tle sgp4_api \<Rightarrow> eph_io \<Rightarrow> EphemerisReconciler \<Rightarrow> NamespacedName
    \<Rightarrow> SatelliteEphemeris \<Rightarrow> string \<Rightarrow> EphemerisReconciler \<times> eph_effect list" where
  "restoreOMMCache L io r req eph fetchKey =
     (case cachedOMMResult r req of
        Some _ \<Rightarrow> (r, [])
      | None \<Rightarrow>
          (let (ok, r1, e1) = hydrateFromCacheObject L io r req eph fetchKey (ommCacheConfigMapName eph) False in
           if ok then (r1, e1)
           else (let (ok2, r2, e2) = hydrateFromCacheObject L io r1 req eph fetchKey
                         (legacyOMMCacheConfigMapName (om_Name (eph_Meta eph))) True
                 in (r2, e1 @ e2))))"

section \<open>Lemmas\<close>

text \<open>What the code relies on of \<open>SetControllerReference\<close>: it touches the owner references only.\<close>

definition owner_laws :: "eph_io \<Rightarrow> bool" where
  "owner_laws io \<longleftrightarrow> (\<forall>eph cm cm'. eio_SetControllerReference io eph cm = Inr cm' \<longrightarrow>
     cm_Meta cm' = cm_Meta cm \<and> cm_Data cm' = cm_Data cm)"

text \<open>The JSON of \<open>sgp4.OMM\<close> round trips, and is not empty.\<close>

definition codec_laws :: "'tle sgp4_api \<Rightarrow> eph_io \<Rightarrow> bool" where
  "codec_laws L io \<longleftrightarrow> (\<forall>omms data. eio_Marshal io omms = Inr data \<longrightarrow> data \<noteq> '''' \<and> ParseOMMs L data = Inr omms)"

definition stamped :: "ConfigMap \<Rightarrow> string \<Rightarrow> SatelliteEphemeris \<Rightarrow> string \<Rightarrow> GPFetchResult \<Rightarrow> bool" where
  "stamped cm data eph fetchKey result \<longleftrightarrow>
     str_get (cm_Data cm) ommCacheDataKey = data
     \<and> str_get (om_Labels (cm_Meta cm)) ommCacheLabelKey = ommCacheLabelValue
     \<and> cm_ann cm ommCacheAnnDigest = ommDigest data
     \<and> cm_ann cm ommCacheAnnUID = eph_UID eph
     \<and> cm_ann cm ommCacheAnnFetchKey = fetchKey
     \<and> cm_ann cm ommCacheAnnFetchedAt = format_RFC3339Nano (FetchedAt result)
     \<and> cm_ann cm ommCacheAnnETag = ETag result
     \<and> cm_ann cm ommCacheAnnLastModified = LastModified result"

lemma stampOMMCache_stamped:
  "stamped (stampOMMCache cm eph fetchKey (ommDigest data) n data (FetchedAt result) (ETag result) (LastModified result))
     data eph fetchKey result"
  by (simp add: stamped_def stampOMMCache_def Let_def str_get_def cm_ann_def setOrClearAnn_def annotation_names)

lemma stamped_owner: "stamped cm data eph fetchKey result \<Longrightarrow> cm_Meta cm' = cm_Meta cm \<Longrightarrow> cm_Data cm' = cm_Data cm
    \<Longrightarrow> stamped cm' data eph fetchKey result"
  by (simp add: stamped_def cm_ann_def)

lemma owner_stamped: "owner_laws io \<Longrightarrow> eio_SetControllerReference io eph cm = Inr cm' \<Longrightarrow>
    stamped cm data eph fetchKey result \<Longrightarrow> stamped cm' data eph fetchKey result"
  unfolding owner_laws_def by (blast intro: stamped_owner)

text \<open>Whatever persisting writes carries the payload and the identity of the fetch.\<close>

lemma persist_writes:
  assumes "owner_laws io" "CreateCM cm \<in> set (persistOMMCache io eph result fetchKey)
     \<or> UpdateCM cm \<in> set (persistOMMCache io eph result fetchKey)"
  obtains data where "eio_Marshal io (ommCachePayload result eph) = Inr data"
    "ommCachePayload result eph \<noteq> []" "stamped cm data eph fetchKey result"
proof -
  let ?omms = "ommCachePayload result eph" and ?key = "cache_key eph"
  have "?omms \<noteq> []" using assms(2) by (auto simp: persistOMMCache_def)
  moreover obtain data where d: "eio_Marshal io ?omms = Inr data"
    using assms(2) \<open>?omms \<noteq> []\<close> by (cases "eio_Marshal io ?omms") (auto simp: persistOMMCache_def)
  moreover have "stamped cm data eph fetchKey result"
    using assms(2) d \<open>?omms \<noteq> []\<close> owner_stamped [OF assms(1)] stampOMMCache_stamped
    by (auto simp: persistOMMCache_def Let_def split: if_splits get.splits sum.splits create_answer.splits option.splits)
      (metis create_answer.exhaust)
  ultimately show ?thesis using that by blast
qed

lemma hydrate_stamped:
  assumes "eio_restore_get io \<lparr>nn_Namespace = om_Namespace (eph_Meta eph), nn_Name = name\<rparr> = Found cm"
    "stamped cm data eph fetchKey result" "data \<noteq> ''''" "ParseOMMs L data = Inr omms" "filterValidOMMs omms = omms"
    "omms \<noteq> []" "0 \<le> FetchedAt result" "FetchedAt result < year_10000"
  shows "\<exists>r' e. hydrateFromCacheObject L io r req eph fetchKey name legacy = (True, r', e)
     \<and> rec_ommCache r' = (rec_ommCache r)(req \<mapsto>
         \<lparr>cf_result = \<lparr>OMMs = omms, gf_SatelliteCount = int (length omms), FetchedAt = FetchedAt result,
             NotModified = False, ETag = '''', LastModified = ''''\<rparr>,
          cf_fetchKey = fetchKey, cf_uid = eph_UID eph, nextFetchAttempt = 0, lastFetchErr = None,
          fetchFailures = 0, cf_retryKey = []\<rparr>)"
  using assms parse_format_RFC3339Nano [of "FetchedAt result"]
  by (simp add: hydrateFromCacheObject_def Let_def stamped_def ParseValidOMMs_def)

lemma hydrate_cases:
  assumes "hydrateFromCacheObject L io r req eph fetchKey name legacy = (ok, r', e)"
  shows "if ok then \<exists>c. rec_ommCache r' = (rec_ommCache r)(req \<mapsto> c) \<and> cf_fetchKey c = fetchKey \<and> cf_uid c = eph_UID eph
            \<and> OMMs (cf_result c) \<noteq> [] \<and> all_valid (OMMs (cf_result c)) \<and> nextFetchAttempt c = 0
         else r' = r"
  using assms
  by (auto simp: hydrateFromCacheObject_def Let_def ParseValidOMMs_def filterValidOMMs_def all_valid_def list_all_iff
      split: get.splits if_splits sum.splits)

text \<open>The cache object of one namespace is shared by no two resources unless the truncated hashes
  collide: the hash is at a fixed distance from the end of the name.\<close>

lemma cache_name_hash:
  "drop (length (ommCacheConfigMapName eph) - 42) (ommCacheConfigMapName eph)
     = EncodeToString (take 16 (Sum256 (om_Namespace (eph_Meta eph) @ ''/'' @ om_Name (eph_Meta eph) @ ''/'' @ eph_UID eph)))
       @ ommCacheConfigMapSuffix"
  by (simp add: ommCacheConfigMapName_def Let_def ommCacheNameHashBytes_def Sum256_length ommCacheConfigMapSuffix_def)

lemma cache_name_length: "length (ommCacheConfigMapName eph) \<le> 253"
  using length_dropWhile_le [of "\<lambda>c. c \<in> set ''-.''" "rev (take 210 (om_Name (eph_Meta eph)))"]
  by (auto simp: ommCacheConfigMapName_def Let_def ommCacheNameHashBytes_def Sum256_length TrimRight_def
      ommCacheConfigMapSuffix_def maxConfigMapNameLen_def)

section \<open>Properties\<close>

text \<open>C40: element sets survive a restart. Whatever ConfigMap a successful fetch wrote, a process that
  starts cold for the same resource and source and reads it back hydrates its cache with exactly the
  persisted element sets and the original fetch time, so the refresh window goes on where it was. The
  hypotheses are that the owner reference is all \<open>SetControllerReference\<close> changes, that the JSON of an
  element set round trips, and a fetch time before the year 10000.\<close>

theorem cache_survives_restart:
  assumes "owner_laws io" "codec_laws L io" "all_valid (OMMs result)"
    and "0 \<le> FetchedAt result" "FetchedAt result < year_10000"
    and "CreateCM cm \<in> set (persistOMMCache io eph result key)
      \<or> UpdateCM cm \<in> set (persistOMMCache io eph result key)"
    and "eph_Meta live = eph_Meta eph" "rec_ommCache r req = None"
    and "eio_restore_get io' (cache_key live) = Found cm"
  shows "\<exists>r' e c. restoreOMMCache L io' r req live key = (r', e) \<and> rec_ommCache r' req = Some c
     \<and> OMMs (cf_result c) = ommCachePayload result eph \<and> FetchedAt (cf_result c) = FetchedAt result
     \<and> cf_fetchKey c = key \<and> cf_uid c = eph_UID live"
proof -
  obtain data where d: "eio_Marshal io (ommCachePayload result eph) = Inr data"
    "ommCachePayload result eph \<noteq> []" "stamped cm data eph key result"
    using persist_writes assms(1,6) by blast
  have st: "stamped cm data live key result" using d(3) assms(7) by (simp add: stamped_def)
  have "set (ommCachePayload result eph) \<subseteq> set (OMMs result)"
    by (auto simp: ommCachePayload_def Let_def FilterOMMs_def dest: in_set_takeD split: if_splits)
  then have valid: "filterValidOMMs (ommCachePayload result eph) = ommCachePayload result eph"
    using assms(3) by (auto simp: filterValidOMMs_def all_valid_def list_all_iff filter_id_conv)
  obtain r' e where "hydrateFromCacheObject L io' r req live key (ommCacheConfigMapName live) False = (True, r', e)"
    "rec_ommCache r' = (rec_ommCache r)(req \<mapsto>
         \<lparr>cf_result = \<lparr>OMMs = ommCachePayload result eph, gf_SatelliteCount = int (length (ommCachePayload result eph)),
             FetchedAt = FetchedAt result, NotModified = False, ETag = '''', LastModified = ''''\<rparr>,
          cf_fetchKey = key, cf_uid = eph_UID live, nextFetchAttempt = 0, lastFetchErr = None,
          fetchFailures = 0, cf_retryKey = []\<rparr>)"
    using hydrate_stamped [OF _ st _ _ valid d(2) assms(4,5), of io' "ommCacheConfigMapName live" L r req False]
      assms(2,9) d(1) by (auto simp: codec_laws_def cache_key_def)
  then show ?thesis using assms(8) by (simp add: restoreOMMCache_def cachedOMMResult_def)
qed

text \<open>A restart restores nothing foreign. For any contents of the two ConfigMaps, corrupt, edited by
  hand or left by another object, restoring leaves a warm cache alone and otherwise either changes no
  entry or stores one entry, under the key of the request, with the UID of the live object and the key
  of its present source, that holds at least one element set and only valid ones and suppresses no
  fetch; the entries of other resources are untouched.\<close>

theorem restore_only_own_data:
  assumes "restoreOMMCache L io r req eph key = (r', e)"
  shows "rec_ommCache r' = rec_ommCache r
     \<or> rec_ommCache r req = None \<and> (\<exists>c. rec_ommCache r' = (rec_ommCache r)(req \<mapsto> c) \<and> cf_fetchKey c = key
          \<and> cf_uid c = eph_UID eph \<and> OMMs (cf_result c) \<noteq> [] \<and> all_valid (OMMs (cf_result c)) \<and> nextFetchAttempt c = 0)"
proof (cases "rec_ommCache r req")
  case (Some c)
  with assms show ?thesis by (simp add: restoreOMMCache_def cachedOMMResult_def)
next
  case None
  obtain ok r1 e1 where h1: "hydrateFromCacheObject L io r req eph key (ommCacheConfigMapName eph) False = (ok, r1, e1)"
    by (metis prod_cases3)
  obtain ok2 r2 e2 where h2: "hydrateFromCacheObject L io r1 req eph key
      (legacyOMMCacheConfigMapName (om_Name (eph_Meta eph))) True = (ok2, r2, e2)" by (metis prod_cases3)
  have "r' = (if ok then r1 else r2)"
    using assms None h1 h2 by (auto simp: restoreOMMCache_def cachedOMMResult_def split: if_splits)
  then show ?thesis using hydrate_cases [OF h1] hydrate_cases [OF h2] None by (cases ok; cases ok2) auto
qed

text \<open>An unchanged payload keeps a stale identity. When the source of a resource is edited and the new
  source returns the payload that is already persisted, nothing is written, so the object keeps the key
  of the old source, and a restart refuses it: the restart continuity the cache is there for is lost
  until the payload changes.\<close>

lemma same_payload_keeps_old_source:
  assumes "eio_Marshal io (ommCachePayload result eph) = Inr data" "data \<noteq> ''''"
    and "length data \<le> maxOMMCacheBytes" "eio_persist_get io (cache_key eph) = Found cm"
    and "cm_ann cm ommCacheAnnDigest = ommDigest data" "str_get (cm_Data cm) ommCacheDataKey = data"
    and "str_get (om_Labels (cm_Meta cm)) ommCacheLabelKey = ommCacheLabelValue"
    and "cm_ann cm ommCacheAnnFetchKey \<noteq> key" "eio_restore_get io' (cache_key eph) = Found cm"
  shows "persistOMMCache io eph result key = []
     \<and> hydrateFromCacheObject L io' r req eph key (ommCacheConfigMapName eph) False
       = (False, r, [Counter ''OMMCacheRestoreTotal'' (eph_Key eph) ''refused_identity''])"
  using assms by (auto simp: persistOMMCache_def hydrateFromCacheObject_def Let_def cache_key_def)

text \<open>The persisted payload is the head of the raw response and not what \<open>propagateStates\<close> would use:
  when the first 128 tracked element sets need the deep-space model, the cache holds no element set the
  operator can propagate, however many follow.\<close>

lemma payload_may_be_unusable:
  assumes "FilterOMMs (OMMs result) (trackedNorad (eph_Spec eph)) = deep @ rest" "length deep = maxPropagatedStates"
    and "\<forall>o'\<in>set deep. IsDeepSpace o'"
  shows "\<forall>o'\<in>set (ommCachePayload result eph). IsDeepSpace o'"
  using assms by (auto simp: ommCachePayload_def Let_def)

section \<open>Witnesses\<close>

definition iss_cm :: ConfigMap where
  "iss_cm = (stampOMMCache (new_ConfigMap ''ntn'' (ommCacheConfigMapName demo_eph)) demo_eph ''k'' (ommDigest ''[]'') 1
     ''[]'' (1000 * second) ''v1'' '''')\<lparr>cm_Owner := Some ''u-1''\<rparr>"

lemma demo_laws: "owner_laws (demo_io t eph)" "codec_laws iss_lib (demo_io t eph)"
  by (auto simp: owner_laws_def codec_laws_def demo_io_def iss_lib_def split: if_splits)

lemma demo_persist: "persistOMMCache (demo_io t eph) demo_eph iss_result ''k''
    = [CreateCM iss_cm, Counter ''OMMCachePersistTotal'' (eph_Key demo_eph) ''success'']"
  by (simp add: persistOMMCache_def ommCachePayload_def FilterOMMs_def trackedNorad_def demo_eph_def iss_result_def
      demo_io_def Let_def maxOMMCacheBytes_def iss_cm_def cache_key_def maxPropagatedStates_def)

theorem cache_survives_restart_witness:
  "\<exists>r' e c. restoreOMMCache iss_lib ((demo_io 0 demo_eph)\<lparr>eio_restore_get := (\<lambda>_. Found iss_cm)\<rparr>) cold (eph_Key demo_eph)
       demo_eph ''k'' = (r', e)
     \<and> rec_ommCache r' (eph_Key demo_eph) = Some c \<and> OMMs (cf_result c) = [iss]
     \<and> FetchedAt (cf_result c) = 1000 * second"
proof -
  have "all_valid (OMMs iss_result)" by (simp add: iss_result_def all_valid_def iss_valid)
  moreover have "0 \<le> FetchedAt iss_result" "FetchedAt iss_result < year_10000"
    by (simp_all add: iss_result_def year_10000_def daysBeforeYear_def)
  moreover have "rec_ommCache cold (eph_Key demo_eph) = None" by (simp add: cold_def)
  moreover have "ommCachePayload iss_result demo_eph = [iss]"
    by (simp add: ommCachePayload_def FilterOMMs_def trackedNorad_def demo_eph_def iss_result_def maxPropagatedStates_def)
  moreover have "FetchedAt iss_result = 1000 * second" by (simp add: iss_result_def)
  ultimately show ?thesis
    using cache_survives_restart [OF demo_laws(1) demo_laws(2), of iss_result iss_cm 0 demo_eph demo_eph "''k''" demo_eph cold
      "eph_Key demo_eph" "(demo_io 0 demo_eph)\<lparr>eio_restore_get := (\<lambda>_. Found iss_cm)\<rparr>"]
    by (auto simp: demo_persist)
qed

theorem restore_only_own_data_witness:
  "rec_ommCache (fst (restoreOMMCache iss_lib ((demo_io 0 demo_eph)\<lparr>eio_restore_get := (\<lambda>_. Found iss_cm)\<rparr>) cold
       (eph_Key demo_eph) demo_eph ''other'')) = Map.empty"
proof -
  let ?r = "fst (restoreOMMCache iss_lib ((demo_io 0 demo_eph)\<lparr>eio_restore_get := (\<lambda>_. Found iss_cm)\<rparr>) cold
       (eph_Key demo_eph) demo_eph ''other'')"
  have key: "cm_ann iss_cm ommCacheAnnFetchKey = ''k''"
    by (simp add: iss_cm_def stampOMMCache_def Let_def cm_ann_def str_get_def setOrClearAnn_def annotation_names)
  have "rec_ommCache ?r = rec_ommCache cold"
  proof (rule ccontr)
    assume "rec_ommCache ?r \<noteq> rec_ommCache cold"
    then obtain c where "rec_ommCache ?r = (rec_ommCache cold)(eph_Key demo_eph \<mapsto> c)"
      using restore_only_own_data [OF prod.collapse [symmetric]] by blast
    then have "rec_ommCache ?r (eph_Key demo_eph) = Some c" by simp
    then show False using key
      by (auto simp: restoreOMMCache_def hydrateFromCacheObject_def Let_def cachedOMMResult_def cold_def demo_io_def
          split: if_splits)
  qed
  then show ?thesis by (simp add: cold_def)
qed

end
