(* ===== verification/Ephemeris_Passes.thy ===== *)
theory Ephemeris_Passes
  imports Ephemeris_Propagation Omm_Cache
begin

text \<open>
  The pass prediction of the SatelliteEphemeris controller: when a sweep is due, the signature of its
  inputs, the invalidation of stale windows, and the sweep itself
  (\<open>internal/controller/satelliteephemeris_controller.go\<close>). The schedule of the worker pool is an answer
  of the record \<open>eph_io\<close>; \<open>None\<close> says that it is not one of a complete run.
\<close>

definition maxPassHorizon :: duration where "maxPassHorizon = 7 * 24 * hour"
definition passPredictionInterval :: duration where "passPredictionInterval = 15 * minute"

definition reasonPredictionFailed :: string where "reasonPredictionFailed = ''PredictionFailed''"
definition reasonGroundStationNotFound :: string where "reasonGroundStationNotFound = ''GroundStationNotFound''"
definition reasonInvalidGroundStationLocation :: string where
  "reasonInvalidGroundStationLocation = ''InvalidGroundStationLocation''"
definition reasonInvalidPredictionConfig :: string where "reasonInvalidPredictionConfig = ''InvalidPredictionConfig''"
definition reasonPredictionComputationFailed :: string where
  "reasonPredictionComputationFailed = ''PredictionComputationFailed''"

definition effectivePassHorizon :: "duration \<Rightarrow> (duration \<times> bool) result" where
  "effectivePassHorizon raw =
     (if raw = 0 then Inr (24 * hour, False)
      else if raw < 0 then Inl (Errorf [Lit ''passPrediction.horizon must be positive, got '', Dur raw])
      else if raw > maxPassHorizon then Inr (maxPassHorizon, True)
      else Inr (raw, False))"

section \<open>When to sweep\<close>

definition passPredictionConfigured :: "SatelliteEphemerisSpec \<Rightarrow> bool" where
  "passPredictionConfigured spec \<longleftrightarrow> (case PassPrediction spec of Some pp \<Rightarrow> GroundStations pp \<noteq> [] | None \<Rightarrow> False)"

definition passSweepDue :: "SatelliteEphemeris \<Rightarrow> time \<Rightarrow> string \<Rightarrow> bool" where
  "passSweepDue eph now currentInputHash =
     (if currentInputHash \<noteq> LastPassPredictionInputHash (eph_Status eph) then True
      else case LastPassPredictionTime (eph_Status eph) of
        None \<Rightarrow> True
      | Some prev \<Rightarrow> if now < prev then True else \<not> now < time_Add prev passPredictionInterval)"

definition fmt_bool :: "bool \<Rightarrow> string" where
  "fmt_bool b = (if b then ''true'' else ''false'')"

definition station_text :: "(rune \<Rightarrow> bool) \<Rightarrow> (string \<Rightarrow> GroundStationLifecycle get) \<Rightarrow> string \<Rightarrow> string" where
  "station_text IsPrint get name =
     (case get name of
        Found gs \<Rightarrow> ''gs='' @ Quote IsPrint name @ '':uid='' @ om_UID (gs_Meta gs) @ '':gen='' @ Itoa (om_Generation (gs_Meta gs))
                     @ '':terminating='' @ fmt_bool (om_DeletionTimestamp (gs_Meta gs) \<noteq> None) @ nl
      | _ \<Rightarrow> ''gs='' @ Quote IsPrint name @ '':absent'' @ nl)"

definition signature_text :: "(rune \<Rightarrow> bool) \<Rightarrow> (string \<Rightarrow> GroundStationLifecycle get) \<Rightarrow> SatelliteEphemerisSpec
    \<Rightarrow> PassPredictionSpec \<Rightarrow> string" where
  "signature_text IsPrint get spec pp =
     ''minElev='' @ Quote IsPrint (MinElevation pp) @ nl @ ''horizon='' @ Itoa (Horizon pp) @ nl
     @ ''norad='' @ fmt_ints (canonicalNorad (trackedNorad spec)) @ nl
     @ ''srcType='' @ Quote IsPrint (src_Type (Source spec)) @ nl @ ''srcURL='' @ Quote IsPrint (src_URL (Source spec)) @ nl
     @ concat (map (station_text IsPrint get) (sort (GroundStations pp)))"

definition passPredictionInputSignature :: "(rune \<Rightarrow> bool) \<Rightarrow> (string \<Rightarrow> GroundStationLifecycle get)
    \<Rightarrow> SatelliteEphemerisSpec \<Rightarrow> PassPredictionSpec \<Rightarrow> string" where
  "passPredictionInputSignature IsPrint get spec pp = EncodeToString (Sum256 (signature_text IsPrint get spec pp))"

definition passSweepDecision :: "eph_io \<Rightarrow> SatelliteEphemeris \<Rightarrow> time \<Rightarrow> string \<times> bool" where
  "passSweepDecision io eph now =
     (case PassPrediction (eph_Spec eph) of
        None \<Rightarrow> ('''', False)
      | Some pp \<Rightarrow>
          if \<not> passPredictionConfigured (eph_Spec eph) then ('''', False)
          else (let inputSig = passPredictionInputSignature (fe_IsPrint (eio_fetch io)) (eio_station_sig io) (eph_Spec eph) pp
                in (inputSig, passSweepDue eph now inputSig)))"

definition invalidatePassPredictionStatus :: "meta_api \<Rightarrow> SatelliteEphemeris \<Rightarrow> SatelliteEphemeris" where
  "invalidatePassPredictionStatus M = eph_map (\<lambda>st. st\<lparr>NextPassWindows := [], LastPassPredictionTime := None,
     LastPassPredictionInputHash := '''',
     eph_Conditions := RemoveStatusCondition M (eph_Conditions st) ConditionPassesPredicted\<rparr>)"

section \<open>The sweep\<close>

definition newPredictionError :: "string \<Rightarrow> gerror \<Rightarrow> gerror" where
  "newPredictionError reason err = err\<lparr>err_is := PredictionReason reason # err_is err\<rparr>"

definition predictionConditionReason :: "gerror \<Rightarrow> string" where
  "predictionConditionReason err =
     (case List.map_filter (\<lambda>s. case s of PredictionReason r \<Rightarrow> Some r | _ \<Rightarrow> None) (err_is err) of
        r # _ \<Rightarrow> if r \<noteq> '''' then r else reasonPredictionFailed
      | [] \<Rightarrow> reasonPredictionFailed)"

definition station_coords :: "string \<Rightarrow> GeoLocation \<Rightarrow> GroundStation result" where
  "station_coords gsName loc =
     (let bad = (\<lambda>what e. newPredictionError reasonInvalidGroundStationLocation
                   (Wrapf ([Lit ''invalid '', Lit what, Lit '' for '', Quoted gsName, Lit '': ''] @ err_msg e) [e])) in
      case ParseGeoCoord (Lat loc) of
        Inl e \<Rightarrow> Inl (bad ''latitude'' e)
      | Inr lat \<Rightarrow>
          (case ParseGeoCoord (Lon loc) of
             Inl e \<Rightarrow> Inl (bad ''longitude'' e)
           | Inr lon \<Rightarrow>
               (case (if Alt loc \<noteq> '''' then ParseGeoCoord (Alt loc) else Inr (Fin 0)) of
                  Inl e \<Rightarrow> Inl (bad ''altitude'' e)
                | Inr alt \<Rightarrow> Inr \<lparr>gstn_Name = gsName, Latitude = lat, Longitude = lon, Altitude = alt\<rparr>)))"

fun resolve_stations :: "(string \<Rightarrow> GroundStationLifecycle get) \<Rightarrow> string list \<Rightarrow> GroundStation list result" where
  "resolve_stations get [] = Inr []"
| "resolve_stations get (gsName # names) =
     (case get gsName of
        NotFound \<Rightarrow> Inl (newPredictionError reasonGroundStationNotFound
          (Errorf [Lit ''ground station '', Quoted gsName, Lit '' not found'']))
      | GetError e \<Rightarrow> Inl (newPredictionError reasonPredictionFailed
          (Wrapf ([Lit ''getting ground station '', Quoted gsName, Lit '': ''] @ err_msg e) [e]))
      | Found gs \<Rightarrow>
          if om_DeletionTimestamp (gs_Meta gs) \<noteq> None then resolve_stations get names
          else (case station_coords gsName (Location (Deployment (gs_Spec gs))) of
                  Inl e \<Rightarrow> Inl e
                | Inr st \<Rightarrow> (case resolve_stations get names of Inl e \<Rightarrow> Inl e | Inr sts \<Rightarrow> Inr (st # sts))))"

definition pass_window :: "PassResult \<Rightarrow> PassWindow" where
  "pass_window p = \<lparr>pw_Satellite = pr_Satellite p, pw_NoradID = pr_NoradID p, pw_GroundStation = pr_GroundStation p,
     AOS = pr_AOS p, LOS = pr_LOS p, MaxElevation = fmt_fixed 1 (pr_MaxElevation p)\<rparr>"

text \<open>Whether \<open>meta.SetStatusCondition\<close> reports a change.\<close>

definition cond_changed :: "meta_api \<Rightarrow> Condition list \<Rightarrow> Condition \<Rightarrow> bool" where
  "cond_changed M cs c = (case FindStatusCondition M cs (cond_Type c) of None \<Rightarrow> True | Some d \<Rightarrow> \<not> same_cond d c)"

definition predictPasses :: "meta_api \<Rightarrow> 'tle sgp4_api \<Rightarrow> sorter \<Rightarrow> eph_io \<Rightarrow> SatelliteEphemeris \<Rightarrow> PassPredictionSpec
    \<Rightarrow> GPFetchResult \<Rightarrow> time \<Rightarrow> (msg \<times> SatelliteEphemeris) result option" where
  "predictPasses M L srt io eph pp fetchResult now =
     (case resolve_stations (eio_station io) (GroundStations pp) of
        Inl e \<Rightarrow> Some (Inl e)
      | Inr stations \<Rightarrow>
          (case ParseElevation (MinElevation pp) of
             Inl e \<Rightarrow> Some (Inl (newPredictionError reasonInvalidPredictionConfig
                        (Wrapf (Lit ''invalid minElevation: '' # err_msg e) [e])))
           | Inr minEl \<Rightarrow>
               (case effectivePassHorizon (Horizon pp) of
                  Inl e \<Rightarrow> Some (Inl (newPredictionError reasonInvalidPredictionConfig e))
                | Inr (horizon, clamped) \<Rightarrow>
                    (case PredictPasses L srt (eio_now io) (eio_schedule io) (OMMs fetchResult) stations minEl horizon
                            (trackedNorad (eph_Spec eph)) now of
                       None \<Rightarrow> None
                     | Some (Inl e) \<Rightarrow> Some (Inl (newPredictionError reasonPredictionComputationFailed
                         (Wrapf (Lit ''computing passes: '' # err_msg e) [e])))
                     | Some (Inr passes) \<Rightarrow>
                         (let windows = map pass_window passes;
                              eph1 = eph_map (\<lambda>st. st\<lparr>NextPassWindows := windows\<rparr>) eph;
                              m = [Lit ''Computed '', Num (int (length windows)), Lit '' passes over '',
                                   Num (int (length stations)), Lit '' ground stations'']
                                  @ (if clamped then [Lit ''; passPrediction.horizon clamped to '', Dur maxPassHorizon] else []);
                              changed = cond_changed M (eph_Conds eph1)
                                (mkCond ConditionPassesPredicted ConditionTrue ''PredictionSucceeded'' m (eph_Generation eph1));
                              eph2 = eph_set_cond M ConditionPassesPredicted ConditionTrue ''PredictionSucceeded'' m eph1
                          in Some (Inr (if changed then m else [], eph2)))))))"

text \<open>The notes of the two events, and the resource; \<open>Inl\<close> is a cancelled context.\<close>

definition handlePassPrediction :: "meta_api \<Rightarrow> 'tle sgp4_api \<Rightarrow> sorter \<Rightarrow> eph_io \<Rightarrow> SatelliteEphemeris \<Rightarrow> GPFetchResult
    \<Rightarrow> time \<Rightarrow> (msg \<times> msg \<times> SatelliteEphemeris) result option" where
  "handlePassPrediction M L srt io eph result now =
     (let off = Some (Inr ([], [], eph_map (\<lambda>st. st\<lparr>NextPassWindows := [],
            eph_Conditions := RemoveStatusCondition M (eph_Conditions st) ConditionPassesPredicted\<rparr>) eph)) in
      case PassPrediction (eph_Spec eph) of
        None \<Rightarrow> off
      | Some pp \<Rightarrow>
          if GroundStations pp = [] then off
          else
            (case predictPasses M L srt io eph pp result now of
               None \<Rightarrow> None
             | Some (Inr (note, eph1)) \<Rightarrow> Some (Inr (note, [], eph1))
             | Some (Inl err) \<Rightarrow>
                 if errors_Is err ContextDone then Some (Inl err)
                 else
                   (let eph1 = eph_map (\<lambda>st. st\<lparr>NextPassWindows := []\<rparr>) eph;
                        failReason = predictionConditionReason err;
                        failEpisode = conditionEpisodeChanged
                          (FindStatusCondition M (eph_Conds eph1) ConditionPassesPredicted) ConditionFalse failReason
                          (eph_Generation eph1);
                        eph2 = eph_set_cond M ConditionPassesPredicted ConditionFalse failReason (err_msg err) eph1
                    in Some (Inr ([], if failEpisode then err_msg err else [], eph2)))))"

end
