(* ===== verification/Ephemeris_Controller.thy ===== *)
theory Ephemeris_Controller
  imports Ephemeris_Passes
begin

text \<open>
  The SatelliteEphemeris controller (\<open>internal/controller/satelliteephemeris_controller.go\<close>): where the
  element sets of a reconcile come from (cache, fetch or nothing), the reconcile loop with its two status
  writes, and the watch on ground stations.
\<close>

section \<open>Cleartext sources\<close>

definition publicHTTPSource :: "eph_io \<Rightarrow> string \<Rightarrow> string option" where
  "publicHTTPSource io raw =
     (case eio_ParseURL io raw of
        Inl _ \<Rightarrow> None
      | Inr u \<Rightarrow>
          if ToLower (Scheme u) \<noteq> ''http'' then None
          else (case eio_LookupIP io (Hostname u) of
                  Inl _ \<Rightarrow> None
                | Inr ips \<Rightarrow> map_option (eio_IPString io) (find (\<lambda>ip. \<not> IsPrivateIP ip) ips)))"

section \<open>No element sets\<close>

text \<open>The result of a reconcile that ends early: its effects, and the requeue delay or the error.\<close>

type_synonym early = "eph_effect list \<times> duration result"

definition handleSetupFailure :: "meta_api \<Rightarrow> eph_io \<Rightarrow> SatelliteEphemeris \<Rightarrow> gerror \<Rightarrow> clampWarn \<Rightarrow> early" where
  "handleSetupFailure M io eph fetcherErr clamp =
     (let eph1 = eph_set_cond M ConditionGPDataFetched ConditionFalse ''FetcherSetupFailed'' (err_msg fetcherErr) eph;
          eph2 = invalidatePassPredictionStatus M eph1;
          (e, _, err) = persistEphStatus (eio_writeA io) (eio_recorder io) eph2 clamp;
          ready = Gauge ''GPFetchReady'' (eph_Key eph) 0
      in case err of
           Some er \<Rightarrow> (ready # e, Inl er)
         | None \<Rightarrow> (ready # e, Inr minute))"

definition handleInsecureURL :: "meta_api \<Rightarrow> eph_io \<Rightarrow> SatelliteEphemeris \<Rightarrow> string \<Rightarrow> clampWarn \<Rightarrow> early" where
  "handleInsecureURL M io eph ip clamp =
     (let m = [Lit ''cleartext http source resolves to public IP '', Lit ip,
               Lit ''; use https to prevent forged OMM injection into SIB19''];
          insecureEpisode = conditionEpisodeChanged (FindStatusCondition M (eph_Conds eph) ConditionGPDataFetched)
            ConditionFalse ''InsecureURL'' (eph_Generation eph);
          eph1 = eph_set_cond M ConditionGPDataFetched ConditionFalse ''InsecureURL'' m eph;
          eph2 = invalidatePassPredictionStatus M eph1;
          (e, _, err) = persistEphStatus (eio_writeA io) (eio_recorder io) eph2 clamp
      in case err of
           Some er \<Rightarrow> (e, Inl er)
         | None \<Rightarrow> (e @ (if insecureEpisode \<and> eio_recorder io
                        then [EphEvent ''Warning'' ''InsecureURL'' ''InsecureURL'' m] else []), Inr minute))"

definition handleFetchError :: "meta_api \<Rightarrow> eph_io \<Rightarrow> SatelliteEphemeris \<Rightarrow> gerror \<Rightarrow> duration \<Rightarrow> clampWarn \<Rightarrow> early" where
  "handleFetchError M io eph fetchErr effectiveInterval clamp =
     (let (reason, requeueAfter, returnAsError) = classifyFetchError fetchErr effectiveInterval;
          fetchEpisode = conditionEpisodeChanged (FindStatusCondition M (eph_Conds eph) ConditionGPDataFetched)
            ConditionFalse reason (eph_Generation eph);
          eph1 = eph_set_cond M ConditionGPDataFetched ConditionFalse reason (err_msg fetchErr) eph;
          eph2 = eph_set_cond M ConditionGPDataParsed ConditionFalse reason [Lit ''No data to parse due to fetch failure''] eph1;
          eph3 = invalidatePassPredictionStatus M eph2;
          (e, _, err) = persistEphStatus (eio_writeA io) (eio_recorder io) eph3 clamp
      in case err of
           Some er \<Rightarrow> (e, Inl er)
         | None \<Rightarrow> (e @ (if fetchEpisode \<and> eio_recorder io
                        then [EphEvent ''Warning'' reason reason (err_msg fetchErr)] else []),
                   if returnAsError then Inl fetchErr else Inr requeueAfter))"

section \<open>Obtaining element sets\<close>

datatype gp_fetcher = CelesTrak | BoundSpaceTrack string string

definition errSpaceTrackCredentialUnavailable :: gerror where
  "errSpaceTrackCredentialUnavailable = Errorf [Lit ''Space-Track credentials unavailable or not authorized'']"

definition fetcherForSource :: "eph_io \<Rightarrow> EphemerisReconciler \<Rightarrow> SatelliteEphemeris
    \<Rightarrow> gp_fetcher result \<times> eph_effect list" where
  "fetcherForSource io r eph =
     (let src = Source (eph_Spec eph) in
      if src_Type src = ''CelesTrak'' then
        (case rec_Fetcher r of
           None \<Rightarrow> (Inl (Errorf [Lit ''CelesTrak fetcher is not configured'']), [])
         | Some _ \<Rightarrow> (Inr CelesTrak, []))
      else if src_Type src = ''SpaceTrack'' then
        (case (rec_SpaceTrack r, Credentials src) of
           (None, _) \<Rightarrow> (Inl (Errorf [Lit ''SpaceTrack fetcher is not configured'']), [])
         | (Some _, None) \<Rightarrow> (Inl (Errorf [Lit ''SpaceTrack requires credentials; set spec.source.credentials'']), [])
         | (Some _, Some creds) \<Rightarrow>
             (let secretKey = \<lparr>nn_Namespace = om_Namespace (eph_Meta eph), nn_Name = sr_Name creds\<rparr>;
                  res = (case eio_secret io secretKey of
                           Inl _ \<Rightarrow> Inl errSpaceTrackCredentialUnavailable
                         | Inr data \<Rightarrow>
                             (let key = (if sr_Key creds = '''' then ''password'' else sr_Key creds) in
                              case (data key, data ''username'') of
                                (Some password, Some username) \<Rightarrow> Inr (BoundSpaceTrack username password)
                              | _ \<Rightarrow> Inl errSpaceTrackCredentialUnavailable))
              in (res, [ReadSecret secretKey])))
      else (Inl (Errorf [Lit ''unsupported source type '', Quoted (src_Type src)]), []))"

text \<open>\<open>fetcher.Fetch\<close>: the result, and the reconciler with the fetcher's new state.\<close>

definition run_fetch :: "'tle sgp4_api \<Rightarrow> eph_io \<Rightarrow> EphemerisReconciler \<Rightarrow> gp_fetcher \<Rightarrow> string
    \<Rightarrow> GPFetchResult result \<times> EphemerisReconciler" where
  "run_fetch L io r fetcher url =
     (case fetcher of
        CelesTrak \<Rightarrow>
          (let (res, f) = CelesTrak_Fetch L (eio_fetch io) (the (rec_Fetcher r)) url in (res, r\<lparr>rec_Fetcher := Some f\<rparr>))
      | BoundSpaceTrack username password \<Rightarrow>
          (let (res, f, _) = FetchWithCredentials L (eio_fetch io) (the (rec_SpaceTrack r)) url username password
           in (res, r\<lparr>rec_SpaceTrack := Some f\<rparr>)))"

record ommFetchOutcome =
  oc_result :: GPFetchResult
  reusedCache :: bool
  servedCacheOnError :: bool
  cacheServeErr :: "gerror option"
  serveReason :: string

definition from_cache :: "GPFetchResult \<Rightarrow> ommFetchOutcome" where
  "from_cache res = \<lparr>oc_result = res, reusedCache = True, servedCacheOnError = False, cacheServeErr = None, serveReason = ''''\<rparr>"

definition degraded :: "GPFetchResult \<Rightarrow> gerror option \<Rightarrow> string \<Rightarrow> ommFetchOutcome" where
  "degraded res e reason = \<lparr>oc_result = res, reusedCache = False, servedCacheOnError = True, cacheServeErr = e, serveReason = reason\<rparr>"

definition fetched :: "GPFetchResult \<Rightarrow> ommFetchOutcome" where
  "fetched res = \<lparr>oc_result = res, reusedCache = False, servedCacheOnError = False, cacheServeErr = None, serveReason = ''''\<rparr>"

definition store :: "EphemerisReconciler \<Rightarrow> NamespacedName \<Rightarrow> cachedFetch \<Rightarrow> EphemerisReconciler" where
  "store r key c = r\<lparr>rec_ommCache := (rec_ommCache r)(key \<mapsto> c)\<rparr>"

definition fresh_entry :: "GPFetchResult \<Rightarrow> string \<Rightarrow> UID \<Rightarrow> cachedFetch" where
  "fresh_entry res key uid = \<lparr>cf_result = res, cf_fetchKey = key, cf_uid = uid, nextFetchAttempt = 0, lastFetchErr = None,
     fetchFailures = 0, cf_retryKey = []\<rparr>"

text \<open>After the fetch returned an error, and after it returned a result. \<open>Inl\<close> is an early end of the
  reconcile.\<close>

definition fetch_failed :: "meta_api \<Rightarrow> eph_io \<Rightarrow> EphemerisReconciler \<Rightarrow> NamespacedName \<Rightarrow> SatelliteEphemeris \<Rightarrow> duration
    \<Rightarrow> clampWarn \<Rightarrow> gerror \<Rightarrow> EphemerisReconciler \<times> eph_effect list \<times> (duration result + ommFetchOutcome)" where
  "fetch_failed M io r req eph effectiveInterval clamp fetchErr =
     (case matchingCache (fe_IsPrint (eio_fetch io)) r req eph of
        Some c \<Rightarrow>
          (let c' = applyFetchBackoff c fetchErr (retryInputKey (eph_Spec eph) effectiveInterval) effectiveInterval
                      (eio_now_backoff io)
           in (store r req c', [], Inr (degraded (cf_result c') (Some fetchErr) reasonFetchFailedServingCache)))
      | None \<Rightarrow>
          (let (e, res) = handleFetchError M io eph fetchErr effectiveInterval clamp in (r, e, Inl res)))"

definition fetch_ok :: "eph_io \<Rightarrow> EphemerisReconciler \<Rightarrow> NamespacedName \<Rightarrow> SatelliteEphemeris \<Rightarrow> GPFetchResult
    \<Rightarrow> EphemerisReconciler \<times> eph_effect list \<times> ommFetchOutcome" where
  "fetch_ok io r req eph result =
     (let fetchKey = fetchInputKey (fe_IsPrint (eio_fetch io)) (eph_Spec eph);
          normal = (store r req (fresh_entry result fetchKey (eph_UID eph)), persistOMMCache io eph result fetchKey,
                    fetched result) in
      if NotModified result \<and> OMMs result = [] then
        (case matchingCache (fe_IsPrint (eio_fetch io)) r req eph of
           Some c \<Rightarrow>
             if OMMs (cf_result c) \<noteq> [] then
               (let res = (cf_result c)\<lparr>FetchedAt := FetchedAt result, NotModified := True\<rparr>;
                    c' = c\<lparr>cf_result := res, nextFetchAttempt := 0, lastFetchErr := None, fetchFailures := 0\<rparr>
                in (store r req c', [], fetched res))
             else normal
         | None \<Rightarrow> normal)
      else normal)"

definition obtainOMMs :: "meta_api \<Rightarrow> 'tle sgp4_api \<Rightarrow> eph_io \<Rightarrow> EphemerisReconciler \<Rightarrow> NamespacedName \<Rightarrow> SatelliteEphemeris
    \<Rightarrow> gp_fetcher \<Rightarrow> duration \<Rightarrow> clampWarn \<Rightarrow> EphemerisReconciler \<times> eph_effect list \<times> (duration result + ommFetchOutcome)" where
  "obtainOMMs M L io r req eph fetcher effectiveInterval clamp =
     (let url = src_URL (Source (eph_Spec eph)) in
      case publicHTTPSource io url of
        Some ip \<Rightarrow> (let (e, res) = handleInsecureURL M io eph ip clamp in (r, e, Inl res))
      | None \<Rightarrow>
          (let (fr, r1) = run_fetch L io r fetcher url;
               e0 = [CallFetch url, ObserveFetch (src_Type (Source (eph_Spec eph))) (case fr of Inl _ \<Rightarrow> ''error'' | Inr _ \<Rightarrow> ''success'')]
           in case fr of
                Inl fetchErr \<Rightarrow>
                  (let (r2, e, out) = fetch_failed M io r1 req eph effectiveInterval clamp fetchErr in (r2, e0 @ e, out))
              | Inr result \<Rightarrow> (let (r2, e, out) = fetch_ok io r1 req eph result in (r2, e0 @ e, Inr out))))"

definition acquireOMMs :: "meta_api \<Rightarrow> 'tle sgp4_api \<Rightarrow> eph_io \<Rightarrow> EphemerisReconciler \<Rightarrow> NamespacedName \<Rightarrow> SatelliteEphemeris
    \<Rightarrow> duration \<Rightarrow> time \<Rightarrow> clampWarn \<Rightarrow> EphemerisReconciler \<times> eph_effect list \<times> (duration result + ommFetchOutcome)" where
  "acquireOMMs M L io r req eph effectiveInterval now clamp =
     (let P = fe_IsPrint (eio_fetch io);
          (r1, e1) = restoreOMMCache L io r req eph (fetchInputKey P (eph_Spec eph)) in
      case cacheServe P r1 req eph now effectiveInterval of
        cacheServeWindow c \<Rightarrow> (r1, e1, Inr (from_cache (cf_result c)))
      | cacheServeBackoff c \<Rightarrow> (r1, e1, Inr (degraded (cf_result c) (lastFetchErr c) reasonFetchFailedServingCache))
      | cacheServeNone \<Rightarrow>
          (let (fo, e2) = fetcherForSource io r1 eph in
           case fo of
             Inr fetcher \<Rightarrow>
               (let (r2, e3, out) = obtainOMMs M L io r1 req eph fetcher effectiveInterval clamp in (r2, e1 @ e2 @ e3, out))
           | Inl fetcherErr \<Rightarrow>
               (case matchingCache P r1 req eph of
                  Some c \<Rightarrow> (r1, e1 @ e2, Inr (degraded (cf_result c) (Some fetcherErr) reasonSetupFailedServingCache))
                | None \<Rightarrow> (let (e3, res) = handleSetupFailure M io eph fetcherErr clamp in (r1, e1 @ e2 @ e3, Inl res)))))"

section \<open>The reconcile loop\<close>

text \<open>Step 6: what the status says about the data. The error of a degraded serve is never nil
  (\<open>backoff_has_error\<close>).\<close>

definition serve_err :: "ommFetchOutcome \<Rightarrow> msg" where
  "serve_err oc = (case cacheServeErr oc of Some e \<Rightarrow> err_msg e | None \<Rightarrow> [])"

definition serve_reason :: "ommFetchOutcome \<Rightarrow> string" where
  "serve_reason oc = (if serveReason oc = '''' then reasonFetchFailedServingCache else serveReason oc)"

definition report_data :: "meta_api \<Rightarrow> ommFetchOutcome \<Rightarrow> SatelliteEphemeris \<Rightarrow> SatelliteEphemeris" where
  "report_data M oc eph =
     (let result = oc_result oc; n = gf_SatelliteCount result;
          parsed = (\<lambda>reason m. eph_set_cond M ConditionGPDataParsed ConditionTrue reason [Lit m]);
          got = (\<lambda>st reason m. eph_set_cond M ConditionGPDataFetched st reason m) in
      if servedCacheOnError oc then
        parsed reasonCachedOMMs ''Using cached OMM data from a previous fetch''
          (got ConditionFalse (serve_reason oc)
             ([Lit ''GP fetch failed (''] @ serve_err oc @ [Lit ''); serving '', Num n, Lit '' satellites from cached OMMs '',
               Lit em_dash, Lit '' pass windows and runtime push preserved'']) eph)
      else if reusedCache oc then
        parsed reasonCachedOMMs ''Using cached OMM data from previous fetch''
          (got ConditionTrue ''CachedRepropagation''
             [Lit ''Re-propagated '', Num n, Lit '' satellites from cached OMMs; GP source not contacted within the refresh window''] eph)
      else if NotModified result then
        parsed reasonCachedOMMs ''Using cached OMM data from previous fetch''
          (got ConditionTrue ''NotModified''
             [Lit ''GP data unchanged from '', Lit (src_Type (Source (eph_Spec eph))), Lit '' (304)''] eph)
      else
        parsed ''ParseSucceeded'' ''OMM JSON parsed successfully''
          (got ConditionTrue ''FetchSucceeded''
             [Lit ''Fetched '', Num n, Lit '' satellites from '', Lit (src_Type (Source (eph_Spec eph)))] eph))"

text \<open>Steps 6 to 7 up to the first write: the resource to write, the events it defers, whether a sweep is
  due and the signature of its inputs, the result without deep-space element sets, and the gauges.\<close>

record prepared =
  pp_eph :: SatelliteEphemeris
  pp_result :: GPFetchResult
  pp_regimeEvent :: msg
  pp_truncEvent :: msg
  pp_serveEpisode :: bool
  pp_sig :: string
  pp_due :: bool
  pp_effects :: "eph_effect list"

definition pass_gate :: "meta_api \<Rightarrow> string \<Rightarrow> SatelliteEphemeris \<Rightarrow> SatelliteEphemeris" where
  "pass_gate M inputSig eph =
     (if \<not> passPredictionConfigured (eph_Spec eph) then invalidatePassPredictionStatus M eph
      else if inputSig \<noteq> LastPassPredictionInputHash (eph_Status eph)
      then eph_set_cond M ConditionPassesPredicted ConditionUnknown ''Recomputing''
             [Lit ''pass inputs changed; predictions are being recomputed''] (invalidatePassPredictionStatus M eph)
      else eph)"

definition prepare :: "meta_api \<Rightarrow> 'tle sgp4_api \<Rightarrow> eph_io \<Rightarrow> ommFetchOutcome \<Rightarrow> SatelliteEphemeris \<Rightarrow> prepared" where
  "prepare M L io oc eph =
     (let result = oc_result oc;
          eph1 = eph_map (\<lambda>st. st\<lparr>SatelliteCount := gf_SatelliteCount result, LastUpdated := Some (FetchedAt result)\<rparr>) eph;
          serveCacheEpisode = servedCacheOnError oc \<and> conditionEpisodeChanged
            (FindStatusCondition M (eph_Conds eph1) ConditionGPDataFetched) ConditionFalse (serve_reason oc) (eph_Generation eph1);
          eph2 = report_data M oc eph1;
          (nearEarth, deepSpace) = SplitByOrbitRegime (OMMs result);
          result' = result\<lparr>OMMs := nearEarth\<rparr>;
          trackedDeepSpace = FilterOMMs deepSpace (trackedNorad (eph_Spec eph));
          (eph3, orbitRegimeEvent) = reportOrbitRegime M eph2 (int (length trackedDeepSpace)) (DeepSpaceSummary trackedDeepSpace);
          (eph4, truncEvent, e4) = propagateStates M L eph3 result' (time_Add (eio_now_prop io) propagationEpochLead);
          eph5 = eph_map (\<lambda>st. st\<lparr>PropagatedStatesInputHash :=
                   propagationInputHash (fe_IsPrint (eio_fetch io)) (eph_Spec eph4)\<rparr>) eph4;
          (inputSig, sweepDue) = passSweepDecision io eph5 (eio_now io)
      in \<lparr>pp_eph = pass_gate M inputSig eph5, pp_result = result', pp_regimeEvent = orbitRegimeEvent,
          pp_truncEvent = truncEvent, pp_serveEpisode = serveCacheEpisode, pp_sig = inputSig, pp_due = sweepDue,
          pp_effects = [Gauge ''GPSatelliteCount'' (eph_Key eph) (gf_SatelliteCount result),
                        Gauge ''GPFetchReady'' (eph_Key eph) 1,
                        Gauge ''GPDeepSpaceRejectedCount'' (eph_Key eph) (int (length trackedDeepSpace))] @ e4\<rparr>)"

text \<open>The events after the first write.\<close>

definition note_event :: "bool \<Rightarrow> string \<Rightarrow> string \<Rightarrow> string \<Rightarrow> msg \<Rightarrow> eph_effect list" where
  "note_event recorder typ reason action m = (if m \<noteq> [] \<and> recorder then [EphEvent typ reason action m] else [])"

definition eventsA :: "eph_io \<Rightarrow> ommFetchOutcome \<Rightarrow> prepared \<Rightarrow> eph_effect list" where
  "eventsA io oc p =
     note_event (eio_recorder io) ''Warning'' ''UnsupportedOrbitRegime'' ''OrbitRegimeGuard'' (pp_regimeEvent p)
     @ note_event (eio_recorder io) ''Warning'' ''StatesTruncated'' ''StatesTruncated'' (pp_truncEvent p)
     @ (if servedCacheOnError oc then
          (if pp_serveEpisode p \<and> eio_recorder io
           then [EphEvent ''Warning'' (serve_reason oc) (serve_reason oc)
                  ([Lit ''GP fetch failed (''] @ serve_err oc @ [Lit ''); serving '', Num (gf_SatelliteCount (oc_result oc)),
                   Lit '' satellites from cached OMMs''])]
           else [])
        else if \<not> reusedCache oc then
          (if eio_recorder io then [EphEvent ''Normal'' ''GPDataFetched'' ''GPDataFetched''
              [Lit ''Fetched '', Num (gf_SatelliteCount (oc_result oc)), Lit '' satellites'']] else [])
        else [])"

text \<open>Step 7b: the sweep and the second write.\<close>

definition sweep :: "meta_api \<Rightarrow> 'tle sgp4_api \<Rightarrow> sorter \<Rightarrow> eph_io \<Rightarrow> prepared \<Rightarrow> clampWarn
    \<Rightarrow> (eph_effect list \<times> gerror option) option" where
  "sweep M L srt io p clamp =
     (if \<not> pp_due p then Some ([], None)
      else
        (case handlePassPrediction M L srt io (pp_eph p) (pp_result p) (eio_now io) of
           None \<Rightarrow> None
         | Some (Inl passErr) \<Rightarrow> Some ([], Some passErr)
         | Some (Inr (passNote, passFailNote, eph1)) \<Rightarrow>
             (let eph2 = eph_map (\<lambda>st. st\<lparr>LastPassPredictionTime := Some (eio_now_sweep io),
                           LastPassPredictionInputHash := pp_sig p\<rparr>) eph1;
                  (e, _, err) = persistEphStatus (eio_writeB io) (eio_recorder io) eph2 clamp
              in case err of
                   Some er \<Rightarrow> Some (e, Some er)
                 | None \<Rightarrow> Some (e @ note_event (eio_recorder io) ''Normal'' ''PassesPredicted'' ''PassesPredicted'' passNote
                       @ note_event (eio_recorder io) ''Warning'' ''PredictionFailed'' ''PredictionFailed'' passFailNote, None))))"

definition eph_Reconcile :: "meta_api \<Rightarrow> 'tle sgp4_api \<Rightarrow> sorter \<Rightarrow> eph_io \<Rightarrow> NamespacedName \<Rightarrow> EphemerisReconciler
    \<Rightarrow> (EphemerisReconciler \<times> eph_effect list \<times> duration result) option" where
  "eph_Reconcile M L srt io req r =
     (case eio_get io of
        NotFound \<Rightarrow> Some (r\<lparr>rec_ommCache := (rec_ommCache r)(req := None)\<rparr>, [DeleteSeries req], Inr 0)
      | GetError e \<Rightarrow> Some (r, [], Inl e)
      | Found eph \<Rightarrow>
          (let (effectiveInterval, clamp, eph0) = clampRefreshInterval M eph;
               (r1, e1, out) = acquireOMMs M L io r req eph0 effectiveInterval (eio_now io) clamp in
           case out of
             Inl res \<Rightarrow> Some (r1, e1 @ [Gauge ''GPFetchReady'' (eph_Key eph) 0], res)
           | Inr oc \<Rightarrow>
               (let p = prepare M L io oc eph0;
                    (eA, clamp', errA) = persistEphStatus (eio_writeA io) (eio_recorder io) (pp_eph p) clamp in
                case errA of
                  Some er \<Rightarrow> Some (r1, e1 @ pp_effects p @ eA, Inl er)
                | None \<Rightarrow>
                    (case sweep M L srt io p clamp' of
                       None \<Rightarrow> None
                     | Some (eB, errB) \<Rightarrow>
                         Some (r1, e1 @ pp_effects p @ eA @ eventsA io oc p @ eB,
                           case errB of
                             Some er \<Rightarrow> Inl er
                           | None \<Rightarrow> Inr (min effectiveInterval propagationRefreshInterval))))))"

section \<open>The watch on ground stations\<close>

definition groundStationToEphemeris :: "(string \<Rightarrow> SatelliteEphemeris list result) \<Rightarrow> GroundStationLifecycle
    \<Rightarrow> NamespacedName list" where
  "groundStationToEphemeris list_ns gs =
     (case list_ns (om_Namespace (gs_Meta gs)) of
        Inl _ \<Rightarrow> []
      | Inr items \<Rightarrow> map eph_Key (filter (\<lambda>eph. case PassPrediction (eph_Spec eph) of
            None \<Rightarrow> False | Some pp \<Rightarrow> om_Name (gs_Meta gs) \<in> set (GroundStations pp)) items))"

end
