(* ===== verification/Ephemeris_Laws.thy ===== *)
theory Ephemeris_Laws
  imports Ephemeris_Controller
begin

text \<open>
  Properties of the SatelliteEphemeris controller: the heartbeat of the propagated epoch through an
  outage of the source, the restraint towards the source while the cache answers, the
  pass windows and their inputs, the order of events and status writes, and the validity of every element
  set that is propagated.
\<close>

section \<open>Lemmas\<close>

lemmas early_defs = handleSetupFailure_def handleInsecureURL_def handleFetchError_def

lemma clamp_fields:
  assumes "clampRefreshInterval M eph = (i, w, eph0)"
  shows "2 * hour \<le> i" "i \<le> 24 * hour" "eph_Meta eph0 = eph_Meta eph" "eph_Spec eph0 = eph_Spec eph"
  using clamp_interval [OF assms] by simp_all

lemma matchingCache_cong:
  "eph_Meta eph0 = eph_Meta eph \<Longrightarrow> eph_Spec eph0 = eph_Spec eph \<Longrightarrow> matchingCache P r req eph0 = matchingCache P r req eph"
  by (simp add: matchingCache_def split: option.splits)

lemma matching_warm: "matchingCache P r req eph = Some c \<Longrightarrow> rec_ommCache r req = Some c
    \<and> cf_fetchKey c = fetchInputKey P (eph_Spec eph) \<and> cf_uid c = eph_UID eph"
  by (auto simp: matchingCache_def cachedOMMResult_def split: option.splits if_splits)

lemma restore_warm: "rec_ommCache r req = Some c \<Longrightarrow> restoreOMMCache L io r req eph key = (r, [])"
  by (simp add: restoreOMMCache_def cachedOMMResult_def)

text \<open>A fetch changes the state of a fetcher only.\<close>

lemma run_fetch_cache: "run_fetch L io r f url = (res, r') \<Longrightarrow> rec_ommCache r' = rec_ommCache r"
  by (auto simp: run_fetch_def split: gp_fetcher.splits prod.splits)

text \<open>The backoff keeps the payload and the identity of the entry.\<close>

lemma applyFetchBackoff_simps [simp]:
  "cf_result (applyFetchBackoff c e k i t) = cf_result c" "cf_fetchKey (applyFetchBackoff c e k i t) = cf_fetchKey c"
  "cf_uid (applyFetchBackoff c e k i t) = cf_uid c" "lastFetchErr (applyFetchBackoff c e k i t) = Some e"
  "cf_retryKey (applyFetchBackoff c e k i t) = k"
  by (simp_all add: applyFetchBackoff_def Let_def)

text \<open>One step of \<open>acquireOMMs\<close> on a warm cache, branch by branch.\<close>

lemma acquire_window:
  "rec_ommCache r req = Some d \<Longrightarrow> cacheServe (fe_IsPrint (eio_fetch io)) r req eph now i = cacheServeWindow c \<Longrightarrow>
     acquireOMMs M L io r req eph i now w = (r, [], Inr (from_cache (cf_result c)))"
  by (simp add: acquireOMMs_def restore_warm Let_def)

lemma acquire_backoff:
  "rec_ommCache r req = Some d \<Longrightarrow> cacheServe (fe_IsPrint (eio_fetch io)) r req eph now i = cacheServeBackoff c \<Longrightarrow>
     acquireOMMs M L io r req eph i now w
       = (r, [], Inr (degraded (cf_result c) (lastFetchErr c) reasonFetchFailedServingCache))"
  by (simp add: acquireOMMs_def restore_warm Let_def)

lemma acquire_setup_failed:
  "rec_ommCache r req = Some d \<Longrightarrow> cacheServe (fe_IsPrint (eio_fetch io)) r req eph now i = cacheServeNone \<Longrightarrow>
     fetcherForSource io r eph = (Inl fe, e2) \<Longrightarrow> matchingCache (fe_IsPrint (eio_fetch io)) r req eph = Some c \<Longrightarrow>
     acquireOMMs M L io r req eph i now w
       = (r, e2, Inr (degraded (cf_result c) (Some fe) reasonSetupFailedServingCache))"
  by (simp add: acquireOMMs_def restore_warm Let_def)

lemma acquire_fetch:
  "rec_ommCache r req = Some d \<Longrightarrow> cacheServe (fe_IsPrint (eio_fetch io)) r req eph now i = cacheServeNone \<Longrightarrow>
     fetcherForSource io r eph = (Inr f, e2) \<Longrightarrow> obtainOMMs M L io r req eph f i w = (r2, e3, out) \<Longrightarrow>
     acquireOMMs M L io r req eph i now w = (r2, e2 @ e3, out)"
  by (simp add: acquireOMMs_def restore_warm Let_def)

lemma obtain_failing:
  assumes "publicHTTPSource io (src_URL (Source (eph_Spec eph))) = None"
    and "run_fetch L io r f (src_URL (Source (eph_Spec eph))) = (Inl fe, r1)"
    and "matchingCache (fe_IsPrint (eio_fetch io)) r req eph = Some c"
  shows "obtainOMMs M L io r req eph f i w =
     (store r1 req (applyFetchBackoff c fe (retryInputKey (eph_Spec eph) i) i (eio_now_backoff io)),
      [CallFetch (src_URL (Source (eph_Spec eph))), ObserveFetch (src_Type (Source (eph_Spec eph))) ''error''],
      Inr (degraded (cf_result c) (Some fe) reasonFetchFailedServingCache))"
proof -
  have "matchingCache (fe_IsPrint (eio_fetch io)) r1 req eph = Some c"
    using assms(3) run_fetch_cache [OF assms(2)] by (simp add: matchingCache_def cachedOMMResult_def)
  with assms(1,2) show ?thesis by (simp add: obtainOMMs_def fetch_failed_def Let_def)
qed

text \<open>With a matching cache and a failing source, the reconcile goes on with the cached element sets.\<close>

lemma acquire_failing:
  assumes "matchingCache (fe_IsPrint (eio_fetch io)) r req eph = Some c"
    and "publicHTTPSource io (src_URL (Source (eph_Spec eph))) = None"
    and "\<And>f. isl (fst (run_fetch L io r f (src_URL (Source (eph_Spec eph)))))"
    and "acquireOMMs M L io r req eph i now w = (r', e, out)"
  shows "\<exists>oc. out = Inr oc \<and> oc_result oc = cf_result c"
proof -
  let ?P = "fe_IsPrint (eio_fetch io)" and ?url = "src_URL (Source (eph_Spec eph))"
  note warm = matching_warm [OF assms(1), THEN conjunct1]
  have serve: "case cacheServe ?P r req eph now i of cacheServeWindow c' \<Rightarrow> c' = c | cacheServeBackoff c' \<Rightarrow> c' = c | _ \<Rightarrow> True"
    using assms(1) by (simp add: cacheServe_def split: option.splits)
  show ?thesis
  proof (cases "cacheServe ?P r req eph now i")
    case cacheServeNone
    obtain fo e2 where fo: "fetcherForSource io r eph = (fo, e2)" by fastforce
    show ?thesis
    proof (cases fo)
      case (Inl fe)
      then show ?thesis using acquire_setup_failed [OF warm cacheServeNone _ assms(1), of fe e2 M L w] fo assms(4)
        by (auto simp: degraded_def)
    next
      case (Inr f)
      obtain fe r1 where fr: "run_fetch L io r f ?url = (Inl fe, r1)"
        using assms(3) [of f] by (metis isl_def prod.collapse)
      show ?thesis
        using acquire_fetch [OF warm cacheServeNone _ obtain_failing [OF assms(2) fr assms(1)]] fo Inr assms(4)
        by (auto simp: degraded_def)
    qed
  next
    case (cacheServeWindow c')
    with serve have "c' = c" by simp
    with acquire_window [OF warm cacheServeWindow, of M L w] assms(4) show ?thesis by (simp add: from_cache_def)
  next
    case (cacheServeBackoff c')
    with serve have "c' = c" by simp
    with acquire_backoff [OF warm cacheServeBackoff, of M L w] assms(4) show ?thesis by (simp add: degraded_def)
  qed
qed

text \<open>The resource of the first write.\<close>

lemma report_data_simps [simp]:
  "eph_Meta (report_data M oc eph) = eph_Meta eph" "eph_Spec (report_data M oc eph) = eph_Spec eph"
  by (simp_all add: report_data_def Let_def)

lemma reportOrbitRegime_simps [simp]:
  "eph_Meta (fst (reportOrbitRegime M eph n s)) = eph_Meta eph" "eph_Spec (fst (reportOrbitRegime M eph n s)) = eph_Spec eph"
  by (simp_all add: reportOrbitRegime_def Let_def)

lemma invalidate_simps [simp]:
  "eph_Meta (invalidatePassPredictionStatus M eph) = eph_Meta eph" "eph_Spec (invalidatePassPredictionStatus M eph) = eph_Spec eph"
  by (simp_all add: invalidatePassPredictionStatus_def)

lemma pass_gate_simps [simp]:
  "eph_Meta (pass_gate M sig eph) = eph_Meta eph" "eph_Spec (pass_gate M sig eph) = eph_Spec eph"
  "PropagatedStates (eph_Status (pass_gate M sig eph)) = PropagatedStates (eph_Status eph)"
  by (simp_all add: pass_gate_def invalidatePassPredictionStatus_def)

lemma prepare_fields:
  "eph_Spec (pp_eph (prepare M L io oc eph)) = eph_Spec eph" "eph_Meta (pp_eph (prepare M L io oc eph)) = eph_Meta eph"
  "PropagatedStates (eph_Status (pp_eph (prepare M L io oc eph))) = take maxPropagatedStates
     (List.map_filter (state_for L (eio_now_prop io) (eio_now_prop io + propagationEpochLead))
       (canonicalizeOMMs (FilterOMMs (fst (SplitByOrbitRegime (OMMs (oc_result oc)))) (trackedNorad (eph_Spec eph)))))"
proof -
  obtain near deep where s: "SplitByOrbitRegime (OMMs (oc_result oc)) = (near, deep)" by fastforce
  let ?eph3 = "fst (reportOrbitRegime M (report_data M oc (eph_map (\<lambda>st. st\<lparr>SatelliteCount := gf_SatelliteCount (oc_result oc),
      LastUpdated := Some (FetchedAt (oc_result oc))\<rparr>) eph))
      (int (length (FilterOMMs deep (trackedNorad (eph_Spec eph))))) (DeepSpaceSummary (FilterOMMs deep (trackedNorad (eph_Spec eph)))))"
  obtain eph4 tr e4 where p: "propagateStates M L ?eph3 ((oc_result oc)\<lparr>OMMs := near\<rparr>) (eio_now_prop io + propagationEpochLead)
      = (eph4, tr, e4)" by (metis prod_cases3)
  note st = propagateStates_status [OF p]
  show "eph_Spec (pp_eph (prepare M L io oc eph)) = eph_Spec eph" "eph_Meta (pp_eph (prepare M L io oc eph)) = eph_Meta eph"
    "PropagatedStates (eph_Status (pp_eph (prepare M L io oc eph))) = take maxPropagatedStates
     (List.map_filter (state_for L (eio_now_prop io) (eio_now_prop io + propagationEpochLead))
       (canonicalizeOMMs (FilterOMMs (fst (SplitByOrbitRegime (OMMs (oc_result oc)))) (trackedNorad (eph_Spec eph)))))"
    using p st s by (simp_all add: prepare_def Let_def split_beta time_Add_def)
qed

text \<open>The writes and their order: a warning follows a successful write.\<close>

lemma persist_ok: "persistEphStatus None rec eph w = (e, w', err) \<Longrightarrow> err = None \<and> WriteStatus eph True \<in> set e"
  by (auto simp: persistEphStatus_def split: if_splits)

lemma sweep_err:
  "sweep M L srt io p w = Some (e, Some er) \<Longrightarrow> errors_Is er ContextDone \<or> eio_writeB io = Some er"
  by (auto simp: sweep_def handlePassPrediction_def persistEphStatus_def Let_def
      split: if_splits option.splits sum.splits prod.splits)

section \<open>Properties\<close>

text \<open>C14: the runtime push survives an outage of the source. As long as the cache holds element sets
  of this resource and source, of any age, a reconcile during which every fetch fails, the credentials
  are unreadable or the backoff suppresses the fetch still writes the status (when the API server takes
  it) with the cached near-earth satellites propagated to five minutes after the clock at that moment,
  and asks to run again after three minutes, before that epoch passes; only a cancelled sweep or a
  refused second write ends it with an error instead. The one exception is a cleartext source that
  resolves to a public address.\<close>

theorem heartbeat_through_outage:
  assumes "eio_get io = Found eph" "matchingCache (fe_IsPrint (eio_fetch io)) r req eph = Some c"
    and "publicHTTPSource io (src_URL (Source (eph_Spec eph))) = None"
    and "\<And>f. isl (fst (run_fetch L io r f (src_URL (Source (eph_Spec eph)))))"
    and "eio_writeA io = None"
    and "eph_Reconcile M L srt io req r = Some (r', effs, res)"
  shows "\<exists>st. WriteStatus st True \<in> set effs
     \<and> PropagatedStates (eph_Status st) = take 128
         (List.map_filter (state_for L (eio_now_prop io) (eio_now_prop io + 5 * minute))
           (canonicalizeOMMs (FilterOMMs (fst (SplitByOrbitRegime (OMMs (cf_result c)))) (trackedNorad (eph_Spec eph)))))
     \<and> (res = Inr (3 * minute) \<or> (\<exists>er. res = Inl er \<and> (errors_Is er ContextDone \<or> eio_writeB io = Some er)))"
proof -
  obtain i w eph0 where cl: "clampRefreshInterval M eph = (i, w, eph0)" by (metis prod_cases3)
  note f = clamp_fields [OF cl]
  obtain r1 e1 out where aq: "acquireOMMs M L io r req eph0 i (eio_now io) w = (r1, e1, out)" by (metis prod_cases3)
  have "matchingCache (fe_IsPrint (eio_fetch io)) r req eph0 = Some c"
    using assms(2) matchingCache_cong [OF f(3,4)] by simp
  with acquire_failing [OF this _ _ aq] obtain oc where oc: "out = Inr oc" "oc_result oc = cf_result c"
    using assms(3,4) f(4) by auto
  let ?p = "prepare M L io oc eph0"
  obtain eA w' errA where pA: "persistEphStatus (eio_writeA io) (eio_recorder io) (pp_eph ?p) w = (eA, w', errA)"
    by (metis prod_cases3)
  then have A: "errA = None" "WriteStatus (pp_eph ?p) True \<in> set eA" using persist_ok assms(5) by metis+
  obtain eB errB where B: "sweep M L srt io ?p w' = Some (eB, errB)"
    using assms(1,6) cl aq oc pA A(1) by (auto simp: eph_Reconcile_def Let_def split: option.splits)
  have "min i propagationRefreshInterval = 3 * minute" using f(1) by (simp add: propagationRefreshInterval_def)
  then have res: "effs = e1 @ pp_effects ?p @ eA @ eventsA io oc ?p @ eB"
    "res = (case errB of Some er \<Rightarrow> Inl er | None \<Rightarrow> Inr (3 * minute))"
    using assms(1,6) cl aq oc pA A(1) B by (auto simp: eph_Reconcile_def Let_def split: option.splits)
  show ?thesis
  proof (intro exI [of _ "pp_eph ?p"] conjI)
    show "WriteStatus (pp_eph ?p) True \<in> set effs" using A(2) res(1) by simp
    show "PropagatedStates (eph_Status (pp_eph ?p)) = take 128
         (List.map_filter (state_for L (eio_now_prop io) (eio_now_prop io + 5 * minute))
           (canonicalizeOMMs (FilterOMMs (fst (SplitByOrbitRegime (OMMs (cf_result c)))) (trackedNorad (eph_Spec eph)))))"
      using prepare_fields(3) [of M L io oc eph0] oc(2) f(4) by (simp add: maxPropagatedStates_def propagationEpochLead_def)
    show "res = Inr (3 * minute) \<or> (\<exists>er. res = Inl er \<and> (errors_Is er ContextDone \<or> eio_writeB io = Some er))"
      using res(2) B sweep_err [of M L srt io ?p w' eB] by (cases errB) auto
  qed
qed

text \<open>What a reconcile does beside acquiring the data: no effect of the later steps contacts the source.\<close>

definition contacts :: "eph_effect list \<Rightarrow> bool" where
  "contacts es \<longleftrightarrow> list_ex (\<lambda>e. case e of CallFetch _ \<Rightarrow> True | ReadSecret _ \<Rightarrow> True | _ \<Rightarrow> False) es"

lemma contacts_append [simp]: "contacts (xs @ ys) \<longleftrightarrow> contacts xs \<or> contacts ys" "\<not> contacts []"
  "contacts (Gauge a b n # xs) \<longleftrightarrow> contacts xs"
  by (simp_all add: contacts_def)

lemma contacts_persist: "persistEphStatus a rc eph w = (e, w', err) \<Longrightarrow> \<not> contacts e"
  by (auto simp: persistEphStatus_def contacts_def split: option.splits if_splits)

lemma contacts_note [simp]: "\<not> contacts (note_event rc t r a m)"
  by (simp add: note_event_def contacts_def)

lemma contacts_propagate [simp]: "\<not> contacts (snd (snd (propagateStates M L eph result epoch)))"
  by (auto simp: propagateStates_def Let_def split_beta reportEphemerisEpochStale_def reportPropagationFailed_def contacts_def)

lemma contacts_prepare [simp]: "\<not> contacts (pp_effects (prepare M L io oc eph))"
  by (simp add: prepare_def Let_def split_beta)

lemma contacts_eventsA [simp]: "\<not> contacts (eventsA io oc p)"
  by (auto simp: eventsA_def) (simp_all add: contacts_def)

lemma contacts_sweep: "sweep M L srt io p w = Some (e, err) \<Longrightarrow> \<not> contacts e"
  using contacts_persist
  by (fastforce simp: sweep_def Let_def split: if_splits option.splits sum.splits prod.splits)

text \<open>The source is left alone while the cache answers. If the cache entry of this resource and source
  is younger than the effective refresh interval (2 to 24 hours), or a failed fetch armed its backoff, the
  backoff has not elapsed and the credential reference and the interval are those it was armed with, then
  a reconcile makes no upstream call and does not even read the credential Secret.\<close>

theorem cache_spares_source:
  assumes "eio_get io = Found eph" "matchingCache (fe_IsPrint (eio_fetch io)) r req eph = Some c"
    and "i = max (2 * hour) (min (24 * hour) (RefreshInterval (Source (eph_Spec eph))))"
    and "time_Sub (eio_now io) (FetchedAt (cf_result c)) < i
      \<or> eio_now io < nextFetchAttempt c \<and> cf_retryKey c = retryInputKey (eph_Spec eph) i"
    and "eph_Reconcile M L srt io req r = Some (r', effs, res)"
  shows "(\<forall>u. CallFetch u \<notin> set effs) \<and> (\<forall>k. ReadSecret k \<notin> set effs) \<and> rec_ommCache r' = rec_ommCache r"
proof -
  obtain j w eph0 where cl: "clampRefreshInterval M eph = (j, w, eph0)" by (metis prod_cases3)
  note f = clamp_fields [OF cl] and ij = clamp_interval(1) [OF cl, folded assms(3)]
  have m0: "matchingCache (fe_IsPrint (eio_fetch io)) r req eph0 = Some c"
    using assms(2) matchingCache_cong [OF f(3,4)] by simp
  note warm = matching_warm [OF m0, THEN conjunct1]
  obtain oc where aq: "acquireOMMs M L io r req eph0 i (eio_now io) w = (r, [], Inr oc)"
  proof (cases "time_Sub (eio_now io) (FetchedAt (cf_result c)) < i")
    case True
    then have "cacheServe (fe_IsPrint (eio_fetch io)) r req eph0 (eio_now io) i = cacheServeWindow c"
      using m0 by (simp add: cacheServe_def)
    from acquire_window [OF warm this, of M L w] that show ?thesis by simp
  next
    case False
    then have "cacheServe (fe_IsPrint (eio_fetch io)) r req eph0 (eio_now io) i = cacheServeBackoff c"
      using m0 assms(4) f(4) by (simp add: cacheServe_def)
    from acquire_backoff [OF warm this, of M L w] that show ?thesis by simp
  qed
  let ?p = "prepare M L io oc eph0"
  obtain eA w' errA where pA: "persistEphStatus (eio_writeA io) (eio_recorder io) (pp_eph ?p) w = (eA, w', errA)"
    by (metis prod_cases3)
  have "\<not> contacts effs \<and> r' = r"
  proof (cases errA)
    case None
    then obtain eB errB where "sweep M L srt io ?p w' = Some (eB, errB)" "effs = pp_effects ?p @ eA @ eventsA io oc ?p @ eB" "r' = r"
      using assms(1,5) cl aq ij pA by (auto simp: eph_Reconcile_def Let_def split: option.splits)
    then show ?thesis
      using contacts_persist [OF pA] contacts_sweep [of M L srt io] by auto
  next
    case (Some er)
    then show ?thesis using assms(1,5) cl aq ij pA contacts_persist [OF pA]
      by (auto simp: eph_Reconcile_def Let_def)
  qed
  then show ?thesis by (auto simp: contacts_def list_ex_iff)
qed

section \<open>Status writes and events\<close>

text \<open>Effects that are neither.\<close>

definition quiet :: "eph_effect list \<Rightarrow> bool" where
  "quiet es \<longleftrightarrow> list_all (\<lambda>e. case e of WriteStatus _ _ \<Rightarrow> False | EphEvent _ _ _ _ \<Rightarrow> False | _ \<Rightarrow> True) es"

lemma quiet_simps [simp]: "quiet []" "quiet (xs @ ys) \<longleftrightarrow> quiet xs \<and> quiet ys" "quiet (Gauge a b n # xs) \<longleftrightarrow> quiet xs"
  "quiet (Counter a b s # xs) \<longleftrightarrow> quiet xs" "quiet (CallFetch u # xs) \<longleftrightarrow> quiet xs" "quiet (ObserveFetch s t # xs) \<longleftrightarrow> quiet xs"
  "quiet (ReadSecret k # xs) \<longleftrightarrow> quiet xs" "quiet (CreateCM m # xs) \<longleftrightarrow> quiet xs" "quiet (UpdateCM m # xs) \<longleftrightarrow> quiet xs"
  by (simp_all add: quiet_def)

lemma quiet_no_write: "quiet es \<Longrightarrow> WriteStatus st ok \<notin> set es"
  by (auto simp: quiet_def list_all_iff)

lemma quiet_persist [simp]: "quiet (persistOMMCache io eph result key)"
  by (auto simp: persistOMMCache_def Let_def split: sum.splits get.splits create_answer.splits option.splits)

lemma quiet_copy [simp]: "quiet (copyCacheForward io eph cm)"
  by (auto simp: copyCacheForward_def Let_def split: sum.splits)

lemma quiet_hydrate: "hydrateFromCacheObject L io r req eph key name legacy = (ok, r', e) \<Longrightarrow> quiet e"
  by (auto simp: hydrateFromCacheObject_def Let_def split: get.splits if_splits sum.splits)

lemma quiet_restore: "restoreOMMCache L io r req eph key = (r', e) \<Longrightarrow> quiet e"
  using quiet_hydrate [of L io] by (fastforce simp: restoreOMMCache_def split: option.splits prod.splits if_splits)

lemma quiet_fetcher: "fetcherForSource io r eph = (fo, e) \<Longrightarrow> quiet e"
  by (auto simp: fetcherForSource_def Let_def split: if_splits option.splits prod.splits)

lemma quiet_prepare [simp]: "quiet (pp_effects (prepare M L io oc eph))"
  by (simp add: prepare_def Let_def split_beta propagateStates_def reportEphemerisEpochStale_def reportPropagationFailed_def)

text \<open>Every event comes after a status write, and the latest one succeeded.\<close>

fun events_ok :: "bool \<Rightarrow> eph_effect list \<Rightarrow> bool" where
  "events_ok b [] = True"
| "events_ok b (WriteStatus st ok # es) = events_ok ok es"
| "events_ok b (EphEvent t rs ac m # es) = (b \<and> events_ok b es)"
| "events_ok b (e # es) = events_ok b es"

lemma events_ok_quiet: "quiet xs \<Longrightarrow> events_ok b (xs @ ys) = events_ok b ys"
proof (induction xs)
  case (Cons x xs)
  then show ?case by (cases x) (auto simp: quiet_def)
qed simp

lemma events_ok_mono: "events_ok False es \<Longrightarrow> events_ok b es"
  by (induction b es rule: events_ok.induct) auto

lemma events_ok_all:
  assumes "list_all (\<lambda>e. case e of EphEvent _ _ _ _ \<Rightarrow> True | _ \<Rightarrow> False) es"
  shows "events_ok True (es @ fs) = events_ok True fs"
  using assms
proof (induction es)
  case (Cons e es)
  then show ?case by (cases e) auto
qed simp

lemma events_ok_persist:
  assumes "persistEphStatus a rc eph w = (e, w', err)"
  shows "err = None \<Longrightarrow> events_ok b (e @ ys) = events_ok True ys" "err \<noteq> None \<Longrightarrow> events_ok b e"
  using assms by (auto simp: persistEphStatus_def split: option.splits if_splits)

text \<open>The effects up to an early end of a reconcile, or up to its data: events follow a successful write, a
  status that is written has no pass prediction, and nothing is written if the reconcile goes on.\<close>

definition acquired_ok :: "meta_api \<Rightarrow> eph_effect list \<Rightarrow> ('a + 'b) \<Rightarrow> bool" where
  "acquired_ok M e out \<longleftrightarrow> (\<forall>b. events_ok b e)
     \<and> (\<forall>st ok. WriteStatus st ok \<in> set e \<longrightarrow> (\<exists>eph'. st = invalidatePassPredictionStatus M eph'))
     \<and> (isl out \<or> quiet e)"

lemma acquired_early:
  "handleSetupFailure M io eph fe w = (e, res) \<Longrightarrow> acquired_ok M e (Inl res)"
  "handleInsecureURL M io eph ip w = (e, res) \<Longrightarrow> acquired_ok M e (Inl res)"
  "handleFetchError M io eph fe i w = (e, res) \<Longrightarrow> acquired_ok M e (Inl res)"
  by (auto simp: acquired_ok_def early_defs Let_def persistEphStatus_def split: option.splits if_splits prod.splits)

lemma acquired_quiet: "quiet e \<Longrightarrow> acquired_ok M e out"
  using events_ok_quiet [of e _ "[]"] by (auto simp: acquired_ok_def dest: quiet_no_write)

lemma acquired_append: "quiet e0 \<Longrightarrow> acquired_ok M e out \<Longrightarrow> acquired_ok M (e0 @ e) out"
  by (auto simp: acquired_ok_def events_ok_quiet dest: quiet_no_write)

lemma obtain_acquired:
  assumes "obtainOMMs M L io r req eph f i w = (r', e, out)"
  shows "acquired_ok M e out"
proof (cases "publicHTTPSource io (src_URL (Source (eph_Spec eph)))")
  case (Some ip)
  with assms acquired_early(2) show ?thesis by (fastforce simp: obtainOMMs_def split: prod.splits)
next
  case None
  let ?url = "src_URL (Source (eph_Spec eph))"
  obtain fr r1 where fr: "run_fetch L io r f ?url = (fr, r1)" by fastforce
  show ?thesis
  proof (cases fr)
    case (Inl fe)
    let ?e0 = "[CallFetch ?url, ObserveFetch (src_Type (Source (eph_Spec eph))) ''error'']"
    obtain e1 where e1: "e = ?e0 @ e1" "(r', e1, out) = fetch_failed M io r1 req eph i w fe"
      using assms None fr Inl by (auto simp: obtainOMMs_def Let_def split: prod.splits)
    have "acquired_ok M e1 out"
      using e1(2) acquired_early(3) [of M io eph fe i w]
      by (auto simp: fetch_failed_def Let_def acquired_quiet split: option.splits prod.splits)
    then show ?thesis unfolding e1(1) by (intro acquired_append) simp
  next
    case (Inr res)
    then have "quiet e" using assms None fr
      by (auto simp: obtainOMMs_def fetch_ok_def Let_def split: if_splits option.splits)
    then show ?thesis by (rule acquired_quiet)
  qed
qed

lemma acquire_acquired:
  assumes "acquireOMMs M L io r req eph i now w = (r', e, out)"
  shows "acquired_ok M e out"
proof -
  let ?P = "fe_IsPrint (eio_fetch io)"
  obtain r1 e1 where re: "restoreOMMCache L io r req eph (fetchInputKey ?P (eph_Spec eph)) = (r1, e1)" by fastforce
  note q1 = quiet_restore [OF re]
  obtain fo e2 where fo: "fetcherForSource io r1 eph = (fo, e2)" by fastforce
  note q2 = quiet_fetcher [OF fo]
  show ?thesis
  proof (cases "cacheServe ?P r1 req eph now i")
    case cacheServeNone
    show ?thesis
    proof (cases fo)
      case (Inr f)
      obtain r2 e3 out' where "obtainOMMs M L io r1 req eph f i w = (r2, e3, out')" by (metis prod_cases3)
      with obtain_acquired [OF this] assms re fo cacheServeNone Inr q1 q2 show ?thesis
        by (auto simp: acquireOMMs_def Let_def intro!: acquired_append)
    next
      case (Inl fe)
      obtain e3 res where "handleSetupFailure M io eph fe w = (e3, res)" by fastforce
      with acquired_early(1) [OF this] assms re fo cacheServeNone Inl q1 q2 show ?thesis
        by (auto simp: acquireOMMs_def Let_def acquired_quiet intro!: acquired_append split: option.splits)
    qed
  qed (use assms re q1 in \<open>auto simp: acquireOMMs_def Let_def acquired_quiet\<close>)
qed

text \<open>The three ways a reconcile of an existing resource goes.\<close>

lemma reconcile_cases:
  assumes "eio_get io = Found eph" "eph_Reconcile M L srt io req r = Some (r', effs, res)"
  obtains (early) e1 where "acquired_ok M e1 (Inl res :: duration result + ommFetchOutcome)"
      "effs = e1 @ [Gauge ''GPFetchReady'' (eph_Key eph) 0]"
  | (refused) e1 oc eph0 eA w w' er where "quiet e1" "eph_Spec eph0 = eph_Spec eph"
      "persistEphStatus (eio_writeA io) (eio_recorder io) (pp_eph (prepare M L io oc eph0)) w = (eA, w', Some er)"
      "effs = e1 @ pp_effects (prepare M L io oc eph0) @ eA"
  | (written) e1 oc eph0 eA w w' eB errB where "quiet e1" "eph_Spec eph0 = eph_Spec eph"
      "persistEphStatus (eio_writeA io) (eio_recorder io) (pp_eph (prepare M L io oc eph0)) w = (eA, w', None)"
      "sweep M L srt io (prepare M L io oc eph0) w' = Some (eB, errB)"
      "effs = e1 @ pp_effects (prepare M L io oc eph0) @ eA @ eventsA io oc (prepare M L io oc eph0) @ eB"
proof -
  obtain i w eph0 where cl: "clampRefreshInterval M eph = (i, w, eph0)" by (metis prod_cases3)
  note f = clamp_fields(4) [OF cl]
  obtain r1 e1 out where aq: "acquireOMMs M L io r req eph0 i (eio_now io) w = (r1, e1, out)" by (metis prod_cases3)
  note ok = acquire_acquired [OF aq]
  show ?thesis
  proof (cases out)
    case (Inl res')
    then show ?thesis using early [of e1] ok assms cl aq by (auto simp: eph_Reconcile_def)
  next
    case (Inr oc)
    then have q: "quiet e1" using ok by (simp add: acquired_ok_def)
    obtain eA w' errA where pA: "persistEphStatus (eio_writeA io) (eio_recorder io) (pp_eph (prepare M L io oc eph0)) w = (eA, w', errA)"
      by (metis prod_cases3)
    show ?thesis
    proof (cases errA)
      case None
      then show ?thesis using written [OF q f] assms cl aq Inr pA
        by (auto simp: eph_Reconcile_def Let_def split: option.splits)
    next
      case (Some er)
      then show ?thesis using refused [OF q f] assms cl aq Inr pA by (auto simp: eph_Reconcile_def Let_def)
    qed
  qed
qed

lemma note_events_only: "list_all (\<lambda>e. case e of EphEvent _ _ _ _ \<Rightarrow> True | _ \<Rightarrow> False) (note_event rc t r a m)"
  by (simp add: note_event_def)

lemma eventsA_only: "list_all (\<lambda>e. case e of EphEvent _ _ _ _ \<Rightarrow> True | _ \<Rightarrow> False) (eventsA io oc p)"
  by (simp add: eventsA_def note_events_only)

lemma sweep_events: "sweep M L srt io p w = Some (e, err) \<Longrightarrow> events_ok True e"
  using events_ok_all [OF note_events_only, of _ _ _ _ _ "[]"] events_ok_all [OF note_events_only]
  by (auto simp: sweep_def Let_def persistEphStatus_def split: if_splits option.splits sum.splits prod.splits)

text \<open>C23: nothing is announced that was not recorded. In every reconcile, whatever the source, the API
  server and the pool answer, each event (the clamp of the refresh interval, a failed fetch, an insecure
  URL, the orbit regime, truncated states, fetched data, predicted passes) is emitted only after a status
  write of that reconcile, and only if the latest of its status writes succeeded.\<close>

theorem events_follow_write:
  assumes "eph_Reconcile M L srt io req r = Some (r', effs, res)"
  shows "events_ok False effs"
proof (cases "eio_get io")
  case (Found eph)
  from Found assms show ?thesis
  proof (cases rule: reconcile_cases)
    case (early e1)
    then have "events_ok False e1" by (simp add: acquired_ok_def)
    moreover have "events_ok b es \<Longrightarrow> events_ok b (es @ [Gauge g k n])" for b es g k n
      by (induction b es rule: events_ok.induct) auto
    ultimately show ?thesis using early by simp
  next
    case refused
    then show ?thesis by (simp add: events_ok_quiet events_ok_persist(2))
  next
    case written
    then show ?thesis
      using events_ok_persist(1) [OF written(3)] sweep_events [OF written(4)] by (simp add: events_ok_quiet events_ok_all [OF eventsA_only])
  qed
qed (use assms in \<open>auto simp: eph_Reconcile_def\<close>)

text \<open>The signature of the pass inputs that a reconcile computes before its first write.\<close>

lemma prepare_sig:
  fixes M L io oc eph
  defines "p \<equiv> prepare M L io oc eph"
  shows "\<exists>eph5. eph_Spec eph5 = eph_Spec eph \<and> (pp_sig p, pp_due p) = passSweepDecision io eph5 (eio_now io)
     \<and> pp_eph p = pass_gate M (pp_sig p) eph5"
proof -
  obtain near deep where s: "SplitByOrbitRegime (OMMs (oc_result oc)) = (near, deep)" by fastforce
  let ?eph3 = "fst (reportOrbitRegime M (report_data M oc (eph_map (\<lambda>st. st\<lparr>SatelliteCount := gf_SatelliteCount (oc_result oc),
      LastUpdated := Some (FetchedAt (oc_result oc))\<rparr>) eph))
      (int (length (FilterOMMs deep (trackedNorad (eph_Spec eph))))) (DeepSpaceSummary (FilterOMMs deep (trackedNorad (eph_Spec eph)))))"
  obtain eph4 tr e4 where p4: "propagateStates M L ?eph3 ((oc_result oc)\<lparr>OMMs := near\<rparr>) (eio_now_prop io + propagationEpochLead)
      = (eph4, tr, e4)" by (metis prod_cases3)
  let ?eph5 = "eph_map (\<lambda>st. st\<lparr>PropagatedStatesInputHash := propagationInputHash (fe_IsPrint (eio_fetch io)) (eph_Spec eph4)\<rparr>) eph4"
  have "eph_Spec ?eph5 = eph_Spec eph" using propagateStates_status(4) [OF p4] by simp
  moreover have "(pp_sig p, pp_due p) = passSweepDecision io ?eph5 (eio_now io) \<and> pp_eph p = pass_gate M (pp_sig p) ?eph5"
    using s p4 by (simp add: p_def prepare_def Let_def split_beta time_Add_def)
  ultimately show ?thesis by blast
qed

lemma sweep_writes:
  assumes "sweep M L srt io p w = Some (e, err)" "WriteStatus st ok \<in> set e"
  shows "pp_due p \<and> LastPassPredictionInputHash (eph_Status st) = pp_sig p"
  using assms
  by (auto simp: sweep_def note_event_def Let_def persistEphStatus_def split: if_splits option.splits sum.splits prod.splits)

lemma invalidate_no_passes: "meta_laws M \<Longrightarrow>
    FindStatusCondition M (eph_Conds (invalidatePassPredictionStatus M eph)) ConditionPassesPredicted = None"
  by (simp add: invalidatePassPredictionStatus_def meta_remove)

lemma pass_gate_true:
  assumes "meta_laws M" "FindStatusCondition M (eph_Conds (pass_gate M sig eph)) ConditionPassesPredicted = Some c"
    "cond_Status c = ConditionTrue"
  shows "passPredictionConfigured (eph_Spec eph) \<and> LastPassPredictionInputHash (eph_Status (pass_gate M sig eph)) = sig"
  using assms invalidate_no_passes [OF assms(1), of eph]
    meta_set_same [OF assms(1), of "eph_Conds (invalidatePassPredictionStatus M eph)"
      "mkCond ConditionPassesPredicted ConditionUnknown ''Recomputing''
        [Lit ''pass inputs changed; predictions are being recomputed''] (eph_Generation eph)"]
  by (auto simp: pass_gate_def same_cond_def split: if_splits)

text \<open>C16: pass windows are never vouched for with stale inputs. In every status a reconcile writes, also
  one that ends early or one whose second write fails, PassesPredicted is True only if pass prediction is
  configured and the recorded input hash is the signature of the inputs as this reconcile read them: the
  stations with their UID, generation and deletion mark, the selector, the elevation, the horizon and the
  source. In particular, a status written without element sets never has it True.\<close>

theorem pass_status_current:
  assumes "meta_laws M" "eio_get io = Found eph" "eph_Reconcile M L srt io req r = Some (r', effs, res)"
    and "WriteStatus st ok \<in> set effs"
    and "FindStatusCondition M (eph_Conds st) ConditionPassesPredicted = Some c" "cond_Status c = ConditionTrue"
  shows "\<exists>pp. PassPrediction (eph_Spec eph) = Some pp \<and> GroundStations pp \<noteq> []
     \<and> LastPassPredictionInputHash (eph_Status st)
         = passPredictionInputSignature (fe_IsPrint (eio_fetch io)) (eio_station_sig io) (eph_Spec eph) pp"
proof -
  have gate: ?thesis if h: "eph_Spec eph0 = eph_Spec eph"
      "passPredictionConfigured (eph_Spec eph)" "LastPassPredictionInputHash (eph_Status st) = pp_sig (prepare M L io oc eph0)"
    for oc eph0
  proof -
    obtain pp where pp: "PassPrediction (eph_Spec eph) = Some pp" "GroundStations pp \<noteq> []"
      using h(2) by (auto simp: passPredictionConfigured_def split: option.splits)
    obtain eph5 where "eph_Spec eph5 = eph_Spec eph0" "pp_sig (prepare M L io oc eph0) = fst (passSweepDecision io eph5 (eio_now io))"
      using prepare_sig [of eph0 M L io oc] by (metis fst_conv)
    then show ?thesis using h pp by (auto simp: passSweepDecision_def Let_def)
  qed
  have writeA: ?thesis if "eph_Spec eph0 = eph_Spec eph" "st = pp_eph (prepare M L io oc eph0)" for oc eph0
  proof -
    obtain eph5 where e5: "eph_Spec eph5 = eph_Spec eph0" "pp_eph (prepare M L io oc eph0) = pass_gate M (pp_sig (prepare M L io oc eph0)) eph5"
      using prepare_sig [of eph0 M L io oc] by metis
    have g: "FindStatusCondition M (eph_Conds (pass_gate M (pp_sig (prepare M L io oc eph0)) eph5)) ConditionPassesPredicted = Some c"
      using assms(5) that(2) e5(2) by simp
    show ?thesis
      by (rule gate [OF that(1)]) (use pass_gate_true [OF assms(1) g assms(6)] e5 that in auto)
  qed
  have writeB: ?thesis if "eph_Spec eph0 = eph_Spec eph" "sweep M L srt io (prepare M L io oc eph0) w = Some (e, er)"
      "WriteStatus st ok \<in> set e" for oc eph0 w e er
  proof -
    note s = sweep_writes [OF that(2,3)]
    obtain eph5 where e5: "eph_Spec eph5 = eph_Spec eph0"
      "(pp_sig (prepare M L io oc eph0), pp_due (prepare M L io oc eph0)) = passSweepDecision io eph5 (eio_now io)"
      using prepare_sig [of eph0 M L io oc] by metis
    then have "passPredictionConfigured (eph_Spec eph)"
      using s that(1) by (auto simp: passSweepDecision_def Let_def split: option.splits if_splits)
    with gate [OF that(1)] s show ?thesis by blast
  qed
  from assms(2,3) show ?thesis
  proof (cases rule: reconcile_cases)
    case (early e1)
    then show ?thesis using assms(4,5) invalidate_no_passes [OF assms(1)] by (force simp: acquired_ok_def)
  next
    case refused
    then show ?thesis using assms(4) writeA
      by (auto simp: persistEphStatus_def quiet_no_write [OF quiet_prepare] dest: quiet_no_write split: option.splits if_splits)
  next
    case written
    have "WriteStatus st ok \<notin> set (eventsA io oc p)" for oc p
      using eventsA_only [of io oc p] by (auto simp: list_all_iff)
    then show ?thesis using written assms(4) writeA writeB
      by (auto simp: persistEphStatus_def quiet_no_write [OF quiet_prepare] dest: quiet_no_write split: option.splits if_splits)
  qed
qed

section \<open>Reachable states of the reconciler\<close>

inductive eph_reach :: "'tle sgp4_api \<Rightarrow> EphemerisReconciler \<Rightarrow> bool" for L where
  eph_start: "f = None \<or> f = Some \<lparr>etagCache = Map.empty, lastModCache = Map.empty, ommCache = Map.empty\<rparr> \<Longrightarrow>
     eph_reach L \<lparr>rec_Fetcher = f, rec_SpaceTrack = s, rec_ommCache = Map.empty\<rparr>"
| eph_step: "eph_reach L r \<Longrightarrow> eph_Reconcile M L srt io req r = Some (r', effs, res) \<Longrightarrow> eph_reach L r'"

text \<open>Every cached element set is valid, an armed backoff has its error, and the fetcher's own cache is
  valid.\<close>

definition entry_ok :: "cachedFetch \<Rightarrow> bool" where
  "entry_ok c \<longleftrightarrow> all_valid (OMMs (cf_result c)) \<and> (nextFetchAttempt c \<noteq> 0 \<longrightarrow> lastFetchErr c \<noteq> None)"

definition eph_inv :: "EphemerisReconciler \<Rightarrow> bool" where
  "eph_inv r \<longleftrightarrow> (\<forall>f. rec_Fetcher r = Some f \<longrightarrow> cache_valid f) \<and> (\<forall>k c. rec_ommCache r k = Some c \<longrightarrow> entry_ok c)"

lemma eph_inv_store: "eph_inv r \<Longrightarrow> entry_ok c \<Longrightarrow> eph_inv (store r k c)"
  by (simp add: eph_inv_def store_def)

lemma ommCache_seed [simp]: "ommCache (SeedConditionalCache f u a b) = ommCache f"
  by (simp add: SeedConditionalCache_def Let_def)

lemma eph_inv_hydrate:
  assumes "eph_inv r" "hydrateFromCacheObject L io r req eph key name legacy = (ok, r', e)"
  shows "eph_inv r'"
proof -
  have "\<exists>f. rec_Fetcher r = Some f \<and> ommCache g = ommCache f" if "rec_Fetcher r' = Some g" for g
    using assms(2) that by (auto simp: hydrateFromCacheObject_def Let_def split: get.splits if_splits sum.splits)
  then have "cache_valid g" if "rec_Fetcher r' = Some g" for g
    using assms(1) that by (fastforce simp: eph_inv_def cache_valid_def)
  moreover have "entry_ok c" if "rec_ommCache r' k = Some c" for k c
    using hydrate_cases [OF assms(2)] assms(1) that
    by (auto simp: eph_inv_def entry_ok_def split: if_splits)
  ultimately show ?thesis by (simp add: eph_inv_def)
qed

lemma eph_inv_restore:
  assumes "eph_inv r" "restoreOMMCache L io r req eph key = (r', e)"
  shows "eph_inv r'"
proof -
  obtain ok r1 e1 where h1: "hydrateFromCacheObject L io r req eph key (ommCacheConfigMapName eph) False = (ok, r1, e1)"
    by (metis prod_cases3)
  obtain ok2 r2 e2 where h2: "hydrateFromCacheObject L io r1 req eph key
      (legacyOMMCacheConfigMapName (om_Name (eph_Meta eph))) True = (ok2, r2, e2)" by (metis prod_cases3)
  have "r' \<in> {r, r1, r2}"
    using assms(2) h1 h2 by (auto simp: restoreOMMCache_def split: option.splits if_splits)
  then show ?thesis using eph_inv_hydrate [OF assms(1) h1] eph_inv_hydrate [OF _ h2] assms(1) by auto
qed

lemma eph_inv_fetch:
  assumes "eph_inv r" "run_fetch L io r f url = (res, r')" "f = CelesTrak \<Longrightarrow> rec_Fetcher r \<noteq> None"
  shows "eph_inv r' \<and> (case res of Inr g \<Rightarrow> all_valid (OMMs g) | Inl _ \<Rightarrow> True)"
proof (cases f)
  case CelesTrak
  then obtain g where g: "rec_Fetcher r = Some g" using assms(3) by auto
  then have "cache_valid g" using assms(1) by (simp add: eph_inv_def)
  from CelesTrak_Fetch_valid [OF this, of L "eio_fetch io" url] show ?thesis
    using assms(1,2) CelesTrak g by (auto simp: run_fetch_def eph_inv_def split: prod.splits)
next
  case (BoundSpaceTrack u p)
  then show ?thesis
    using assms(1,2) FetchWithCredentials_valid [of L "eio_fetch io" "the (rec_SpaceTrack r)" url u p]
    by (auto simp: run_fetch_def eph_inv_def split: prod.splits sum.splits)
qed

lemma outcome_simps [simp]:
  "oc_result (from_cache g) = g" "servedCacheOnError (from_cache g) = False"
  "oc_result (degraded g e s) = g" "cacheServeErr (degraded g e s) = e"
  "oc_result (fetched g) = g" "servedCacheOnError (fetched g) = False"
  by (simp_all add: from_cache_def degraded_def fetched_def)

lemma eph_inv_failed:
  assumes "eph_inv r" "fetch_failed M io r req eph i w fe = (r', e, out)"
  shows "eph_inv r' \<and> (\<forall>oc. out = Inr oc \<longrightarrow> all_valid (OMMs (oc_result oc)) \<and> cacheServeErr oc \<noteq> None)"
proof (cases "matchingCache (fe_IsPrint (eio_fetch io)) r req eph")
  case (Some c)
  then have "entry_ok c" using assms(1) matching_warm [OF Some] by (auto simp: eph_inv_def)
  then have "entry_ok (applyFetchBackoff c fe (retryInputKey (eph_Spec eph) i) i (eio_now_backoff io))"
    by (simp add: entry_ok_def)
  with assms Some \<open>entry_ok c\<close> show ?thesis by (auto simp: fetch_failed_def Let_def eph_inv_store entry_ok_def)
qed (use assms in \<open>auto simp: fetch_failed_def split: prod.splits\<close>)

lemma eph_inv_ok:
  assumes "eph_inv r" "all_valid (OMMs g)" "fetch_ok io r req eph g = (r', e, oc)"
  shows "eph_inv r' \<and> all_valid (OMMs (oc_result oc)) \<and> \<not> servedCacheOnError oc"
proof -
  have entry: "entry_ok c" if "matchingCache (fe_IsPrint (eio_fetch io)) r req eph = Some c" for c
    using assms(1) matching_warm [OF that] by (auto simp: eph_inv_def)
  have "entry_ok (fresh_entry g k u)" for k u using assms(2) by (simp add: entry_ok_def fresh_entry_def)
  with assms entry show ?thesis
    by (auto simp: fetch_ok_def Let_def eph_inv_store split: if_splits option.splits intro!: eph_inv_store)
       (auto simp: entry_ok_def)
qed

lemma eph_inv_obtain:
  assumes "eph_inv r" "obtainOMMs M L io r req eph f i w = (r', e, out)" "f = CelesTrak \<Longrightarrow> rec_Fetcher r \<noteq> None"
  shows "eph_inv r' \<and> (\<forall>oc. out = Inr oc \<longrightarrow> all_valid (OMMs (oc_result oc)) \<and> (servedCacheOnError oc \<longrightarrow> cacheServeErr oc \<noteq> None))"
proof (cases "publicHTTPSource io (src_URL (Source (eph_Spec eph)))")
  case None
  obtain fr r1 where fr: "run_fetch L io r f (src_URL (Source (eph_Spec eph))) = (fr, r1)" by fastforce
  note inv = eph_inv_fetch [OF assms(1) fr assms(3)]
  show ?thesis
  proof (cases fr)
    case (Inl fe)
    then obtain e1 where "fetch_failed M io r1 req eph i w fe = (r', e1, out)"
      using assms(2) None fr by (auto simp: obtainOMMs_def Let_def split: prod.splits)
    with eph_inv_failed [of r1] inv show ?thesis by blast
  next
    case (Inr g)
    then obtain e1 oc where "fetch_ok io r1 req eph g = (r', e1, oc)" "out = Inr oc"
      using assms(2) None fr by (auto simp: obtainOMMs_def Let_def split: prod.splits)
    with eph_inv_ok [of r1 g] inv Inr show ?thesis by auto
  qed
qed (use assms in \<open>auto simp: obtainOMMs_def split: prod.splits\<close>)

lemma eph_inv_acquire:
  assumes "eph_inv r" "acquireOMMs M L io r req eph i now w = (r', e, out)"
  shows "eph_inv r' \<and> (\<forall>oc. out = Inr oc \<longrightarrow> all_valid (OMMs (oc_result oc))
     \<and> (0 \<le> now \<and> servedCacheOnError oc \<longrightarrow> cacheServeErr oc \<noteq> None))"
proof -
  let ?P = "fe_IsPrint (eio_fetch io)"
  obtain r1 e1 where re: "restoreOMMCache L io r req eph (fetchInputKey ?P (eph_Spec eph)) = (r1, e1)" by fastforce
  note i1 = eph_inv_restore [OF assms(1) re]
  have entry: "entry_ok c" if "matchingCache ?P r1 req eph = Some c" for c
    using i1 matching_warm [OF that] by (auto simp: eph_inv_def)
  obtain fo e2 where fo: "fetcherForSource io r1 eph = (fo, e2)" by fastforce
  show ?thesis
  proof (cases "cacheServe ?P r1 req eph now i")
    case cacheServeNone
    show ?thesis
    proof (cases fo)
      case (Inr f)
      have "f = CelesTrak \<Longrightarrow> rec_Fetcher r1 \<noteq> None"
        using fo Inr by (auto simp: fetcherForSource_def Let_def split: if_splits option.splits sum.splits)
      moreover obtain e3 where "obtainOMMs M L io r1 req eph f i w = (r', e3, out)"
        using assms(2) re fo cacheServeNone Inr by (auto simp: acquireOMMs_def Let_def split: prod.splits)
      ultimately show ?thesis using eph_inv_obtain [OF i1] by blast
    next
      case (Inl fe)
      then show ?thesis using assms(2) re fo cacheServeNone i1 entry
        by (auto simp: acquireOMMs_def Let_def entry_ok_def split: option.splits prod.splits)
    qed
  next
    case (cacheServeWindow c)
    then have "entry_ok c" using entry by (auto simp: cacheServe_def split: option.splits if_splits)
    then show ?thesis using assms(2) re cacheServeWindow i1 by (auto simp: acquireOMMs_def Let_def entry_ok_def)
  next
    case (cacheServeBackoff c)
    then have "entry_ok c" "now < nextFetchAttempt c" using entry by (auto simp: cacheServe_def split: option.splits if_splits)
    then show ?thesis using assms(2) re cacheServeBackoff i1 by (auto simp: acquireOMMs_def Let_def entry_ok_def)
  qed
qed

lemma eph_inv_reconcile:
  assumes "eph_inv r" "eph_Reconcile M L srt io req r = Some (r', effs, res)"
  shows "eph_inv r'"
proof (cases "eio_get io")
  case (Found eph)
  obtain i w eph0 where cl: "clampRefreshInterval M eph = (i, w, eph0)" by (metis prod_cases3)
  obtain r1 e1 out where aq: "acquireOMMs M L io r req eph0 i (eio_now io) w = (r1, e1, out)" by (metis prod_cases3)
  have "r' = r1" using assms(2) Found cl aq
    by (auto simp: eph_Reconcile_def Let_def split: sum.splits option.splits prod.splits)
  then show ?thesis using eph_inv_acquire [OF assms(1) aq] by simp
qed (use assms in \<open>auto simp: eph_Reconcile_def eph_inv_def split: if_splits\<close>)

lemma eph_reach_inv: "eph_reach L r \<Longrightarrow> eph_inv r"
proof (induction rule: eph_reach.induct)
  case (eph_start f s)
  then show ?case by (auto simp: eph_inv_def cache_valid_def)
next
  case (eph_step r M srt io req r' effs res)
  then show ?case by (blast intro: eph_inv_reconcile)
qed

text \<open>C15: only valid element sets are ever propagated. From any reachable state of the reconciler, over
  any history of fetches, 304 answers, failures, restarts from a ConfigMap with any contents, deletions
  and edits, the element sets a reconcile goes on with, fresh or cached, are finite with a positive mean
  motion, an eccentricity in [0,1) and an inclination in [0,180]; and when it serves the cache after a
  failure there is an error to report, so the status message never dereferences nil.\<close>

theorem only_valid_elements_propagated:
  assumes "eph_reach L r" "acquireOMMs M L io r req eph i now w = (r', e, Inr oc)" "0 \<le> now"
  shows "list_all (\<lambda>o'. list_all is_finite [MeanMotion o', Eccentricity o', Inclination o', RAOfAscNode o',
          ArgOfPericenter o', MeanAnomaly o', BStar o', MeanMotionDot o', MeanMotionDDot o']
        \<and> f64_less (Fin 0) (MeanMotion o') \<and> f64_le (Fin 0) (Eccentricity o') \<and> f64_less (Eccentricity o') (Fin 1)
        \<and> f64_le (Fin 0) (Inclination o') \<and> f64_le (Inclination o') (Fin 180)) (OMMs (oc_result oc))
     \<and> (servedCacheOnError oc \<longrightarrow> cacheServeErr oc \<noteq> None)"
  using eph_inv_acquire [OF eph_reach_inv [OF assms(1)] assms(2)] assms(3)
  by (simp add: all_valid_def validOMM_None_iff)

section \<open>Instances\<close>

text \<open>A process that fetched the ISS, and a source that is down.\<close>

definition warm_with :: "SatelliteEphemeris \<Rightarrow> GPFetchResult \<Rightarrow> EphemerisReconciler" where
  "warm_with eph g = store cold (eph_Key eph) (fresh_entry g (fetchInputKey (\<lambda>r. 32 \<le> r \<and> r < 127) (eph_Spec eph)) (eph_UID eph))"

definition down_io :: "time \<Rightarrow> SatelliteEphemeris \<Rightarrow> eph_io" where
  "down_io t eph = (demo_io t eph)\<lparr>eio_fetch := (demo_fetch_env body_answer)\<lparr>fe_NewRequest := (\<lambda>_. Some (Errorf [])),
     fe_ParseURL := (\<lambda>_. Inl (Errorf []))\<rparr>\<rparr>"

lemma down_fetch: "isl (fst (run_fetch L (down_io t eph) r f url))"
  by (cases f) (simp_all add: run_fetch_def down_io_def demo_io_def CelesTrak_Fetch_def FetchWithCredentials_def validateGPURL_def
      demo_fetch_env_def)

lemma demo_io_simps [simp]:
  "eio_get (demo_io t eph) = Found eph" "fe_IsPrint (eio_fetch (demo_io t eph)) = (\<lambda>r. 32 \<le> r \<and> r < 127)"
  "eio_get (down_io t eph) = Found eph" "fe_IsPrint (eio_fetch (down_io t eph)) = (\<lambda>r. 32 \<le> r \<and> r < 127)"
  "eio_now (demo_io t eph) = t" "eio_now (down_io t eph) = t" "eio_writeA (demo_io t eph) = None" "eio_writeA (down_io t eph) = None"
  "eio_now_prop (demo_io t eph) = t" "eio_now_prop (down_io t eph) = t" "eio_writeB (down_io t eph) = None"
  "publicHTTPSource (demo_io t eph) u = None" "publicHTTPSource (down_io t eph) u = None"
  "eio_recorder (demo_io t eph)"
  by (simp_all add: demo_io_def down_io_def demo_fetch_env_def publicHTTPSource_def ToLower_def)

lemma demo_refresh: "RefreshInterval (Source (eph_Spec demo_eph)) = 2 * hour"
  by (simp add: demo_eph_def)

lemma cf_result_fresh: "cf_result (fresh_entry g k u) = g"
  by (simp add: fresh_entry_def)

lemma warm_matching: "matchingCache (\<lambda>r. 32 \<le> r \<and> r < 127) (warm_with eph g) (eph_Key eph) eph
    = Some (fresh_entry g (fetchInputKey (\<lambda>r. 32 \<le> r \<and> r < 127) (eph_Spec eph)) (eph_UID eph))"
  by (simp add: matchingCache_def cachedOMMResult_def warm_with_def store_def fresh_entry_def)

lemma iss_near: "\<not> IsDeepSpace iss"
  by (simp add: IsDeepSpace_def DeepSpacePeriodMinutes_def iss_def demo_omm_def OrbitalPeriod_pos)

text \<open>Without a pass prediction every reconcile returns.\<close>

lemma reconcile_returns:
  assumes "PassPrediction (eph_Spec eph) = None" "eio_get io = Found eph"
  shows "\<exists>r' effs res. eph_Reconcile M L srt io req r = Some (r', effs, res)"
proof -
  obtain i w eph0 where cl: "clampRefreshInterval M eph = (i, w, eph0)" by (metis prod_cases3)
  have "\<not> pp_due (prepare M L io oc eph0)" for oc
    using prepare_sig [of eph0 M L io oc] assms(1) clamp_fields(4) [OF cl] by (auto simp: passSweepDecision_def)
  then have "sweep M L srt io (prepare M L io oc eph0) c = Some ([], None)" for oc c by (simp add: sweep_def)
  then show ?thesis using assms(2) cl
    by (cases "acquireOMMs M L io r req eph0 i (eio_now io) w" rule: prod_cases3)
       (auto simp: eph_Reconcile_def Let_def split: prod.splits sum.splits option.splits)
qed

theorem heartbeat_through_outage_witness:
  "\<exists>r' effs res st. eph_Reconcile list_meta iss_lib insertion_sort (down_io jan1 demo_eph) (eph_Key demo_eph)
       (warm_with demo_eph iss_result) = Some (r', effs, res)
     \<and> WriteStatus st True \<in> set effs \<and> PropagatedStates (eph_Status st) = [iss_state]"
proof -
  have pn: "PassPrediction (eph_Spec demo_eph) = None" by (simp add: demo_eph_def)
  obtain r' effs res where r: "eph_Reconcile list_meta iss_lib insertion_sort (down_io jan1 demo_eph) (eph_Key demo_eph)
       (warm_with demo_eph iss_result) = Some (r', effs, res)"
    using reconcile_returns [OF pn demo_io_simps(3)] by blast
  have states: "take 128 (List.map_filter (state_for iss_lib jan1 (jan1 + 5 * minute))
      (canonicalizeOMMs (FilterOMMs (fst (SplitByOrbitRegime (OMMs iss_result))) (trackedNorad (eph_Spec demo_eph))))) = [iss_state]"
    using iss_canonical iss_state_for
    by (simp add: iss_result_def FilterOMMs_def trackedNorad_def demo_eph_def SplitByOrbitRegime_filter iss_near map_filter_Cons List.map_filter_simps(2))
  have "\<exists>st. WriteStatus st True \<in> set effs \<and> PropagatedStates (eph_Status st) = [iss_state]"
    using heartbeat_through_outage [of "down_io jan1 demo_eph" demo_eph "warm_with demo_eph iss_result" "eph_Key demo_eph" _ iss_lib,
      OF demo_io_simps(3) _ demo_io_simps(13) down_fetch demo_io_simps(8) r] states
    by (auto simp: warm_matching fresh_entry_def)
  with r show ?thesis by blast
qed

theorem cache_spares_source_witness:
  "\<exists>r' effs res. eph_Reconcile list_meta iss_lib insertion_sort (demo_io (1000 * second) demo_eph) (eph_Key demo_eph)
       (warm_with demo_eph iss_result) = Some (r', effs, res) \<and> CallFetch ''u'' \<notin> set effs"
proof -
  have pn: "PassPrediction (eph_Spec demo_eph) = None" by (simp add: demo_eph_def)
  obtain r' effs res where r: "eph_Reconcile list_meta iss_lib insertion_sort (demo_io (1000 * second) demo_eph) (eph_Key demo_eph)
       (warm_with demo_eph iss_result) = Some (r', effs, res)"
    using reconcile_returns [OF pn demo_io_simps(1)] by blast
  from cache_spares_source [of "demo_io (1000 * second) demo_eph" demo_eph "warm_with demo_eph iss_result" "eph_Key demo_eph" _ "2 * hour", OF _ _ _ _ r]
  have "CallFetch ''u'' \<notin> set effs" by (auto simp: warm_matching fresh_entry_def demo_refresh iss_result_def time_Sub_def min_int64_def)
  with r show ?thesis by blast
qed

theorem events_follow_write_witness:
  "\<exists>r' effs res. eph_Reconcile list_meta iss_lib insertion_sort (demo_io jan1 demo_eph) (eph_Key demo_eph) cold = Some (r', effs, res)
     \<and> events_ok False effs"
proof -
  have pn: "PassPrediction (eph_Spec demo_eph) = None" by (simp add: demo_eph_def)
  obtain r' effs res where r: "eph_Reconcile list_meta iss_lib insertion_sort (demo_io jan1 demo_eph) (eph_Key demo_eph) cold = Some (r', effs, res)"
    using reconcile_returns [OF pn demo_io_simps(1)] by blast
  with events_follow_write [OF r] show ?thesis by blast
qed

text \<open>A resource whose windows were predicted an hour ago from its current inputs.\<close>

definition passes_eph :: SatelliteEphemeris where
  "passes_eph = (let pp = \<lparr>GroundStations = [''gs''], MinElevation = ''10'', Horizon = 0\<rparr>;
       spec = (eph_Spec demo_eph)\<lparr>PassPrediction := Some pp\<rparr> in
     demo_eph\<lparr>eph_Spec := spec, eph_Status := (eph_Status demo_eph)\<lparr>LastPassPredictionTime := Some jan1,
       LastPassPredictionInputHash := passPredictionInputSignature (\<lambda>r. 32 \<le> r \<and> r < 127) (\<lambda>_. NotFound) spec pp,
       eph_Conditions := [mkCond ConditionPassesPredicted ConditionTrue ''Predicted'' [] 1]\<rparr>\<rparr>)"

text \<open>The part of the status that belongs to the pass prediction. Steps 6 to 7 leave it to the pass gate.\<close>

definition pass_view :: "meta_api \<Rightarrow> SatelliteEphemeris \<Rightarrow> time option \<times> string \<times> Condition option" where
  "pass_view M eph = (LastPassPredictionTime (eph_Status eph), LastPassPredictionInputHash (eph_Status eph),
     FindStatusCondition M (eph_Conds eph) ConditionPassesPredicted)"

lemma pass_view_set_cond: "meta_laws M \<Longrightarrow> t \<noteq> ConditionPassesPredicted \<Longrightarrow> pass_view M (eph_set_cond M t s r m eph) = pass_view M eph"
  by (simp add: pass_view_def eph_set_cond_def meta_set_other)

lemma pass_view_map:
  "(\<And>st. (LastPassPredictionTime (f st), LastPassPredictionInputHash (f st), eph_Conditions (f st))
      = (LastPassPredictionTime st, LastPassPredictionInputHash st, eph_Conditions st)) \<Longrightarrow> pass_view M (eph_map f eph) = pass_view M eph"
  by (simp add: pass_view_def)

lemma pass_view_report:
  assumes "meta_laws M"
  shows "pass_view M (report_data M oc eph) = pass_view M eph"
    "pass_view M (fst (reportOrbitRegime M eph n s)) = pass_view M eph"
    "pass_view M (fst (propagateStates M L eph g t)) = pass_view M eph"
    "pass_view M (snd (snd (clampRefreshInterval M eph))) = pass_view M eph"
  using assms
  by (simp_all add: report_data_def reportOrbitRegime_def propagateStates_def reportStatesTruncated_def reportEphemerisEpochStale_def
      reportSourceEpochRejected_def reportPropagationFailed_def clampRefreshInterval_def Let_def split_beta
      pass_view_set_cond pass_view_map eph_condition_names)

lemma pass_view_prepare:
  assumes "meta_laws M" "passPredictionConfigured (eph_Spec eph)" "PassPrediction (eph_Spec eph) = Some pp"
    and "LastPassPredictionInputHash (eph_Status eph) = passPredictionInputSignature (fe_IsPrint (eio_fetch io)) (eio_station_sig io) (eph_Spec eph) pp"
    and "LastPassPredictionTime (eph_Status eph) = Some (eio_now io)"
  shows "pass_view M (pp_eph (prepare M L io oc eph)) = pass_view M eph \<and> \<not> pp_due (prepare M L io oc eph)"
proof -
  obtain near deep where s: "SplitByOrbitRegime (OMMs (oc_result oc)) = (near, deep)" by fastforce
  let ?eph3 = "fst (reportOrbitRegime M (report_data M oc (eph_map (\<lambda>st. st\<lparr>SatelliteCount := gf_SatelliteCount (oc_result oc),
      LastUpdated := Some (FetchedAt (oc_result oc))\<rparr>) eph))
      (int (length (FilterOMMs deep (trackedNorad (eph_Spec eph))))) (DeepSpaceSummary (FilterOMMs deep (trackedNorad (eph_Spec eph)))))"
  obtain eph4 tr e4 where p4: "propagateStates M L ?eph3 ((oc_result oc)\<lparr>OMMs := near\<rparr>) (eio_now_prop io + propagationEpochLead)
      = (eph4, tr, e4)" by (metis prod_cases3)
  let ?eph5 = "eph_map (\<lambda>st. st\<lparr>PropagatedStatesInputHash := propagationInputHash (fe_IsPrint (eio_fetch io)) (eph_Spec eph4)\<rparr>) eph4"
  note rep = pass_view_report [OF assms(1)]
  have "pass_view M eph4 = pass_view M ?eph3"
    using rep(3) [of L ?eph3 "(oc_result oc)\<lparr>OMMs := near\<rparr>" "eio_now_prop io + propagationEpochLead"] unfolding p4 by simp
  then have "pass_view M ?eph5 = pass_view M eph" by (simp add: pass_view_map rep)
  moreover have "eph_Spec ?eph5 = eph_Spec eph" using propagateStates_status(4) [OF p4] by simp
  moreover have "(pp_sig (prepare M L io oc eph), pp_due (prepare M L io oc eph)) = passSweepDecision io ?eph5 (eio_now io)
      \<and> pp_eph (prepare M L io oc eph) = pass_gate M (pp_sig (prepare M L io oc eph)) ?eph5"
    using s p4 by (simp add: prepare_def Let_def split_beta time_Add_def)
  ultimately show ?thesis using assms(2-)
    by (auto simp: passSweepDecision_def passSweepDue_def pass_view_def pass_gate_def Let_def time_Add_def passPredictionInterval_def)
qed

lemma passes_eph_simps:
  "eio_station_sig (demo_io t eph) = (\<lambda>_. NotFound)"
  "PassPrediction (eph_Spec passes_eph) = Some \<lparr>GroundStations = [''gs''], MinElevation = ''10'', Horizon = 0\<rparr>"
  "RefreshInterval (Source (eph_Spec passes_eph)) = 2 * hour"
  "LastPassPredictionTime (eph_Status passes_eph) = Some jan1"
  "LastPassPredictionInputHash (eph_Status passes_eph) = passPredictionInputSignature (\<lambda>r. 32 \<le> r \<and> r < 127) (\<lambda>_. NotFound)
     (eph_Spec passes_eph) \<lparr>GroundStations = [''gs''], MinElevation = ''10'', Horizon = 0\<rparr>"
  "passPredictionConfigured (eph_Spec passes_eph)"
  "FindStatusCondition list_meta (eph_Conds passes_eph) ConditionPassesPredicted = Some (mkCond ConditionPassesPredicted ConditionTrue ''Predicted'' [] 1)"
  by (simp_all add: demo_io_def passes_eph_def demo_eph_def Let_def passPredictionConfigured_def list_meta_def)

theorem pass_status_current_witness:
  "\<exists>r' effs res st ok c. eph_Reconcile list_meta iss_lib insertion_sort (demo_io jan1 passes_eph) (eph_Key passes_eph)
       (warm_with passes_eph (iss_result\<lparr>FetchedAt := jan1\<rparr>)) = Some (r', effs, res)
     \<and> WriteStatus st ok \<in> set effs \<and> FindStatusCondition list_meta (eph_Conds st) ConditionPassesPredicted = Some c
     \<and> cond_Status c = ConditionTrue
     \<and> (\<exists>pp. PassPrediction (eph_Spec passes_eph) = Some pp \<and> LastPassPredictionInputHash (eph_Status st)
           = passPredictionInputSignature (\<lambda>r. 32 \<le> r \<and> r < 127) (\<lambda>_. NotFound) (eph_Spec passes_eph) pp)"
proof -
  let ?io = "demo_io jan1 passes_eph" and ?g = "iss_result\<lparr>FetchedAt := jan1\<rparr>"
  let ?r = "warm_with passes_eph ?g"
  obtain i w eph0 where cl: "clampRefreshInterval list_meta passes_eph = (i, w, eph0)" by (metis prod_cases3)
  note c0 = clamp_fields [OF cl]
  have v0: "pass_view list_meta eph0 = pass_view list_meta passes_eph"
    using pass_view_report(4) [OF list_meta_laws, of passes_eph] cl by simp
  let ?p = "prepare list_meta iss_lib ?io (from_cache ?g) eph0"
  have v: "pass_view list_meta (pp_eph ?p) = pass_view list_meta passes_eph \<and> \<not> pp_due ?p"
    using pass_view_prepare [OF list_meta_laws, of eph0 _ ?io iss_lib "from_cache ?g"] v0 c0
    by (simp add: passes_eph_simps pass_view_def)
  have "acquireOMMs list_meta iss_lib ?io ?r (eph_Key passes_eph) eph0 i jan1 w = (?r, [], Inr (from_cache ?g))"
  proof -
    have "matchingCache (fe_IsPrint (eio_fetch ?io)) ?r (eph_Key passes_eph) eph0 = Some (fresh_entry ?g
        (fetchInputKey (\<lambda>r. 32 \<le> r \<and> r < 127) (eph_Spec passes_eph)) (eph_UID passes_eph))"
      using warm_matching [of passes_eph ?g] matchingCache_cong [OF c0(3,4)] by simp
    moreover have "time_Sub jan1 (FetchedAt ?g) < i" using c0(1) by (simp add: time_Sub_def min_int64_def)
    ultimately have serve: "cacheServe (fe_IsPrint (eio_fetch ?io)) ?r (eph_Key passes_eph) eph0 jan1 i = cacheServeWindow (fresh_entry ?g
        (fetchInputKey (\<lambda>r. 32 \<le> r \<and> r < 127) (eph_Spec passes_eph)) (eph_UID passes_eph))"
      by (simp add: cacheServe_def fresh_entry_def)
    have "rec_ommCache ?r (eph_Key passes_eph) = Some (fresh_entry ?g
        (fetchInputKey (\<lambda>r. 32 \<le> r \<and> r < 127) (eph_Spec passes_eph)) (eph_UID passes_eph))"
      by (simp add: warm_with_def store_def)
    from acquire_window [OF this serve, of list_meta iss_lib w] show ?thesis by (simp only: cf_result_fresh)
  qed
  then obtain effs res where r: "eph_Reconcile list_meta iss_lib insertion_sort ?io (eph_Key passes_eph) ?r = Some (?r, effs, res)"
      "WriteStatus (pp_eph ?p) True \<in> set effs"
    using cl v by (cases "cw_reason w = ''''") (simp_all add: eph_Reconcile_def sweep_def persistEphStatus_def Let_def)
  have c: "FindStatusCondition list_meta (eph_Conds (pp_eph ?p)) ConditionPassesPredicted
      = Some (mkCond ConditionPassesPredicted ConditionTrue ''Predicted'' [] 1)"
    using v by (simp add: pass_view_def passes_eph_simps)
  from pass_status_current [OF list_meta_laws demo_io_simps(1) r this] show ?thesis
    using r c by (fastforce simp: passes_eph_simps(1))
qed

theorem only_valid_elements_propagated_witness:
  "\<exists>r' e oc. acquireOMMs list_meta iss_lib (demo_io jan1 demo_eph) cold (eph_Key demo_eph) demo_eph (2 * hour) jan1 no_warn
       = (r', e, Inr oc)
     \<and> OMMs (oc_result oc) = [iss] \<and> f64_less (Fin 0) (MeanMotion iss)"
proof -
  have "eph_reach iss_lib cold" unfolding cold_def by (rule eph_start) (simp add: fresh_celestrak_def)
  note v = only_valid_elements_propagated [OF this]
  have p: "ParseValidOMMs iss_lib b = Inr [iss]" for b
    by (simp add: ParseValidOMMs_def iss_lib_def filterValidOMMs_def iss_valid)
  obtain f where f: "CelesTrak_Fetch iss_lib (demo_fetch_env body_answer) fresh_celestrak ''u'' = (Inr iss_result, f)"
    using read_small [of 200 "\<lambda>k. if k = ''ETag'' then ''v1'' else ''''"]
    by (simp add: CelesTrak_Fetch_def demo_fetch_env_def body_answer_def p iss_result_def fresh_celestrak_def Let_def)
       (simp add: demo_response_def maxResponseBody_def p Let_def)
  have "fetcherForSource (demo_io jan1 demo_eph) cold demo_eph = (Inr CelesTrak, [])"
    by (simp add: fetcherForSource_def demo_eph_def cold_def Let_def)
  moreover obtain e1 where "restoreOMMCache iss_lib (demo_io jan1 demo_eph) cold (eph_Key demo_eph) demo_eph
      (fetchInputKey (\<lambda>r. 32 \<le> r \<and> r < 127) (eph_Spec demo_eph)) = (cold, e1)"
    by (simp add: restoreOMMCache_def hydrateFromCacheObject_def cachedOMMResult_def demo_io_def cold_def Let_def)
  moreover have "cacheServe P cold (eph_Key demo_eph) demo_eph jan1 (2 * hour) = cacheServeNone" for P
    by (simp add: cacheServe_def matchingCache_def cachedOMMResult_def cold_def)
  moreover obtain r2 where "run_fetch iss_lib (demo_io jan1 demo_eph) cold CelesTrak ''u'' = (Inr iss_result, r2)"
    using f by (simp add: run_fetch_def demo_io_def cold_def)
  moreover have "src_URL (Source (eph_Spec demo_eph)) = ''u''" by (simp add: demo_eph_def)
  ultimately obtain r' e oc where a: "acquireOMMs list_meta iss_lib (demo_io jan1 demo_eph) cold (eph_Key demo_eph) demo_eph (2 * hour) jan1 no_warn
       = (r', e, Inr oc)" "OMMs (oc_result oc) = [iss]"
    by (simp add: acquireOMMs_def obtainOMMs_def fetch_ok_def fetched_def iss_result_def Let_def)
  with v [OF a(1)] show ?thesis by (auto simp: jan1_def)
qed

text \<open>A cleartext source whose name resolves to a public address ends the reconcile also when the cache could
  have served it: no state is propagated in that reconcile, although \<open>acquireOMMs\<close> announces an early end
  only when there is nothing to propagate.\<close>

lemma insecure_url_skips_cache:
  assumes "matchingCache (fe_IsPrint (eio_fetch io)) r req eph = Some c"
    and "cacheServe (fe_IsPrint (eio_fetch io)) r req eph now i = cacheServeNone"
    and "fetcherForSource io r eph = (Inr f, e2)" "publicHTTPSource io (src_URL (Source (eph_Spec eph))) = Some ip"
  shows "\<exists>r' e res. acquireOMMs M L io r req eph i now w = (r', e, Inl res)"
proof -
  have "rec_ommCache r req = Some c" using matching_warm [OF assms(1)] by simp
  moreover obtain r2 e3 res where "obtainOMMs M L io r req eph f i w = (r2, e3, Inl res)"
    using assms(4) by (cases "handleInsecureURL M io eph ip w") (auto simp: obtainOMMs_def Let_def)
  ultimately show ?thesis using acquire_fetch assms(2,3) by blast
qed

end
