(* ===== verification/Ephemeris_Backoff.thy ===== *)
theory Ephemeris_Backoff
  imports Ephemeris_Laws
begin

text \<open>
  The pacing of a source that fails: over any run of reconciles of one resource during which no fetch succeeds, how long
  the controller leaves the source alone after each failed call.
\<close>

section \<open>Runs without a successful fetch\<close>

text \<open>The error the fetch of a reconcile returns, when it gets as far as calling one.\<close>

definition fetch_error :: "'tle sgp4_api \<Rightarrow> eph_io \<Rightarrow> EphemerisReconciler \<Rightarrow> SatelliteEphemeris \<Rightarrow> gerror option" where
  "fetch_error L io r eph =
     (case fst (fetcherForSource io r eph) of
        Inl _ \<Rightarrow> None
      | Inr f \<Rightarrow> (case fst (run_fetch L io r f (src_URL (Source (eph_Spec eph)))) of Inl fe \<Rightarrow> Some fe | Inr _ \<Rightarrow> None))"

text \<open>A failed call: the clock when the reconcile decided to make it, the clock when it had failed, and the error.\<close>

record failed_call =
  fc_begun :: time
  fc_ended :: time
  fc_error :: gerror

text \<open>The reconciles may come at any time and in any environment and see any status, but the spec and the identity of
  the resource stay as they are; the log holds the calls, all of which fail.\<close>

inductive outage :: "meta_api \<Rightarrow> 'tle sgp4_api \<Rightarrow> sorter \<Rightarrow> (rune \<Rightarrow> bool) \<Rightarrow> SatelliteEphemeris \<Rightarrow> NamespacedName
    \<Rightarrow> EphemerisReconciler \<Rightarrow> failed_call list \<Rightarrow> EphemerisReconciler \<Rightarrow> bool"
  for M :: meta_api and L :: "'tle sgp4_api" and srt :: sorter and P :: "rune \<Rightarrow> bool" and eph0 :: SatelliteEphemeris
    and req :: NamespacedName and r0 :: EphemerisReconciler where
  outage_start: "outage M L srt P eph0 req r0 [] r0"
| outage_silent: "outage M L srt P eph0 req r0 cs r \<Longrightarrow> eio_get io = Found eph \<Longrightarrow> eph_Spec eph = eph_Spec eph0
    \<Longrightarrow> eph_UID eph = eph_UID eph0 \<Longrightarrow> fe_IsPrint (eio_fetch io) = P \<Longrightarrow> eph_Reconcile M L srt io req r = Some (r', effs, res)
    \<Longrightarrow> \<forall>u. CallFetch u \<notin> set effs \<Longrightarrow> outage M L srt P eph0 req r0 cs r'"
| outage_failed: "outage M L srt P eph0 req r0 cs r \<Longrightarrow> eio_get io = Found eph \<Longrightarrow> eph_Spec eph = eph_Spec eph0
    \<Longrightarrow> eph_UID eph = eph_UID eph0 \<Longrightarrow> fe_IsPrint (eio_fetch io) = P \<Longrightarrow> eph_Reconcile M L srt io req r = Some (r', effs, res)
    \<Longrightarrow> CallFetch u \<in> set effs \<Longrightarrow> fetch_error L io r eph = Some fe
    \<Longrightarrow> outage M L srt P eph0 req r0 (cs @ [\<lparr>fc_begun = eio_now io, fc_ended = eio_now_backoff io, fc_error = fe\<rparr>]) r'"

text \<open>How long the source is to be left alone after the last of these calls.\<close>

abbreviation transient :: "gerror \<Rightarrow> bool" where
  "transient e \<equiv> \<not> is_RateLimited e \<and> \<not> errors_Is e ErrAuthFailed"

definition transient_run :: "failed_call list \<Rightarrow> nat" where
  "transient_run cs = length (takeWhile (\<lambda>x. transient (fc_error x)) (rev cs))"

definition pause :: "duration \<Rightarrow> failed_call list \<Rightarrow> duration" where
  "pause i cs =
     (let e = fc_error (last cs) in
      if is_RateLimited e then max i (retryAfterFrom e)
      else if errors_Is e ErrAuthFailed then min i (15 * minute)
      else min (minute * 2 ^ min (transient_run cs - 1) 10) i)"

section \<open>One reconcile\<close>

lemma class_transient: "classifyFetchErrClass (Some e) = fetchErrTransient \<longleftrightarrow> transient e"
  by (simp add: classifyFetchErrClass_def)

lemma transient_run_snoc:
  "transient_run (cs @ [x]) = (if transient (fc_error x) then Suc (transient_run cs) else 0)"
  by (simp add: transient_run_def)

lemma transient_run_pos: "cs \<noteq> [] \<Longrightarrow> transient (fc_error (last cs)) \<Longrightarrow> 0 < transient_run cs"
  by (cases cs rule: rev_cases) (simp_all add: transient_run_snoc)

lemma fetch_error_cong:
  assumes "eph_Meta e1 = eph_Meta e2" "eph_Spec e1 = eph_Spec e2"
  shows "fetch_error L io r e1 = fetch_error L io r e2"
  unfolding fetch_error_def fetcherForSource_def assms by (rule refl)

lemma no_call_fetcher: "fetcherForSource io r eph = (fo, e) \<Longrightarrow> CallFetch u \<notin> set e"
  by (auto simp: fetcherForSource_def Let_def split: if_splits option.splits prod.splits)

lemma contacts_call: "CallFetch u \<in> set e \<Longrightarrow> contacts e"
  by (force simp: contacts_def list_ex_iff)

lemma insecure_no_call: "handleInsecureURL M io eph ip w = (e, res) \<Longrightarrow> CallFetch u \<notin> set e"
  using contacts_persist contacts_call
  by (fastforce simp: handleInsecureURL_def Let_def split: prod.splits option.splits if_splits)

text \<open>On a warm cache the data is acquired without a call and the cache stays as it is, or the backoff is over and a
  failing call arms the next.\<close>

lemma acquire_paced:
  assumes "matchingCache (fe_IsPrint (eio_fetch io)) r req eph = Some c"
    "acquireOMMs M L io r req eph i now w = (r', e, out)"
  shows "(\<forall>u. CallFetch u \<notin> set e) \<and> rec_ommCache r' = rec_ommCache r
    \<or> (\<exists>u. CallFetch u \<in> set e) \<and> (nextFetchAttempt c \<le> now \<or> cf_retryKey c \<noteq> retryInputKey (eph_Spec eph) i)
      \<and> (\<forall>fe. fetch_error L io r eph = Some fe \<longrightarrow> rec_ommCache r' =
           (rec_ommCache r)(req \<mapsto> applyFetchBackoff c fe (retryInputKey (eph_Spec eph) i) i (eio_now_backoff io)))"
proof -
  note warm = matching_warm [OF assms(1), THEN conjunct1]
  let ?P = "fe_IsPrint (eio_fetch io)" and ?url = "src_URL (Source (eph_Spec eph))"
  show ?thesis
  proof (cases "cacheServe ?P r req eph now i")
    case cacheServeNone
    then have over: "nextFetchAttempt c \<le> now \<or> cf_retryKey c \<noteq> retryInputKey (eph_Spec eph) i"
      using assms(1) by (auto simp: cacheServe_def split: if_splits)
    obtain fo e2 where fo: "fetcherForSource io r eph = (fo, e2)" by fastforce
    show ?thesis
    proof (cases fo)
      case (Inl fe)
      then have "r' = r" "e = e2" using acquire_setup_failed [OF warm cacheServeNone fo [unfolded Inl] assms(1), of M L w] assms(2) by simp_all
      then show ?thesis using no_call_fetcher [OF fo] by simp
    next
      case (Inr f)
      obtain r2 e3 out' where ob: "obtainOMMs M L io r req eph f i w = (r2, e3, out')" by (metis prod_cases3)
      have a: "r' = r2" "e = e2 @ e3" using acquire_fetch [OF warm cacheServeNone fo [unfolded Inr] ob] assms(2) by simp_all
      show ?thesis
      proof (cases "publicHTTPSource io ?url")
        case (Some ip)
        then show ?thesis using ob a no_call_fetcher [OF fo] insecure_no_call [of M io eph ip w]
          by (auto simp: obtainOMMs_def split: prod.splits)
      next
        case None
        have "CallFetch ?url \<in> set e3" using ob None by (auto simp: obtainOMMs_def Let_def split: prod.splits sum.splits)
        moreover have "rec_ommCache r' = (rec_ommCache r)(req \<mapsto> applyFetchBackoff c fe (retryInputKey (eph_Spec eph) i) i (eio_now_backoff io))"
          if fe: "fetch_error L io r eph = Some fe" for fe
        proof -
          obtain r1 where r1: "run_fetch L io r f ?url = (Inl fe, r1)"
            using fe fo Inr by (cases "run_fetch L io r f ?url") (auto simp: fetch_error_def split: sum.splits)
          show ?thesis using obtain_failing [OF None r1 assms(1)] ob a run_fetch_cache [OF r1] by (auto simp: store_def)
        qed
        ultimately show ?thesis using a over by auto
      qed
    qed
  next
    case (cacheServeWindow c')
    then show ?thesis using acquire_window [OF warm cacheServeWindow, of M L w] assms(2) by simp
  next
    case (cacheServeBackoff c')
    then show ?thesis using acquire_backoff [OF warm cacheServeBackoff, of M L w] assms(2) by simp
  qed
qed

text \<open>The calls of a reconcile are those of acquiring the data.\<close>

lemma reconcile_acquires:
  assumes "eio_get io = Found eph" "clampRefreshInterval M eph = (i, w, eph0)"
    and "acquireOMMs M L io r req eph0 i (eio_now io) w = (r1, e1, out)"
    and "eph_Reconcile M L srt io req r = Some (r', effs, res)"
  shows "r' = r1 \<and> (\<forall>u. CallFetch u \<in> set effs \<longleftrightarrow> CallFetch u \<in> set e1)"
proof (cases out)
  case (Inl res')
  then show ?thesis using assms by (auto simp: eph_Reconcile_def)
next
  case (Inr oc)
  let ?p = "prepare M L io oc eph0"
  obtain eA w' errA where pA: "persistEphStatus (eio_writeA io) (eio_recorder io) (pp_eph ?p) w = (eA, w', errA)"
    by (metis prod_cases3)
  obtain rest where "r' = r1" "effs = e1 @ rest" "\<not> contacts rest"
  proof (cases errA)
    case None
    then obtain eB errB where s: "sweep M L srt io ?p w' = Some (eB, errB)" "effs = e1 @ pp_effects ?p @ eA @ eventsA io oc ?p @ eB" "r' = r1"
      using assms pA Inr by (auto simp: eph_Reconcile_def Let_def split: option.splits)
    then show ?thesis using that [of "pp_effects ?p @ eA @ eventsA io oc ?p @ eB"] contacts_persist [OF pA] contacts_sweep [OF s(1)] by simp
  next
    case (Some er)
    then show ?thesis using that [of "pp_effects ?p @ eA"] assms pA Inr contacts_persist [OF pA]
      by (auto simp: eph_Reconcile_def Let_def)
  qed
  then show ?thesis using contacts_call by auto
qed

lemma reconcile_paced:
  assumes "eio_get io = Found eph" "matchingCache (fe_IsPrint (eio_fetch io)) r req eph = Some c"
    and "i = max (2 * hour) (min (24 * hour) (RefreshInterval (Source (eph_Spec eph))))"
    and "eph_Reconcile M L srt io req r = Some (r', effs, res)"
  shows "(\<forall>u. CallFetch u \<notin> set effs) \<and> rec_ommCache r' = rec_ommCache r
    \<or> (\<exists>u. CallFetch u \<in> set effs) \<and> (nextFetchAttempt c \<le> eio_now io \<or> cf_retryKey c \<noteq> retryInputKey (eph_Spec eph) i)
      \<and> (\<forall>fe. fetch_error L io r eph = Some fe \<longrightarrow> rec_ommCache r' =
           (rec_ommCache r)(req \<mapsto> applyFetchBackoff c fe (retryInputKey (eph_Spec eph) i) i (eio_now_backoff io)))"
proof -
  obtain j w eph0 where cl: "clampRefreshInterval M eph = (j, w, eph0)" by (metis prod_cases3)
  note f = clamp_fields [OF cl] and ij = clamp_interval(1) [OF cl, folded assms(3)]
  obtain r1 e1 out where aq: "acquireOMMs M L io r req eph0 i (eio_now io) w = (r1, e1, out)" by (metis prod_cases3)
  have m0: "matchingCache (fe_IsPrint (eio_fetch io)) r req eph0 = Some c"
    using assms(2) matchingCache_cong [OF f(3,4)] by simp
  note rest = reconcile_acquires [OF assms(1) cl [unfolded ij] aq assms(4)]
  show ?thesis using acquire_paced [OF m0 aq] rest unfolding fetch_error_cong [OF f(3,4)] f(4) by simp
qed

section \<open>The pauses\<close>

text \<open>What the cache entry holds after a run: the entry of before while no call was made, and then the backoff of the
  last.\<close>

definition armed :: "msg \<Rightarrow> duration \<Rightarrow> failed_call list \<Rightarrow> cachedFetch \<Rightarrow> cachedFetch \<Rightarrow> bool" where
  "armed k i cs c d \<longleftrightarrow>
     (if cs = [] then d = c
      else cf_retryKey d = k \<and> lastFetchErr d = Some (fc_error (last cs)) \<and> nextFetchAttempt d = fc_ended (last cs) + pause i cs
        \<and> (transient (fc_error (last cs)) \<longrightarrow> fetchFailures d = int (transient_run cs)))"

lemma armed_snoc:
  assumes "armed k i cs c d" "cf_retryKey c \<noteq> k \<or> classifyFetchErrClass (lastFetchErr c) \<noteq> fetchErrTransient \<or> fetchFailures c = 0"
  shows "armed k i (cs @ [x]) c (applyFetchBackoff d (fc_error x) k i (fc_ended x))"
proof -
  let ?e = "fc_error x"
  let ?d = "applyFetchBackoff d ?e k i (fc_ended x)"
  have n: "fetchFailures ?d = int (Suc (transient_run cs))" if t: "transient ?e"
  proof (cases "cs = []")
    case True
    then show ?thesis using assms t class_transient [of ?e] by (auto simp: armed_def applyFetchBackoff_def Let_def transient_run_def)
  next
    case False
    then show ?thesis using assms(1) t class_transient [of ?e] class_transient [of "fc_error (last cs)"] transient_run_snoc [of "butlast cs" "last cs"]
      by (auto simp: armed_def applyFetchBackoff_def Let_def)
  qed
  have "nextFetchAttempt ?d = fc_ended x + pause i (cs @ [x])"
  proof (cases "transient ?e")
    case True
    have f: "nextFetchAttempt ?d = fc_ended x + fetchRetryDelay ?e i (fetchFailures ?d)"
      by (simp add: applyFetchBackoff_def Let_def time_Add_def)
    have "nat (min (int (transient_run cs)) 10) = min (transient_run cs) 10" by (simp add: min_def)
    then show ?thesis using True unfolding f n [OF True] by (simp add: fetchRetryDelay_def pause_def transient_run_snoc Let_def)
  next
    case False
    then show ?thesis by (auto simp: applyFetchBackoff_def fetchRetryDelay_def pause_def Let_def time_Add_def maxAuthRetryBackoff_def)
  qed
  then show ?thesis using n by (simp add: armed_def transient_run_snoc)
qed

text \<open>C22: The source is left alone for longer and longer. Take any run of reconciles of a resource in which no fetch
  succeeds, from a cache entry that a successful fetch left (or whose last failure was of another class, or was armed
  with other credentials or another interval), with the spec unchanged. Between the end of one call of the source and
  the next call at least this much passes: after a transient failure that is the n-th in a row \<open>2^(n-1)\<close> minutes, at
  most 1024 minutes and at most the refresh interval; after a rate limit the refresh interval or the Retry-After of the
  source, whichever is longer; after an authentication failure 15 minutes or the refresh interval, whichever is
  shorter.\<close>

theorem backoff_ramp:
  assumes "outage M L srt P eph req r0 cs r"
    and "matchingCache P r0 req eph = Some c"
    and "i = max (2 * hour) (min (24 * hour) (RefreshInterval (Source (eph_Spec eph))))"
    and "cf_retryKey c \<noteq> retryInputKey (eph_Spec eph) i \<or> classifyFetchErrClass (lastFetchErr c) \<noteq> fetchErrTransient
      \<or> fetchFailures c = 0"
    and "0 < n" "n < length cs"
  shows "fc_ended (cs ! (n - 1)) + pause i (take n cs) \<le> fc_begun (cs ! n)"
proof -
  let ?k = "retryInputKey (eph_Spec eph) i"
  have "(\<exists>d. matchingCache P r req eph = Some d \<and> armed ?k i cs c d)
     \<and> (\<forall>n. 0 < n \<and> n < length cs \<longrightarrow> fc_ended (cs ! (n - 1)) + pause i (take n cs) \<le> fc_begun (cs ! n))"
    using assms(1)
  proof (induction rule: outage.induct)
    case outage_start
    then show ?case using assms(2) by (simp add: armed_def)
  next
    case (outage_silent cs r io eph' r' effs res)
    then obtain d where d: "matchingCache P r req eph = Some d" "armed ?k i cs c d" by blast
    have m: "matchingCache (fe_IsPrint (eio_fetch io)) s req eph' = matchingCache P s req eph" for s
      using outage_silent.hyps by (simp add: matchingCache_def split: option.splits)
    have "rec_ommCache r' = rec_ommCache r"
      using reconcile_paced [of io eph' r req d i M L srt r' effs res] outage_silent.hyps m d assms(3) by auto
    then show ?case using d outage_silent.IH by (auto simp: matchingCache_def cachedOMMResult_def)
  next
    case (outage_failed cs r io eph' r' effs res u fe)
    let ?x = "\<lparr>fc_begun = eio_now io, fc_ended = eio_now_backoff io, fc_error = fe\<rparr>"
    from outage_failed obtain d where d: "matchingCache P r req eph = Some d" "armed ?k i cs c d" by blast
    have m: "matchingCache (fe_IsPrint (eio_fetch io)) s req eph' = matchingCache P s req eph" for s
      using outage_failed.hyps by (simp add: matchingCache_def split: option.splits)
    have p: "nextFetchAttempt d \<le> eio_now io \<or> cf_retryKey d \<noteq> ?k"
      "rec_ommCache r' = (rec_ommCache r)(req \<mapsto> applyFetchBackoff d fe ?k i (eio_now_backoff io))"
      using reconcile_paced [of io eph' r req d i M L srt r' effs res] outage_failed.hyps m d assms(3) by auto
    have "matchingCache P r' req eph = Some (applyFetchBackoff d fe ?k i (eio_now_backoff io))"
      using matching_warm [OF d(1)] p(2) by (simp add: matchingCache_def cachedOMMResult_def)
    moreover have "armed ?k i (cs @ [?x]) c (applyFetchBackoff d fe ?k i (eio_now_backoff io))"
      using armed_snoc [OF d(2) assms(4), of ?x] by simp
    moreover have "cs = [] \<or> fc_ended (cs ! (length cs - 1)) + pause i cs \<le> eio_now io"
      using p(1) d(2) by (auto simp: armed_def last_conv_nth split: if_splits)
    ultimately show ?case using outage_failed.IH by (auto simp: nth_append less_Suc_eq)
  qed
  then show ?thesis using assms(5,6) by blast
qed

section \<open>An instance\<close>

text \<open>A source that is down when it is called, and again a minute and a half later.\<close>

abbreviation down_error :: gerror where
  "down_error \<equiv> Wrapf (Lit ''creating request: '' # err_msg (Errorf [])) [Errorf []]"

lemma down_transient: "transient down_error"
  by (simp add: errors_Is_def, simp add: Wrapf_def Errorf_def)

lemma down_called:
  assumes "matchingCache (\<lambda>r. 32 \<le> r \<and> r < 127) r (eph_Key demo_eph) demo_eph = Some c" "FetchedAt (cf_result c) = 1000 * second"
    "jan1 \<le> t" "nextFetchAttempt c \<le> t" "rec_Fetcher r = Some fresh_celestrak"
  obtains effs res where "eph_Reconcile list_meta iss_lib insertion_sort (down_io t demo_eph) (eph_Key demo_eph) r =
      Some (store r (eph_Key demo_eph) (applyFetchBackoff c down_error (retryInputKey (eph_Spec demo_eph) (2 * hour)) (2 * hour) t), effs, res)"
    "CallFetch ''u'' \<in> set effs" "fetch_error iss_lib (down_io t demo_eph) r demo_eph = Some down_error"
proof -
  let ?io = "down_io t demo_eph"
  obtain i w eph0 where cl: "clampRefreshInterval list_meta demo_eph = (i, w, eph0)" by (metis prod_cases3)
  note f = clamp_fields [OF cl]
  have i: "i = 2 * hour" using clamp_interval(1) [OF cl] by (simp add: demo_refresh)
  have m: "matchingCache (fe_IsPrint (eio_fetch ?io)) r (eph_Key demo_eph) eph0 = Some c"
    using assms(1) matchingCache_cong [OF f(3,4)] by simp
  note warm = matching_warm [OF m, THEN conjunct1]
  have none: "cacheServe (fe_IsPrint (eio_fetch ?io)) r (eph_Key demo_eph) eph0 t i = cacheServeNone"
    using m assms(2-4) i by (simp add: cacheServe_def time_Sub_def min_int64_def max_int64_def jan1_def)
  have fo: "fetcherForSource ?io r eph = (Inr CelesTrak, [])" if "eph_Spec eph = eph_Spec demo_eph" for eph
    using that assms(5) by (simp add: fetcherForSource_def demo_eph_def)
  have run: "run_fetch iss_lib ?io r CelesTrak ''u'' = (Inl down_error, r)"
    using assms(5) by (simp add: run_fetch_def down_io_def CelesTrak_Fetch_def)
  have u: "src_URL (Source (eph_Spec demo_eph)) = ''u''" by (simp add: demo_eph_def)
  have bo: "eio_now_backoff ?io = t" by (simp add: down_io_def demo_io_def)
  have pub: "publicHTTPSource ?io (src_URL (Source (eph_Spec eph0))) = None" by simp
  note ob = obtain_failing [OF pub run [folded u, folded f(4)] m, of list_meta i w]
  from acquire_fetch [OF warm none fo [OF f(4)] ob]
  have aq: "acquireOMMs list_meta iss_lib ?io r (eph_Key demo_eph) eph0 i (eio_now ?io) w =
      (store r (eph_Key demo_eph) (applyFetchBackoff c down_error (retryInputKey (eph_Spec demo_eph) (2 * hour)) (2 * hour) t),
       [CallFetch ''u'', ObserveFetch (src_Type (Source (eph_Spec demo_eph))) ''error''],
       Inr (degraded (cf_result c) (Some down_error) reasonFetchFailedServingCache))"
    by (simp only: demo_io_simps f(4) u i bo append_Nil)
  have pn: "PassPrediction (eph_Spec demo_eph) = None" by (simp add: demo_eph_def)
  obtain r' effs res where r: "eph_Reconcile list_meta iss_lib insertion_sort ?io (eph_Key demo_eph) r = Some (r', effs, res)"
    using reconcile_returns [OF pn demo_io_simps(3)] by blast
  have "fetch_error iss_lib ?io r demo_eph = Some down_error" using fo [OF refl] run u by (simp add: fetch_error_def)
  with that reconcile_acquires [OF demo_io_simps(3) cl aq r] r show thesis by auto
qed

theorem backoff_ramp_witness:
  "\<exists>cs r. outage list_meta iss_lib insertion_sort (\<lambda>r. 32 \<le> r \<and> r < 127) demo_eph (eph_Key demo_eph) (warm_with demo_eph iss_result) cs r
     \<and> map fc_begun cs = [jan1, jan1 + 90 * second] \<and> fc_ended (cs ! 0) + minute \<le> fc_begun (cs ! 1)"
proof -
  let ?P = "\<lambda>r :: nat. 32 \<le> r \<and> r < 127" and ?key = "eph_Key demo_eph" and ?r0 = "warm_with demo_eph iss_result"
  let ?c = "fresh_entry iss_result (fetchInputKey ?P (eph_Spec demo_eph)) (eph_UID demo_eph)"
  let ?d = "applyFetchBackoff ?c down_error (retryInputKey (eph_Spec demo_eph) (2 * hour)) (2 * hour) jan1"
  let ?r1 = "store ?r0 ?key ?d"
  let ?x = "\<lparr>fc_begun = jan1, fc_ended = jan1, fc_error = down_error\<rparr>" and ?t = "jan1 + 90 * second"
  let ?y = "\<lparr>fc_begun = ?t, fc_ended = ?t, fc_error = down_error\<rparr>"
  have bo: "eio_now_backoff (down_io t demo_eph) = t" for t by (simp add: down_io_def demo_io_def)
  have f: "FetchedAt (cf_result ?c) = 1000 * second" "nextFetchAttempt ?c = 0" "rec_Fetcher ?r0 = Some fresh_celestrak"
    by (simp_all add: fresh_entry_def iss_result_def warm_with_def store_def cold_def)
  have n: "nextFetchAttempt ?d = jan1 + minute"
    by (simp add: applyFetchBackoff_def fresh_entry_def fetchRetryDelay_def classifyFetchErrClass_def Let_def time_Add_def down_transient)
  obtain e1 s1 where 1: "eph_Reconcile list_meta iss_lib insertion_sort (down_io jan1 demo_eph) ?key ?r0 = Some (?r1, e1, s1)"
    "CallFetch ''u'' \<in> set e1" "fetch_error iss_lib (down_io jan1 demo_eph) ?r0 demo_eph = Some down_error"
    by (rule down_called [OF warm_matching f(1) _ _ f(3), of jan1]) (simp_all add: f jan1_def)
  have m1: "matchingCache ?P ?r1 ?key demo_eph = Some ?d"
    by (simp add: matchingCache_def cachedOMMResult_def store_def fresh_entry_def)
  obtain e2 s2 r2 where 2: "eph_Reconcile list_meta iss_lib insertion_sort (down_io ?t demo_eph) ?key ?r1 = Some (r2, e2, s2)"
    "CallFetch ''u'' \<in> set e2" "fetch_error iss_lib (down_io ?t demo_eph) ?r1 demo_eph = Some down_error"
    by (rule down_called [OF m1, of ?t]) (use f n in \<open>simp_all add: store_def jan1_def\<close>)
  have "outage list_meta iss_lib insertion_sort ?P demo_eph ?key ?r0 ([] @ [?x]) ?r1"
    using outage_failed [OF outage_start demo_io_simps(3) refl refl demo_io_simps(4) 1] by (simp add: bo)
  from outage_failed [OF this demo_io_simps(3) refl refl demo_io_simps(4) 2]
  have o: "outage list_meta iss_lib insertion_sort ?P demo_eph ?key ?r0 [?x, ?y] r2" by (simp add: bo)
  have "fc_ended ([?x, ?y] ! (1 - 1)) + pause (2 * hour) (take 1 [?x, ?y]) \<le> fc_begun ([?x, ?y] ! 1)"
    by (rule backoff_ramp [OF o warm_matching]) (simp_all add: demo_refresh fresh_entry_def)
  then have "fc_ended ([?x, ?y] ! 0) + minute \<le> fc_begun ([?x, ?y] ! 1)"
    by (simp add: pause_def transient_run_def down_transient)
  with o show ?thesis by (intro exI [of _ "[?x, ?y]"] exI [of _ r2]) simp
qed

end
