(* ===== verification/Cell_Api.thy ===== *)
theory Cell_Api
  imports Slice_Api
begin

text \<open>
  The NTNCellConfig resource (\<open>api/v1alpha1/ntncellconfig_types.go\<close>) and the values a provider is called
  with (\<open>pkg/provider/interface.go\<close>). A pointer field is an \<open>option\<close>; integers are Go's 64-bit \<open>int\<close>, kept as
  \<open>int\<close> (the admission rules bound every field far below the limits).
\<close>

section \<open>NTNCellConfig\<close>

record CellID =
  PLMN :: string
  NCI :: int

record RemoteControlTLS =
  tls_Mode :: string
  tls_SecretName :: string
  tls_ServerName :: string

record RemoteControlRef =
  rc_Endpoint :: string
  rc_TLS :: "RemoteControlTLS option"

record ProviderRef =
  prov_Type :: string
  prov_Namespace :: string
  RemoteControl :: "RemoteControlRef option"
  prov_Endpoint :: string
  SIB19EpochMode :: "string option"

record EphemerisOrbital =
  orb_SemiMajorAxis :: int
  orb_Eccentricity :: int
  orb_Inclination :: int
  orb_RightAscension :: int
  orb_ArgOfPeriapsis :: int
  orb_MeanAnomaly :: int

record TAInfo =
  ta_TACommon :: int
  ta_TACommonDrift :: int
  ta_TACommonDriftVariant :: int
  ta_TACommonOffset :: int

record EpochTime =
  SFN :: int
  SubframeNumber :: int

record FeederLinkInfo =
  EnableDopplerCompensation :: bool
  DLFreqHz :: int
  ULFreqHz :: int

record NTNGatewayLocation =
  gw_Latitude :: int
  gw_Longitude :: int
  gw_Altitude :: int

record MovingRefLocation =
  mr_Latitude :: int
  mr_Longitude :: int

record ReferenceLocation =
  rl_Latitude :: int
  rl_Longitude :: int

record NTNPolarization =
  pol_DL :: string
  pol_UL :: string

record SatSwitchNTNConfig =
  sn_EphemerisECEF :: "EphemerisECEF option"
  sn_EphemerisOrbital :: "EphemerisOrbital option"
  KMac :: "int option"
  sn_CellSpecificKoffset :: int
  sn_NTNUlSyncValidityDur :: "int option"
  sn_TAInfo :: "TAInfo option"
  sn_TAReport :: "bool option"

record SatSwitchWithResync =
  NTNConfig :: SatSwitchNTNConfig
  sw_EpochUnixMs :: int
  TServiceStartUnixMs :: int
  SSBTimeOffsetSubframes :: int
  sw_GatewayLocation :: "NTNGatewayLocation option"

record NTNNeighborCell =
  PhysicalCellID :: int
  nc_Frequency :: int

record SIBSchedule =
  SIWindowLength :: int
  SIPeriod :: int
  SIWindowPosition :: "int option"

record CellOverrides =
  PdschMaxHarqRetxs :: int
  PrachMaxMsg3HarqRetx :: int
  RrcGuardTimeMs :: int
  SIBSchedule :: "SIBSchedule option"

record NTNParams =
  CellSpecificKoffset :: int
  np_TACommon :: int
  np_EphemerisECEF :: "EphemerisECEF option"
  np_EphemerisOrbital :: "EphemerisOrbital option"
  np_TAInfo :: "TAInfo option"
  np_EpochTime :: "EpochTime option"
  np_FeederLinkInfo :: "FeederLinkInfo option"
  np_NTNGatewayLocation :: "NTNGatewayLocation option"
  np_MovingRefLocation :: "MovingRefLocation option"
  np_SatSwitchWithResync :: "SatSwitchWithResync option"
  np_Polarization :: "NTNPolarization option"
  np_TAReport :: "bool option"
  np_NTNUlSyncValidityDur :: "int option"
  PayloadType :: string
  NeighborCells :: "NTNNeighborCell list"
  np_ReferenceLocation :: "ReferenceLocation option"
  DistanceThreshold :: "int option"
  TService :: "int option"

record NTNCellConfigSpec =
  cs_Provider :: ProviderRef
  NTN :: NTNParams
  cs_CellOverrides :: "CellOverrides option"
  EphemerisRef :: string
  cs_CellID :: "CellID option"
  EphemerisNoradID :: "int option"

record NTNCellConfigStatus =
  AppliedKoffset :: int
  ConfigMapRef :: string
  LastPushedSatSwitchDigest :: string
  cc_Conditions :: "Condition list"

record NTNCellConfig =
  cc_Meta :: ObjectMeta
  cc_Spec :: NTNCellConfigSpec
  cc_Status :: NTNCellConfigStatus

definition ConditionConfigApplied :: string where "ConditionConfigApplied = ''ConfigApplied''"
definition ConditionEphemerisPushed :: string where "ConditionEphemerisPushed = ''EphemerisPushed''"
definition ConditionSIB19CadenceSane :: string where "ConditionSIB19CadenceSane = ''SIB19CadenceSane''"

lemmas cell_condition_names = ConditionConfigApplied_def ConditionEphemerisPushed_def ConditionSIB19CadenceSane_def

abbreviation cc_Key :: "NTNCellConfig \<Rightarrow> NamespacedName" where
  "cc_Key cc \<equiv> ObjectKeyFromObject (cc_Meta cc)"

abbreviation cc_Generation :: "NTNCellConfig \<Rightarrow> int" where
  "cc_Generation cc \<equiv> om_Generation (cc_Meta cc)"

section \<open>The provider interface\<close>

record EphemerisUpdate =
  upd_ECEF :: "EphemerisECEF option"
  upd_Orbital :: "EphemerisOrbital option"

record CellIdentity =
  ci_PLMN :: string
  ci_NCI :: int

text \<open>What the program sets of a \<open>tls.Config\<close>: the lowest version, the name to verify, the pinned authorities
  (\<open>None\<close> for the roots of the system) and the client certificate.\<close>

record TLSConfig =
  MinVersion :: int
  ServerName :: string
  RootCAs :: "string option"
  Certificates :: "(string \<times> string) option"

record ResolvedRemoteControl =
  rrc_Endpoint :: string
  rrc_TLSConfig :: "TLSConfig option"
  AuthToken :: string

record RuntimeUpdate =
  ru_Cell :: CellIdentity
  ru_EpochUnixMs :: int
  ru_UlSyncValidityDur :: int
  ru_Ephemeris :: EphemerisUpdate
  ru_SatSwitch :: "SatSwitchWithResync option"

text \<open>The sentinel errors of the interface.\<close>

definition ErrRuntimeUnsupported :: gerror where
  "ErrRuntimeUnsupported = sentinel_error [Lit ''runtime NTN config push is not supported for this target''] RuntimeUnsupported"

definition ErrRuntimePushRejected :: gerror where
  "ErrRuntimePushRejected = sentinel_error [Lit ''runtime NTN config push permanently rejected''] RuntimePushRejected"

definition ErrRuntimePushRetryLater :: gerror where
  "ErrRuntimePushRetryLater = sentinel_error [Lit ''runtime NTN config push refused by the remote endpoint''] RuntimePushRetryLater"

definition ErrConfigMapNotOwned :: gerror where
  "ErrConfigMapNotOwned = sentinel_error [Lit ''existing ConfigMap is not owned by this NTNCellConfig''] ConfigMapNotOwned"

end
