(* ===== verification/Go_Ftoa.thy ===== *)
theory Go_Ftoa
  imports Go_Math
begin

text \<open>
  What the program uses of \<open>strconv.FormatFloat(v, 'f', -1, 64)\<close> and of the encoding of a \<open>float64\<close> by
  \<open>encoding/json\<close>: the shortest decimal that reads back as the value, of those the nearest one, halves
  to the even last digit. The search over the number of decimals starts where the decimal has no digit
  left and is bounded by 1500 steps: with 1074 decimals every \<open>float64\<close> is exact, and none has more than
  342 digits before the point (\<open>shortest_total\<close>).

  The lemma the components rest on is \<open>FormatFloat_roundtrip\<close>: \<open>ParseFloat\<close> reads back what
  \<open>FormatFloat\<close> wrote.
\<close>

section \<open>The shortest decimal\<close>

definition pow10 :: "int \<Rightarrow> rat" where
  "pow10 k = (if 0 \<le> k then 10 ^ nat k else 1 / 10 ^ nat (- k))"

text \<open>The decimal \<open>d / 10\<^sup>k\<close> reads back as \<open>a\<close>.\<close>

definition reads_back :: "rat \<Rightarrow> int \<Rightarrow> int \<Rightarrow> bool" where
  "reads_back a k d \<longleftrightarrow> round64 (of_int d / pow10 k) = Fin a"

definition shortest_at :: "rat \<Rightarrow> int \<Rightarrow> int option" where
  "shortest_at a k =
     (let s = a * pow10 k; lo = \<lfloor>s\<rfloor>; down = reads_back a k lo; up = reads_back a k (lo + 1)
      in if down \<and> up then Some (rne s) else if down then Some lo else if up then Some (lo + 1) else None)"

fun shortest_from :: "nat \<Rightarrow> int \<Rightarrow> rat \<Rightarrow> (int \<times> int) option" where
  "shortest_from 0 k a = None"
| "shortest_from (Suc n) k a =
     (case shortest_at a k of Some d \<Rightarrow> Some (d, k) | None \<Rightarrow> shortest_from n (k + 1) a)"

definition shortest :: "rat \<Rightarrow> (int \<times> int) option" where
  "shortest a = shortest_from 1500 (if 1 \<le> a then - int (length (dec_nat (nat \<lfloor>a\<rfloor>))) else 0) a"

definition decimal :: "nat \<Rightarrow> int \<Rightarrow> string" where
  "decimal d k =
     (if k \<le> 0 then dec_nat d @ replicate (nat (- k)) (CHR ''0'')
      else (let ds = pad0 (Suc (nat k)) (dec_nat d); j = length ds - nat k
            in take j ds @ CHR ''.'' # drop j ds))"

definition FormatFloat_f :: "f64 \<Rightarrow> string" where
  "FormatFloat_f x =
     (case x of
        Fin a \<Rightarrow>
          if a = 0 then ''0''
          else (if a < 0 then ''-'' else '''') @
            (case shortest \<bar>a\<bar> of Some (d, k) \<Rightarrow> decimal (nat d) k | None \<Rightarrow> '''')
      | PosInf \<Rightarrow> ''+Inf'' | NegInf \<Rightarrow> ''-Inf'' | NaN \<Rightarrow> ''NaN'')"

section \<open>JSON numbers\<close>

text \<open>\<open>encoding/json\<close> writes a value below \<open>10\<^sup>-\<^sup>6\<close> or from \<open>10\<^sup>2\<^sup>1\<close> on with an exponent, without a leading
  zero in a negative exponent, and fails on an infinity and on NaN.\<close>

definition scientific :: "nat \<Rightarrow> int \<Rightarrow> string" where
  "scientific d k =
     (let ds = TrimRight (dec_nat d) ''0''; e = int (length (dec_nat d)) - 1 - k
      in take 1 ds @ (if length ds = 1 then '''' else CHR ''.'' # drop 1 ds)
         @ ''e'' @ (if e < 0 then ''-'' else ''+'') @ dec_nat (nat \<bar>e\<bar>))"

definition json_float :: "f64 \<Rightarrow> string option" where
  "json_float x =
     (case x of
        Fin a \<Rightarrow>
          if a \<noteq> 0 \<and> (f64_less (Fin \<bar>a\<bar>) (round64 (1 / 1000000)) \<or> f64_le (round64 (10 ^ 21)) (Fin \<bar>a\<bar>))
          then Some ((if a < 0 then ''-'' else '''') @
            (case shortest \<bar>a\<bar> of Some (d, k) \<Rightarrow> scientific (nat d) k | None \<Rightarrow> ''''))
          else Some (FormatFloat_f x)
      | _ \<Rightarrow> None)"

section \<open>The search succeeds\<close>

lemma pow10_pos [simp]: "0 < pow10 k"
  by (simp add: pow10_def)

lemma pow10_nat [simp]: "pow10 (int n) = 10 ^ n"
  by (simp add: pow10_def)

lemma shortest_at_sound: "shortest_at a k = Some d \<Longrightarrow> reads_back a k d"
  using rne_bounds [of "a * pow10 k"]
  by (auto simp: shortest_at_def Let_def split: if_splits)
     (metis add_le_cancel_left order_antisym zless_add1_eq linorder_not_less)

lemma shortest_at_nonneg:
  assumes "0 \<le> a" "shortest_at a k = Some d"
  shows "0 \<le> d"
proof -
  have "0 \<le> a * pow10 k" using assms(1) by (simp add: less_imp_le)
  then show ?thesis using int_le_rne [of 0 "a * pow10 k"] assms(2)
    by (auto simp: shortest_at_def Let_def split: if_splits)
qed

lemma shortest_from_sound: "shortest_from n k a = Some (d, j) \<Longrightarrow> shortest_at a j = Some d"
  by (induction n k a rule: shortest_from.induct) (auto split: option.splits)

lemma shortest_from_total:
  "shortest_at a (k + int i) \<noteq> None \<Longrightarrow> i < n \<Longrightarrow> shortest_from n k a \<noteq> None"
proof (induction n k a arbitrary: i rule: shortest_from.induct)
  case (2 n k a)
  show ?case
  proof (cases "shortest_at a k")
    case None
    then obtain j where "i = Suc j" using 2(2) by (cases i) auto
    then show ?thesis using 2(1) [OF None, of j] 2(2,3) None by (simp add: algebra_simps)
  qed simp
qed simp

lemma f64_scaled_int:
  assumes "round64 a = Fin a" "1074 \<le> n"
  shows "\<exists>m. a * 10 ^ n = of_int m"
proof (cases "a = 0")
  case False
  from assms have r: "round_rat a = a" by (simp add: round64_Fin)
  define m where "m = rne (a / pow2 (lsb a))"
  have a: "a = of_int m * pow2 (lsb a)" using r False by (simp add: round_rat_def m_def)
  have l: "0 \<le> lsb a + int n" using assms(2) by (simp add: lsb_def)
  have "pow2 (lsb a) * 2 ^ n = pow2 (lsb a + int n)" by (simp add: pow2_add)
  also have "\<dots> = of_int (2 ^ nat (lsb a + int n))" using l by (rule pow2_int)
  finally have p: "pow2 (lsb a) * 2 ^ n = of_int (2 ^ nat (lsb a + int n))" .
  have "(10 :: rat) ^ n = 2 ^ n * 5 ^ n" by (simp flip: power_mult_distrib)
  then have "a * 10 ^ n = of_int m * (pow2 (lsb a) * 2 ^ n) * 5 ^ n"
    by (subst a) (simp only: mult.assoc)
  also have "\<dots> = of_int (m * 2 ^ nat (lsb a + int n) * 5 ^ n)"
    unfolding p by (simp only: of_int_mult of_int_power of_int_numeral)
  finally show ?thesis by blast
qed (simp add: exI [of _ 0])

lemma shortest_at_exact:
  assumes "round64 a = Fin a" "1074 \<le> n"
  shows "shortest_at a (int n) \<noteq> None"
proof -
  obtain m where m: "a * pow10 (int n) = of_int m" using f64_scaled_int [OF assms] by auto
  have "of_int m / pow10 (int n) = a" unfolding m [symmetric] by simp
  then have "reads_back a (int n) \<lfloor>a * pow10 (int n)\<rfloor>" using assms(1) m by (simp add: reads_back_def)
  then show ?thesis by (simp add: shortest_at_def Let_def)
qed

lemma dec_nat_length: "n < 10 ^ Suc w \<Longrightarrow> length (dec_nat n) \<le> Suc w"
proof (induction w arbitrary: n)
  case 0
  then show ?case by (simp add: dec_nat.simps)
next
  case (Suc w)
  then have "n div 10 < 10 ^ Suc w" by (simp add: less_mult_imp_div_less mult.commute)
  then show ?case using Suc.IH [of "n div 10"] by (simp add: dec_nat.simps [of n])
qed

lemma nat_less_power: "i < 10 ^ n \<Longrightarrow> nat i < 10 ^ n"
  by (simp add: nat_less_iff zless_nat_eq_int_zless)

lemma shortest_total:
  assumes "round64 a = Fin a" "0 < a"
  obtains d k where "shortest a = Some (d, k)" "reads_back a k d" "0 \<le> d"
proof -
  define k0 where "k0 = (if 1 \<le> a then - int (length (dec_nat (nat \<lfloor>a\<rfloor>))) else 0)"
  have "a < overflow_limit" using assms by (simp add: round64_Fin)
  also have "overflow_limit \<le> 2 ^ (3 * Suc 341)" unfolding overflow_limit_def by (rule power_increasing) simp_all
  also have "\<dots> = 8 ^ Suc 341" unfolding power_mult by simp
  also have "\<dots> \<le> of_int (10 ^ Suc 341)" unfolding of_int_power of_int_numeral by (rule power_mono) simp_all
  finally have "\<lfloor>a\<rfloor> < 10 ^ Suc 341" by (simp only: floor_less_iff)
  then have "nat \<lfloor>a\<rfloor> < 10 ^ Suc 341" by (rule nat_less_power)
  then have "length (dec_nat (nat \<lfloor>a\<rfloor>)) \<le> 342" using dec_nat_length [of "nat \<lfloor>a\<rfloor>" 341] by simp
  then have b: "- 342 \<le> k0" "k0 \<le> 0" by (auto simp: k0_def)
  have "shortest_at a (k0 + int (nat (1074 - k0))) \<noteq> None"
    using shortest_at_exact [OF assms(1), of 1074] b by simp
  moreover have "nat (1074 - k0) < 1500" using b by linarith
  ultimately have "shortest_from 1500 k0 a \<noteq> None" by (rule shortest_from_total)
  then obtain d k where s: "shortest_from 1500 k0 a = Some (d, k)" by auto
  note at = shortest_from_sound [OF s]
  show thesis
    by (rule that [of d k]) (use s at shortest_at_sound [OF at] shortest_at_nonneg [OF _ at] assms(2) in \<open>simp_all add: shortest_def k0_def del: shortest_from.simps\<close>)
qed


section \<open>Reading back\<close>

lemma digit_val_10: "is_digit c \<Longrightarrow> digit_val 10 c = Some (of_char c - 48)"
  by (simp add: digit_val_def is_digit_def Let_def)

lemma is_digit_neq: "is_digit c \<Longrightarrow> c \<noteq> CHR ''_'' \<and> c \<noteq> CHR ''.'' \<and> c \<noteq> CHR ''-'' \<and> c \<noteq> CHR ''+''"
  by (auto simp: is_digit_def)

lemma scan_mant_decimal:
  "list_all is_digit ds \<Longrightarrow> scan_mant 10 m (ds @ s) =
     scan_mant 10 (m\<lparr>sawdigits := sawdigits m \<or> ds \<noteq> [],
       mant_val := foldl (\<lambda>v c. v * 10 + (of_char c - 48)) (mant_val m) ds,
       mant_frac := mant_frac m + (if sawdot m then length ds else 0)\<rparr>) s"
  by (induction ds arbitrary: m) (auto simp: digit_val_10 is_digit_neq)

lemma pad0_digits: "list_all is_digit s \<Longrightarrow> list_all is_digit (pad0 n s)"
  by (auto simp: pad0_def list_all_iff is_digit_def)

lemma dec_value_pad0: "dec_value (pad0 n s) = dec_value s"
proof -
  have "foldl (\<lambda>v c. v * 10 + (of_char c - 48)) 0 (replicate k (CHR ''0'')) = (0 :: nat)" for k
    by (induction k) simp_all
  then show ?thesis by (simp add: dec_value_def pad0_def)
qed

lemma dec_value_zeros: "dec_value (s @ replicate k (CHR ''0'')) = dec_value s * 10 ^ k"
proof -
  have "foldl (\<lambda>v c. v * 10 + (of_char c - 48)) n (replicate k (CHR ''0'')) = (n :: nat) * 10 ^ k" for n
    by (induction k arbitrary: n) simp_all
  then show ?thesis by (simp add: dec_value_def)
qed

text \<open>The shape of a decimal: digits, and behind a point as many as it has decimals.\<close>

lemma decimal_digits:
  "\<exists>w f. w \<noteq> [] \<and> list_all is_digit w \<and> list_all is_digit f \<and> decimal d k = w @ (if 0 < k then CHR ''.'' # f else [])
     \<and> (0 < k \<longrightarrow> length f = nat k) \<and> (of_nat (dec_value (if 0 < k then w @ f else w)) :: rat) = of_nat d * (if 0 < k then 1 else pow10 (- k))"
proof (cases "0 < k")
  case True
  let ?ds = "pad0 (Suc (nat k)) (dec_nat d)"
  have len: "nat k < length ?ds" by (simp add: pad0_def)
  have dig: "list_all is_digit ?ds" using dec_nat_digits by (intro pad0_digits) auto
  show ?thesis
    using True len dig
    by (intro exI [of _ "take (length ?ds - nat k) ?ds"] exI [of _ "drop (length ?ds - nat k) ?ds"])
       (auto simp: decimal_def Let_def dec_value_pad0 dec_value_nat list_all_iff dest: in_set_takeD in_set_dropD)
next
  case False
  then show ?thesis
    using dec_nat_digits [of d]
    by (intro exI [of _ "dec_nat d @ replicate (nat (- k)) (CHR ''0'')"] exI [of _ "[]"])
       (auto simp: decimal_def dec_value_zeros dec_value_nat pow10_def list_all_iff is_digit_def)
qed

lemma read_float_decimal: "read_float (decimal d k) = Some (of_nat d / pow10 k)"
proof -
  obtain w f where w: "w \<noteq> []" "list_all is_digit w" "list_all is_digit f"
    "decimal d k = w @ (if 0 < k then CHR ''.'' # f else [])" "0 < k \<longrightarrow> length f = nat k"
    "(of_nat (dec_value (if 0 < k then w @ f else w)) :: rat) = of_nat d * (if 0 < k then 1 else pow10 (- k))"
    using decimal_digits by metis
  have "to_lower c \<noteq> CHR ''x''" if "is_digit c \<or> c = CHR ''.''" for c
    using that by (auto simp: to_lower_def is_digit_def Let_def)
  moreover have "is_digit c \<or> c = CHR ''.''" if "c \<in> set (decimal d k)" for c
    using that w(2-4) by (auto simp: list_all_iff split: if_splits)
  ultimately have nox: "\<not> has_hex_prefix (decimal d k)"
    by (auto simp: has_hex_prefix_def)
  have us: "CHR ''_'' \<notin> set (decimal d k)" using w(2-4) is_digit_neq by (auto simp: list_all_iff)
  show ?thesis
  proof (cases "0 < k")
    case True
    then show ?thesis
      using w nox us scan_mant_decimal [of f _ "[]"]
      by (simp add: read_float_def Let_def scan_mant_decimal dec_value_def pow10_def)
  next
    case False
    then have "pow10 (- k) = 1 / pow10 k" by (simp add: pow10_def)
    with False show ?thesis
      using w nox us scan_mant_decimal [of w _ "[]"]
      by (simp add: read_float_def Let_def dec_value_def)
  qed
qed

theorem FormatFloat_roundtrip:
  assumes "f64_ok (Fin a)"
  shows "ParseFloat (FormatFloat_f (Fin a)) = Inr (Fin a)"
proof (cases "a = 0")
  case True
  have "char_of (48 :: nat) = CHR ''0''" by code_simp
  then have "decimal 0 0 = ''0''" by (simp add: decimal_def dec_nat.simps dec_digit_def)
  then have "read_float ''0'' = Some 0" using read_float_decimal [of 0 0] by simp
  with True show ?thesis by (simp add: FormatFloat_f_def ParseFloat_def ToLower_def to_lower_def)
next
  case False
  have ok: "round64 \<bar>a\<bar> = Fin \<bar>a\<bar>"
    using assms by (cases "0 \<le> a") (auto simp: round64_Fin)
  obtain d k where s: "shortest \<bar>a\<bar> = Some (d, k)" "reads_back \<bar>a\<bar> k d" "0 \<le> d"
    using shortest_total [OF ok] False by auto
  let ?r = "decimal (nat d) k"
  have f: "FormatFloat_f (Fin a) = (if a < 0 then ''-'' else '''') @ ?r"
    using False s by (simp add: FormatFloat_f_def)
  obtain c t where r: "?r = c # t" "is_digit c"
    using decimal_digits [of "nat d" k] by (auto simp: neq_Nil_conv)
  have sgn: "scan_sign ?r = (False, ?r)" using r is_digit_neq by simp
  have low: "to_lower c = c" using r(2) by (auto simp: to_lower_def is_digit_def Let_def)
  have "c \<noteq> CHR ''i''" "c \<noteq> CHR ''n''" using r(2) by (auto simp: is_digit_def)
  then have names: "ToLower ?r \<noteq> ''inf''" "ToLower ?r \<noteq> ''infinity''" "ToLower ?r \<noteq> ''nan''"
    using r low by (auto simp: ToLower_def)
  have "read_float ?r = Some (of_int d / pow10 k)" using read_float_decimal [of "nat d" k] s(3) by simp
  moreover have "round64 (- (of_int d / pow10 k)) = Fin a" if "a < 0"
    using s(2) that by (auto simp: reads_back_def round64_Fin)
  ultimately show ?thesis
    using f sgn names s(2) False
    by (auto simp: ParseFloat_def reads_back_def Let_def ToLower_def to_lower_def)
qed

end
