(* ===== verification/Ocudu_Config.thy ===== *)
theory Ocudu_Config
  imports Cell_Api Go_Ftoa Go_Quote Orbit_Elements
begin

text \<open>
  The configuration document of an OCUDU gNB, \<open>pkg/provider/ocudu/config.go\<close>: the conversion of the
  resource's codepoints to physical units, the data of the template and the template itself. The template
  is the list of its lines, each action that the template trims to the preceding line being an element
  that may be absent; the document is the lines joined with newlines. The table of printable code points
  (\<open>strconv.IsPrint\<close>) is a parameter.

  The theorems: a payload type can change one comment line of the document and nothing else
  (\<open>payload_confined\<close>); \<open>sanitizeComment\<close> is exact on code points (\<open>sanitize_exact\<close>); every float of the
  document reads back as the value that was converted (\<open>flt_reads_back\<close>).
\<close>

section \<open>Units\<close>

definition taCommonStepUs :: rat where "taCommonStepUs = 4072 / 1000000"
definition taCommonDriftStep :: rat where "taCommonDriftStep = 2 / 10000"
definition taCommonDriftVarStep :: rat where "taCommonDriftVarStep = 2 / 100000"
definition eccentricityScale :: rat where "eccentricityScale = 1 / 1000000"
definition oneEMinus4DegToDeg :: rat where "oneEMinus4DegToDeg = 1 / 10000"

text \<open>\<open>math.Pi / 1_800_000.0\<close>, a constant expression: exact until it is rounded to a \<open>float64\<close>.\<close>

definition math_Pi :: rat where
  "math_Pi = 314159265358979323846264338327950288419716939937510582097494459 / 10 ^ 62"

definition milliDegToRad :: rat where "milliDegToRad = math_Pi / 1800000"

text \<open>\<open>float64(n) * step\<close>, the constant \<open>step\<close> converted to a \<open>float64\<close>.\<close>

definition scaled :: "int \<Rightarrow> rat \<Rightarrow> f64" where
  "scaled n step = f64_mul (round64 (of_int n)) (round64 step)"

definition flt :: "f64 \<Rightarrow> string" where
  "flt v = FormatFloat_f v"

definition yamlQuote :: "(rune \<Rightarrow> bool) \<Rightarrow> string \<Rightarrow> string" where
  "yamlQuote IsPrint s = Quote IsPrint s"

text \<open>\<open>strings.NewReplacer\<close>: from left to right, the first pair that matches at the position.\<close>

abbreviation lf :: char where "lf \<equiv> CHR 0x0A"

fun replace_pairs :: "(string \<times> string) list \<Rightarrow> nat \<Rightarrow> string \<Rightarrow> string" where
  "replace_pairs ps k [] = []"
| "replace_pairs ps (Suc k) (c # s) = replace_pairs ps k s"
| "replace_pairs ps 0 (c # s) =
     (case find (\<lambda>(old, new). prefix old (c # s)) ps of
        Some (old, new) \<Rightarrow> new @ replace_pairs ps (length old - 1) s
      | None \<Rightarrow> c # replace_pairs ps 0 s)"

definition comment_pairs :: "(string \<times> string) list" where
  "comment_pairs =
     [([lf], '' ''), ([CHR 0x0D], '' ''), ([CHR 0xC2, CHR 0x85], '' ''),
      ([CHR 0xE2, CHR 0x80, CHR 0xA8], '' ''), ([CHR 0xE2, CHR 0x80, CHR 0xA9], '' ''), ([CHR 0x00], '''')]"

definition sanitizeComment :: "string \<Rightarrow> string" where
  "sanitizeComment s = replace_pairs comment_pairs 0 s"

section \<open>The data of the template\<close>

record ntnNeighborCellData =
  nd_PhysicalCellID :: int
  nd_Frequency :: int

record configData =
  cd_PayloadType :: string
  cd_Koffset :: int
  cd_TACommon :: f64
  cd_TAInfoExtended :: bool
  cd_TACommonDrift :: f64
  cd_TACommonDriftVariant :: f64
  cd_TACommonOffset :: f64
  cd_UseOrbital :: bool
  cd_EphPosX :: f64
  cd_EphPosY :: f64
  cd_EphPosZ :: f64
  cd_EphVelX :: f64
  cd_EphVelY :: f64
  cd_EphVelZ :: f64
  cd_OrbSemiMajorAxis :: int
  cd_OrbEccentricity :: f64
  cd_OrbInclination :: f64
  cd_OrbRightAscension :: f64
  cd_OrbArgOfPeriapsis :: f64
  cd_OrbMeanAnomaly :: f64
  cd_EpochTime :: bool
  cd_EpochSFN :: int
  cd_EpochSubframeNumber :: int
  cd_FeederLink :: bool
  cd_FeederDopplerCompensation :: bool
  cd_FeederDLFreq :: int
  cd_FeederULFreq :: int
  cd_GatewayLocation :: bool
  cd_GatewayLatitude :: f64
  cd_GatewayLongitude :: f64
  cd_GatewayAltitude :: int
  cd_HasNCells :: bool
  cd_NCells :: "ntnNeighborCellData list"
  cd_HasReferenceLocation :: bool
  cd_RefLatitude :: f64
  cd_RefLongitude :: f64
  cd_HasDistanceThreshold :: bool
  cd_DistanceThreshold :: int
  cd_MovingRefLocation :: bool
  cd_MovingRefLatitude :: f64
  cd_MovingRefLongitude :: f64
  cd_HasPolarization :: bool
  cd_PolarizationDL :: string
  cd_PolarizationUL :: string
  cd_TAReportSet :: bool
  cd_TAReport :: bool
  cd_UlSyncValidityDurSet :: bool
  cd_UlSyncValidityDur :: int
  cd_PdschMaxHarqRetxs :: int
  cd_PrachMaxMsg3HarqRetx :: int
  cd_RrcGuardTimeMs :: int
  cd_SIWindowLength :: int
  cd_SIPeriod :: int
  cd_SIWindowPosition :: int

definition defaultSIWindowLength :: int where "defaultSIWindowLength = 5"
definition defaultSIPeriod :: int where "defaultSIPeriod = 16"
definition defaultSIWindowPosition :: int where "defaultSIWindowPosition = 2"

text \<open>The zero value of the struct.\<close>

definition zero_configData :: configData where
  "zero_configData = \<lparr>cd_PayloadType = '''', cd_Koffset = 0, cd_TACommon = Fin 0, cd_TAInfoExtended = False,
     cd_TACommonDrift = Fin 0, cd_TACommonDriftVariant = Fin 0, cd_TACommonOffset = Fin 0, cd_UseOrbital = False,
     cd_EphPosX = Fin 0, cd_EphPosY = Fin 0, cd_EphPosZ = Fin 0, cd_EphVelX = Fin 0, cd_EphVelY = Fin 0,
     cd_EphVelZ = Fin 0, cd_OrbSemiMajorAxis = 0, cd_OrbEccentricity = Fin 0, cd_OrbInclination = Fin 0,
     cd_OrbRightAscension = Fin 0, cd_OrbArgOfPeriapsis = Fin 0, cd_OrbMeanAnomaly = Fin 0,
     cd_EpochTime = False, cd_EpochSFN = 0, cd_EpochSubframeNumber = 0,
     cd_FeederLink = False, cd_FeederDopplerCompensation = False, cd_FeederDLFreq = 0, cd_FeederULFreq = 0,
     cd_GatewayLocation = False, cd_GatewayLatitude = Fin 0, cd_GatewayLongitude = Fin 0, cd_GatewayAltitude = 0,
     cd_HasNCells = False, cd_NCells = [], cd_HasReferenceLocation = False, cd_RefLatitude = Fin 0,
     cd_RefLongitude = Fin 0, cd_HasDistanceThreshold = False, cd_DistanceThreshold = 0,
     cd_MovingRefLocation = False, cd_MovingRefLatitude = Fin 0, cd_MovingRefLongitude = Fin 0,
     cd_HasPolarization = False, cd_PolarizationDL = '''', cd_PolarizationUL = '''', cd_TAReportSet = False,
     cd_TAReport = False, cd_UlSyncValidityDurSet = False, cd_UlSyncValidityDur = 0, cd_PdschMaxHarqRetxs = 0,
     cd_PrachMaxMsg3HarqRetx = 0, cd_RrcGuardTimeMs = 0, cd_SIWindowLength = 0, cd_SIPeriod = 0,
     cd_SIWindowPosition = 0\<rparr>"

definition baseConfigData :: "NTNCellConfigSpec \<Rightarrow> configData" where
  "baseConfigData spec =
     (let payloadType = (if PayloadType (NTN spec) = '''' then ''transparent'' else PayloadType (NTN spec))
      in zero_configData\<lparr>cd_PayloadType := sanitizeComment payloadType,
           cd_Koffset := CellSpecificKoffset (NTN spec),
           cd_TACommon := scaled (np_TACommon (NTN spec)) taCommonStepUs,
           cd_PdschMaxHarqRetxs := 0, cd_PrachMaxMsg3HarqRetx := 0, cd_RrcGuardTimeMs := 12800,
           cd_SIWindowLength := defaultSIWindowLength, cd_SIPeriod := defaultSIPeriod,
           cd_SIWindowPosition := defaultSIWindowPosition\<rparr>)"

definition applyTAInfo :: "NTNCellConfigSpec \<Rightarrow> configData \<Rightarrow> configData" where
  "applyTAInfo spec d =
     (case np_TAInfo (NTN spec) of
        None \<Rightarrow> d
      | Some ta \<Rightarrow>
          (let d1 = d\<lparr>cd_TACommon := scaled (ta_TACommon ta) taCommonStepUs\<rparr> in
           if ta_TACommonDrift ta \<noteq> 0 \<or> ta_TACommonDriftVariant ta \<noteq> 0 \<or> ta_TACommonOffset ta \<noteq> 0
           then d1\<lparr>cd_TAInfoExtended := True,
                  cd_TACommonDrift := scaled (ta_TACommonDrift ta) taCommonDriftStep,
                  cd_TACommonDriftVariant := scaled (ta_TACommonDriftVariant ta) taCommonDriftVarStep,
                  cd_TACommonOffset := scaled (ta_TACommonOffset ta) taCommonStepUs\<rparr>
           else d1))"

text \<open>One \<open>if\<close> of the source per step.\<close>

definition with_opt :: "'a option \<Rightarrow> ('a \<Rightarrow> 'b \<Rightarrow> 'b) \<Rightarrow> 'b \<Rightarrow> 'b" where
  "with_opt x f d = (case x of None \<Rightarrow> d | Some v \<Rightarrow> f v d)"

definition applyOptionalNTNFields :: "NTNCellConfigSpec \<Rightarrow> configData \<Rightarrow> configData" where
  "applyOptionalNTNFields spec d =
     (let ntn = NTN spec;
          d1 = with_opt (np_EpochTime ntn) (\<lambda>e d. d\<lparr>cd_EpochTime := True, cd_EpochSFN := SFN e,
                 cd_EpochSubframeNumber := SubframeNumber e\<rparr>) d;
          d2 = with_opt (np_FeederLinkInfo ntn) (\<lambda>f d. d\<lparr>cd_FeederLink := True,
                 cd_FeederDopplerCompensation := EnableDopplerCompensation f, cd_FeederDLFreq := DLFreqHz f,
                 cd_FeederULFreq := ULFreqHz f\<rparr>) d1;
          d3 = with_opt (np_NTNGatewayLocation ntn) (\<lambda>g d. d\<lparr>cd_GatewayLocation := True,
                 cd_GatewayLatitude := scaled (gw_Latitude g) oneEMinus4DegToDeg,
                 cd_GatewayLongitude := scaled (gw_Longitude g) oneEMinus4DegToDeg,
                 cd_GatewayAltitude := gw_Altitude g\<rparr>) d2;
          d4 = with_opt (np_MovingRefLocation ntn) (\<lambda>g d. d\<lparr>cd_MovingRefLocation := True,
                 cd_MovingRefLatitude := scaled (mr_Latitude g) oneEMinus4DegToDeg,
                 cd_MovingRefLongitude := scaled (mr_Longitude g) oneEMinus4DegToDeg\<rparr>) d3;
          d5 = with_opt (np_Polarization ntn) (\<lambda>pol d.
                 if pol_DL pol \<noteq> '''' \<or> pol_UL pol \<noteq> ''''
                 then d\<lparr>cd_HasPolarization := True, cd_PolarizationDL := pol_DL pol, cd_PolarizationUL := pol_UL pol\<rparr>
                 else d) d4;
          d6 = with_opt (np_TAReport ntn) (\<lambda>b d. d\<lparr>cd_TAReportSet := True, cd_TAReport := b\<rparr>) d5
      in with_opt (np_NTNUlSyncValidityDur ntn)
           (\<lambda>n d. d\<lparr>cd_UlSyncValidityDurSet := True, cd_UlSyncValidityDur := n\<rparr>) d6)"

definition applyStage3Fields :: "NTNCellConfigSpec \<Rightarrow> configData \<Rightarrow> configData" where
  "applyStage3Fields spec d =
     (let ntn = NTN spec;
          d1 = (if NeighborCells ntn \<noteq> []
                then d\<lparr>cd_HasNCells := True,
                       cd_NCells := cd_NCells d @ map (\<lambda>nc. \<lparr>nd_PhysicalCellID = PhysicalCellID nc,
                          nd_Frequency = nc_Frequency nc\<rparr>) (NeighborCells ntn)\<rparr>
                else d);
          d2 = with_opt (np_ReferenceLocation ntn) (\<lambda>g d. d\<lparr>cd_HasReferenceLocation := True,
                 cd_RefLatitude := scaled (rl_Latitude g) oneEMinus4DegToDeg,
                 cd_RefLongitude := scaled (rl_Longitude g) oneEMinus4DegToDeg\<rparr>) d1
      in with_opt (DistanceThreshold ntn)
           (\<lambda>n d. d\<lparr>cd_HasDistanceThreshold := True, cd_DistanceThreshold := n\<rparr>) d2)"

definition applyCellOverrides :: "NTNCellConfigSpec \<Rightarrow> configData \<Rightarrow> configData" where
  "applyCellOverrides spec d =
     (case cs_CellOverrides spec of
        None \<Rightarrow> d
      | Some ov \<Rightarrow>
          (let d1 = (if PdschMaxHarqRetxs ov > 0 then d\<lparr>cd_PdschMaxHarqRetxs := PdschMaxHarqRetxs ov\<rparr> else d);
               d2 = (if PrachMaxMsg3HarqRetx ov > 0 then d1\<lparr>cd_PrachMaxMsg3HarqRetx := PrachMaxMsg3HarqRetx ov\<rparr> else d1);
               d3 = (if RrcGuardTimeMs ov > 0 then d2\<lparr>cd_RrcGuardTimeMs := RrcGuardTimeMs ov\<rparr> else d2)
           in with_opt (SIBSchedule ov) (\<lambda>sched d.
                (let e1 = (if SIWindowLength sched > 0 then d\<lparr>cd_SIWindowLength := SIWindowLength sched\<rparr> else d);
                     e2 = (if SIPeriod sched > 0 then e1\<lparr>cd_SIPeriod := SIPeriod sched\<rparr> else e1)
                 in with_opt (SIWindowPosition sched) (\<lambda>p e. e\<lparr>cd_SIWindowPosition := p\<rparr>) e2)) d3))"

definition applyEphemeris :: "NTNCellConfigSpec \<Rightarrow> configData \<Rightarrow> configData result" where
  "applyEphemeris spec d =
     (case (np_EphemerisECEF (NTN spec), np_EphemerisOrbital (NTN spec)) of
        (Some _, Some _) \<Rightarrow> Inl (Errorf [Lit ''ephemerisECEF and ephemerisOrbital are mutually exclusive''])
      | (None, Some orb) \<Rightarrow>
          Inr (d\<lparr>cd_UseOrbital := True, cd_OrbSemiMajorAxis := orb_SemiMajorAxis orb,
                 cd_OrbEccentricity := scaled (orb_Eccentricity orb) eccentricityScale,
                 cd_OrbInclination := scaled (orb_Inclination orb) milliDegToRad,
                 cd_OrbRightAscension := scaled (orb_RightAscension orb) milliDegToRad,
                 cd_OrbArgOfPeriapsis := scaled (orb_ArgOfPeriapsis orb) milliDegToRad,
                 cd_OrbMeanAnomaly := scaled (orb_MeanAnomaly orb) milliDegToRad\<rparr>)
      | (Some e, None) \<Rightarrow>
          Inr (d\<lparr>cd_EphPosX := scaled (PosX e) ECEFPositionStep,
                 cd_EphPosY := scaled (PosY e) ECEFPositionStep,
                 cd_EphPosZ := scaled (PosZ e) ECEFPositionStep,
                 cd_EphVelX := scaled (VelX e) ECEFVelocityStep,
                 cd_EphVelY := scaled (VelY e) ECEFVelocityStep,
                 cd_EphVelZ := scaled (VelZ e) ECEFVelocityStep\<rparr>)
      | (None, None) \<Rightarrow> Inl (Errorf [Lit ''either ephemerisECEF or ephemerisOrbital must be set'']))"

section \<open>The template\<close>

definition bool_str :: "bool \<Rightarrow> string" where
  "bool_str b = (if b then ''true'' else ''false'')"

definition if_lines :: "bool \<Rightarrow> string list \<Rightarrow> string list" where
  "if_lines b ls = (if b then ls else [])"

text \<open>The lines before the ephemeris block, the block and the lines after it.\<close>

definition header_lines :: "configData \<Rightarrow> string list" where
  "header_lines d =
     [''# Generated by NTN K8s Operators '' @ [CHR 0xE2, CHR 0x80, CHR 0x94] @ '' do not edit manually'',
      ''# Payload type: '' @ cd_PayloadType d @ '' (3GPP Rel-19: transparent or regenerative)'',
      '''',
      ''cell_cfg:'',
      ''  ntn:'',
      ''    cell_specific_koffset: '' @ Itoa (cd_Koffset d),
      ''    ta_info:'',
      ''      ta_common: '' @ flt (cd_TACommon d)]
     @ if_lines (cd_TAInfoExtended d)
         [''      ta_common_drift: '' @ flt (cd_TACommonDrift d),
          ''      ta_common_drift_variant: '' @ flt (cd_TACommonDriftVariant d),
          ''      ta_common_offset: '' @ flt (cd_TACommonOffset d)]"

definition ephemeris_lines :: "configData \<Rightarrow> string list" where
  "ephemeris_lines d =
     (if cd_UseOrbital d then
        [''    ephemeris_orbital:'',
         ''      semi_major_axis: '' @ Itoa (cd_OrbSemiMajorAxis d),
         ''      eccentricity: '' @ flt (cd_OrbEccentricity d),
         ''      inclination: '' @ flt (cd_OrbInclination d),
         ''      longitude: '' @ flt (cd_OrbRightAscension d),
         ''      periapsis: '' @ flt (cd_OrbArgOfPeriapsis d),
         ''      mean_anomaly: '' @ flt (cd_OrbMeanAnomaly d)]
      else
        [''    ephemeris_info_ecef:'',
         ''      pos_x: '' @ flt (cd_EphPosX d),
         ''      pos_y: '' @ flt (cd_EphPosY d),
         ''      pos_z: '' @ flt (cd_EphPosZ d),
         ''      vel_x: '' @ flt (cd_EphVelX d),
         ''      vel_y: '' @ flt (cd_EphVelY d),
         ''      vel_z: '' @ flt (cd_EphVelZ d)])"

definition ncell_lines :: "ntnNeighborCellData \<Rightarrow> string list" where
  "ncell_lines n = (''      - pci: '' @ Itoa (nd_PhysicalCellID n))
     # if_lines (nd_Frequency n \<noteq> 0) [''        carrier_freq: '' @ Itoa (nd_Frequency n)]"

definition optional_lines :: "(rune \<Rightarrow> bool) \<Rightarrow> configData \<Rightarrow> string list" where
  "optional_lines IsPrint d =
     if_lines (cd_EpochTime d)
       [''    epoch_time:'',
        ''      sfn: '' @ Itoa (cd_EpochSFN d),
        ''      subframe_number: '' @ Itoa (cd_EpochSubframeNumber d)]
     @ if_lines (cd_FeederLink d)
       [''    feeder_link:'',
        ''      enable_doppler_compensation: '' @ bool_str (cd_FeederDopplerCompensation d),
        ''      dl_freq: '' @ Itoa (cd_FeederDLFreq d),
        ''      ul_freq: '' @ Itoa (cd_FeederULFreq d)]
     @ if_lines (cd_GatewayLocation d)
       [''    gateway_location:'',
        ''      latitude: '' @ flt (cd_GatewayLatitude d),
        ''      longitude: '' @ flt (cd_GatewayLongitude d),
        ''      altitude: '' @ Itoa (cd_GatewayAltitude d)]
     @ if_lines (cd_HasNCells d)
       (''    ncells:'' # concat (map ncell_lines (cd_NCells d)))
     @ if_lines (cd_HasReferenceLocation d)
       [''    reference_location:'',
        ''      latitude: '' @ flt (cd_RefLatitude d),
        ''      longitude: '' @ flt (cd_RefLongitude d)]
     @ if_lines (cd_HasDistanceThreshold d)
       [''    distance_threshold: '' @ Itoa (cd_DistanceThreshold d)]
     @ if_lines (cd_MovingRefLocation d)
       [''    moving_ref_location:'',
        ''      latitude: '' @ flt (cd_MovingRefLatitude d),
        ''      longitude: '' @ flt (cd_MovingRefLongitude d)]
     @ if_lines (cd_HasPolarization d)
       (''    polarization:''
        # if_lines (cd_PolarizationDL d \<noteq> '''') [''      dl: '' @ yamlQuote IsPrint (cd_PolarizationDL d)]
        @ if_lines (cd_PolarizationUL d \<noteq> '''') [''      ul: '' @ yamlQuote IsPrint (cd_PolarizationUL d)])
     @ if_lines (cd_TAReportSet d)
       [''    ta_report: '' @ bool_str (cd_TAReport d)]
     @ if_lines (cd_UlSyncValidityDurSet d)
       [''    ntn_ul_sync_validity_dur: '' @ Itoa (cd_UlSyncValidityDur d)]"

definition sib_lines :: "configData \<Rightarrow> string list" where
  "sib_lines d =
     [''  sib:'',
      ''    si_window_length: '' @ Itoa (cd_SIWindowLength d),
      ''    si_sched_info:'',
      ''      # SIB2 (ID < 15) uses schedulingInfoList and must precede SIB19: OCUDU'',
      ''      # rejects a SIB19-only schedule ('' @ [CHR 34] @ ''SIB19 requires at least one SIB with'',
      ''      # ID < 15'' @ [CHR 34] @ ''). SIB2 broadcasts with OCUDU defaults (no sib2 block needed).'',
      ''      - si_period: '' @ Itoa (cd_SIPeriod d),
      ''        sib_mapping: [2]'',
      ''      # SIB19 (ID >= 15) uses schedulingInfoList2 and needs an si_window_position'',
      ''      # strictly greater than the number of preceding schedulingInfoList entries'',
      ''      # (1 here), so si_window_position >= 2.'',
      ''      - si_period: '' @ Itoa (cd_SIPeriod d),
      ''        sib_mapping: [19]'',
      ''        si_window_position: '' @ Itoa (cd_SIWindowPosition d),
      ''  pdsch:'',
      ''    max_nof_harq_retxs: '' @ Itoa (cd_PdschMaxHarqRetxs d),
      ''  prach:'',
      ''    max_msg3_harq_retx: '' @ Itoa (cd_PrachMaxMsg3HarqRetx d),
      '''',
      ''cu_cp:'',
      ''  rrc:'',
      ''    rrc_procedure_guard_time_ms: '' @ Itoa (cd_RrcGuardTimeMs d),
      '''']"

definition configTemplate :: "(rune \<Rightarrow> bool) \<Rightarrow> configData \<Rightarrow> string list" where
  "configTemplate IsPrint d = header_lines d @ ephemeris_lines d @ optional_lines IsPrint d @ sib_lines d"

definition specConfigData :: "NTNCellConfigSpec \<Rightarrow> configData" where
  "specConfigData spec =
     applyCellOverrides spec (applyStage3Fields spec (applyOptionalNTNFields spec (applyTAInfo spec (baseConfigData spec))))"

definition GenerateConfig :: "(rune \<Rightarrow> bool) \<Rightarrow> NTNCellConfigSpec option \<Rightarrow> string result" where
  "GenerateConfig IsPrint spec =
     (case spec of
        None \<Rightarrow> Inl (Errorf [Lit ''spec must not be nil''])
      | Some sp \<Rightarrow>
          (case applyEphemeris sp (specConfigData sp) of
             Inl e \<Rightarrow> Inl e
           | Inr d \<Rightarrow> Inr (Join (configTemplate IsPrint d) [lf])))"

section \<open>Lines\<close>

lemma Split_not_Nil [simp]: "Split c s \<noteq> []"
  by (induction s) (auto split: list.splits)

lemma Split_free: "c \<notin> set s \<Longrightarrow> Split c s = [s]"
  by (induction s) auto

lemma Split_append: "Split c (a @ c # b) = Split c a @ Split c b"
proof (induction a)
  case (Cons x a)
  obtain p ps where "Split c a = p # ps" by (cases "Split c a") auto
  then show ?case using Cons by simp
qed simp

lemma Join_Cons: "ls \<noteq> [] \<Longrightarrow> Join (l # ls) sep = l @ sep @ Join ls sep"
  by (cases ls) auto

lemma Join_append: "ls \<noteq> [] \<Longrightarrow> ms \<noteq> [] \<Longrightarrow> Join (ls @ ms) sep = Join ls sep @ sep @ Join ms sep"
proof (induction ls)
  case (Cons l ls)
  then show ?case by (cases "ls = []") (simp_all add: Join_Cons)
qed simp

lemma Join_Split: "Join (Split c s) [c] = s"
proof (induction s)
  case (Cons x s)
  obtain p ps where "Split c s = p # ps" by (cases "Split c s") auto
  with Cons show ?case by (cases ps) (auto simp: Join_Cons)
qed simp

lemma Split_Join: "ls \<noteq> [] \<Longrightarrow> Split c (Join ls [c]) = concat (map (Split c) ls)"
proof (induction ls)
  case (Cons l ls)
  then show ?case by (cases "ls = []") (simp_all add: Join_Cons Split_append)
qed simp

section \<open>The comment line\<close>

text \<open>What \<open>sanitizeComment\<close> does to a code point.\<close>

definition san_rune :: "rune \<Rightarrow> rune list" where
  "san_rune r = (if r \<in> {10, 13, 133, 8232, 8233} then [32] else if r = 0 then [] else [r])"

lemma space_code: "char_of (32 :: nat) = CHR '' ''"
  by code_simp

lemma char_code: "c = d \<longleftrightarrow> (of_char c :: nat) = of_char d"
  by simp

lemma find_comment:
  "find (\<lambda>(old, new). prefix old (c # s)) comment_pairs =
     (if byte c = 10 then Some ([lf], '' '') else if byte c = 13 then Some ([CHR 0x0D], '' '')
      else if byte c = 194 \<and> prefix [CHR 0x85] s then Some ([CHR 0xC2, CHR 0x85], '' '')
      else if byte c = 226 \<and> prefix [CHR 0x80, CHR 0xA8] s then Some ([CHR 0xE2, CHR 0x80, CHR 0xA8], '' '')
      else if byte c = 226 \<and> prefix [CHR 0x80, CHR 0xA9] s then Some ([CHR 0xE2, CHR 0x80, CHR 0xA9], '' '')
      else if byte c = 0 then Some ([CHR 0x00], '''') else None)"
  by (auto simp: comment_pairs_def char_code [of _ c] simp del: of_char_eq_iff)

lemma replace_keep:
  assumes "byte c \<notin> {0, 10, 13, 194, 226}"
  shows "replace_pairs comment_pairs 0 (c # s) = c # replace_pairs comment_pairs 0 s"
  using assms by (simp add: find_comment)

lemma replace_cont: "cont (byte c) \<Longrightarrow> replace_pairs comment_pairs 0 (c # s) = c # replace_pairs comment_pairs 0 s"
  by (rule replace_keep) (auto simp: cont_def)

lemma replace_lead:
  assumes "128 \<le> byte c" "\<not> (byte c = 194 \<and> prefix [CHR 0x85] s)" "\<not> (byte c = 226 \<and> prefix [CHR 0x80, CHR 0xA8] s)"
    "\<not> (byte c = 226 \<and> prefix [CHR 0x80, CHR 0xA9] s)"
  shows "replace_pairs comment_pairs 0 (c # s) = c # replace_pairs comment_pairs 0 s"
  using assms by (auto simp: find_comment)

lemma replace_rune:
  assumes "valid_rune r"
  shows "replace_pairs comment_pairs 0 (EncodeRune r @ s) = string_of (san_rune r) @ replace_pairs comment_pairs 0 s"
proof -
  have "r < 1114112" using assms by (auto simp: valid_rune_def)
  then consider "r < 128" | "128 \<le> r" "r < 2048" | "2048 \<le> r" "r < 65536" | "65536 \<le> r" "r < 1114112"
    by (meson not_less)
  then show ?thesis
  proof cases
    case 1
    then have e: "EncodeRune r = [char_of r]" and b: "byte (char_of r) = r"
      using assms by (simp_all add: EncodeRune_def)

    show ?thesis using 1 e b assms
      by (auto simp: find_comment space_code san_rune_def string_of_def EncodeRune_def valid_rune_def)
  next
    case 2
    define c0 c1 where "c0 = (char_of (192 + r div 64) :: char)" and "c1 = (char_of (128 + r mod 64) :: char)"
    have d: "2 \<le> r div 64" "r div 64 < 32" using 2 by auto
    have b: "byte c0 = 192 + r div 64" "byte c1 = 128 + r mod 64" using d by (simp_all add: c0_def c1_def)
    have e: "EncodeRune r = [c0, c1]" using 2 assms by (simp add: EncodeRune_def c0_def c1_def)
    have "r = 133" if "r div 64 = 2" "r mod 64 = 5"
      using div_mult_mod_eq [of r 64] unfolding that by simp
    then have k: "byte c0 = 194 \<and> byte c1 = 133 \<longleftrightarrow> r = 133" unfolding b by auto
    show ?thesis
    proof (cases "r = 133")
      case True
      moreover have "c1 = CHR 0x85" using True b char_code [of c1 "CHR 0x85"] by simp
      ultimately show ?thesis using e b
        by (simp add: find_comment san_rune_def string_of_def EncodeRune_def valid_rune_def space_code)
    next
      case False
      then have "san_rune r = [r]" using 2 by (auto simp: san_rune_def)
      moreover have "replace_pairs comment_pairs 0 (c0 # c1 # s) = c0 # replace_pairs comment_pairs 0 (c1 # s)"
        by (rule replace_lead) (use b k d False in auto)
      moreover have "cont (byte c1)" unfolding b by (simp add: cont_def)
      ultimately show ?thesis using e replace_cont [of c1 s] by (simp add: string_of_def del: replace_pairs.simps)
    qed
  next
    case 3
    define c0 c1 c2 where "c0 = (char_of (224 + r div 4096) :: char)" and "c1 = (char_of (128 + r div 64 mod 64) :: char)"
      and "c2 = (char_of (128 + r mod 64) :: char)"
    have d: "r div 4096 < 16" using 3 by auto
    have b: "byte c0 = 224 + r div 4096" "byte c1 = 128 + r div 64 mod 64" "byte c2 = 128 + r mod 64"
      using d by (simp_all add: c0_def c1_def c2_def)
    have e: "EncodeRune r = [c0, c1, c2]" using 3 assms by (simp add: EncodeRune_def c0_def c1_def c2_def)
    have "r = 8192 + n" if "r div 4096 = 2" "r div 64 mod 64 = 0" "r mod 64 = n" for n
      using bits12 [of r] unfolding that by simp
    from this [of 40] this [of 41] have k: "byte c0 = 226 \<and> byte c1 = 128 \<and> byte c2 = 168 \<longleftrightarrow> r = 8232"
      "byte c0 = 226 \<and> byte c1 = 128 \<and> byte c2 = 169 \<longleftrightarrow> r = 8233" unfolding b by auto
    show ?thesis
    proof (cases "r = 8232 \<or> r = 8233")
      case True
      then have "c1 = CHR 0x80" "c2 = (if r = 8232 then CHR 0xA8 else CHR 0xA9)"
        using b char_code [of c1 "CHR 0x80"] char_code [of c2 "CHR 0xA8"] char_code [of c2 "CHR 0xA9"] by auto
      then show ?thesis using True e b
        by (auto simp: find_comment san_rune_def string_of_def EncodeRune_def valid_rune_def space_code)
    next
      case False
      then have "san_rune r = [r]" using 3 by (auto simp: san_rune_def)
      moreover have "replace_pairs comment_pairs 0 (c0 # c1 # c2 # s) = c0 # replace_pairs comment_pairs 0 (c1 # c2 # s)"
        by (rule replace_lead) (use b k d False in auto)
      moreover have "cont (byte c1)" "cont (byte c2)" unfolding b by (simp_all add: cont_def)
      ultimately show ?thesis using e replace_cont [of c1 "c2 # s"] replace_cont [of c2 s]
        by (simp add: string_of_def del: replace_pairs.simps)
    qed
  next
    case 4
    define c0 c1 c2 c3 where "c0 = (char_of (240 + r div 262144) :: char)" and "c1 = (char_of (128 + r div 4096 mod 64) :: char)"
      and "c2 = (char_of (128 + r div 64 mod 64) :: char)" and "c3 = (char_of (128 + r mod 64) :: char)"
    have d: "r div 262144 < 5" using 4 by auto
    have b: "byte c0 = 240 + r div 262144" "byte c1 = 128 + r div 4096 mod 64" "byte c2 = 128 + r div 64 mod 64"
      "byte c3 = 128 + r mod 64"
      using d by (simp_all add: c0_def c1_def c2_def c3_def)
    have e: "EncodeRune r = [c0, c1, c2, c3]" using 4 assms by (simp add: EncodeRune_def c0_def c1_def c2_def c3_def)
    have "san_rune r = [r]" using 4 by (auto simp: san_rune_def)
    moreover have "cont (byte c1)" "cont (byte c2)" "cont (byte c3)" unfolding b by (simp_all add: cont_def)
    ultimately show ?thesis using e b d replace_keep [of c0] replace_cont
      by (simp add: string_of_def del: replace_pairs.simps)
  qed
qed

text \<open>On any text of valid code points, \<open>sanitizeComment\<close> puts a space for each of the five line
  terminators (LF, CR, NEL, LS, PS), drops NUL, and leaves every other code point as it is.\<close>

theorem sanitize_exact:
  "\<forall>r\<in>set rs. valid_rune r \<Longrightarrow> sanitizeComment (string_of rs) = string_of (concat (map san_rune rs))"
proof (induction rs)
  case (Cons r rs)
  then show ?case
    using replace_rune [of r "string_of rs"] by (simp add: sanitizeComment_def string_of_def)
qed (simp add: sanitizeComment_def string_of_def)

text \<open>On any bytes at all, no LF, CR or NUL is left.\<close>

lemma replace_clean: "c \<in> set (replace_pairs comment_pairs k s) \<Longrightarrow> byte c \<notin> {0, 10, 13}"
proof (induction comment_pairs k s rule: replace_pairs.induct)
  case (3 d s)
  show ?case
  proof (cases "find (\<lambda>(old, new). prefix old (d # s)) comment_pairs")
    case None
    then have "byte d \<notin> {0, 10, 13}" by (auto simp: find_comment split: if_splits)
    then show ?thesis using 3 None by auto
  next
    case (Some p)
    then have "set (snd p) \<subseteq> {CHR '' ''}" by (auto simp: find_comment split: if_splits)
    then show ?thesis using 3 Some by (cases p) (auto, blast+)
  qed
qed auto

lemma sanitize_clean: "c \<in> set (sanitizeComment s) \<Longrightarrow> byte c \<notin> {0, 10, 13}"
  unfolding sanitizeComment_def by (rule replace_clean)

lemma sanitize_lf: "lf \<notin> set (sanitizeComment s)"
  using sanitize_clean [of lf s] by auto

section \<open>What a payload type can change\<close>

definition payload_line :: "string \<Rightarrow> string" where
  "payload_line p = ''# Payload type: '' @ sanitizeComment (if p = '''' then ''transparent'' else p)
     @ '' (3GPP Rel-19: transparent or regenerative)''"

definition set_payload :: "string \<Rightarrow> NTNCellConfigSpec \<Rightarrow> NTNCellConfigSpec" where
  "set_payload p spec = spec\<lparr>NTN := (NTN spec)\<lparr>PayloadType := p\<rparr>\<rparr>"

abbreviation put_payload :: "string \<Rightarrow> configData \<Rightarrow> configData" where
  "put_payload q \<equiv> cd_PayloadType_update (\<lambda>_. q)"

text \<open>No step of the conversion reads or writes the payload type once it is set.\<close>

lemma with_opt_payload:
  "(\<And>v d. f v (put_payload q d) = put_payload q (f v d)) \<Longrightarrow>
     with_opt x f (put_payload q d) = put_payload q (with_opt x f d)"
  by (simp add: with_opt_def split: option.splits)

lemma if_payload: "(if b then put_payload q x else put_payload q y) = put_payload q (if b then x else y)"
  by simp

lemma update_payload:
  "cd_HasNCells_update f (put_payload q d) = put_payload q (cd_HasNCells_update f d)"
  "cd_NCells_update g (put_payload q d) = put_payload q (cd_NCells_update g d)"
  "cd_PdschMaxHarqRetxs_update h (put_payload q d) = put_payload q (cd_PdschMaxHarqRetxs_update h d)"
  "cd_PrachMaxMsg3HarqRetx_update h (put_payload q d) = put_payload q (cd_PrachMaxMsg3HarqRetx_update h d)"
  "cd_RrcGuardTimeMs_update h (put_payload q d) = put_payload q (cd_RrcGuardTimeMs_update h d)"
  "cd_SIWindowLength_update h (put_payload q d) = put_payload q (cd_SIWindowLength_update h d)"
  "cd_SIPeriod_update h (put_payload q d) = put_payload q (cd_SIPeriod_update h d)"
  "cd_SIWindowPosition_update h (put_payload q d) = put_payload q (cd_SIWindowPosition_update h d)"
  by (simp_all add: configData.defs)

lemmas payload_commute = with_opt_payload if_payload update_payload

lemma NTN_set_payload [simp]:
  "np_TACommon (NTN (set_payload p spec)) = np_TACommon (NTN spec)"
  "CellSpecificKoffset (NTN (set_payload p spec)) = CellSpecificKoffset (NTN spec)"
  "PayloadType (NTN (set_payload p spec)) = p"
  "np_TAInfo (NTN (set_payload p spec)) = np_TAInfo (NTN spec)"
  "np_EpochTime (NTN (set_payload p spec)) = np_EpochTime (NTN spec)"
  "np_FeederLinkInfo (NTN (set_payload p spec)) = np_FeederLinkInfo (NTN spec)"
  "np_NTNGatewayLocation (NTN (set_payload p spec)) = np_NTNGatewayLocation (NTN spec)"
  "np_MovingRefLocation (NTN (set_payload p spec)) = np_MovingRefLocation (NTN spec)"
  "np_Polarization (NTN (set_payload p spec)) = np_Polarization (NTN spec)"
  "np_TAReport (NTN (set_payload p spec)) = np_TAReport (NTN spec)"
  "np_NTNUlSyncValidityDur (NTN (set_payload p spec)) = np_NTNUlSyncValidityDur (NTN spec)"
  "NeighborCells (NTN (set_payload p spec)) = NeighborCells (NTN spec)"
  "np_ReferenceLocation (NTN (set_payload p spec)) = np_ReferenceLocation (NTN spec)"
  "DistanceThreshold (NTN (set_payload p spec)) = DistanceThreshold (NTN spec)"
  "np_EphemerisECEF (NTN (set_payload p spec)) = np_EphemerisECEF (NTN spec)"
  "np_EphemerisOrbital (NTN (set_payload p spec)) = np_EphemerisOrbital (NTN spec)"
  "cs_CellOverrides (set_payload p spec) = cs_CellOverrides spec"
  by (simp_all add: set_payload_def)

lemma base_payload: "baseConfigData (set_payload p spec) =
    put_payload (sanitizeComment (if p = '''' then ''transparent'' else p)) (baseConfigData spec)"
  by (simp add: baseConfigData_def Let_def)

lemma ta_payload: "applyTAInfo (set_payload p spec) (put_payload q d) = put_payload q (applyTAInfo spec d)"
  by (simp add: applyTAInfo_def Let_def split: option.splits)

lemma optional_payload: "applyOptionalNTNFields (set_payload p spec) (put_payload q d) = put_payload q (applyOptionalNTNFields spec d)"
  by (simp add: applyOptionalNTNFields_def Let_def with_opt_payload)

lemma stage3_payload: "applyStage3Fields (set_payload p spec) (put_payload q d) = put_payload q (applyStage3Fields spec d)"
  by (cases "NeighborCells (NTN spec) = []") (simp_all add: applyStage3Fields_def Let_def with_opt_payload update_payload)

lemma overrides_payload: "applyCellOverrides (set_payload p spec) (put_payload q d) = put_payload q (applyCellOverrides spec d)"
proof (cases "cs_CellOverrides spec")
  case (Some ov)
  have step: "(if b then f (put_payload q x) else put_payload q x) = put_payload q (if b then f x else x)"
    if "\<And>x. f (put_payload q x) = put_payload q (f x)" for b f x using that by simp
  show ?thesis
    unfolding applyCellOverrides_def Let_def Some option.case NTN_set_payload
    apply (subst step, simp only: update_payload)+
    apply (rule with_opt_payload)
    apply (subst step, simp only: update_payload)+
    apply (rule with_opt_payload)
    apply (simp only: update_payload)
    done
qed (simp add: applyCellOverrides_def)

lemma spec_payload: "specConfigData (set_payload p spec) =
    put_payload (sanitizeComment (if p = '''' then ''transparent'' else p)) (specConfigData spec)"
  by (simp only: specConfigData_def base_payload ta_payload optional_payload stage3_payload overrides_payload)

lemma ephemeris_payload: "applyEphemeris (set_payload p spec) (put_payload q d) =
    map_sum id (put_payload q) (applyEphemeris spec d)"
  by (simp add: applyEphemeris_def split: option.splits)

lemma header_payload: "header_lines (put_payload q d) =
    (header_lines d)[1 := ''# Payload type: '' @ q @ '' (3GPP Rel-19: transparent or regenerative)'']"
  by (simp add: header_lines_def)

lemma ephemeris_lines_payload: "ephemeris_lines (put_payload q d) = ephemeris_lines d"
  by (simp add: ephemeris_lines_def)

lemma optional_lines_payload: "optional_lines P (put_payload q d) = optional_lines P d"
  by (simp add: optional_lines_def)

lemma sib_lines_payload: "sib_lines (put_payload q d) = sib_lines d"
  by (simp add: sib_lines_def)

lemma header_length: "1 < length (header_lines d)"
  by (simp add: header_lines_def)

lemma template_payload: "configTemplate P (put_payload q d) =
    (configTemplate P d)[1 := ''# Payload type: '' @ q @ '' (3GPP Rel-19: transparent or regenerative)'']"
  using header_length [of d]
  by (simp add: configTemplate_def header_payload ephemeris_lines_payload optional_lines_payload sib_lines_payload
      list_update_append)

lemma Itoa_lf: "lf \<notin> set (Itoa i)"
  using Itoa_chars [of lf i] by (auto simp: is_digit_def)

lemma header_first: "\<exists>rest. header_lines d =
     (''# Generated by NTN K8s Operators '' @ [CHR 0xE2, CHR 0x80, CHR 0x94] @ '' do not edit manually'')
     # (''# Payload type: '' @ cd_PayloadType d @ '' (3GPP Rel-19: transparent or regenerative)'') # rest"
  by (simp add: header_lines_def)

lemma Split_second:
  assumes "lf \<notin> set l0" "lf \<notin> set l1" "rest \<noteq> []"
  shows "Split lf (Join (l0 # l1 # rest) [lf]) = l0 # l1 # Split lf (Join rest [lf])"
  using assms by (simp add: Join_Cons Split_append Split_free)

lemma set_payload_same: "set_payload (PayloadType (NTN spec)) spec = spec"
  by (simp add: set_payload_def)

lemma spec_payload_clean: "lf \<notin> set (cd_PayloadType (specConfigData spec))"
proof -
  have "cd_PayloadType (specConfigData (set_payload (PayloadType (NTN spec)) spec))
      = sanitizeComment (if PayloadType (NTN spec) = '''' then ''transparent'' else PayloadType (NTN spec))"
    unfolding spec_payload by simp
  then show ?thesis unfolding set_payload_same by (simp only: sanitize_lf not_False_eq_True)
qed

lemma applyEphemeris_payload: "applyEphemeris spec d = Inr d' \<Longrightarrow> cd_PayloadType d' = cd_PayloadType d"
  by (auto simp: applyEphemeris_def split: option.splits)

lemma payload_line_clean: "c \<in> set (payload_line p) \<Longrightarrow> byte c \<notin> {0, 10, 13}"
  using sanitize_clean [of c] by (auto simp: payload_line_def)

text \<open>A payload type, whatever bytes it holds, changes exactly one line of the generated document, the
  comment on the second line: split at its newlines, the document for one payload type is the document for
  any other with that line replaced, and the line is a comment without a carriage return or a NUL. No value
  of the field can add a key, end the comment or shift another line.\<close>

theorem payload_confined:
  assumes "GenerateConfig P (Some spec) = Inr y"
  shows "\<exists>y'. GenerateConfig P (Some (set_payload p spec)) = Inr y'
     \<and> Split lf y' = (Split lf y)[1 := payload_line p]
     \<and> prefix ''# '' (payload_line p) \<and> (\<forall>c\<in>set (payload_line p). byte c \<notin> {0, 10, 13})"
proof -
  obtain d where d: "applyEphemeris spec (specConfigData spec) = Inr d" and y: "y = Join (configTemplate P d) [lf]"
    using assms by (auto simp: GenerateConfig_def split: sum.splits)
  define q where "q = sanitizeComment (if p = '''' then ''transparent'' else p)"
  have d': "applyEphemeris (set_payload p spec) (specConfigData (set_payload p spec)) = Inr (put_payload q d)"
    unfolding spec_payload q_def [symmetric] ephemeris_payload d by simp
  have pl: "payload_line p = ''# Payload type: '' @ q @ '' (3GPP Rel-19: transparent or regenerative)''"
    by (simp add: payload_line_def q_def)
  obtain l0 l1 rest where t: "configTemplate P d = l0 # l1 # rest" "rest \<noteq> []" "lf \<notin> set l0" "lf \<notin> set l1"
    using header_first [of d] spec_payload_clean [of spec] applyEphemeris_payload [OF d]
    by (auto simp: configTemplate_def sib_lines_def)
  have t': "configTemplate P (put_payload q d) = l0 # payload_line p # rest"
    unfolding template_payload pl t by simp
  have lf: "lf \<notin> set (payload_line p)" using payload_line_clean [of lf p] by auto
  have "Split lf (Join (configTemplate P (put_payload q d)) [lf]) = (Split lf y)[1 := payload_line p]"
    unfolding t' y t(1) Split_second [OF t(3) lf t(2)] Split_second [OF t(3,4,2)] by simp
  moreover have "GenerateConfig P (Some (set_payload p spec)) = Inr (Join (configTemplate P (put_payload q d)) [lf])"
    by (simp add: GenerateConfig_def d')
  ultimately show ?thesis using payload_line_clean [of _ p] by (auto simp: pl)
qed

section \<open>Floats of the document\<close>

lemma round64_within:
  assumes "\<bar>x\<bar> \<le> pow2 e" "e < 1024" "0 \<le> e"
  shows "\<exists>a. round64 x = Fin a \<and> \<bar>a\<bar> \<le> pow2 e"
proof -
  have r: "round_rat (pow2 e) = pow2 e" using round_rat_fixed [of 1 e] assms by simp
  have "\<bar>round_rat x\<bar> \<le> pow2 e"
    using assms round_rat_mono [of x "pow2 e"] round_rat_mono [of "- pow2 e" x] r by (auto simp: abs_le_iff)
  moreover have "is_finite (round64 x)" using round64_small assms by blast
  ultimately show ?thesis by (auto simp: round64_def Let_def split: if_splits)
qed

definition is_step :: "rat \<Rightarrow> bool" where
  "is_step s \<longleftrightarrow> 0 < s \<and> s \<le> 2"

lemma steps [simp]: "is_step taCommonStepUs" "is_step taCommonDriftStep" "is_step taCommonDriftVarStep"
  "is_step eccentricityScale" "is_step oneEMinus4DegToDeg" "is_step milliDegToRad" "is_step ECEFPositionStep"
  "is_step ECEFVelocityStep"
  by (simp_all add: is_step_def taCommonStepUs_def taCommonDriftStep_def taCommonDriftVarStep_def
      eccentricityScale_def oneEMinus4DegToDeg_def milliDegToRad_def math_Pi_def ECEFPositionStep_def ECEFVelocityStep_def)

lemma scaled_finite:
  assumes "is_int64 n" "is_step s"
  shows "\<exists>a. scaled n s = Fin a \<and> f64_ok (Fin a)"
proof -
  have "\<bar>n\<bar> \<le> 2 ^ 63" using assms(1) by (auto simp: is_int64_def min_int64_def max_int64_def)
  then have "\<bar>of_int n :: rat\<bar> \<le> pow2 63" using of_int_le_pow2 [of 63 "\<bar>n\<bar>"] by simp
  then obtain a where a: "round64 (of_int n) = Fin a" "\<bar>a\<bar> \<le> pow2 63" using round64_within [of "of_int n" 63] by auto
  have "\<bar>s\<bar> \<le> pow2 1" using assms(2) by (simp add: is_step_def pow2_def)
  then obtain b where b: "round64 s = Fin b" "\<bar>b\<bar> \<le> pow2 1" using round64_within [of s 1] by auto
  have "\<bar>a * b\<bar> \<le> pow2 63 * pow2 1" using a(2) b(2) by (simp add: abs_mult mult_mono')
  then have "\<bar>a * b\<bar> \<le> pow2 64" by (simp add: pow2_add [of 63 1, symmetric])
  then obtain c where "round64 (a * b) = Fin c" using round64_within [of "a * b" 64] by auto
  then show ?thesis using a b f64_ok_round64 [of "a * b"] by (simp add: scaled_def f64_mul_def)
qed

text \<open>Every float the document holds is finite and reads back, with \<open>strconv.ParseFloat\<close>, as the value that
  was converted.\<close>

lemma flt_reads_back:
  assumes "is_int64 n" "is_step s"
  shows "\<exists>a. scaled n s = Fin a \<and> ParseFloat (flt (scaled n s)) = Inr (Fin a)"
  using scaled_finite [OF assms] FormatFloat_roundtrip by (auto simp: flt_def)

lemma decimal_chars: "c \<in> set (decimal d k) \<Longrightarrow> is_digit c \<or> c = CHR ''.''"
  using dec_nat_digits [of d]
  by (auto simp: decimal_def Let_def list_all_iff pad0_def is_digit_def split: if_splits
      dest!: in_set_takeD in_set_dropD)

lemma flt_lf: "lf \<notin> set (flt x)"
  using decimal_chars [of lf]
  by (auto simp: flt_def FormatFloat_f_def is_digit_def split: f64.splits option.splits if_splits)

text \<open>The replacer works on bytes: from bytes that are not UTF-8 it can make the line terminator U+0085 it is
  there to remove.\<close>

lemma sanitize_makes_nel: "sanitizeComment [CHR 0xC2, CHR 0x00, CHR 0x85] = [CHR 0xC2, CHR 0x85]"
  by code_simp

end
