(* ===== verification/Ocudu_Provider.thy ===== *)
theory Ocudu_Provider
  imports Ocudu_Config Go_Sha256
begin

text \<open>
  The ConfigMap side of the OCUDU provider, \<open>pkg/provider/ocudu/provider.go\<close>: the name of the ConfigMap,
  who owns it, \<open>ApplyCellConfig\<close>, \<open>GetCellStatus\<close>, \<open>PushEphemerisUpdate\<close> with its in-place rewrite of the
  document, and \<open>Cleanup\<close>. What the API server answers is the record \<open>ocudu_io\<close>, one field per call site; an
  operation returns its error and the list of the calls that write, in order.

  The helpers \<open>metav1.IsControlledBy\<close> and \<open>controllerutil.SetControllerReference\<close> are not part of the program:
  they are fields of the record, and \<open>owner_api_laws\<close> states their documented behaviour.
\<close>

section \<open>ConfigMaps\<close>

record OwnerReference =
  or_UID :: UID
  or_Controller :: bool

record CellConfigMap =
  km_Meta :: ObjectMeta
  km_OwnerReferences :: "OwnerReference list"
  km_Data :: "string \<rightharpoonup> string"

datatype cm_create = CmCreated | CmAlreadyExists | CmCreateFailed gerror

datatype cm_delete = CmDeleted | CmDeleteNotFound | CmDeleteFailed gerror

record ocudu_io =
  oio_IsPrint :: "rune \<Rightarrow> bool"
  oio_IsControlledBy :: "CellConfigMap \<Rightarrow> ObjectMeta \<Rightarrow> bool"
  oio_SetControllerReference :: "ObjectMeta \<Rightarrow> CellConfigMap \<Rightarrow> CellConfigMap result"
  oio_apply_get :: "NamespacedName \<Rightarrow> CellConfigMap get"
  oio_reread_get :: "NamespacedName \<Rightarrow> CellConfigMap get"
  oio_status_get :: "NamespacedName \<Rightarrow> CellConfigMap get"
  oio_push_get :: "NamespacedName \<Rightarrow> CellConfigMap get"
  oio_cleanup_get :: "NamespacedName \<Rightarrow> CellConfigMap get"
  oio_Create :: "CellConfigMap \<Rightarrow> cm_create"
  oio_Update :: "CellConfigMap \<Rightarrow> gerror option"
  oio_push_Update :: "CellConfigMap \<Rightarrow> gerror option"
  oio_Delete :: "CellConfigMap \<Rightarrow> UID \<Rightarrow> cm_delete"

text \<open>The calls that write: a delete carries the UID it is preconditioned on.\<close>

datatype cm_effect =
    CreateConfigMap CellConfigMap
  | UpdateConfigMap CellConfigMap
  | DeleteConfigMap CellConfigMap UID

definition owner_api_laws :: "ocudu_io \<Rightarrow> bool" where
  "owner_api_laws io \<longleftrightarrow>
     (\<forall>cm o'. oio_IsControlledBy io cm o' \<longleftrightarrow>
        (\<exists>r. find or_Controller (km_OwnerReferences cm) = Some r \<and> or_UID r = om_UID o'))
     \<and> (\<forall>o' cm cm'. oio_SetControllerReference io o' cm = Inr cm' \<longrightarrow>
        oio_IsControlledBy io cm' o' \<and> (\<exists>refs. cm' = cm\<lparr>km_OwnerReferences := refs\<rparr>))"

section \<open>Names\<close>

definition ConfigMapPrefix :: string where "ConfigMapPrefix = ''ocudu-ntn-''"
definition configDataKey :: string where "configDataKey = ''geo_ntn.yml''"
definition maxK8sNameLen :: nat where "maxK8sNameLen = 253"
definition configMapNameHashBytes :: nat where "configMapNameHashBytes = 16"
definition koffsetAnnotation :: string where "koffsetAnnotation = ''ntn.operators.dev/koffset''"

definition ConfigMapNameFor :: "string \<Rightarrow> string" where
  "ConfigMapNameFor crName =
     (let name = ConfigMapPrefix @ crName in
      if length name > maxK8sNameLen
      then (let suffix = EncodeToString (take configMapNameHashBytes (Sum256 name));
                truncLen = maxK8sNameLen - 1 - length suffix
            in TrimRight (take truncLen name) ''-.'' @ ''-'' @ suffix)
      else name)"

section \<open>Ownership\<close>

definition managedByLabel :: string where "managedByLabel = ''app.kubernetes.io/managed-by''"
definition managedByValue :: string where "managedByValue = ''ntn-operators''"
definition componentLabel :: string where "componentLabel = ''app.kubernetes.io/component''"
definition componentValue :: string where "componentValue = ''ocudu-ntn-config''"

text \<open>Indexing a map that lacks the key gives the empty string.\<close>

definition key_or_empty :: "(string \<rightharpoonup> string) \<Rightarrow> string \<Rightarrow> string" where
  "key_or_empty m k = (case m k of Some v \<Rightarrow> v | None \<Rightarrow> '''')"

definition isOperatorManaged :: "CellConfigMap \<Rightarrow> bool" where
  "isOperatorManaged cm \<longleftrightarrow> key_or_empty (om_Labels (km_Meta cm)) managedByLabel = managedByValue
     \<and> key_or_empty (om_Labels (km_Meta cm)) componentLabel = componentValue"

definition isAdoptableLeftover :: "CellConfigMap \<Rightarrow> bool" where
  "isAdoptableLeftover cm \<longleftrightarrow> km_OwnerReferences cm = [] \<and> isOperatorManaged cm
     \<and> key_or_empty (km_Data cm) configDataKey \<noteq> ''''"

definition cm_key :: "string \<Rightarrow> string \<Rightarrow> NamespacedName" where
  "cm_key ns crName = \<lparr>nn_Namespace = ns, nn_Name = ConfigMapNameFor crName\<rparr>"

definition notOwned :: "string \<Rightarrow> string \<Rightarrow> gerror" where
  "notOwned ns crName = Wrapf (err_msg ErrConfigMapNotOwned @ [Lit '': '', Lit ns, Lit ''/'', Lit (ConfigMapNameFor crName)])
     [ErrConfigMapNotOwned]"

section \<open>Cleanup\<close>

definition Cleanup :: "ocudu_io \<Rightarrow> NTNCellConfig \<Rightarrow> gerror option \<times> cm_effect list" where
  "Cleanup io owner =
     (case oio_cleanup_get io (cm_key (om_Namespace (cc_Meta owner)) (om_Name (cc_Meta owner))) of
        NotFound \<Rightarrow> (None, [])
      | GetError e \<Rightarrow> (Some e, [])
      | Found cm \<Rightarrow>
          if oio_IsControlledBy io cm (cc_Meta owner) \<or> isAdoptableLeftover cm
          then (let uid = om_UID (km_Meta cm) in
                (case oio_Delete io cm uid of CmDeleteFailed e \<Rightarrow> Some e | _ \<Rightarrow> None, [DeleteConfigMap cm uid]))
          else (None, []))"

section \<open>Applying the configuration\<close>

definition new_cell_cm :: "string \<Rightarrow> string \<Rightarrow> string \<Rightarrow> int \<Rightarrow> CellConfigMap" where
  "new_cell_cm ns crName yaml koffset =
     \<lparr>km_Meta = \<lparr>om_Name = ConfigMapNameFor crName, om_Namespace = ns, om_UID = '''', om_Generation = 0,
        om_DeletionTimestamp = None, om_Finalizers = [], om_Annotations = [koffsetAnnotation \<mapsto> Itoa koffset],
        om_Labels = [managedByLabel \<mapsto> managedByValue, componentLabel \<mapsto> componentValue]\<rparr>,
      km_OwnerReferences = [], km_Data = [configDataKey \<mapsto> yaml]\<rparr>"

definition stamp_cm :: "CellConfigMap \<Rightarrow> string \<Rightarrow> string \<Rightarrow> CellConfigMap" where
  "stamp_cm cm desiredData desiredKoffset =
     cm\<lparr>km_Data := (km_Data cm)(configDataKey \<mapsto> desiredData),
        km_Meta := (km_Meta cm)\<lparr>
          om_Labels := (om_Labels (km_Meta cm))(managedByLabel \<mapsto> managedByValue, componentLabel \<mapsto> componentValue),
          om_Annotations := (om_Annotations (km_Meta cm))(koffsetAnnotation \<mapsto> desiredKoffset)\<rparr>\<rparr>"

text \<open>The path of an existing ConfigMap.\<close>

definition apply_existing :: "ocudu_io \<Rightarrow> NTNCellConfig \<Rightarrow> NTNCellConfigSpec \<Rightarrow> string \<Rightarrow> CellConfigMap
    \<Rightarrow> gerror option \<times> cm_effect list" where
  "apply_existing io owner spec yaml cm =
     (let alreadyOwned = oio_IsControlledBy io cm (cc_Meta owner);
          desiredKoffset = Itoa (CellSpecificKoffset (NTN spec));
          adopted = (if alreadyOwned then Inr cm
                     else if \<not> isAdoptableLeftover cm then Inl (notOwned (prov_Namespace (cs_Provider spec)) (om_Name (cc_Meta owner)))
                     else (case oio_SetControllerReference io (cc_Meta owner) cm of
                             Inl e \<Rightarrow> Inl (Wrapf (Lit ''adopting ConfigMap: '' # err_msg e) [e])
                           | Inr cm' \<Rightarrow> Inr cm'))
      in case adopted of
           Inl e \<Rightarrow> (Some e, [])
         | Inr cm1 \<Rightarrow>
             if alreadyOwned \<and> isOperatorManaged cm1 \<and> key_or_empty (km_Data cm1) configDataKey = yaml
                \<and> key_or_empty (om_Annotations (km_Meta cm1)) koffsetAnnotation = desiredKoffset
             then (None, [])
             else (let cm2 = stamp_cm cm1 yaml desiredKoffset in
                   (case oio_Update io cm2 of
                      Some e \<Rightarrow> Some (Wrapf (Lit ''updating ConfigMap: '' # err_msg e) [e])
                    | None \<Rightarrow> None, [UpdateConfigMap cm2])))"

text \<open>The error that \<open>Get\<close> returns for an object that is gone.\<close>

definition not_found :: gerror where
  "not_found = Errorf [Lit ''not found'']"

definition ApplyCellConfig :: "ocudu_io \<Rightarrow> NTNCellConfig \<Rightarrow> NTNCellConfigSpec option \<Rightarrow> gerror option \<times> cm_effect list" where
  "ApplyCellConfig io owner spec_opt =
     (case spec_opt of
        None \<Rightarrow> (Some (Errorf [Lit ''spec must not be nil'']), [])
      | Some spec \<Rightarrow>
          (let namespace = prov_Namespace (cs_Provider spec); crName = om_Name (cc_Meta owner); key = cm_key namespace crName in
           if namespace = '''' then (Some (Errorf [Lit ''provider namespace must be set'']), [])
           else if om_Namespace (cc_Meta owner) \<noteq> namespace
           then (Some (Errorf [Lit ''owner namespace '', Quoted (om_Namespace (cc_Meta owner)),
                  Lit '' must equal provider namespace '', Quoted namespace]), [])
           else case GenerateConfig (oio_IsPrint io) (Some spec) of
             Inl e \<Rightarrow> (Some (Wrapf (Lit ''generating OCUDU config: '' # err_msg e) [e]), [])
           | Inr yaml \<Rightarrow>
               (case oio_apply_get io key of
                  GetError e \<Rightarrow> (Some (Wrapf (Lit ''getting ConfigMap: '' # err_msg e) [e]), [])
                | Found cm \<Rightarrow> apply_existing io owner spec yaml cm
                | NotFound \<Rightarrow>
                    (case oio_SetControllerReference io (cc_Meta owner)
                            (new_cell_cm namespace crName yaml (CellSpecificKoffset (NTN spec))) of
                       Inl e \<Rightarrow> (Some (Wrapf (Lit ''setting controller reference: '' # err_msg e) [e]), [])
                     | Inr cm \<Rightarrow>
                         (case oio_Create io cm of
                            CmCreated \<Rightarrow> (None, [CreateConfigMap cm])
                          | CmCreateFailed e \<Rightarrow> (Some (Wrapf (Lit ''creating ConfigMap: '' # err_msg e) [e]), [CreateConfigMap cm])
                          | CmAlreadyExists \<Rightarrow>
                              (case oio_reread_get io key of
                                 Found cm' \<Rightarrow> (let (e, w) = apply_existing io owner spec yaml cm' in (e, CreateConfigMap cm # w))
                               | NotFound \<Rightarrow> (Some (Wrapf (Lit ''re-reading ConfigMap after losing the create race: ''
                                   # err_msg not_found) [not_found]), [CreateConfigMap cm])
                               | GetError e \<Rightarrow> (Some (Wrapf (Lit ''re-reading ConfigMap after losing the create race: ''
                                   # err_msg e) [e]), [CreateConfigMap cm])))))))"

section \<open>Reading the status back\<close>

text \<open>\<open>strconv.Atoi\<close>.\<close>

definition Atoi :: "string \<Rightarrow> int option" where
  "Atoi s =
     (let (neg, ds) = scan_sign s; v = int (dec_value ds); n = (if neg then - v else v) in
      if ds = [] \<or> \<not> list_all is_digit ds \<or> \<not> is_int64 n then None else Some n)"

definition zero_status :: NTNCellConfigStatus where
  "zero_status = \<lparr>AppliedKoffset = 0, ConfigMapRef = '''', LastPushedSatSwitchDigest = '''', cc_Conditions = []\<rparr>"

definition GetCellStatus :: "ocudu_io \<Rightarrow> NTNCellConfig \<Rightarrow> NTNCellConfigStatus result" where
  "GetCellStatus io owner =
     (let crName = om_Name (cc_Meta owner); namespace = om_Namespace (cc_Meta owner) in
      if namespace = '''' then Inl (Errorf [Lit ''namespace must not be empty''])
      else case oio_status_get io (cm_key namespace crName) of
        NotFound \<Rightarrow> Inr zero_status
      | GetError e \<Rightarrow> Inl (Wrapf ([Lit ''reading ConfigMap '', Lit namespace, Lit ''/'', Lit (ConfigMapNameFor crName), Lit '': '']
            @ err_msg e) [e])
      | Found cm \<Rightarrow>
          if \<not> oio_IsControlledBy io cm (cc_Meta owner) then Inl (notOwned namespace crName)
          else if km_Data cm configDataKey = None
          then Inl (Errorf [Lit ''ConfigMap '', Lit namespace, Lit ''/'', Lit (ConfigMapNameFor crName), Lit '' missing '',
                 Lit configDataKey, Lit '' key''])
          else Inr (zero_status\<lparr>ConfigMapRef := om_Name (km_Meta cm),
                 AppliedKoffset := (case om_Annotations (km_Meta cm) koffsetAnnotation of
                    Some s \<Rightarrow> (case Atoi s of Some v \<Rightarrow> v | None \<Rightarrow> 0) | None \<Rightarrow> 0)\<rparr>))"

section \<open>Rewriting the ephemeris in place\<close>

definition leadingSpaces :: "string \<Rightarrow> nat" where
  "leadingSpaces s = length s - length (dropWhile (\<lambda>c. c = CHR '' '') s)"

text \<open>An update with neither field is refused before it gets here (the source would dereference nil).\<close>

definition renderEphemerisBlock :: "EphemerisUpdate \<Rightarrow> nat \<Rightarrow> string list" where
  "renderEphemerisBlock update indent =
     (let pad = replicate indent (CHR '' ''); child = replicate (indent + 2) (CHR '' '') in
      case upd_Orbital update of
        Some orb \<Rightarrow>
          [pad @ ''ephemeris_orbital:'',
           child @ ''semi_major_axis: '' @ Itoa (orb_SemiMajorAxis orb),
           child @ ''eccentricity: '' @ flt (scaled (orb_Eccentricity orb) eccentricityScale),
           child @ ''inclination: '' @ flt (scaled (orb_Inclination orb) milliDegToRad),
           child @ ''longitude: '' @ flt (scaled (orb_RightAscension orb) milliDegToRad),
           child @ ''periapsis: '' @ flt (scaled (orb_ArgOfPeriapsis orb) milliDegToRad),
           child @ ''mean_anomaly: '' @ flt (scaled (orb_MeanAnomaly orb) milliDegToRad)]
      | None \<Rightarrow>
          (case upd_ECEF update of
             Some e \<Rightarrow>
               [pad @ ''ephemeris_info_ecef:'',
                child @ ''pos_x: '' @ flt (scaled (PosX e) ECEFPositionStep),
                child @ ''pos_y: '' @ flt (scaled (PosY e) ECEFPositionStep),
                child @ ''pos_z: '' @ flt (scaled (PosZ e) ECEFPositionStep),
                child @ ''vel_x: '' @ flt (scaled (VelX e) ECEFVelocityStep),
                child @ ''vel_y: '' @ flt (scaled (VelY e) ECEFVelocityStep),
                child @ ''vel_z: '' @ flt (scaled (VelZ e) ECEFVelocityStep)]
           | None \<Rightarrow> []))"

definition is_ephemeris_key :: "string \<Rightarrow> bool" where
  "is_ephemeris_key line \<longleftrightarrow> prefix ''ephemeris_info_ecef:'' (TrimSpace line) \<or> prefix ''ephemeris_orbital:'' (TrimSpace line)"

text \<open>A line that belongs to the block whose key is indented by \<open>indent\<close>.\<close>

definition in_block :: "nat \<Rightarrow> string \<Rightarrow> bool" where
  "in_block indent next_line \<longleftrightarrow> TrimSpace next_line = '''' \<or> leadingSpaces next_line > indent"

function replace_lines :: "EphemerisUpdate \<Rightarrow> bool \<Rightarrow> string list \<Rightarrow> string list \<times> bool" where
  "replace_lines update found [] = ([], found)"
| "replace_lines update found (line # lines) =
     (if \<not> found \<and> is_ephemeris_key line
      then (let indent = leadingSpaces line;
                (rest, f) = replace_lines update True (dropWhile (in_block indent) lines)
            in (renderEphemerisBlock update indent @ rest, f))
      else (let (rest, f) = replace_lines update found lines in (line # rest, f)))"
  by pat_completeness auto
termination
  by (relation "measure (\<lambda>(_, _, ls). length ls)") (simp_all add: le_imp_less_Suc length_dropWhile_le)

definition replaceEphemeris :: "string \<Rightarrow> EphemerisUpdate \<Rightarrow> string \<times> bool" where
  "replaceEphemeris content update =
     (let (result, found) = replace_lines update False (Split lf content) in (Join result [lf], found))"

definition PushEphemerisUpdate :: "ocudu_io \<Rightarrow> NTNCellConfig \<Rightarrow> EphemerisUpdate \<Rightarrow> gerror option \<times> cm_effect list" where
  "PushEphemerisUpdate io owner update =
     (let crName = om_Name (cc_Meta owner); namespace = om_Namespace (cc_Meta owner);
          place = [Lit namespace, Lit ''/'', Lit (ConfigMapNameFor crName)] in
      if namespace = '''' then (Some (Errorf [Lit ''owner namespace must not be empty'']), [])
      else if upd_ECEF update = None \<and> upd_Orbital update = None
      then (Some (Errorf [Lit ''either ECEF or Orbital must be set'']), [])
      else if upd_ECEF update \<noteq> None \<and> upd_Orbital update \<noteq> None
      then (Some (Errorf [Lit ''ECEF and Orbital are mutually exclusive'']), [])
      else case oio_push_get io (cm_key namespace crName) of
        NotFound \<Rightarrow> (Some (Wrapf (Lit ''reading ConfigMap '' # place @ Lit '': '' # err_msg not_found) [not_found]), [])
      | GetError e \<Rightarrow> (Some (Wrapf (Lit ''reading ConfigMap '' # place @ Lit '': '' # err_msg e) [e]), [])
      | Found cm \<Rightarrow>
          if \<not> oio_IsControlledBy io cm (cc_Meta owner) then (Some (notOwned namespace crName), [])
          else case km_Data cm configDataKey of
            None \<Rightarrow> (Some (Errorf (Lit ''ConfigMap '' # place @ [Lit '' missing '', Lit configDataKey])), [])
          | Some yamlContent \<Rightarrow>
              (let (updated, replaced) = replaceEphemeris yamlContent update in
               if \<not> replaced then (Some (Errorf (Lit ''ConfigMap '' # place @ [Lit '' has no ephemeris block to replace''])), [])
               else if updated = yamlContent then (None, [])
               else (let cm1 = cm\<lparr>km_Data := (km_Data cm)(configDataKey \<mapsto> updated)\<rparr> in
                     (case oio_push_Update io cm1 of
                        Some e \<Rightarrow> Some (Wrapf (Lit ''updating ConfigMap: '' # err_msg e) [e])
                      | None \<Rightarrow> None, [UpdateConfigMap cm1]))))"

section \<open>The rewrite equals a regeneration\<close>

definition with_ephemeris :: "EphemerisUpdate \<Rightarrow> NTNCellConfigSpec \<Rightarrow> NTNCellConfigSpec" where
  "with_ephemeris u spec = spec\<lparr>NTN := (NTN spec)\<lparr>np_EphemerisECEF := upd_ECEF u, np_EphemerisOrbital := upd_Orbital u\<rparr>\<rparr>"

definition one_kind :: "EphemerisUpdate \<Rightarrow> bool" where
  "one_kind u \<longleftrightarrow> (upd_ECEF u = None) \<noteq> (upd_Orbital u = None)"

lemma NTN_with_ephemeris [simp]:
  "np_TACommon (NTN (with_ephemeris u spec)) = np_TACommon (NTN spec)"
  "CellSpecificKoffset (NTN (with_ephemeris u spec)) = CellSpecificKoffset (NTN spec)"
  "PayloadType (NTN (with_ephemeris u spec)) = PayloadType (NTN spec)"
  "np_TAInfo (NTN (with_ephemeris u spec)) = np_TAInfo (NTN spec)"
  "np_EpochTime (NTN (with_ephemeris u spec)) = np_EpochTime (NTN spec)"
  "np_FeederLinkInfo (NTN (with_ephemeris u spec)) = np_FeederLinkInfo (NTN spec)"
  "np_NTNGatewayLocation (NTN (with_ephemeris u spec)) = np_NTNGatewayLocation (NTN spec)"
  "np_MovingRefLocation (NTN (with_ephemeris u spec)) = np_MovingRefLocation (NTN spec)"
  "np_Polarization (NTN (with_ephemeris u spec)) = np_Polarization (NTN spec)"
  "np_TAReport (NTN (with_ephemeris u spec)) = np_TAReport (NTN spec)"
  "np_NTNUlSyncValidityDur (NTN (with_ephemeris u spec)) = np_NTNUlSyncValidityDur (NTN spec)"
  "NeighborCells (NTN (with_ephemeris u spec)) = NeighborCells (NTN spec)"
  "np_ReferenceLocation (NTN (with_ephemeris u spec)) = np_ReferenceLocation (NTN spec)"
  "DistanceThreshold (NTN (with_ephemeris u spec)) = DistanceThreshold (NTN spec)"
  "np_EphemerisECEF (NTN (with_ephemeris u spec)) = upd_ECEF u"
  "np_EphemerisOrbital (NTN (with_ephemeris u spec)) = upd_Orbital u"
  "cs_CellOverrides (with_ephemeris u spec) = cs_CellOverrides spec"
  by (simp_all add: with_ephemeris_def)

lemma spec_with_ephemeris: "specConfigData (with_ephemeris u spec) = specConfigData spec"
proof -
  have "baseConfigData (with_ephemeris u spec) = baseConfigData spec"
    by (simp only: baseConfigData_def Let_def NTN_with_ephemeris)
  moreover have "applyTAInfo (with_ephemeris u spec) d = applyTAInfo spec d" for d
    by (simp only: applyTAInfo_def Let_def NTN_with_ephemeris)
  moreover have "applyOptionalNTNFields (with_ephemeris u spec) d = applyOptionalNTNFields spec d" for d
    by (simp only: applyOptionalNTNFields_def Let_def NTN_with_ephemeris)
  moreover have "applyStage3Fields (with_ephemeris u spec) d = applyStage3Fields spec d" for d
    by (simp only: applyStage3Fields_def Let_def NTN_with_ephemeris)
  moreover have "applyCellOverrides (with_ephemeris u spec) d = applyCellOverrides spec d" for d
    by (simp only: applyCellOverrides_def Let_def NTN_with_ephemeris)
  ultimately show ?thesis by (simp only: specConfigData_def)
qed

text \<open>Neither the ephemeris fields of the data nor the choice between them is touched before the last step.\<close>

lemma with_opt_keeps: "(\<And>v d. g (f v d) = g d) \<Longrightarrow> g (with_opt x f d) = g d"
  by (simp add: with_opt_def split: option.splits)

lemma use_orbital_False: "cd_UseOrbital (specConfigData spec) = False"
proof -
  have b: "cd_UseOrbital (baseConfigData spec) = False" by (simp add: baseConfigData_def zero_configData_def Let_def)
  have t: "cd_UseOrbital (applyTAInfo spec d) = cd_UseOrbital d" for d
    by (simp add: applyTAInfo_def Let_def split: option.splits)
  have o: "cd_UseOrbital (applyOptionalNTNFields spec d) = cd_UseOrbital d" for d
    by (simp add: applyOptionalNTNFields_def Let_def with_opt_keeps)
  have s: "cd_UseOrbital (applyStage3Fields spec d) = cd_UseOrbital d" for d
    by (simp add: applyStage3Fields_def Let_def with_opt_keeps)
  have c: "cd_UseOrbital (applyCellOverrides spec d) = cd_UseOrbital d" for d
    by (cases "cs_CellOverrides spec") (simp_all add: applyCellOverrides_def Let_def with_opt_keeps)
  show ?thesis by (simp add: specConfigData_def b t o s c)
qed

lemma four: "replicate 4 (CHR '' '') = ''    ''" "replicate 6 (CHR '' '') = ''      ''"
  by code_simp+

lemma ephemeris_applied:
  assumes "applyEphemeris spec (specConfigData spec) = Inr d"
    "u = \<lparr>upd_ECEF = np_EphemerisECEF (NTN spec), upd_Orbital = np_EphemerisOrbital (NTN spec)\<rparr>"
  shows "ephemeris_lines d = renderEphemerisBlock u 4"
    "header_lines d = header_lines (specConfigData spec)"
    "optional_lines P d = optional_lines P (specConfigData spec)"
    "sib_lines d = sib_lines (specConfigData spec)"
  using assms use_orbital_False [of spec]
  by (auto simp: applyEphemeris_def ephemeris_lines_def renderEphemerisBlock_def four header_lines_def
      optional_lines_def sib_lines_def Let_def split: option.splits)

text \<open>Trimming a line that starts with a graphic character after its indentation.\<close>

lemma strip_suffix: "suffix (strip_runes rs s) s"
proof (induction rs s rule: strip_runes.induct)
  case (1 rs s)
  then show ?case
    by (subst strip_runes.simps) (auto split: option.splits intro: suffix_order.trans suffix_drop)
qed

lemma strip_keeps: "\<forall>r\<in>set rs. c \<notin> set r \<Longrightarrow> c \<in> set s \<Longrightarrow> c \<in> set (strip_runes rs s)"
proof (induction rs s rule: strip_runes.induct)
  case (1 rs s)
  show ?case
  proof (cases "find (\<lambda>r. r \<noteq> [] \<and> prefix r s) rs")
    case None
    then show ?thesis using 1(3) by (subst strip_runes.simps) simp
  next
    case (Some r)
    then have "r \<in> set rs" "prefix r s" by (auto simp: find_Some_iff)
    then have "c \<in> set (drop (length r) s)" using 1(2,3) by (auto simp: prefix_def)
    then show ?thesis using 1 Some by (subst strip_runes.simps) simp
  qed
qed

lemma graphic_no_space: "graphic c \<Longrightarrow> r \<in> set space_runes \<Longrightarrow> c \<notin> set r"
  by (auto simp: space_runes_def graphic_def Let_def)

abbreviation spaces :: "nat \<Rightarrow> string" where
  "spaces n \<equiv> replicate n (CHR '' '')"

lemma TrimSpace_head:
  assumes "graphic c"
  shows "\<exists>t. TrimSpace (spaces i @ c # s) = c # t"
proof -
  have "strip_runes space_runes (spaces i @ c # s) = c # s" using assms by (simp add: strip_spaces strip_graphic)
  moreover define w where "w = strip_runes (map rev space_runes) (rev (c # s))"
  ultimately have t: "TrimSpace (spaces i @ c # s) = rev w" by (simp add: TrimSpace_def)
  have "suffix w (rev (c # s))" unfolding w_def by (rule strip_suffix)
  then have "prefix (rev w) (c # s)" by (simp add: suffix_to_prefix)
  moreover have "c \<in> set w"
    unfolding w_def by (rule strip_keeps) (use assms graphic_no_space in auto)
  then have "rev w \<noteq> []" by auto
  ultimately show ?thesis using t by (auto simp: prefix_Cons)
qed

abbreviation unindent :: "string \<Rightarrow> string" where
  "unindent l \<equiv> dropWhile (\<lambda>c. c = CHR '' '') l"

lemma unindent_split: "l = spaces (leadingSpaces l) @ unindent l"
proof -
  have "takeWhile (\<lambda>c. c = CHR '' '') l = spaces (length (takeWhile (\<lambda>c. c = CHR '' '') l))"
    by (rule replicate_length_same [symmetric]) (auto dest: set_takeWhileD)
  moreover have "leadingSpaces l = length (takeWhile (\<lambda>c. c = CHR '' '') l)"
    unfolding leadingSpaces_def by (metis add_diff_cancel_right' length_append takeWhile_dropWhile_id)
  ultimately show ?thesis by (metis takeWhile_dropWhile_id)
qed

lemma TrimSpace_line:
  assumes "unindent l = c # s" "graphic c"
  shows "\<exists>t. TrimSpace l = c # t"
  using TrimSpace_head [OF assms(2), of "leadingSpaces l" s] unindent_split [of l] assms(1) by simp

lemma not_key: "unindent l = c # s \<Longrightarrow> graphic c \<Longrightarrow> c \<noteq> CHR ''e'' \<Longrightarrow> \<not> is_ephemeris_key l"
  using TrimSpace_line [of l c s] by (auto simp: is_ephemeris_key_def)

lemma in_block_line: "unindent l = c # s \<Longrightarrow> graphic c \<Longrightarrow> in_block k l \<longleftrightarrow> k < leadingSpaces l"
  using TrimSpace_line [of l c s] by (auto simp: in_block_def)

lemma empty_not_key: "\<not> is_ephemeris_key ''''"
  by (simp add: is_ephemeris_key_def TrimSpace_def)

lemma replace_lines_found: "replace_lines u True ls = (ls, True)"
  by (induction ls) auto

lemma replace_lines_skip:
  "\<forall>l\<in>set hs. \<not> is_ephemeris_key l \<Longrightarrow>
     replace_lines u False (hs @ ls) = (hs @ fst (replace_lines u False ls), snd (replace_lines u False ls))"
  by (induction hs) (auto simp: split_beta)

text \<open>The document: no line of the header is an ephemeris key, every line of a block but its key is deeper
  than the key, and the line after the block is not.\<close>

definition plain :: "string \<Rightarrow> bool" where
  "plain l = (case unindent l of c # _ \<Rightarrow> graphic c \<and> c \<noteq> CHR ''e'' | [] \<Rightarrow> l = [])"

definition deep :: "string \<Rightarrow> bool" where
  "deep l = (case unindent l of c # _ \<Rightarrow> graphic c \<and> 4 < leadingSpaces l | [] \<Rightarrow> False)"

definition shallow :: "string \<Rightarrow> bool" where
  "shallow l = (case unindent l of c # _ \<Rightarrow> graphic c \<and> leadingSpaces l \<le> 4 \<and> lf \<notin> set l | [] \<Rightarrow> False)"

lemma plain_not_key: "plain l \<Longrightarrow> \<not> is_ephemeris_key l"
  using not_key [of l] empty_not_key by (auto simp: plain_def split: list.splits)

lemma deep_in_block: "deep l \<Longrightarrow> in_block 4 l"
  using in_block_line [of l] by (auto simp: deep_def split: list.splits)

lemma shallow_not_in_block: "shallow l \<Longrightarrow> \<not> in_block 4 l"
  using in_block_line [of l] by (auto simp: shallow_def split: list.splits)

lemma header_plain: "list_all plain (header_lines d)"
  by (simp add: header_lines_def if_lines_def plain_def graphic_def)

lemma block_shape:
  assumes "one_kind u"
  shows "\<exists>k body. renderEphemerisBlock u 4 = k # body \<and> is_ephemeris_key k \<and> leadingSpaces k = 4
     \<and> list_all deep body \<and> (\<forall>l\<in>set (k # body). lf \<notin> set l)"
proof -
  have k: "is_ephemeris_key ''    ephemeris_orbital:''" "is_ephemeris_key ''    ephemeris_info_ecef:''"
    by code_simp+
  show ?thesis using assms k
    by (auto simp: one_kind_def renderEphemerisBlock_def four flt_lf Itoa_lf leadingSpaces_def graphic_def deep_def Let_def
        split: option.splits)
qed

definition starts_shallow :: "string list \<Rightarrow> bool" where
  "starts_shallow ls = (case ls of l # _ \<Rightarrow> shallow l | [] \<Rightarrow> False)"

lemma starts_if: "starts_shallow ms \<Longrightarrow> starts_shallow ls \<Longrightarrow> starts_shallow (if_lines b ls @ ms)"
  by (cases ls) (auto simp: starts_shallow_def if_lines_def)

lemma after_block: "starts_shallow (optional_lines P d @ sib_lines d)"
proof -
  have sib: "starts_shallow (sib_lines d)"
    by (simp add: sib_lines_def starts_shallow_def shallow_def leadingSpaces_def graphic_def)
  show ?thesis unfolding optional_lines_def append.assoc
    by (intro starts_if sib)
       (auto simp: starts_shallow_def shallow_def leadingSpaces_def graphic_def Itoa_lf bool_str_def)
qed

lemma header_lf:
  assumes "lf \<notin> set (cd_PayloadType d)"
  shows "\<forall>l\<in>set (header_lines d). lf \<notin> set l"
  using assms by (auto simp: header_lines_def if_lines_def flt_lf Itoa_lf)

lemma Split_lines: "ls \<noteq> [] \<Longrightarrow> \<forall>l\<in>set ls. lf \<notin> set l \<Longrightarrow> Split lf (Join ls [lf]) = ls"
proof -
  assume a: "ls \<noteq> []" "\<forall>l\<in>set ls. lf \<notin> set l"
  then have "map (Split lf) ls = map (\<lambda>l. [l]) ls" by (simp add: Split_free)
  then have "concat (map (Split lf) ls) = ls" by (simp only: concat_map_singleton map_ident)
  then show ?thesis by (simp only: Split_Join [OF a(1)])
qed

lemma replace_document:
  assumes h: "h \<noteq> []" "list_all plain h" "\<forall>l\<in>set h. lf \<notin> set l" and u: "one_kind u" "one_kind u0"
    and r: "starts_shallow rest"
  shows "replaceEphemeris (Join (h @ renderEphemerisBlock u0 4 @ rest) [lf]) u
     = (Join (h @ renderEphemerisBlock u 4 @ rest) [lf], True)"
proof -
  obtain k body where b: "renderEphemerisBlock u0 4 = k # body" "is_ephemeris_key k" "leadingSpaces k = 4"
    "list_all deep body" "\<forall>l\<in>set (k # body). lf \<notin> set l" using block_shape [OF u(2)] by blast
  have ne: "rest \<noteq> []" "renderEphemerisBlock u 4 \<noteq> []"
    using r block_shape [OF u(1)] by (auto simp: starts_shallow_def)
  obtain l ls where l: "rest = l # ls" "shallow l" using r by (cases rest) (auto simp: starts_shallow_def)
  have lfree: "lf \<notin> set l" using l(2) by (auto simp: shallow_def split: list.splits)
  obtain more where m: "Split lf (Join rest [lf]) = l # more"
    using l lfree Split_Join [of rest lf] ne by (simp add: Split_free)
  have s1: "Split lf (Join (h @ k # body) [lf]) = h @ k # body"
    by (rule Split_lines) (use h(3) b(5) in auto)
  have split: "Split lf (Join (h @ (k # body) @ rest) [lf]) = (h @ k # body) @ l # more"
    using Join_append [of "h @ k # body" rest "[lf]"] ne s1 m Split_append [of lf "Join (h @ k # body) [lf]" "Join rest [lf]"]
    by simp
  have drop: "dropWhile (in_block 4) (body @ l # more) = l # more"
    using b(4) deep_in_block shallow_not_in_block [OF l(2)] by (simp add: dropWhile_append3 list_all_iff)
  have "replace_lines u False ((h @ k # body) @ l # more) = (h @ renderEphemerisBlock u 4 @ l # more, True)"
    using replace_lines_skip [of h u "k # body @ l # more"] h(2) plain_not_key b(2,3) drop
    by (simp add: list_all_iff replace_lines_found)
  moreover have "Join (h @ renderEphemerisBlock u 4 @ l # more) [lf] = Join (h @ renderEphemerisBlock u 4 @ rest) [lf]"
    using Join_append [of "h @ renderEphemerisBlock u 4" "l # more" "[lf]"]
      Join_append [of "h @ renderEphemerisBlock u 4" rest "[lf]"] Join_Split [of lf "Join rest [lf]"] m ne by simp
  ultimately show ?thesis unfolding replaceEphemeris_def b(1) split by simp
qed

definition spec_update :: "NTNCellConfigSpec \<Rightarrow> EphemerisUpdate" where
  "spec_update spec = \<lparr>upd_ECEF = np_EphemerisECEF (NTN spec), upd_Orbital = np_EphemerisOrbital (NTN spec)\<rparr>"

lemma GenerateConfig_lines:
  assumes "one_kind (spec_update spec)"
  shows "GenerateConfig P (Some spec) = Inr (Join (header_lines (specConfigData spec)
     @ renderEphemerisBlock (spec_update spec) 4 @ optional_lines P (specConfigData spec) @ sib_lines (specConfigData spec)) [lf])"
proof -
  obtain d where d: "applyEphemeris spec (specConfigData spec) = Inr d"
    using assms by (cases "applyEphemeris spec (specConfigData spec)")
      (auto simp: applyEphemeris_def one_kind_def spec_update_def split: option.splits)
  from ephemeris_applied [OF d spec_update_def] d show ?thesis
    by (simp add: GenerateConfig_def configTemplate_def)
qed

lemma GenerateConfig_ok_iff: "(\<exists>y. GenerateConfig P (Some spec) = Inr y) \<longleftrightarrow> one_kind (spec_update spec)"
  by (auto simp: GenerateConfig_lines)
     (auto simp: GenerateConfig_def applyEphemeris_def one_kind_def spec_update_def split: option.splits)

lemma spec_update_with: "spec_update (with_ephemeris u spec) = u"
  by (simp add: spec_update_def)

lemma replace_regenerates:
  assumes "GenerateConfig P (Some spec) = Inr y" "one_kind u"
  shows "\<exists>y'. GenerateConfig P (Some (with_ephemeris u spec)) = Inr y' \<and> replaceEphemeris y u = (y', True)"
proof -
  let ?d = "specConfigData spec"
  have o: "one_kind (spec_update spec)" using assms(1) GenerateConfig_ok_iff by blast
  have h: "header_lines ?d \<noteq> []" using header_length [of ?d] by auto
  have "replaceEphemeris y u = (Join (header_lines ?d @ renderEphemerisBlock u 4 @ optional_lines P ?d @ sib_lines ?d) [lf], True)"
    using assms(1) replace_document [OF h header_plain header_lf [OF spec_payload_clean] assms(2) o after_block, of P ?d]
    by (simp add: GenerateConfig_lines [OF o])
  then show ?thesis
    using GenerateConfig_lines [of "with_ephemeris u spec" P] assms(2)
    by (simp add: spec_update_with spec_with_ephemeris)
qed

text \<open>C19: Rewriting the ephemeris block of a generated document in place gives exactly the document that would be
  generated for the new ephemeris: no other line is lost, moved or changed, whichever of the two forms the old
  and the new block have. In particular the update that is already in the spec rewrites nothing.\<close>

theorem rewrite_is_regenerate:
  assumes "GenerateConfig P (Some spec) = Inr y" "one_kind u"
  shows "\<exists>y'. GenerateConfig P (Some (with_ephemeris u spec)) = Inr y' \<and> replaceEphemeris y u = (y', True)
     \<and> replaceEphemeris y (spec_update spec) = (y, True)"
proof -
  have "one_kind (spec_update spec)" using assms(1) GenerateConfig_ok_iff by blast
  moreover have "with_ephemeris (spec_update spec) spec = spec" by (simp add: with_ephemeris_def spec_update_def)
  ultimately show ?thesis
    using replace_regenerates [OF assms] replace_regenerates [OF assms(1), of "spec_update spec"] assms(1) by auto
qed

section \<open>Ownership\<close>

lemma set_ref:
  assumes "owner_api_laws io" "oio_SetControllerReference io o' cm = Inr cm'"
  shows "oio_IsControlledBy io cm' o'" "km_Meta cm' = km_Meta cm" "km_Data cm' = km_Data cm"
proof -
  have a: "oio_IsControlledBy io cm' o' \<and> (\<exists>refs. cm' = cm\<lparr>km_OwnerReferences := refs\<rparr>)"
    using assms by (simp only: owner_api_laws_def) blast
  then show "oio_IsControlledBy io cm' o'" "km_Meta cm' = km_Meta cm" "km_Data cm' = km_Data cm" by auto
qed

lemma controlled_stamp: "owner_api_laws io \<Longrightarrow> oio_IsControlledBy io (stamp_cm cm y k) o' = oio_IsControlledBy io cm o'"
  by (simp add: owner_api_laws_def stamp_cm_def)

lemma controlled_data: "owner_api_laws io \<Longrightarrow> oio_IsControlledBy io (cm\<lparr>km_Data := m\<rparr>) o' = oio_IsControlledBy io cm o'"
  by (simp add: owner_api_laws_def)

lemma stamp_cm_simps [simp]:
  "om_UID (km_Meta (stamp_cm cm y k)) = om_UID (km_Meta cm)"
  "om_Name (km_Meta (stamp_cm cm y k)) = om_Name (km_Meta cm)"
  "km_Data (stamp_cm cm y k) configDataKey = Some y"
  "om_Annotations (km_Meta (stamp_cm cm y k)) koffsetAnnotation = Some k"
  "isOperatorManaged (stamp_cm cm y k)"
  by (simp_all add: stamp_cm_def isOperatorManaged_def key_or_empty_def managedByLabel_def componentLabel_def)

lemma apply_existing_writes:
  assumes "owner_api_laws io" "e \<in> set (snd (apply_existing io owner spec yaml cm))"
  shows "(oio_IsControlledBy io cm (cc_Meta owner) \<or> isAdoptableLeftover cm)
     \<and> (\<exists>cm'. e = UpdateConfigMap cm' \<and> om_UID (km_Meta cm') = om_UID (km_Meta cm) \<and> om_Name (km_Meta cm') = om_Name (km_Meta cm)
        \<and> oio_IsControlledBy io cm' (cc_Meta owner))"
  using assms(2) set_ref [OF assms(1)] controlled_stamp [OF assms(1)]
  by (auto simp: apply_existing_def Let_def split: if_splits sum.splits)

text \<open>Whether a ConfigMap may be written on behalf of a resource: it is controlled by the resource, or it is an
  artifact of an older version that has no owner at all.\<close>

definition ours :: "ocudu_io \<Rightarrow> NTNCellConfig \<Rightarrow> CellConfigMap \<Rightarrow> bool" where
  "ours io owner cm \<longleftrightarrow> oio_IsControlledBy io cm (cc_Meta owner) \<or> isAdoptableLeftover cm"

definition legit :: "ocudu_io \<Rightarrow> NTNCellConfig \<Rightarrow> cm_effect \<Rightarrow> bool" where
  "legit io owner e =
     (let key = cm_key (om_Namespace (cc_Meta owner)) (om_Name (cc_Meta owner)) in
      case e of
        CreateConfigMap cm \<Rightarrow> oio_apply_get io key = NotFound \<and> oio_IsControlledBy io cm (cc_Meta owner)
          \<and> ObjectKeyFromObject (km_Meta cm) = key
      | UpdateConfigMap cm' \<Rightarrow> oio_IsControlledBy io cm' (cc_Meta owner)
          \<and> (\<exists>cm. Found cm \<in> {oio_apply_get io key, oio_reread_get io key, oio_push_get io key} \<and> ours io owner cm
               \<and> om_UID (km_Meta cm') = om_UID (km_Meta cm))
      | DeleteConfigMap cm uid \<Rightarrow> oio_cleanup_get io key = Found cm \<and> ours io owner cm \<and> uid = om_UID (km_Meta cm))"

lemma apply_legit:
  assumes "owner_api_laws io" "e \<in> set (snd (ApplyCellConfig io owner spec))"
  shows "legit io owner e"
proof -
  obtain sp where sp: "spec = Some sp" using assms(2) by (cases spec) (auto simp: ApplyCellConfig_def)
  let ?ns = "prov_Namespace (cs_Provider sp)" and ?key = "cm_key (om_Namespace (cc_Meta owner)) (om_Name (cc_Meta owner))"
  have ns: "om_Namespace (cc_Meta owner) = ?ns" using assms(2) by (auto simp: ApplyCellConfig_def sp Let_def split: if_splits)
  obtain yaml where y: "GenerateConfig (oio_IsPrint io) (Some sp) = Inr yaml"
    using assms(2) by (auto simp: ApplyCellConfig_def sp Let_def split: if_splits sum.splits)
  have ex: "legit io owner e" if "e \<in> set (snd (apply_existing io owner sp yaml cm))"
    "oio_apply_get io ?key = Found cm \<or> oio_reread_get io ?key = Found cm" for cm
    using apply_existing_writes [OF assms(1) that(1)] that(2) by (auto simp: legit_def ours_def Let_def)
  show ?thesis
  proof (cases "oio_apply_get io ?key")
    case (Found cm)
    then show ?thesis using assms(2) y ns ex [of cm] by (auto simp: ApplyCellConfig_def sp Let_def split: if_splits)
  next
    case NotFound
    then obtain cm where c: "oio_SetControllerReference io (cc_Meta owner)
        (new_cell_cm ?ns (om_Name (cc_Meta owner)) yaml (CellSpecificKoffset (NTN sp))) = Inr cm"
      using assms(2) y ns by (auto simp: ApplyCellConfig_def sp Let_def split: if_splits sum.splits)
    have "legit io owner (CreateConfigMap cm)"
      using NotFound set_ref [OF assms(1) c] ns by (simp add: legit_def new_cell_cm_def cm_key_def ObjectKeyFromObject_def)
    then show ?thesis using assms(2) y ns NotFound c ex
      by (auto simp: ApplyCellConfig_def sp Let_def split_beta split: if_splits get.splits cm_create.splits)
  next
    case (GetError er)
    then show ?thesis using assms(2) y ns by (auto simp: ApplyCellConfig_def sp Let_def split: if_splits)
  qed
qed

lemma cleanup_legit: "e \<in> set (snd (Cleanup io owner)) \<Longrightarrow> legit io owner e"
  by (auto simp: Cleanup_def legit_def ours_def Let_def split: get.splits if_splits)

lemma push_legit:
  assumes "owner_api_laws io" "e \<in> set (snd (PushEphemerisUpdate io owner u))"
  shows "legit io owner e"
  using assms(2) controlled_data [OF assms(1)]
  by (auto simp: PushEphemerisUpdate_def legit_def ours_def Let_def split_beta split: get.splits if_splits option.splits)

text \<open>C18: No operation of the provider writes a ConfigMap that is not the resource's. Whatever the API server
  answers, a create follows a read that found nothing and is owned from the start; an update keeps the identity of
  an object that was read and was controlled by the resource (or was an ownerless artifact of this provider), and
  leaves it controlled by the resource; a delete is of such an object and carries its UID as a precondition.\<close>

theorem foreign_configmap_untouched:
  assumes "owner_api_laws io"
    "e \<in> set (snd (ApplyCellConfig io owner spec)) \<union> set (snd (PushEphemerisUpdate io owner u)) \<union> set (snd (Cleanup io owner))"
  shows "legit io owner e"
  using assms apply_legit push_legit cleanup_legit by blast

section \<open>A successful apply is stable\<close>

text \<open>The object the API server holds after an apply: the last one it accepted, else the one that was read.\<close>

definition accepted :: "ocudu_io \<Rightarrow> cm_effect \<Rightarrow> CellConfigMap option" where
  "accepted io e = (case e of
     CreateConfigMap cm \<Rightarrow> if oio_Create io cm = CmCreated then Some cm else None
   | UpdateConfigMap cm \<Rightarrow> if oio_Update io cm = None then Some cm else None
   | DeleteConfigMap cm uid \<Rightarrow> None)"

definition found :: "CellConfigMap get \<Rightarrow> CellConfigMap option" where
  "found g = (case g of Found cm \<Rightarrow> Some cm | _ \<Rightarrow> None)"

definition server_cm :: "ocudu_io \<Rightarrow> NTNCellConfig \<Rightarrow> cm_effect list \<Rightarrow> CellConfigMap option" where
  "server_cm io owner w =
     (let key = cm_key (om_Namespace (cc_Meta owner)) (om_Name (cc_Meta owner)) in
      case rev (List.map_filter (accepted io) w) of
        cm # _ \<Rightarrow> Some cm
      | [] \<Rightarrow> (case found (oio_apply_get io key) of Some cm \<Rightarrow> Some cm | None \<Rightarrow> found (oio_reread_get io key)))"

definition good_cm :: "ocudu_io \<Rightarrow> NTNCellConfig \<Rightarrow> string \<Rightarrow> int \<Rightarrow> CellConfigMap \<Rightarrow> bool" where
  "good_cm io owner yaml koffset cm \<longleftrightarrow> oio_IsControlledBy io cm (cc_Meta owner) \<and> isOperatorManaged cm
     \<and> km_Data cm configDataKey = Some yaml \<and> om_Annotations (km_Meta cm) koffsetAnnotation = Some (Itoa koffset)"

lemma Itoa_not_Nil: "Itoa i \<noteq> ''''"
  using dec_nat_digits by (auto simp: Itoa_def)

lemma GenerateConfig_not_Nil: "GenerateConfig P spec = Inr y \<Longrightarrow> y \<noteq> ''''"
  by (auto simp: GenerateConfig_def configTemplate_def header_lines_def Join_Cons split: option.splits sum.splits)

lemma key_or_empty_iff: "v \<noteq> '''' \<Longrightarrow> key_or_empty m k = v \<longleftrightarrow> m k = Some v"
  by (auto simp: key_or_empty_def split: option.splits)

lemma apply_existing_good:
  assumes "owner_api_laws io" "apply_existing io owner spec yaml cm = (None, w)" "yaml \<noteq> ''''"
  shows "\<exists>cm'. good_cm io owner yaml (CellSpecificKoffset (NTN spec)) cm'
     \<and> (w = [] \<and> cm' = cm \<or> w = [UpdateConfigMap cm'] \<and> oio_Update io cm' = None)"
proof (cases "w = []")
  case True
  then show ?thesis using assms
    by (auto simp: apply_existing_def good_cm_def Let_def key_or_empty_iff Itoa_not_Nil split: if_splits sum.splits)
next
  case False
  then show ?thesis using assms controlled_stamp [OF assms(1)] set_ref [OF assms(1)]
    by (auto simp: apply_existing_def good_cm_def Let_def split: if_splits sum.splits option.splits)
qed

lemma new_cm_good:
  assumes "owner_api_laws io" "oio_SetControllerReference io (cc_Meta owner) (new_cell_cm ns crName yaml k) = Inr cm"
  shows "good_cm io owner yaml k cm"
  using set_ref [OF assms]
  by (simp add: good_cm_def new_cell_cm_def isOperatorManaged_def key_or_empty_def managedByLabel_def componentLabel_def)

lemma apply_good:
  assumes laws: "owner_api_laws io" and app: "ApplyCellConfig io owner (Some spec) = (None, w)"
  shows "\<exists>yaml cm. GenerateConfig (oio_IsPrint io) (Some spec) = Inr yaml \<and> server_cm io owner w = Some cm
     \<and> good_cm io owner yaml (CellSpecificKoffset (NTN spec)) cm
     \<and> prov_Namespace (cs_Provider spec) = om_Namespace (cc_Meta owner) \<and> om_Namespace (cc_Meta owner) \<noteq> ''''"
proof -
  let ?key = "cm_key (om_Namespace (cc_Meta owner)) (om_Name (cc_Meta owner))"
  have ns: "prov_Namespace (cs_Provider spec) = om_Namespace (cc_Meta owner)" "om_Namespace (cc_Meta owner) \<noteq> ''''"
    using app by (auto simp: ApplyCellConfig_def Let_def split: if_splits)
  obtain yaml where y: "GenerateConfig (oio_IsPrint io) (Some spec) = Inr yaml"
    using app ns by (auto simp: ApplyCellConfig_def Let_def split: sum.splits)
  have "\<exists>cm. server_cm io owner w = Some cm \<and> good_cm io owner yaml (CellSpecificKoffset (NTN spec)) cm"
  proof (cases "oio_apply_get io ?key")
    case (Found cm)
    then show ?thesis using app ns y apply_existing_good [OF laws _ GenerateConfig_not_Nil [OF y], of owner spec cm w]
      by (auto simp: ApplyCellConfig_def Let_def server_cm_def accepted_def found_def map_filter_simps)
  next
    case NotFound
    obtain cm where c: "oio_SetControllerReference io (cc_Meta owner)
        (new_cell_cm (om_Namespace (cc_Meta owner)) (om_Name (cc_Meta owner)) yaml (CellSpecificKoffset (NTN spec))) = Inr cm"
      using app ns y NotFound by (auto simp: ApplyCellConfig_def Let_def split: sum.splits)
    show ?thesis
    proof (cases "oio_Create io cm")
      case CmCreated
      then show ?thesis using app ns y NotFound c new_cm_good [OF laws c]
        by (auto simp: ApplyCellConfig_def Let_def server_cm_def accepted_def map_filter_simps)
    next
      case CmAlreadyExists
      obtain cm2 where r: "oio_reread_get io ?key = Found cm2"
        using app ns y NotFound c CmAlreadyExists by (auto simp: ApplyCellConfig_def Let_def split: get.splits)
      obtain w2 where w: "apply_existing io owner spec yaml cm2 = (None, w2)" "w = CreateConfigMap cm # w2"
        using app ns y NotFound c CmAlreadyExists r by (auto simp: ApplyCellConfig_def Let_def split: prod.splits)
      from apply_existing_good [OF laws w(1) GenerateConfig_not_Nil [OF y]] show ?thesis
        using w(2) r NotFound CmAlreadyExists
        by (auto simp: server_cm_def accepted_def found_def map_filter_simps Let_def)
    next
      case (CmCreateFailed er)
      then show ?thesis using app ns y NotFound c by (auto simp: ApplyCellConfig_def Let_def)
    qed
  next
    case (GetError er)
    then show ?thesis using app ns y by (auto simp: ApplyCellConfig_def Let_def)
  qed
  then show ?thesis using y ns by blast
qed

lemma Atoi_Itoa: "is_int64 n \<Longrightarrow> Atoi (Itoa n) = Some n"
proof -
  assume n: "is_int64 n"
  have s: "scan_sign (dec_nat m) = (False, dec_nat m)" for m
  proof -
    obtain c t where "dec_nat m = c # t" "is_digit c" using dec_nat_digits [of m] by (cases "dec_nat m") auto
    then show ?thesis using is_digit_neq by auto
  qed
  show ?thesis using n s dec_nat_digits dec_value_nat by (auto simp: Atoi_def Itoa_def)
qed

text \<open>A later moment at which every read returns the object \<open>cm\<close>.\<close>

definition reads :: "CellConfigMap \<Rightarrow> ocudu_io \<Rightarrow> ocudu_io" where
  "reads cm io = io\<lparr>oio_apply_get := \<lambda>_. Found cm, oio_status_get := \<lambda>_. Found cm, oio_push_get := \<lambda>_. Found cm\<rparr>"

lemma reads_simps [simp]:
  "oio_apply_get (reads cm io) k = Found cm" "oio_status_get (reads cm io) k = Found cm" "oio_push_get (reads cm io) k = Found cm"
  "oio_IsPrint (reads cm io) = oio_IsPrint io" "oio_IsControlledBy (reads cm io) = oio_IsControlledBy io"
  "oio_push_Update (reads cm io) = oio_push_Update io"
  by (simp_all add: reads_def)

lemma good_status:
  assumes "good_cm io owner yaml k cm" "om_Namespace (cc_Meta owner) \<noteq> ''''" "is_int64 k"
  shows "GetCellStatus (reads cm io) owner = Inr (zero_status\<lparr>ConfigMapRef := om_Name (km_Meta cm), AppliedKoffset := k\<rparr>)"
  using assms by (simp add: GetCellStatus_def good_cm_def Atoi_Itoa)

lemma good_reapply:
  assumes "good_cm io owner yaml (CellSpecificKoffset (NTN spec)) cm" "GenerateConfig (oio_IsPrint io) (Some spec) = Inr yaml"
    "prov_Namespace (cs_Provider spec) = om_Namespace (cc_Meta owner)" "om_Namespace (cc_Meta owner) \<noteq> ''''"
  shows "ApplyCellConfig (reads cm io) owner (Some spec) = (None, [])"
  using assms by (simp add: ApplyCellConfig_def apply_existing_def good_cm_def key_or_empty_def)

lemma good_push:
  assumes "good_cm io owner yaml k cm" "GenerateConfig (oio_IsPrint io) (Some spec) = Inr yaml"
    "om_Namespace (cc_Meta owner) \<noteq> ''''" "one_kind u"
  shows "\<exists>y'. GenerateConfig (oio_IsPrint io) (Some (with_ephemeris u spec)) = Inr y'
     \<and> snd (PushEphemerisUpdate (reads cm io) owner u) =
        (if y' = yaml then [] else [UpdateConfigMap (cm\<lparr>km_Data := (km_Data cm)(configDataKey \<mapsto> y')\<rparr>)])"
proof -
  obtain y' where y: "GenerateConfig (oio_IsPrint io) (Some (with_ephemeris u spec)) = Inr y'" "replaceEphemeris yaml u = (y', True)"
    using replace_regenerates [OF assms(2,4)] by blast
  then show ?thesis using assms(1,3,4) by (auto simp: PushEphemerisUpdate_def good_cm_def one_kind_def Let_def)
qed

text \<open>C26: A successful apply is stable and verifiable. When \<open>ApplyCellConfig\<close> returns no error, whatever path it took
  (a create, a lost create race, an update, an adoption or no write at all), the object the API server then holds is
  owned by the resource; the status read back from it is its name and the K-offset of the spec; applying the same
  spec again writes nothing; pushing the spec's own ephemeris writes nothing; and pushing another one writes the
  document that would have been generated for it.\<close>

theorem apply_stable:
  assumes "owner_api_laws io" "ApplyCellConfig io owner (Some spec) = (None, w)"
    "is_int64 (CellSpecificKoffset (NTN spec))" "one_kind u"
  shows "\<exists>cm y'. server_cm io owner w = Some cm \<and> oio_IsControlledBy io cm (cc_Meta owner)
     \<and> GetCellStatus (reads cm io) owner =
         Inr (zero_status\<lparr>ConfigMapRef := om_Name (km_Meta cm), AppliedKoffset := CellSpecificKoffset (NTN spec)\<rparr>)
     \<and> ApplyCellConfig (reads cm io) owner (Some spec) = (None, [])
     \<and> snd (PushEphemerisUpdate (reads cm io) owner (spec_update spec)) = []
     \<and> GenerateConfig (oio_IsPrint io) (Some (with_ephemeris u spec)) = Inr y'
     \<and> snd (PushEphemerisUpdate (reads cm io) owner u) =
         (if km_Data cm configDataKey = Some y' then [] else [UpdateConfigMap (cm\<lparr>km_Data := (km_Data cm)(configDataKey \<mapsto> y')\<rparr>)])"
proof -
  obtain yaml cm where g: "GenerateConfig (oio_IsPrint io) (Some spec) = Inr yaml" "server_cm io owner w = Some cm"
    "good_cm io owner yaml (CellSpecificKoffset (NTN spec)) cm"
    "prov_Namespace (cs_Provider spec) = om_Namespace (cc_Meta owner)" "om_Namespace (cc_Meta owner) \<noteq> ''''"
    using apply_good [OF assms(1,2)] by blast
  have d: "km_Data cm configDataKey = Some yaml" "oio_IsControlledBy io cm (cc_Meta owner)" using g(3) by (auto simp: good_cm_def)
  have o: "one_kind (spec_update spec)" using g(1) GenerateConfig_ok_iff by blast
  have "with_ephemeris (spec_update spec) spec = spec" by (simp add: with_ephemeris_def spec_update_def)
  with good_push [OF g(3,1,5) o] g(1) have p: "snd (PushEphemerisUpdate (reads cm io) owner (spec_update spec)) = []" by auto
  obtain y' where y: "GenerateConfig (oio_IsPrint io) (Some (with_ephemeris u spec)) = Inr y'"
    "snd (PushEphemerisUpdate (reads cm io) owner u) =
       (if y' = yaml then [] else [UpdateConfigMap (cm\<lparr>km_Data := (km_Data cm)(configDataKey \<mapsto> y')\<rparr>)])"
    using good_push [OF g(3,1,5) assms(4)] by blast
  have "(km_Data cm configDataKey = Some y') = (y' = yaml)" using d(1) by auto
  with y(2) show ?thesis
    by (intro exI [of _ cm] exI [of _ y'] conjI g(2) d(2) good_status [OF g(3,5) assms(3)] good_reapply [OF g(3,1,4,5)] p y(1))
       (simp only:)
qed

section \<open>Names\<close>

lemma cm_suffix_length: "length (EncodeToString (take configMapNameHashBytes (Sum256 name))) = 32"
  by (simp add: configMapNameHashBytes_def Sum256_length)

lemma name_length: "length (ConfigMapNameFor n) \<le> maxK8sNameLen"
proof (cases "length (ConfigMapPrefix @ n) > maxK8sNameLen")
  case True
  have "length (TrimRight (take 220 (ConfigMapPrefix @ n)) ''-.'') \<le> 220"
    using TrimRight_length [of "take 220 (ConfigMapPrefix @ n)" "''-.''"] by simp
  with True cm_suffix_length show ?thesis by (simp add: ConfigMapNameFor_def Let_def maxK8sNameLen_def)
qed (simp add: ConfigMapNameFor_def)

lemma name_short: "length n \<le> 243 \<Longrightarrow> ConfigMapNameFor n = ConfigMapPrefix @ n"
  by (simp add: ConfigMapNameFor_def ConfigMapPrefix_def maxK8sNameLen_def)

lemma name_short_inject: "length a \<le> 243 \<Longrightarrow> length b \<le> 243 \<Longrightarrow> ConfigMapNameFor a = ConfigMapNameFor b \<Longrightarrow> a = b"
  by (simp add: name_short)

text \<open>The hashed name of a long resource name is itself the plain name of a shorter resource: the two collide
  without any search for a hash collision.\<close>

lemma long_name_aliased:
  assumes "243 < length n" "n ! 209 \<notin> set ''-.''"
  shows "\<exists>m. length m = 243 \<and> m \<noteq> n \<and> ConfigMapNameFor m = ConfigMapNameFor n"
proof -
  let ?t = "take 220 (ConfigMapPrefix @ n)" and ?s = "EncodeToString (take configMapNameHashBytes (Sum256 (ConfigMapPrefix @ n)))"
  define m where "m = take 210 n @ ''-'' @ ?s"
  have t: "?t = ConfigMapPrefix @ take 210 n" by (simp add: ConfigMapPrefix_def)
  have "take 210 n = take 209 n @ [n ! 209]" using assms(1) by (simp add: take_Suc_conv_app_nth [of 209 n, simplified])
  then have "TrimRight ?t ''-.'' = ?t" unfolding t using assms(2) by (simp add: TrimRight_def)
  then have "ConfigMapNameFor n = ConfigMapPrefix @ m"
    using assms(1) t cm_suffix_length
    by (simp add: ConfigMapNameFor_def Let_def maxK8sNameLen_def m_def ConfigMapPrefix_def)
  moreover have "length m = 243" using assms(1) cm_suffix_length by (simp add: m_def)
  ultimately show ?thesis using assms(1) name_short [of m] by auto
qed

section \<open>Instances\<close>

definition zero_ntn :: NTNParams where
  "zero_ntn = \<lparr>CellSpecificKoffset = 260, np_TACommon = 0, np_EphemerisECEF = None, np_EphemerisOrbital = None, np_TAInfo = None,
     np_EpochTime = None, np_FeederLinkInfo = None, np_NTNGatewayLocation = None, np_MovingRefLocation = None,
     np_SatSwitchWithResync = None, np_Polarization = None, np_TAReport = None, np_NTNUlSyncValidityDur = None,
     PayloadType = '''', NeighborCells = [], np_ReferenceLocation = None, DistanceThreshold = None, TService = None\<rparr>"

definition demo_ecef :: EphemerisECEF where
  "demo_ecef = \<lparr>PosX = 5000000, PosY = -100, PosZ = 0, VelX = 1, VelY = 0, VelZ = 131071\<rparr>"

definition demo_cell_spec :: NTNCellConfigSpec where
  "demo_cell_spec = \<lparr>cs_Provider = \<lparr>prov_Type = ''ocudu'', prov_Namespace = ''ran'', RemoteControl = None, prov_Endpoint = '''',
       SIB19EpochMode = None\<rparr>,
     NTN = zero_ntn\<lparr>np_EphemerisECEF := Some demo_ecef\<rparr>,
     cs_CellOverrides = None, EphemerisRef = '''', cs_CellID = None, EphemerisNoradID = None\<rparr>"

definition demo_cell :: NTNCellConfig where
  "demo_cell = \<lparr>cc_Meta = \<lparr>om_Name = ''cell-1'', om_Namespace = ''ran'', om_UID = ''u1'', om_Generation = 1,
       om_DeletionTimestamp = None, om_Finalizers = [''ntn.operators.dev/configmap-cleanup''], om_Annotations = Map.empty,
       om_Labels = Map.empty\<rparr>,
     cc_Spec = demo_cell_spec, cc_Status = zero_status\<rparr>"

definition ascii_print :: "rune \<Rightarrow> bool" where
  "ascii_print r \<longleftrightarrow> 32 \<le> r \<and> r < 127"

definition list_controlled :: "CellConfigMap \<Rightarrow> ObjectMeta \<Rightarrow> bool" where
  "list_controlled cm o' = (case find or_Controller (km_OwnerReferences cm) of Some r \<Rightarrow> or_UID r = om_UID o' | None \<Rightarrow> False)"

definition list_set_ref :: "ObjectMeta \<Rightarrow> CellConfigMap \<Rightarrow> CellConfigMap result" where
  "list_set_ref o' cm = (case find or_Controller (km_OwnerReferences cm) of
     None \<Rightarrow> Inr (cm\<lparr>km_OwnerReferences := km_OwnerReferences cm @ [\<lparr>or_UID = om_UID o', or_Controller = True\<rparr>]\<rparr>)
   | Some r \<Rightarrow> if or_UID r = om_UID o' then Inr cm else Inl (Errorf [Lit ''already owned'']))"

text \<open>An API server without any ConfigMap, which accepts every write.\<close>

definition empty_server :: ocudu_io where
  "empty_server = \<lparr>oio_IsPrint = ascii_print, oio_IsControlledBy = list_controlled, oio_SetControllerReference = list_set_ref,
     oio_apply_get = \<lambda>_. NotFound, oio_reread_get = \<lambda>_. NotFound, oio_status_get = \<lambda>_. NotFound, oio_push_get = \<lambda>_. NotFound,
     oio_cleanup_get = \<lambda>_. NotFound, oio_Create = \<lambda>_. CmCreated, oio_Update = \<lambda>_. None, oio_push_Update = \<lambda>_. None,
     oio_Delete = \<lambda>_ _. CmDeleted\<rparr>"

lemma find_snoc: "find P xs = None \<Longrightarrow> P x \<Longrightarrow> find P (xs @ [x]) = Some x"
  by (induction xs) auto

lemma empty_server_laws: "owner_api_laws empty_server"
proof -
  have same: "\<exists>refs. cm = cm\<lparr>km_OwnerReferences := refs\<rparr>" for cm :: CellConfigMap
    by (rule exI [of _ "km_OwnerReferences cm"]) simp
  show ?thesis
    by (auto simp: owner_api_laws_def empty_server_def list_controlled_def list_set_ref_def find_snoc
        split: option.splits if_splits intro: same)
qed

lemma demo_generates: "\<exists>y. GenerateConfig ascii_print (Some demo_cell_spec) = Inr y"
  by (simp add: GenerateConfig_ok_iff one_kind_def spec_update_def demo_cell_spec_def zero_ntn_def)

lemma demo_applies: "\<exists>w. ApplyCellConfig empty_server demo_cell (Some demo_cell_spec) = (None, w)"
  using demo_generates
  by (auto simp: ApplyCellConfig_def empty_server_def demo_cell_def list_set_ref_def new_cell_cm_def Let_def)
     (simp_all add: demo_cell_spec_def)

definition orbital_update :: EphemerisUpdate where
  "orbital_update = \<lparr>upd_ECEF = None, upd_Orbital = Some \<lparr>orb_SemiMajorAxis = 6878000, orb_Eccentricity = 1000,
     orb_Inclination = 530000, orb_RightAscension = 0, orb_ArgOfPeriapsis = 900000, orb_MeanAnomaly = 0\<rparr>\<rparr>"

text \<open>A payload type with a newline and a key, on the demonstration spec.\<close>

theorem payload_confined_witness:
  "\<exists>y y'. GenerateConfig ascii_print (Some demo_cell_spec) = Inr y
     \<and> GenerateConfig ascii_print (Some (set_payload (''x'' @ [lf] @ ''cu_cp:'') demo_cell_spec)) = Inr y'
     \<and> Split lf y' = (Split lf y)[1 := ''# Payload type: x cu_cp: (3GPP Rel-19: transparent or regenerative)'']"
proof -
  have p: "payload_line (''x'' @ [lf] @ ''cu_cp:'') = ''# Payload type: x cu_cp: (3GPP Rel-19: transparent or regenerative)''"
    by code_simp
  from demo_generates obtain y where "GenerateConfig ascii_print (Some demo_cell_spec) = Inr y" by blast
  with payload_confined [of ascii_print demo_cell_spec y "''x'' @ [lf] @ ''cu_cp:''"] p show ?thesis by auto
qed

theorem sanitize_exact_witness:
  "sanitizeComment (string_of [120, 8232, 0, 233]) = string_of [120, 32, 233]"
  using sanitize_exact [of "[120, 8232, 0, 233]"] by (simp add: valid_rune_def san_rune_def)

theorem rewrite_is_regenerate_witness:
  "\<exists>y y'. GenerateConfig ascii_print (Some demo_cell_spec) = Inr y
     \<and> GenerateConfig ascii_print (Some (with_ephemeris orbital_update demo_cell_spec)) = Inr y'
     \<and> replaceEphemeris y orbital_update = (y', True)"
proof -
  from demo_generates obtain y where "GenerateConfig ascii_print (Some demo_cell_spec) = Inr y" by blast
  with rewrite_is_regenerate [of ascii_print demo_cell_spec y orbital_update] show ?thesis
    by (auto simp: one_kind_def orbital_update_def)
qed

theorem foreign_configmap_untouched_witness:
  "\<exists>cm. CreateConfigMap cm \<in> set (snd (ApplyCellConfig empty_server demo_cell (Some demo_cell_spec)))
     \<and> legit empty_server demo_cell (CreateConfigMap cm)"
proof -
  have "\<exists>cm. CreateConfigMap cm \<in> set (snd (ApplyCellConfig empty_server demo_cell (Some demo_cell_spec)))"
    using demo_generates
    by (auto simp: ApplyCellConfig_def empty_server_def demo_cell_def list_set_ref_def new_cell_cm_def Let_def)
       (simp_all add: demo_cell_spec_def)
  then show ?thesis using foreign_configmap_untouched [OF empty_server_laws, of _ demo_cell "Some demo_cell_spec" orbital_update]
    by blast
qed

theorem apply_stable_witness:
  "\<exists>w cm. ApplyCellConfig empty_server demo_cell (Some demo_cell_spec) = (None, w)
     \<and> server_cm empty_server demo_cell w = Some cm
     \<and> GetCellStatus (reads cm empty_server) demo_cell =
         Inr (zero_status\<lparr>ConfigMapRef := om_Name (km_Meta cm), AppliedKoffset := 260\<rparr>)
     \<and> ApplyCellConfig (reads cm empty_server) demo_cell (Some demo_cell_spec) = (None, [])"
proof -
  have k: "CellSpecificKoffset (NTN demo_cell_spec) = 260" by (simp add: demo_cell_spec_def zero_ntn_def)
  have i: "is_int64 (260 :: int)" by (simp add: is_int64_def min_int64_def max_int64_def)
  have o: "one_kind orbital_update" by (simp add: one_kind_def orbital_update_def)
  from demo_applies obtain w where w: "ApplyCellConfig empty_server demo_cell (Some demo_cell_spec) = (None, w)" by blast
  from apply_stable [OF empty_server_laws w, unfolded k, OF i o] w show ?thesis by blast
qed

end
