(* ===== verification/Ocudu_Wire.thy ===== *)
theory Ocudu_Wire
  imports Ocudu_Provider
begin

text \<open>
  The runtime side of the OCUDU provider, \<open>pkg/provider/ocudu/wsclient.go\<close>, and \<open>PushRuntimeUpdate\<close> of
  \<open>provider.go\<close>: the JSON frame of the \<open>ntn_config_update\<close> command, one exchange over a WebSocket, the classes of
  failures with their retry policy, and the text of a gNB's error made safe to show.

  The WebSocket library, the decoding of the reply and the Unicode table of format characters are parameters (the
  record \<open>ws_io\<close>). An exchange returns its error and what it did: the dial with its scheme, TLS configuration and
  authorization header, and the frame it sent.
\<close>

section \<open>The text of a remote error\<close>

definition maxRemoteErrorBytes :: nat where "maxRemoteErrorBytes = 1024"

text \<open>\<open>unicode.IsControl\<close> and \<open>unicode.IsSpace\<close>.\<close>

definition IsControl :: "rune \<Rightarrow> bool" where
  "IsControl r \<longleftrightarrow> r < 32 \<or> 127 \<le> r \<and> r < 160"

definition IsSpace :: "rune \<Rightarrow> bool" where
  "IsSpace r \<longleftrightarrow> 9 \<le> r \<and> r \<le> 13 \<or> r \<in> {32, 133, 160, 5760, 8232, 8233, 8239, 8287, 12288} \<or> 8192 \<le> r \<and> r \<le> 8202"

text \<open>The loop over the runes; \<open>n\<close> is the number of bytes written so far.\<close>

fun scrub :: "(rune \<Rightarrow> bool) \<Rightarrow> nat \<Rightarrow> rune list \<Rightarrow> rune list \<times> bool" where
  "scrub isCf n [] = ([], False)"
| "scrub isCf n (r # rs) =
     (if n \<ge> maxRemoteErrorBytes then ([], True)
      else (let w = (if IsControl r then [32] else if isCf r then [] else [r]);
                (out, truncated) = scrub isCf (n + length (string_of w)) rs
            in (w @ out, truncated)))"

text \<open>\<open>strings.Fields\<close>.\<close>

fun split_space :: "rune list \<Rightarrow> rune list list" where
  "split_space [] = [[]]"
| "split_space (r # rs) = (if IsSpace r then [] # split_space rs
     else case split_space rs of [] \<Rightarrow> [[r]] | p # ps \<Rightarrow> (r # p) # ps)"

definition Fields :: "rune list \<Rightarrow> rune list list" where
  "Fields rs = filter (\<lambda>f. f \<noteq> []) (split_space rs)"

definition sanitizeRemoteError :: "(rune \<Rightarrow> bool) \<Rightarrow> string \<Rightarrow> string" where
  "sanitizeRemoteError isCf s =
     (let (b, truncated) = scrub isCf 0 (runes_of s);
          out = Join (map string_of (Fields b)) '' '';
          out2 = (if truncated then out @ '' (truncated)'' else out)
      in if out2 = '''' then ''(no detail)'' else out2)"

section \<open>The frame\<close>

record ecefJSON =
  PositionX :: f64
  PositionY :: f64
  PositionZ :: f64
  VelocityVX :: f64
  VelocityVY :: f64
  VelocityVZ :: f64

record orbitalJSON =
  oj_SemiMajorAxis :: f64
  oj_Eccentricity :: f64
  oj_Inclination :: f64
  oj_Longitude :: f64
  oj_Periapsis :: f64
  oj_MeanAnomaly :: f64

record ephemerisInfoJSON =
  ij_ECEF :: "ecefJSON option"
  ij_Orbital :: "orbitalJSON option"

record taInfoJSON =
  tj_TACommon :: f64
  tj_TACommonDrift :: "f64 option"
  tj_TACommonDriftVariant :: "f64 option"

record geodeticJSON =
  gj_Latitude :: f64
  gj_Longitude :: f64
  gj_Altitude :: f64

record satSwitchNtnCfgJSON =
  nj_EphemerisInfo :: ephemerisInfoJSON
  nj_KMac :: "int option"
  nj_CellSpecificKoffset :: "int option"
  nj_NTNUlSyncValidityDur :: "int option"
  nj_TAInfo :: "taInfoJSON option"
  nj_TAReport :: "bool option"

record satSwitchJSON =
  sj_EpochTimestamp :: int
  sj_GatewayLocation :: "geodeticJSON option"
  sj_TServiceStart :: int
  sj_SSBTimeOffsetSf :: int
  sj_NTNCfg :: satSwitchNtnCfgJSON

record ntnConfigCellJSON =
  cj_PLMN :: string
  cj_NCI :: int
  cj_EpochTimestamp :: int
  cj_UlSyncValidityDur :: int
  cj_EphemerisInfo :: ephemerisInfoJSON
  cj_SatSwitch :: "satSwitchJSON option"

record ntnConfigUpdateEnvelope =
  Cmd :: string
  Cells :: "ntnConfigCellJSON list"

definition ntnConfigUpdateCmd :: string where "ntnConfigUpdateCmd = ''ntn_config_update''"
definition wsMaxPayload :: nat where "wsMaxPayload = 16 * 1024"

definition buildEphemerisInfo :: "EphemerisUpdate \<Rightarrow> ephemerisInfoJSON result" where
  "buildEphemerisInfo e =
     (case (upd_ECEF e, upd_Orbital e) of
        (Some _, Some _) \<Rightarrow> Inl (Errorf [Lit ''ephemeris update has both ECEF and orbital data (mutually exclusive)''])
      | (None, Some orb) \<Rightarrow> Inr \<lparr>ij_ECEF = None, ij_Orbital = Some \<lparr>
          oj_SemiMajorAxis = round64 (of_int (orb_SemiMajorAxis orb)),
          oj_Eccentricity = scaled (orb_Eccentricity orb) eccentricityScale,
          oj_Inclination = scaled (orb_Inclination orb) milliDegToRad,
          oj_Longitude = scaled (orb_RightAscension orb) milliDegToRad,
          oj_Periapsis = scaled (orb_ArgOfPeriapsis orb) milliDegToRad,
          oj_MeanAnomaly = scaled (orb_MeanAnomaly orb) milliDegToRad\<rparr>\<rparr>
      | (Some ec, None) \<Rightarrow> Inr \<lparr>ij_ECEF = Some \<lparr>
          PositionX = scaled (PosX ec) ECEFPositionStep,
          PositionY = scaled (PosY ec) ECEFPositionStep,
          PositionZ = scaled (PosZ ec) ECEFPositionStep,
          VelocityVX = scaled (VelX ec) ECEFVelocityStep,
          VelocityVY = scaled (VelY ec) ECEFVelocityStep,
          VelocityVZ = scaled (VelZ ec) ECEFVelocityStep\<rparr>, ij_Orbital = None\<rparr>
      | (None, None) \<Rightarrow> Inl (Errorf [Lit ''ephemeris update has neither ECEF nor orbital data'']))"

definition buildTAInfo :: "TAInfo \<Rightarrow> taInfoJSON" where
  "buildTAInfo ta =
     \<lparr>tj_TACommon = scaled (ta_TACommon ta) taCommonStepUs,
      tj_TACommonDrift = (if ta_TACommonDrift ta \<noteq> 0 then Some (scaled (ta_TACommonDrift ta) taCommonDriftStep) else None),
      tj_TACommonDriftVariant =
        (if ta_TACommonDriftVariant ta \<noteq> 0 then Some (scaled (ta_TACommonDriftVariant ta) taCommonDriftVarStep) else None)\<rparr>"

definition buildSatSwitch :: "SatSwitchWithResync \<Rightarrow> satSwitchJSON result" where
  "buildSatSwitch s =
     (let n = NTNConfig s in
      case buildEphemerisInfo \<lparr>upd_ECEF = sn_EphemerisECEF n, upd_Orbital = sn_EphemerisOrbital n\<rparr> of
        Inl e \<Rightarrow> Inl (Wrapf (Lit ''sat_switch_with_resync.ntn_cfg: '' # err_msg e) [e])
      | Inr info \<Rightarrow>
          Inr \<lparr>sj_EpochTimestamp = sw_EpochUnixMs s,
               sj_GatewayLocation = map_option (\<lambda>g. \<lparr>gj_Latitude = scaled (gw_Latitude g) oneEMinus4DegToDeg,
                  gj_Longitude = scaled (gw_Longitude g) oneEMinus4DegToDeg,
                  gj_Altitude = round64 (of_int (gw_Altitude g))\<rparr>) (sw_GatewayLocation s),
               sj_TServiceStart = TServiceStartUnixMs s,
               sj_SSBTimeOffsetSf = SSBTimeOffsetSubframes s,
               sj_NTNCfg = \<lparr>nj_EphemerisInfo = info, nj_KMac = KMac n,
                  nj_CellSpecificKoffset = (if sn_CellSpecificKoffset n > 0 then Some (sn_CellSpecificKoffset n) else None),
                  nj_NTNUlSyncValidityDur = sn_NTNUlSyncValidityDur n,
                  nj_TAInfo = map_option buildTAInfo (sn_TAInfo n),
                  nj_TAReport = sn_TAReport n\<rparr>\<rparr>)"

definition buildNTNConfigUpdate :: "RuntimeUpdate \<Rightarrow> ntnConfigUpdateEnvelope result" where
  "buildNTNConfigUpdate u =
     (case buildEphemerisInfo (ru_Ephemeris u) of
        Inl e \<Rightarrow> Inl (Wrapf (Lit ''runtime update: '' # err_msg e) [e])
      | Inr info \<Rightarrow>
          (let cell = (\<lambda>ss. \<lparr>cj_PLMN = ci_PLMN (ru_Cell u), cj_NCI = ci_NCI (ru_Cell u), cj_EpochTimestamp = ru_EpochUnixMs u,
                 cj_UlSyncValidityDur = ru_UlSyncValidityDur u, cj_EphemerisInfo = info, cj_SatSwitch = ss\<rparr>);
               env = (\<lambda>ss. \<lparr>Cmd = ntnConfigUpdateCmd, Cells = [cell ss]\<rparr>)
           in case ru_SatSwitch u of
                None \<Rightarrow> Inr (env None)
              | Some s \<Rightarrow> (case buildSatSwitch s of Inl e \<Rightarrow> Inl e | Inr ss \<Rightarrow> Inr (env (Some ss)))))"

section \<open>Encoding\<close>

text \<open>\<open>json.Marshal\<close> of a struct: the members in declaration order; a member whose value cannot be encoded fails the
  whole. An \<open>omitempty\<close> member that is empty is left out of the list.\<close>

definition json_object :: "(string \<times> string option) list \<Rightarrow> string option" where
  "json_object fs = (if list_all (\<lambda>(k, v). v \<noteq> None) fs
     then Some (''{'' @ Join (map (\<lambda>(k, v). json_string k @ '':'' @ the v) fs) '','' @ ''}'') else None)"

definition opt_member :: "string \<Rightarrow> ('a \<Rightarrow> string option) \<Rightarrow> 'a option \<Rightarrow> (string \<times> string option) list" where
  "opt_member k enc x = (case x of None \<Rightarrow> [] | Some v \<Rightarrow> [(k, enc v)])"

definition int_member :: "string \<Rightarrow> int \<Rightarrow> (string \<times> string option) list" where
  "int_member k n = (if n = 0 then [] else [(k, Some (Itoa n))])"

abbreviation json_int :: "int \<Rightarrow> string option" where
  "json_int n \<equiv> Some (Itoa n)"

definition json_ecef :: "ecefJSON \<Rightarrow> string option" where
  "json_ecef e = json_object
     [(''position_x'', json_float (PositionX e)), (''position_y'', json_float (PositionY e)),
      (''position_z'', json_float (PositionZ e)), (''velocity_vx'', json_float (VelocityVX e)),
      (''velocity_vy'', json_float (VelocityVY e)), (''velocity_vz'', json_float (VelocityVZ e))]"

definition json_orbital :: "orbitalJSON \<Rightarrow> string option" where
  "json_orbital x = json_object
     [(''semi_major_axis'', json_float (oj_SemiMajorAxis x)), (''eccentricity'', json_float (oj_Eccentricity x)),
      (''inclination'', json_float (oj_Inclination x)), (''longitude'', json_float (oj_Longitude x)),
      (''periapsis'', json_float (oj_Periapsis x)), (''mean_anomaly'', json_float (oj_MeanAnomaly x))]"

definition json_info :: "ephemerisInfoJSON \<Rightarrow> string option" where
  "json_info i = json_object (opt_member ''ecef'' json_ecef (ij_ECEF i) @ opt_member ''orbital'' json_orbital (ij_Orbital i))"

definition json_tainfo :: "taInfoJSON \<Rightarrow> string option" where
  "json_tainfo t = json_object ((''ta_common'', json_float (tj_TACommon t))
     # opt_member ''ta_common_drift'' json_float (tj_TACommonDrift t)
     @ opt_member ''ta_common_drift_variant'' json_float (tj_TACommonDriftVariant t))"

definition json_geodetic :: "geodeticJSON \<Rightarrow> string option" where
  "json_geodetic g = json_object [(''latitude'', json_float (gj_Latitude g)), (''longitude'', json_float (gj_Longitude g)),
     (''altitude'', json_float (gj_Altitude g))]"

definition json_ntncfg :: "satSwitchNtnCfgJSON \<Rightarrow> string option" where
  "json_ntncfg c = json_object ((''ephemeris_info'', json_info (nj_EphemerisInfo c))
     # opt_member ''k_mac'' json_int (nj_KMac c)
     @ opt_member ''cell_specific_koffset'' json_int (nj_CellSpecificKoffset c)
     @ opt_member ''ntn_ul_sync_validity_dur'' json_int (nj_NTNUlSyncValidityDur c)
     @ opt_member ''ta_info'' json_tainfo (nj_TAInfo c)
     @ opt_member ''ta_report'' (\<lambda>b. Some (bool_str b)) (nj_TAReport c))"

definition json_satswitch :: "satSwitchJSON \<Rightarrow> string option" where
  "json_satswitch s = json_object (int_member ''epoch_timestamp'' (sj_EpochTimestamp s)
     @ opt_member ''ntn_gateway_location'' json_geodetic (sj_GatewayLocation s)
     @ int_member ''t_service_start'' (sj_TServiceStart s)
     @ int_member ''ssb_time_offset_sf'' (sj_SSBTimeOffsetSf s)
     @ [(''ntn_cfg'', json_ntncfg (sj_NTNCfg s))])"

definition json_cell :: "ntnConfigCellJSON \<Rightarrow> string option" where
  "json_cell c = json_object ([(''plmn'', Some (json_string (cj_PLMN c))), (''nci'', json_int (cj_NCI c)),
      (''epoch_timestamp'', json_int (cj_EpochTimestamp c)),
      (''ntn_ul_sync_validity_duration'', json_int (cj_UlSyncValidityDur c)),
      (''ephemeris_info'', json_info (cj_EphemerisInfo c))]
     @ opt_member ''sat_switch_with_resync'' json_satswitch (cj_SatSwitch c))"

definition json_array :: "string option list \<Rightarrow> string option" where
  "json_array xs = (if list_all (\<lambda>x. x \<noteq> None) xs then Some (''['' @ Join (map the xs) '','' @ '']'') else None)"

definition marshal_envelope :: "ntnConfigUpdateEnvelope \<Rightarrow> string option" where
  "marshal_envelope env = json_object [(''cmd'', Some (json_string (Cmd env))), (''cells'', json_array (map json_cell (Cells env)))]"

section \<open>The exchange\<close>

datatype wsErrorKind = wsUnreachable | wsPayloadTooLarge | wsMarshal | wsRejected | wsHandshakeRejected

record wsError =
  ws_kind :: wsErrorKind
  ws_msg :: msg

datatype wsRetryPolicy = wsRetryTight | wsRetrySlow | wsRetryNever

fun retryPolicy :: "wsErrorKind \<Rightarrow> wsRetryPolicy" where
  "retryPolicy wsUnreachable = wsRetryTight"
| "retryPolicy wsHandshakeRejected = wsRetrySlow"
| "retryPolicy wsPayloadTooLarge = wsRetryNever"
| "retryPolicy wsMarshal = wsRetryNever"
| "retryPolicy wsRejected = wsRetryNever"

text \<open>A dial fails with the status of the HTTP response, if there was one, and an error.\<close>

record ws_io =
  ws_Dial :: "string \<Rightarrow> TLSConfig option \<Rightarrow> string option \<Rightarrow> (int option \<times> gerror) option"
  ws_Write :: "string \<Rightarrow> gerror option"
  ws_Read :: "string result"
  ws_Unmarshal :: "string \<Rightarrow> string result"
  ws_isCf :: "rune \<Rightarrow> bool"

datatype ws_effect =
    Dialed string "TLSConfig option" "string option"
  | SentFrame string

definition mk_ws :: "wsErrorKind \<Rightarrow> msg \<Rightarrow> wsError" where
  "mk_ws k m = \<lparr>ws_kind = k, ws_msg = m\<rparr>"

definition handshake_error :: "string \<Rightarrow> int option \<times> gerror \<Rightarrow> wsError" where
  "handshake_error endpoint f =
     (case f of
        (None, e) \<Rightarrow> mk_ws wsUnreachable ([Lit ''dial '', Lit endpoint, Lit '': ''] @ err_msg e)
      | (Some code, e) \<Rightarrow>
          if code \<ge> 500 \<and> code \<noteq> 501 \<and> code \<noteq> 505
          then mk_ws wsUnreachable [Lit ''handshake to '', Lit endpoint, Lit '' failed: HTTP '', Num code]
          else if code = 408 \<or> code = 425
          then mk_ws wsUnreachable [Lit ''handshake to '', Lit endpoint, Lit '' did not complete: HTTP '', Num code]
          else if code = 101
          then mk_ws wsHandshakeRejected ([Lit ''handshake to '', Lit endpoint,
                 Lit '' returned HTTP 101 but is not a valid WebSocket upgrade: ''] @ err_msg e)
          else mk_ws wsHandshakeRejected [Lit ''handshake to '', Lit endpoint, Lit '' rejected: HTTP '', Num code])"

definition pushNTNConfigUpdate :: "ws_io \<Rightarrow> ResolvedRemoteControl \<Rightarrow> ntnConfigUpdateEnvelope \<Rightarrow> wsError option \<times> ws_effect list" where
  "pushNTNConfigUpdate w target env =
     (let endpoint = rrc_Endpoint target in
      case marshal_envelope env of
        None \<Rightarrow> (Some (mk_ws wsMarshal [Lit ''marshal ntn_config_update: json: unsupported value'']), [])
      | Some payload \<Rightarrow>
          if length payload > wsMaxPayload
          then (Some (mk_ws wsPayloadTooLarge [Lit ''frame '', Num (int (length payload)), Lit '' bytes exceeds OCUDU '',
                  Num (int wsMaxPayload), Lit ''-byte cap'']), [])
          else
            (let tls = rrc_TLSConfig target;
                 scheme = (if tls = None then ''ws://'' else ''wss://'');
                 header = (if tls \<noteq> None \<and> AuthToken target \<noteq> '''' then Some (''Bearer '' @ AuthToken target) else None);
                 dialed = Dialed (scheme @ endpoint) tls header
             in case ws_Dial w (scheme @ endpoint) tls header of
                  Some f \<Rightarrow> (Some (handshake_error endpoint f), [dialed])
                | None \<Rightarrow>
                    (case ws_Write w payload of
                       Some e \<Rightarrow> (Some (mk_ws wsUnreachable ([Lit ''write to '', Lit endpoint, Lit '': ''] @ err_msg e)), [dialed, SentFrame payload])
                     | None \<Rightarrow>
                         (case ws_Read w of
                            Inl e \<Rightarrow> (Some (mk_ws wsUnreachable ([Lit ''read reply from '', Lit endpoint, Lit '': ''] @ err_msg e)), [dialed, SentFrame payload])
                          | Inr reply \<Rightarrow>
                              (case ws_Unmarshal w reply of
                                 Inl _ \<Rightarrow> (Some (mk_ws wsUnreachable [Lit ''unparseable reply from '', Lit endpoint, Lit '': '',
                                            Quoted (take 200 reply)]), [dialed, SentFrame payload])
                               | Inr err \<Rightarrow>
                                   if err \<noteq> '''' then (Some (mk_ws wsRejected [Lit ''gNB rejected ntn_config_update: '',
                                            Lit (sanitizeRemoteError (ws_isCf w) err)]), [dialed, SentFrame payload])
                                   else (None, [dialed, SentFrame payload]))))))"

definition PushRuntimeUpdate :: "ws_io \<Rightarrow> ResolvedRemoteControl \<Rightarrow> RuntimeUpdate \<Rightarrow> gerror option \<times> ws_effect list" where
  "PushRuntimeUpdate w target update =
     (if rrc_Endpoint target = '''' then (Some ErrRuntimeUnsupported, [])
      else case buildNTNConfigUpdate update of
        Inl e \<Rightarrow> (Some (Wrapf (err_msg ErrRuntimePushRejected @ Lit '': '' # err_msg e) [ErrRuntimePushRejected]), [])
      | Inr env \<Rightarrow>
          (let (we, eff) = pushNTNConfigUpdate w target env in
           (case we of
              None \<Rightarrow> None
            | Some e \<Rightarrow>
                (case retryPolicy (ws_kind e) of
                   wsRetrySlow \<Rightarrow> Some (Wrapf (err_msg ErrRuntimePushRetryLater @ Lit '': '' # ws_msg e) [ErrRuntimePushRetryLater])
                 | wsRetryNever \<Rightarrow> Some (Wrapf (err_msg ErrRuntimePushRejected @ Lit '': '' # ws_msg e) [ErrRuntimePushRejected])
                 | wsRetryTight \<Rightarrow> Some (Errorf (ws_msg e))), eff)))"

section \<open>Outcomes of a push\<close>

definition transient_status :: "int \<Rightarrow> bool" where
  "transient_status code \<longleftrightarrow> code \<ge> 500 \<and> code \<notin> {501, 505} \<or> code \<in> {408, 425}"

lemma handshake_kind: "ws_kind (handshake_error ep (c, e)) =
    (case c of None \<Rightarrow> wsUnreachable | Some code \<Rightarrow> if transient_status code then wsUnreachable else wsHandshakeRejected)"
  by (auto simp: handshake_error_def transient_status_def mk_ws_def split: option.splits)

text \<open>What a reply says.\<close>

definition reply_error :: "ws_io \<Rightarrow> string option" where
  "reply_error w = (case ws_Read w of Inl _ \<Rightarrow> None | Inr reply \<Rightarrow> (case ws_Unmarshal w reply of Inl _ \<Rightarrow> None | Inr err \<Rightarrow> Some err))"

definition delivered :: "ws_io \<Rightarrow> ws_effect list \<Rightarrow> bool" where
  "delivered w eff \<longleftrightarrow> (\<exists>url tls h p. eff = [Dialed url tls h, SentFrame p] \<and> ws_Dial w url tls h = None \<and> ws_Write w p = None)"

definition refused :: "ws_io \<Rightarrow> ws_effect list \<Rightarrow> bool" where
  "refused w eff \<longleftrightarrow> (\<exists>url tls h code er. eff = [Dialed url tls h] \<and> ws_Dial w url tls h = Some (Some code, er)
     \<and> \<not> transient_status code)"

lemma push_ws:
  assumes "pushNTNConfigUpdate w t env = (r, eff)"
  shows "r = None \<longleftrightarrow> delivered w eff \<and> reply_error w = Some ''''"
    "(\<exists>e. r = Some e \<and> retryPolicy (ws_kind e) = wsRetryNever) \<longleftrightarrow>
       eff = [] \<or> delivered w eff \<and> (\<exists>err. reply_error w = Some err \<and> err \<noteq> '''')"
    "(\<exists>e. r = Some e \<and> retryPolicy (ws_kind e) = wsRetrySlow) \<longleftrightarrow> refused w eff"
proof -
  let ?tls = "rrc_TLSConfig t" and ?url = "(if rrc_TLSConfig t = None then ''ws://'' else ''wss://'') @ rrc_Endpoint t"
    and ?h = "if rrc_TLSConfig t \<noteq> None \<and> AuthToken t \<noteq> '''' then Some (''Bearer '' @ AuthToken t) else None"
  have "(r = None \<longleftrightarrow> delivered w eff \<and> reply_error w = Some '''')
     \<and> ((\<exists>e. r = Some e \<and> retryPolicy (ws_kind e) = wsRetryNever) \<longleftrightarrow>
       eff = [] \<or> delivered w eff \<and> (\<exists>err. reply_error w = Some err \<and> err \<noteq> ''''))
     \<and> ((\<exists>e. r = Some e \<and> retryPolicy (ws_kind e) = wsRetrySlow) \<longleftrightarrow> refused w eff)"
  proof (cases "marshal_envelope env")
    case None
    then show ?thesis using assms by (auto simp: pushNTNConfigUpdate_def mk_ws_def delivered_def refused_def)
  next
    case (Some p)
    show ?thesis
    proof (cases "length p > wsMaxPayload")
      case True
      then show ?thesis using assms Some by (auto simp: pushNTNConfigUpdate_def mk_ws_def delivered_def refused_def)
    next
      case False
      show ?thesis
      proof (cases "ws_Dial w ?url ?tls ?h")
        case (Some f)
        obtain c er where f: "f = (c, er)" by (cases f)
        have "r = Some (handshake_error (rrc_Endpoint t) (c, er))" "eff = [Dialed ?url ?tls ?h]"
          using assms \<open>marshal_envelope env = Some p\<close> False Some f by (simp_all add: pushNTNConfigUpdate_def Let_def)
        then show ?thesis using Some f
          by (cases c) (auto simp: handshake_kind delivered_def refused_def)
      next
        case None
        have e: "eff = [Dialed ?url ?tls ?h, SentFrame p]"
          using assms \<open>marshal_envelope env = Some p\<close> False None
          by (auto simp: pushNTNConfigUpdate_def Let_def split: option.splits sum.splits if_splits)
        have r: "r = (case ws_Write w p of
              Some e \<Rightarrow> Some (mk_ws wsUnreachable ([Lit ''write to '', Lit (rrc_Endpoint t), Lit '': ''] @ err_msg e))
            | None \<Rightarrow> (case ws_Read w of
                Inl e \<Rightarrow> Some (mk_ws wsUnreachable ([Lit ''read reply from '', Lit (rrc_Endpoint t), Lit '': ''] @ err_msg e))
              | Inr reply \<Rightarrow> (case ws_Unmarshal w reply of
                  Inl _ \<Rightarrow> Some (mk_ws wsUnreachable [Lit ''unparseable reply from '', Lit (rrc_Endpoint t), Lit '': '', Quoted (take 200 reply)])
                | Inr err \<Rightarrow> if err \<noteq> '''' then Some (mk_ws wsRejected [Lit ''gNB rejected ntn_config_update: '',
                                            Lit (sanitizeRemoteError (ws_isCf w) err)]) else None)))"
          using assms \<open>marshal_envelope env = Some p\<close> False None
          by (auto simp: pushNTNConfigUpdate_def Let_def split: option.splits sum.splits if_splits)
        show ?thesis unfolding r e using None
          by (auto simp: delivered_def refused_def reply_error_def mk_ws_def split: option.splits sum.splits)
      qed
    qed
  qed
  then show "r = None \<longleftrightarrow> delivered w eff \<and> reply_error w = Some ''''"
    "(\<exists>e. r = Some e \<and> retryPolicy (ws_kind e) = wsRetryNever) \<longleftrightarrow>
       eff = [] \<or> delivered w eff \<and> (\<exists>err. reply_error w = Some err \<and> err \<noteq> '''')"
    "(\<exists>e. r = Some e \<and> retryPolicy (ws_kind e) = wsRetrySlow) \<longleftrightarrow> refused w eff" by blast+
qed

lemma sentinel_simps:
  "errors_Is ErrRuntimePushRejected s \<longleftrightarrow> s = RuntimePushRejected"
  "errors_Is ErrRuntimePushRetryLater s \<longleftrightarrow> s = RuntimePushRetryLater"
  "errors_Is ErrRuntimeUnsupported s \<longleftrightarrow> s = RuntimeUnsupported"
  "errors_Is ErrConfigMapNotOwned s \<longleftrightarrow> s = ConfigMapNotOwned"
  by (simp_all add: ErrRuntimePushRejected_def ErrRuntimePushRetryLater_def ErrRuntimeUnsupported_def ErrConfigMapNotOwned_def)

lemma push_outcome:
  assumes "PushRuntimeUpdate w t u = (r, eff)" "rrc_Endpoint t \<noteq> ''''"
  shows "r = None \<longleftrightarrow> delivered w eff \<and> reply_error w = Some ''''"
    "(\<exists>e. r = Some e \<and> errors_Is e RuntimePushRejected) \<longleftrightarrow>
       eff = [] \<or> delivered w eff \<and> (\<exists>err. reply_error w = Some err \<and> err \<noteq> '''')"
    "(\<exists>e. r = Some e \<and> errors_Is e RuntimePushRetryLater) \<longleftrightarrow> refused w eff"
proof -
  have "(r = None \<longleftrightarrow> delivered w eff \<and> reply_error w = Some '''')
     \<and> ((\<exists>e. r = Some e \<and> errors_Is e RuntimePushRejected) \<longleftrightarrow>
       eff = [] \<or> delivered w eff \<and> (\<exists>err. reply_error w = Some err \<and> err \<noteq> ''''))
     \<and> ((\<exists>e. r = Some e \<and> errors_Is e RuntimePushRetryLater) \<longleftrightarrow> refused w eff)"
  proof (cases "buildNTNConfigUpdate u")
    case (Inl e)
    then show ?thesis using assms by (auto simp: PushRuntimeUpdate_def sentinel_simps delivered_def refused_def)
  next
    case (Inr env)
    obtain we where p: "pushNTNConfigUpdate w t env = (we, eff)"
      using assms Inr by (auto simp: PushRuntimeUpdate_def split: prod.splits)
    have r: "r = (case we of None \<Rightarrow> None | Some e \<Rightarrow> (case retryPolicy (ws_kind e) of
        wsRetrySlow \<Rightarrow> Some (Wrapf (err_msg ErrRuntimePushRetryLater @ Lit '': '' # ws_msg e) [ErrRuntimePushRetryLater])
      | wsRetryNever \<Rightarrow> Some (Wrapf (err_msg ErrRuntimePushRejected @ Lit '': '' # ws_msg e) [ErrRuntimePushRejected])
      | wsRetryTight \<Rightarrow> Some (Errorf (ws_msg e))))"
      using assms Inr p by (auto simp: PushRuntimeUpdate_def)
    have "(r = None) = (we = None)" "(\<exists>e. r = Some e \<and> errors_Is e RuntimePushRejected) =
        (\<exists>e. we = Some e \<and> retryPolicy (ws_kind e) = wsRetryNever)"
      "(\<exists>e. r = Some e \<and> errors_Is e RuntimePushRetryLater) = (\<exists>e. we = Some e \<and> retryPolicy (ws_kind e) = wsRetrySlow)"
      unfolding r by (auto simp: sentinel_simps split: option.splits wsRetryPolicy.splits)
    then show ?thesis using push_ws [OF p] by simp
  qed
  then show "r = None \<longleftrightarrow> delivered w eff \<and> reply_error w = Some ''''"
    "(\<exists>e. r = Some e \<and> errors_Is e RuntimePushRejected) \<longleftrightarrow>
       eff = [] \<or> delivered w eff \<and> (\<exists>err. reply_error w = Some err \<and> err \<noteq> '''')"
    "(\<exists>e. r = Some e \<and> errors_Is e RuntimePushRetryLater) \<longleftrightarrow> refused w eff" by blast+
qed

text \<open>C20: What a runtime push reports is exactly what happened. It reports success iff the frame was written on an
  established connection and the reply decoded without an error; a permanent rejection iff no connection was tried
  at all (the update cannot be encoded, or is too large) or the gNB's reply carried an error; and a refusal to be
  polled slowly iff the handshake was answered with an HTTP status other than 408, 425 and the 5xx codes (501 and
  505 apart). Every other failure is left to the tight retry.\<close>

theorem push_outcome_exact:
  assumes "PushRuntimeUpdate w t u = (r, eff)" "rrc_Endpoint t \<noteq> ''''"
  shows "(r = None \<longleftrightarrow> delivered w eff \<and> reply_error w = Some '''')
    \<and> ((\<exists>e. r = Some e \<and> errors_Is e RuntimePushRejected) \<longleftrightarrow>
         eff = [] \<or> delivered w eff \<and> (\<exists>err. reply_error w = Some err \<and> err \<noteq> ''''))
    \<and> ((\<exists>e. r = Some e \<and> errors_Is e RuntimePushRetryLater) \<longleftrightarrow> refused w eff)"
  using push_outcome [OF assms] by blast

text \<open>The bearer token leaves only inside TLS, to the endpoint of the target.\<close>

lemma push_token:
  assumes "Dialed url tls h \<in> set (snd (PushRuntimeUpdate w t u))"
  shows "tls = rrc_TLSConfig t \<and> url = (if tls = None then ''ws://'' else ''wss://'') @ rrc_Endpoint t
     \<and> h = (if tls \<noteq> None \<and> AuthToken t \<noteq> '''' then Some (''Bearer '' @ AuthToken t) else None)"
  using assms
  by (auto simp: PushRuntimeUpdate_def pushNTNConfigUpdate_def Let_def split: if_splits sum.splits option.splits)

section \<open>The frame always encodes\<close>

definition ecef64 :: "EphemerisECEF \<Rightarrow> bool" where
  "ecef64 e \<longleftrightarrow> list_all is_int64 [PosX e, PosY e, PosZ e, VelX e, VelY e, VelZ e]"

definition orbital64 :: "EphemerisOrbital \<Rightarrow> bool" where
  "orbital64 e \<longleftrightarrow> list_all is_int64 [orb_SemiMajorAxis e, orb_Eccentricity e, orb_Inclination e, orb_RightAscension e,
     orb_ArgOfPeriapsis e, orb_MeanAnomaly e]"

definition update64 :: "EphemerisUpdate \<Rightarrow> bool" where
  "update64 u \<longleftrightarrow> pred_option ecef64 (upd_ECEF u) \<and> pred_option orbital64 (upd_Orbital u)"

definition switch64 :: "SatSwitchWithResync \<Rightarrow> bool" where
  "switch64 s \<longleftrightarrow> pred_option ecef64 (sn_EphemerisECEF (NTNConfig s)) \<and> pred_option orbital64 (sn_EphemerisOrbital (NTNConfig s))
     \<and> pred_option (\<lambda>t. list_all is_int64 [ta_TACommon t, ta_TACommonDrift t, ta_TACommonDriftVariant t]) (sn_TAInfo (NTNConfig s))
     \<and> pred_option (\<lambda>g. list_all is_int64 [gw_Latitude g, gw_Longitude g, gw_Altitude g]) (sw_GatewayLocation s)"

lemma json_float_scaled: "is_int64 n \<Longrightarrow> is_step s \<Longrightarrow> (\<exists>t. json_float (scaled n s) = Some t) \<and> json_float (scaled n s) \<noteq> None"
  using scaled_finite [of n s] by (auto simp: json_float_def)

lemma json_float_int: "is_int64 n \<Longrightarrow>
    (\<exists>t. json_float (round64 (of_int n)) = Some t) \<and> json_float (round64 (of_int n)) \<noteq> None"
proof -
  assume "is_int64 n"
  then have "\<bar>n\<bar> \<le> 2 ^ 63" by (auto simp: is_int64_def min_int64_def max_int64_def)
  then have "\<bar>of_int n :: rat\<bar> \<le> pow2 63" using of_int_le_pow2 [of 63 "\<bar>n\<bar>"] by simp
  then obtain a where "round64 (of_int n) = Fin a" using round64_within [of "of_int n" 63] by auto
  then show ?thesis by (simp add: json_float_def)
qed


lemma info_total:
  assumes "update64 u" "buildEphemerisInfo u = Inr info"
  shows "json_info info \<noteq> None"
  using assms
  by (auto simp: buildEphemerisInfo_def json_info_def json_ecef_def json_orbital_def opt_member_def json_object_def
      update64_def ecef64_def orbital64_def json_float_scaled json_float_int split: option.splits)

lemma switch_total:
  assumes "switch64 s" "buildSatSwitch s = Inr ss"
  shows "json_satswitch ss \<noteq> None"
proof -
  let ?u = "\<lparr>upd_ECEF = sn_EphemerisECEF (NTNConfig s), upd_Orbital = sn_EphemerisOrbital (NTNConfig s)\<rparr>"
  obtain info where i: "buildEphemerisInfo ?u = Inr info" using assms(2) by (auto simp: buildSatSwitch_def Let_def split: sum.splits)
  have info: "json_info info \<noteq> None" using info_total [OF _ i] assms(1) by (simp add: update64_def switch64_def)
  have ta: "json_tainfo (buildTAInfo t) \<noteq> None" if "sn_TAInfo (NTNConfig s) = Some t" for t
    using assms(1) that
    by (auto simp: switch64_def json_tainfo_def buildTAInfo_def json_object_def opt_member_def json_float_scaled)
  have cfg: "json_ntncfg (sj_NTNCfg ss) \<noteq> None"
    using assms(2) i info ta
    by (auto simp: buildSatSwitch_def Let_def json_ntncfg_def json_object_def opt_member_def split: option.splits)
  have geo: "json_geodetic g \<noteq> None" if "sj_GatewayLocation ss = Some g" for g
    using assms i that
    by (auto simp: buildSatSwitch_def Let_def switch64_def json_geodetic_def json_object_def json_float_scaled json_float_int)
  show ?thesis using cfg geo
    by (auto simp: json_satswitch_def json_object_def int_member_def opt_member_def split: option.splits)
qed

lemma frame_marshals:
  assumes "buildNTNConfigUpdate u = Inr env" "update64 (ru_Ephemeris u)" "pred_option switch64 (ru_SatSwitch u)"
  shows "marshal_envelope env \<noteq> None"
proof -
  obtain info where i: "buildEphemerisInfo (ru_Ephemeris u) = Inr info"
    using assms(1) by (auto simp: buildNTNConfigUpdate_def split: sum.splits)
  have info: "json_info info \<noteq> None" using info_total assms(2) i by blast
  obtain c where c: "Cells env = [c]" "cj_EphemerisInfo c = info" "\<And>ss. cj_SatSwitch c = Some ss \<Longrightarrow> json_satswitch ss \<noteq> None"
    using assms(1,3) i switch_total
    by (auto simp: buildNTNConfigUpdate_def Let_def split: option.splits sum.splits)
  have "json_cell c \<noteq> None" using info c
    by (auto simp: json_cell_def json_object_def opt_member_def split: option.splits)
  then show ?thesis using c(1) by (auto simp: marshal_envelope_def json_object_def json_array_def)
qed

section \<open>The document and the frame agree\<close>

lemma ParseFloat_Itoa:
  assumes "is_int64 n"
  shows "ParseFloat (Itoa n) = Inr (round64 (of_int n))"
proof -
  have dec: "decimal m 0 = dec_nat m" for m by (simp add: decimal_def)
  have rf: "read_float (dec_nat m) = Some (of_nat m)" for m using read_float_decimal [of m 0] by (simp add: dec pow10_def)
  have "\<bar>n\<bar> \<le> 2 ^ 63" using assms by (auto simp: is_int64_def min_int64_def max_int64_def)
  then have "\<bar>of_int n :: rat\<bar> \<le> pow2 63" using of_int_le_pow2 [of 63 "\<bar>n\<bar>"] by simp
  then obtain a where a: "round64 (of_int n) = Fin a" using round64_within [of "of_int n" 63] by auto
  obtain c t where c: "dec_nat (nat \<bar>n\<bar>) = c # t" "is_digit c"
    using dec_nat_digits [of "nat \<bar>n\<bar>"] by (cases "dec_nat (nat \<bar>n\<bar>)") auto
  have sgn: "scan_sign (dec_nat (nat \<bar>n\<bar>)) = (False, dec_nat (nat \<bar>n\<bar>))" using c is_digit_neq by simp
  have low: "to_lower c = c" using c(2) by (auto simp: to_lower_def is_digit_def Let_def)
  have "c \<noteq> CHR ''i''" "c \<noteq> CHR ''n''" using c(2) by (auto simp: is_digit_def)
  then have names: "ToLower (dec_nat (nat \<bar>n\<bar>)) \<noteq> ''inf''" "ToLower (dec_nat (nat \<bar>n\<bar>)) \<noteq> ''infinity''" "ToLower (dec_nat (nat \<bar>n\<bar>)) \<noteq> ''nan''"
    using c low by (auto simp: ToLower_def)

  show ?thesis
    using a sgn names rf [of "nat \<bar>n\<bar>"]
    by (auto simp: ParseFloat_def Itoa_def Let_def ToLower_def to_lower_def)
qed

text \<open>The number a line of the document assigns, and the values of a wire object in the order of the block.\<close>

definition line_value :: "string \<Rightarrow> num_error + f64" where
  "line_value l = (case split2 '': '' l of None \<Rightarrow> Inl ErrSyntax | Some (_, v) \<Rightarrow> ParseFloat v)"

definition info_values :: "ephemerisInfoJSON \<Rightarrow> f64 list" where
  "info_values i =
     (case ij_ECEF i of None \<Rightarrow> [] | Some e \<Rightarrow> [PositionX e, PositionY e, PositionZ e, VelocityVX e, VelocityVY e, VelocityVZ e])
     @ (case ij_Orbital i of None \<Rightarrow> [] | Some x \<Rightarrow> [oj_SemiMajorAxis x, oj_Eccentricity x, oj_Inclination x, oj_Longitude x,
          oj_Periapsis x, oj_MeanAnomaly x])"

lemma ParseFloat_scaled: "is_int64 n \<Longrightarrow> is_step s \<Longrightarrow> ParseFloat (flt (scaled n s)) = Inr (scaled n s)"
  using flt_reads_back [of n s] by auto

text \<open>C27: The two surfaces of the gNB are given the same numbers. For an update of either form, each line of the
  block that is written into the bootstrap document reads back, as a float64, as the corresponding number of the
  frame that is pushed at run time; both conversions from the resource's codepoints are the same.\<close>

theorem emitters_agree:
  assumes "one_kind u" "update64 u"
  shows "\<exists>info. buildEphemerisInfo u = Inr info
     \<and> map line_value (tl (renderEphemerisBlock u 4)) = map Inr (info_values info)"
  using assms
  by (auto simp: one_kind_def update64_def ecef64_def orbital64_def buildEphemerisInfo_def renderEphemerisBlock_def four
      info_values_def line_value_def ParseFloat_scaled ParseFloat_Itoa split: option.splits)

section \<open>The text of a gNB's error is safe to show\<close>

lemma string_of_append: "string_of (a @ b) = string_of a @ string_of b"
  by (simp add: string_of_def)

lemma scrub_length:
  "n \<le> 1027 \<Longrightarrow> n + length (string_of (fst (scrub isCf n rs))) \<le> 1027"
proof (induction isCf n rs rule: scrub.induct)
  case (2 isCf n r rs)
  let ?w = "if IsControl r then [32] else if isCf r then [] else [r]"
  show ?case
  proof (cases "maxRemoteErrorBytes \<le> n")
    case False
    have "length (string_of ?w) \<le> 4" using EncodeRune_length by (simp add: string_of_def)
    with False have "n + length (string_of ?w) \<le> 1027" by (simp add: maxRemoteErrorBytes_def)
    with 2(1) [OF False refl] False show ?thesis
      by (simp add: split_beta string_of_append Let_def)
  qed (use 2(2) in \<open>simp add: string_of_def\<close>)
qed (simp add: string_of_def)

lemma scrub_runes: "r \<in> set (fst (scrub isCf n rs)) \<Longrightarrow> r = 32 \<or> \<not> IsControl r \<and> \<not> isCf r \<and> r \<in> set rs"
  by (induction isCf n rs rule: scrub.induct) (auto simp: split_beta Let_def split: if_splits)

lemma split_space_set: "f \<in> set (split_space rs) \<Longrightarrow> set f \<subseteq> set rs"
proof (induction rs arbitrary: f)
  case (Cons r rs)
  then show ?case by (cases "split_space rs") (auto split: if_splits, blast+)
qed simp

lemma split_space_not_Nil: "split_space rs \<noteq> []"
  by (cases rs) (auto split: list.splits)

lemma Join_length: "length (Join ls sep) = sum_list (map length ls) + length sep * (length ls - 1)"
proof (induction ls sep rule: Join.induct)
  case (3 s t ss sep)
  then show ?case by (simp add: algebra_simps)
qed simp_all

lemma fields_length: "sum_list (map (length \<circ> string_of) (split_space rs)) + (length (split_space rs) - 1) \<le> length (string_of rs)"
proof (induction rs)
  case (Cons r rs)
  obtain p ps where s: "split_space rs = p # ps" using split_space_not_Nil by (meson neq_Nil_conv)
  obtain n where "length (EncodeRune r) = Suc n" using EncodeRune_length(1) [of r] by (cases "length (EncodeRune r)") auto
  then show ?case using Cons s by (auto simp: string_of_def)
qed (simp add: string_of_def)

lemma filter_sum: "sum_list (map g (filter P xs)) \<le> (sum_list (map g xs) :: nat)"
  by (induction xs) auto

lemma Join_fields_length: "length (Join (map string_of (Fields rs)) '' '') \<le> length (string_of rs)"
proof -
  have "sum_list (map (length \<circ> string_of) (Fields rs)) \<le> sum_list (map (length \<circ> string_of) (split_space rs))"
    unfolding Fields_def by (rule filter_sum)
  moreover have "length (Fields rs) \<le> length (split_space rs)" unfolding Fields_def by simp
  ultimately show ?thesis using fields_length [of rs] by (simp add: Join_length comp_def)
qed

text \<open>The result is the encoding of a list of runes, all of them visible.\<close>

fun join_runes :: "rune list list \<Rightarrow> rune list" where
  "join_runes [] = []"
| "join_runes [f] = f"
| "join_runes (f # g # fs) = f @ 32 # join_runes (g # fs)"

lemma join_string_of: "Join (map string_of fs) '' '' = string_of (join_runes fs)"
proof (induction fs rule: join_runes.induct)
  case (3 f g fs)
  have "EncodeRune 32 = '' ''" by (simp add: EncodeRune_def valid_rune_def space_code)
  with 3 show ?case by (simp add: string_of_def)
qed (simp_all add: string_of_def)

lemma join_runes_set: "r \<in> set (join_runes fs) \<Longrightarrow> r = 32 \<or> (\<exists>f\<in>set fs. r \<in> set f)"
  by (induction fs rule: join_runes.induct) auto

lemma string_of_ascii: "list_all (\<lambda>c. byte c < 128) s \<Longrightarrow> string_of (map byte s) = s"
  by (induction s) (auto simp: string_of_def EncodeRune_def valid_rune_def)

definition visible :: "(rune \<Rightarrow> bool) \<Rightarrow> rune \<Rightarrow> bool" where
  "visible isCf r \<longleftrightarrow> valid_rune r \<and> \<not> IsControl r \<and> \<not> isCf r"

lemma scrubbed_visible:
  assumes "\<And>r. isCf r \<Longrightarrow> 128 \<le> r" "r \<in> set (join_runes (Fields (fst (scrub isCf 0 (runes_of s)))))"
  shows "visible isCf r"
proof -
  have sp: "visible isCf 32" using assms(1) [of 32] by (auto simp: visible_def valid_rune_def IsControl_def)
  consider "r = 32" | f where "f \<in> set (Fields (fst (scrub isCf 0 (runes_of s))))" "r \<in> set f"
    using join_runes_set [OF assms(2)] by blast
  then show ?thesis
  proof cases
    case 2
    then have "r \<in> set (fst (scrub isCf 0 (runes_of s)))" using split_space_set by (auto simp: Fields_def)
    then show ?thesis using scrub_runes [of r isCf 0 "runes_of s"] runes_of_valid [of r s] sp by (auto simp: visible_def)
  qed (use sp in simp)
qed

lemma sanitized_runes:
  assumes "\<And>r. isCf r \<Longrightarrow> 128 \<le> r"
  shows "\<exists>rs. sanitizeRemoteError isCf s = string_of rs \<and> (\<forall>r\<in>set rs. visible isCf r)"
proof -
  obtain b t where b: "scrub isCf 0 (runes_of s) = (b, t)" by (cases "scrub isCf 0 (runes_of s)")
  have vis: "\<forall>r\<in>set (join_runes (Fields b)). visible isCf r"
    using scrubbed_visible [where isCf = isCf and s = s, OF assms] b by auto
  have lit: "\<forall>r\<in>set (map byte l). visible isCf r" if "list_all (\<lambda>c. 32 \<le> byte c \<and> byte c < 127) l" for l
  proof
    fix r assume "r \<in> set (map byte l)"
    then have "32 \<le> r" "r < 127" using that by (auto simp: list_all_iff)
    then show "visible isCf r" using assms [of r] by (auto simp: visible_def valid_rune_def IsControl_def)
  qed
  have d: "list_all (\<lambda>c. 32 \<le> byte c \<and> byte c < 127) ''(no detail)''" "list_all (\<lambda>c. 32 \<le> byte c \<and> byte c < 127) '' (truncated)''"
    "list_all (\<lambda>c. byte c < 128) ''(no detail)''" "list_all (\<lambda>c. byte c < 128) '' (truncated)''" by simp_all
  let ?out = "join_runes (Fields b)"
  have eq: "sanitizeRemoteError isCf s =
      (let out2 = (if t then string_of ?out @ '' (truncated)'' else string_of ?out)
       in if out2 = '''' then ''(no detail)'' else out2)"
    by (simp add: sanitizeRemoteError_def b join_string_of Let_def)
  consider "sanitizeRemoteError isCf s = string_of (map byte ''(no detail)'')"
    | "sanitizeRemoteError isCf s = string_of (?out @ map byte '' (truncated)'')"
    | "sanitizeRemoteError isCf s = string_of ?out"
    unfolding eq string_of_append string_of_ascii [OF d(3)] string_of_ascii [OF d(4)]
    by (cases t; cases "string_of ?out = ''''") (simp_all add: Let_def)
  then show ?thesis using vis lit [OF d(1)] lit [OF d(2)] by cases (metis, metis Un_iff set_append, metis)
qed

text \<open>Whatever a gNB (or something posing as one) sends as its error, the text that reaches a condition, an event
  or the log is not empty, is at most 1039 bytes long, and, decoded, holds no control character and no format
  character: no line break, no escape sequence, no bidirectional override, no zero-width joiner.\<close>

theorem remote_error_safe:
  assumes "\<And>r. isCf r \<Longrightarrow> 128 \<le> r"
  shows "sanitizeRemoteError isCf s \<noteq> '''' \<and> length (sanitizeRemoteError isCf s) \<le> 1039
     \<and> (\<forall>r\<in>set (runes_of (sanitizeRemoteError isCf s)). \<not> IsControl r \<and> \<not> isCf r)"
proof (intro conjI)
  show "sanitizeRemoteError isCf s \<noteq> ''''" by (auto simp: sanitizeRemoteError_def split_beta Let_def)
  show "length (sanitizeRemoteError isCf s) \<le> 1039"
    using scrub_length [of 0 isCf "runes_of s"] Join_fields_length [of "fst (scrub isCf 0 (runes_of s))"]
    by (auto simp: sanitizeRemoteError_def split_beta Let_def)
  obtain rs where rs: "sanitizeRemoteError isCf s = string_of rs" "\<forall>r\<in>set rs. visible isCf r"
    using sanitized_runes [OF assms] by blast
  then have "runes_of (sanitizeRemoteError isCf s) = rs" using runes_of_string [of rs] by (simp add: visible_def)
  then show "\<forall>r\<in>set (runes_of (sanitizeRemoteError isCf s)). \<not> IsControl r \<and> \<not> isCf r"
    using rs(2) by (auto simp: visible_def)
qed

section \<open>Instances\<close>

text \<open>A gNB that accepts every connection and answers with the reply given.\<close>

definition demo_ws :: "string \<Rightarrow> ws_io" where
  "demo_ws err = \<lparr>ws_Dial = \<lambda>_ _ _. None, ws_Write = \<lambda>_. None, ws_Read = Inr ''{}'', ws_Unmarshal = \<lambda>_. Inr err, ws_isCf = \<lambda>r. r = 8238\<rparr>"

definition demo_update :: RuntimeUpdate where
  "demo_update = \<lparr>ru_Cell = \<lparr>ci_PLMN = ''00101'', ci_NCI = 6733824\<rparr>, ru_EpochUnixMs = 1767225600000, ru_UlSyncValidityDur = 5,
     ru_Ephemeris = \<lparr>upd_ECEF = Some demo_ecef, upd_Orbital = None\<rparr>, ru_SatSwitch = None\<rparr>"

definition plain_target :: ResolvedRemoteControl where
  "plain_target = \<lparr>rrc_Endpoint = ''gnb:8001'', rrc_TLSConfig = None, AuthToken = ''''\<rparr>"

theorem push_outcome_exact_witness:
  "\<exists>e eff. PushRuntimeUpdate (demo_ws ''bad epoch'') plain_target demo_update = (Some e, eff)
     \<and> errors_Is e RuntimePushRejected \<and> \<not> errors_Is e RuntimePushRetryLater"
proof -
  obtain r eff where p: "PushRuntimeUpdate (demo_ws ''bad epoch'') plain_target demo_update = (r, eff)"
    by (cases "PushRuntimeUpdate (demo_ws ''bad epoch'') plain_target demo_update")
  have "rrc_Endpoint plain_target \<noteq> ''''" by (simp add: plain_target_def)
  note o = push_outcome_exact [OF p this]
  have err: "reply_error (demo_ws ''bad epoch'') = Some ''bad epoch''" by (simp add: reply_error_def demo_ws_def)
  then have "eff = [] \<or> delivered (demo_ws ''bad epoch'') eff"
    using p by (auto simp: PushRuntimeUpdate_def pushNTNConfigUpdate_def Let_def delivered_def demo_ws_def
        split: if_splits sum.splits option.splits)
  moreover have "\<not> refused (demo_ws ''bad epoch'') eff" by (simp add: refused_def demo_ws_def)
  ultimately show ?thesis using o err p by auto
qed

theorem emitters_agree_witness:
  "\<exists>info. buildEphemerisInfo \<lparr>upd_ECEF = Some demo_ecef, upd_Orbital = None\<rparr> = Inr info
     \<and> map line_value (tl (renderEphemerisBlock \<lparr>upd_ECEF = Some demo_ecef, upd_Orbital = None\<rparr> 4)) = map Inr (info_values info)"
  using emitters_agree [of "\<lparr>upd_ECEF = Some demo_ecef, upd_Orbital = None\<rparr>"]
  by (simp add: one_kind_def update64_def ecef64_def demo_ecef_def is_int64_def min_int64_def max_int64_def)

theorem remote_error_safe_witness:
  "\<forall>r\<in>set (runes_of (sanitizeRemoteError (\<lambda>r. r = 8238) (string_of [98, 97, 100, 10, 8238, 120]))). \<not> IsControl r \<and> r \<noteq> 8238"
  using remote_error_safe [of "\<lambda>r. r = 8238" "string_of [98, 97, 100, 10, 8238, 120]"] by simp

end
