(* ===== verification/Cell_Push.thy ===== *)
theory Cell_Push
  imports Ocudu_Wire Ephemeris_State Netutil
begin

text \<open>
  The push half of the NTNCellConfig controller (\<open>internal/controller/ntncellconfig_controller.go\<close>): why a push
  failed and when it is tried again, the dedup markers, the resolution of the remote-control credential, the two push
  paths (rewriting the bootstrap ConfigMap, and the live update of the gNB), and the advisory on the SIB19 cadence.

  The provider is a record of functions (\<open>NTNProvider\<close>, the interface of \<open>pkg/provider/interface.go\<close>). What the
  reconcile reads from outside is the record \<open>cell_io\<close>: the API server's answers, the clock readings, the checks of
  \<open>crypto/x509\<close>, \<open>crypto/tls\<close> and \<open>httpguts\<close> on the bytes of a Secret, and the address that \<open>%v\<close> prints for a
  non-nil pointer.
\<close>

section \<open>The interface of a provider\<close>

datatype prov_effect = CmWrite cm_effect | Wire ws_effect

record NTNProvider =
  pv_ApplyCellConfig :: "NTNCellConfig \<Rightarrow> NTNCellConfigSpec option \<Rightarrow> gerror option \<times> prov_effect list"
  pv_GetCellStatus :: "NTNCellConfig \<Rightarrow> NTNCellConfigStatus result"
  pv_PushEphemerisUpdate :: "NTNCellConfig \<Rightarrow> EphemerisUpdate \<Rightarrow> gerror option \<times> prov_effect list"
  pv_PushRuntimeUpdate :: "ResolvedRemoteControl \<Rightarrow> RuntimeUpdate \<Rightarrow> gerror option \<times> prov_effect list"
  pv_Cleanup :: "NTNCellConfig \<Rightarrow> gerror option \<times> prov_effect list"

definition ocudu_provider :: "ocudu_io \<Rightarrow> ws_io \<Rightarrow> NTNProvider" where
  "ocudu_provider io w = \<lparr>
     pv_ApplyCellConfig = (\<lambda>owner spec. apsnd (map CmWrite) (ApplyCellConfig io owner spec)),
     pv_GetCellStatus = GetCellStatus io,
     pv_PushEphemerisUpdate = (\<lambda>owner u. apsnd (map CmWrite) (PushEphemerisUpdate io owner u)),
     pv_PushRuntimeUpdate = (\<lambda>t u. apsnd (map Wire) (PushRuntimeUpdate w t u)),
     pv_Cleanup = (\<lambda>owner. apsnd (map CmWrite) (Cleanup io owner))\<rparr>"

section \<open>What a reconcile reads and does\<close>

record Secret =
  sec_Type :: string
  sec_Labels :: "string \<rightharpoonup> string"
  sec_Data :: "string \<rightharpoonup> string"

record cell_io =
  cio_get :: "NTNCellConfig get"
  cio_eph :: "NamespacedName \<Rightarrow> SatelliteEphemeris get"
  cio_secret :: "NamespacedName \<Rightarrow> Secret get"
  cio_cm :: "NamespacedName \<Rightarrow> CellConfigMap get"
  cio_IsControlledBy :: "CellConfigMap \<Rightarrow> ObjectMeta \<Rightarrow> bool"
  cio_delete :: "CellConfigMap \<Rightarrow> UID \<Rightarrow> cm_delete"
  cio_update :: "NTNCellConfig \<Rightarrow> gerror option"
  cio_write :: "NTNCellConfig \<Rightarrow> gerror option"
  cio_now_skew :: time
  cio_now :: time
  cio_recorder :: bool
  cio_IsPrint :: "rune \<Rightarrow> bool"
  cio_ParseURL :: "string \<Rightarrow> URL result"
  cio_AppendCertsFromPEM :: "string \<Rightarrow> bool"
  cio_X509KeyPair :: "string \<Rightarrow> string \<Rightarrow> gerror option"
  cio_ValidHeader :: "string \<Rightarrow> bool"
  cio_pointer :: string

record CellReconciler =
  cr_Providers :: "(string \<rightharpoonup> NTNProvider) option"
  cr_AllowedHosts :: EndpointAllowlist

datatype cell_effect =
    Provider prov_effect
  | SetGauge string NamespacedName int
  | IncCounter string NamespacedName string
  | DropSeries string NamespacedName
  | GetSecret NamespacedName
  | DeleteCellMap CellConfigMap UID
  | UpdateCell NTNCellConfig bool
  | WriteCell NTNCellConfig bool
  | CellEvent string string msg

section \<open>Reasons and retries\<close>

definition ephemerisReasonPushFailed :: string where "ephemerisReasonPushFailed = ''PushFailed''"
definition ephemerisReasonRefNotFound :: string where "ephemerisReasonRefNotFound = ''EphemerisRefNotFound''"
definition ephemerisReasonGetFailed :: string where "ephemerisReasonGetFailed = ''EphemerisGetFailed''"
definition ephemerisReasonPayloadMissing :: string where "ephemerisReasonPayloadMissing = ''EphemerisPayloadMissing''"
definition ephemerisReasonProviderPushFailed :: string where "ephemerisReasonProviderPushFailed = ''ProviderPushFailed''"
definition ephemerisReasonProviderPushRejected :: string where "ephemerisReasonProviderPushRejected = ''ProviderPushRejected''"
definition ephemerisReasonEphemerisStale :: string where "ephemerisReasonEphemerisStale = ''EphemerisStale''"
definition ephemerisReasonRemoteControlCredential :: string where
  "ephemerisReasonRemoteControlCredential = ''RemoteControlCredentialUnavailable''"
definition ephemerisReasonRemoteControlEndpointNotAllowed :: string where
  "ephemerisReasonRemoteControlEndpointNotAllowed = ''RemoteControlEndpointNotAllowed''"
definition ephemerisReasonRemoteEndpointRejected :: string where
  "ephemerisReasonRemoteEndpointRejected = ''RemoteEndpointRejected''"
definition ephemerisReasonSelectionAmbiguous :: string where
  "ephemerisReasonSelectionAmbiguous = ''EphemerisSelectionAmbiguous''"
definition ephemerisReasonInputsStale :: string where "ephemerisReasonInputsStale = ''EphemerisInputsStale''"

lemmas push_reasons = ephemerisReasonPushFailed_def ephemerisReasonRefNotFound_def ephemerisReasonGetFailed_def
  ephemerisReasonPayloadMissing_def ephemerisReasonProviderPushFailed_def ephemerisReasonProviderPushRejected_def
  ephemerisReasonEphemerisStale_def ephemerisReasonRemoteControlCredential_def
  ephemerisReasonRemoteControlEndpointNotAllowed_def ephemerisReasonRemoteEndpointRejected_def
  ephemerisReasonSelectionAmbiguous_def ephemerisReasonInputsStale_def

definition epochSkewMargin :: duration where "epochSkewMargin = 10 * second"

definition newEphemerisPushError :: "string \<Rightarrow> gerror \<Rightarrow> gerror" where
  "newEphemerisPushError reason e = \<lparr>err_msg = err_msg e, err_is = PushReason reason # err_is e\<rparr>"

definition ephemerisPushConditionReason :: "gerror \<Rightarrow> string" where
  "ephemerisPushConditionReason e =
     (case List.map_filter (\<lambda>s. case s of PushReason r \<Rightarrow> Some r | _ \<Rightarrow> None) (err_is e) of
        r # _ \<Rightarrow> if r \<noteq> '''' then r else ephemerisReasonPushFailed
      | [] \<Rightarrow> ephemerisReasonPushFailed)"

definition ephemerisPushShouldRequeue :: "string \<Rightarrow> bool" where
  "ephemerisPushShouldRequeue reason \<longleftrightarrow>
     reason \<notin> {ephemerisReasonRefNotFound, ephemerisReasonPayloadMissing, ephemerisReasonEphemerisStale,
       ephemerisReasonInputsStale, ephemerisReasonProviderPushRejected}"

definition remoteControlConfigRequeue :: duration where "remoteControlConfigRequeue = 5 * minute"

definition ephemerisPushRequeueInterval :: "string \<Rightarrow> duration" where
  "ephemerisPushRequeueInterval reason =
     (if reason \<in> {ephemerisReasonRemoteControlCredential, ephemerisReasonRemoteControlEndpointNotAllowed,
           ephemerisReasonRemoteEndpointRejected}
      then remoteControlConfigRequeue else minute)"

section \<open>Selection and markers\<close>

definition uniquePropagatedNorads :: "PropagatedState list \<Rightarrow> nat" where
  "uniquePropagatedNorads states = length (remdups (map prop_NoradID states))"

definition selectPropagatedState :: "PropagatedState list \<Rightarrow> int option \<Rightarrow> PropagatedState option" where
  "selectPropagatedState states noradID =
     (case states of
        [] \<Rightarrow> None
      | s # _ \<Rightarrow> (case noradID of None \<Rightarrow> Some s | Some n \<Rightarrow> find (\<lambda>s. prop_NoradID s = n) states))"

definition isEphemerisPushUpToDate :: "meta_api \<Rightarrow> NTNCellConfig \<Rightarrow> string \<Rightarrow> bool" where
  "isEphemerisPushUpToDate M cc marker =
     (case FindStatusCondition M (cc_Conditions (cc_Status cc)) ConditionEphemerisPushed of
        None \<Rightarrow> False
      | Some cond \<Rightarrow> cond_Status cond = ConditionTrue \<and> cond_ObservedGeneration cond = cc_Generation cc
          \<and> cond_Message cond = [Lit marker])"

definition ephemerisPushMarker :: "SatelliteEphemeris \<Rightarrow> string" where
  "ephemerisPushMarker eph =
     ''ephemerisRef='' @ om_Name (eph_Meta eph) @ '' generation='' @ Itoa (om_Generation (eph_Meta eph))
     @ '' lastUpdated='' @ (case LastUpdated (eph_Status eph) of None \<Rightarrow> ''none'' | Some t \<Rightarrow> format_RFC3339Nano t)"

definition nul :: string where "nul = [CHR 0x00]"

definition runtime_text :: "SatelliteEphemeris \<Rightarrow> PropagatedState \<Rightarrow> string" where
  "runtime_text eph state =
     (let e = ECEF state in
      Join [om_UID (eph_Meta eph), Itoa (om_Generation (eph_Meta eph)), PropagatedStatesInputHash (eph_Status eph),
        Itoa (prop_NoradID state), Itoa (EpochUnixMs state), Itoa (SourceEpochUnixMs state),
        Itoa (PosX e), Itoa (PosY e), Itoa (PosZ e), Itoa (VelX e), Itoa (VelY e), Itoa (VelZ e)] nul)"

definition runtimeEphemerisPushMarker :: "SatelliteEphemeris \<Rightarrow> PropagatedState \<Rightarrow> string" where
  "runtimeEphemerisPushMarker eph state =
     ''norad='' @ Itoa (prop_NoradID state) @ '' epoch='' @ Itoa (EpochUnixMs state)
     @ '' digest='' @ EncodeToString (Sum256 (runtime_text eph state))"

section \<open>The intent of a satellite switch\<close>

text \<open>\<open>json.Marshal\<close> of the field: integers, booleans and structs of them, so it cannot fail.\<close>

definition plain_json_ecef :: "EphemerisECEF \<Rightarrow> string option" where
  "plain_json_ecef e = json_object ([(''posX'', json_int (PosX e)), (''posY'', json_int (PosY e)), (''posZ'', json_int (PosZ e))]
     @ int_member ''velX'' (VelX e) @ int_member ''velY'' (VelY e) @ int_member ''velZ'' (VelZ e))"

definition plain_json_orbital :: "EphemerisOrbital \<Rightarrow> string option" where
  "plain_json_orbital o' = json_object [(''semiMajorAxis'', json_int (orb_SemiMajorAxis o')), (''eccentricity'', json_int (orb_Eccentricity o')),
     (''inclination'', json_int (orb_Inclination o')), (''rightAscension'', json_int (orb_RightAscension o')),
     (''argOfPeriapsis'', json_int (orb_ArgOfPeriapsis o')), (''meanAnomaly'', json_int (orb_MeanAnomaly o'))]"

definition plain_json_ta :: "TAInfo \<Rightarrow> string option" where
  "plain_json_ta t = json_object ((''taCommon'', json_int (ta_TACommon t)) # int_member ''taCommonDrift'' (ta_TACommonDrift t)
     @ int_member ''taCommonDriftVariant'' (ta_TACommonDriftVariant t) @ int_member ''taCommonOffset'' (ta_TACommonOffset t))"

definition plain_json_gateway :: "NTNGatewayLocation \<Rightarrow> string option" where
  "plain_json_gateway g = json_object [(''latitude'', json_int (gw_Latitude g)), (''longitude'', json_int (gw_Longitude g)),
     (''altitude'', json_int (gw_Altitude g))]"

definition plain_json_ntn :: "SatSwitchNTNConfig \<Rightarrow> string option" where
  "plain_json_ntn n = json_object (opt_member ''ephemerisECEF'' plain_json_ecef (sn_EphemerisECEF n)
     @ opt_member ''ephemerisOrbital'' plain_json_orbital (sn_EphemerisOrbital n)
     @ opt_member ''kMac'' json_int (KMac n)
     @ int_member ''cellSpecificKoffset'' (sn_CellSpecificKoffset n)
     @ opt_member ''ntnUlSyncValidityDur'' json_int (sn_NTNUlSyncValidityDur n)
     @ opt_member ''taInfo'' plain_json_ta (sn_TAInfo n)
     @ opt_member ''taReport'' (\<lambda>b. Some (bool_str b)) (sn_TAReport n))"

definition plain_json_switch :: "SatSwitchWithResync \<Rightarrow> string option" where
  "plain_json_switch s = json_object ((''ntnConfig'', plain_json_ntn (NTNConfig s))
     # int_member ''epochUnixMs'' (sw_EpochUnixMs s)
     @ int_member ''tServiceStartUnixMs'' (TServiceStartUnixMs s)
     @ int_member ''ssbTimeOffsetSubframes'' (SSBTimeOffsetSubframes s)
     @ opt_member ''gatewayLocation'' plain_json_gateway (sw_GatewayLocation s))"

definition satSwitchIntentDigest :: "SatSwitchWithResync \<Rightarrow> string" where
  "satSwitchIntentDigest sw = (case plain_json_switch sw of None \<Rightarrow> ''marshal-error'' | Some b \<Rightarrow> EncodeToString (Sum256 b))"

section \<open>The remote-control credential\<close>

definition remoteControlCredentialLabel :: string where
  "remoteControlCredentialLabel = ''ntn.operators.dev/remote-control-credential''"
definition secretTypeBootstrapToken :: string where "secretTypeBootstrapToken = ''bootstrap.kubernetes.io/token''"
definition SecretTypeServiceAccountToken :: string where "SecretTypeServiceAccountToken = ''kubernetes.io/service-account-token''"
definition maxRemoteControlTokenBytes :: nat where "maxRemoteControlTokenBytes = 8 * 1024"

definition errRemoteControlCredentialUnavailable :: gerror where
  "errRemoteControlCredentialUnavailable = Errorf [Lit ''referenced remote-control credential is unavailable or not authorized'']"

definition errRemoteControlEndpointNotAllowed :: gerror where
  "errRemoteControlEndpointNotAllowed =
     Errorf [Lit (''remoteControl endpoint is not in the operator'' @ [CHR 0x27] @ ''s remote-control allow-list'')]"

text \<open>The checks on a Secret that was read.\<close>

definition tls_of_secret :: "cell_io \<Rightarrow> RemoteControlRef \<Rightarrow> RemoteControlTLS \<Rightarrow> Secret \<Rightarrow> (TLSConfig \<times> string) result" where
  "tls_of_secret io rc t secret =
     (let name = Quoted (tls_SecretName t); pre = [Lit ''remoteControl.tls secret '', name];
          data = key_or_empty (sec_Data secret); token = data ''token''; ca = data ''ca.crt'';
          crt = data ''tls.crt''; key = data ''tls.key'';
          serverName = (if tls_ServerName t \<noteq> '''' then tls_ServerName t
                        else case SplitHostPort (rc_Endpoint rc) of Inr (host, _) \<Rightarrow> host | Inl _ \<Rightarrow> '''') in
      if sec_Type secret = SecretTypeServiceAccountToken \<or> sec_Type secret = secretTypeBootstrapToken
      then Inl (Errorf (pre @ [Lit '' has type '', Quoted (sec_Type secret),
             Lit ('' '' @ [CHR 0xE2, CHR 0x80, CHR 0x94] @ '' a Kubernetes API credential must not be used as a gNB remote-control secret'')]))
      else if key_or_empty (sec_Labels secret) remoteControlCredentialLabel \<noteq> ''true''
      then Inl (Errorf (pre @ [Lit '' must be labelled '', Lit remoteControlCredentialLabel,
             Lit ''=true by its owner to be usable as a remote-control credential'']))
      else if ca \<noteq> '''' \<and> \<not> cio_AppendCertsFromPEM io ca
      then Inl (Errorf (pre @ [Lit '': ca.crt is not valid PEM'']))
      else if ca = '''' \<and> token \<noteq> ''''
      then Inl (Errorf (pre @ [Lit ('' carries a bearer token but no ca.crt: the token would be sent to a server trusted only by the system roots, and remoteControl.endpoint is caller-controlled ''
             @ [CHR 0xE2, CHR 0x80, CHR 0x94] @ '' pin the gNB'' @ [CHR 0x27] @ ''s CA in ca.crt'')]))
      else if tls_Mode t = ''mtls'' \<and> (crt = '''' \<or> key = '''')
      then Inl (Errorf [Lit ''remoteControl.tls mode=mtls requires tls.crt and tls.key in secret '', name])
      else case (if tls_Mode t = ''mtls'' then cio_X509KeyPair io crt key else None) of
        Some e \<Rightarrow> Inl (Errorf (pre @ [Lit '': invalid client certificate/key ('' ] @ err_msg e @ [Lit '')'']))
      | None \<Rightarrow>
          if token \<noteq> '''' \<and> length token > maxRemoteControlTokenBytes
          then Inl (Errorf (pre @ [Lit '': token is '', Num (int (length token)), Lit '' bytes, over the '',
                 Num (int maxRemoteControlTokenBytes), Lit ''-byte limit'']))
          else if token \<noteq> '''' \<and> \<not> cio_ValidHeader io (''Bearer '' @ token)
          then Inl (Errorf (pre @ [Lit ('': token is not a valid HTTP header value (a control byte such as CR/LF/NUL ''
                 @ [CHR 0xE2, CHR 0x80, CHR 0x94] @ '' e.g. a trailing newline?)'')]))
          else Inr (\<lparr>MinVersion = 771, ServerName = serverName, RootCAs = (if ca = '''' then None else Some ca),
                     Certificates = (if tls_Mode t = ''mtls'' then Some (crt, key) else None)\<rparr>, token))"

definition resolveRemoteControlTLS :: "cell_io \<Rightarrow> string \<Rightarrow> RemoteControlRef \<Rightarrow> (TLSConfig option \<times> string) result \<times> cell_effect list" where
  "resolveRemoteControlTLS io namespace rc =
     (case rc_TLS rc of
        None \<Rightarrow> (Inr (None, ''''), [])
      | Some t \<Rightarrow>
          (let k = \<lparr>nn_Namespace = namespace, nn_Name = tls_SecretName t\<rparr>;
               wrap = (\<lambda>e. Inl (Wrapf ([Lit ''reading remoteControl.tls secret '', Quoted (tls_SecretName t), Lit '': ''] @ err_msg e) [e]))
           in (case cio_secret io k of
                 NotFound \<Rightarrow> wrap not_found
               | GetError e \<Rightarrow> wrap e
               | Found secret \<Rightarrow>
                   (case tls_of_secret io rc t secret of Inl e \<Rightarrow> Inl e | Inr (cfg, token) \<Rightarrow> Inr (Some cfg, token)),
               [GetSecret k])))"

section \<open>The SIB19 cadence\<close>

definition radioFrameDuration :: duration where "radioFrameDuration = 10000000"
definition defaultSIB19PeriodFrames :: int where "defaultSIB19PeriodFrames = 16"
definition defaultNTNUlSyncValidityDurSeconds :: int where "defaultNTNUlSyncValidityDurSeconds = 5"

definition effectiveUlSyncValidityDurSeconds :: "NTNCellConfigSpec \<Rightarrow> int" where
  "effectiveUlSyncValidityDurSeconds spec =
     (case np_NTNUlSyncValidityDur (NTN spec) of Some n \<Rightarrow> n | None \<Rightarrow> defaultNTNUlSyncValidityDurSeconds)"

definition sib19_frames :: "NTNCellConfigSpec \<Rightarrow> int" where
  "sib19_frames spec =
     (case cs_CellOverrides spec of
        Some ov \<Rightarrow> (case SIBSchedule ov of
                      Some sched \<Rightarrow> if SIPeriod sched > 0 then SIPeriod sched else defaultSIB19PeriodFrames
                    | None \<Rightarrow> defaultSIB19PeriodFrames)
      | None \<Rightarrow> defaultSIB19PeriodFrames)"

text \<open>\<open>None\<close> is the empty message. Durations are 64-bit.\<close>

definition sib19CadenceWarning :: "NTNCellConfigSpec \<Rightarrow> msg option" where
  "sib19CadenceWarning spec =
     (let validity = wrap64 (effectiveUlSyncValidityDurSeconds spec * second);
          frames = sib19_frames spec;
          period = wrap64 (frames * radioFrameDuration) in
      if wrap64 (2 * period) > validity
      then Some ([Lit ''SIB19 broadcast period (siPeriod='', Num frames, Lit '' frames = '', Dur period,
             Lit '') leaves fewer than two broadcasts inside the ntn-UlSyncValidityDur window ('', Dur validity]
             @ (if np_NTNUlSyncValidityDur (NTN spec) = None then [Lit '', operator default (ntnUlSyncValidityDur unset)''] else [])
             @ [Lit ''): a UE may fail to re-acquire SIB19 before UL-sync validity expires and then lose UL synchronization. Reduce siPeriod or increase ntnUlSyncValidityDur.''])
      else None)"

definition providerReanchorsSIB19Epoch :: "string \<Rightarrow> bool" where
  "providerReanchorsSIB19Epoch providerType \<longleftrightarrow> providerType = ''ocudu''"

definition sib19EpochReanchored :: "NTNCellConfigSpec \<Rightarrow> bool" where
  "sib19EpochReanchored spec =
     (case SIB19EpochMode (cs_Provider spec) of
        Some m \<Rightarrow> m = ''reanchored''
      | None \<Rightarrow> providerReanchorsSIB19Epoch (prov_Type (cs_Provider spec)))"

definition cc_set_cond :: "meta_api \<Rightarrow> string \<Rightarrow> ConditionStatus \<Rightarrow> string \<Rightarrow> msg \<Rightarrow> NTNCellConfig \<Rightarrow> NTNCellConfig" where
  "cc_set_cond M t s r m cc = cc\<lparr>cc_Status := (cc_Status cc)\<lparr>cc_Conditions :=
     SetStatusCondition M (cc_Conditions (cc_Status cc)) (mkCond t s r m (cc_Generation cc))\<rparr>\<rparr>"

definition cc_remove_cond :: "meta_api \<Rightarrow> string \<Rightarrow> NTNCellConfig \<Rightarrow> NTNCellConfig" where
  "cc_remove_cond M t cc = cc\<lparr>cc_Status := (cc_Status cc)\<lparr>cc_Conditions :=
     RemoveStatusCondition M (cc_Conditions (cc_Status cc)) t\<rparr>\<rparr>"

abbreviation cc_find :: "meta_api \<Rightarrow> NTNCellConfig \<Rightarrow> string \<Rightarrow> Condition option" where
  "cc_find M cc t \<equiv> FindStatusCondition M (cc_Conditions (cc_Status cc)) t"

definition applySIB19CadenceCondition :: "meta_api \<Rightarrow> NTNCellConfig \<Rightarrow> NTNCellConfigSpec \<Rightarrow> NTNCellConfig \<times> msg option \<times> bool" where
  "applySIB19CadenceCondition M cc spec =
     (if \<not> sib19EpochReanchored spec then (cc_remove_cond M ConditionSIB19CadenceSane cc, None, False)
      else case sib19CadenceWarning spec of
        Some warn \<Rightarrow>
          (cc_set_cond M ConditionSIB19CadenceSane ConditionFalse ''InsufficientSIB19Margin'' warn cc, Some warn,
           conditionEpisodeChanged (cc_find M cc ConditionSIB19CadenceSane) ConditionFalse ''InsufficientSIB19Margin'' (cc_Generation cc))
      | None \<Rightarrow>
          (cc_set_cond M ConditionSIB19CadenceSane ConditionTrue ''WithinValidity''
             [Lit ''SIB19 broadcast cadence margin is within ntnUlSyncValidityDur; runtime epoch and ephemeris-push headroom are not evaluated by this condition''] cc,
           None, False))"

definition emitSIB19CadenceWarning :: "cell_io \<Rightarrow> msg option \<Rightarrow> bool \<Rightarrow> cell_effect list" where
  "emitSIB19CadenceWarning io warn episodeChanged =
     (case warn of Some m \<Rightarrow> if episodeChanged \<and> cio_recorder io then [CellEvent ''Warning'' ''SIB19CadenceRisk'' m] else []
      | None \<Rightarrow> [])"

section \<open>Pushing\<close>

text \<open>A push returns whether it pushed and its marker, or the error; the resource with the digest of the delivered
  switch; and what it did.\<close>

type_synonym push_result = "(bool \<times> string) result \<times> NTNCellConfig \<times> cell_effect list"

definition push_fail :: "NTNCellConfig \<Rightarrow> cell_effect list \<Rightarrow> string \<Rightarrow> gerror \<Rightarrow> push_result" where
  "push_fail cc eff reason e = (Inl (newEphemerisPushError reason e), cc, eff)"

definition eph_quoted :: "SatelliteEphemeris \<Rightarrow> piece" where
  "eph_quoted eph = Quoted (om_Name (eph_Meta eph))"

text \<open>The gates on the selected state: its epoch, and the age of its source elements.\<close>

definition currency_gate :: "cell_io \<Rightarrow> SatelliteEphemeris \<Rightarrow> PropagatedState \<Rightarrow> gerror option" where
  "currency_gate io eph state =
     (let src = UnixMilli (SourceEpochUnixMs state); sat = [Lit ''selected satellite '', Num (prop_NoradID state), Lit '': ''] in
      if EpochUnixMs state \<le> (time_Add (cio_now_skew io) epochSkewMargin - unix_epoch) div 1000000
      then Some (Errorf [Lit ''propagated epoch for '', eph_quoted eph, Lit '' ('', Num (EpochUnixMs state),
             Lit '') is not sufficiently in the future; awaiting SatelliteEphemeris refresh''])
      else case sourceEpochPlausible (cio_now io) src of
        Inl e \<Rightarrow> Some (Wrapf (sat @ err_msg e @ [Lit ''; refusing'']) [e])
      | Inr _ \<Rightarrow>
          (case sourceEpochFresh (cio_now io) src of
             Inl e \<Rightarrow> Some (Wrapf (sat @ err_msg e @ [Lit ''; awaiting SatelliteEphemeris refresh'']) [e])
           | Inr _ \<Rightarrow> None))"

text \<open>The switch to attach, and the digest to record after a successful push.\<close>

definition pending_switch :: "NTNCellConfig \<Rightarrow> NTNCellConfigSpec \<Rightarrow> SatSwitchWithResync option \<times> string" where
  "pending_switch cc spec =
     (case np_SatSwitchWithResync (NTN spec) of
        None \<Rightarrow> (None, '''')
      | Some sw \<Rightarrow> (let d = satSwitchIntentDigest sw in
          (if d \<noteq> LastPushedSatSwitchDigest (cc_Status cc) then Some sw else None, d)))"

definition uint64 :: "int \<Rightarrow> int" where "uint64 n = n mod 2 ^ 64"

definition runtime_update :: "NTNCellConfigSpec \<Rightarrow> CellID \<Rightarrow> PropagatedState \<Rightarrow> SatSwitchWithResync option \<Rightarrow> RuntimeUpdate" where
  "runtime_update spec cell state sw =
     \<lparr>ru_Cell = \<lparr>ci_PLMN = PLMN cell, ci_NCI = uint64 (NCI cell)\<rparr>, ru_EpochUnixMs = EpochUnixMs state,
      ru_UlSyncValidityDur = effectiveUlSyncValidityDurSeconds spec,
      ru_Ephemeris = \<lparr>upd_ECEF = Some (ECEF state), upd_Orbital = None\<rparr>, ru_SatSwitch = sw\<rparr>"

text \<open>The delivery itself, once the state is known to be current and not yet delivered.\<close>

definition runtime_reason :: "gerror \<Rightarrow> string" where
  "runtime_reason e = (if errors_Is e RuntimePushRejected then ephemerisReasonProviderPushRejected
     else if errors_Is e RuntimePushRetryLater then ephemerisReasonRemoteEndpointRejected
     else ephemerisReasonProviderPushFailed)"

definition deliver :: "CellReconciler \<Rightarrow> cell_io \<Rightarrow> NTNCellConfig \<Rightarrow> NTNCellConfigSpec \<Rightarrow> SatelliteEphemeris \<Rightarrow> NTNProvider
    \<Rightarrow> RemoteControlRef \<Rightarrow> CellID \<Rightarrow> PropagatedState \<Rightarrow> string \<Rightarrow> push_result" where
  "deliver R io cc spec eph prov rc cell state marker =
     (let (sw, switchDigest) = pending_switch cc spec in
      case Check (cio_ParseURL io) (cr_AllowedHosts R) (''https://'' @ rc_Endpoint rc) of
        Inl _ \<Rightarrow> push_fail cc [] ephemerisReasonRemoteControlEndpointNotAllowed errRemoteControlEndpointNotAllowed
      | Inr _ \<Rightarrow>
          (let (res, e1) = resolveRemoteControlTLS io (om_Namespace (eph_Meta eph)) rc in
           case res of
             Inl _ \<Rightarrow> push_fail cc e1 ephemerisReasonRemoteControlCredential errRemoteControlCredentialUnavailable
           | Inr (tlsConfig, authToken) \<Rightarrow>
               (let target = \<lparr>rrc_Endpoint = rc_Endpoint rc, rrc_TLSConfig = tlsConfig, AuthToken = authToken\<rparr>;
                    (err, e2) = pv_PushRuntimeUpdate prov target (runtime_update spec cell state sw);
                    eff = e1 @ map Provider e2
                in case err of
                     Some e \<Rightarrow> push_fail cc eff (runtime_reason e) (Wrapf (Lit ''provider PushRuntimeUpdate: '' # err_msg e) [e])
                   | None \<Rightarrow> (Inr (True, marker),
                        cc\<lparr>cc_Status := (cc_Status cc)\<lparr>LastPushedSatSwitchDigest := switchDigest\<rparr>\<rparr>, eff))))"

definition pushRuntimeEphemeris :: "meta_api \<Rightarrow> CellReconciler \<Rightarrow> cell_io \<Rightarrow> NTNCellConfig \<Rightarrow> NTNCellConfigSpec
    \<Rightarrow> SatelliteEphemeris \<Rightarrow> NTNProvider \<Rightarrow> RemoteControlRef \<Rightarrow> CellID \<Rightarrow> push_result" where
  "pushRuntimeEphemeris M R io cc spec eph prov rc cell =
     (let states = PropagatedStates (eph_Status eph); n = uniquePropagatedNorads states in
      if PropagatedStatesInputHash (eph_Status eph) \<noteq> propagationInputHash (cio_IsPrint io) (eph_Spec eph)
      then push_fail cc [] ephemerisReasonInputsStale (Errorf [Lit ''SatelliteEphemeris '', eph_quoted eph,
             Lit '' propagatedStates were computed under different propagation inputs than the current spec; awaiting re-propagation''])
      else if EphemerisNoradID spec = None \<and> n > 1
      then push_fail cc [] ephemerisReasonSelectionAmbiguous (Errorf [Lit ''SatelliteEphemeris '', eph_quoted eph, Lit '' exposes '',
             Num (int n), Lit '' satellites but this NTNCellConfig sets no spec.ephemerisNoradID; set it to select which satellite to push''])
      else case selectPropagatedState states (EphemerisNoradID spec) of
        None \<Rightarrow>
          push_fail cc [] ephemerisReasonPayloadMissing (Errorf [Lit ''no propagated state in SatelliteEphemeris '', eph_quoted eph,
             Lit '' for noradID selector '', Lit (case EphemerisNoradID spec of None \<Rightarrow> ''<nil>'' | Some _ \<Rightarrow> cio_pointer io),
             Lit (if IsStatusConditionTrue M (eph_Conds eph) ConditionUnsupportedOrbitRegime
                  then '' (the referenced SatelliteEphemeris reports UnsupportedOrbitRegime: deep-space element sets are rejected because the near-earth SGP4 propagator cannot handle them)''
                  else '''')])
      | Some state \<Rightarrow>
          (let marker = runtimeEphemerisPushMarker eph state in
           case currency_gate io eph state of
             Some e \<Rightarrow> push_fail cc [] ephemerisReasonEphemerisStale e
           | None \<Rightarrow>
               if isEphemerisPushUpToDate M cc marker then (Inr (False, marker), cc, [])
               else deliver R io cc spec eph prov rc cell state marker))"

definition pushEphemerisUpdateIfNeeded :: "meta_api \<Rightarrow> CellReconciler \<Rightarrow> cell_io \<Rightarrow> NTNCellConfig \<Rightarrow> NTNCellConfigSpec
    \<Rightarrow> NTNProvider \<Rightarrow> push_result" where
  "pushEphemerisUpdateIfNeeded M R io cc spec prov =
     (let missing = (\<lambda>e. Wrapf ([Lit ''getting referenced SatelliteEphemeris '', Quoted (EphemerisRef spec), Lit '': ''] @ err_msg e) [e]) in
      if EphemerisRef spec = '''' then (Inr (False, ''''), cc, [])
      else case cio_eph io \<lparr>nn_Namespace = om_Namespace (cc_Meta cc), nn_Name = EphemerisRef spec\<rparr> of
        NotFound \<Rightarrow> push_fail cc [] ephemerisReasonRefNotFound (missing not_found)
      | GetError e \<Rightarrow> push_fail cc [] ephemerisReasonGetFailed (missing e)
      | Found eph \<Rightarrow>
          (case (RemoteControl (cs_Provider spec), cs_CellID spec) of
             (Some rc, Some cell) \<Rightarrow> pushRuntimeEphemeris M R io cc spec eph prov rc cell
           | _ \<Rightarrow>
               (let marker = ephemerisPushMarker eph in
                if isEphemerisPushUpToDate M cc marker then (Inr (False, marker), cc, [])
                else
                  (let update = (case np_EphemerisOrbital (NTN spec) of
                         Some o' \<Rightarrow> Some \<lparr>upd_ECEF = None, upd_Orbital = Some o'\<rparr>
                       | None \<Rightarrow> map_option (\<lambda>e. \<lparr>upd_ECEF = Some e, upd_Orbital = None\<rparr>) (np_EphemerisECEF (NTN spec)))
                   in case update of
                        None \<Rightarrow> push_fail cc [] ephemerisReasonPayloadMissing (Errorf [Lit ''ephemeris payload missing in NTNCellConfig spec''])
                      | Some u \<Rightarrow>
                          (let (err, eff) = pv_PushEphemerisUpdate prov cc u in
                           case err of
                             Some e \<Rightarrow> push_fail cc (map Provider eff) ephemerisReasonProviderPushFailed
                                         (Wrapf (Lit ''provider PushEphemerisUpdate: '' # err_msg e) [e])
                           | None \<Rightarrow> (Inr (True, marker), cc, map Provider eff))))))"

end
