(* ===== verification/Cell_Controller.thy ===== *)
theory Cell_Controller
  imports Cell_Push
begin

text \<open>
  The reconcile loop of the NTNCellConfig controller (\<open>internal/controller/ntncellconfig_controller.go\<close>): the
  finalizer, the selection of the provider, applying the configuration and reading it back, the advisory, the push,
  the one status write and the events after it, and the fan-out from a SatelliteEphemeris. A reconcile returns what it
  did, in order, and its result: an error, or the delay after which it runs again (0 for none).
\<close>

section \<open>Persisting and announcing\<close>

definition persistStatusIfChanged :: "cell_io \<Rightarrow> NTNCellConfig \<Rightarrow> NTNCellConfigStatus \<Rightarrow> gerror option \<times> cell_effect list" where
  "persistStatusIfChanged io cc oldStatus =
     (if oldStatus = cc_Status cc then (None, [])
      else (cio_write io cc, [WriteCell cc (cio_write io cc = None)]))"

definition emitConfigApplied :: "cell_io \<Rightarrow> NTNCellConfigSpec \<Rightarrow> cell_effect list" where
  "emitConfigApplied io spec =
     (if \<not> cio_recorder io then []
      else [CellEvent ''Normal'' ''ConfigApplied'' [Lit ''Applied NTN config (koffset='', Num (CellSpecificKoffset (NTN spec)),
              Lit '') via '', Lit (prov_Type (cs_Provider spec))]]
        @ (if np_SatSwitchWithResync (NTN spec) \<noteq> None \<and> (RemoteControl (cs_Provider spec) = None \<or> cs_CellID spec = None)
           then [CellEvent ''Warning'' ''SatSwitchIgnored''
                  [Lit ''satSwitchWithResync (incl. k_mac) requires remoteControl+cellID; ignored on the ConfigMap path'']] else []))"

section \<open>The finalizer\<close>

definition finalizerName :: string where "finalizerName = ''ntn.operators.dev/configmap-cleanup''"

type_synonym cell_result = "cell_effect list \<times> duration result"

definition drop_series :: "NTNCellConfig \<Rightarrow> cell_effect list" where
  "drop_series cc = map (\<lambda>s. DropSeries s (cc_Key cc))
     [''ConfigApplyErrorsTotal'', ''ConfigApplyReady'', ''EphemerisPushErrorsTotal'', ''EphemerisPushReady'']"

definition remove_finalizer :: "cell_io \<Rightarrow> NTNCellConfig \<Rightarrow> cell_result" where
  "remove_finalizer io cc =
     (let cc1 = cc\<lparr>cc_Meta := RemoveFinalizer finalizerName (cc_Meta cc)\<rparr> in
      ([UpdateCell cc1 (cio_update io cc1 = None)], case cio_update io cc1 of Some e \<Rightarrow> Inl e | None \<Rightarrow> Inr 0))"

text \<open>Cleanup by the recorded reference, when no provider of the resource's type is registered.\<close>

definition cleanup_by_ref :: "cell_io \<Rightarrow> NTNCellConfig \<Rightarrow> gerror option \<times> cell_effect list" where
  "cleanup_by_ref io cc =
     (if ConfigMapRef (cc_Status cc) = '''' then (None, [])
      else case cio_cm io \<lparr>nn_Namespace = om_Namespace (cc_Meta cc), nn_Name = ConfigMapRef (cc_Status cc)\<rparr> of
        NotFound \<Rightarrow> (None, [])
      | GetError e \<Rightarrow> (Some e, [])
      | Found cm \<Rightarrow>
          if cio_IsControlledBy io cm (cc_Meta cc)
          then (let uid = om_UID (km_Meta cm) in
                (case cio_delete io cm uid of CmDeleteFailed e \<Rightarrow> Some e | _ \<Rightarrow> None, [DeleteCellMap cm uid]))
          else (None, []))"

definition handleFinalizer :: "cell_io \<Rightarrow> NTNCellConfig \<Rightarrow> NTNProvider option \<Rightarrow> cell_result option" where
  "handleFinalizer io cc prov =
     (if om_DeletionTimestamp (cc_Meta cc) \<noteq> None then
        (if finalizerName \<in> set (om_Finalizers (cc_Meta cc)) then
           (let (err, eff) = (case prov of None \<Rightarrow> cleanup_by_ref io cc | Some p \<Rightarrow> apsnd (map Provider) (pv_Cleanup p cc)) in
            case err of
              Some e \<Rightarrow> Some (drop_series cc @ eff, Inl e)
            | None \<Rightarrow> (let (e2, r) = remove_finalizer io cc in Some (drop_series cc @ eff @ e2, r)))
         else Some (drop_series cc, Inr 0))
      else if finalizerName \<notin> set (om_Finalizers (cc_Meta cc)) then
        (let cc1 = cc\<lparr>cc_Meta := AddFinalizer finalizerName (cc_Meta cc)\<rparr> in
         Some ([UpdateCell cc1 (cio_update io cc1 = None)],
               case cio_update io cc1 of Some e \<Rightarrow> Inl e | None \<Rightarrow> Inr second))
      else None)"

section \<open>The reconcile loop\<close>

definition finish :: "gerror option \<Rightarrow> cell_effect list \<Rightarrow> cell_result \<Rightarrow> cell_result" where
  "finish err eff rest = (case err of Some e \<Rightarrow> (eff, Inl e) | None \<Rightarrow> (eff @ fst rest, snd rest))"

definition clear_koffset :: "NTNCellConfig \<Rightarrow> NTNCellConfig" where
  "clear_koffset cc = cc\<lparr>cc_Status := (cc_Status cc)\<lparr>AppliedKoffset := 0\<rparr>\<rparr>"

abbreviation apply_gauge :: "NTNCellConfig \<Rightarrow> int \<Rightarrow> cell_effect" where
  "apply_gauge cc v \<equiv> SetGauge ''ConfigApplyReady'' (cc_Key cc) v"

abbreviation push_gauge :: "NTNCellConfig \<Rightarrow> int \<Rightarrow> cell_effect" where
  "push_gauge cc v \<equiv> SetGauge ''EphemerisPushReady'' (cc_Key cc) v"

text \<open>No provider registry, or no provider of the type.\<close>

definition no_provider :: "meta_api \<Rightarrow> cell_io \<Rightarrow> NTNCellConfig \<Rightarrow> string \<Rightarrow> msg \<Rightarrow> duration \<Rightarrow> cell_result" where
  "no_provider M io cc reason m delay =
     (let cc1 = cc_set_cond M ConditionConfigApplied ConditionFalse reason m (clear_koffset cc);
          (err, w) = persistStatusIfChanged io cc1 (cc_Status cc)
      in finish err (apply_gauge cc 0 # w) ([], Inr delay))"

definition apply_failed :: "meta_api \<Rightarrow> cell_io \<Rightarrow> NTNCellConfig \<Rightarrow> NTNCellConfigSpec \<Rightarrow> gerror \<Rightarrow> cell_result" where
  "apply_failed M io cc spec e =
     (let reason = (if errors_Is e ConfigMapNotOwned then ''OwnershipConflict'' else ''ApplyFailed'');
          episode = conditionEpisodeChanged (cc_find M cc ConditionConfigApplied) ConditionFalse reason (cc_Generation cc);
          cc1 = cc_set_cond M ConditionConfigApplied ConditionFalse reason (err_msg e) (clear_koffset cc);
          (err, w) = persistStatusIfChanged io cc1 (cc_Status cc)
      in finish err (IncCounter ''ConfigApplyErrorsTotal'' (cc_Key cc) (prov_Type (cs_Provider spec)) # apply_gauge cc 0 # w)
           (if episode \<and> cio_recorder io then [CellEvent ''Warning'' reason (err_msg e)] else [], Inr minute))"

definition status_failed :: "meta_api \<Rightarrow> cell_io \<Rightarrow> NTNCellConfig \<Rightarrow> gerror \<Rightarrow> cell_result" where
  "status_failed M io cc e =
     (let cc1 = cc_set_cond M ConditionConfigApplied ConditionUnknown ''StatusCheckFailed''
             (Lit ''Config applied but status verification failed: '' # err_msg e) cc;
          (err, w) = persistStatusIfChanged io cc1 (cc_Status cc)
      in finish err (apply_gauge cc 0 # w) ([], Inr minute))"

definition push_failed :: "meta_api \<Rightarrow> cell_io \<Rightarrow> NTNCellConfig \<Rightarrow> NTNCellConfigStatus \<Rightarrow> cell_effect list \<Rightarrow> cell_effect list \<Rightarrow> gerror
    \<Rightarrow> cell_result" where
  "push_failed M io cc oldStatus applied cadence e =
     (let reason = ephemerisPushConditionReason e;
          changed = conditionEpisodeChanged (cc_find M cc ConditionEphemerisPushed) ConditionFalse reason (cc_Generation cc);
          cc1 = cc_set_cond M ConditionEphemerisPushed ConditionFalse reason (err_msg e) cc;
          (err, w) = persistStatusIfChanged io cc1 oldStatus
      in finish err w (applied @ cadence
           @ [IncCounter ''EphemerisPushErrorsTotal'' (cc_Key cc) reason, push_gauge cc 0]
           @ (if changed \<and> cio_recorder io then [CellEvent ''Warning'' ''EphemerisPushFailed'' (err_msg e)] else []),
           Inr (if ephemerisPushShouldRequeue reason then ephemerisPushRequeueInterval reason else 0)))"

text \<open>From the verified apply on.\<close>

definition after_status :: "meta_api \<Rightarrow> CellReconciler \<Rightarrow> cell_io \<Rightarrow> NTNCellConfig \<Rightarrow> NTNCellConfigSpec \<Rightarrow> NTNProvider
    \<Rightarrow> NTNCellConfigStatus \<Rightarrow> cell_result" where
  "after_status M R io cc spec prov status =
     (let oldStatus = cc_Status cc;
          cc1 = cc\<lparr>cc_Status := oldStatus\<lparr>AppliedKoffset := AppliedKoffset status, ConfigMapRef := ConfigMapRef status\<rparr>\<rparr>;
          cc2 = cc_set_cond M ConditionConfigApplied ConditionTrue ''Applied''
                  [Lit ''NTN config applied via '', Lit (prov_Type (cs_Provider spec)), Lit '' provider''] cc1;
          configApplyChanged = (cc_Conditions (cc_Status cc2) \<noteq> cc_Conditions (cc_Status cc1));
          (cc3, cadenceWarn, cadenceEpisode) = applySIB19CadenceCondition M cc2 spec;
          applied = (if configApplyChanged then emitConfigApplied io spec else []);
          cadence = emitSIB19CadenceWarning io cadenceWarn cadenceEpisode;
          ready = apply_gauge cc 1 in
      if EphemerisRef spec = '''' then
        (let cc4 = cc_remove_cond M ConditionEphemerisPushed cc3;
             (err, w) = persistStatusIfChanged io cc4 oldStatus
         in finish err (ready # DropSeries ''EphemerisPushReady'' (cc_Key cc) # w) (applied @ cadence, Inr (5 * minute)))
      else
        (let (res, cc4, eff) = pushEphemerisUpdateIfNeeded M R io cc3 spec prov in
         case res of
           Inl e \<Rightarrow> (let (e2, r) = push_failed M io cc4 oldStatus applied cadence e in (ready # eff @ e2, r))
         | Inr (pushed, marker) \<Rightarrow>
             (let cc5 = (if pushed then cc_set_cond M ConditionEphemerisPushed ConditionTrue ''Pushed'' [Lit marker] cc4 else cc4);
                  (err, w) = persistStatusIfChanged io cc5 oldStatus
              in finish err (ready # eff @ push_gauge cc 1 # w) (applied @ cadence, Inr (5 * minute)))))"

definition forced_spec :: "NTNCellConfig \<Rightarrow> NTNCellConfigSpec" where
  "forced_spec cc = (let spec = cc_Spec cc in spec\<lparr>cs_Provider := (cs_Provider spec)\<lparr>prov_Namespace := om_Namespace (cc_Meta cc)\<rparr>\<rparr>)"

definition with_provider :: "meta_api \<Rightarrow> CellReconciler \<Rightarrow> cell_io \<Rightarrow> NTNCellConfig \<Rightarrow> NTNProvider \<Rightarrow> cell_result" where
  "with_provider M R io cc prov =
     (let spec = forced_spec cc; (err, e1) = pv_ApplyCellConfig prov cc (Some spec); eff = map Provider e1 in
      case err of
        Some e \<Rightarrow> (let (e2, r) = apply_failed M io cc spec e in (eff @ e2, r))
      | None \<Rightarrow>
          (case pv_GetCellStatus prov cc of
             Inl e \<Rightarrow> (let (e2, r) = status_failed M io cc e in (eff @ e2, r))
           | Inr status \<Rightarrow> (let (e2, r) = after_status M R io cc spec prov status in (eff @ e2, r))))"

definition CellReconcile :: "meta_api \<Rightarrow> CellReconciler \<Rightarrow> cell_io \<Rightarrow> cell_result" where
  "CellReconcile M R io =
     (case cio_get io of
        NotFound \<Rightarrow> ([], Inr 0)
      | GetError e \<Rightarrow> ([], Inl e)
      | Found cc \<Rightarrow>
          (let ty = prov_Type (cs_Provider (cc_Spec cc));
               prov = (case cr_Providers R of None \<Rightarrow> None | Some ps \<Rightarrow> ps ty) in
           case handleFinalizer io cc prov of
             Some done \<Rightarrow> done
           | None \<Rightarrow>
               (case (cr_Providers R, prov) of
                  (None, _) \<Rightarrow> no_provider M io cc ''InternalError'' [Lit ''NTN provider registry is not configured''] minute
                | (Some _, None) \<Rightarrow> no_provider M io cc ''UnsupportedProvider''
                    [Lit ''Provider type '', Quoted ty, Lit '' is not registered''] 0
                | (Some _, Some p) \<Rightarrow> with_provider M R io cc p)))"

section \<open>The fan-out from a SatelliteEphemeris\<close>

definition ephemerisRefIndexKey :: string where "ephemerisRefIndexKey = ''spec.ephemerisRef''"

definition indexNTNCellConfigByEphemerisRef :: "NTNCellConfig \<Rightarrow> string list" where
  "indexNTNCellConfigByEphemerisRef cc = (if EphemerisRef (cc_Spec cc) = '''' then [] else [EphemerisRef (cc_Spec cc)])"

text \<open>\<open>List\<close> with a field selector answers from the index: \<open>None\<close> is a cancelled or expired context.\<close>

definition ephemerisToNTNCellConfig :: "(string \<Rightarrow> string \<Rightarrow> string \<Rightarrow> NTNCellConfig list result) \<Rightarrow> SatelliteEphemeris
    \<Rightarrow> NamespacedName list \<times> cell_effect list" where
  "ephemerisToNTNCellConfig List eph =
     (case List (om_Namespace (eph_Meta eph)) ephemerisRefIndexKey (om_Name (eph_Meta eph)) of
        Inl e \<Rightarrow> ([], if errors_Is e ContextDone then []
                     else [IncCounter ''EphemerisMapperIndexErrorTotal'' \<lparr>nn_Namespace = '''', nn_Name = ''''\<rparr> ''''])
      | Inr items \<Rightarrow> (map cc_Key items, []))"

end
