(* ===== verification/Cell_Contract.thy ===== *)
theory Cell_Contract
  imports Cell_Controller
begin

text \<open>
  How a reconcile of an NTNCellConfig is put together, as case rules on its result, and the contract of the provider
  interface. \<open>ntn_provider\<close> states what the controller may rely on of the writes, the wire traffic and the error
  classes of any provider; the lemmas of the controller that need it are proved in the locale, for every provider, and
  the OCUDU provider is an interpretation of it.
\<close>

section \<open>Where effects come from\<close>

lemma finish_fst: "e \<in> set (fst (finish err eff rest)) \<Longrightarrow> e \<in> set eff \<or> err = None \<and> e \<in> set (fst rest)"
  by (auto simp: finish_def split: option.splits)

lemma persist_effects: "e \<in> set (snd (persistStatusIfChanged io cc old)) \<Longrightarrow> e = WriteCell cc (cio_write io cc = None)"
  by (auto simp: persistStatusIfChanged_def split: if_splits)

lemma cc_cond_simps [simp]:
  "cc_Meta (cc_set_cond M t s r m cc) = cc_Meta cc" "cc_Spec (cc_set_cond M t s r m cc) = cc_Spec cc"
  "cc_Meta (cc_remove_cond M t cc) = cc_Meta cc" "cc_Spec (cc_remove_cond M t cc) = cc_Spec cc"
  "LastPushedSatSwitchDigest (cc_Status (cc_set_cond M t s r m cc)) = LastPushedSatSwitchDigest (cc_Status cc)"
  "LastPushedSatSwitchDigest (cc_Status (cc_remove_cond M t cc)) = LastPushedSatSwitchDigest (cc_Status cc)"
  "AppliedKoffset (cc_Status (cc_set_cond M t s r m cc)) = AppliedKoffset (cc_Status cc)"
  "AppliedKoffset (cc_Status (cc_remove_cond M t cc)) = AppliedKoffset (cc_Status cc)"
  "ConfigMapRef (cc_Status (cc_set_cond M t s r m cc)) = ConfigMapRef (cc_Status cc)"
  "ConfigMapRef (cc_Status (cc_remove_cond M t cc)) = ConfigMapRef (cc_Status cc)"
  by (simp_all add: cc_set_cond_def cc_remove_cond_def)

lemma clear_koffset_simps [simp]: "cc_Meta (clear_koffset cc) = cc_Meta cc" "cc_Spec (clear_koffset cc) = cc_Spec cc"
  "LastPushedSatSwitchDigest (cc_Status (clear_koffset cc)) = LastPushedSatSwitchDigest (cc_Status cc)"
  by (simp_all add: clear_koffset_def)

text \<open>The same resource up to conditions and the two reported fields of its status.\<close>

definition same_cell :: "NTNCellConfig \<Rightarrow> NTNCellConfig \<Rightarrow> bool" where
  "same_cell a b \<longleftrightarrow> cc_Meta a = cc_Meta b \<and> cc_Spec a = cc_Spec b
     \<and> LastPushedSatSwitchDigest (cc_Status a) = LastPushedSatSwitchDigest (cc_Status b)"

lemma cadence_same: "applySIB19CadenceCondition M cc spec = (cc', w, ep) \<Longrightarrow> same_cell cc' cc"
  by (auto simp: applySIB19CadenceCondition_def same_cell_def split: if_splits option.splits)

text \<open>What is true of the ephemeris that a runtime push delivers.\<close>

definition may_push :: "CellReconciler \<Rightarrow> cell_io \<Rightarrow> NTNCellConfig \<Rightarrow> RemoteControlRef \<Rightarrow> CellID \<Rightarrow> SatelliteEphemeris \<Rightarrow> PropagatedState \<Rightarrow> bool" where
  "may_push R io cc rc cell eph state \<longleftrightarrow>
     RemoteControl (cs_Provider (cc_Spec cc)) = Some rc \<and> cs_CellID (cc_Spec cc) = Some cell
     \<and> cio_eph io \<lparr>nn_Namespace = om_Namespace (cc_Meta cc), nn_Name = EphemerisRef (cc_Spec cc)\<rparr> = Found eph
     \<and> PropagatedStatesInputHash (eph_Status eph) = propagationInputHash (cio_IsPrint io) (eph_Spec eph)
     \<and> (EphemerisNoradID (cc_Spec cc) = None \<longrightarrow> uniquePropagatedNorads (PropagatedStates (eph_Status eph)) \<le> 1)
     \<and> selectPropagatedState (PropagatedStates (eph_Status eph)) (EphemerisNoradID (cc_Spec cc)) = Some state
     \<and> currency_gate io eph state = None"

lemma forced_simps [simp]:
  "NTN (forced_spec cc) = NTN (cc_Spec cc)" "EphemerisRef (forced_spec cc) = EphemerisRef (cc_Spec cc)"
  "EphemerisNoradID (forced_spec cc) = EphemerisNoradID (cc_Spec cc)" "cs_CellID (forced_spec cc) = cs_CellID (cc_Spec cc)"
  "cs_CellOverrides (forced_spec cc) = cs_CellOverrides (cc_Spec cc)"
  "RemoteControl (cs_Provider (forced_spec cc)) = RemoteControl (cs_Provider (cc_Spec cc))"
  "prov_Type (cs_Provider (forced_spec cc)) = prov_Type (cs_Provider (cc_Spec cc))"
  "SIB19EpochMode (cs_Provider (forced_spec cc)) = SIB19EpochMode (cs_Provider (cc_Spec cc))"
  "prov_Namespace (cs_Provider (forced_spec cc)) = om_Namespace (cc_Meta cc)"
  by (simp_all add: forced_spec_def Let_def)

text \<open>The runtime path ends in one of three ways: an error that is reported, nothing to do, or a delivery.\<close>

lemma runtime_cases:
  assumes "pushRuntimeEphemeris M R io cc spec eph prov rc cell = (res, cc', eff)"
  obtains (gate) e where "res = Inl e" "cc' = cc" "eff = []"
  | (current) state where "selectPropagatedState (PropagatedStates (eph_Status eph)) (EphemerisNoradID spec) = Some state"
      "res = Inr (False, runtimeEphemerisPushMarker eph state)" "cc' = cc" "eff = []" "currency_gate io eph state = None"
      "PropagatedStatesInputHash (eph_Status eph) = propagationInputHash (cio_IsPrint io) (eph_Spec eph)"
      "EphemerisNoradID spec = None \<longrightarrow> uniquePropagatedNorads (PropagatedStates (eph_Status eph)) \<le> 1"
      "isEphemerisPushUpToDate M cc (runtimeEphemerisPushMarker eph state)"
  | (deliver) state where "selectPropagatedState (PropagatedStates (eph_Status eph)) (EphemerisNoradID spec) = Some state"
      "currency_gate io eph state = None"
      "PropagatedStatesInputHash (eph_Status eph) = propagationInputHash (cio_IsPrint io) (eph_Spec eph)"
      "EphemerisNoradID spec = None \<longrightarrow> uniquePropagatedNorads (PropagatedStates (eph_Status eph)) \<le> 1"
      "deliver R io cc spec eph prov rc cell state (runtimeEphemerisPushMarker eph state) = (res, cc', eff)"
proof -
  let ?states = "PropagatedStates (eph_Status eph)"
  note d = assms [unfolded pushRuntimeEphemeris_def push_fail_def Let_def]
  show thesis
  proof (cases "PropagatedStatesInputHash (eph_Status eph) = propagationInputHash (cio_IsPrint io) (eph_Spec eph)
      \<and> \<not> (EphemerisNoradID spec = None \<and> uniquePropagatedNorads ?states > 1)")
    case False
    then have "\<exists>e. res = Inl e" "cc' = cc" "eff = []" using d by (auto split: if_splits)
    then show thesis using gate by blast
  next
    case True
    then have n: "EphemerisNoradID spec = None \<longrightarrow> uniquePropagatedNorads ?states \<le> 1" by auto
    show thesis
    proof (cases "selectPropagatedState ?states (EphemerisNoradID spec)")
      case None
      then have "\<exists>e. res = Inl e" "cc' = cc" "eff = []" using d True by (auto split: if_splits)
      then show thesis using gate by blast
    next
      case (Some state)
      show thesis
      proof (cases "currency_gate io eph state")
        case (Some e)
        then have "\<exists>e. res = Inl e" "cc' = cc" "eff = []" using d True \<open>selectPropagatedState _ _ = Some state\<close>
          by (auto split: if_splits)
        then show thesis using gate by blast
      next
        case None
        show thesis
        proof (cases "isEphemerisPushUpToDate M cc (runtimeEphemerisPushMarker eph state)")
          case up: True
          then show thesis using d True n Some None by (intro current [of state]) (auto split: if_splits)
        next
          case False
          then show thesis using d True n Some None by (intro deliver [of state]) (auto split: if_splits)
        qed
      qed
    qed
  qed
qed

lemma deliver_cases:
  assumes "deliver R io cc spec eph prov rc cell state marker = (res, cc', eff)"
  obtains (refused) e where "res = Inl e" "cc' = cc" "list_all (\<lambda>x. \<exists>k. x = GetSecret k) eff"
  | (called) tls token e1 err e2 where
      "Check (cio_ParseURL io) (cr_AllowedHosts R) (''https://'' @ rc_Endpoint rc) = Inr ()"
      "resolveRemoteControlTLS io (om_Namespace (eph_Meta eph)) rc = (Inr (tls, token), e1)"
      "pv_PushRuntimeUpdate prov \<lparr>rrc_Endpoint = rc_Endpoint rc, rrc_TLSConfig = tls, AuthToken = token\<rparr>
         (runtime_update spec cell state (fst (pending_switch cc spec))) = (err, e2)"
      "eff = e1 @ map Provider e2" "list_all (\<lambda>x. \<exists>k. x = GetSecret k) e1"
      "res = (case err of None \<Rightarrow> Inr (True, marker) | Some e \<Rightarrow> Inl (newEphemerisPushError (runtime_reason e)
                (Wrapf (Lit ''provider PushRuntimeUpdate: '' # err_msg e) [e])))"
      "cc' = (case err of None \<Rightarrow> cc\<lparr>cc_Status := (cc_Status cc)\<lparr>LastPushedSatSwitchDigest := snd (pending_switch cc spec)\<rparr>\<rparr>
                | Some _ \<Rightarrow> cc)"
proof -
  have secret: "list_all (\<lambda>x. \<exists>k. x = GetSecret k) (snd (resolveRemoteControlTLS io ns rc))" for ns
    by (auto simp: resolveRemoteControlTLS_def Let_def split: option.splits)
  show thesis
  proof (cases "Check (cio_ParseURL io) (cr_AllowedHosts R) (''https://'' @ rc_Endpoint rc)")
    case (Inl e)
    then show thesis using assms refused by (auto simp: deliver_def push_fail_def split_beta Let_def)
  next
    case (Inr u)
    obtain r e1 where r: "resolveRemoteControlTLS io (om_Namespace (eph_Meta eph)) rc = (r, e1)"
      by (cases "resolveRemoteControlTLS io (om_Namespace (eph_Meta eph)) rc")
    have s: "list_all (\<lambda>x. \<exists>k. x = GetSecret k) e1" using secret [of "om_Namespace (eph_Meta eph)"] r by simp
    show thesis
    proof (cases r)
      case (Inl e)
      then show thesis using assms refused Inr r s by (auto simp: deliver_def push_fail_def split_beta Let_def)
    next
      case (Inr p)
      obtain tls token where p: "p = (tls, token)" by (cases p)
      obtain err e2 where c: "pv_PushRuntimeUpdate prov \<lparr>rrc_Endpoint = rc_Endpoint rc, rrc_TLSConfig = tls, AuthToken = token\<rparr>
         (runtime_update spec cell state (fst (pending_switch cc spec))) = (err, e2)"
        by (metis prod.exhaust)
      show thesis using assms \<open>Check _ _ _ = Inr u\<close> r Inr p c s
        by (intro called [of tls token e1 err e2]) (auto simp: deliver_def push_fail_def split_beta Let_def split: option.splits)
    qed
  qed
qed

lemma deliver_secret:
  assumes "deliver R io cc spec eph prov rc cell state marker = (res, cc', eff)" "GetSecret k \<in> set eff"
  shows "Check (cio_ParseURL io) (cr_AllowedHosts R) (''https://'' @ rc_Endpoint rc) = Inr ()
     \<and> (\<exists>t. rc_TLS rc = Some t \<and> k = \<lparr>nn_Namespace = om_Namespace (eph_Meta eph), nn_Name = tls_SecretName t\<rparr>)"
  using assms
  by (auto simp: deliver_def push_fail_def split_beta Let_def resolveRemoteControlTLS_def split: sum.splits option.splits)

text \<open>The path of a push: an early end, the bootstrap path, or the runtime path.\<close>

lemma push_cases:
  assumes "pushEphemerisUpdateIfNeeded M R io cc spec prov = (res, cc', eff)" "EphemerisRef spec \<noteq> ''''"
  obtains (gone) e where "res = Inl e" "cc' = cc" "eff = []"
  | (bootstrap) eph u err e2 where "RemoteControl (cs_Provider spec) = None \<or> cs_CellID spec = None" "cc' = cc"
      "cio_eph io \<lparr>nn_Namespace = om_Namespace (cc_Meta cc), nn_Name = EphemerisRef spec\<rparr> = Found eph"
      "eff = [] \<and> res = Inr (False, ephemerisPushMarker eph)
       \<or> pv_PushEphemerisUpdate prov cc u = (err, e2) \<and> eff = map Provider e2 \<and> (err = None \<longrightarrow> res = Inr (True, ephemerisPushMarker eph))
         \<and> (err \<noteq> None \<longrightarrow> (\<exists>e. res = Inl e))"
  | (runtime) rc cell eph where "RemoteControl (cs_Provider spec) = Some rc" "cs_CellID spec = Some cell"
      "cio_eph io \<lparr>nn_Namespace = om_Namespace (cc_Meta cc), nn_Name = EphemerisRef spec\<rparr> = Found eph"
      "pushRuntimeEphemeris M R io cc spec eph prov rc cell = (res, cc', eff)"
proof (cases "cio_eph io \<lparr>nn_Namespace = om_Namespace (cc_Meta cc), nn_Name = EphemerisRef spec\<rparr>")
  case (Found eph)
  show thesis
  proof (cases "RemoteControl (cs_Provider spec) = None \<or> cs_CellID spec = None")
    case True
    let ?u = "case np_EphemerisOrbital (NTN spec) of Some o' \<Rightarrow> Some \<lparr>upd_ECEF = None, upd_Orbital = Some o'\<rparr>
       | None \<Rightarrow> map_option (\<lambda>e. \<lparr>upd_ECEF = Some e, upd_Orbital = None\<rparr>) (np_EphemerisECEF (NTN spec))"
    have b: "(case (RemoteControl (cs_Provider spec), cs_CellID spec) of (Some rc, Some cell) \<Rightarrow> f rc cell | _ \<Rightarrow> g) = g" for f g
      using True by (auto split: option.splits)
    note d = assms(1) [unfolded pushEphemerisUpdateIfNeeded_def push_fail_def Let_def Found get.case b]
    consider "isEphemerisPushUpToDate M cc (ephemerisPushMarker eph)" | "?u = None" | u where "?u = Some u" by fastforce
    then show thesis
    proof cases
      case 1
      then show thesis using d assms(2) bootstrap [OF True _ Found] by auto
    next
      case 2
      then show thesis using d assms(2) bootstrap [OF True _ Found] gone by (auto split: if_splits)
    next
      case (3 u)
      then show thesis using d assms(2) bootstrap [OF True _ Found, of u] gone
        by (auto split: if_splits prod.splits option.splits)
    qed
  next
    case False
    then show thesis using assms Found runtime by (auto simp: pushEphemerisUpdateIfNeeded_def Let_def)
  qed
qed (use assms gone in \<open>auto simp: pushEphemerisUpdateIfNeeded_def push_fail_def Let_def\<close>)


section \<open>The shape of a reconcile\<close>

lemma cell_reconcile_cases:
  assumes "CellReconcile M R io = (eff, res)"
  obtains (absent) "eff = []" "\<forall>cc. cio_get io \<noteq> Found cc"
  | (final) cc where "cio_get io = Found cc"
      "handleFinalizer io cc (case cr_Providers R of None \<Rightarrow> None | Some ps \<Rightarrow> ps (prov_Type (cs_Provider (cc_Spec cc)))) = Some (eff, res)"
  | (unregistered) cc reason m d where "cio_get io = Found cc" "no_provider M io cc reason m d = (eff, res)"
      "\<forall>ps. cr_Providers R = Some ps \<longrightarrow> ps (prov_Type (cs_Provider (cc_Spec cc))) = None" "handleFinalizer io cc None = None"
  | (live) cc ps p where "cio_get io = Found cc" "cr_Providers R = Some ps" "ps (prov_Type (cs_Provider (cc_Spec cc))) = Some p"
      "handleFinalizer io cc (Some p) = None" "with_provider M R io cc p = (eff, res)"
proof (cases "cio_get io")
  case (Found cc)
  let ?p = "case cr_Providers R of None \<Rightarrow> None | Some ps \<Rightarrow> ps (prov_Type (cs_Provider (cc_Spec cc)))"
  show thesis
  proof (cases "handleFinalizer io cc ?p")
    case (Some r)
    then show thesis using assms Found final by (auto simp: CellReconcile_def Let_def)
  next
    case None
    then show thesis using assms Found unregistered [OF Found] live [OF Found]
      by (cases "cr_Providers R") (auto simp: CellReconcile_def Let_def split: option.splits)
  qed
qed (use assms absent in \<open>auto simp: CellReconcile_def\<close>)

lemma with_provider_cases:
  assumes "with_provider M R io cc p = (eff, res)"
  obtains (rejected) e e1 e2 where "pv_ApplyCellConfig p cc (Some (forced_spec cc)) = (Some e, e1)"
      "apply_failed M io cc (forced_spec cc) e = (e2, res)" "eff = map Provider e1 @ e2"
  | (status) e e1 e2 where "pv_ApplyCellConfig p cc (Some (forced_spec cc)) = (None, e1)" "pv_GetCellStatus p cc = Inl e"
      "status_failed M io cc e = (e2, res)" "eff = map Provider e1 @ e2"
  | (applied) st e1 e2 where "pv_ApplyCellConfig p cc (Some (forced_spec cc)) = (None, e1)" "pv_GetCellStatus p cc = Inr st"
      "after_status M R io cc (forced_spec cc) p st = (e2, res)" "eff = map Provider e1 @ e2"
proof -
  obtain err e1 where a: "pv_ApplyCellConfig p cc (Some (forced_spec cc)) = (err, e1)"
    by (cases "pv_ApplyCellConfig p cc (Some (forced_spec cc))")
  show thesis
  proof (cases err)
    case (Some e)
    then show thesis using assms a rejected by (auto simp: with_provider_def Let_def split: prod.splits)
  next
    case None
    then show thesis using assms a status applied
      by (cases "pv_GetCellStatus p cc") (auto simp: with_provider_def Let_def split: prod.splits)
  qed
qed

text \<open>The resource after the verified apply, before the push: its conditions, and what is announced later.\<close>

definition applied_cell :: "meta_api \<Rightarrow> NTNCellConfig \<Rightarrow> NTNCellConfigSpec \<Rightarrow> NTNCellConfigStatus \<Rightarrow> NTNCellConfig" where
  "applied_cell M cc spec st = cc_set_cond M ConditionConfigApplied ConditionTrue ''Applied''
     [Lit ''NTN config applied via '', Lit (prov_Type (cs_Provider spec)), Lit '' provider'']
     (cc\<lparr>cc_Status := (cc_Status cc)\<lparr>AppliedKoffset := AppliedKoffset st, ConfigMapRef := ConfigMapRef st\<rparr>\<rparr>)"

definition announced :: "meta_api \<Rightarrow> cell_io \<Rightarrow> NTNCellConfig \<Rightarrow> NTNCellConfigSpec \<Rightarrow> NTNCellConfigStatus \<Rightarrow> cell_effect list" where
  "announced M io cc spec st =
     (let (cc3, warn, episode) = applySIB19CadenceCondition M (applied_cell M cc spec st) spec in
      (if cc_Conditions (cc_Status (applied_cell M cc spec st)) \<noteq> cc_Conditions (cc_Status cc) then emitConfigApplied io spec else [])
      @ emitSIB19CadenceWarning io warn episode)"

abbreviation cadence_cell :: "meta_api \<Rightarrow> NTNCellConfig \<Rightarrow> NTNCellConfigSpec \<Rightarrow> NTNCellConfigStatus \<Rightarrow> NTNCellConfig" where
  "cadence_cell M cc spec st \<equiv> fst (applySIB19CadenceCondition M (applied_cell M cc spec st) spec)"

lemma after_status_cases:
  assumes "after_status M R io cc spec p st = (eff, res)"
  obtains (bare) err w where "EphemerisRef spec = ''''"
      "persistStatusIfChanged io (cc_remove_cond M ConditionEphemerisPushed (cadence_cell M cc spec st)) (cc_Status cc) = (err, w)"
      "(eff, res) = finish err (apply_gauge cc 1 # DropSeries ''EphemerisPushReady'' (cc_Key cc) # w)
         (announced M io cc spec st, Inr (5 * minute))"
  | (failed) e cc4 e1 e2 where "EphemerisRef spec \<noteq> ''''"
      "pushEphemerisUpdateIfNeeded M R io (cadence_cell M cc spec st) spec p = (Inl e, cc4, e1)"
      "(e2, res) = (let reason = ephemerisPushConditionReason e;
          changed = conditionEpisodeChanged (cc_find M cc4 ConditionEphemerisPushed) ConditionFalse reason (cc_Generation cc4);
          cc1 = cc_set_cond M ConditionEphemerisPushed ConditionFalse reason (err_msg e) cc4;
          (err, w) = persistStatusIfChanged io cc1 (cc_Status cc)
        in finish err w (announced M io cc spec st
           @ [IncCounter ''EphemerisPushErrorsTotal'' (cc_Key cc4) reason, push_gauge cc4 0]
           @ (if changed \<and> cio_recorder io then [CellEvent ''Warning'' ''EphemerisPushFailed'' (err_msg e)] else []),
           Inr (if ephemerisPushShouldRequeue reason then ephemerisPushRequeueInterval reason else 0)))"
      "eff = apply_gauge cc 1 # e1 @ e2"
  | (pushed) pushed marker cc4 cc5 e1 err w where "EphemerisRef spec \<noteq> ''''"
      "pushEphemerisUpdateIfNeeded M R io (cadence_cell M cc spec st) spec p = (Inr (pushed, marker), cc4, e1)"
      "cc5 = (if pushed then cc_set_cond M ConditionEphemerisPushed ConditionTrue ''Pushed'' [Lit marker] cc4 else cc4)"
      "persistStatusIfChanged io cc5 (cc_Status cc) = (err, w)"
      "(eff, res) = finish err (apply_gauge cc 1 # e1 @ push_gauge cc 1 # w) (announced M io cc spec st, Inr (5 * minute))"
proof -
  let ?cc2 = "applied_cell M cc spec st"
  obtain cc3 warn ep where c: "applySIB19CadenceCondition M ?cc2 spec = (cc3, warn, ep)"
    by (cases "applySIB19CadenceCondition M ?cc2 spec")
  note d = assms [unfolded after_status_def Let_def, folded applied_cell_def, unfolded c prod.case]
  show thesis
  proof (cases "EphemerisRef spec = ''''")
    case True
    obtain err w where p: "persistStatusIfChanged io (cc_remove_cond M ConditionEphemerisPushed cc3) (cc_Status cc) = (err, w)"
      by (cases "persistStatusIfChanged io (cc_remove_cond M ConditionEphemerisPushed cc3) (cc_Status cc)")
    show thesis using d True p c by (intro bare [of err w]) (simp_all add: announced_def)
  next
    case False
    obtain r cc4 e1 where r: "pushEphemerisUpdateIfNeeded M R io cc3 spec p = (r, cc4, e1)"
      by (cases "pushEphemerisUpdateIfNeeded M R io cc3 spec p")
    show thesis
    proof (cases r)
      case (Inl e)
      obtain e2 r2 where p: "push_failed M io cc4 (cc_Status cc)
          (if cc_Conditions (cc_Status ?cc2) \<noteq> cc_Conditions (cc_Status cc) then emitConfigApplied io spec else [])
          (emitSIB19CadenceWarning io warn ep) e = (e2, r2)"
        by (cases "push_failed M io cc4 (cc_Status cc)
          (if cc_Conditions (cc_Status ?cc2) \<noteq> cc_Conditions (cc_Status cc) then emitConfigApplied io spec else [])
          (emitSIB19CadenceWarning io warn ep) e")
      show thesis using d False r c Inl p
        by (intro failed [of e cc4 e1 e2]) (simp_all add: push_failed_def announced_def Let_def)
    next
      case (Inr q)
      obtain b m where q: "q = (b, m)" by (cases q)
      let ?cc5 = "if b then cc_set_cond M ConditionEphemerisPushed ConditionTrue ''Pushed'' [Lit m] cc4 else cc4"
      obtain err w where p: "persistStatusIfChanged io ?cc5 (cc_Status cc) = (err, w)"
        by (cases "persistStatusIfChanged io ?cc5 (cc_Status cc)")
      show thesis using d False r c Inr p q
        by (intro pushed [of b m cc4 e1 ?cc5 err w]) (simp_all add: announced_def)
    qed
  qed
qed


text \<open>What is written around the calls of a provider: anything but such a call, a read of a Secret and the claim
  that the push is healthy.\<close>

fun routine :: "cell_effect \<Rightarrow> bool" where
  "routine (Provider x) = False"
| "routine (GetSecret k) = False"
| "routine (SetGauge s k v) = (s \<noteq> ''EphemerisPushReady'' \<or> v = 0)"
| "routine e = True"

lemma persist_routine: "persistStatusIfChanged io cc old = (err, w) \<Longrightarrow> list_all routine w"
  by (auto simp: persistStatusIfChanged_def split: if_splits)

lemma announced_events: "list_all (\<lambda>x. \<exists>t r m. x = CellEvent t r m) (announced M io cc spec st)"
  by (auto simp: announced_def emitConfigApplied_def emitSIB19CadenceWarning_def Let_def
      split: if_splits option.splits prod.splits)

lemma announced_routine: "list_all routine (announced M io cc spec st)"
  by (rule list.pred_mono_strong [OF announced_events]) auto

lemma finish_all: "finish err eff rest = (e, r) \<Longrightarrow> list_all P eff \<Longrightarrow> list_all P (fst rest) \<Longrightarrow> list_all P e"
  by (auto simp: finish_def split: option.splits)

lemma failures_routine:
  "apply_failed M io cc spec e = (eff, res) \<Longrightarrow> list_all routine eff"
  "status_failed M io cc e = (eff, res) \<Longrightarrow> list_all routine eff"
  "no_provider M io cc reason m d = (eff, res) \<Longrightarrow> list_all routine eff"
  by (auto simp: apply_failed_def status_failed_def no_provider_def persistStatusIfChanged_def Let_def finish_def
      split: if_splits option.splits)

lemma not_routine: "list_all routine l \<Longrightarrow> \<not> routine x \<Longrightarrow> x \<notin> set l"
  by (auto simp: list_all_iff)

text \<open>Anything else, in a reconcile that got past the apply, comes from the push.\<close>

lemma after_status_effects:
  assumes "after_status M R io cc spec p st = (eff, res)" "x \<in> set eff" "\<not> routine x"
  obtains r cc4 e1 where "EphemerisRef spec \<noteq> ''''"
    "pushEphemerisUpdateIfNeeded M R io (cadence_cell M cc spec st) spec p = (r, cc4, e1)"
    "x \<in> set e1 \<or> x = push_gauge cc 1 \<and> (\<exists>q. r = Inr q)"
  using assms(1)
proof (cases rule: after_status_cases)
  case (bare err w)
  have "list_all routine eff"
    by (rule finish_all [OF bare(3) [symmetric]]) (use persist_routine [OF bare(2)] announced_routine in simp_all)
  then show thesis using assms(2,3) not_routine by blast
next
  case (failed e cc4 e1 e2)
  have "list_all routine e2"
    using failed(3) announced_routine [of M io cc spec st]
    by (auto simp: Let_def finish_def persistStatusIfChanged_def split: option.splits if_splits)
  then have "x \<in> set e1" using assms(2,3) failed(4) not_routine by auto
  then show thesis using that failed(1,2) by blast
next
  case (pushed b m cc4 cc5 e1 err w)
  have "x \<in> set e1 \<or> x = push_gauge cc 1"
    using assms(2,3) pushed(5) persist_routine [OF pushed(4)] announced_routine not_routine
    by (cases err) (auto simp: finish_def)
  then show thesis using that [OF pushed(1,2)] by blast
qed

lemma cadence_same_cell: "same_cell (cadence_cell M cc spec st) cc"
proof -
  obtain cc3 w ep where "applySIB19CadenceCondition M (applied_cell M cc spec st) spec = (cc3, w, ep)"
    by (cases "applySIB19CadenceCondition M (applied_cell M cc spec st) spec")
  with cadence_same [OF this] show ?thesis by (simp add: same_cell_def applied_cell_def)
qed

lemma finalizer_cases:
  assumes "handleFinalizer io cc prov = Some (eff, res)"
  obtains (cleaning) err ceff where "om_DeletionTimestamp (cc_Meta cc) \<noteq> None" "finalizerName \<in> set (om_Finalizers (cc_Meta cc))"
      "(case prov of None \<Rightarrow> cleanup_by_ref io cc | Some p \<Rightarrow> apsnd (map Provider) (pv_Cleanup p cc)) = (err, ceff)"
      "(eff, res) = (case err of Some e \<Rightarrow> (drop_series cc @ ceff, Inl e)
         | None \<Rightarrow> (drop_series cc @ ceff @ fst (remove_finalizer io cc), snd (remove_finalizer io cc)))"
  | (cleaned) "om_DeletionTimestamp (cc_Meta cc) \<noteq> None" "finalizerName \<notin> set (om_Finalizers (cc_Meta cc))" "eff = drop_series cc"
  | (adding) "om_DeletionTimestamp (cc_Meta cc) = None" "finalizerName \<notin> set (om_Finalizers (cc_Meta cc))"
      "eff = [UpdateCell (cc\<lparr>cc_Meta := AddFinalizer finalizerName (cc_Meta cc)\<rparr>)
         (cio_update io (cc\<lparr>cc_Meta := AddFinalizer finalizerName (cc_Meta cc)\<rparr>) = None)]"
proof (cases "om_DeletionTimestamp (cc_Meta cc) = None")
  case True
  then show thesis using assms adding by (auto simp: handleFinalizer_def Let_def split: if_splits)
next
  case del: False
  show thesis
  proof (cases "finalizerName \<in> set (om_Finalizers (cc_Meta cc))")
    case False
    then show thesis using assms del cleaned by (auto simp: handleFinalizer_def)
  next
    case True
    obtain err ceff where c: "(case prov of None \<Rightarrow> cleanup_by_ref io cc | Some p \<Rightarrow> apsnd (map Provider) (pv_Cleanup p cc)) = (err, ceff)"
      by (cases "case prov of None \<Rightarrow> cleanup_by_ref io cc | Some p \<Rightarrow> apsnd (map Provider) (pv_Cleanup p cc)")
    show thesis using assms del True
      by (intro cleaning [OF del True c]) (auto simp: handleFinalizer_def c split_beta split: option.splits)
  qed
qed

lemma finalizer_none: "handleFinalizer io cc prov = None \<longleftrightarrow> om_DeletionTimestamp (cc_Meta cc) = None \<and> finalizerName \<in> set (om_Finalizers (cc_Meta cc))"
  by (auto simp: handleFinalizer_def Let_def split_beta split: option.splits)

lemma drop_series_routine [simp]: "list_all routine (drop_series cc)"
  by (simp add: drop_series_def)

lemma by_ref_routine: "list_all routine (snd (cleanup_by_ref io cc))"
  by (simp add: cleanup_by_ref_def Let_def split: get.splits)

section \<open>The contract of a provider\<close>

text \<open>A registry whose one provider is \<open>prov\<close>.\<close>

definition sole :: "NTNProvider \<Rightarrow> CellReconciler \<Rightarrow> bool" where
  "sole prov R \<longleftrightarrow> (\<forall>ps ty p. cr_Providers R = Some ps \<longrightarrow> ps ty = Some p \<longrightarrow> p = prov)"

text \<open>What the controller relies on: only a runtime push goes to the network, applying and cleaning up write
  ConfigMaps; the credential of a target goes to its endpoint only, inside TLS; a runtime push without an error has
  sent its frame; the two classes of a failed push exclude each other; without an endpoint nothing is sent.\<close>

locale ntn_provider =
  fixes prov :: NTNProvider
  assumes apply_writes: "e \<in> set (snd (pv_ApplyCellConfig prov cc s)) \<Longrightarrow> \<exists>c. e = CmWrite c"
    and update_writes: "e \<in> set (snd (pv_PushEphemerisUpdate prov cc u)) \<Longrightarrow> \<exists>c. e = CmWrite c"
    and cleanup_writes: "e \<in> set (snd (pv_Cleanup prov cc)) \<Longrightarrow> \<exists>c. e = CmWrite c"
    and runtime_wire: "e \<in> set (snd (pv_PushRuntimeUpdate prov t ru)) \<Longrightarrow> \<exists>c. e = Wire c"
    and dial_target: "Wire (Dialed url tls h) \<in> set (snd (pv_PushRuntimeUpdate prov t ru)) \<Longrightarrow>
      tls = rrc_TLSConfig t \<and> url = (if tls = None then ''ws://'' else ''wss://'') @ rrc_Endpoint t
      \<and> h = (if tls \<noteq> None \<and> AuthToken t \<noteq> '''' then Some (''Bearer '' @ AuthToken t) else None)"
    and success_sent: "fst (pv_PushRuntimeUpdate prov t ru) = None \<Longrightarrow> \<exists>f. Wire (SentFrame f) \<in> set (snd (pv_PushRuntimeUpdate prov t ru))"
    and classes: "fst (pv_PushRuntimeUpdate prov t ru) = Some er \<Longrightarrow> errors_Is er RuntimePushRejected \<Longrightarrow> \<not> errors_Is er RuntimePushRetryLater"
    and no_endpoint: "rrc_Endpoint t = '''' \<Longrightarrow> snd (pv_PushRuntimeUpdate prov t ru) = [] \<and> fst (pv_PushRuntimeUpdate prov t ru) \<noteq> None"
begin

text \<open>Network traffic of a reconcile is the one runtime push of a current state to an endpoint that is allowed.\<close>

lemma live_only:
  assumes "sole prov R" "CellReconcile M R io = (eff, res)" "x \<in> set eff" "\<not> routine x" "\<forall>c. x \<noteq> Provider (CmWrite c)"
  obtains cc st r cc4 e1 where "cio_get io = Found cc" "EphemerisRef (cc_Spec cc) \<noteq> ''''"
    "pushEphemerisUpdateIfNeeded M R io (cadence_cell M cc (forced_spec cc) st) (forced_spec cc) prov = (r, cc4, e1)"
    "x \<in> set e1 \<or> x = push_gauge cc 1 \<and> (\<exists>q. r = Inr q)"
  using assms(2)
proof (cases rule: cell_reconcile_cases)
  case absent
  then show thesis using assms(3) by simp
next
  case (final cc)
  let ?p = "case cr_Providers R of None \<Rightarrow> None | Some ps \<Rightarrow> ps (prov_Type (cs_Provider (cc_Spec cc)))"
  have p: "?p = None \<or> ?p = Some prov" using assms(1) by (cases ?p) (auto simp: sole_def split: option.splits)
  have w: "x \<notin> Provider ` set (snd (pv_Cleanup prov cc))" using assms(5) cleanup_writes by fastforce
  have d: "x \<notin> set (drop_series cc)" using assms(4) not_routine by simp
  have r: "x \<notin> set (snd (cleanup_by_ref io cc))" using assms(4) not_routine by_ref_routine by blast
  from final(2) show thesis
  proof (cases rule: finalizer_cases)
    case (cleaning err ceff)
    have "x \<notin> set ceff" using cleaning(3) p w r by (cases "pv_Cleanup prov cc") (auto split: option.splits)
    then show thesis using cleaning(4) d assms(3,4) by (auto simp: remove_finalizer_def Let_def split: option.splits)
  qed (use d assms(3,4) in auto)
next
  case (unregistered cc reason m d)
  then show thesis using failures_routine(3) not_routine assms(3,4) by blast
next
  case (live cc ps p)
  have p: "p = prov" using assms(1) live(2,3) by (simp add: sole_def)
  have here: "x \<in> set e2" if "eff = map Provider e1 @ e2" "snd (pv_ApplyCellConfig p cc (Some (forced_spec cc))) = e1" for e1 e2
    using that assms(3,5) apply_writes [of _ cc "Some (forced_spec cc)"] p by fastforce
  show thesis using live(5)
  proof (cases rule: with_provider_cases)
    case (rejected e e1 e2)
    have "x \<in> set e2" using here [of e1 e2] rejected(1,3) by simp
    then show thesis using not_routine [OF failures_routine(1) [OF rejected(2)] assms(4)] by blast
  next
    case (status e e1 e2)
    have "x \<in> set e2" using here [of e1 e2] status(1,4) by simp
    then show thesis using not_routine [OF failures_routine(2) [OF status(3)] assms(4)] by blast
  next
    case (applied st e1 e2)
    have "x \<in> set e2" using here [of e1 e2] applied(1,4) by simp
    then show thesis
      by (rule after_status_effects [OF applied(3) _ assms(4)]) (use that [OF live(1)] p in simp)
  qed
qed

lemma push_runtime:
  assumes "pushEphemerisUpdateIfNeeded M R io cc3 (forced_spec cc) prov = (r, cc4, e1)" "same_cell cc3 cc"
    "EphemerisRef (cc_Spec cc) \<noteq> ''''" "x \<in> set e1" "\<forall>c. x \<noteq> Provider (CmWrite c)" "\<forall>k. x \<noteq> GetSecret k"
  obtains rc cell eph state tls token where "may_push R io cc rc cell eph state"
    "Check (cio_ParseURL io) (cr_AllowedHosts R) (''https://'' @ rc_Endpoint rc) = Inr ()"
    "fst (resolveRemoteControlTLS io (om_Namespace (eph_Meta eph)) rc) = Inr (tls, token)"
    "\<exists>c. x = Provider c \<and> c \<in> set (snd (pv_PushRuntimeUpdate prov \<lparr>rrc_Endpoint = rc_Endpoint rc, rrc_TLSConfig = tls, AuthToken = token\<rparr>
         (runtime_update (cc_Spec cc) cell state (fst (pending_switch cc (cc_Spec cc))))))"
proof -
  have same: "cc_Meta cc3 = cc_Meta cc" "pending_switch cc3 (forced_spec cc) = pending_switch cc (cc_Spec cc)"
    using assms(2) by (auto simp: same_cell_def pending_switch_def split: option.splits)
  have ru: "runtime_update (forced_spec cc) cell state sw = runtime_update (cc_Spec cc) cell state sw" for cell state sw
    by (simp add: runtime_update_def effectiveUlSyncValidityDurSeconds_def)
  have ref: "EphemerisRef (forced_spec cc) \<noteq> ''''" using assms(3) by simp
  from assms(1) ref show thesis
  proof (cases rule: push_cases)
    case (bootstrap eph u err e2)
    then show thesis using assms(4,5) update_writes [of _ cc3 u] by fastforce
  next
    case (runtime rc cell eph)
    from runtime(4) show thesis
    proof (cases rule: runtime_cases)
      case (deliver state)
      have m: "may_push R io cc rc cell eph state"
        using runtime(1-3) deliver same by (simp add: may_push_def)
      from deliver(5) show thesis
      proof (cases rule: deliver_cases)
        case (called tls token e1' err e2)
        have "\<exists>c. x = Provider c \<and> c \<in> set e2" using called(4,5) assms(4,6) by (auto simp: list_all_iff)
        then show thesis using that [OF m called(1)] called(2,3) same ru by (metis fst_conv snd_conv)
      qed (use assms(4,6) in \<open>auto simp: list_all_iff\<close>)
    qed (use assms(4) in simp_all)
  qed (use assms(4) in simp_all)
qed


lemma network_use:
  assumes "sole prov R" "CellReconcile M R io = (eff, res)" "Provider (Wire x) \<in> set eff"
  obtains cc rc cell eph state tls token where "cio_get io = Found cc" "may_push R io cc rc cell eph state"
    "Check (cio_ParseURL io) (cr_AllowedHosts R) (''https://'' @ rc_Endpoint rc) = Inr ()"
    "fst (resolveRemoteControlTLS io (om_Namespace (eph_Meta eph)) rc) = Inr (tls, token)"
    "Wire x \<in> set (snd (pv_PushRuntimeUpdate prov \<lparr>rrc_Endpoint = rc_Endpoint rc, rrc_TLSConfig = tls, AuthToken = token\<rparr>
         (runtime_update (cc_Spec cc) cell state (fst (pending_switch cc (cc_Spec cc))))))"
proof -
  have nr: "\<not> routine (Provider (Wire x))" "\<forall>c. Provider (Wire x) \<noteq> Provider (CmWrite c)" by simp_all
  obtain cc st r cc4 e1 where l: "cio_get io = Found cc" "EphemerisRef (cc_Spec cc) \<noteq> ''''"
    "pushEphemerisUpdateIfNeeded M R io (cadence_cell M cc (forced_spec cc) st) (forced_spec cc) prov = (r, cc4, e1)"
    "Provider (Wire x) \<in> set e1 \<or> Provider (Wire x) = push_gauge cc 1 \<and> (\<exists>q. r = Inr q)"
    by (rule live_only [OF assms nr])
  then have "Provider (Wire x) \<in> set e1" by simp
  then show thesis
    by (rule push_runtime [OF l(3) cadence_same_cell l(2)]) (use that [OF l(1)] in auto)
qed

lemma ready_means_current:
  assumes "sole prov R" "CellReconcile M R io = (eff, res)" "cio_get io = Found cc" "push_gauge cc 1 \<in> set eff"
    "RemoteControl (cs_Provider (cc_Spec cc)) = Some rc" "cs_CellID (cc_Spec cc) = Some cell"
  shows "\<exists>eph state. may_push R io cc rc cell eph state"
proof -
  have nr: "\<not> routine (push_gauge cc 1)" "\<forall>c. push_gauge cc 1 \<noteq> Provider (CmWrite c)" by simp_all
  obtain st r cc4 e1 where l: "EphemerisRef (cc_Spec cc) \<noteq> ''''"
    "pushEphemerisUpdateIfNeeded M R io (cadence_cell M cc (forced_spec cc) st) (forced_spec cc) prov = (r, cc4, e1)"
    "push_gauge cc 1 \<in> set e1 \<or> (\<exists>q. r = Inr q)"
    using live_only [OF assms(1,2,4) nr] assms(3) by (metis get.inject)
  let ?cc3 = "cadence_cell M cc (forced_spec cc) st"
  have s: "cc_Meta ?cc3 = cc_Meta cc" using cadence_same_cell by (simp add: same_cell_def)
  have ref: "EphemerisRef (forced_spec cc) \<noteq> ''''" using l(1) by simp
  from l(2) ref show ?thesis
  proof (cases rule: push_cases)
    case (gone e)
    then show ?thesis using l(3) by simp
  next
    case (bootstrap eph u err e2)
    then show ?thesis using assms(5,6) by simp
  next
    case (runtime rc' cell' eph)
    then have rc: "rc' = rc" "cell' = cell" using assms(5,6) by simp_all
    from runtime(4) show ?thesis
    proof (cases rule: runtime_cases)
      case (gate e)
      then show ?thesis using l(3) by simp
    next
      case (current state)
      then show ?thesis using runtime(3) s assms(5,6) by (auto simp: may_push_def)
    next
      case (deliver state)
      then show ?thesis using runtime(3) s assms(5,6) by (auto simp: may_push_def)
    qed
  qed
qed

end


text \<open>A Secret is read only for an endpoint that is allowed, and only the one that the resource names.\<close>

context ntn_provider
begin

lemma secret_read:
  assumes "sole prov R" "CellReconcile M R io = (eff, res)" "GetSecret k \<in> set eff"
  obtains cc rc eph t where "cio_get io = Found cc" "RemoteControl (cs_Provider (cc_Spec cc)) = Some rc"
    "cio_eph io \<lparr>nn_Namespace = om_Namespace (cc_Meta cc), nn_Name = EphemerisRef (cc_Spec cc)\<rparr> = Found eph"
    "Check (cio_ParseURL io) (cr_AllowedHosts R) (''https://'' @ rc_Endpoint rc) = Inr ()"
    "rc_TLS rc = Some t" "k = \<lparr>nn_Namespace = om_Namespace (eph_Meta eph), nn_Name = tls_SecretName t\<rparr>"
proof -
  have nr: "\<not> routine (GetSecret k)" "\<forall>c. GetSecret k \<noteq> Provider (CmWrite c)" by simp_all
  obtain cc st r cc4 e1 where l: "cio_get io = Found cc" "EphemerisRef (cc_Spec cc) \<noteq> ''''"
    "pushEphemerisUpdateIfNeeded M R io (cadence_cell M cc (forced_spec cc) st) (forced_spec cc) prov = (r, cc4, e1)"
    "GetSecret k \<in> set e1 \<or> GetSecret k = push_gauge cc 1 \<and> (\<exists>q. r = Inr q)"
    by (rule live_only [OF assms nr])
  then have k: "GetSecret k \<in> set e1" by simp
  let ?cc3 = "cadence_cell M cc (forced_spec cc) st"
  have s: "cc_Meta ?cc3 = cc_Meta cc" using cadence_same_cell by (simp add: same_cell_def)
  have ref: "EphemerisRef (forced_spec cc) \<noteq> ''''" using l(2) by simp
  from l(3) ref show thesis
  proof (cases rule: push_cases)
    case (runtime rc cell eph)
    from runtime(4) show thesis
    proof (cases rule: runtime_cases)
      case (deliver state)
      from deliver_secret [OF deliver(5) k] show thesis using runtime(1-3) s that [OF l(1)] by auto
    qed (use k in simp_all)
  qed (use k in auto)
qed

end

section \<open>The OCUDU provider meets the contract\<close>

lemma ocudu_simps [simp]:
  "pv_ApplyCellConfig (ocudu_provider oio w) cc s = apsnd (map CmWrite) (ApplyCellConfig oio cc s)"
  "pv_GetCellStatus (ocudu_provider oio w) cc = GetCellStatus oio cc"
  "pv_PushEphemerisUpdate (ocudu_provider oio w) cc u = apsnd (map CmWrite) (PushEphemerisUpdate oio cc u)"
  "pv_PushRuntimeUpdate (ocudu_provider oio w) t ru = apsnd (map Wire) (PushRuntimeUpdate w t ru)"
  "pv_Cleanup (ocudu_provider oio w) cc = apsnd (map CmWrite) (Cleanup oio cc)"
  by (simp_all add: ocudu_provider_def)

lemma push_no_endpoint: "rrc_Endpoint t = '''' \<Longrightarrow> PushRuntimeUpdate w t ru = (Some ErrRuntimeUnsupported, [])"
  by (simp add: PushRuntimeUpdate_def)

interpretation ocudu: ntn_provider "ocudu_provider oio w" for oio w
proof unfold_locales
  fix t ru er
  assume e: "fst (pv_PushRuntimeUpdate (ocudu_provider oio w) t ru) = Some er" "errors_Is er RuntimePushRejected"
  then have "\<not> (errors_Is er RuntimePushRetryLater)"
    by (auto simp: PushRuntimeUpdate_def sentinel_simps split_beta Let_def split: if_splits sum.splits option.splits wsRetryPolicy.splits)
  then show "\<not> errors_Is er RuntimePushRetryLater" .
next
  fix t ru
  assume "fst (pv_PushRuntimeUpdate (ocudu_provider oio w) t ru) = None"
  then show "\<exists>f. Wire (SentFrame f) \<in> set (snd (pv_PushRuntimeUpdate (ocudu_provider oio w) t ru))"
    using push_outcome(1) [of w t ru None]
    by (cases "PushRuntimeUpdate w t ru"; cases "rrc_Endpoint t = ''''") (auto simp: delivered_def PushRuntimeUpdate_def)
next
  fix url tls h t ru
  assume "Wire (Dialed url tls h) \<in> set (snd (pv_PushRuntimeUpdate (ocudu_provider oio w) t ru))"
  then have "Dialed url tls h \<in> set (snd (PushRuntimeUpdate w t ru))" by auto
  then show "tls = rrc_TLSConfig t \<and> url = (if tls = None then ''ws://'' else ''wss://'') @ rrc_Endpoint t
      \<and> h = (if tls \<noteq> None \<and> AuthToken t \<noteq> '''' then Some (''Bearer '' @ AuthToken t) else None)" by (rule push_token)
qed (auto simp: push_no_endpoint)

text \<open>The reconciler as \<open>cmd/main.go\<close> wires it.\<close>

definition ocudu_reconciler :: "ocudu_io \<Rightarrow> ws_io \<Rightarrow> string \<Rightarrow> CellReconciler" where
  "ocudu_reconciler oio w remoteControlAllowedHosts =
     \<lparr>cr_Providers = Some [''ocudu'' \<mapsto> ocudu_provider oio w], cr_AllowedHosts = ParseEndpointAllowlist remoteControlAllowedHosts\<rparr>"

lemma sole_ocudu: "sole (ocudu_provider oio w) (ocudu_reconciler oio w flag)"
  by (simp add: sole_def ocudu_reconciler_def)

end
