(* ===== verification/Cell_Laws.thy ===== *)
theory Cell_Laws
  imports Cell_Contract
begin

text \<open>
  Theorems on the NTNCellConfig controller, as \<open>cmd/main.go\<close> wires it with the OCUDU provider: where credentials go,
  what a live cell is told, what a failure reveals, how often a satellite switch is sent, and the order of cleanup,
  status and events.
\<close>

section \<open>Credentials\<close>

text \<open>A read by key returns the object of that key.\<close>

definition named_reads :: "cell_io \<Rightarrow> bool" where
  "named_reads io \<longleftrightarrow> (\<forall>k eph. cio_eph io k = Found eph \<longrightarrow> ObjectKeyFromObject (eph_Meta eph) = k)"

lemma named_namespace: "named_reads io \<Longrightarrow> cio_eph io \<lparr>nn_Namespace = ns, nn_Name = n\<rparr> = Found eph \<Longrightarrow> om_Namespace (eph_Meta eph) = ns"
  by (force simp: named_reads_def ObjectKeyFromObject_def)

text \<open>A Secret whose token may be used for a gNB: not a credential of the Kubernetes API, opted in by its owner,
  with the authority that is to be trusted.\<close>

definition usable_secret :: "cell_io \<Rightarrow> Secret \<Rightarrow> string \<Rightarrow> string \<Rightarrow> bool" where
  "usable_secret io secret token ca \<longleftrightarrow>
     sec_Type secret \<notin> {SecretTypeServiceAccountToken, secretTypeBootstrapToken}
     \<and> sec_Labels secret remoteControlCredentialLabel = Some ''true''
     \<and> sec_Data secret ''token'' = Some token \<and> token \<noteq> '''' \<and> length token \<le> maxRemoteControlTokenBytes
     \<and> cio_ValidHeader io (''Bearer '' @ token)
     \<and> sec_Data secret ''ca.crt'' = Some ca \<and> ca \<noteq> '''' \<and> cio_AppendCertsFromPEM io ca"

lemma key_present: "key_or_empty m k \<noteq> '''' \<Longrightarrow> m k = Some (key_or_empty m k)"
  by (simp add: key_or_empty_def split: option.splits)

lemma secret_token:
  assumes "tls_of_secret io rc t secret = Inr (cfg, token)"
  shows "MinVersion cfg = 771 \<and> (token \<noteq> '''' \<longrightarrow> (\<exists>ca. usable_secret io secret token ca \<and> RootCAs cfg = Some ca))"
proof -
  let ?ca = "key_or_empty (sec_Data secret) ''ca.crt''"
  have "token = key_or_empty (sec_Data secret) ''token'' \<and> MinVersion cfg = 771 \<and> RootCAs cfg = (if ?ca = '''' then None else Some ?ca)
     \<and> sec_Type secret \<noteq> SecretTypeServiceAccountToken \<and> sec_Type secret \<noteq> secretTypeBootstrapToken
     \<and> key_or_empty (sec_Labels secret) remoteControlCredentialLabel = ''true''
     \<and> (?ca \<noteq> '''' \<longrightarrow> cio_AppendCertsFromPEM io ?ca) \<and> (?ca = '''' \<longrightarrow> token = '''')
     \<and> (token \<noteq> '''' \<longrightarrow> length token \<le> maxRemoteControlTokenBytes \<and> cio_ValidHeader io (''Bearer '' @ token))"
    using assms unfolding tls_of_secret_def Let_def by (simp split: if_split_asm option.split_asm; clarsimp)
  moreover have "sec_Labels secret remoteControlCredentialLabel = Some ''true''"
    if "key_or_empty (sec_Labels secret) remoteControlCredentialLabel = ''true''"
    using that key_present [of "sec_Labels secret"] by simp
  ultimately show ?thesis using key_present [of "sec_Data secret"] by (auto simp: usable_secret_def)
qed

lemma resolved_token:
  assumes "fst (resolveRemoteControlTLS io ns rc) = Inr (tls, token)"
  shows "(tls = None \<longleftrightarrow> rc_TLS rc = None) \<and> (token \<noteq> '''' \<longrightarrow> (\<exists>t secret cfg ca. rc_TLS rc = Some t \<and> tls = Some cfg
     \<and> cio_secret io \<lparr>nn_Namespace = ns, nn_Name = tls_SecretName t\<rparr> = Found secret \<and> usable_secret io secret token ca
     \<and> RootCAs cfg = Some ca \<and> MinVersion cfg = 771))"
  using assms
  by (auto simp: resolveRemoteControlTLS_def Let_def dest: secret_token split: option.splits get.splits sum.splits)

text \<open>C7: The operator's credentials go nowhere else. A connection is only ever dialled to the endpoint of the
  resource, and only when its host is on the operator's allow-list; TLS is used iff the resource asks for it; and a
  bearer token is sent only over TLS 1.2 or later, to a server that the authority pinned in the same Secret vouches
  for, and it is the token of the Secret that the resource names in its own namespace, which its owner has opted in
  and which is no credential of the Kubernetes API. No Secret at all is read for an endpoint that is not allowed.\<close>

theorem credential_confined:
  assumes "CellReconcile M (ocudu_reconciler oio w flag) io = (eff, res)" "named_reads io"
  shows "(\<forall>url tls h. Provider (Wire (Dialed url tls h)) \<in> set eff \<longrightarrow>
       (\<exists>cc rc. cio_get io = Found cc \<and> RemoteControl (cs_Provider (cc_Spec cc)) = Some rc
          \<and> Check (cio_ParseURL io) (ParseEndpointAllowlist flag) (''https://'' @ rc_Endpoint rc) = Inr ()
          \<and> url = (if tls = None then ''ws://'' else ''wss://'') @ rc_Endpoint rc \<and> (tls = None \<longleftrightarrow> rc_TLS rc = None)
          \<and> (\<forall>v. h = Some v \<longrightarrow> (\<exists>t secret token cfg ca. rc_TLS rc = Some t \<and> tls = Some cfg \<and> v = ''Bearer '' @ token
               \<and> cio_secret io \<lparr>nn_Namespace = om_Namespace (cc_Meta cc), nn_Name = tls_SecretName t\<rparr> = Found secret
               \<and> usable_secret io secret token ca \<and> RootCAs cfg = Some ca \<and> MinVersion cfg = 771))))
     \<and> (\<forall>k. GetSecret k \<in> set eff \<longrightarrow>
       (\<exists>cc rc t. cio_get io = Found cc \<and> RemoteControl (cs_Provider (cc_Spec cc)) = Some rc \<and> rc_TLS rc = Some t
          \<and> Check (cio_ParseURL io) (ParseEndpointAllowlist flag) (''https://'' @ rc_Endpoint rc) = Inr ()
          \<and> k = \<lparr>nn_Namespace = om_Namespace (cc_Meta cc), nn_Name = tls_SecretName t\<rparr>))"
proof (intro conjI allI impI)
  fix url tls h
  assume "Provider (Wire (Dialed url tls h)) \<in> set eff"
  from ocudu.network_use [OF sole_ocudu assms(1) this]
  obtain cc rc cell eph state tls' token where n: "cio_get io = Found cc" "may_push (ocudu_reconciler oio w flag) io cc rc cell eph state"
    "Check (cio_ParseURL io) (cr_AllowedHosts (ocudu_reconciler oio w flag)) (''https://'' @ rc_Endpoint rc) = Inr ()"
    "fst (resolveRemoteControlTLS io (om_Namespace (eph_Meta eph)) rc) = Inr (tls', token)"
    "Wire (Dialed url tls h) \<in> set (snd (pv_PushRuntimeUpdate (ocudu_provider oio w)
       \<lparr>rrc_Endpoint = rc_Endpoint rc, rrc_TLSConfig = tls', AuthToken = token\<rparr>
       (runtime_update (cc_Spec cc) cell state (fst (pending_switch cc (cc_Spec cc))))))" by blast
  have ns: "om_Namespace (eph_Meta eph) = om_Namespace (cc_Meta cc)" "RemoteControl (cs_Provider (cc_Spec cc)) = Some rc"
    using n(2) named_namespace [OF assms(2)] by (auto simp: may_push_def)
  note d = ocudu.dial_target [OF n(5)] and r = resolved_token [OF n(4), unfolded ns]
  show "\<exists>cc rc. cio_get io = Found cc \<and> RemoteControl (cs_Provider (cc_Spec cc)) = Some rc
          \<and> Check (cio_ParseURL io) (ParseEndpointAllowlist flag) (''https://'' @ rc_Endpoint rc) = Inr ()
          \<and> url = (if tls = None then ''ws://'' else ''wss://'') @ rc_Endpoint rc \<and> (tls = None \<longleftrightarrow> rc_TLS rc = None)
          \<and> (\<forall>v. h = Some v \<longrightarrow> (\<exists>t secret token cfg ca. rc_TLS rc = Some t \<and> tls = Some cfg \<and> v = ''Bearer '' @ token
               \<and> cio_secret io \<lparr>nn_Namespace = om_Namespace (cc_Meta cc), nn_Name = tls_SecretName t\<rparr> = Found secret
               \<and> usable_secret io secret token ca \<and> RootCAs cfg = Some ca \<and> MinVersion cfg = 771))"
    using n(1,3) ns(2) d r by (intro exI [of _ cc] exI [of _ rc]) (auto simp: ocudu_reconciler_def split: if_splits)
next
  fix k
  assume "GetSecret k \<in> set eff"
  then obtain cc rc eph t where "cio_get io = Found cc" "RemoteControl (cs_Provider (cc_Spec cc)) = Some rc"
    and e: "cio_eph io \<lparr>nn_Namespace = om_Namespace (cc_Meta cc), nn_Name = EphemerisRef (cc_Spec cc)\<rparr> = Found eph"
    and "Check (cio_ParseURL io) (cr_AllowedHosts (ocudu_reconciler oio w flag)) (''https://'' @ rc_Endpoint rc) = Inr ()"
    "rc_TLS rc = Some t" "k = \<lparr>nn_Namespace = om_Namespace (eph_Meta eph), nn_Name = tls_SecretName t\<rparr>"
    by (rule ocudu.secret_read [OF sole_ocudu assms(1)])
  then show "\<exists>cc rc t. cio_get io = Found cc \<and> RemoteControl (cs_Provider (cc_Spec cc)) = Some rc \<and> rc_TLS rc = Some t
          \<and> Check (cio_ParseURL io) (ParseEndpointAllowlist flag) (''https://'' @ rc_Endpoint rc) = Inr ()
          \<and> k = \<lparr>nn_Namespace = om_Namespace (cc_Meta cc), nn_Name = tls_SecretName t\<rparr>"
    using named_namespace [OF assms(2) e] by (auto simp: ocudu_reconciler_def)
qed


section \<open>Currency\<close>

lemma may_push_unique: "may_push R io cc rc cell eph state \<Longrightarrow> may_push R' io cc rc' cell' eph' state'
    \<Longrightarrow> rc = rc' \<and> cell = cell' \<and> eph = eph' \<and> state = state'"
  by (auto simp: may_push_def)

lemma sent_frame:
  assumes "Wire (SentFrame p) \<in> set (snd (pv_PushRuntimeUpdate (ocudu_provider oio w) t u))"
  shows "\<exists>env. buildNTNConfigUpdate u = Inr env \<and> marshal_envelope env = Some p"
proof -
  have "SentFrame p \<in> set (snd (PushRuntimeUpdate w t u))" using assms by auto
  then show ?thesis
    by (auto simp: PushRuntimeUpdate_def pushNTNConfigUpdate_def Let_def split: if_splits sum.splits option.splits)
qed

text \<open>A propagated state that a gNB may be given at the moment of the reconcile.\<close>

definition current_state :: "cell_io \<Rightarrow> NTNCellConfig \<Rightarrow> SatelliteEphemeris \<Rightarrow> PropagatedState \<Rightarrow> bool" where
  "current_state io cc eph state \<longleftrightarrow>
     cio_eph io \<lparr>nn_Namespace = om_Namespace (cc_Meta cc), nn_Name = EphemerisRef (cc_Spec cc)\<rparr> = Found eph
     \<and> PropagatedStatesInputHash (eph_Status eph) = propagationInputHash (cio_IsPrint io) (eph_Spec eph)
     \<and> state \<in> set (PropagatedStates (eph_Status eph))
     \<and> (case EphemerisNoradID (cc_Spec cc) of
          Some n \<Rightarrow> prop_NoradID state = n
        | None \<Rightarrow> \<forall>s\<in>set (PropagatedStates (eph_Status eph)). prop_NoradID s = prop_NoradID state)
     \<and> (time_Add (cio_now_skew io) (10 * second) - unix_epoch) div 1000000 < EpochUnixMs state
     \<and> sourceEpochPlausible (cio_now io) (UnixMilli (SourceEpochUnixMs state)) = Inr ()
     \<and> sourceEpochFresh (cio_now io) (UnixMilli (SourceEpochUnixMs state)) = Inr ()"

lemma unique_norad:
  assumes "uniquePropagatedNorads states \<le> 1" "s \<in> set states" "t \<in> set states"
  shows "prop_NoradID s = prop_NoradID t"
proof -
  have "card (prop_NoradID ` set states) \<le> Suc 0" using assms(1) by (simp add: uniquePropagatedNorads_def length_remdups_card_conv)
  then have u: "\<forall>a\<in>prop_NoradID ` set states. \<forall>b\<in>prop_NoradID ` set states. a = b"
    by (rule iffD1 [OF card_le_Suc0_iff_eq, rotated]) simp
  show ?thesis by (rule u [rule_format, OF imageI [OF assms(2)] imageI [OF assms(3)]])
qed

lemma may_push_current:
  assumes "may_push R io cc rc cell eph state"
  shows "current_state io cc eph state"
proof -
  let ?states = "PropagatedStates (eph_Status eph)"
  have sel: "selectPropagatedState ?states (EphemerisNoradID (cc_Spec cc)) = Some state"
    and one: "EphemerisNoradID (cc_Spec cc) = None \<Longrightarrow> uniquePropagatedNorads ?states \<le> 1"
    and gate: "currency_gate io eph state = None" using assms by (auto simp: may_push_def)
  have mem: "state \<in> set ?states" "EphemerisNoradID (cc_Spec cc) = Some n \<Longrightarrow> prop_NoradID state = n" for n
    using sel by (auto simp: selectPropagatedState_def find_Some_iff split: list.splits option.splits if_splits)
  have "case EphemerisNoradID (cc_Spec cc) of Some n \<Rightarrow> prop_NoradID state = n
        | None \<Rightarrow> \<forall>s\<in>set ?states. prop_NoradID s = prop_NoradID state"
  proof (cases "EphemerisNoradID (cc_Spec cc)")
    case None
    have "\<forall>s\<in>set ?states. prop_NoradID s = prop_NoradID state" using unique_norad [OF one [OF None] _ mem(1)] by blast
    with None show ?thesis by (simp only: option.case)
  qed (use mem(2) in simp)
  then show ?thesis using assms mem(1) gate
    by (auto simp: current_state_def may_push_def currency_gate_def epochSkewMargin_def Let_def split: if_splits sum.splits)
qed

text \<open>C5: A live cell is only ever told, and only ever reported as told, where its satellite is now. When a reconcile of
  a resource with a remote control sends a frame, or sets \<open>EphemerisPushReady\<close> to 1 (also when nothing had to be
  sent, because the same state was delivered before), the referenced ephemeris holds a state of the one satellite that
  the resource selects, computed under the current inputs of that ephemeris, whose epoch is more than ten seconds ahead
  and whose source elements are plausible and fresh by the clock of this very reconcile; and every frame sent is the
  encoding of that state.\<close>

theorem pushed_state_current:
  assumes "CellReconcile M (ocudu_reconciler oio w flag) io = (eff, res)" "cio_get io = Found cc"
    "RemoteControl (cs_Provider (cc_Spec cc)) = Some rc" "cs_CellID (cc_Spec cc) = Some cell"
    "push_gauge cc 1 \<in> set eff \<or> (\<exists>p. Provider (Wire (SentFrame p)) \<in> set eff)"
  shows "\<exists>eph state. current_state io cc eph state
     \<and> (\<forall>p. Provider (Wire (SentFrame p)) \<in> set eff \<longrightarrow>
          (\<exists>sw env. sw \<in> {None, np_SatSwitchWithResync (NTN (cc_Spec cc))}
             \<and> buildNTNConfigUpdate (runtime_update (cc_Spec cc) cell state sw) = Inr env \<and> marshal_envelope env = Some p))"
proof -
  let ?R = "ocudu_reconciler oio w flag" and ?sw = "fst (pending_switch cc (cc_Spec cc))"
  have frame: "\<exists>rc' cell' eph' state'. may_push ?R io cc rc' cell' eph' state'
      \<and> (\<exists>env. buildNTNConfigUpdate (runtime_update (cc_Spec cc) cell' state' ?sw) = Inr env \<and> marshal_envelope env = Some p)"
    if p: "Provider (Wire (SentFrame p)) \<in> set eff" for p
  proof (rule ocudu.network_use [OF sole_ocudu assms(1) p])
    fix cc' rc' cell' eph' state' tls token
    assume a: "cio_get io = Found cc'" "may_push ?R io cc' rc' cell' eph' state'"
      "Wire (SentFrame p) \<in> set (snd (pv_PushRuntimeUpdate (ocudu_provider oio w)
         \<lparr>rrc_Endpoint = rc_Endpoint rc', rrc_TLSConfig = tls, AuthToken = token\<rparr>
         (runtime_update (cc_Spec cc') cell' state' (fst (pending_switch cc' (cc_Spec cc'))))))"
    have "cc' = cc" using a(1) assms(2) by simp
    with a(2) sent_frame [OF a(3)] show ?thesis by blast
  qed
  obtain rc' cell' eph state where m: "may_push ?R io cc rc' cell' eph state"
    using assms(5) frame ocudu.ready_means_current [OF sole_ocudu assms(1,2) _ assms(3,4)] by blast
  have c: "cell' = cell" using m assms(4) by (simp add: may_push_def)
  have sw: "?sw \<in> {None, np_SatSwitchWithResync (NTN (cc_Spec cc))}"
    by (auto simp: pending_switch_def Let_def split: option.splits)
  have "\<exists>env. buildNTNConfigUpdate (runtime_update (cc_Spec cc) cell state ?sw) = Inr env \<and> marshal_envelope env = Some p"
    if p: "Provider (Wire (SentFrame p)) \<in> set eff" for p
  proof -
    obtain rc2 cell2 eph2 state2 where f: "may_push ?R io cc rc2 cell2 eph2 state2"
      "\<exists>env. buildNTNConfigUpdate (runtime_update (cc_Spec cc) cell2 state2 ?sw) = Inr env \<and> marshal_envelope env = Some p"
      using frame [OF p] by blast
    with may_push_unique [OF m f(1)] c show ?thesis by simp
  qed
  then have "\<exists>sw env. sw \<in> {None, np_SatSwitchWithResync (NTN (cc_Spec cc))}
      \<and> buildNTNConfigUpdate (runtime_update (cc_Spec cc) cell state sw) = Inr env \<and> marshal_envelope env = Some p"
    if "Provider (Wire (SentFrame p)) \<in> set eff" for p using that sw by meson
  then show ?thesis by (intro exI [of _ eph] exI [of _ state] conjI may_push_current [OF m] allI impI)
qed


section \<open>Failures do not reveal Secrets\<close>

text \<open>The same moment with other Secrets in the cluster, and other answers of the checks on their bytes.\<close>

definition with_secrets :: "(NamespacedName \<Rightarrow> Secret get) \<Rightarrow> (string \<Rightarrow> bool) \<Rightarrow> (string \<Rightarrow> string \<Rightarrow> gerror option) \<Rightarrow> (string \<Rightarrow> bool)
    \<Rightarrow> cell_io \<Rightarrow> cell_io" where
  "with_secrets sec pem pair hdr io =
     io\<lparr>cio_secret := sec, cio_AppendCertsFromPEM := pem, cio_X509KeyPair := pair, cio_ValidHeader := hdr\<rparr>"

lemma with_secrets_fields [simp]:
  "cio_get (with_secrets sec pem pair hdr io) = cio_get io" "cio_eph (with_secrets sec pem pair hdr io) = cio_eph io"
  "cio_recorder (with_secrets sec pem pair hdr io) = cio_recorder io" "cio_IsPrint (with_secrets sec pem pair hdr io) = cio_IsPrint io"
  "cio_ParseURL (with_secrets sec pem pair hdr io) = cio_ParseURL io" "cio_pointer (with_secrets sec pem pair hdr io) = cio_pointer io"
  "cio_write (with_secrets sec pem pair hdr io) = cio_write io" "cio_update (with_secrets sec pem pair hdr io) = cio_update io"
  "cio_cm (with_secrets sec pem pair hdr io) = cio_cm io" "cio_delete (with_secrets sec pem pair hdr io) = cio_delete io"
  "cio_IsControlledBy (with_secrets sec pem pair hdr io) = cio_IsControlledBy io"
  "cio_now (with_secrets sec pem pair hdr io) = cio_now io" "cio_now_skew (with_secrets sec pem pair hdr io) = cio_now_skew io"
  by (simp_all add: with_secrets_def)

lemma with_secrets_cleanup [simp]:
  "remove_finalizer (with_secrets sec pem pair hdr io) = remove_finalizer io"
  "cleanup_by_ref (with_secrets sec pem pair hdr io) = cleanup_by_ref io"
  unfolding fun_eq_iff remove_finalizer_def cleanup_by_ref_def with_secrets_fields by simp_all

lemma with_secrets_ops [simp]:
  "persistStatusIfChanged (with_secrets sec pem pair hdr io) = persistStatusIfChanged io"
  "handleFinalizer (with_secrets sec pem pair hdr io) = handleFinalizer io"
  "currency_gate (with_secrets sec pem pair hdr io) = currency_gate io"
  "emitConfigApplied (with_secrets sec pem pair hdr io) = emitConfigApplied io"
  "emitSIB19CadenceWarning (with_secrets sec pem pair hdr io) = emitSIB19CadenceWarning io"
  unfolding fun_eq_iff persistStatusIfChanged_def handleFinalizer_def currency_gate_def emitConfigApplied_def
    emitSIB19CadenceWarning_def with_secrets_fields with_secrets_cleanup by simp_all

lemma with_secrets_branches [simp]:
  "no_provider M (with_secrets sec pem pair hdr io) = no_provider M io"
  "apply_failed M (with_secrets sec pem pair hdr io) = apply_failed M io"
  "status_failed M (with_secrets sec pem pair hdr io) = status_failed M io"
  "push_failed M (with_secrets sec pem pair hdr io) = push_failed M io"
  unfolding fun_eq_iff no_provider_def apply_failed_def status_failed_def push_failed_def with_secrets_fields with_secrets_ops by simp_all

lemma resolve_reads: "snd (resolveRemoteControlTLS (with_secrets sec pem pair hdr io) ns rc) = snd (resolveRemoteControlTLS io ns rc)"
  by (simp add: resolveRemoteControlTLS_def Let_def split: option.splits)

lemma deliver_uniform:
  assumes "fst (resolveRemoteControlTLS io (om_Namespace (eph_Meta eph)) rc) = Inl e"
    "fst (resolveRemoteControlTLS (with_secrets sec pem pair hdr io) (om_Namespace (eph_Meta eph)) rc) = Inl e'"
  shows "deliver R (with_secrets sec pem pair hdr io) cc spec eph prov rc cell state marker = deliver R io cc spec eph prov rc cell state marker"
  using assms resolve_reads [of sec pem pair hdr io "om_Namespace (eph_Meta eph)" rc]
  by (simp add: deliver_def split_beta Let_def split: sum.splits)

text \<open>C8: A refused credential does not tell why. Take two clusters that differ only in their Secrets (their presence,
  type, labels and contents, and the verdicts on the bytes). If in neither of them the credential that a resource
  names can be resolved, then a reconcile does exactly the same in both: the same condition and message, the same
  events, the same metrics, the same writes and the same delay before the retry. So whoever may write the resource but
  not read Secrets learns nothing about them, for any provider.\<close>

theorem no_secret_oracle:
  assumes "cio_get io = Found cc" "RemoteControl (cs_Provider (cc_Spec cc)) = Some rc" "named_reads io"
    "fst (resolveRemoteControlTLS io (om_Namespace (cc_Meta cc)) rc) = Inl e"
    "fst (resolveRemoteControlTLS (with_secrets sec pem pair hdr io) (om_Namespace (cc_Meta cc)) rc) = Inl e'"
  shows "CellReconcile M R (with_secrets sec pem pair hdr io) = CellReconcile M R io"
proof -
  let ?io' = "with_secrets sec pem pair hdr io"
  have push: "pushEphemerisUpdateIfNeeded M R ?io' cc3 (forced_spec cc) p = pushEphemerisUpdateIfNeeded M R io cc3 (forced_spec cc) p"
    if "cc_Meta cc3 = cc_Meta cc" for cc3 p
  proof (cases "cio_eph io \<lparr>nn_Namespace = om_Namespace (cc_Meta cc), nn_Name = EphemerisRef (cc_Spec cc)\<rparr>")
    case (Found eph)
    have "om_Namespace (eph_Meta eph) = om_Namespace (cc_Meta cc)" by (rule named_namespace [OF assms(3) Found])
    then have "deliver R ?io' cc3 s eph p rc cell state marker = deliver R io cc3 s eph p rc cell state marker" for s cell state marker
      using deliver_uniform [of io eph rc e] assms(4,5) by simp
    then show ?thesis using that Found assms(2)
      by (simp add: pushEphemerisUpdateIfNeeded_def pushRuntimeEphemeris_def Let_def split: option.splits)
  qed (use that in \<open>simp_all add: pushEphemerisUpdateIfNeeded_def\<close>)
  have "after_status M R ?io' cc (forced_spec cc) p st = after_status M R io cc (forced_spec cc) p st" for p st
  proof -
    have "cc_Meta (cadence_cell M cc (forced_spec cc) st) = cc_Meta cc" using cadence_same_cell by (simp add: same_cell_def)
    note p = push [OF this, unfolded applied_cell_def]
    show ?thesis unfolding after_status_def with_secrets_ops with_secrets_branches Let_def split_beta p ..
  qed
  then have w: "with_provider M R ?io' cc p = with_provider M R io cc p" for p
    unfolding with_provider_def with_secrets_branches Let_def by (simp only:)
  show ?thesis unfolding CellReconcile_def with_secrets_fields with_secrets_ops with_secrets_branches assms(1) get.case w ..
qed


section \<open>A satellite switch is sent once\<close>

text \<open>What the API server holds after a reconcile: the last copy it accepted.\<close>

fun cell_store :: "NTNCellConfig \<Rightarrow> cell_effect \<Rightarrow> NTNCellConfig" where
  "cell_store cc (WriteCell c True) = c"
| "cell_store cc (UpdateCell c True) = c"
| "cell_store cc e = cc"

definition stored :: "NTNCellConfig \<Rightarrow> cell_effect list \<Rightarrow> NTNCellConfig" where
  "stored cc eff = foldl cell_store cc eff"

text \<open>A history of a resource: reconciles, each in an environment of its own (another clock, another state of the
  ephemeris, of the ConfigMap, of the gNB), that read what is stored and whose writes are accepted or refused; between
  them anyone may edit the metadata and the spec, but for the switch itself.\<close>

definition switch_of :: "NTNCellConfig \<Rightarrow> SatSwitchWithResync option" where
  "switch_of cc = np_SatSwitchWithResync (NTN (cc_Spec cc))"

inductive history :: "meta_api \<Rightarrow> string \<Rightarrow> NTNCellConfig \<Rightarrow> cell_effect list list \<Rightarrow> NTNCellConfig \<Rightarrow> bool"
  for M :: meta_api and flag :: string and cc0 :: NTNCellConfig where
  start: "history M flag cc0 [] cc0"
| edit: "history M flag cc0 tr cc \<Longrightarrow> switch_of cc' = switch_of cc \<Longrightarrow> cc_Status cc' = cc_Status cc \<Longrightarrow> history M flag cc0 tr cc'"
| beat: "history M flag cc0 tr cc \<Longrightarrow> cio_get io = Found cc \<Longrightarrow> CellReconcile M (ocudu_reconciler oio w flag) io = (eff, res)
    \<Longrightarrow> history M flag cc0 (tr @ [eff]) (stored cc eff)"

text \<open>A reconcile that sent a frame and reports it as taken, one that also got its status stored, and the frames that
  hold no switch.\<close>

definition taken :: "cell_effect list \<Rightarrow> bool" where
  "taken eff \<longleftrightarrow> (\<exists>p. Provider (Wire (SentFrame p)) \<in> set eff) \<and> (\<exists>k. SetGauge ''EphemerisPushReady'' k 1 \<in> set eff)"

definition write_refused :: "cell_effect list \<Rightarrow> bool" where
  "write_refused eff \<longleftrightarrow> (\<exists>c. WriteCell c False \<in> set eff)"

definition recorded :: "cell_effect list \<Rightarrow> bool" where
  "recorded eff \<longleftrightarrow> taken eff \<and> \<not> write_refused eff"

definition plain_frame :: "string \<Rightarrow> bool" where
  "plain_frame p \<longleftrightarrow> (\<exists>spec cell state env. buildNTNConfigUpdate (runtime_update spec cell state None) = Inr env
     \<and> marshal_envelope env = Some p)"

definition digest_of :: "NTNCellConfig \<Rightarrow> string" where
  "digest_of cc = (case switch_of cc of None \<Rightarrow> '''' | Some sw \<Rightarrow> satSwitchIntentDigest sw)"

lemma pending_none: "LastPushedSatSwitchDigest (cc_Status cc) = digest_of cc \<Longrightarrow> fst (pending_switch cc (cc_Spec cc)) = None"
  by (auto simp: pending_switch_def digest_of_def switch_of_def Let_def split: option.splits)

lemma recorded_plain:
  assumes "CellReconcile M (ocudu_reconciler oio w flag) io = (eff, res)" "cio_get io = Found cc"
    "LastPushedSatSwitchDigest (cc_Status cc) = digest_of cc" "Provider (Wire (SentFrame p)) \<in> set eff"
  shows "plain_frame p"
proof (rule ocudu.network_use [OF sole_ocudu assms(1,4)])
  fix cc' rc cell eph state tls token
  assume a: "cio_get io = Found cc'"
    "Wire (SentFrame p) \<in> set (snd (pv_PushRuntimeUpdate (ocudu_provider oio w)
       \<lparr>rrc_Endpoint = rc_Endpoint rc, rrc_TLSConfig = tls, AuthToken = token\<rparr>
       (runtime_update (cc_Spec cc') cell state (fst (pending_switch cc' (cc_Spec cc'))))))"
  have "cc' = cc" using a(1) assms(2) by simp
  with sent_frame [OF a(2)] pending_none [OF assms(3)] show ?thesis unfolding plain_frame_def by metis
qed


text \<open>How a reconcile changes what is stored.\<close>

definition inert :: "cell_effect \<Rightarrow> bool" where
  "inert e \<longleftrightarrow> (\<forall>c. cell_store c e = c)"

lemma inert_simps [simp]: "inert (Provider x)" "inert (GetSecret k)" "inert (SetGauge s k v)" "inert (IncCounter s k t)"
  "inert (DropSeries s k)" "inert (CellEvent t r m)" "inert (DeleteCellMap cm u)"
  by (simp_all add: inert_def)

lemma stored_append: "stored cc (a @ b) = stored (stored cc a) b"
  by (simp add: stored_def)

lemma stored_inert: "list_all inert a \<Longrightarrow> stored cc a = cc"
  by (induction a arbitrary: cc) (auto simp: stored_def inert_def)

lemma stored_Cons: "inert e \<Longrightarrow> stored cc (e # a) = stored cc a"
  by (simp add: stored_def inert_def)

lemma announced_inert: "list_all inert (announced M io cc spec st)"
  by (rule list.pred_mono_strong [OF announced_events]) auto

lemma write_refused_simps [simp]:
  "\<not> write_refused []" "write_refused (a @ b) \<longleftrightarrow> write_refused a \<or> write_refused b" "write_refused (map Provider l) \<longleftrightarrow> False"
  "write_refused (SetGauge n k v # a) \<longleftrightarrow> write_refused a" "write_refused (IncCounter n k t # a) \<longleftrightarrow> write_refused a"
  "write_refused (DropSeries n k # a) \<longleftrightarrow> write_refused a" "write_refused (CellEvent t r m # a) \<longleftrightarrow> write_refused a"
  by (auto simp: write_refused_def)

lemma persist_stored:
  assumes "persistStatusIfChanged io c (cc_Status cc) = (err, w)" "cc_Spec c = cc_Spec cc"
  shows "cc_Status (stored cc w) = (if write_refused w then cc_Status cc else cc_Status c)" "cc_Spec (stored cc w) = cc_Spec cc"
    "err = None \<longleftrightarrow> \<not> write_refused w"
  using assms by (cases "cio_write io c"; auto simp: persistStatusIfChanged_def stored_def write_refused_def split: if_splits)+

lemma announced_written: "\<not> write_refused (announced M io cc spec st)"
  using announced_events [of M io cc spec st] by (auto simp: write_refused_def list_all_iff)

lemma finish_written: "(eff, res) = finish err a (b, r) \<Longrightarrow> \<not> write_refused b \<Longrightarrow> write_refused eff \<longleftrightarrow> write_refused a"
  by (auto simp: finish_def split: option.splits)

lemma finish_stored:
  assumes "(eff, res) = finish err a (b, r)" "list_all inert b"
  shows "stored cc eff = stored cc a"
  using assms stored_inert [OF assms(2)] by (auto simp: finish_def stored_append split: option.splits)

lemma push_shape:
  assumes "pushEphemerisUpdateIfNeeded M R io cc3 spec p = (r, cc4, e1)" "EphemerisRef spec \<noteq> ''''"
  shows "list_all inert e1 \<and> cc_Meta cc4 = cc_Meta cc3 \<and> cc_Spec cc4 = cc_Spec cc3
     \<and> cc_Conditions (cc_Status cc4) = cc_Conditions (cc_Status cc3)
     \<and> (cc4 = cc3 \<or> (\<exists>m. r = Inr (True, m)) \<and> LastPushedSatSwitchDigest (cc_Status cc4) = snd (pending_switch cc3 spec))
     \<and> (\<forall>s k v. SetGauge s k v \<notin> set e1) \<and> (\<forall>c b. WriteCell c b \<notin> set e1)
     \<and> (\<forall>c b. UpdateCell c b \<notin> set e1) \<and> (\<forall>t k m. CellEvent t k m \<notin> set e1)"
  using assms
proof (cases rule: push_cases)
  case (bootstrap eph u err e2)
  then show ?thesis by (auto simp: list_all_iff)
next
  case (runtime rc cell eph)
  from runtime(4) show ?thesis
  proof (cases rule: runtime_cases)
    case (deliver state)
    from deliver(5) show ?thesis
    proof (cases rule: deliver_cases)
      case (refused e)
      then show ?thesis by (auto simp: list_all_iff)
    next
      case (called tls token e1' err e2)
      then show ?thesis by (cases err) (auto simp: list_all_iff)
    qed
  qed simp_all
qed simp_all

lemma stored_provider: "stored cc (map Provider l) = cc"
  by (rule stored_inert) (simp add: list_all_iff)

lemma failure_stored:
  assumes "(eff, res) = (let (err, w) = persistStatusIfChanged io c (cc_Status cc) in finish err (a @ w) (b, r))"
    "list_all inert (a @ b)" "list_all (\<lambda>e. \<forall>s k. e \<noteq> SetGauge s k 1) (a @ b)"
    "cc_Spec c = cc_Spec cc" "LastPushedSatSwitchDigest (cc_Status c) = LastPushedSatSwitchDigest (cc_Status cc)"
  shows "cc_Spec (stored cc eff) = cc_Spec cc \<and> LastPushedSatSwitchDigest (cc_Status (stored cc eff)) = LastPushedSatSwitchDigest (cc_Status cc)
     \<and> (\<forall>s k. SetGauge s k 1 \<notin> set eff)"
proof -
  obtain err w where w: "persistStatusIfChanged io c (cc_Status cc) = (err, w)" by (cases "persistStatusIfChanged io c (cc_Status cc)")
  have f: "(eff, res) = finish err (a @ w) (b, r)" using assms(1) w by simp
  have "stored cc eff = stored cc w" using finish_stored [OF f] assms(2) by (simp add: stored_append stored_inert)
  moreover have "\<forall>s k. SetGauge s k 1 \<notin> set w" using w by (auto simp: persistStatusIfChanged_def split: if_splits)
  moreover have "\<forall>s k. SetGauge s k 1 \<notin> set a \<union> set b" using assms(3) unfolding list_all_iff by auto
  ultimately show ?thesis using persist_stored [OF w assms(4)] assms(5) f by (auto simp: finish_def)
qed

lemma failures_stored:
  assumes "apply_failed M io cc spec e = (eff, res) \<or> status_failed M io cc e = (eff, res) \<or> no_provider M io cc reason m d = (eff, res)"
  shows "cc_Spec (stored cc eff) = cc_Spec cc \<and> LastPushedSatSwitchDigest (cc_Status (stored cc eff)) = LastPushedSatSwitchDigest (cc_Status cc)
     \<and> (\<forall>s k. SetGauge s k 1 \<notin> set eff)"
  using assms
proof (elim disjE)
  let ?reason = "if errors_Is e ConfigMapNotOwned then ''OwnershipConflict'' else ''ApplyFailed''"
  assume "apply_failed M io cc spec e = (eff, res)"
  then have "(eff, res) = (let (err, w) = persistStatusIfChanged io (cc_set_cond M ConditionConfigApplied ConditionFalse ?reason (err_msg e)
        (clear_koffset cc)) (cc_Status cc)
      in finish err ([IncCounter ''ConfigApplyErrorsTotal'' (cc_Key cc) (prov_Type (cs_Provider spec)), apply_gauge cc 0] @ w)
        (if conditionEpisodeChanged (cc_find M cc ConditionConfigApplied) ConditionFalse ?reason (cc_Generation cc) \<and> cio_recorder io
         then [CellEvent ''Warning'' ?reason (err_msg e)] else [], Inr minute))"
    by (simp add: apply_failed_def Let_def)
  then show ?thesis by (rule failure_stored) simp_all
next
  assume "status_failed M io cc e = (eff, res)"
  then have "(eff, res) = (let (err, w) = persistStatusIfChanged io (cc_set_cond M ConditionConfigApplied ConditionUnknown ''StatusCheckFailed''
        (Lit ''Config applied but status verification failed: '' # err_msg e) cc) (cc_Status cc)
      in finish err ([apply_gauge cc 0] @ w) ([], Inr minute))"
    by (simp add: status_failed_def Let_def)
  then show ?thesis by (rule failure_stored) simp_all
next
  assume "no_provider M io cc reason m d = (eff, res)"
  then have "(eff, res) = (let (err, w) = persistStatusIfChanged io (cc_set_cond M ConditionConfigApplied ConditionFalse reason m
        (clear_koffset cc)) (cc_Status cc)
      in finish err ([apply_gauge cc 0] @ w) ([], Inr d))"
    by (simp add: no_provider_def Let_def)
  then show ?thesis by (rule failure_stored) simp_all
qed

lemmas failure_branches = failures_stored [OF disjI1] failures_stored [OF disjI2 [OF disjI1]] failures_stored [OF disjI2 [OF disjI2]]

lemma finalizer_stored:
  assumes "handleFinalizer io cc prov = Some (eff, res)"
  shows "cc_Spec (stored cc eff) = cc_Spec cc \<and> cc_Status (stored cc eff) = cc_Status cc \<and> (\<forall>s k v. SetGauge s k v \<notin> set eff)"
  using assms
proof (cases rule: finalizer_cases)
  case (cleaning err ceff)
  have c: "list_all inert ceff \<and> (\<forall>s k v. SetGauge s k v \<notin> set ceff)"
    using cleaning(3) by (cases prov) (auto simp: cleanup_by_ref_def apsnd_def map_prod_def Let_def list_all_iff split: if_splits get.splits prod.splits)
  have r: "cc_Spec (stored cc (fst (remove_finalizer io cc))) = cc_Spec cc \<and> cc_Status (stored cc (fst (remove_finalizer io cc))) = cc_Status cc
      \<and> (\<forall>s k v. SetGauge s k v \<notin> set (fst (remove_finalizer io cc)))"
    by (cases "cio_update io (cc\<lparr>cc_Meta := RemoveFinalizer finalizerName (cc_Meta cc)\<rparr>)") (simp_all add: remove_finalizer_def Let_def stored_def)
  show ?thesis using cleaning(4) c r
    by (cases err) (auto simp: drop_series_def stored_Cons stored_append stored_inert)
next
  case cleaned
  then show ?thesis by (simp add: drop_series_def stored_def)
next
  case adding
  then show ?thesis
    by (cases "cio_update io (cc\<lparr>cc_Meta := AddFinalizer finalizerName (cc_Meta cc)\<rparr>)") (simp_all add: stored_def)
qed

context ntn_provider
begin

lemma sent_records:
  assumes "pushEphemerisUpdateIfNeeded M R io cc3 spec prov = (Inr q, cc4, e1)" "EphemerisRef spec \<noteq> ''''" "Provider (Wire x) \<in> set e1"
  shows "LastPushedSatSwitchDigest (cc_Status cc4) = snd (pending_switch cc3 spec)"
  using assms(1,2)
proof (cases rule: push_cases)
  case (bootstrap eph u err e2)
  then show ?thesis using assms(3) update_writes [of _ cc3 u] by fastforce
next
  case (runtime rc cell eph)
  from runtime(4) show ?thesis
  proof (cases rule: runtime_cases)
    case (deliver state)
    from deliver(5) show ?thesis
    proof (cases rule: deliver_cases)
      case (called tls token e1' err e2)
      then show ?thesis by (cases err) auto
    qed simp_all
  qed (use assms(3) in simp_all)
qed simp_all

lemma after_status_stored:
  assumes "after_status M R io cc (forced_spec cc) prov st = (eff, res)"
  shows "cc_Spec (stored cc eff) = cc_Spec cc
     \<and> (LastPushedSatSwitchDigest (cc_Status (stored cc eff)) \<in> {LastPushedSatSwitchDigest (cc_Status cc), digest_of cc})
     \<and> (recorded eff \<longrightarrow> LastPushedSatSwitchDigest (cc_Status (stored cc eff)) = digest_of cc)
     \<and> (write_refused eff \<longrightarrow> LastPushedSatSwitchDigest (cc_Status (stored cc eff)) = LastPushedSatSwitchDigest (cc_Status cc))"
proof -
  let ?cc3 = "cadence_cell M cc (forced_spec cc) st"
  have c3: "cc_Spec ?cc3 = cc_Spec cc" "LastPushedSatSwitchDigest (cc_Status ?cc3) = LastPushedSatSwitchDigest (cc_Status cc)"
    using cadence_same_cell by (simp_all add: same_cell_def)
  have pend: "snd (pending_switch ?cc3 (forced_spec cc)) = digest_of cc"
    by (simp add: pending_switch_def digest_of_def switch_of_def Let_def split: option.splits)
  from assms show ?thesis
  proof (cases rule: after_status_cases)
    case (bare err w)
    have "stored cc eff = stored cc w" using finish_stored [OF bare(3) announced_inert] by (simp add: stored_Cons)
    moreover have "\<not> taken eff" using bare(3) announced_routine [of M io cc "forced_spec cc" st] persist_routine [OF bare(2)]
      by (auto simp: taken_def finish_def list_all_iff split: option.splits)
    ultimately show ?thesis using persist_stored [OF bare(2)] c3 by (simp add: recorded_def)
  next
    case (failed e cc4 e1 e2)
    let ?r = "ephemerisPushConditionReason e"
    let ?c = "cc_set_cond M ConditionEphemerisPushed ConditionFalse ?r (err_msg e) cc4"
    obtain err w where w: "persistStatusIfChanged io ?c (cc_Status cc) = (err, w)" by (cases "persistStatusIfChanged io ?c (cc_Status cc)")
    note ps = push_shape [OF failed(2,1)]
    define b where "b = announced M io cc (forced_spec cc) st
       @ [IncCounter ''EphemerisPushErrorsTotal'' (cc_Key cc4) ?r, push_gauge cc4 0]
       @ (if conditionEpisodeChanged (cc_find M cc4 ConditionEphemerisPushed) ConditionFalse ?r (cc_Generation cc4) \<and> cio_recorder io
          then [CellEvent ''Warning'' ''EphemerisPushFailed'' (err_msg e)] else [])"
    have b: "list_all inert b" "list_all routine b" using announced_inert announced_routine by (simp_all add: b_def)
    have e2: "\<exists>r. (e2, res) = finish err w (b, r)" using failed(3) by (auto simp: w Let_def b_def)
    then have "stored cc e2 = stored cc w" using finish_stored [OF _ b(1)] by blast
    then have st: "stored cc eff = stored cc w" using ps failed(4) by (simp add: stored_Cons stored_append stored_inert)
    have "list_all routine e2" using e2 b(2) persist_routine [OF w] by (auto simp: finish_def split: option.splits)
    then have "\<not> taken eff" using failed(4) ps by (auto simp: taken_def list_all_iff)
    then show ?thesis using persist_stored [OF w] st ps c3 by (auto simp: recorded_def)
  next
    case (pushed b m cc4 cc5 e1 err w)
    note ps = push_shape [OF pushed(2,1)]
    have nw: "write_refused eff \<longleftrightarrow> write_refused w" using finish_written [OF pushed(5) announced_written] ps by (auto simp: write_refused_def)
    have c5: "cc_Spec cc5 = cc_Spec cc" "LastPushedSatSwitchDigest (cc_Status cc5) = LastPushedSatSwitchDigest (cc_Status cc4)"
      using pushed(3) ps c3 by (simp_all split: if_splits)
    have st: "stored cc eff = stored cc w"
      using finish_stored [OF pushed(5) announced_inert] ps by (simp add: stored_Cons stored_append stored_inert)
    have "LastPushedSatSwitchDigest (cc_Status cc4) = digest_of cc" if t: "taken eff"
    proof -
      obtain f where "Provider (Wire (SentFrame f)) \<in> set eff" using t by (auto simp: taken_def)
      then have "Provider (Wire (SentFrame f)) \<in> set e1"
        using pushed(5) announced_routine [of M io cc "forced_spec cc" st] persist_routine [OF pushed(4)]
        by (auto simp: finish_def list_all_iff split: option.splits)
      from sent_records [OF pushed(2,1) this] pend show ?thesis by simp
    qed
    then show ?thesis using persist_stored [OF pushed(4) c5(1)] st c5 ps pend c3 nw by (auto simp: recorded_def)
  qed
qed

lemma reconcile_stored:
  assumes "sole prov R" "CellReconcile M R io = (eff, res)" "cio_get io = Found cc"
  shows "cc_Spec (stored cc eff) = cc_Spec cc
     \<and> (LastPushedSatSwitchDigest (cc_Status (stored cc eff)) \<in> {LastPushedSatSwitchDigest (cc_Status cc), digest_of cc})
     \<and> (recorded eff \<longrightarrow> LastPushedSatSwitchDigest (cc_Status (stored cc eff)) = digest_of cc)
     \<and> (write_refused eff \<longrightarrow> LastPushedSatSwitchDigest (cc_Status (stored cc eff)) = LastPushedSatSwitchDigest (cc_Status cc))"
  using assms(2)
proof (cases rule: cell_reconcile_cases)
  case absent
  then show ?thesis using assms(3) by simp
next
  case (final cc')
  then have cc: "cc' = cc" using assms(3) by simp
  then show ?thesis using finalizer_stored [OF final(2)] by (auto simp: taken_def recorded_def)
next
  case (unregistered cc' reason m d)
  then show ?thesis using assms(3) failure_branches(3) [OF unregistered(2)] by (auto simp: taken_def recorded_def)
next
  case (live cc' ps p)
  have cc: "cc' = cc" "p = prov" using assms(1,3) live(1-3) by (simp_all add: sole_def)
  from live(5) show ?thesis unfolding cc
  proof (cases rule: with_provider_cases)
    case (rejected e e1 e2)
    then show ?thesis using failure_branches(1) [OF rejected(2)] by (auto simp: taken_def recorded_def stored_append stored_provider)
  next
    case (status e e1 e2)
    then show ?thesis using failure_branches(2) [OF status(3)] by (auto simp: taken_def recorded_def stored_append stored_provider)
  next
    case (applied st e1 e2)
    have "taken eff \<longrightarrow> taken e2" using applied(1,4) apply_writes [of _ cc "Some (forced_spec cc)"] by (fastforce simp: taken_def)
    then show ?thesis using after_status_stored [OF applied(3)] applied(4) by (auto simp: recorded_def stored_append stored_provider)
  qed
qed

end

text \<open>After a refused status write the next reconcile has the same switch to send as this one had, whether or not the
  gNB has taken it.\<close>

lemma refused_write_forgets:
  assumes "CellReconcile M (ocudu_reconciler oio w flag) io = (eff, res)" "cio_get io = Found cc" "write_refused eff"
  shows "pending_switch (stored cc eff) (cc_Spec (stored cc eff)) = pending_switch cc (cc_Spec cc)"
  using ocudu.reconcile_stored [OF sole_ocudu assms(1,2)] assms(3) by (simp add: pending_switch_def cong: option.case_cong)

text \<open>C9: A satellite switch is delivered once. In any history of a resource (reconciles in arbitrary environments, as
  often as the heartbeat of the ephemeris and the retries ask for, their status writes accepted or refused, and edits of
  everything but the switch), once a reconcile has sent a frame, reported it as taken and not had its status write
  refused, every frame that a later reconcile sends is one without a switch: the periodic refresh of the ephemeris
  never triggers the switch a second time. A delivery whose status write is refused is not remembered
  (\<open>refused_write_forgets\<close>): the switch is then sent again.\<close>

theorem switch_sent_once:
  assumes "history M flag cc0 tr cc" "i < j" "j < length tr" "recorded (tr ! i)" "Provider (Wire (SentFrame p)) \<in> set (tr ! j)"
  shows "plain_frame p"
proof -
  have "((\<exists>i<length tr. recorded (tr ! i)) \<longrightarrow> LastPushedSatSwitchDigest (cc_Status cc) = digest_of cc)
     \<and> (\<forall>i j. i < j \<and> j < length tr \<and> recorded (tr ! i) \<longrightarrow> (\<forall>p. Provider (Wire (SentFrame p)) \<in> set (tr ! j) \<longrightarrow> plain_frame p))"
    using assms(1)
  proof (induction rule: history.induct)
    case start
    then show ?case by simp
  next
    case (edit tr cc cc')
    then show ?case by (simp add: digest_of_def)
  next
    case (beat tr cc io oio w eff res)
    note s = ocudu.reconcile_stored [OF sole_ocudu beat.hyps(3,2)]
    have d: "digest_of (stored cc eff) = digest_of cc" using s by (simp add: digest_of_def switch_of_def)
    have "LastPushedSatSwitchDigest (cc_Status (stored cc eff)) = digest_of cc" if t: "i < length (tr @ [eff])" "recorded ((tr @ [eff]) ! i)" for i
      using t s beat.IH by (cases "i = length tr") (auto simp: nth_append)
    moreover have "plain_frame p" if "i < length tr" "recorded (tr ! i)" "Provider (Wire (SentFrame p)) \<in> set eff" for i p
      using recorded_plain [OF beat.hyps(3,2)] that beat.IH by blast
    ultimately show ?case unfolding d
    proof (intro conjI impI allI)
      fix i j p
      assume ij: "i < j \<and> j < length (tr @ [eff]) \<and> recorded ((tr @ [eff]) ! i)" "Provider (Wire (SentFrame p)) \<in> set ((tr @ [eff]) ! j)"
        and pl: "\<And>i p. i < length tr \<Longrightarrow> recorded (tr ! i) \<Longrightarrow> Provider (Wire (SentFrame p)) \<in> set eff \<Longrightarrow> plain_frame p"
      have i: "i < length tr" "recorded (tr ! i)" using ij(1) by (auto simp: nth_append)
      show "plain_frame p"
      proof (cases "j = length tr")
        case True
        then show ?thesis using pl [OF i] ij(2) by simp
      next
        case False
        then have "j < length tr" "Provider (Wire (SentFrame p)) \<in> set (tr ! j)" using ij by (auto simp: nth_append)
        then show ?thesis using beat.IH ij(1) i(2) by blast
      qed
    qed blast
  qed
  then show ?thesis using assms(2-5) by blast
qed

end
