(* ===== verification/Cell_Order.thy ===== *)
theory Cell_Order
  imports Cell_Laws
begin

text \<open>
  Theorems on the order of things in a reconcile of an NTNCellConfig: cleanup before the finalizer goes, the document
  before readiness is claimed, the status before the events, and a retry for every failure that nothing watches.
\<close>

section \<open>Cleanup before release\<close>

text \<open>Nothing of the resource is left at the name of its ConfigMap: there is none, it is another's, or its deletion
  (preconditioned on the UID that was read) was accepted. Without a provider of its type the name is the recorded one.\<close>

definition released :: "ocudu_io \<Rightarrow> cell_io \<Rightarrow> NTNCellConfig \<Rightarrow> cell_effect list \<Rightarrow> bool" where
  "released oio io cc eff =
     (if prov_Type (cs_Provider (cc_Spec cc)) = ''ocudu'' then
        (case oio_cleanup_get oio (cm_key (om_Namespace (cc_Meta cc)) (om_Name (cc_Meta cc))) of
           NotFound \<Rightarrow> True
         | GetError _ \<Rightarrow> False
         | Found cm \<Rightarrow> ours oio cc cm \<longrightarrow> Provider (CmWrite (DeleteConfigMap cm (om_UID (km_Meta cm)))) \<in> set eff
             \<and> (\<forall>e. oio_Delete oio cm (om_UID (km_Meta cm)) \<noteq> CmDeleteFailed e))
      else ConfigMapRef (cc_Status cc) = ''''
        \<or> (case cio_cm io \<lparr>nn_Namespace = om_Namespace (cc_Meta cc), nn_Name = ConfigMapRef (cc_Status cc)\<rparr> of
             NotFound \<Rightarrow> True
           | GetError _ \<Rightarrow> False
           | Found cm \<Rightarrow> cio_IsControlledBy io cm (cc_Meta cc) \<longrightarrow> DeleteCellMap cm (om_UID (km_Meta cm)) \<in> set eff
               \<and> (\<forall>e. cio_delete io cm (om_UID (km_Meta cm)) \<noteq> CmDeleteFailed e)))"

lemma cleanup_releases:
  assumes "(case (if prov_Type (cs_Provider (cc_Spec cc)) = ''ocudu'' then Some (ocudu_provider oio w) else None) of
      None \<Rightarrow> cleanup_by_ref io cc | Some p \<Rightarrow> apsnd (map Provider) (pv_Cleanup p cc)) = (None, ceff)"
  shows "released oio io cc ceff"
  using assms
  by (auto simp: released_def Cleanup_def cleanup_by_ref_def ours_def Let_def
      split: if_splits get.splits cm_delete.splits)

lemma released_mono: "released oio io cc a \<Longrightarrow> set a \<subseteq> set b \<Longrightarrow> released oio io cc b"
  by (auto simp: released_def split: get.splits if_splits)

lemma ocudu_registry: "(case cr_Providers (ocudu_reconciler oio w flag) of None \<Rightarrow> None | Some ps \<Rightarrow> ps ty) =
    (if ty = ''ocudu'' then Some (ocudu_provider oio w) else None)"
  by (simp add: ocudu_reconciler_def)

lemma live_updates:
  assumes "with_provider M R io cc p = (eff, res)"
  shows "UpdateCell c b \<notin> set eff"
proof -
  have ann: "UpdateCell c b \<notin> set (announced M io cc spec st)" for spec st
    using announced_events by (fastforce simp: list_all_iff)
  from assms show ?thesis
  proof (cases rule: with_provider_cases)
    case (rejected e e1 e2)
    then show ?thesis
      by (auto simp: apply_failed_def persistStatusIfChanged_def finish_def Let_def split: if_splits option.splits)
  next
    case (status e e1 e2)
    then show ?thesis
      by (auto simp: status_failed_def persistStatusIfChanged_def finish_def Let_def split: if_splits option.splits)
  next
    case (applied st e1 e2)
    have push: "UpdateCell c b \<notin> set e" if "pushEphemerisUpdateIfNeeded M R io cc3 (forced_spec cc) p = (r, cc4, e)"
      "EphemerisRef (forced_spec cc) \<noteq> ''''" for cc3 r cc4 e
      using push_shape [OF that] by blast
    from applied(3) have "UpdateCell c b \<notin> set e2"
    proof (cases rule: after_status_cases)
      case (bare err w)
      then show ?thesis using ann by (auto simp: finish_def persistStatusIfChanged_def split: option.splits if_splits)
    next
      case (failed e cc4 e1 e2)
      then show ?thesis using ann push [OF failed(2,1)]
        by (auto simp: finish_def persistStatusIfChanged_def Let_def split: option.splits if_splits)
    next
      case (pushed b m cc4 cc5 e1 err w)
      then show ?thesis using ann push [OF pushed(2,1)]
        by (auto simp: finish_def persistStatusIfChanged_def split: option.splits if_splits)
    qed
    then show ?thesis using applied(4) by auto
  qed
qed

text \<open>C17: A resource is let go only after its artifact is gone. When a reconcile writes the metadata of a resource that
  has the finalizer, the resource is being deleted, the write drops this finalizer and no other, it is the last thing
  the reconcile does, and nothing of the resource is left at the name of its ConfigMap. A cleanup that fails ends the
  reconcile with its error and leaves the finalizer in place.\<close>

theorem finalizer_after_cleanup:
  assumes "CellReconcile M (ocudu_reconciler oio w flag) io = (eff, res)" "cio_get io = Found cc"
    "finalizerName \<in> set (om_Finalizers (cc_Meta cc))"
  shows "(\<forall>c b. UpdateCell c b \<in> set eff \<longrightarrow>
       om_DeletionTimestamp (cc_Meta cc) \<noteq> None \<and> released oio io cc eff \<and> last eff = UpdateCell c b
       \<and> c = cc\<lparr>cc_Meta := (cc_Meta cc)\<lparr>om_Finalizers := filter (\<lambda>f. f \<noteq> finalizerName) (om_Finalizers (cc_Meta cc))\<rparr>\<rparr>)
     \<and> (om_DeletionTimestamp (cc_Meta cc) \<noteq> None \<and> \<not> released oio io cc eff \<longrightarrow> (\<exists>e. res = Inl e))"
  using assms(1)
proof (cases rule: cell_reconcile_cases)
  case absent
  then show ?thesis using assms(2) by simp
next
  case (final cc')
  have cc: "cc' = cc" using final(1) assms(2) by simp
  from final(2) [unfolded ocudu_registry cc] show ?thesis
  proof (cases rule: finalizer_cases)
    case (cleaning err ceff)
    show ?thesis
    proof (cases err)
      case None
      then have e: "eff = drop_series cc @ ceff @ fst (remove_finalizer io cc)" using cleaning(4) by simp
      have r: "released oio io cc eff"
        by (rule released_mono [OF cleanup_releases [OF cleaning(3) [unfolded None]]]) (use e in auto)
      have "UpdateCell c b \<notin> set (drop_series cc @ ceff)" for c b
        using cleaning(3) None by (auto simp: drop_series_def cleanup_by_ref_def apsnd_def map_prod_def Let_def
            split: if_splits get.splits prod.splits)
      then show ?thesis using r e cleaning(1) by (auto simp: remove_finalizer_def RemoveFinalizer_def Let_def)
    next
      case (Some e)
      have "UpdateCell c b \<notin> set (drop_series cc @ ceff)" for c b
        using cleaning(3) Some by (auto simp: drop_series_def cleanup_by_ref_def apsnd_def map_prod_def Let_def
            split: if_splits get.splits prod.splits)
      then show ?thesis using cleaning(4) Some by auto
    qed
  qed (use assms(3) in \<open>auto simp: drop_series_def\<close>)
next
  case (unregistered cc' reason m d)
  have "om_DeletionTimestamp (cc_Meta cc) = None" using unregistered(1,4) assms(2) finalizer_none by simp
  moreover have "UpdateCell c b \<notin> set eff" for c b using unregistered(2)
    by (auto simp: no_provider_def persistStatusIfChanged_def finish_def Let_def split: if_splits option.splits)
  ultimately show ?thesis by blast
next
  case (live cc' ps p)
  have "om_DeletionTimestamp (cc_Meta cc) = None" using live(1,4) assms(2) finalizer_none by simp
  then show ?thesis using live_updates [OF live(5)] by blast
qed


section \<open>Status before events\<close>

lemma episode_new:
  assumes "conditionEpisodeChanged (FindStatusCondition M cs t) s r g"
  shows "\<not> has_cond M cs (mkCond t s r m g)"
  using assms by (auto simp: conditionEpisodeChanged_def has_cond_def same_cond_def split: option.splits)

text \<open>Something is announced only when a condition says something new, and that condition is still there when the
  status is written.\<close>

lemma announced_new:
  assumes "meta_laws M" "announced M io cc spec st \<noteq> []"
  shows "\<exists>c. cond_Type c \<noteq> ConditionEphemerisPushed \<and> \<not> has_cond M (cc_Conditions (cc_Status cc)) c
     \<and> has_cond M (cc_Conditions (cc_Status (cadence_cell M cc spec st))) c"
proof -
  let ?cs = "cc_Conditions (cc_Status cc)"
  define a where "a = mkCond ConditionConfigApplied ConditionTrue ''Applied''
     [Lit ''NTN config applied via '', Lit (prov_Type (cs_Provider spec)), Lit '' provider''] (cc_Generation cc)"
  have ap: "cc_Conditions (cc_Status (applied_cell M cc spec st)) = SetStatusCondition M ?cs a" "cc_Meta (applied_cell M cc spec st) = cc_Meta cc"
    by (simp_all add: applied_cell_def cc_set_cond_def a_def)
  have ty: "cond_Type a = ConditionConfigApplied" by (simp add: a_def)
  obtain cc3 warn ep where c: "applySIB19CadenceCondition M (applied_cell M cc spec st) spec = (cc3, warn, ep)"
    by (cases "applySIB19CadenceCondition M (applied_cell M cc spec st) spec")
  have keep: "has_cond M (cc_Conditions (cc_Status cc3)) a"
    using c assms(1) ty
    by (auto simp: applySIB19CadenceCondition_def cc_set_cond_def cc_remove_cond_def ap k8s_simps cell_condition_names split: if_splits option.splits)
  from assms(2) consider "SetStatusCondition M ?cs a \<noteq> ?cs" | m where "warn = Some m" "ep"
    by (auto simp: announced_def c ap emitSIB19CadenceWarning_def split: if_splits option.splits)
  then show ?thesis
  proof cases
    case 1
    then have "\<not> has_cond M ?cs a" using set_has_cond [OF assms(1)] by blast
    then show ?thesis using keep c ty by (intro exI [of _ a]) (simp add: cell_condition_names)
  next
    case (2 m)
    let ?b = "mkCond ConditionSIB19CadenceSane ConditionFalse ''InsufficientSIB19Margin'' m (cc_Generation cc)"
    have e: "conditionEpisodeChanged (FindStatusCondition M ?cs ConditionSIB19CadenceSane) ConditionFalse ''InsufficientSIB19Margin'' (cc_Generation cc)"
      "has_cond M (cc_Conditions (cc_Status cc3)) ?b"
      using c 2 assms(1) ty
      by (auto simp: applySIB19CadenceCondition_def cc_set_cond_def ap k8s_simps cell_condition_names split: if_splits option.splits)
    show ?thesis using episode_new [OF e(1)] e(2) c by (intro exI [of _ ?b]) (simp add: cell_condition_names)
  qed
qed


text \<open>The discipline: no event before the one status write, none without it, and a failed write is the result.\<close>

definition ordered :: "cell_io \<Rightarrow> cell_effect list \<Rightarrow> duration result \<Rightarrow> bool" where
  "ordered io eff res \<longleftrightarrow>
     (\<forall>t r m. CellEvent t r m \<in> set eff \<longrightarrow>
        (\<exists>a c b. eff = a @ WriteCell c True # b \<and> (\<forall>t r m. CellEvent t r m \<notin> set a) \<and> (\<forall>c d. WriteCell c d \<notin> set a \<union> set b)))
     \<and> (\<forall>c. WriteCell c False \<in> set eff \<longrightarrow> (\<exists>e. cio_write io c = Some e \<and> res = Inl e))"

fun mute :: "cell_effect \<Rightarrow> bool" where
  "mute (CellEvent t r m) = False"
| "mute (WriteCell c b) = False"
| "mute e = True"

lemma mute_not: "list_all mute a \<Longrightarrow> CellEvent t r m \<notin> set a" "list_all mute a \<Longrightarrow> WriteCell c b \<notin> set a"
  by (auto simp: list_all_iff)

lemma ordered_mute: "list_all mute eff \<Longrightarrow> ordered io eff res"
  by (simp add: ordered_def mute_not)

lemma ordered_prefix: "list_all mute a \<Longrightarrow> ordered io eff res \<Longrightarrow> ordered io (a @ eff) res"
proof -
  assume a: "list_all mute a" and o: "ordered io eff res"
  have "\<exists>a' c b. a @ eff = a' @ WriteCell c True # b \<and> (\<forall>t r m. CellEvent t r m \<notin> set a') \<and> (\<forall>c d. WriteCell c d \<notin> set a' \<union> set b)"
    if "CellEvent t r m \<in> set (a @ eff)" for t r m
  proof -
    from that o mute_not [OF a] obtain x c b where "eff = x @ WriteCell c True # b" "\<forall>t r m. CellEvent t r m \<notin> set x"
      "\<forall>c d. WriteCell c d \<notin> set x \<union> set b" by (auto simp: ordered_def)
    then show ?thesis using mute_not [OF a] by (intro exI [of _ "a @ x"] exI [of _ c] exI [of _ b]) auto
  qed
  then show ?thesis using o mute_not [OF a] by (auto simp: ordered_def)
qed

lemma write_first:
  assumes "persistStatusIfChanged io c old = (err, w)" "(eff, res) = finish err (a @ w) (b, r)" "list_all mute a"
    "\<forall>c d. WriteCell c d \<notin> set b" "\<not> list_all mute b \<Longrightarrow> old \<noteq> cc_Status c"
  shows "ordered io eff res"
proof (cases "old = cc_Status c")
  case True
  then have "eff = a @ b" "list_all mute b" using assms by (auto simp: persistStatusIfChanged_def finish_def)
  then show ?thesis using assms(3) by (simp add: ordered_mute)
next
  case False
  show ?thesis
  proof (cases "cio_write io c")
    case None
    then have "eff = a @ WriteCell c True # b" using False assms(1,2) by (auto simp: persistStatusIfChanged_def finish_def)
    then show ?thesis using mute_not [OF assms(3)] assms(4) by (auto simp: ordered_def) blast+
  next
    case (Some e)
    then have "eff = a @ [WriteCell c False]" "res = Inl e" using False assms(1,2)
      by (auto simp: persistStatusIfChanged_def finish_def split: option.splits)
    then show ?thesis using mute_not [OF assms(3)] Some by (auto simp: ordered_def)
  qed
qed

lemma announced_writes: "WriteCell c d \<notin> set (announced M io cc spec st)"
  using announced_events by (fastforce simp: list_all_iff)

lemma announced_mute: "announced M io cc spec st = [] \<Longrightarrow> list_all mute (announced M io cc spec st)"
  by simp

lemma conditions_differ: "has_cond M (cc_Conditions s) c \<noteq> has_cond M (cc_Conditions t) c \<Longrightarrow> s \<noteq> t"
  by auto

lemma push_mute:
  assumes "pushEphemerisUpdateIfNeeded M R io cc3 spec p = (r, cc4, e1)" "EphemerisRef spec \<noteq> ''''"
  shows "list_all mute e1"
proof -
  have "mute x" if "x \<in> set e1" for x using push_shape [OF assms] that by (cases x rule: mute.cases) auto
  then show ?thesis by (simp add: list_all_iff)
qed

lemma after_status_ordered:
  assumes "meta_laws M" "after_status M R io cc spec p st = (eff, res)"
  shows "ordered io eff res"
proof -
  let ?cs = "cc_Conditions (cc_Status cc)" and ?cc3 = "cadence_cell M cc spec st" and ?an = "announced M io cc spec st"
  have gen: "cc_Meta ?cc3 = cc_Meta cc" using cadence_same_cell by (simp add: same_cell_def)
  have new: "cc_Status cc \<noteq> cc_Status c"
    if an: "?an \<noteq> []" and k: "\<And>d. cond_Type d \<noteq> ConditionEphemerisPushed \<Longrightarrow> has_cond M (cc_Conditions (cc_Status ?cc3)) d
      \<Longrightarrow> has_cond M (cc_Conditions (cc_Status c)) d" for c
    using announced_new [OF assms(1) an] k by (metis conditions_differ)
  have set_keeps: "has_cond M (cc_Conditions (cc_Status (cc_set_cond M ConditionEphemerisPushed s r m x))) d"
    if "cond_Type d \<noteq> ConditionEphemerisPushed" "has_cond M (cc_Conditions (cc_Status x)) d" for s r m x d
    using that assms(1) by (simp add: cc_set_cond_def k8s_simps)
  from assms(2) show ?thesis
  proof (cases rule: after_status_cases)
    case (bare err w)
    have k: "has_cond M (cc_Conditions (cc_Status (cc_remove_cond M ConditionEphemerisPushed ?cc3))) d"
      if "cond_Type d \<noteq> ConditionEphemerisPushed" "has_cond M (cc_Conditions (cc_Status ?cc3)) d" for d
      using that assms(1) by (simp add: cc_remove_cond_def k8s_simps)
    have "cc_Status cc \<noteq> cc_Status (cc_remove_cond M ConditionEphemerisPushed ?cc3)" if "\<not> list_all mute ?an"
      by (rule new) (use that k in auto)
    then show ?thesis
      by (intro write_first [OF bare(2), of eff res "[apply_gauge cc 1, DropSeries ''EphemerisPushReady'' (cc_Key cc)]" ?an])
         (use bare(3) announced_writes in auto)
  next
    case (failed e cc4 e1 e2)
    let ?r = "ephemerisPushConditionReason e"
    let ?c = "cc_set_cond M ConditionEphemerisPushed ConditionFalse ?r (err_msg e) cc4"
    let ?ch = "conditionEpisodeChanged (cc_find M cc4 ConditionEphemerisPushed) ConditionFalse ?r (cc_Generation cc4)"
    let ?b = "?an @ [IncCounter ''EphemerisPushErrorsTotal'' (cc_Key cc4) ?r, push_gauge cc4 0]
       @ (if ?ch \<and> cio_recorder io then [CellEvent ''Warning'' ''EphemerisPushFailed'' (err_msg e)] else [])"
    note ps = push_shape [OF failed(2,1)]
    obtain err w where w: "persistStatusIfChanged io ?c (cc_Status cc) = (err, w)" by (cases "persistStatusIfChanged io ?c (cc_Status cc)")
    have find: "cc_find M cc4 ConditionEphemerisPushed = cc_find M cc ConditionEphemerisPushed"
      using ps assms(1)
      by (simp add: applySIB19CadenceCondition_def applied_cell_def cc_set_cond_def cc_remove_cond_def k8s_simps cell_condition_names split: option.splits)
    have "cc_Status cc \<noteq> cc_Status ?c" if "\<not> list_all mute ?b"
    proof (cases "?an = []")
      case False
      then show ?thesis using set_keeps ps by (intro new) auto
    next
      case True
      then have ch: ?ch using that by (auto split: if_splits)
      let ?d = "mkCond ConditionEphemerisPushed ConditionFalse ?r (err_msg e) (cc_Generation cc4)"
      have "\<not> has_cond M ?cs ?d" using episode_new [OF ch [unfolded find]] .
      moreover have "has_cond M (cc_Conditions (cc_Status ?c)) ?d" using assms(1) by (simp add: cc_set_cond_def k8s_simps)
      ultimately show ?thesis by (metis conditions_differ)
    qed
    moreover have "\<exists>r. (e2, res) = finish err ([] @ w) (?b, r)" using failed(3) by (auto simp: w Let_def)
    ultimately have "ordered io e2 res" using write_first [OF w, of e2 res "[]" ?b] announced_writes by (auto split: if_splits)
    then show ?thesis unfolding failed(4) using ordered_prefix [of "apply_gauge cc 1 # e1"] push_mute [OF failed(2,1)] by simp
  next
    case (pushed b m cc4 cc5 e1 err w)
    note ps = push_shape [OF pushed(2,1)]
    have "cc_Status cc \<noteq> cc_Status cc5" if "\<not> list_all mute ?an"
      using that set_keeps ps pushed(3) by (intro new) (auto split: if_splits)
    then show ?thesis
      by (intro write_first [OF pushed(4), of eff res "apply_gauge cc 1 # e1 @ [push_gauge cc 1]" ?an])
         (use pushed(5) announced_writes push_mute [OF pushed(2,1)] in auto)
  qed
qed


lemma apply_failed_ordered:
  assumes "meta_laws M" "apply_failed M io cc spec e = (eff, res)"
  shows "ordered io eff res"
proof -
  let ?r = "if errors_Is e ConfigMapNotOwned then ''OwnershipConflict'' else ''ApplyFailed''"
  let ?ep = "conditionEpisodeChanged (cc_find M cc ConditionConfigApplied) ConditionFalse ?r (cc_Generation cc)"
  let ?c = "cc_set_cond M ConditionConfigApplied ConditionFalse ?r (err_msg e) (clear_koffset cc)"
  let ?d = "mkCond ConditionConfigApplied ConditionFalse ?r (err_msg e) (cc_Generation cc)"
  obtain err w where w: "persistStatusIfChanged io ?c (cc_Status cc) = (err, w)" by (cases "persistStatusIfChanged io ?c (cc_Status cc)")
  have "cc_Status cc \<noteq> cc_Status ?c" if ?ep
  proof -
    have "\<not> has_cond M (cc_Conditions (cc_Status cc)) ?d" using episode_new [OF that] .
    moreover have "has_cond M (cc_Conditions (cc_Status ?c)) ?d" using assms(1) by (simp add: cc_set_cond_def k8s_simps clear_koffset_def)
    ultimately show ?thesis by (metis conditions_differ)
  qed
  then show ?thesis
    by (intro write_first [OF w, of eff res "[IncCounter ''ConfigApplyErrorsTotal'' (cc_Key cc) (prov_Type (cs_Provider spec)), apply_gauge cc 0]"
          "if ?ep \<and> cio_recorder io then [CellEvent ''Warning'' ?r (err_msg e)] else []" "Inr minute"])
       (use assms(2) w in \<open>auto simp: apply_failed_def Let_def split: if_splits\<close>)
qed

lemma silent_failures_ordered:
  "status_failed M io cc e = (eff, res) \<Longrightarrow> ordered io eff res"
  "no_provider M io cc reason m d = (eff, res) \<Longrightarrow> ordered io eff res"
proof -
  let ?c = "cc_set_cond M ConditionConfigApplied ConditionUnknown ''StatusCheckFailed''
             (Lit ''Config applied but status verification failed: '' # err_msg e) cc"
  assume s: "status_failed M io cc e = (eff, res)"
  obtain err w where w: "persistStatusIfChanged io ?c (cc_Status cc) = (err, w)" by (cases "persistStatusIfChanged io ?c (cc_Status cc)")
  show "ordered io eff res"
    by (rule write_first [OF w, of eff res "[apply_gauge cc 0]" "[]" "Inr minute"]) (use s w in \<open>simp_all add: status_failed_def\<close>)
next
  let ?c = "cc_set_cond M ConditionConfigApplied ConditionFalse reason m (clear_koffset cc)"
  assume s: "no_provider M io cc reason m d = (eff, res)"
  obtain err w where w: "persistStatusIfChanged io ?c (cc_Status cc) = (err, w)" by (cases "persistStatusIfChanged io ?c (cc_Status cc)")
  show "ordered io eff res"
    by (rule write_first [OF w, of eff res "[apply_gauge cc 0]" "[]" "Inr d"]) (use s w in \<open>simp_all add: no_provider_def\<close>)
qed

lemma finalizer_mute:
  assumes "handleFinalizer io cc prov = Some (eff, res)"
  shows "list_all mute eff"
  using assms
proof (cases rule: finalizer_cases)
  case (cleaning err ceff)
  have "list_all mute ceff" using cleaning(3)
    by (cases prov) (auto simp: cleanup_by_ref_def apsnd_def map_prod_def list_all_iff Let_def split: if_splits get.splits prod.splits)
  then show ?thesis using cleaning(4) by (cases err) (auto simp: drop_series_def remove_finalizer_def Let_def)
qed (auto simp: drop_series_def)

text \<open>C24: Events describe what is stored. In every reconcile, whatever the provider does, each event comes after the one
  write of the status, which the API server has accepted, and there is no event without that write; a write that is
  refused is the result of the reconcile, and nothing is announced. So an event is neither emitted for a state that
  was not recorded nor repeated by the retry of a failed write.\<close>

theorem cell_events_follow_write:
  assumes "meta_laws M" "CellReconcile M R io = (eff, res)"
  shows "(\<forall>t r m. CellEvent t r m \<in> set eff \<longrightarrow>
       (\<exists>a c b. eff = a @ WriteCell c True # b \<and> (\<forall>t r m. CellEvent t r m \<notin> set a) \<and> (\<forall>c d. WriteCell c d \<notin> set a \<union> set b)))
     \<and> (\<forall>c. WriteCell c False \<in> set eff \<longrightarrow> (\<exists>e. cio_write io c = Some e \<and> res = Inl e))"
  unfolding ordered_def [symmetric] using assms(2)
proof (cases rule: cell_reconcile_cases)
  case absent
  then show "ordered io eff res" by (simp add: ordered_mute)
next
  case (final cc)
  then show "ordered io eff res" using finalizer_mute ordered_mute by blast
next
  case (unregistered cc reason m d)
  then show "ordered io eff res" using silent_failures_ordered(2) by blast
next
  case (live cc ps p)
  have q: "list_all mute (map Provider l)" for l by (simp add: list_all_iff)
  from live(5) show "ordered io eff res"
  proof (cases rule: with_provider_cases)
    case (rejected e e1 e2)
    then show ?thesis using ordered_prefix [OF q] apply_failed_ordered [OF assms(1)] by blast
  next
    case (status e e1 e2)
    then show ?thesis using ordered_prefix [OF q] silent_failures_ordered(1) by blast
  next
    case (applied st e1 e2)
    then show ?thesis using ordered_prefix [OF q] after_status_ordered [OF assms(1)] by blast
  qed
qed

end
