(* ===== verification/Cell_Steady.thy ===== *)
theory Cell_Steady
  imports Cell_Order
begin

text \<open>
  Theorems on how a reconcile of an NTNCellConfig ends: what a claim of readiness rests on, that every failure which
  nothing watches is tried again, and that a resource which has converged is left alone.
\<close>

section \<open>Readiness\<close>

lemma after_status_apply_gauge: "after_status M R io cc spec p st = (eff, res) \<Longrightarrow> apply_gauge cc 1 \<in> set eff"
  by (erule after_status_cases) (auto simp: finish_def split: option.splits)

lemma failures_not_ready:
  "apply_failed M io cc spec e = (eff, res) \<Longrightarrow> apply_gauge cc 0 \<in> set eff \<and> SetGauge s k 1 \<notin> set eff"
  "status_failed M io cc e = (eff, res) \<Longrightarrow> apply_gauge cc 0 \<in> set eff \<and> SetGauge s k 1 \<notin> set eff"
  "no_provider M io cc reason m d = (eff, res) \<Longrightarrow> apply_gauge cc 0 \<in> set eff \<and> SetGauge s k 1 \<notin> set eff"
  by (auto simp: apply_failed_def status_failed_def no_provider_def finish_def Let_def persistStatusIfChanged_def
      split: option.splits if_splits prod.splits)

text \<open>C25: \<open>ConfigApplyReady\<close> is 1 only for a configuration that was written. When a reconcile of a live resource that
  carries the finalizer sets it to 1, the document generated from the spec, with the namespace forced to the resource's
  own, was accepted by the API server (or was there already) in a ConfigMap that the resource controls, together with its
  K-offset; and the read-back that follows either found a ConfigMap that the resource controls, with a document, or found
  none at all (\<open>unverified_ready\<close>: the code does not tell that from success). A reconcile of such a resource that does
  not set it to 1 sets it to 0; the reconcile that first adds the finalizer sets neither.\<close>

theorem ready_means_applied:
  assumes "owner_api_laws oio" "CellReconcile M (ocudu_reconciler oio w flag) io = (eff, res)" "cio_get io = Found cc"
    "om_DeletionTimestamp (cc_Meta cc) = None" "finalizerName \<in> set (om_Finalizers (cc_Meta cc))"
  shows "(apply_gauge cc 1 \<in> set eff \<longrightarrow>
       (\<exists>yaml u cm. GenerateConfig (oio_IsPrint oio) (Some (forced_spec cc)) = Inr yaml
          \<and> Provider ` CmWrite ` set u \<subseteq> set eff \<and> server_cm oio cc u = Some cm
          \<and> oio_IsControlledBy oio cm (cc_Meta cc) \<and> km_Data cm configDataKey = Some yaml
          \<and> om_Annotations (km_Meta cm) koffsetAnnotation = Some (Itoa (CellSpecificKoffset (NTN (cc_Spec cc))))
          \<and> (case oio_status_get oio (cm_key (om_Namespace (cc_Meta cc)) (om_Name (cc_Meta cc))) of
               Found rb \<Rightarrow> oio_IsControlledBy oio rb (cc_Meta cc) \<and> km_Data rb configDataKey \<noteq> None
             | NotFound \<Rightarrow> True
             | GetError _ \<Rightarrow> False)))
     \<and> (apply_gauge cc 1 \<notin> set eff \<longrightarrow> apply_gauge cc 0 \<in> set eff)"
  using assms(2)
proof (cases rule: cell_reconcile_cases)
  case absent
  then show ?thesis using assms(3) by simp
next
  case (final cc')
  then show ?thesis using assms(3-5) finalizer_none by (metis get.inject option.distinct(1))
next
  case (unregistered cc' reason m d)
  then show ?thesis using assms(3) failures_not_ready(3) by auto
next
  case (live cc' ps p)
  have cc: "cc' = cc" "p = ocudu_provider oio w"
    using live(1-3) assms(3) by (auto simp: ocudu_reconciler_def split: if_splits)
  from live(5) show ?thesis unfolding cc
  proof (cases rule: with_provider_cases)
    case (rejected e e1 e2)
    then show ?thesis using failures_not_ready(1) by auto
  next
    case (status e e1 e2)
    then show ?thesis using failures_not_ready(2) by auto
  next
    case (applied st e1 e2)
    obtain u where u: "ApplyCellConfig oio cc (Some (forced_spec cc)) = (None, u)" "e1 = map CmWrite u"
      using applied(1) by (cases "ApplyCellConfig oio cc (Some (forced_spec cc))") auto
    from apply_good [OF assms(1) u(1)] obtain yaml cm where g: "GenerateConfig (oio_IsPrint oio) (Some (forced_spec cc)) = Inr yaml"
      "server_cm oio cc u = Some cm" "good_cm oio cc yaml (CellSpecificKoffset (NTN (forced_spec cc))) cm" by blast
    have "Provider ` CmWrite ` set u \<subseteq> set eff" using applied(4) u(2) by auto
    moreover have "case oio_status_get oio (cm_key (om_Namespace (cc_Meta cc)) (om_Name (cc_Meta cc))) of
        Found rb \<Rightarrow> oio_IsControlledBy oio rb (cc_Meta cc) \<and> km_Data rb configDataKey \<noteq> None | NotFound \<Rightarrow> True | GetError _ \<Rightarrow> False"
      using applied(2) by (auto simp: GetCellStatus_def Let_def split: if_splits get.splits)
    ultimately show ?thesis using g applied(4) after_status_apply_gauge [OF applied(3)] by (auto simp: good_cm_def)
  qed
qed

text \<open>The read-back does not verify when the object is not there: the status is then empty, and the reconcile goes on
  to claim readiness.\<close>

lemma unverified_ready:
  assumes "om_Namespace (cc_Meta cc) \<noteq> ''''" "oio_status_get oio (cm_key (om_Namespace (cc_Meta cc)) (om_Name (cc_Meta cc))) = NotFound"
    "ApplyCellConfig oio cc (Some (forced_spec cc)) = (None, u)"
  shows "\<exists>eff res. with_provider M R io cc (ocudu_provider oio w) = (eff, res) \<and> apply_gauge cc 1 \<in> set eff"
proof -
  have "GetCellStatus oio cc = Inr zero_status" using assms(1,2) by (simp add: GetCellStatus_def)
  then show ?thesis using assms(3) after_status_apply_gauge
    by (cases "after_status M R io cc (forced_spec cc) (ocudu_provider oio w) zero_status") (fastforce simp: with_provider_def)
qed

section \<open>Retries\<close>

lemma reason_new: "r \<noteq> '''' \<Longrightarrow> ephemerisPushConditionReason (newEphemerisPushError r e) = r"
  by (simp add: ephemerisPushConditionReason_def newEphemerisPushError_def map_filter_simps)

text \<open>The gNB, or the encoding of the frame, refuses the very update that this reconcile has to send: the endpoint is
  allowed, the credential resolves, and the push to it of the state, with the switch that is pending, is rejected.\<close>

definition update_refused :: "CellReconciler \<Rightarrow> ws_io \<Rightarrow> cell_io \<Rightarrow> NTNCellConfig \<Rightarrow> SatelliteEphemeris \<Rightarrow> RemoteControlRef \<Rightarrow> CellID
    \<Rightarrow> PropagatedState \<Rightarrow> bool" where
  "update_refused R w io cc eph rc cell state =
     (case Check (cio_ParseURL io) (cr_AllowedHosts R) (''https://'' @ rc_Endpoint rc) of
        Inl _ \<Rightarrow> False
      | Inr _ \<Rightarrow>
          (case fst (resolveRemoteControlTLS io (om_Namespace (eph_Meta eph)) rc) of
             Inl _ \<Rightarrow> False
           | Inr (tls, token) \<Rightarrow>
               (case fst (PushRuntimeUpdate w \<lparr>rrc_Endpoint = rc_Endpoint rc, rrc_TLSConfig = tls, AuthToken = token\<rparr>
                       (runtime_update (cc_Spec cc) cell state (fst (pending_switch cc (cc_Spec cc))))) of
                  None \<Rightarrow> False
                | Some e \<Rightarrow> errors_Is e RuntimePushRejected)))"

text \<open>The failures that are cured by an edit of the resource or a new state of its ephemeris, both of which are watched:
  the ephemeris does not exist, its states are of other inputs, it has no state for the cell or a state that is not
  current, or the update itself is refused.\<close>

definition watched_cause :: "CellReconciler \<Rightarrow> ws_io \<Rightarrow> cell_io \<Rightarrow> NTNCellConfig \<Rightarrow> bool" where
  "watched_cause R w io cc =
     (case cio_eph io \<lparr>nn_Namespace = om_Namespace (cc_Meta cc), nn_Name = EphemerisRef (cc_Spec cc)\<rparr> of
        NotFound \<Rightarrow> True
      | GetError _ \<Rightarrow> False
      | Found eph \<Rightarrow>
          (case (RemoteControl (cs_Provider (cc_Spec cc)), cs_CellID (cc_Spec cc)) of
             (Some rc, Some cell) \<Rightarrow>
               PropagatedStatesInputHash (eph_Status eph) \<noteq> propagationInputHash (cio_IsPrint io) (eph_Spec eph)
               \<or> (case selectPropagatedState (PropagatedStates (eph_Status eph)) (EphemerisNoradID (cc_Spec cc)) of
                    None \<Rightarrow> True
                  | Some state \<Rightarrow> currency_gate io eph state \<noteq> None \<or> update_refused R w io cc eph rc cell state)
           | _ \<Rightarrow> False))"

lemmas requeue_defs = ephemerisPushShouldRequeue_def push_reasons

lemma pending_forced:
  "LastPushedSatSwitchDigest (cc_Status cc3) = LastPushedSatSwitchDigest (cc_Status cc) \<Longrightarrow>
     pending_switch cc3 (forced_spec cc) = pending_switch cc (cc_Spec cc)"
  by (simp add: pending_switch_def cong: option.case_cong)

lemma update_forced: "runtime_update (forced_spec cc) cell state sw = runtime_update (cc_Spec cc) cell state sw"
  by (simp add: runtime_update_def effectiveUlSyncValidityDurSeconds_def)

lemma deliver_cause:
  assumes "deliver R io cc3 (forced_spec cc) eph (ocudu_provider oio w) rc cell state marker = (Inl e, cc4, e1)"
    "LastPushedSatSwitchDigest (cc_Status cc3) = LastPushedSatSwitchDigest (cc_Status cc)"
    "\<not> ephemerisPushShouldRequeue (ephemerisPushConditionReason e)"
  shows "update_refused R w io cc eph rc cell state"
proof (rule ccontr)
  assume n: "\<not> ?thesis"
  have ok: "ephemerisPushShouldRequeue (ephemerisPushConditionReason (newEphemerisPushError x e'))"
    if "x \<in> {ephemerisReasonRemoteEndpointRejected, ephemerisReasonProviderPushFailed, ephemerisReasonRemoteControlEndpointNotAllowed,
      ephemerisReasonRemoteControlCredential}" for x e'
  proof -
    have "x \<noteq> ''''" using that by (auto simp: push_reasons)
    then show ?thesis using that by (auto simp: reason_new requeue_defs)
  qed
  have "\<exists>x er. e = newEphemerisPushError x er \<and> x \<in> {ephemerisReasonRemoteEndpointRejected, ephemerisReasonProviderPushFailed,
      ephemerisReasonRemoteControlEndpointNotAllowed, ephemerisReasonRemoteControlCredential}"
    using assms(1) n pending_forced [OF assms(2)]
    by (auto simp: deliver_def push_fail_def split_beta Let_def update_refused_def update_forced runtime_reason_def
        split: sum.splits option.splits if_splits)
  with ok assms(3) show False by blast
qed

lemma push_cause:
  assumes "pushEphemerisUpdateIfNeeded M R io cc3 (forced_spec cc) (ocudu_provider oio w) = (Inl e, cc4, e1)"
    "cc_Meta cc3 = cc_Meta cc" "LastPushedSatSwitchDigest (cc_Status cc3) = LastPushedSatSwitchDigest (cc_Status cc)"
    "EphemerisRef (cc_Spec cc) \<noteq> ''''" "one_kind (spec_update (cc_Spec cc))"
    "\<not> ephemerisPushShouldRequeue (ephemerisPushConditionReason e)"
  shows "watched_cause R w io cc"
proof (cases "cio_eph io \<lparr>nn_Namespace = om_Namespace (cc_Meta cc), nn_Name = EphemerisRef (cc_Spec cc)\<rparr>")
  case (Found eph)
  note d = assms(1) [unfolded pushEphemerisUpdateIfNeeded_def, simplified Let_def forced_simps assms(2) Found get.case] assms(4)
  show ?thesis
  proof (cases "\<exists>rc cell. RemoteControl (cs_Provider (cc_Spec cc)) = Some rc \<and> cs_CellID (cc_Spec cc) = Some cell")
    case False
    have "ephemerisPushShouldRequeue (ephemerisPushConditionReason (newEphemerisPushError ephemerisReasonProviderPushFailed x))" for x
      by (simp add: reason_new requeue_defs)
    then show ?thesis using d False assms(5,6)
      by (auto simp: push_fail_def one_kind_def spec_update_def split: option.splits if_splits prod.splits)
  next
    case True
    then obtain rc cell where rc: "RemoteControl (cs_Provider (cc_Spec cc)) = Some rc" "cs_CellID (cc_Spec cc) = Some cell" by blast
    have p: "pushRuntimeEphemeris M R io cc3 (forced_spec cc) eph (ocudu_provider oio w) rc cell = (Inl e, cc4, e1)"
      using d rc by simp
    have amb: "ephemerisPushShouldRequeue (ephemerisPushConditionReason (newEphemerisPushError ephemerisReasonSelectionAmbiguous x))" for x
      by (simp add: reason_new requeue_defs)
    show ?thesis
    proof (rule ccontr)
      assume n: "\<not> watched_cause R w io cc"
      then obtain state where g: "PropagatedStatesInputHash (eph_Status eph) = propagationInputHash (cio_IsPrint io) (eph_Spec eph)"
        "selectPropagatedState (PropagatedStates (eph_Status eph)) (EphemerisNoradID (cc_Spec cc)) = Some state" "currency_gate io eph state = None"
        "\<not> update_refused R w io cc eph rc cell state"
        using rc by (auto simp: watched_cause_def Found split: option.splits)
      have "deliver R io cc3 (forced_spec cc) eph (ocudu_provider oio w) rc cell state (runtimeEphemerisPushMarker eph state) = (Inl e, cc4, e1)"
        using p g(1-3) amb assms(6) by (auto simp: pushRuntimeEphemeris_def push_fail_def Let_def split: if_splits)
      from deliver_cause [OF this assms(3,6)] g(4) show False by blast
    qed
  qed
next
  case NotFound
  then show ?thesis by (simp add: watched_cause_def)
next
  case (GetError er)
  have "ephemerisPushShouldRequeue (ephemerisPushConditionReason (newEphemerisPushError ephemerisReasonGetFailed x))" for x
    by (simp add: reason_new requeue_defs)
  then show ?thesis using assms GetError by (auto simp: pushEphemerisUpdateIfNeeded_def push_fail_def Let_def)
qed

lemma forced_one_kind: "spec_update (forced_spec cc) = spec_update (cc_Spec cc)"
  by (simp add: spec_update_def)

lemma applied_one_kind: "ApplyCellConfig oio cc (Some spec) = (None, u) \<Longrightarrow> one_kind (spec_update spec)"
proof -
  assume "ApplyCellConfig oio cc (Some spec) = (None, u)"
  then have "\<exists>y. GenerateConfig (oio_IsPrint oio) (Some spec) = Inr y"
    by (auto simp: ApplyCellConfig_def Let_def split: if_splits sum.splits)
  then show ?thesis by (simp add: GenerateConfig_ok_iff)
qed

lemma requeue_positive: "ephemerisPushRequeueInterval r \<noteq> 0"
  by (simp add: ephemerisPushRequeueInterval_def remoteControlConfigRequeue_def)

text \<open>C11: No cell is stranded. When a reconcile of a live resource of the OCUDU provider ends without an error and does
  not ask to run again, the push has failed for a cause that a watched object must change to cure (and is reported as
  failed): the ephemeris is missing, outdated or without a current state for the cell, or the very update this reconcile
  had to send was refused by an allowed endpoint with a credential that resolved. Every other end, in particular every failure whose cure is in a Secret, a flag, a ConfigMap or the network,
  is an error that the work queue retries or asks for a later run.\<close>

theorem never_stranded:
  assumes "CellReconcile M (ocudu_reconciler oio w flag) io = (eff, Inr 0)" "cio_get io = Found cc"
    "om_DeletionTimestamp (cc_Meta cc) = None" "prov_Type (cs_Provider (cc_Spec cc)) = ''ocudu''"
  shows "watched_cause (ocudu_reconciler oio w flag) w io cc \<and> push_gauge cc 0 \<in> set eff"
proof -
  have pos: "minute \<noteq> 0" "5 * minute \<noteq> 0" "second \<noteq> 0" by simp_all
  from assms(1) show ?thesis
  proof (cases rule: cell_reconcile_cases)
    case absent
    then show ?thesis using assms(2) by simp
  next
    case (final cc')
    then show ?thesis using assms(2,3) pos by (auto simp: handleFinalizer_def Let_def split: if_splits option.splits)
  next
    case (unregistered cc' reason m d)
    then show ?thesis using assms(2,4) by (auto simp: ocudu_reconciler_def)
  next
    case (live cc' ps p)
    have cc: "cc' = cc" "p = ocudu_provider oio w"
      using live(1-3) assms(2) by (auto simp: ocudu_reconciler_def split: if_splits)
    from live(5) show ?thesis unfolding cc
    proof (cases rule: with_provider_cases)
      case (rejected e e1 e2)
      then show ?thesis using pos by (auto simp: apply_failed_def finish_def Let_def split: prod.splits option.splits)
    next
      case (status e e1 e2)
      then show ?thesis using pos by (auto simp: status_failed_def finish_def Let_def split: prod.splits option.splits)
    next
      case (applied st e1 e2)
      obtain u where u: "ApplyCellConfig oio cc (Some (forced_spec cc)) = (None, u)"
        using applied(1) by (cases "ApplyCellConfig oio cc (Some (forced_spec cc))") auto
      have kind: "one_kind (spec_update (cc_Spec cc))" using applied_one_kind [OF u] forced_one_kind by simp
      from applied(3) show ?thesis
      proof (cases rule: after_status_cases)
        case (bare err w)
        then show ?thesis using pos by (auto simp: finish_def split: option.splits)
      next
        case (failed e cc4 e1' e2')
        let ?r = "ephemerisPushConditionReason e"
        obtain err w' where w': "persistStatusIfChanged io (cc_set_cond M ConditionEphemerisPushed ConditionFalse ?r (err_msg e) cc4) (cc_Status cc) = (err, w')"
          by (cases "persistStatusIfChanged io (cc_set_cond M ConditionEphemerisPushed ConditionFalse ?r (err_msg e) cc4) (cc_Status cc)")
        have e: "err = None \<and> \<not> ephemerisPushShouldRequeue ?r \<and> push_gauge cc4 0 \<in> set e2'"
          using failed(3) requeue_positive [of ?r] by (cases err) (auto simp: w' finish_def Let_def split: if_splits)
        have m: "cc_Meta (cadence_cell M cc (forced_spec cc) st) = cc_Meta cc"
          "LastPushedSatSwitchDigest (cc_Status (cadence_cell M cc (forced_spec cc) st)) = LastPushedSatSwitchDigest (cc_Status cc)"
          using cadence_same_cell by (simp_all add: same_cell_def)
        have c4: "cc_Meta cc4 = cc_Meta cc" using push_shape [OF failed(2,1)] m by simp
        have "watched_cause (ocudu_reconciler oio w flag) w io cc" using push_cause [OF failed(2) m _ kind] failed(1) e by simp
        then show ?thesis using e c4 failed(4) applied(4) by (simp add: ObjectKeyFromObject_def)
      next
        case (pushed b m cc4 cc5 e1 err w)
        then show ?thesis using pos by (auto simp: finish_def split: option.splits)
      qed
    qed
  qed
qed


section \<open>A converged resource is left alone\<close>

lemma persist_final:
  assumes "persistStatusIfChanged io c (cc_Status cc) = (None, w)" "cc_Meta c = cc_Meta cc" "cc_Spec c = cc_Spec cc"
  shows "stored cc w = c"
  using assms by (auto simp: persistStatusIfChanged_def stored_def split: if_splits intro: NTNCellConfig.equality)

lemma cadence_idem:
  assumes "meta_laws M" "applySIB19CadenceCondition M x spec = (c3, warn, ep)" "cc_Meta c = cc_Meta x"
    "cc_find M c ConditionSIB19CadenceSane = cc_find M c3 ConditionSIB19CadenceSane"
  shows "applySIB19CadenceCondition M c spec = (c, warn, False)"
proof -
  have set_id: "cc_set_cond M t s r m c = c" if "has_cond M (cc_Conditions (cc_Status c)) (mkCond t s r m (cc_Generation c))" for t s r m
    using set_has_cond [OF assms(1) that] by (simp add: cc_set_cond_def)
  have has: "has_cond M (cc_Conditions (cc_Status c)) d \<longleftrightarrow> has_cond M (cc_Conditions (cc_Status c3)) d"
    if "cond_Type d = ConditionSIB19CadenceSane" for d
    using assms(4) that by (simp add: has_cond_def)
  have no_ep: "\<not> conditionEpisodeChanged (cc_find M c t) s r (cc_Generation c)"
    if "has_cond M (cc_Conditions (cc_Status c)) (mkCond t s r m (cc_Generation c))" for t s r m
    using that episode_new by blast
  show ?thesis
  proof (cases "sib19EpochReanchored spec")
    case False
    have "cc_find M c ConditionSIB19CadenceSane = None"
      using assms(1,2,4) False by (auto simp: applySIB19CadenceCondition_def cc_remove_cond_def k8s_simps)
    then have "cc_remove_cond M ConditionSIB19CadenceSane c = c" using meta_remove_idem [OF assms(1)] by (simp add: cc_remove_cond_def)
    then show ?thesis using assms(2) False by (auto simp: applySIB19CadenceCondition_def)
  next
    case True
    show ?thesis
    proof (cases "sib19CadenceWarning spec")
      case None
      let ?m = "[Lit ''SIB19 broadcast cadence margin is within ntnUlSyncValidityDur; runtime epoch and ephemeris-push headroom are not evaluated by this condition'']"
      have "has_cond M (cc_Conditions (cc_Status c)) (mkCond ConditionSIB19CadenceSane ConditionTrue ''WithinValidity'' ?m (cc_Generation c))"
        using assms(1-3) True None by (subst has) (auto simp: applySIB19CadenceCondition_def cc_set_cond_def k8s_simps)
      from set_id [OF this] show ?thesis using assms(2) True None by (auto simp: applySIB19CadenceCondition_def)
    next
      case (Some m)
      have "has_cond M (cc_Conditions (cc_Status c)) (mkCond ConditionSIB19CadenceSane ConditionFalse ''InsufficientSIB19Margin'' m (cc_Generation c))"
        using assms(1-3) True Some by (subst has) (auto simp: applySIB19CadenceCondition_def cc_set_cond_def k8s_simps)
      from set_id [OF this] no_ep [OF this] show ?thesis using assms(2) True by (auto simp: applySIB19CadenceCondition_def Some)
    qed
  qed
qed

lemma after_status_idle:
  assumes "meta_laws M" "applied_cell M c spec st = c" "applySIB19CadenceCondition M c spec = (c, warn, False)"
    "EphemerisRef spec = '''' \<Longrightarrow> cc_find M c ConditionEphemerisPushed = None"
    "EphemerisRef spec \<noteq> '''' \<Longrightarrow> \<exists>m. pushEphemerisUpdateIfNeeded M R io c spec p = (Inr (False, m), c, [])"
  shows "after_status M R io c spec p st =
     ([apply_gauge c 1, if EphemerisRef spec = '''' then DropSeries ''EphemerisPushReady'' (cc_Key c) else push_gauge c 1], Inr (5 * minute))"
proof -
  have "cc_remove_cond M ConditionEphemerisPushed c = c" if "EphemerisRef spec = ''''"
    using meta_remove_idem [OF assms(1) assms(4) [OF that]] by (simp add: cc_remove_cond_def)
  then show ?thesis using assms(5) unfolding after_status_def Let_def applied_cell_def [symmetric] assms(2,3) prod.case
    by (auto simp: persistStatusIfChanged_def finish_def emitSIB19CadenceWarning_def split: option.splits)
qed

text \<open>The marker of a push: what it is and when the push is skipped because of it.\<close>

definition push_marker :: "cell_io \<Rightarrow> NTNCellConfig \<Rightarrow> string \<Rightarrow> bool" where
  "push_marker io cc m \<longleftrightarrow>
     (\<exists>eph. cio_eph io \<lparr>nn_Namespace = om_Namespace (cc_Meta cc), nn_Name = EphemerisRef (cc_Spec cc)\<rparr> = Found eph
        \<and> (case (RemoteControl (cs_Provider (cc_Spec cc)), cs_CellID (cc_Spec cc)) of
             (Some rc, Some cell) \<Rightarrow> (\<exists>R state. may_push R io cc rc cell eph state \<and> m = runtimeEphemerisPushMarker eph state)
           | _ \<Rightarrow> m = ephemerisPushMarker eph))"

lemma push_ok:
  assumes "pushEphemerisUpdateIfNeeded M R io cc3 (forced_spec cc) p = (Inr (b, m), cc4, e1)" "EphemerisRef (cc_Spec cc) \<noteq> ''''"
    "cc_Meta cc3 = cc_Meta cc"
  shows "push_marker io cc m \<and> (b \<or> isEphemerisPushUpToDate M cc3 m \<and> cc4 = cc3)"
proof -
  obtain eph where f: "cio_eph io \<lparr>nn_Namespace = om_Namespace (cc_Meta cc), nn_Name = EphemerisRef (cc_Spec cc)\<rparr> = Found eph"
    using assms by (cases "cio_eph io \<lparr>nn_Namespace = om_Namespace (cc_Meta cc), nn_Name = EphemerisRef (cc_Spec cc)\<rparr>")
      (auto simp: pushEphemerisUpdateIfNeeded_def push_fail_def Let_def)
  note d = assms(1) [unfolded pushEphemerisUpdateIfNeeded_def, simplified Let_def forced_simps assms(3) f get.case] assms(2)
  show ?thesis
  proof (cases "\<exists>rc cell. RemoteControl (cs_Provider (cc_Spec cc)) = Some rc \<and> cs_CellID (cc_Spec cc) = Some cell")
    case False
    then show ?thesis using d f
      by (auto simp: push_marker_def push_fail_def split: option.splits if_splits prod.splits)
  next
    case True
    then obtain rc cell where rc: "RemoteControl (cs_Provider (cc_Spec cc)) = Some rc" "cs_CellID (cc_Spec cc) = Some cell" by blast
    have "pushRuntimeEphemeris M R io cc3 (forced_spec cc) eph p rc cell = (Inr (b, m), cc4, e1)" using d rc by simp
    then show ?thesis
    proof (cases rule: runtime_cases)
      case (current state)
      then have "may_push R io cc rc cell eph state" using rc f by (simp add: may_push_def)
      then show ?thesis using current rc f by (auto simp: push_marker_def)
    next
      case (deliver state)
      then have "may_push R io cc rc cell eph state" using rc f by (simp add: may_push_def)
      moreover have "b \<and> m = runtimeEphemerisPushMarker eph state" using deliver(5)
        by (rule deliver_cases) (auto split: option.splits)
      ultimately show ?thesis using rc f by (auto simp: push_marker_def)
    qed simp
  qed
qed

lemma push_skipped:
  assumes "push_marker io cc m" "EphemerisRef (cc_Spec cc) \<noteq> ''''" "cc_Meta c = cc_Meta cc" "isEphemerisPushUpToDate M c m"
    "cio_eph io2 = cio_eph io" "cio_IsPrint io2 = cio_IsPrint io"
    "\<And>R rc cell eph state. may_push R io cc rc cell eph state \<Longrightarrow> currency_gate io2 eph state = None"
  shows "pushEphemerisUpdateIfNeeded M R2 io2 c (forced_spec cc) p = (Inr (False, m), c, [])"
proof -
  obtain eph where f: "cio_eph io \<lparr>nn_Namespace = om_Namespace (cc_Meta cc), nn_Name = EphemerisRef (cc_Spec cc)\<rparr> = Found eph"
    and m: "case (RemoteControl (cs_Provider (cc_Spec cc)), cs_CellID (cc_Spec cc)) of
             (Some rc, Some cell) \<Rightarrow> (\<exists>R state. may_push R io cc rc cell eph state \<and> m = runtimeEphemerisPushMarker eph state)
           | _ \<Rightarrow> m = ephemerisPushMarker eph" using assms(1) by (auto simp: push_marker_def)
  show ?thesis
  proof (cases "\<exists>rc cell. RemoteControl (cs_Provider (cc_Spec cc)) = Some rc \<and> cs_CellID (cc_Spec cc) = Some cell")
    case False
    then show ?thesis using assms(2-5) f m by (auto simp: pushEphemerisUpdateIfNeeded_def Let_def split: option.splits)
  next
    case True
    then obtain rc cell where rc: "RemoteControl (cs_Provider (cc_Spec cc)) = Some rc" "cs_CellID (cc_Spec cc) = Some cell" by blast
    then obtain R state where s: "may_push R io cc rc cell eph state" "m = runtimeEphemerisPushMarker eph state" using m by auto
    from assms(7) [OF s(1)] s assms(2-6) f rc show ?thesis
      by (auto simp: pushEphemerisUpdateIfNeeded_def pushRuntimeEphemeris_def may_push_def Let_def)
  qed
qed


text \<open>What is stored after a reconcile that ended well is a fixed point of the steps of the next one.\<close>

definition settled :: "meta_api \<Rightarrow> cell_io \<Rightarrow> NTNCellConfig \<Rightarrow> NTNCellConfigStatus \<Rightarrow> NTNCellConfig \<Rightarrow> bool" where
  "settled M io cc st c \<longleftrightarrow> cc_Meta c = cc_Meta cc \<and> cc_Spec c = cc_Spec cc \<and> applied_cell M c (forced_spec cc) st = c
     \<and> (\<exists>warn. applySIB19CadenceCondition M c (forced_spec cc) = (c, warn, False))
     \<and> (if EphemerisRef (cc_Spec cc) = '''' then cc_find M c ConditionEphemerisPushed = None
        else \<exists>m. push_marker io cc m \<and> isEphemerisPushUpToDate M c m)"

lemma settled_by_conditions:
  assumes "meta_laws M" "cc_Meta c = cc_Meta cc" "cc_Spec c = cc_Spec cc"
    "AppliedKoffset (cc_Status c) = AppliedKoffset st" "ConfigMapRef (cc_Status c) = ConfigMapRef st"
    "\<And>t. t \<noteq> ConditionEphemerisPushed \<Longrightarrow> cc_find M c t = cc_find M (cadence_cell M cc (forced_spec cc) st) t"
  shows "applied_cell M c (forced_spec cc) st = c \<and> (\<exists>warn. applySIB19CadenceCondition M c (forced_spec cc) = (c, warn, False))"
proof -
  let ?spec = "forced_spec cc" and ?a = "applied_cell M cc (forced_spec cc) st"
  let ?d = "mkCond ConditionConfigApplied ConditionTrue ''Applied''
     [Lit ''NTN config applied via '', Lit (prov_Type (cs_Provider ?spec)), Lit '' provider''] (cc_Generation c)"
  obtain c3 warn ep where c3: "applySIB19CadenceCondition M ?a ?spec = (c3, warn, ep)" by (cases "applySIB19CadenceCondition M ?a ?spec")
  have keep: "cc_find M c3 ConditionConfigApplied = cc_find M ?a ConditionConfigApplied"
    using c3 assms(1)
    by (auto simp: applySIB19CadenceCondition_def cc_set_cond_def cc_remove_cond_def k8s_simps cell_condition_names split: if_splits option.splits)
  have "has_cond M (cc_Conditions (cc_Status ?a)) ?d"
    using assms(1,2) by (simp add: applied_cell_def cc_set_cond_def k8s_simps)
  then have "has_cond M (cc_Conditions (cc_Status c)) ?d"
    using assms(6) [of ConditionConfigApplied] keep c3 by (simp add: has_cond_def cell_condition_names)
  from set_has_cond [OF assms(1) this] have "applied_cell M c ?spec st = c"
    using assms(4,5) by (simp add: applied_cell_def cc_set_cond_def)
  moreover have "cc_Meta c = cc_Meta ?a" using assms(2) by (simp add: applied_cell_def)
  then have "applySIB19CadenceCondition M c ?spec = (c, warn, False)"
    using cadence_idem [OF assms(1) c3] assms(6) [of ConditionSIB19CadenceSane] c3 by (simp add: cell_condition_names)
  ultimately show ?thesis by blast
qed

lemma cadence_status:
  "AppliedKoffset (cc_Status (cadence_cell M cc spec st)) = AppliedKoffset st"
  "ConfigMapRef (cc_Status (cadence_cell M cc spec st)) = ConfigMapRef st"
  by (simp_all add: applySIB19CadenceCondition_def applied_cell_def split: option.splits)

lemma push_status:
  assumes "pushEphemerisUpdateIfNeeded M R io cc3 spec p = (r, cc4, e1)" "EphemerisRef spec \<noteq> ''''"
  shows "AppliedKoffset (cc_Status cc4) = AppliedKoffset (cc_Status cc3)" "ConfigMapRef (cc_Status cc4) = ConfigMapRef (cc_Status cc3)"
proof -
  have "AppliedKoffset (cc_Status cc4) = AppliedKoffset (cc_Status cc3) \<and> ConfigMapRef (cc_Status cc4) = ConfigMapRef (cc_Status cc3)"
    using assms
  proof (cases rule: push_cases)
    case (runtime rc cell eph)
    from runtime(4) show ?thesis
    proof (cases rule: runtime_cases)
      case (deliver state)
      from deliver(5) show ?thesis by (rule deliver_cases) (auto split: option.splits)
    qed simp_all
  qed simp_all
  then show "AppliedKoffset (cc_Status cc4) = AppliedKoffset (cc_Status cc3)" "ConfigMapRef (cc_Status cc4) = ConfigMapRef (cc_Status cc3)" by blast+
qed

lemma after_status_settles:
  assumes "meta_laws M" "after_status M R io cc (forced_spec cc) p st = (eff, Inr (5 * minute))" "push_gauge cc 0 \<notin> set eff"
  shows "settled M io cc st (stored cc eff)"
proof -
  let ?spec = "forced_spec cc"
  let ?cc3 = "cadence_cell M cc ?spec st"
  have c3: "cc_Meta ?cc3 = cc_Meta cc" "cc_Spec ?cc3 = cc_Spec cc" using cadence_same_cell by (simp_all add: same_cell_def)
  from assms(2) show ?thesis
  proof (cases rule: after_status_cases)
    case (bare err w)
    let ?c = "cc_remove_cond M ConditionEphemerisPushed ?cc3"
    have "err = None" using bare(3) by (auto simp: finish_def split: option.splits)
    then have st: "stored cc eff = ?c"
      using finish_stored [OF bare(3) announced_inert] persist_final [of io ?c cc w] bare(2) c3 by (simp add: stored_Cons)
    have "cc_find M ?c t = cc_find M ?cc3 t" if "t \<noteq> ConditionEphemerisPushed" for t
      using that assms(1) by (simp add: cc_remove_cond_def k8s_simps)
    then have "applied_cell M ?c ?spec st = ?c \<and> (\<exists>warn. applySIB19CadenceCondition M ?c ?spec = (?c, warn, False))"
      using c3 cadence_status by (intro settled_by_conditions [OF assms(1)]) simp_all
    moreover have "cc_find M ?c ConditionEphemerisPushed = None" using assms(1) by (simp add: cc_remove_cond_def k8s_simps)
    ultimately show ?thesis using bare(1) c3 by (simp add: settled_def st)
  next
    case (failed e cc4 e1 e2)
    have c4: "cc_Meta cc4 = cc_Meta cc" using push_shape [OF failed(2,1)] c3 by simp
    have "push_gauge cc4 0 \<in> set e2" using failed(3) by (auto simp: finish_def Let_def split: prod.splits option.splits)
    then show ?thesis using assms(3) failed(4) c4 by (simp add: ObjectKeyFromObject_def)
  next
    case (pushed b m cc4 cc5 e1 err w)
    note ps = push_shape [OF pushed(2,1)] and pst = push_status [OF pushed(2,1)]
    have ref: "EphemerisRef (cc_Spec cc) \<noteq> ''''" using pushed(1) by simp
    note ok = push_ok [OF pushed(2) ref c3(1)]
    have c5: "cc_Meta cc5 = cc_Meta cc" "cc_Spec cc5 = cc_Spec cc" using pushed(3) ps c3 by (simp_all split: if_splits)
    have "err = None" using pushed(5) by (auto simp: finish_def split: option.splits)
    then have st: "stored cc eff = cc5"
      using finish_stored [OF pushed(5) announced_inert] persist_final [of io cc5 cc w] pushed(4) c5 ps
      by (simp add: stored_Cons stored_append stored_inert)
    have f: "cc_find M cc5 t = cc_find M ?cc3 t" if "t \<noteq> ConditionEphemerisPushed" for t
      using that assms(1) pushed(3) ps by (simp add: cc_set_cond_def k8s_simps)
    have "applied_cell M cc5 ?spec st = cc5 \<and> (\<exists>warn. applySIB19CadenceCondition M cc5 ?spec = (cc5, warn, False))"
      using c5 pushed(3) pst cadence_status by (intro settled_by_conditions [OF assms(1) _ _ _ _ f]) simp_all
    moreover have "isEphemerisPushUpToDate M cc5 m"
    proof (cases b)
      case True
      have "\<exists>d. cc_find M cc5 ConditionEphemerisPushed = Some d \<and> same_cond d (mkCond ConditionEphemerisPushed ConditionTrue ''Pushed'' [Lit m] (cc_Generation cc4))"
        using pushed(3) True meta_set_same [OF assms(1), of "cc_Conditions (cc_Status cc4)"
            "mkCond ConditionEphemerisPushed ConditionTrue ''Pushed'' [Lit m] (cc_Generation cc4)"]
        by (simp add: cc_set_cond_def)
      then show ?thesis using c5(1) c3 ps by (auto simp: isEphemerisPushUpToDate_def same_cond_def)
    next
      case False
      then show ?thesis using ok pushed(3) by auto
    qed
    ultimately show ?thesis using ref c5 ok by (auto simp: settled_def st)
  qed
qed


lemma status_meta: "cc_Meta c = cc_Meta cc \<Longrightarrow> GetCellStatus oio c = GetCellStatus oio cc"
proof -
  assume e: "cc_Meta c = cc_Meta cc"
  show ?thesis unfolding GetCellStatus_def e ..
qed

lemma status_reads: "oio_status_get oio (cm_key (om_Namespace (cc_Meta cc)) (om_Name (cc_Meta cc))) = Found cm
    \<Longrightarrow> GetCellStatus (reads cm oio) cc = GetCellStatus oio cc"
  by (simp add: GetCellStatus_def Let_def)

text \<open>C10: A resource that has converged is left alone. Suppose a reconcile ended well: the configuration was applied and
  read back, the push (if one is configured) did not fail, and the status was stored. Then a second reconcile of what is
  stored, with the ConfigMap that the API server now holds and the same ephemeris, still current by the later clock,
  only refreshes its gauges and asks for the next run: it writes neither a ConfigMap nor a status, reads no Secret,
  sends nothing to the gNB and emits no event, whatever the network, the Secrets and the allow-list are by then.\<close>

theorem steady_state_quiet:
  assumes laws: "meta_laws M" "owner_api_laws oio"
    and first: "CellReconcile M (ocudu_reconciler oio w flag) io = (eff, Inr (5 * minute))" "cio_get io = Found cc"
    and well: "push_gauge cc 0 \<notin> set eff" "prov_Type (cs_Provider (cc_Spec cc)) = ''ocudu''"
    and seen: "server_cm oio cc (snd (ApplyCellConfig oio cc (Some (forced_spec cc)))) = Some cm"
      "oio_status_get oio (cm_key (om_Namespace (cc_Meta cc)) (om_Name (cc_Meta cc))) = Found cm"
    and second: "cio_get io2 = Found (stored cc eff)" "cio_eph io2 = cio_eph io" "cio_IsPrint io2 = cio_IsPrint io"
      "\<And>eph state. current_state io cc eph state \<Longrightarrow> currency_gate io2 eph state = None"
  shows "CellReconcile M (ocudu_reconciler (reads cm oio) w2 flag2) io2 =
     ([apply_gauge cc 1, if EphemerisRef (cc_Spec cc) = '''' then DropSeries ''EphemerisPushReady'' (cc_Key cc) else push_gauge cc 1],
      Inr (5 * minute))"
  using first(1)
proof (cases rule: cell_reconcile_cases)
  case absent
  then show ?thesis using first(2) by simp
next
  case (final cc')
  then show ?thesis using first(2)
    by (auto simp: handleFinalizer_def remove_finalizer_def Let_def split_beta split: if_splits option.splits)
next
  case (unregistered cc' reason m d)
  then show ?thesis using first(2) well(2) by (auto simp: ocudu_reconciler_def)
next
  case (live cc' ps p)
  let ?spec = "forced_spec cc" and ?c = "stored cc eff"
  have cc: "cc' = cc" "p = ocudu_provider oio w"
    using live(1-3) first(2) by (auto simp: ocudu_reconciler_def split: if_splits)
  from live(5) show ?thesis unfolding cc
  proof (cases rule: with_provider_cases)
    case (rejected e e1 e2)
    then show ?thesis by (auto simp: apply_failed_def finish_def Let_def split: prod.splits option.splits)
  next
    case (status e e1 e2)
    then show ?thesis by (auto simp: status_failed_def finish_def Let_def split: prod.splits option.splits)
  next
    case (applied st e1 e2)
    obtain u where u: "ApplyCellConfig oio cc (Some ?spec) = (None, u)"
      using applied(1) by (cases "ApplyCellConfig oio cc (Some ?spec)") auto
    from apply_good [OF laws(2) u] u seen(1) obtain yaml where g: "GenerateConfig (oio_IsPrint oio) (Some ?spec) = Inr yaml"
      "good_cm oio cc yaml (CellSpecificKoffset (NTN ?spec)) cm" "om_Namespace (cc_Meta cc) \<noteq> ''''" by auto
    have "push_gauge cc 0 \<notin> set e2" using well(1) applied(4) by auto
    from after_status_settles [OF laws(1) applied(3) this] have s: "settled M io cc st ?c"
      using applied(4) by (simp add: stored_append stored_provider)
    then have c: "cc_Meta ?c = cc_Meta cc" "cc_Spec ?c = cc_Spec cc" by (simp_all add: settled_def)
    then have f: "forced_spec ?c = ?spec" by (simp add: forced_spec_def)
    have "good_cm oio ?c yaml (CellSpecificKoffset (NTN ?spec)) cm" using g(2) c by (simp add: good_cm_def)
    from good_reapply [OF this g(1)] g(3) c have a: "ApplyCellConfig (reads cm oio) ?c (Some ?spec) = (None, [])" by simp
    have st: "GetCellStatus (reads cm oio) ?c = Inr st"
      using status_reads [OF seen(2)] status_meta [OF c(1)] applied(2) by simp
    have push: "\<exists>m. pushEphemerisUpdateIfNeeded M R io2 ?c ?spec p2 = (Inr (False, m), ?c, [])" if ref: "EphemerisRef ?spec \<noteq> ''''" for R p2
    proof -
      obtain m where m: "push_marker io cc m" "isEphemerisPushUpToDate M ?c m" using s ref by (auto simp: settled_def)
      have "pushEphemerisUpdateIfNeeded M R io2 ?c ?spec p2 = (Inr (False, m), ?c, [])"
        by (rule push_skipped [OF m(1) _ c(1) m(2) second(2,3)]) (use ref second(4) may_push_current in auto)
      then show ?thesis by blast
    qed
    obtain warn where w: "applied_cell M ?c ?spec st = ?c" "applySIB19CadenceCondition M ?c ?spec = (?c, warn, False)"
      "EphemerisRef ?spec = '''' \<Longrightarrow> cc_find M ?c ConditionEphemerisPushed = None"
      using s by (auto simp: settled_def)
    note idle = after_status_idle [OF laws(1) w push]
    have fin: "handleFinalizer io2 ?c q = None" for q using live(4) cc c finalizer_none by simp
    show ?thesis using well(2) second(1) c fin a st idle f
      by (simp add: CellReconcile_def ocudu_reconciler_def with_provider_def Let_def ObjectKeyFromObject_def)
  qed
qed

end
