(* ===== verification/Cell_Demo.thy ===== *)
theory Cell_Demo
  imports Cell_Steady
begin

text \<open>
  A cell with a satellite switch and a remote control over TLS, its ephemeris, its Secret, an API server and a gNB that
  accept everything: a reconcile of it, and the theorems of the controller applied to it.
\<close>

section \<open>The cell and its surroundings\<close>

definition zero_ecef :: EphemerisECEF where
  "zero_ecef = \<lparr>PosX = 0, PosY = 0, PosZ = 0, VelX = 0, VelY = 0, VelZ = 0\<rparr>"

definition live_switch :: SatSwitchWithResync where
  "live_switch = \<lparr>NTNConfig = \<lparr>sn_EphemerisECEF = Some zero_ecef, sn_EphemerisOrbital = None, KMac = None, sn_CellSpecificKoffset = 0,
       sn_NTNUlSyncValidityDur = None, sn_TAInfo = None, sn_TAReport = None\<rparr>,
     sw_EpochUnixMs = 0, TServiceStartUnixMs = 2, SSBTimeOffsetSubframes = 0, sw_GatewayLocation = None\<rparr>"

definition live_rc :: RemoteControlRef where
  "live_rc = \<lparr>rc_Endpoint = ''gnb:8001'', rc_TLS = Some \<lparr>tls_Mode = ''token'', tls_SecretName = ''gnb-cred'', tls_ServerName = ''''\<rparr>\<rparr>"

definition live_id :: CellID where
  "live_id = \<lparr>PLMN = ''00101'', NCI = 1\<rparr>"

definition live_spec :: NTNCellConfigSpec where
  "live_spec = demo_cell_spec\<lparr>cs_Provider := (cs_Provider demo_cell_spec)\<lparr>RemoteControl := Some live_rc\<rparr>, EphemerisRef := ''leo'',
     cs_CellID := Some live_id, NTN := (NTN demo_cell_spec)\<lparr>np_SatSwitchWithResync := Some live_switch\<rparr>\<rparr>"

definition live_cell :: NTNCellConfig where
  "live_cell = demo_cell\<lparr>cc_Spec := live_spec\<rparr>"

definition live_state :: PropagatedState where
  "live_state = \<lparr>prop_Satellite = ''SAT'', prop_NoradID = 25544, EpochUnixMs = 1, SourceEpochUnixMs = -200000, ECEF = zero_ecef\<rparr>"

definition live_target :: ResolvedRemoteControl where
  "live_target = \<lparr>rrc_Endpoint = ''gnb:8001'', rrc_TLSConfig = Some \<lparr>MinVersion = 771, ServerName = ''gnb'', RootCAs = Some ''CA'', Certificates = None\<rparr>,
     AuthToken = ''s3cret''\<rparr>"

definition live_eph :: SatelliteEphemeris where
  "live_eph = (let spec = \<lparr>Source = \<lparr>src_Type = ''celestrak'', src_URL = '''', RefreshInterval = 0, Credentials = None\<rparr>,
       Satellites = None, PassPrediction = None\<rparr> in
     \<lparr>eph_Meta = (cc_Meta demo_cell)\<lparr>om_Name := ''leo'', om_UID := ''u2''\<rparr>, eph_Spec = spec,
      eph_Status = \<lparr>PropagatedStatesInputHash = propagationInputHash ascii_print spec, LastUpdated = None, LastPassPredictionTime = None,
        LastPassPredictionInputHash = '''', SatelliteCount = 1, TruncatedSatelliteCount = 0, NextPassWindows = [],
        PropagatedStates = [live_state], eph_Conditions = []\<rparr>\<rparr>)"

definition live_secret :: Secret where
  "live_secret = \<lparr>sec_Type = ''Opaque'', sec_Labels = [remoteControlCredentialLabel \<mapsto> ''true''],
     sec_Data = [''token'' \<mapsto> ''s3cret'', ''ca.crt'' \<mapsto> ''CA'']\<rparr>"

definition secret_key :: NamespacedName where
  "secret_key = \<lparr>nn_Namespace = ''ran'', nn_Name = ''gnb-cred''\<rparr>"

definition live_io :: "NTNCellConfig \<Rightarrow> cell_io" where
  "live_io cc = \<lparr>cio_get = Found cc,
     cio_eph = (\<lambda>k. if k = \<lparr>nn_Namespace = ''ran'', nn_Name = ''leo''\<rparr> then Found live_eph else NotFound),
     cio_secret = (\<lambda>k. if k = secret_key then Found live_secret else NotFound),
     cio_cm = (\<lambda>_. NotFound), cio_IsControlledBy = list_controlled, cio_delete = (\<lambda>_ _. CmDeleted),
     cio_update = (\<lambda>_. None), cio_write = (\<lambda>_. None), cio_now_skew = unix_epoch - 100 * second, cio_now = unix_epoch - 100 * second,
     cio_recorder = True, cio_IsPrint = ascii_print, cio_ParseURL = (\<lambda>_. Inr \<lparr>Scheme = ''https'', User = False, Hostname = ''gnb''\<rparr>),
     cio_AppendCertsFromPEM = (\<lambda>_. True), cio_X509KeyPair = (\<lambda>_ _. None), cio_ValidHeader = (\<lambda>_. True), cio_pointer = ''0xc000''\<rparr>"

text \<open>The API server without ConfigMaps, whose read-back answers \<open>g\<close>.\<close>

definition srv :: "(NamespacedName \<Rightarrow> CellConfigMap get) \<Rightarrow> ocudu_io" where
  "srv g = empty_server\<lparr>oio_status_get := g\<rparr>"

abbreviation live_R :: "(NamespacedName \<Rightarrow> CellConfigMap get) \<Rightarrow> CellReconciler" where
  "live_R g \<equiv> ocudu_reconciler (srv g) (demo_ws '''') ''gnb''"

abbreviation live_prov :: "(NamespacedName \<Rightarrow> CellConfigMap get) \<Rightarrow> NTNProvider" where
  "live_prov g \<equiv> ocudu_provider (srv g) (demo_ws '''')"

text \<open>The cell at some generation, with some status.\<close>

definition live_like :: "NTNCellConfig \<Rightarrow> bool" where
  "live_like cc \<longleftrightarrow> cc_Spec cc = live_spec \<and> (\<exists>g. cc_Meta cc = (cc_Meta demo_cell)\<lparr>om_Generation := g\<rparr>)"

lemma live_fields [simp]:
  "om_Namespace (cc_Meta demo_cell) = ''ran''" "om_Name (cc_Meta demo_cell) = ''cell-1''" "om_DeletionTimestamp (cc_Meta demo_cell) = None"
  "om_Finalizers (cc_Meta demo_cell) = [finalizerName]" "om_Generation (cc_Meta demo_cell) = 1"
  "EphemerisRef live_spec = ''leo''" "cs_CellID live_spec = Some live_id" "EphemerisNoradID live_spec = None"
  "RemoteControl (cs_Provider live_spec) = Some live_rc" "prov_Type (cs_Provider live_spec) = ''ocudu''"
  "np_SatSwitchWithResync (NTN live_spec) = Some live_switch" "spec_update live_spec = \<lparr>upd_ECEF = Some demo_ecef, upd_Orbital = None\<rparr>"
  "np_NTNUlSyncValidityDur (NTN live_spec) = None"
  "cc_Conditions zero_status = []" "LastPushedSatSwitchDigest zero_status = ''''"
  by (simp_all add: demo_cell_def finalizerName_def live_spec_def demo_cell_spec_def zero_ntn_def spec_update_def zero_status_def)

lemma live_cell_fields [simp]: "cc_Meta live_cell = cc_Meta demo_cell" "cc_Spec live_cell = live_spec" "cc_Status live_cell = zero_status"
  by (simp_all add: live_cell_def demo_cell_def)

lemma live_like_cell: "live_like live_cell"
  by (simp add: live_like_def) (metis ObjectMeta.surjective ObjectMeta.update_convs(4) live_fields(5))

lemma live_meta:
  assumes "live_like cc"
  shows "om_Namespace (cc_Meta cc) = ''ran''" "om_Name (cc_Meta cc) = ''cell-1''" "om_DeletionTimestamp (cc_Meta cc) = None"
    "om_Finalizers (cc_Meta cc) = [finalizerName]" "cc_Spec cc = live_spec"
  using assms by (auto simp: live_like_def)

lemma live_io_fields [simp]:
  "cio_get (live_io cc) = Found cc" "cio_eph (live_io cc) \<lparr>nn_Namespace = ''ran'', nn_Name = ''leo''\<rparr> = Found live_eph"
  "cio_write (live_io cc) = (\<lambda>_. None)" "cio_recorder (live_io cc)"
  by (simp_all add: live_io_def)

lemma live_eph_fields [simp]:
  "PropagatedStatesInputHash (eph_Status live_eph) = propagationInputHash (cio_IsPrint (live_io cc)) (eph_Spec live_eph)"
  "PropagatedStates (eph_Status live_eph) = [live_state]" "om_Namespace (eph_Meta live_eph) = ''ran''"
  by (simp_all add: live_eph_def live_io_def Let_def)

lemma live_named: "named_reads (live_io cc)"
  by (simp add: named_reads_def live_io_def live_eph_def ObjectKeyFromObject_def Let_def)

section \<open>Frames\<close>

lemma scaled_zero: "scaled 0 ECEFPositionStep = Fin 0" "scaled 0 ECEFVelocityStep = Fin 0"
proof -
  have "\<exists>y. round64 s = Fin y" if "s \<in> {ECEFPositionStep, ECEFVelocityStep}" for s
    using that round64_within [of s 63] by (auto simp: ECEFPositionStep_def ECEFVelocityStep_def pow2_def)
  then have "scaled 0 s = Fin 0" if "s \<in> {ECEFPositionStep, ECEFVelocityStep}" for s
    using that by (fastforce simp: scaled_def f64_mul_def)
  then show "scaled 0 ECEFPositionStep = Fin 0" "scaled 0 ECEFVelocityStep = Fin 0" by simp_all
qed

definition zero_info :: ephemerisInfoJSON where
  "zero_info = \<lparr>ij_ECEF = Some \<lparr>PositionX = Fin 0, PositionY = Fin 0, PositionZ = Fin 0, VelocityVX = Fin 0, VelocityVY = Fin 0, VelocityVZ = Fin 0\<rparr>,
     ij_Orbital = None\<rparr>"

definition switch_json :: satSwitchJSON where
  "switch_json = \<lparr>sj_EpochTimestamp = 0, sj_GatewayLocation = None, sj_TServiceStart = 2, sj_SSBTimeOffsetSf = 0,
     sj_NTNCfg = \<lparr>nj_EphemerisInfo = zero_info, nj_KMac = None, nj_CellSpecificKoffset = None, nj_NTNUlSyncValidityDur = None,
       nj_TAInfo = None, nj_TAReport = None\<rparr>\<rparr>"

definition live_env :: "satSwitchJSON option \<Rightarrow> ntnConfigUpdateEnvelope" where
  "live_env ss = \<lparr>Cmd = ntnConfigUpdateCmd, Cells = [\<lparr>cj_PLMN = ''00101'', cj_NCI = 1, cj_EpochTimestamp = 1,
     cj_UlSyncValidityDur = 5, cj_EphemerisInfo = zero_info, cj_SatSwitch = ss\<rparr>]\<rparr>"

lemma zero_built: "buildEphemerisInfo \<lparr>upd_ECEF = Some zero_ecef, upd_Orbital = None\<rparr> = Inr zero_info"
  by (simp add: buildEphemerisInfo_def zero_ecef_def scaled_zero zero_info_def)

lemma live_built:
  "buildNTNConfigUpdate (runtime_update live_spec live_id live_state None) = Inr (live_env None)"
  "buildNTNConfigUpdate (runtime_update live_spec live_id live_state (Some live_switch)) = Inr (live_env (Some switch_json))"
  by (simp_all add: runtime_update_def uint64_def buildNTNConfigUpdate_def live_state_def live_id_def zero_built buildSatSwitch_def live_switch_def
      effectiveUlSyncValidityDurSeconds_def defaultNTNUlSyncValidityDurSeconds_def live_env_def switch_json_def)

lemma live_fits:
  "case marshal_envelope (live_env None) of None \<Rightarrow> False | Some p \<Rightarrow> length p \<le> wsMaxPayload"
  "case marshal_envelope (live_env (Some switch_json)) of None \<Rightarrow> False | Some p \<Rightarrow> length p \<le> wsMaxPayload"
  by code_simp+

lemma live_exchange:
  assumes "sw \<in> {None, Some live_switch}"
  shows "\<exists>p. PushRuntimeUpdate (demo_ws '''') live_target (runtime_update live_spec live_id live_state sw) =
     (None, [Dialed ''wss://gnb:8001'' (rrc_TLSConfig live_target) (Some ''Bearer s3cret''), SentFrame p])"
proof -
  obtain env p where "buildNTNConfigUpdate (runtime_update live_spec live_id live_state sw) = Inr env" "marshal_envelope env = Some p"
    "\<not> wsMaxPayload < length p"
  proof -
    have "\<exists>ss. buildNTNConfigUpdate (runtime_update live_spec live_id live_state sw) = Inr (live_env ss)
        \<and> (case marshal_envelope (live_env ss) of None \<Rightarrow> False | Some p \<Rightarrow> length p \<le> wsMaxPayload)"
      using assms live_built live_fits by auto
    then show thesis using that by (auto split: option.splits simp: not_less)
  qed
  then show ?thesis
    by (simp add: PushRuntimeUpdate_def pushNTNConfigUpdate_def live_target_def demo_ws_def Let_def)
qed

section \<open>A reconcile that delivers\<close>

lemma live_allowed: "Check (cio_ParseURL (live_io cc)) (ParseEndpointAllowlist ''gnb'') (''https://'' @ rc_Endpoint live_rc) = Inr ()"
proof -
  have "Check (\<lambda>_. Inr \<lparr>Scheme = ''https'', User = False, Hostname = ''gnb''\<rparr>) (ParseEndpointAllowlist ''gnb'') (''https://'' @ rc_Endpoint live_rc) = Inr ()"
    by (simp add: Check_def) code_simp
  then show ?thesis by (simp add: live_io_def)
qed

lemma live_resolves:
  "resolveRemoteControlTLS (live_io cc) ''ran'' live_rc = (Inr (rrc_TLSConfig live_target, ''s3cret''), [GetSecret secret_key])"
proof -
  have "SplitHostPort ''gnb:8001'' = Inr (''gnb'', ''8001'')" by code_simp
  then show ?thesis
    by (simp add: resolveRemoteControlTLS_def live_rc_def live_io_def live_secret_def secret_key_def tls_of_secret_def key_or_empty_def
        live_target_def SecretTypeServiceAccountToken_def secretTypeBootstrapToken_def maxRemoteControlTokenBytes_def Let_def)
qed

lemma live_gate: "currency_gate (live_io cc) live_eph live_state = None"
  by (simp add: currency_gate_def live_io_def live_state_def epochSkewMargin_def time_Add_def UnixMilli_def sourceEpochPlausible_def
      sourceEpochFresh_def time_Sub_def maxSourceEpochFutureSkew_def maxEpochAge_def min_int64_def max_int64_def Let_def)

lemma live_applies:
  assumes "live_like cc"
  shows "\<exists>u. ApplyCellConfig (srv g) cc (Some (forced_spec cc)) = (None, u)"
proof -
  have "\<exists>y. GenerateConfig ascii_print (Some (forced_spec cc)) = Inr y"
    using live_meta [OF assms] by (simp add: GenerateConfig_ok_iff one_kind_def forced_one_kind)
  then show ?thesis using live_meta [OF assms]
    by (auto simp: ApplyCellConfig_def srv_def empty_server_def list_set_ref_def new_cell_cm_def Let_def)
qed

lemma live_delivery:
  assumes "live_like cc" "cc_Meta c = cc_Meta cc" "cc_Spec c = live_spec" "fst (pending_switch c (forced_spec cc)) \<in> {None, Some live_switch}"
    "\<not> isEphemerisPushUpToDate list_meta c (runtimeEphemerisPushMarker live_eph live_state)"
  shows "\<exists>p d. pushEphemerisUpdateIfNeeded list_meta (live_R g) (live_io cc) c (forced_spec cc) (live_prov g) =
     (Inr (True, runtimeEphemerisPushMarker live_eph live_state), c\<lparr>cc_Status := (cc_Status c)\<lparr>LastPushedSatSwitchDigest := d\<rparr>\<rparr>,
      GetSecret secret_key # map (Provider \<circ> Wire) [Dialed ''wss://gnb:8001'' (rrc_TLSConfig live_target) (Some ''Bearer s3cret''), SentFrame p])"
proof -
  obtain sw d where sw: "pending_switch c (forced_spec cc) = (sw, d)" by (cases "pending_switch c (forced_spec cc)")
  have "runtime_update (forced_spec cc) live_id live_state sw = runtime_update live_spec live_id live_state sw"
    using live_meta(5) [OF assms(1)] by (simp add: runtime_update_def effectiveUlSyncValidityDurSeconds_def)
  moreover obtain p where "PushRuntimeUpdate (demo_ws '''') live_target (runtime_update live_spec live_id live_state sw) =
     (None, [Dialed ''wss://gnb:8001'' (rrc_TLSConfig live_target) (Some ''Bearer s3cret''), SentFrame p])"
    using live_exchange [of sw] assms(4) sw by auto
  moreover have "\<lparr>rrc_Endpoint = rc_Endpoint live_rc, rrc_TLSConfig = rrc_TLSConfig live_target, AuthToken = ''s3cret''\<rparr> = live_target"
    by (simp add: live_rc_def live_target_def)
  ultimately have "deliver (live_R g) (live_io cc) c (forced_spec cc) live_eph (live_prov g) live_rc live_id live_state m =
     (Inr (True, m), c\<lparr>cc_Status := (cc_Status c)\<lparr>LastPushedSatSwitchDigest := d\<rparr>\<rparr>,
      GetSecret secret_key # map (Provider \<circ> Wire) [Dialed ''wss://gnb:8001'' (rrc_TLSConfig live_target) (Some ''Bearer s3cret''), SentFrame p])" for m
    unfolding deliver_def sw using live_allowed [of cc] live_resolves [of cc] by (simp add: ocudu_reconciler_def)
  then show ?thesis using live_meta [OF assms(1)] assms(2,5) live_gate [of cc]
    by (simp add: pushEphemerisUpdateIfNeeded_def pushRuntimeEphemeris_def uniquePropagatedNorads_def selectPropagatedState_def Let_def) blast
qed

lemma live_pending: "live_like cc \<Longrightarrow> fst (pending_switch c (forced_spec cc)) \<in> {None, Some live_switch}"
  by (simp add: pending_switch_def live_meta Let_def)

text \<open>The shape of such a reconcile, and what it did.\<close>

definition delivery :: "NTNCellConfig \<Rightarrow> cell_effect list \<Rightarrow> bool" where
  "delivery cc eff \<longleftrightarrow> {apply_gauge cc 1, push_gauge cc 1, GetSecret secret_key,
       Provider (Wire (Dialed ''wss://gnb:8001'' (rrc_TLSConfig live_target) (Some ''Bearer s3cret'')))} \<subseteq> set eff
     \<and> (\<exists>p. Provider (Wire (SentFrame p)) \<in> set eff) \<and> push_gauge cc 0 \<notin> set eff \<and> (\<forall>c. WriteCell c False \<notin> set eff)"

lemma live_run:
  assumes "live_like cc" "GetCellStatus (srv g) cc = Inr st"
    "\<not> isEphemerisPushUpToDate list_meta (cadence_cell list_meta cc (forced_spec cc) st) (runtimeEphemerisPushMarker live_eph live_state)"
  obtains eff where "CellReconcile list_meta (live_R g) (live_io cc) = (eff, Inr (5 * minute))"
    "settled list_meta (live_io cc) cc st (stored cc eff)" "delivery cc eff" "set (announced list_meta (live_io cc) cc (forced_spec cc) st) \<subseteq> set eff"
proof -
  let ?spec = "forced_spec cc" and ?io = "live_io cc" and ?m = "runtimeEphemerisPushMarker live_eph live_state"
  let ?c3 = "cadence_cell list_meta cc ?spec st"
  have c3: "cc_Meta ?c3 = cc_Meta cc" "cc_Spec ?c3 = live_spec"
    using cadence_same_cell [of list_meta cc ?spec st] live_meta(5) [OF assms(1)] by (simp_all add: same_cell_def)
  obtain p d where push: "pushEphemerisUpdateIfNeeded list_meta (live_R g) ?io ?c3 ?spec (live_prov g) =
     (Inr (True, ?m), ?c3\<lparr>cc_Status := (cc_Status ?c3)\<lparr>LastPushedSatSwitchDigest := d\<rparr>\<rparr>,
      GetSecret secret_key # map (Provider \<circ> Wire) [Dialed ''wss://gnb:8001'' (rrc_TLSConfig live_target) (Some ''Bearer s3cret''), SentFrame p])"
    using live_delivery [OF assms(1) c3 live_pending [OF assms(1)] assms(3)] by blast
  obtain e2 r where a: "after_status list_meta (live_R g) ?io cc ?spec (live_prov g) st = (e2, r)"
    by (cases "after_status list_meta (live_R g) ?io cc ?spec (live_prov g) st")
  have ann: "push_gauge cc 0 \<notin> set (announced list_meta ?io cc ?spec st)" "WriteCell c False \<notin> set (announced list_meta ?io cc ?spec st)" for c
    using announced_events by (fastforce simp: list_all_iff)+
  from a have e2: "r = Inr (5 * minute) \<and> delivery cc e2 \<and> set (announced list_meta ?io cc ?spec st) \<subseteq> set e2"
  proof (cases rule: after_status_cases)
    case (bare err w)
    then show ?thesis using live_meta(5) [OF assms(1)] by simp
  next
    case (failed e cc4 e1 e2)
    then show ?thesis using push by simp
  next
    case (pushed b m cc4 cc5 e1 err w)
    then have "err = None" "\<forall>x\<in>set w. \<exists>c. x = WriteCell c True" by (auto simp: persistStatusIfChanged_def split: if_splits)
    then show ?thesis using pushed(2,5) push ann by (auto simp: finish_def delivery_def)
  qed
  obtain u where u: "ApplyCellConfig (srv g) cc (Some ?spec) = (None, u)" using live_applies [OF assms(1)] by blast
  let ?eff = "map Provider (map CmWrite u) @ e2"
  have "handleFinalizer ?io cc q = None" for q using live_meta [OF assms(1)] by (simp add: finalizer_none)
  then have "CellReconcile list_meta (live_R g) ?io = (?eff, Inr (5 * minute))"
    using a e2 u assms(2) live_meta(5) [OF assms(1)] by (simp add: CellReconcile_def ocudu_reconciler_def with_provider_def Let_def)
  moreover have "push_gauge cc 0 \<notin> set e2" using e2 by (simp add: delivery_def)
  with a e2 have "settled list_meta ?io cc st (stored cc e2)" by (intro after_status_settles [OF list_meta_laws]) simp_all
  then have "settled list_meta ?io cc st (stored cc ?eff)" by (simp only: stored_append stored_provider)
  moreover have "delivery cc ?eff" using e2 by (auto simp: delivery_def)
  moreover have "set (announced list_meta ?io cc ?spec st) \<subseteq> set ?eff" using e2 by auto
  ultimately show thesis by (rule that [of ?eff])
qed

lemma srv_status: "live_like cc \<Longrightarrow> GetCellStatus (srv (\<lambda>_. NotFound)) cc = Inr zero_status"
  by (simp add: GetCellStatus_def srv_def empty_server_def live_meta Let_def)

lemma pushed_kept:
  "cc_find list_meta (cadence_cell list_meta cc spec st) ConditionEphemerisPushed = cc_find list_meta cc ConditionEphemerisPushed"
  using list_meta_laws
  by (simp add: applySIB19CadenceCondition_def applied_cell_def cc_set_cond_def cc_remove_cond_def k8s_simps
      cell_condition_names split: option.splits)

lemma live_not_pushed: "\<not> isEphemerisPushUpToDate list_meta (cadence_cell list_meta live_cell spec st) m"
  using pushed_kept [of live_cell spec st] by (simp add: isEphemerisPushUpToDate_def list_meta_def)

lemmas live_first = live_run [OF live_like_cell _ live_not_pushed]

lemma live_announces: "\<exists>t r m. CellEvent t r m \<in> set (announced list_meta (live_io live_cell) live_cell (forced_spec live_cell) st)"
proof -
  have "cc_Conditions (cc_Status (applied_cell list_meta live_cell (forced_spec live_cell) st)) \<noteq> cc_Conditions (cc_Status live_cell)"
    by (simp add: applied_cell_def cc_set_cond_def list_meta_def)
  then show ?thesis by (auto simp: announced_def emitConfigApplied_def split_beta)
qed

section \<open>The theorems at this cell\<close>

abbreviation no_maps :: "NamespacedName \<Rightarrow> CellConfigMap get" where
  "no_maps \<equiv> \<lambda>_. NotFound"

abbreviation no_secrets :: "NamespacedName \<Rightarrow> Secret get" where
  "no_secrets \<equiv> \<lambda>_. NotFound"

theorem credential_confined_witness:
  "\<exists>eff res. CellReconcile list_meta (live_R no_maps) (live_io live_cell) = (eff, res)
     \<and> Provider (Wire (Dialed ''wss://gnb:8001'' (rrc_TLSConfig live_target) (Some ''Bearer s3cret''))) \<in> set eff
     \<and> (\<exists>secret ca. cio_secret (live_io live_cell) secret_key = Found secret \<and> usable_secret (live_io live_cell) secret ''s3cret'' ca)"
proof (rule live_first [OF srv_status [OF live_like_cell]])
  fix eff
  assume r: "CellReconcile list_meta (live_R no_maps) (live_io live_cell) = (eff, Inr (5 * minute))" "delivery live_cell eff"
  have d: "Provider (Wire (Dialed ''wss://gnb:8001'' (rrc_TLSConfig live_target) (Some ''Bearer s3cret''))) \<in> set eff"
    using r(2) by (simp add: delivery_def)
  from conjunct1 [OF credential_confined [OF r(1) live_named], rule_format, OF d] r(1) d show ?thesis
    by (auto simp: live_rc_def secret_key_def)
qed

theorem pushed_state_current_witness:
  "\<exists>eff res p. CellReconcile list_meta (live_R no_maps) (live_io live_cell) = (eff, res) \<and> Provider (Wire (SentFrame p)) \<in> set eff
     \<and> (\<exists>eph state. current_state (live_io live_cell) live_cell eph state)"
proof (rule live_first [OF srv_status [OF live_like_cell]])
  fix eff
  assume r: "CellReconcile list_meta (live_R no_maps) (live_io live_cell) = (eff, Inr (5 * minute))" "delivery live_cell eff"
  then have d: "push_gauge live_cell 1 \<in> set eff \<or> (\<exists>p. Provider (Wire (SentFrame p)) \<in> set eff)" "\<exists>p. Provider (Wire (SentFrame p)) \<in> set eff"
    by (simp_all add: delivery_def)
  from pushed_state_current [OF r(1) _ _ _ d(1), of live_rc live_id] have "\<exists>eph state. current_state (live_io live_cell) live_cell eph state" by auto
  then show ?thesis using r(1) d(2) by blast
qed

theorem cell_events_follow_write_witness:
  "\<exists>eff res t r m. CellReconcile list_meta (live_R no_maps) (live_io live_cell) = (eff, res) \<and> CellEvent t r m \<in> set eff
     \<and> (\<exists>a c b. eff = a @ WriteCell c True # b \<and> CellEvent t r m \<in> set b)"
proof (rule live_first [OF srv_status [OF live_like_cell]])
  fix eff
  assume r: "CellReconcile list_meta (live_R no_maps) (live_io live_cell) = (eff, Inr (5 * minute))"
    "set (announced list_meta (live_io live_cell) live_cell (forced_spec live_cell) zero_status) \<subseteq> set eff"
  obtain t re m where e: "CellEvent t re m \<in> set eff" using live_announces r(2) by blast
  from conjunct1 [OF cell_events_follow_write [OF list_meta_laws r(1)], rule_format, OF e] obtain a c b where
    "eff = a @ WriteCell c True # b" "\<forall>t r m. CellEvent t r m \<notin> set a" by blast
  then show ?thesis using r(1) e by auto blast
qed

text \<open>No Secret of the name against one that its owner did not open for this use.\<close>

theorem no_secret_oracle_witness:
  "CellReconcile list_meta (live_R no_maps) (with_secrets (\<lambda>_. Found (live_secret\<lparr>sec_Labels := Map.empty\<rparr>)) (\<lambda>_. True) (\<lambda>_ _. None) (\<lambda>_. True)
       (with_secrets no_secrets (\<lambda>_. True) (\<lambda>_ _. None) (\<lambda>_. True) (live_io live_cell))) =
   CellReconcile list_meta (live_R no_maps) (with_secrets no_secrets (\<lambda>_. True) (\<lambda>_ _. None) (\<lambda>_. True) (live_io live_cell))"
proof -
  let ?io = "with_secrets no_secrets (\<lambda>_. True) (\<lambda>_ _. None) (\<lambda>_. True) (live_io live_cell)"
  let ?io2 = "with_secrets (\<lambda>_. Found (live_secret\<lparr>sec_Labels := Map.empty\<rparr>)) (\<lambda>_. True) (\<lambda>_ _. None) (\<lambda>_. True) ?io"
  have n: "named_reads ?io" using live_named by (simp add: named_reads_def)
  obtain e where e: "fst (resolveRemoteControlTLS ?io (om_Namespace (cc_Meta live_cell)) live_rc) = Inl e"
    by (simp add: resolveRemoteControlTLS_def live_rc_def with_secrets_def Let_def)
  obtain e' where e': "fst (resolveRemoteControlTLS ?io2 (om_Namespace (cc_Meta live_cell)) live_rc) = Inl e'"
    by (simp add: resolveRemoteControlTLS_def live_rc_def with_secrets_def tls_of_secret_def live_secret_def key_or_empty_def
        SecretTypeServiceAccountToken_def secretTypeBootstrapToken_def Let_def)
  show ?thesis by (rule no_secret_oracle [OF _ _ n e e']) simp_all
qed

text \<open>Two deliveries, the second after an edit that raised the generation.\<close>

theorem switch_sent_once_witness:
  "\<exists>tr cc p. history list_meta ''gnb'' live_cell tr cc \<and> length tr = 2 \<and> recorded (tr ! 0)
     \<and> Provider (Wire (SentFrame p)) \<in> set (tr ! 1) \<and> plain_frame p"
proof (rule live_first [OF srv_status [OF live_like_cell]])
  fix e1
  assume r1: "CellReconcile list_meta (live_R no_maps) (live_io live_cell) = (e1, Inr (5 * minute))" "delivery live_cell e1"
    and s: "settled list_meta (live_io live_cell) live_cell zero_status (stored live_cell e1)"
  let ?s = "stored live_cell e1"
  define cc2 where "cc2 = ?s\<lparr>cc_Meta := (cc_Meta demo_cell)\<lparr>om_Generation := 2\<rparr>\<rparr>"
  have spec: "cc_Meta ?s = cc_Meta demo_cell" "cc_Spec ?s = live_spec" using s by (simp_all add: settled_def)
  have like: "live_like cc2" using spec by (auto simp: live_like_def cc2_def)
  obtain m where "isEphemerisPushUpToDate list_meta ?s m" using s by (auto simp: settled_def)
  then have "\<not> isEphemerisPushUpToDate list_meta (cadence_cell list_meta cc2 (forced_spec cc2) zero_status) m'" for m'
    using pushed_kept [of cc2 "forced_spec cc2" zero_status] cadence_same_cell [of list_meta cc2 "forced_spec cc2" zero_status] spec
    by (auto simp: isEphemerisPushUpToDate_def same_cell_def cc2_def split: option.splits)
  from live_run [OF like srv_status [OF like] this] obtain e2 where
    r2: "CellReconcile list_meta (live_R no_maps) (live_io cc2) = (e2, Inr (5 * minute))" "delivery cc2 e2" by metis
  have "history list_meta ''gnb'' live_cell ([] @ [e1]) ?s"
    by (rule history.beat [OF history.start _ r1(1)]) simp
  then have "history list_meta ''gnb'' live_cell ([] @ [e1]) cc2"
    by (rule history.edit) (simp_all add: switch_of_def cc2_def)
  then have h: "history list_meta ''gnb'' live_cell (([] @ [e1]) @ [e2]) (stored cc2 e2)"
    by (rule history.beat [OF _ _ r2(1)]) simp
  obtain p where p: "Provider (Wire (SentFrame p)) \<in> set ((([] @ [e1]) @ [e2]) ! 1)" using r2(2) by (auto simp: delivery_def)
  have t: "recorded ((([] @ [e1]) @ [e2]) ! 0)" using r1(2) by (auto simp: delivery_def taken_def recorded_def write_refused_def)
  have "plain_frame p" by (rule switch_sent_once [OF h _ _ t p]) simp_all
  then show ?thesis using h t p by (intro exI [of _ "([] @ [e1]) @ [e2]"] exI [of _ "stored cc2 e2"] exI [of _ p]) simp
qed

text \<open>The cell while it is deleted, with its ConfigMap still there.\<close>

definition dying_cell :: NTNCellConfig where
  "dying_cell = live_cell\<lparr>cc_Meta := (cc_Meta demo_cell)\<lparr>om_DeletionTimestamp := Some unix_epoch\<rparr>\<rparr>"

definition own_map :: CellConfigMap where
  "own_map = \<lparr>km_Meta = (cc_Meta demo_cell)\<lparr>om_UID := ''cm1''\<rparr>, km_OwnerReferences = [\<lparr>or_UID = ''u1'', or_Controller = True\<rparr>],
     km_Data = Map.empty\<rparr>"

definition leaving_server :: ocudu_io where
  "leaving_server = empty_server\<lparr>oio_cleanup_get := \<lambda>_. Found own_map\<rparr>"

theorem finalizer_after_cleanup_witness:
  "\<exists>eff res c. CellReconcile list_meta (ocudu_reconciler leaving_server (demo_ws '''') ''gnb'') (live_io dying_cell) = (eff, res)
     \<and> UpdateCell c True \<in> set eff \<and> om_Finalizers (cc_Meta c) = [] \<and> released leaving_server (live_io dying_cell) dying_cell eff"
proof -
  let ?R = "ocudu_reconciler leaving_server (demo_ws '''') ''gnb''" and ?io = "live_io dying_cell"
  obtain eff res where r: "CellReconcile list_meta ?R ?io = (eff, res)" by (cases "CellReconcile list_meta ?R ?io")
  have fin: "finalizerName \<in> set (om_Finalizers (cc_Meta dying_cell))" by (simp add: dying_cell_def)
  have "\<exists>c. UpdateCell c True \<in> set eff" using r
    by (auto simp: CellReconcile_def ocudu_reconciler_def handleFinalizer_def remove_finalizer_def dying_cell_def leaving_server_def
        Cleanup_def own_map_def empty_server_def list_controlled_def live_io_def demo_cell_def finalizerName_def Let_def)
  then obtain c where u: "UpdateCell c True \<in> set eff" by blast
  from conjunct1 [OF finalizer_after_cleanup [OF r live_io_fields(1) fin], rule_format, OF u] u r show ?thesis
    by (intro exI [of _ eff] exI [of _ res] exI [of _ c]) (simp add: dying_cell_def)
qed

text \<open>The cell whose ephemeris does not exist.\<close>

theorem never_stranded_witness:
  "\<exists>eff. CellReconcile list_meta (live_R no_maps) ((live_io live_cell)\<lparr>cio_eph := \<lambda>_. NotFound\<rparr>) = (eff, Inr 0)
     \<and> watched_cause (live_R no_maps) (demo_ws '''') ((live_io live_cell)\<lparr>cio_eph := \<lambda>_. NotFound\<rparr>) live_cell \<and> push_gauge live_cell 0 \<in> set eff"
proof -
  let ?io = "(live_io live_cell)\<lparr>cio_eph := \<lambda>_. NotFound\<rparr>"
  obtain u where u: "ApplyCellConfig (srv no_maps) live_cell (Some (forced_spec live_cell)) = (None, u)"
    using live_applies [OF live_like_cell] by blast
  have fin: "handleFinalizer ?io live_cell q = None" for q by (simp add: finalizer_none)
  let ?c = "cadence_cell list_meta live_cell (forced_spec live_cell) zero_status"
  obtain e where p: "pushEphemerisUpdateIfNeeded list_meta (live_R no_maps) ?io ?c (forced_spec live_cell) (live_prov no_maps) =
      (Inl (newEphemerisPushError ephemerisReasonRefNotFound e), ?c, [])"
    by (simp add: pushEphemerisUpdateIfNeeded_def push_fail_def Let_def)
  obtain e2 r where a: "after_status list_meta (live_R no_maps) ?io live_cell (forced_spec live_cell) (live_prov no_maps) zero_status = (e2, r)"
    by (cases "after_status list_meta (live_R no_maps) ?io live_cell (forced_spec live_cell) (live_prov no_maps) zero_status")
  have "r = Inr 0"
    using a
  proof (cases rule: after_status_cases)
    case (failed e' cc4 e1 e2)
    have "e' = newEphemerisPushError ephemerisReasonRefNotFound e" using failed(2) p by simp
    then have "ephemerisPushConditionReason e' = ephemerisReasonRefNotFound" using reason_new by (simp add: ephemerisReasonRefNotFound_def)
    then show ?thesis using failed(3)
      by (auto simp: ephemerisPushShouldRequeue_def persistStatusIfChanged_def finish_def Let_def split: if_splits)
  qed (use p in simp_all)
  then have "CellReconcile list_meta (live_R no_maps) ?io = (map Provider (map CmWrite u) @ e2, Inr 0)"
    using a u fin srv_status [OF live_like_cell] by (simp add: CellReconcile_def ocudu_reconciler_def with_provider_def Let_def)
  from never_stranded [OF this, of live_cell] this show ?thesis by simp
qed

section \<open>The next reconcile\<close>

lemma srv_fields:
  "oio_IsPrint (srv g) = oio_IsPrint empty_server" "oio_IsControlledBy (srv g) = oio_IsControlledBy empty_server"
  "oio_SetControllerReference (srv g) = oio_SetControllerReference empty_server" "oio_apply_get (srv g) = oio_apply_get empty_server"
  "oio_reread_get (srv g) = oio_reread_get empty_server" "oio_Create (srv g) = oio_Create empty_server"
  "oio_Update (srv g) = oio_Update empty_server" "oio_push_Update (srv g) = oio_push_Update empty_server"
  by (simp_all add: srv_def)

lemma srv_apply: "ApplyCellConfig (srv g) cc spec = ApplyCellConfig empty_server cc spec" "server_cm (srv g) cc u = server_cm empty_server cc u"
  unfolding ApplyCellConfig_def apply_existing_def server_cm_def accepted_def srv_fields by (rule refl)+

lemma srv_laws: "owner_api_laws (srv g)"
  using empty_server_laws unfolding owner_api_laws_def srv_fields .

text \<open>The server whose read-back answers with the ConfigMap that was created.\<close>

lemma live_stored:
  obtains cm st where "server_cm (srv (\<lambda>_. Found cm)) live_cell (snd (ApplyCellConfig (srv (\<lambda>_. Found cm)) live_cell (Some (forced_spec live_cell)))) = Some cm"
    "GetCellStatus (srv (\<lambda>_. Found cm)) live_cell = Inr st"
proof -
  obtain u where u: "ApplyCellConfig empty_server live_cell (Some (forced_spec live_cell)) = (None, u)"
    using live_applies [OF live_like_cell] srv_apply(1) by metis
  from apply_good [OF empty_server_laws u] obtain yaml cm where
    g: "server_cm empty_server live_cell u = Some cm" "good_cm empty_server live_cell yaml (CellSpecificKoffset (NTN (forced_spec live_cell))) cm"
    by blast
  have c: "oio_IsControlledBy (srv h) cm (cc_Meta live_cell)" for h using g(2) by (simp add: good_cm_def srv_def)
  have "\<exists>st. GetCellStatus (srv (\<lambda>_. Found cm)) live_cell = Inr st"
    using g(2) c by (simp add: GetCellStatus_def good_cm_def srv_def Let_def)
  then show thesis using that g(1) u srv_apply by auto
qed

theorem ready_means_applied_witness:
  "\<exists>rb eff res yaml u cm. CellReconcile list_meta (live_R (\<lambda>_. Found rb)) (live_io live_cell) = (eff, res) \<and> apply_gauge live_cell 1 \<in> set eff
     \<and> server_cm (srv (\<lambda>_. Found rb)) live_cell u = Some cm \<and> km_Data cm configDataKey = Some yaml \<and> Provider ` CmWrite ` set u \<subseteq> set eff
     \<and> oio_IsControlledBy (srv (\<lambda>_. Found rb)) rb (cc_Meta live_cell) \<and> km_Data rb configDataKey \<noteq> None"
proof (rule live_stored)
  fix rb st
  assume s: "GetCellStatus (srv (\<lambda>_. Found rb)) live_cell = Inr st"
  show ?thesis
  proof (rule live_first [OF s])
    fix eff
    assume r: "CellReconcile list_meta (live_R (\<lambda>_. Found rb)) (live_io live_cell) = (eff, Inr (5 * minute))" "delivery live_cell eff"
    then have g: "apply_gauge live_cell 1 \<in> set eff" by (simp add: delivery_def)
    have g0: "oio_status_get (srv (\<lambda>_. Found rb)) k = Found rb" for k by (simp add: srv_def)
    have live: "om_DeletionTimestamp (cc_Meta live_cell) = None" "finalizerName \<in> set (om_Finalizers (cc_Meta live_cell))" by simp_all
    note ready = conjunct1 [OF ready_means_applied [OF srv_laws r(1) live_io_fields(1) live], THEN mp, OF g]
    obtain yaml u cm where "Provider ` CmWrite ` set u \<subseteq> set eff" "server_cm (srv (\<lambda>_. Found rb)) live_cell u = Some cm"
      "km_Data cm configDataKey = Some yaml"
      "oio_IsControlledBy (srv (\<lambda>_. Found rb)) rb (cc_Meta live_cell)" "km_Data rb configDataKey \<noteq> None"
      using ready unfolding g0 get.case by blast
    then show ?thesis using r(1) g by blast
  qed
qed

theorem steady_state_quiet_witness:
  "\<exists>cm eff. CellReconcile list_meta (live_R (\<lambda>_. Found cm)) (live_io live_cell) = (eff, Inr (5 * minute)) \<and> GetSecret secret_key \<in> set eff
     \<and> CellReconcile list_meta (ocudu_reconciler (reads cm (srv (\<lambda>_. Found cm))) (demo_ws ''down'') '''') (live_io (stored live_cell eff)) =
         ([apply_gauge live_cell 1, push_gauge live_cell 1], Inr (5 * minute))"
proof (rule live_stored)
  fix cm st
  assume s: "server_cm (srv (\<lambda>_. Found cm)) live_cell (snd (ApplyCellConfig (srv (\<lambda>_. Found cm)) live_cell (Some (forced_spec live_cell)))) = Some cm"
    "GetCellStatus (srv (\<lambda>_. Found cm)) live_cell = Inr st"
  show ?thesis
  proof (rule live_first [OF s(2)])
    fix eff
    assume r: "CellReconcile list_meta (live_R (\<lambda>_. Found cm)) (live_io live_cell) = (eff, Inr (5 * minute))" "delivery live_cell eff"
    have cur: "currency_gate (live_io (stored live_cell eff)) eph state = None" if "current_state (live_io live_cell) live_cell eph state" for eph state
    proof -
      have "eph = live_eph" "state = live_state" using that by (auto simp: current_state_def)
      then show ?thesis using live_gate by simp
    qed
    have q: "push_gauge live_cell 0 \<notin> set eff" using r(2) by (simp add: delivery_def)
    have same: "cio_eph (live_io (stored live_cell eff)) = cio_eph (live_io live_cell)"
      "cio_IsPrint (live_io (stored live_cell eff)) = cio_IsPrint (live_io live_cell)"
      by (simp_all add: live_io_def)
    have "CellReconcile list_meta (ocudu_reconciler (reads cm (srv (\<lambda>_. Found cm))) (demo_ws ''down'') '''') (live_io (stored live_cell eff)) =
       ([apply_gauge live_cell 1, if EphemerisRef (cc_Spec live_cell) = '''' then DropSeries ''EphemerisPushReady'' (cc_Key live_cell)
         else push_gauge live_cell 1], Inr (5 * minute))"
      by (rule steady_state_quiet [OF list_meta_laws srv_laws r(1) _ q _ s(1) _ _ same cur]) (simp_all add: srv_def)
    then show ?thesis using r by (auto simp: delivery_def)
  qed
qed

end
