(* ===== verification/Heartbeat.thy ===== *)
theory Heartbeat
  imports Ephemeris_Laws Cell_Demo
begin

text \<open>
  From the SatelliteEphemeris controller to the NTNCellConfig controller: what the first publishes, as the second reads
  it. The theorem that joins the two is in the root theory.
\<close>

section \<open>What is published\<close>

text \<open>The part of the resource that the push reads.\<close>

definition push_view :: "SatelliteEphemeris \<Rightarrow> ObjectMeta \<times> SatelliteEphemerisSpec \<times> string \<times> PropagatedState list" where
  "push_view eph = (eph_Meta eph, eph_Spec eph, PropagatedStatesInputHash (eph_Status eph), PropagatedStates (eph_Status eph))"

lemma push_view_cond [simp]: "push_view (eph_set_cond M t s r m eph) = push_view eph"
  by (simp add: push_view_def)

lemma push_view_invalidate [simp]: "push_view (invalidatePassPredictionStatus M eph) = push_view eph"
  by (simp add: push_view_def invalidatePassPredictionStatus_def)

lemma push_view_gate [simp]: "push_view (pass_gate M sig eph) = push_view eph"
  by (simp add: pass_gate_def)

lemma push_view_predict: "predictPasses M L srt io eph pp g now = Some (Inr (note, eph')) \<Longrightarrow> push_view eph' = push_view eph"
  by (auto simp: predictPasses_def push_view_def Let_def split: sum.splits option.splits prod.splits)

lemma push_view_handle: "handlePassPrediction M L srt io eph g now = Some (Inr (a, b, eph')) \<Longrightarrow> push_view eph' = push_view eph"
  using push_view_predict [of M L srt io eph _ g now _ eph']
  by (auto simp: handlePassPrediction_def Let_def push_view_def split: option.splits if_splits sum.splits)

lemma push_view_sweep:
  assumes "sweep M L srt io p w = Some (e, err)" "WriteStatus st ok \<in> set e"
  shows "push_view st = push_view (pp_eph p)"
proof -
  obtain a b eph' where h: "handlePassPrediction M L srt io (pp_eph p) (pp_result p) (eio_now io) = Some (Inr (a, b, eph'))"
    "eph_Meta st = eph_Meta eph'" "eph_Spec st = eph_Spec eph'" "PropagatedStatesInputHash (eph_Status st) = PropagatedStatesInputHash (eph_Status eph')"
    "PropagatedStates (eph_Status st) = PropagatedStates (eph_Status eph')"
    using assms by (auto simp: sweep_def note_event_def Let_def persistEphStatus_def split: if_splits option.splits sum.splits prod.splits)
  then show ?thesis using push_view_handle [OF h(1)] by (simp add: push_view_def)
qed

lemma prepare_hash:
  "PropagatedStatesInputHash (eph_Status (pp_eph (prepare M L io oc eph))) = propagationInputHash (fe_IsPrint (eio_fetch io)) (eph_Spec eph)"
proof -
  obtain near deep where s: "SplitByOrbitRegime (OMMs (oc_result oc)) = (near, deep)" by fastforce
  let ?eph3 = "fst (reportOrbitRegime M (report_data M oc (eph_map (\<lambda>st. st\<lparr>SatelliteCount := gf_SatelliteCount (oc_result oc),
      LastUpdated := Some (FetchedAt (oc_result oc))\<rparr>) eph))
      (int (length (FilterOMMs deep (trackedNorad (eph_Spec eph))))) (DeepSpaceSummary (FilterOMMs deep (trackedNorad (eph_Spec eph)))))"
  obtain eph4 tr e4 where p: "propagateStates M L ?eph3 ((oc_result oc)\<lparr>OMMs := near\<rparr>) (eio_now_prop io + propagationEpochLead)
      = (eph4, tr, e4)" by (metis prod_cases3)
  let ?eph5 = "eph_map (\<lambda>st. st\<lparr>PropagatedStatesInputHash := propagationInputHash (fe_IsPrint (eio_fetch io)) (eph_Spec eph4)\<rparr>) eph4"
  have "\<exists>sig. pp_eph (prepare M L io oc eph) = pass_gate M sig ?eph5"
    using s p by (simp add: prepare_def Let_def split_beta time_Add_def) blast
  then have "push_view (pp_eph (prepare M L io oc eph)) = push_view ?eph5" by auto
  then show ?thesis using propagateStates_status(4) [OF p] by (simp add: push_view_def)
qed

text \<open>A reconcile that went on with data writes only this: the states of one instant, one per satellite, under the hash
  of the spec that was read; and it asks to run again after three minutes, unless it ends with the error of a cancelled
  sweep or a refused second write, which the work queue retries.\<close>

lemma published_states:
  assumes "eio_get io = Found eph" "eph_Reconcile M L srt io req r = Some (r', effs, res)"
    "Gauge ''GPFetchReady'' (eph_Key eph) 0 \<notin> set effs" "WriteStatus st ok \<in> set effs"
  obtains omms where "eph_Spec st = eph_Spec eph"
    "PropagatedStatesInputHash (eph_Status st) = propagationInputHash (fe_IsPrint (eio_fetch io)) (eph_Spec st)"
    "PropagatedStates (eph_Status st) = take maxPropagatedStates
       (List.map_filter (state_for L (eio_now_prop io) (eio_now_prop io + propagationEpochLead)) (canonicalizeOMMs omms))"
proof -
  have view: "\<exists>oc eph0. eph_Spec eph0 = eph_Spec eph \<and> push_view st = push_view (pp_eph (prepare M L io oc eph0))"
    using assms(1,2)
  proof (cases rule: reconcile_cases)
    case (early e1)
    then show ?thesis using assms(3) by simp
  next
    case (refused e1 oc eph0 eA w w' er)
    then have "st = pp_eph (prepare M L io oc eph0)" using assms(4)
      by (auto simp: persistEphStatus_def quiet_no_write [OF quiet_prepare] dest: quiet_no_write split: option.splits if_splits)
    then show ?thesis using refused(2) by blast
  next
    case (written e1 oc eph0 eA w w' eB errB)
    have "WriteStatus st ok \<notin> set (eventsA io oc p)" for oc p
      using eventsA_only [of io oc p] by (auto simp: list_all_iff)
    then have "WriteStatus st ok \<in> set eA \<or> WriteStatus st ok \<in> set eB"
      using written(1,5) assms(4) by (auto simp: quiet_no_write [OF quiet_prepare] dest: quiet_no_write)
    then have "push_view st = push_view (pp_eph (prepare M L io oc eph0))"
      using written(3) push_view_sweep [OF written(4)] by (auto simp: persistEphStatus_def split: option.splits if_splits)
    then show ?thesis using written(2) by blast
  qed
  then obtain oc eph0 where v: "eph_Spec eph0 = eph_Spec eph" "push_view st = push_view (pp_eph (prepare M L io oc eph0))" by blast
  show thesis
    by (rule that [of "FilterOMMs (fst (SplitByOrbitRegime (OMMs (oc_result oc)))) (trackedNorad (eph_Spec eph0))"])
       (use v prepare_fields [of M L io oc eph0] prepare_hash [of M L io oc eph0] in \<open>simp_all add: push_view_def\<close>)
qed

lemma republished_soon:
  assumes "eio_get io = Found eph" "eph_Reconcile M L srt io req r = Some (r', effs, res)"
    "Gauge ''GPFetchReady'' (eph_Key eph) 0 \<notin> set effs" "WriteStatus st True \<in> set effs"
  shows "res = Inr (3 * minute) \<or> (\<exists>er. res = Inl er \<and> (errors_Is er ContextDone \<or> eio_writeB io = Some er))"
proof -
  obtain i w eph0 where cl: "clampRefreshInterval M eph = (i, w, eph0)" by (metis prod_cases3)
  obtain r1 e1 out where aq: "acquireOMMs M L io r req eph0 i (eio_now io) w = (r1, e1, out)" by (metis prod_cases3)
  obtain oc where oc: "out = Inr oc"
    using assms(1-3) cl aq by (cases out) (auto simp: eph_Reconcile_def)
  let ?p = "prepare M L io oc eph0"
  obtain eA w' errA where pA: "persistEphStatus (eio_writeA io) (eio_recorder io) (pp_eph ?p) w = (eA, w', errA)"
    by (metis prod_cases3)
  have q: "WriteStatus st True \<notin> set e1" using acquire_acquired [OF aq] oc by (simp add: acquired_ok_def quiet_no_write)
  have "errA = None"
  proof (rule ccontr)
    assume "errA \<noteq> None"
    then show False using assms(1,2,4) cl aq oc pA q quiet_no_write [OF quiet_prepare, of st True M L io oc eph0]
      by (auto simp: eph_Reconcile_def Let_def persistEphStatus_def split: option.splits if_splits)
  qed
  moreover have "min i propagationRefreshInterval = 3 * minute" using clamp_fields(1) [OF cl] by (simp add: propagationRefreshInterval_def)
  ultimately obtain eB errB where "sweep M L srt io ?p w' = Some (eB, errB)" "res = (case errB of Some er \<Rightarrow> Inl er | None \<Rightarrow> Inr (3 * minute))"
    using assms(1,2) cl aq oc pA by (auto simp: eph_Reconcile_def Let_def split: option.splits)
  then show ?thesis using sweep_err [of M L srt io ?p w' eB] by (cases errB) auto
qed

section \<open>How it is read\<close>

lemma find_key:
  assumes "sorted_wrt (\<lambda>a b. f a < (f b :: int)) xs" "s \<in> set xs"
  shows "find (\<lambda>x. f x = f s) xs = Some s"
  using assms by (induction xs) auto

text \<open>A state propagated at \<open>t\<close> passes the gates up to eleven seconds before its epoch, while its elements are fresh.\<close>

lemma gate_open:
  assumes "state_for L t (t + propagationEpochLead) o' = Some s" "t \<le> cio_now io" "cio_now_skew io \<le> t + 3 * minute + 109 * second"
    "cio_now io \<le> UnixMilli (SourceEpochUnixMs s) + 7 * 24 * hour"
  shows "currency_gate io eph s = None"
proof -
  obtain u ecef where u: "u \<le> t + maxSourceEpochFutureSkew" "s = prop_state o' (t + propagationEpochLead) u ecef"
    using assms(1) by (auto simp: state_for_def not_less split: option.splits if_splits sum.splits)
  have "(cio_now_skew io + 10 * second - unix_epoch) div 1000000 < (t + propagationEpochLead - unix_epoch) div 1000000"
    using assms(3) by (simp add: propagationEpochLead_def)
  then have e: "\<not> EpochUnixMs s \<le> (time_Add (cio_now_skew io) epochSkewMargin - unix_epoch) div 1000000"
    using u(2) by (simp add: prop_state_def time_UnixMilli_def time_Add_def epochSkewMargin_def)
  have "UnixMilli (SourceEpochUnixMs s) \<le> u" using u(2) by (simp add: prop_state_def time_UnixMilli_def UnixMilli_def)
  then have p: "sourceEpochPlausible (cio_now io) (UnixMilli (SourceEpochUnixMs s)) = Inr ()"
    using u(1) assms(2) by (simp add: plausible_iff)
  have f: "sourceEpochFresh (cio_now io) (UnixMilli (SourceEpochUnixMs s)) = Inr ()"
    using assms(4) by (simp add: fresh_iff maxEpochAge_def)
  show ?thesis using e p f by (simp add: currency_gate_def Let_def)
qed

section \<open>An instance\<close>

text \<open>A reconcile inside the refresh window that publishes the ISS.\<close>

abbreviation iss_io :: eph_io where
  "iss_io \<equiv> demo_io jan1 demo_eph"

abbreviation iss_warm :: EphemerisReconciler where
  "iss_warm \<equiv> warm_with demo_eph (iss_result\<lparr>FetchedAt := jan1\<rparr>)"

lemma iss_published:
  obtains effs res st where "eph_Reconcile list_meta iss_lib insertion_sort iss_io (eph_Key demo_eph) iss_warm = Some (iss_warm, effs, res)"
    "Gauge ''GPFetchReady'' (eph_Key demo_eph) 0 \<notin> set effs" "WriteStatus st True \<in> set effs" "PropagatedStates (eph_Status st) = [iss_state]"
proof -
  let ?g = "iss_result\<lparr>FetchedAt := jan1\<rparr>"
  let ?e = "fresh_entry ?g (fetchInputKey (\<lambda>r. 32 \<le> r \<and> r < 127) (eph_Spec demo_eph)) (eph_UID demo_eph)"
  obtain i w eph0 where cl: "clampRefreshInterval list_meta demo_eph = (i, w, eph0)" by (metis prod_cases3)
  note c0 = clamp_fields [OF cl]
  let ?p = "prepare list_meta iss_lib iss_io (from_cache ?g) eph0"
  have "matchingCache (fe_IsPrint (eio_fetch iss_io)) iss_warm (eph_Key demo_eph) eph0 = Some ?e"
    using warm_matching [of demo_eph ?g] matchingCache_cong [OF c0(3,4)] by simp
  moreover have "time_Sub jan1 (FetchedAt ?g) < i" using c0(1) by (simp add: time_Sub_def min_int64_def)
  ultimately have serve: "cacheServe (fe_IsPrint (eio_fetch iss_io)) iss_warm (eph_Key demo_eph) eph0 jan1 i = cacheServeWindow ?e"
    by (simp add: cacheServe_def fresh_entry_def)
  have "rec_ommCache iss_warm (eph_Key demo_eph) = Some ?e" by (simp add: warm_with_def store_def)
  from acquire_window [OF this serve, of list_meta iss_lib w]
  have a: "acquireOMMs list_meta iss_lib iss_io iss_warm (eph_Key demo_eph) eph0 i jan1 w = (iss_warm, [], Inr (from_cache ?g))"
    by (simp only: cf_result_fresh)
  have "PassPrediction (eph_Spec demo_eph) = None" by (simp add: demo_eph_def)
  then have due: "\<not> pp_due ?p" using prepare_sig [of eph0 list_meta iss_lib iss_io "from_cache ?g"] c0(4) by (auto simp: passSweepDecision_def)
  have quietp: "Gauge ''GPFetchReady'' (eph_Key demo_eph) 0 \<notin> set (pp_effects ?p)"
    by (simp add: prepare_def Let_def split_beta propagateStates_def reportEphemerisEpochStale_def reportPropagationFailed_def)
  have ev: "Gauge n k v \<notin> set (eventsA iss_io (from_cache ?g) ?p)" for n k v
    using eventsA_only [of iss_io "from_cache ?g" ?p] by (auto simp: list_all_iff)
  obtain eA w' errA where pA: "persistEphStatus None True (pp_eph ?p) w = (eA, w', errA)" by (metis prod_cases3)
  have "errA = None" "WriteStatus (pp_eph ?p) True \<in> set eA" "Gauge n k v \<notin> set eA" for n k v
    using pA by (auto simp: persistEphStatus_def split: if_splits)
  note A = this
  have "\<exists>res. eph_Reconcile list_meta iss_lib insertion_sort iss_io (eph_Key demo_eph) iss_warm =
      Some (iss_warm, pp_effects ?p @ eA @ eventsA iss_io (from_cache ?g) ?p, res)"
    using cl a due pA A(1) by (simp add: eph_Reconcile_def sweep_def Let_def)
  then obtain res where r: "eph_Reconcile list_meta iss_lib insertion_sort iss_io (eph_Key demo_eph) iss_warm =
      Some (iss_warm, pp_effects ?p @ eA @ eventsA iss_io (from_cache ?g) ?p, res)" by blast
  have "PropagatedStates (eph_Status (pp_eph ?p)) = [iss_state]"
    using prepare_fields(3) [of list_meta iss_lib iss_io "from_cache ?g" eph0] c0(4) iss_canonical iss_state_for
    by (simp add: from_cache_def iss_result_def FilterOMMs_def trackedNorad_def demo_eph_def SplitByOrbitRegime_filter iss_near
        map_filter_Cons List.map_filter_simps(2) maxPropagatedStates_def propagationEpochLead_def)
  from that [OF r _ _ this] quietp ev A show thesis by auto
qed

end
