(* ===== verification/Metrics_Exporter.thy ===== *)
theory Metrics_Exporter
  imports Failover_Laws
begin

text \<open>
  The synthetic metrics exporter, \<open>cmd/test-metrics-exporter\<close>: the simulator of a radio path that is healthy during a
  pass and degraded in the gap after it (\<open>simulator.go\<close>), the check of its flags (\<open>main.go\<close>) and the gauges a scrape
  sets (\<open>handler.go\<close>). It exists to drive the failover engine end to end; \<open>exporter_drives_failover\<close> shows that it does,
  with the triggers its documentation names.
\<close>

section \<open>The simulator\<close>

record SimulatedMetrics =
  sim_RsrpDbm :: f64
  sim_LatencyMs :: f64
  sim_PacketLossPercent :: f64
  InPass :: bool

definition healthyMetrics :: SimulatedMetrics where
  "healthyMetrics = \<lparr>sim_RsrpDbm = Fin (- 80), sim_LatencyMs = Fin 20, sim_PacketLossPercent = round64 (1 / 10), InPass = True\<rparr>"

definition degradedMetrics :: SimulatedMetrics where
  "degradedMetrics = \<lparr>sim_RsrpDbm = Fin (- 140), sim_LatencyMs = Fin 250, sim_PacketLossPercent = Fin (15 / 2), InPass = False\<rparr>"

record Simulator =
  sim_Start :: time
  PassDuration :: duration
  GapDuration :: duration

text \<open>The cycle is an \<open>int64\<close> sum and \<open>Sub\<close> saturates; the remainder of two positive numbers is \<open>mod\<close>.\<close>

definition ValuesAt :: "Simulator \<Rightarrow> time \<Rightarrow> SimulatedMetrics" where
  "ValuesAt s t =
     (let cycle = wrap64 (PassDuration s + GapDuration s); offset = time_Sub t (sim_Start s) in
      if cycle \<le> 0 then degradedMetrics
      else if offset < 0 then degradedMetrics
      else if offset mod cycle < PassDuration s then healthyMetrics else degradedMetrics)"

section \<open>Flags and scrapes\<close>

definition buildSimulator :: "time \<Rightarrow> duration \<Rightarrow> duration \<Rightarrow> Simulator result" where
  "buildSimulator now pass gap =
     (let problems = (if pass \<le> 0 then [[Lit ''pass-duration must be positive, got '', Dur pass]] else [])
            @ (if gap \<le> 0 then [[Lit ''gap-duration must be positive, got '', Dur gap]] else []) in
      if problems \<noteq> [] then Inl (Errorf (concat (hd problems # map (\<lambda>p. Lit ''; '' # p) (tl problems))))
      else Inr \<lparr>sim_Start = now, PassDuration = pass, GapDuration = gap\<rparr>)"

text \<open>The gauges that a scrape at \<open>now\<close> sets before the registry is rendered.\<close>

definition ServeHTTP :: "Simulator \<Rightarrow> time \<Rightarrow> (string \<times> f64) list" where
  "ServeHTTP s now =
     (let v = ValuesAt s now in
      [(''ntn_e2e_rsrp_dbm'', sim_RsrpDbm v), (''ntn_e2e_latency_ms'', sim_LatencyMs v),
       (''ntn_e2e_packet_loss_percent'', sim_PacketLossPercent v), (''ntn_e2e_in_pass'', if InPass v then Fin 1 else Fin 0)])"

section \<open>The cycle\<close>

lemma built: "buildSimulator now pass gap = Inr s \<longleftrightarrow> 0 < pass \<and> 0 < gap \<and> s = \<lparr>sim_Start = now, PassDuration = pass, GapDuration = gap\<rparr>"
  by (auto simp: buildSimulator_def Let_def)

lemma values_cycle:
  assumes "buildSimulator now pass gap = Inr s" "pass + gap \<le> max_int64" "now \<le> t" "t - now \<le> max_int64"
  shows "ValuesAt s t = (if (t - now) mod (pass + gap) < pass then healthyMetrics else degradedMetrics)"
proof -
  have s: "0 < pass" "0 < gap" "s = \<lparr>sim_Start = now, PassDuration = pass, GapDuration = gap\<rparr>" using assms(1) built by blast+
  have "wrap64 (pass + gap) = pass + gap" using s(1,2) assms(2) by (simp add: wrap64_def max_int64_def)
  moreover have "time_Sub t now = t - now" using assms(3,4) by (simp add: time_Sub_def min_int64_def)
  ultimately show ?thesis using s assms(3) by (simp add: ValuesAt_def)
qed

text \<open>Two positive durations whose sum leaves \<open>int64\<close> pass the check of the flags, and every scrape is degraded.\<close>

lemma cycle_overflows:
  "buildSimulator now max_int64 1 = Inr s \<Longrightarrow> ValuesAt s t = degradedMetrics"
  by (auto simp: built ValuesAt_def wrap64_def max_int64_def)

section \<open>The engine under the exporter\<close>

definition e2e_triggers :: "string list" where
  "e2e_triggers = [''rsrp < -120'', ''latency > 200'', ''packetLoss > 5'']"

text \<open>What the Prometheus reader makes of a scrape when every query has an answer.\<close>

definition scraped :: "SimulatedMetrics \<Rightarrow> Metrics" where
  "scraped v = \<lparr>RSRP = sim_RsrpDbm v, LatencyMs = sim_LatencyMs v, PacketLossPercent = sim_PacketLossPercent v,
     RSRPMissing = False, LatencyMissing = False, PacketLossMissing = False\<rparr>"

lemma e2e_trim:
  "TrimSpace ''latency > 200'' = ''latency > 200''" "TrimSpace ''latency '' = ''latency''" "TrimSpace '' 200'' = ''200''"
  "TrimSpace ''packetLoss > 5'' = ''packetLoss > 5''" "TrimSpace ''packetLoss '' = ''packetLoss''" "TrimSpace '' 5'' = ''5''"
  using TrimSpace_none [of "''latency > 200''"] TrimSpace_right [of "''latency''" 1] TrimSpace_left [of "''200''" 1]
    TrimSpace_none [of "''packetLoss > 5''"] TrimSpace_right [of "''packetLoss''" 1] TrimSpace_left [of "''5''" 1]
  by (simp_all add: graphic_def)

lemma e2e_float: "ParseFloat ''200'' = Inr (Fin 200)" "ParseFloat ''5'' = Inr (Fin 5)"
  by (simp_all add: ParseFloat_def read_float_def has_hex_prefix_def digit_val_def to_lower_def ToLower_def)

lemma e2e_parse:
  "ParseTrigger ''latency > 200'' = Inr \<lparr>Metric = ''latency'', Operator = ''>'', Value = Fin 200\<rparr>"
  "ParseTrigger ''packetLoss > 5'' = Inr \<lparr>Metric = ''packetLoss'', Operator = ''>'', Value = Fin 5\<rparr>"
  by (simp_all add: ParseTrigger_def parse_parts_def e2e_trim e2e_float IsNaN_def IsInf_def validMetrics_def metric_names)

lemma e2e_degraded: "terrestrialDegraded e2e_triggers (scraped degradedMetrics)" "\<not> terrestrialDegraded e2e_triggers (scraped healthyMetrics)"
proof -
  have "f64_le (round64 (1 / 10)) (round64 5)" by (rule round64_mono) simp
  then have "\<not> f64_less (Fin 5) (round64 (1 / 10))" by (cases "round64 (1 / 10)") auto
  then show "terrestrialDegraded e2e_triggers (scraped degradedMetrics)" "\<not> terrestrialDegraded e2e_triggers (scraped healthyMetrics)"
    by (simp_all add: e2e_triggers_def terrestrialDegraded.simps ex_parse e2e_parse metricMissing_def Evaluate_def actual_of_def metric_names
        scraped_def degradedMetrics_def healthyMetrics_def)
qed

lemma e2e_sourced: "InertTriggers e2e_triggers (scraped v) = []" "\<not> allInvalid (parseTriggerSet e2e_triggers m)"
  by (simp_all add: e2e_triggers_def InertTriggers.simps ex_parse e2e_parse metricMissing_def metric_names scraped_def trigger_set_simps)

text \<open>The exporter drives the engine the way its documentation says: with the default triggers and a satellite
  overhead, a slice on the terrestrial path fails over exactly at the scrapes of a gap, and a slice on the satellite
  whose delay has elapsed switches back exactly at the scrapes of a pass, cycle after cycle.\<close>

theorem exporter_drives_failover:
  assumes "buildSimulator now pass gap = Inr s" "pass + gap \<le> max_int64" "now \<le> t" "t - now \<le> max_int64"
    "IsZero l \<or> d \<le> time_Sub n l"
  shows "(Decision (EvaluateFailover PathTerrestrial e2e_triggers (scraped (ValuesAt s t)) True d l n) = DecisionFailover
       \<longleftrightarrow> pass \<le> (t - now) mod (pass + gap))
     \<and> (Decision (EvaluateFailover PathSatellite e2e_triggers (scraped (ValuesAt s t)) True d l n) = DecisionSwitchback
       \<longleftrightarrow> (t - now) mod (pass + gap) < pass)"
proof -
  have "terrestrialDegraded e2e_triggers (scraped (ValuesAt s t)) \<longleftrightarrow> pass \<le> (t - now) mod (pass + gap)"
    using values_cycle [OF assms(1-4)] e2e_degraded by auto
  then show ?thesis using assms(5) e2e_sourced
    by (auto simp: EvaluateFailover_def EvaluateFailoverWithContext_def trigger_set_simps Let_def)
qed

theorem exporter_drives_failover_witness:
  "\<exists>s. buildSimulator 0 (30 * second) (30 * second) = Inr s
     \<and> Decision (EvaluateFailover PathTerrestrial e2e_triggers (scraped (ValuesAt s (100 * second))) True (60 * second) 0 0) = DecisionFailover"
proof -
  obtain s where s: "buildSimulator 0 (30 * second) (30 * second) = Inr s" by (simp add: buildSimulator_def)
  have "Decision (EvaluateFailover PathTerrestrial e2e_triggers (scraped (ValuesAt s (100 * second))) True (60 * second) 0 0) = DecisionFailover
      \<longleftrightarrow> 30 * second \<le> (100 * second - 0) mod (30 * second + 30 * second)"
    using exporter_drives_failover [OF s, of "100 * second" 0 "60 * second" 0] by (simp add: max_int64_def IsZero_def)
  then show ?thesis using s by simp
qed

end
