(* ===== verification/Spec2Isabelle.thy ===== *)
theory Spec2Isabelle
  imports Trigger_Admission Netutil Slice_Laws Ground_Laws Ground_Label Pass_Predictor Gp_Fetcher Ephemeris_Backoff Cell_Demo Heartbeat Metrics_Exporter
begin

text \<open>
  Verification of the NTN Kubernetes operators: four controllers that keep the non-terrestrial part of a 5G network in
  step with the satellites above it.

  \<^bold>\<open>The program and how its parts interact.\<close> A \<open>SatelliteEphemeris\<close> names a source of orbital elements. Its
  controller fetches them (\<open>pkg/ephemeris\<close>), keeps them in memory and in a ConfigMap, propagates every tracked satellite
  to a moment five minutes ahead, every three minutes, and predicts the passes over the ground stations. An
  \<open>NTNCellConfig\<close> describes a cell; its controller renders the configuration of the gNB into a ConfigMap through a
  provider (\<open>pkg/provider/ocudu\<close>) and pushes the propagated state of one satellite to the running gNB. An \<open>NTNSlice\<close>
  moves traffic between the terrestrial and the satellite path: its controller reads the quality of the path
  (\<open>pkg/slice/metrics\<close>) and the predicted passes, and decides with the failover engine (\<open>pkg/slice/failover.go\<close>). A
  \<open>GroundStationLifecycle\<close> labels a node, probes the station and updates its firmware inside a maintenance window. The
  controllers share status conditions, deferred events, watch filters (\<open>internal/controller\<close>) and the guard on outgoing
  connections (\<open>pkg/netutil\<close>).

  \<^bold>\<open>Conventions.\<close> Go's \<open>int\<close>, \<open>int64\<close> and \<open>time.Duration\<close> are integers, with the 64-bit wrap-around or saturation
  written out where a value can reach it (\<open>wrap64\<close>, \<open>time_Sub\<close>, \<open>uint64\<close>); \<open>float64\<close> is rational arithmetic with IEEE
  rounding after every operation (\<open>Go_Float\<close>, \<open>Go_Math\<close>); a string is its list of bytes, and runes are decoded from it
  (\<open>Go_Utf8\<close>). An error is a value with its message and the sentinels it wraps, so that \<open>errors.Is\<close> is a membership
  test. A message is kept as the list of its pieces where only its identity matters, and as bytes where the program
  hashes, compares or sends it. A reconcile is a function of the reconciler's memory and of a record of everything it
  reads from outside (\<open>slice_io\<close>, \<open>gs_io\<close>, \<open>eph_io\<close>, \<open>cell_io\<close>: the answers of the API server, one field for every
  reading of the clock, DNS, the recorder); it returns its effects in order and its result, and every early return is a
  branch. Log lines are left out. Histories are lists of such steps (\<open>history\<close>, \<open>eph_reach\<close>, \<open>outage\<close>, \<open>station_reach\<close> and the runs
  of the failover engine), with other writers between them.

  \<^bold>\<open>What is a parameter.\<close> The condition helpers of apimachinery (\<open>meta_api\<close>, hypotheses \<open>meta_laws\<close>, instance
  \<open>list_meta\<close>); the SGP4 library with the platform's sine and cosine (\<open>sgp4_api\<close>); \<open>sort.Slice\<close>, which is not stable
  (\<open>sorter\<close>, hypothesis \<open>sorts\<close>); HTTP, cookies and JSON decoding of the fetchers (\<open>fetch_env\<close>); \<open>net/url\<close>, DNS and TCP
  (\<open>Netutil\<close>); the Prometheus client (\<open>metrics_env\<close>); owner references of controller-runtime (\<open>ocudu_io\<close>, hypotheses
  \<open>owner_api_laws\<close>); the websocket library (\<open>ws_io\<close>); certificate parsing and header validation (\<open>cell_io\<close>). That the
  API server answers a read by name with an object of that name is \<open>named_reads\<close>. Every theorem with such a hypothesis
  has a witness at a concrete instance.

  \<^bold>\<open>The theories.\<close>
  \<^item> \<open>Go_Prelude\<close>, \<open>Go_Strings\<close>, \<open>Go_Utf8\<close>, \<open>Go_Quote\<close>, \<open>Go_Float\<close>, \<open>Go_Math\<close>, \<open>Go_Ftoa\<close>, \<open>Go_Time\<close>, \<open>Go_Json\<close>,
    \<open>Go_Sha256\<close>: what the program uses of the language and its library, with the lemmas the components share (rounding
    is monotone, a formatted float reads back, a quoted string is found again in a text, SHA-256 runs).
  \<^item> \<open>Kube_Meta\<close>, \<open>Ephemeris_Freshness\<close>, \<open>Netutil\<close>: the shared parts of \<open>internal/controller\<close> and \<open>pkg/netutil\<close>. The
    dialer connects to no private address, whatever the resolver answers and however the address is embedded.
  \<^item> \<open>Failover\<close>, \<open>Failover_Laws\<close> (\<open>pkg/slice/failover.go\<close>): the trigger language, the evaluation and the anti-flap
    clocks. The locale \<open>failover_engine\<close> is the contract of an evaluation; the four evaluators of the code are its
    interpretations. The laws are on runs of samples: the end of a pass forces the terrestrial path, satellite only
    while one is overhead, failover exactly after the confirmed samples, switchback after the delay.
  \<^item> \<open>Slice_Api\<close>, \<open>Trigger_Admission\<close>, \<open>Slice_Metrics\<close>, \<open>Slice_Provider\<close>, \<open>Slice_Controller\<close>, \<open>Slice_Laws\<close>
    (\<open>api/v1alpha1/ntnslice_types.go\<close>, \<open>pkg/slice/metrics\<close>, \<open>internal/controller/ntnslice_controller.go\<close>): admission by a
    regular expression matcher, the readers with their staleness, the provider of readers as a refinement of a map
    (locale \<open>reader_provider\<close>), and the reconcile: the path changes on evidence only, effects follow the status write,
    the dwell survives a restart.
  \<^item> \<open>Maintenance_Window\<close>, \<open>Ground_Station\<close>, \<open>Ground_Label\<close>, \<open>Ground_Laws\<close> (\<open>pkg/lifecycle\<close>,
    \<open>internal/controller/groundstationlifecycle_controller.go\<close>): the window, the label of the node, the phase machine
    over any history.
  \<^item> \<open>Orbit_Elements\<close>, \<open>Pass_Predictor\<close>, \<open>Gp_Fetcher\<close> (\<open>pkg/ephemeris\<close>): validity of element sets, propagation to
    codepoints in range, pass windows by bisection and the worker pool as a transition system whose every interleaving
    ends and gives the same answer, the fetchers with their sessions and redirects.
  \<^item> \<open>Ephemeris_State\<close>, \<open>Omm_Cache\<close>, \<open>Ephemeris_Propagation\<close>, \<open>Ephemeris_Passes\<close>, \<open>Ephemeris_Controller\<close>,
    \<open>Ephemeris_Laws\<close>, \<open>Ephemeris_Backoff\<close> (\<open>internal/controller/satelliteephemeris_controller.go\<close> and
    \<open>satelliteephemeris_ommcache_persist.go\<close>): the cache and its ConfigMap, the choice of one element set per satellite
    (locale \<open>one_per_satellite\<close>), the sweep and the reconcile. The heartbeat of the states goes on through an outage, only
    valid elements are propagated, windows are never vouched for with old inputs, and over any run of reconciles
    without a successful fetch (\<open>outage\<close>) the calls of the source keep the pauses of the backoff.
  \<^item> \<open>Cell_Api\<close> (\<open>api/v1alpha1/ntncellconfig_types.go\<close>, \<open>pkg/provider/interface.go\<close>); \<open>Ocudu_Config\<close>,
    \<open>Ocudu_Provider\<close>, \<open>Ocudu_Wire\<close> (\<open>config.go\<close>, \<open>provider.go\<close>, \<open>wsclient.go\<close> of \<open>pkg/provider/ocudu\<close>): the document as
    the list of its lines, the ConfigMap with every failure of the API server, the frame and the exchange. Rewriting the
    ephemeris equals generating anew, no foreign ConfigMap is touched, the outcome of a push is classified exactly.
  \<^item> \<open>Cell_Push\<close>, \<open>Cell_Controller\<close>, \<open>Cell_Contract\<close>, \<open>Cell_Laws\<close>, \<open>Cell_Order\<close>, \<open>Cell_Steady\<close>, \<open>Cell_Demo\<close>
    (\<open>internal/controller/ntncellconfig_controller.go\<close>): the reconcile, case rules on how it is put together, and the
    locale \<open>ntn_provider\<close>, the contract of the provider interface, which the OCUDU provider satisfies. The laws: only a
    current state of the selected satellite is sent, a token goes only to a pinned and allowed endpoint, a Secret that
    does not resolve cannot be told from another, a satellite switch is sent once, the finalizer goes after the
    artifact, a cell that has converged is left alone, and one that is not retried waits for something that is watched.
    \<open>ocudu_reconciler\<close> is the wiring of \<open>cmd/main.go\<close>.
  \<^item> \<open>Metrics_Exporter\<close> (\<open>cmd/test-metrics-exporter\<close>): the simulator that drives the failover engine in end-to-end tests,
    and that it does.
  \<^item> \<open>Heartbeat\<close> and this theory: the composition of the SatelliteEphemeris and the NTNCellConfig controller.

  \<^bold>\<open>Bounds.\<close> The bisection of a pass boundary is the code's loop of 40 halvings. The search for the shortest decimal
  is bounded by 1500 steps and \<open>shortest_total\<close> shows that a float never needs more. The worker pool has no fuel: a run
  is any list of its events, and \<open>pool_terminates\<close> bounds the length of every run. All other recursion is structural or
  has a termination proof. A pass sweep takes the schedule of the pool as an answer from outside, and \<open>None\<close> is a
  schedule that is not complete.

  \<^bold>\<open>Not modelled.\<close> \<open>cmd/main.go\<close> beyond the wiring above and the \<open>SetupWithManager\<close> functions (flags, manager, watches:
  calls into controller-runtime), \<open>pkg/metrics\<close> (declarations of collectors; updates are effects of the controllers),
  generated deep copies (values are immutable here), the mock provider (a test double), and the HTTP server around the simulator.
  Mutexes of the caches are not modelled: each operation on them is one step. Reconciles of one object do not overlap,
  which controller-runtime guarantees.
\<close>

section \<open>From the ephemeris to the cell\<close>

text \<open>C6: What the ephemeris controller publishes, a cell can deliver. Take any status written by a reconcile of a
  SatelliteEphemeris that had data, and a cell with a remote control that selects one of its satellites and reads that
  status at most three minutes and 109 seconds after the propagation, while the elements are at most seven days old.
  Then no gate of the cell holds the state back: it is found to be delivered already, or the delivery of exactly this
  state is attempted. The ephemeris controller asks to run again after exactly three minutes, so a heartbeat that is at
  most 109 seconds late leaves no gap; only a cancelled pass sweep or a refused second write ends it with an error, which
  the work queue retries. The age of the elements stays a condition: the ephemeris controller also publishes states of
  older elements (with the condition \<open>EphemerisEpochStale\<close>), and the cell refuses those.\<close>

theorem heartbeat_delivered:
  assumes produced: "eio_get eio = Found eph" "eph_Reconcile M L srt eio req r = Some (r', effs, res)"
      "Gauge ''GPFetchReady'' (eph_Key eph) 0 \<notin> set effs" "WriteStatus st True \<in> set effs"
    and read: "cio_eph io \<lparr>nn_Namespace = om_Namespace (cc_Meta cc), nn_Name = EphemerisRef spec\<rparr> = Found st"
      "cio_IsPrint io = fe_IsPrint (eio_fetch eio)"
    and selected: "s \<in> set (PropagatedStates (eph_Status st))" "EphemerisNoradID spec = Some (prop_NoradID s)"
    and wired: "EphemerisRef spec \<noteq> ''''" "RemoteControl (cs_Provider spec) = Some rc" "cs_CellID spec = Some cell"
    and clock: "eio_now_prop eio \<le> cio_now io" "cio_now_skew io \<le> eio_now_prop eio + 3 * minute + 109 * second"
      "cio_now io \<le> UnixMilli (SourceEpochUnixMs s) + 7 * 24 * hour"
  shows "pushEphemerisUpdateIfNeeded M R io cc spec prov =
      (let m = runtimeEphemerisPushMarker st s in
       if isEphemerisPushUpToDate M cc m then (Inr (False, m), cc, [])
       else deliver R io cc spec st prov rc cell s m)
     \<and> (res = Inr (3 * minute) \<or> (\<exists>er. res = Inl er \<and> (errors_Is er ContextDone \<or> eio_writeB eio = Some er)))"
proof -
  let ?t = "eio_now_prop eio"
  from produced obtain omms where pub: "PropagatedStatesInputHash (eph_Status st) = propagationInputHash (fe_IsPrint (eio_fetch eio)) (eph_Spec st)"
    "PropagatedStates (eph_Status st) = take maxPropagatedStates
       (List.map_filter (state_for L ?t (?t + propagationEpochLead)) (canonicalizeOMMs omms))"
    by (rule published_states)
  obtain o' where o': "state_for L ?t (?t + propagationEpochLead) o' = Some s"
    using selected(1) unfolding pub(2) by (auto simp: List.map_filter_def dest!: in_set_takeD)
  have "sorted_wrt (\<lambda>a b. prop_NoradID a < prop_NoradID b) (PropagatedStates (eph_Status st))"
    unfolding pub(2) by (intro sorted_wrt_take map_filter_sorted canon.select_sorted)
  from find_key [OF this selected(1)] have "selectPropagatedState (PropagatedStates (eph_Status st)) (EphemerisNoradID spec) = Some s"
    using selected by (cases "PropagatedStates (eph_Status st)") (simp_all add: selectPropagatedState_def)
  moreover have "currency_gate io st s = None" by (rule gate_open [OF o' clock])
  ultimately have "pushEphemerisUpdateIfNeeded M R io cc spec prov =
      (let m = runtimeEphemerisPushMarker st s in
       if isEphemerisPushUpToDate M cc m then (Inr (False, m), cc, [])
       else deliver R io cc spec st prov rc cell s m)"
    using read pub(1) selected(2) wired by (simp add: pushEphemerisUpdateIfNeeded_def pushRuntimeEphemeris_def Let_def)
  then show ?thesis using republished_soon [OF produced] by blast
qed

text \<open>A cell that selects the ISS, a minute after the ISS was published.\<close>

theorem heartbeat_delivered_witness:
  "\<exists>st m. let io = (live_io live_cell)\<lparr>cio_eph := \<lambda>_. Found st, cio_now := jan1 + minute, cio_now_skew := jan1 + minute,
         cio_IsPrint := fe_IsPrint (eio_fetch iss_io)\<rparr>;
       spec = live_spec\<lparr>EphemerisNoradID := Some (prop_NoradID iss_state)\<rparr> in
     m = runtimeEphemerisPushMarker st iss_state \<and>
     pushEphemerisUpdateIfNeeded list_meta (live_R no_maps) io live_cell spec (live_prov no_maps) =
       (if isEphemerisPushUpToDate list_meta live_cell m then (Inr (False, m), live_cell, [])
        else deliver (live_R no_maps) io live_cell spec st (live_prov no_maps) live_rc live_id iss_state m)"
proof (rule iss_published)
  fix effs res st
  assume p: "eph_Reconcile list_meta iss_lib insertion_sort iss_io (eph_Key demo_eph) iss_warm = Some (iss_warm, effs, res)"
    "Gauge ''GPFetchReady'' (eph_Key demo_eph) 0 \<notin> set effs" "WriteStatus st True \<in> set effs" "PropagatedStates (eph_Status st) = [iss_state]"
  let ?io = "(live_io live_cell)\<lparr>cio_eph := \<lambda>_. Found st, cio_now := jan1 + minute, cio_now_skew := jan1 + minute,
         cio_IsPrint := fe_IsPrint (eio_fetch iss_io)\<rparr>"
  let ?spec = "live_spec\<lparr>EphemerisNoradID := Some (prop_NoradID iss_state)\<rparr>"
  have src: "UnixMilli (SourceEpochUnixMs iss_state) = jan1"
    by (simp add: iss_state_def prop_state_def UnixMilli_def time_UnixMilli_def jan1_def unix_epoch_def)
  have "pushEphemerisUpdateIfNeeded list_meta (live_R no_maps) ?io live_cell ?spec (live_prov no_maps) =
       (let m = runtimeEphemerisPushMarker st iss_state in
        if isEphemerisPushUpToDate list_meta live_cell m then (Inr (False, m), live_cell, [])
        else deliver (live_R no_maps) ?io live_cell ?spec st (live_prov no_maps) live_rc live_id iss_state m)"
    by (rule heartbeat_delivered [OF demo_io_simps(1) p(1-3), THEN conjunct1]) (use p(4) src in simp_all)
  then show ?thesis unfolding Let_def by blast
qed

end
